(* ===== verification/Prelude.thy ===== *)
theory Prelude
  imports Main "HOL-Library.Word"
begin

text \<open>
  Shared notions of the development: machine integers, results, and the small
  lemmas on results, association lists and maps that the component theories use.

  A Rust \<open>Result<T, E>\<close> is a sum \<open>'e + 'a\<close> (\<open>Inl\<close> the error), the \<open>?\<close> operator is
  \<open>rbind\<close>, \<open>with_context\<close> rewrites the error, \<open>Option::ok_or_else\<close> is \<open>ok_or\<close> and
  an early \<open>bail!\<close> behind a condition is \<open>require\<close>.
\<close>

section \<open>Machine integers\<close>

type_synonym u8 = "8 word"
type_synonym u16 = "16 word"
type_synonym u32 = "32 word"
type_synonym u64 = "64 word"
type_synonym bytes = "u8 list"

definition saturating_mul_u64 :: "u64 \<Rightarrow> u64 \<Rightarrow> u64" where
  "saturating_mul_u64 a b = (if unat a * unat b < 2 ^ 64 then a * b else - 1)"

definition saturating_sub_u32 :: "u32 \<Rightarrow> u32 \<Rightarrow> u32" where
  "saturating_sub_u32 a b = (if b \<le> a then a - b else 0)"

lemma unat_saturating_mul_u64:
  "unat (saturating_mul_u64 a b) = min (unat a * unat b) (2 ^ 64 - 1)"
proof (cases "unat a * unat b < 2 ^ 64")
  case True
  then have "unat (a * b) = unat a * unat b"
    by (simp add: unat_word_ariths)
  with True show ?thesis by (simp add: saturating_mul_u64_def)
next
  case False
  have "unat (- 1 :: u64) = 2 ^ 64 - 1"
    by (simp add: unsigned_minus_1_eq_mask mask_eq_exp_minus_1)
  with False show ?thesis by (simp add: saturating_mul_u64_def)
qed

lemma unat_saturating_sub_u32: "unat (saturating_sub_u32 a b) = unat a - unat b"
  by (simp add: saturating_sub_u32_def unat_sub word_le_nat_alt)

lemma unat_suc_u32: "unat (p :: u32) < 2 ^ 32 - 1 \<Longrightarrow> unat (p + 1) = Suc (unat p)"
  by (simp add: unat_word_ariths)

section \<open>Results\<close>

named_theorems result_simps \<open>unfolding of the result combinators\<close>

fun rbind :: "'e + 'a \<Rightarrow> ('a \<Rightarrow> 'e + 'b) \<Rightarrow> 'e + 'b" where
  "rbind (Inl e) f = Inl e"
| "rbind (Inr x) f = f x"

fun with_context :: "('e \<Rightarrow> 'f) \<Rightarrow> 'e + 'a \<Rightarrow> 'f + 'a" where
  "with_context g (Inl e) = Inl (g e)"
| "with_context g (Inr x) = Inr x"

fun ok_or :: "'e \<Rightarrow> 'a option \<Rightarrow> 'e + 'a" where
  "ok_or e None = Inl e"
| "ok_or e (Some x) = Inr x"

definition require :: "bool \<Rightarrow> 'e \<Rightarrow> 'e + unit" where
  "require c e = (if c then Inr () else Inl e)"

definition is_ok :: "'e + 'a \<Rightarrow> bool" where
  "is_ok r = (case r of Inl _ \<Rightarrow> False | Inr _ \<Rightarrow> True)"

definition ok_option :: "'e + 'a \<Rightarrow> 'a option" where
  "ok_option r = (case r of Inl _ \<Rightarrow> None | Inr x \<Rightarrow> Some x)"

lemma is_ok_simps [simp]: "is_ok (Inr x)" "\<not> is_ok (Inl e)"
  by (simp_all add: is_ok_def)

lemma ok_option_simps [simp]: "ok_option (Inr x) = Some x" "ok_option (Inl e) = None"
  by (simp_all add: ok_option_def)

lemma is_ok_iff: "is_ok r \<longleftrightarrow> (\<exists>x. r = Inr x)"
  by (cases r) simp_all

lemma rbind_eq_Inr_iff [result_simps]:
  "rbind m f = Inr y \<longleftrightarrow> (\<exists>x. m = Inr x \<and> f x = Inr y)"
  by (cases m) auto

lemma rbind_eq_Inl_iff:
  "rbind m f = Inl e \<longleftrightarrow> m = Inl e \<or> (\<exists>x. m = Inr x \<and> f x = Inl e)"
  by (cases m) auto

lemma is_ok_rbind: "is_ok (rbind m f) \<longleftrightarrow> (\<exists>x. m = Inr x \<and> is_ok (f x))"
  by (cases m) auto

lemma with_context_eq_Inr_iff [result_simps]: "with_context g m = Inr x \<longleftrightarrow> m = Inr x"
  by (cases m) auto

lemma is_ok_with_context [simp]: "is_ok (with_context g m) = is_ok m"
  by (cases m) auto

lemma ok_or_eq_Inr_iff [result_simps]: "ok_or e m = Inr x \<longleftrightarrow> m = Some x"
  by (cases m) auto

lemma require_eq_Inr_iff [result_simps]: "require c e = Inr u \<longleftrightarrow> c"
  by (simp add: require_def)

lemma require_eq_Inl_iff: "require c e = Inl e' \<longleftrightarrow> \<not> c \<and> e' = e"
  by (auto simp: require_def)

lemma require_True [simp]: "require True e = Inr ()"
  by (simp add: require_def)

lemma require_False [simp]: "require False e = Inl e"
  by (simp add: require_def)

text \<open>
  \<open>anyhow::Error\<close>: a root message under a stack of contexts. \<open>Display\<close> prints the outermost
  message, the alternate form \<open>{:#}\<close> the whole chain.
\<close>

datatype anyhow =
    Err string
  | Ctx string anyhow

fun err_display :: "anyhow \<Rightarrow> string" where
  "err_display (Err m) = m"
| "err_display (Ctx m e) = m"

fun err_alternate :: "anyhow \<Rightarrow> string" where
  "err_alternate (Err m) = m"
| "err_alternate (Ctx m e) = m @ '': '' @ err_alternate e"

section \<open>Association lists with distinct keys\<close>

text \<open>
  A \<open>HashMap\<close> that the code iterates over is an association list in the (unspecified)
  iteration order, with distinct keys. Facts that must not depend on that order are
  stated for every permutation.
\<close>

abbreviation distinct_keys :: "('k \<times> 'v) list \<Rightarrow> bool" where
  "distinct_keys kvs \<equiv> distinct (map fst kvs)"

lemma map_of_mset_eq:
  assumes "distinct_keys xs" "set xs = set ys" "distinct_keys ys"
  shows "map_of xs = map_of ys"
proof
  fix k
  show "map_of xs k = map_of ys k"
  proof (cases "map_of xs k")
    case None
    then have "map_of ys k = None"
      using assms(2) by (simp add: map_of_eq_None_iff)
    with None show ?thesis by simp
  next
    case (Some v)
    then have "(k, v) \<in> set ys"
      using assms(2) map_of_SomeD by fastforce
    with Some show ?thesis using assms(3) by simp
  qed
qed

lemma map_of_map_values:
  "map_of (map (\<lambda>(k, v). (k, f k v)) xs) k = map_option (f k) (map_of xs k)"
  by (induction xs) auto

lemma map_of_filter_key:
  "map_of (filter (\<lambda>(k, v). P k) xs) k = (if P k then map_of xs k else None)"
  by (induction xs) auto

end
