(* ===== verification/Multi_Map.thy ===== *)
theory Multi_Map
  imports Prelude "HOL-Library.Monad_Syntax"
begin

text \<open>
  \<open>src/multi_map.rs\<close>: the map with two keys per item, built from raw pointers. The heap is
  explicit, so that the code's \<open>unsafe\<close> blocks are checked operations: every operation
  returns \<open>None\<close> when it dereferences or frees memory that is not live. The invariant
  \<open>mm_wf\<close> shows that this never happens, that nothing leaks, and that the map refines a
  pair of mutually inverse indexes (the locale \<open>two_key_store\<close>).
\<close>

section \<open>Heap and hash tables\<close>

record ('a, 'b, 'v) mem =
  cells :: "nat \<Rightarrow> ('a \<times> 'b \<times> 'v) option"
  next_addr :: nat

definition key1 :: "('a, 'b, 'v) mem \<Rightarrow> nat \<Rightarrow> 'a option" where
  "key1 h p = map_option fst (cells h p)"

definition key2 :: "('a, 'b, 'v) mem \<Rightarrow> nat \<Rightarrow> 'b option" where
  "key2 h p = map_option (\<lambda>c. fst (snd c)) (cells h p)"

definition box_new :: "('a, 'b, 'v) mem \<Rightarrow> 'a \<times> 'b \<times> 'v \<Rightarrow> nat \<times> ('a, 'b, 'v) mem" where
  "box_new h item =
     (next_addr h, h\<lparr>cells := (cells h)(next_addr h \<mapsto> item), next_addr := Suc (next_addr h)\<rparr>)"

definition box_drop :: "('a, 'b, 'v) mem \<Rightarrow> nat \<Rightarrow> ('a, 'b, 'v) mem option" where
  "box_drop h p = (if cells h p = None then None else Some (h\<lparr>cells := (cells h)(p := None)\<rparr>))"

text \<open>
  A hash table entry is the key's pointer (into an item) and the item's pointer; a pointer
  to a field of an item is identified with the item's address. Hashing and comparing go
  through \<open>Borrow\<close>, which dereferences the key pointer; a lookup may do so for every entry
  of the table, so it is undefined as soon as one of them dangles.
\<close>

type_synonym entry = "nat \<times> nat"

definition keys_live :: "(nat \<Rightarrow> 'k option) \<Rightarrow> entry list \<Rightarrow> bool" where
  "keys_live key es \<longleftrightarrow> list_all (\<lambda>e. key (fst e) \<noteq> None) es"

definition find_entry :: "(nat \<Rightarrow> 'k option) \<Rightarrow> 'k \<Rightarrow> entry list \<Rightarrow> nat option" where
  "find_entry key k es = map_option snd (find (\<lambda>e. key (fst e) = Some k) es)"

definition hash_get :: "(nat \<Rightarrow> 'k option) \<Rightarrow> 'k \<Rightarrow> entry list \<Rightarrow> nat option option" where
  "hash_get key k es =
     (if keys_live key es then Some (find_entry key k es) else None)"

definition hash_remove ::
  "(nat \<Rightarrow> 'k option) \<Rightarrow> 'k \<Rightarrow> entry list \<Rightarrow> (nat option \<times> entry list) option" where
  "hash_remove key k es =
     (if keys_live key es
      then Some (find_entry key k es,
                 filter (\<lambda>e. key (fst e) \<noteq> Some k) es)
      else None)"

definition hash_insert :: "(nat \<Rightarrow> 'k option) \<Rightarrow> entry \<Rightarrow> entry list \<Rightarrow> entry list option" where
  "hash_insert key e es =
     (if keys_live key (e # es)
      then Some (if list_ex (\<lambda>f. key (fst f) = key (fst e)) es
                 then map (\<lambda>f. if key (fst f) = key (fst e) then (fst f, snd e) else f) es
                 else es @ [e])
      else None)"

section \<open>The map\<close>

record multi_map =
  map1 :: "entry list"
  map2 :: "entry list"

type_synonym ('a, 'b, 'v) mm = "('a, 'b, 'v) mem \<times> multi_map"

definition mm_new :: "('a, 'b, 'v) mm" where
  "mm_new = (\<lparr>cells = \<lambda>_. None, next_addr = 0\<rparr>, \<lparr>map1 = [], map2 = []\<rparr>)"

fun mm_insert ::
  "('a, 'b, 'v) mm \<Rightarrow> 'a \<Rightarrow> 'b \<Rightarrow> 'v \<Rightarrow> (('a, 'b, 'v) mm \<times> ('a \<times> 'b \<times> 'v + unit)) option" where
  "mm_insert (h, m) k1 k2 v = do {
     in1 \<leftarrow> hash_get (key1 h) k1 (map1 m);
     in2 \<leftarrow> (if in1 \<noteq> None then Some None else hash_get (key2 h) k2 (map2 m));
     if in1 \<noteq> None \<or> in2 \<noteq> None then Some ((h, m), Inl (k1, k2, v))
     else do {
       let (item, h') = box_new h (k1, k2, v);
       m1 \<leftarrow> hash_insert (key1 h') (item, item) (map1 m);
       m2 \<leftarrow> hash_insert (key2 h') (item, item) (map2 m);
       Some ((h', \<lparr>map1 = m1, map2 = m2\<rparr>), Inr ())
     }
   }"

fun mm_get1 :: "('a, 'b, 'v) mm \<Rightarrow> 'a \<Rightarrow> 'v option option" where
  "mm_get1 (h, m) k1 = do {
     r \<leftarrow> hash_get (key1 h) k1 (map1 m);
     (case r of None \<Rightarrow> Some None
      | Some item \<Rightarrow> do { (_, _, v) \<leftarrow> cells h item; Some (Some v) })
   }"

fun mm_get2 :: "('a, 'b, 'v) mm \<Rightarrow> 'b \<Rightarrow> 'v option option" where
  "mm_get2 (h, m) k2 = do {
     r \<leftarrow> hash_get (key2 h) k2 (map2 m);
     (case r of None \<Rightarrow> Some None
      | Some item \<Rightarrow> do { (_, _, v) \<leftarrow> cells h item; Some (Some v) })
   }"

text \<open>The \<open>_mut\<close> getters hand out the place of the value; the caller then writes through it.\<close>

definition write_value :: "('a, 'b, 'v) mem \<Rightarrow> nat \<Rightarrow> 'v \<Rightarrow> ('a, 'b, 'v) mem option" where
  "write_value h p v =
     map_option (\<lambda>(a, b, _). h\<lparr>cells := (cells h)(p \<mapsto> (a, b, v))\<rparr>) (cells h p)"

fun mm_get1_mut ::
  "('a, 'b, 'v) mm \<Rightarrow> 'a \<Rightarrow> ('v \<Rightarrow> 'v) \<Rightarrow> (('a, 'b, 'v) mm \<times> bool) option" where
  "mm_get1_mut (h, m) k1 f = do {
     r \<leftarrow> hash_get (key1 h) k1 (map1 m);
     (case r of None \<Rightarrow> Some ((h, m), False)
      | Some item \<Rightarrow> do { (_, _, v) \<leftarrow> cells h item; h' \<leftarrow> write_value h item (f v); Some ((h', m), True) })
   }"

fun mm_get_mut2 ::
  "('a, 'b, 'v) mm \<Rightarrow> 'b \<Rightarrow> ('v \<Rightarrow> 'v) \<Rightarrow> (('a, 'b, 'v) mm \<times> bool) option" where
  "mm_get_mut2 (h, m) k2 f = do {
     r \<leftarrow> hash_get (key2 h) k2 (map2 m);
     (case r of None \<Rightarrow> Some ((h, m), False)
      | Some item \<Rightarrow> do { (_, _, v) \<leftarrow> cells h item; h' \<leftarrow> write_value h item (f v); Some ((h', m), True) })
   }"

text \<open>
  The removed item is boxed again (\<open>Box::from_raw\<close>) and lives until the function returns:
  the second table is searched with the key inside that box.
\<close>

fun mm_remove1 :: "('a, 'b, 'v) mm \<Rightarrow> 'a \<Rightarrow> (('a, 'b, 'v) mm \<times> 'v option) option" where
  "mm_remove1 (h, m) k1 = do {
     (r, m1) \<leftarrow> hash_remove (key1 h) k1 (map1 m);
     (case r of None \<Rightarrow> Some ((h, m), None)
      | Some item \<Rightarrow> do {
          (_, k2, v) \<leftarrow> cells h item;
          (_, m2) \<leftarrow> hash_remove (key2 h) k2 (map2 m);
          h' \<leftarrow> box_drop h item;
          Some ((h', \<lparr>map1 = m1, map2 = m2\<rparr>), Some v)
        })
   }"

fun mm_remove2 :: "('a, 'b, 'v) mm \<Rightarrow> 'b \<Rightarrow> (('a, 'b, 'v) mm \<times> 'v option) option" where
  "mm_remove2 (h, m) k2 = do {
     (r, m2) \<leftarrow> hash_remove (key2 h) k2 (map2 m);
     (case r of None \<Rightarrow> Some ((h, m), None)
      | Some item \<Rightarrow> do {
          (k1, _, v) \<leftarrow> cells h item;
          (_, m1) \<leftarrow> hash_remove (key1 h) k1 (map1 m);
          h' \<leftarrow> box_drop h item;
          Some ((h', \<lparr>map1 = m1, map2 = m2\<rparr>), Some v)
        })
   }"

text \<open>\<open>Drop\<close>: \<open>map1.clear()\<close>, then every item of \<open>map2\<close> is freed.\<close>

fun drain_free :: "('a, 'b, 'v) mem \<Rightarrow> entry list \<Rightarrow> ('a, 'b, 'v) mem option" where
  "drain_free h [] = Some h"
| "drain_free h ((_, item) # es) = do { h' \<leftarrow> box_drop h item; drain_free h' es }"

fun mm_drop :: "('a, 'b, 'v) mm \<Rightarrow> ('a, 'b, 'v) mem option" where
  "mm_drop (h, m) = drain_free h (map2 m)"

section \<open>The representation invariant\<close>

definition rep_table :: "nat set \<Rightarrow> entry list \<Rightarrow> bool" where
  "rep_table ps es \<longleftrightarrow> distinct es \<and> set es = (\<lambda>p. (p, p)) ` ps"

text \<open>
  Both tables hold exactly the live items, keyed by pointers into those items; keys are
  unique on each side; nothing else is live (so nothing has leaked).
\<close>

definition mm_wf :: "('a, 'b, 'v) mm \<Rightarrow> bool" where
  "mm_wf s \<longleftrightarrow> (case s of (h, m) \<Rightarrow>
     rep_table (dom (cells h)) (map1 m) \<and> rep_table (dom (cells h)) (map2 m) \<and>
     inj_on (key1 h) (dom (cells h)) \<and> inj_on (key2 h) (dom (cells h)) \<and>
     (\<forall>p \<in> dom (cells h). p < next_addr h))"

text \<open>The abstraction: the index by the first key and the index by the second key.\<close>

definition by1 :: "('a, 'b, 'v) mm \<Rightarrow> 'a \<Rightarrow> ('b \<times> 'v) option" where
  "by1 s k = (case s of (h, m) \<Rightarrow>
     map_option (\<lambda>p. snd (the (cells h p)))
       (find_entry (key1 h) k (map1 m)))"

definition by2 :: "('a, 'b, 'v) mm \<Rightarrow> 'b \<Rightarrow> ('a \<times> 'v) option" where
  "by2 s k = (case s of (h, m) \<Rightarrow>
     map_option (\<lambda>p. (fst (the (cells h p)), snd (snd (the (cells h p)))))
       (find_entry (key2 h) k (map2 m)))"

lemma key1_Some_iff: "key1 h p = Some a \<longleftrightarrow> (\<exists>b v. cells h p = Some (a, b, v))"
  by (auto simp: key1_def)

lemma key2_Some_iff: "key2 h p = Some b \<longleftrightarrow> (\<exists>a v. cells h p = Some (a, b, v))"
  by (auto simp: key2_def)

lemma key_None_iff [simp]: "key1 h p = None \<longleftrightarrow> cells h p = None" "key2 h p = None \<longleftrightarrow> cells h p = None"
  by (auto simp: key1_def key2_def)

lemma rep_table_live: "rep_table ps es \<Longrightarrow> \<forall>p \<in> ps. key p \<noteq> None \<Longrightarrow> keys_live key es"
  by (auto simp: rep_table_def keys_live_def list_all_iff)

lemma rep_table_find:
  assumes "rep_table ps es" "inj_on key ps"
  shows "find_entry key k es = Some p \<longleftrightarrow> p \<in> ps \<and> key p = Some k"
proof
  assume "find_entry key k es = Some p"
  then obtain e where "find (\<lambda>e. key (fst e) = Some k) es = Some e" "p = snd e"
    by (auto simp: find_entry_def)
  moreover from this have "e \<in> set es" "key (fst e) = Some k"
    by (auto simp: find_Some_iff)
  ultimately show "p \<in> ps \<and> key p = Some k"
    using assms(1) by (auto simp: rep_table_def)
next
  assume p: "p \<in> ps \<and> key p = Some k"
  then have "(p, p) \<in> set es" using assms(1) by (auto simp: rep_table_def)
  with p have "find (\<lambda>e. key (fst e) = Some k) es \<noteq> None"
    unfolding find_None_iff by force
  then obtain e where e: "find (\<lambda>e. key (fst e) = Some k) es = Some e" by blast
  then have "e \<in> set es" and k: "key (fst e) = Some k" by (auto simp: find_Some_iff)
  then have "fst e = snd e" "fst e \<in> ps"
    using assms(1) by (auto simp: rep_table_def)
  moreover from this have "fst e = p"
    using assms(2) k p by (auto simp: inj_on_def)
  ultimately show "find_entry key k es = Some p"
    using e by (simp add: find_entry_def)
qed

lemma rep_table_remove:
  assumes "rep_table ps es" "inj_on key ps" "p \<in> ps" "key p = Some k"
  shows "rep_table (ps - {p}) (filter (\<lambda>e. key (fst e) \<noteq> Some k) es)"
proof -
  have "q = p" if "q \<in> ps" "key q = Some k" for q
    using that assms by (auto simp: inj_on_def)
  then show ?thesis using assms(1,4) by (auto simp: rep_table_def)
qed

lemma rep_table_insert:
  assumes "rep_table ps es" "p \<notin> ps"
  shows "rep_table (insert p ps) (es @ [(p, p)])"
  using assms by (auto simp: rep_table_def)

lemma mm_wf_live:
  assumes "mm_wf (h, m)"
  shows "keys_live (key1 h) (map1 m)" "keys_live (key2 h) (map2 m)"
proof -
  have "\<forall>p \<in> dom (cells h). key1 h p \<noteq> None" "\<forall>p \<in> dom (cells h). key2 h p \<noteq> None"
    unfolding key_None_iff by blast+
  with assms show "keys_live (key1 h) (map1 m)" "keys_live (key2 h) (map2 m)"
    unfolding mm_wf_def by (blast intro: rep_table_live)+
qed

lemma mm_wf_find1:
  assumes "mm_wf (h, m)"
  shows "find_entry (key1 h) k (map1 m) = Some p \<longleftrightarrow> key1 h p = Some k"
  using assms rep_table_find [of "dom (cells h)" "map1 m" "key1 h" k p]
  by (auto simp: mm_wf_def key1_Some_iff)

lemma mm_wf_find2:
  assumes "mm_wf (h, m)"
  shows "find_entry (key2 h) k (map2 m) = Some p \<longleftrightarrow> key2 h p = Some k"
  using assms rep_table_find [of "dom (cells h)" "map2 m" "key2 h" k p]
  by (auto simp: mm_wf_def key2_Some_iff)

lemma mm_wf_unique:
  assumes "mm_wf (h, m)" "cells h p = Some (a, b, v)" "cells h q = Some (a', b', v')"
  shows "a = a' \<Longrightarrow> p = q" "b = b' \<Longrightarrow> p = q"
  using assms inj_onD [of "key1 h" "dom (cells h)" p q] inj_onD [of "key2 h" "dom (cells h)" p q]
  by (auto simp: mm_wf_def key1_def key2_def dom_def)

lemma by1_Some_iff:
  assumes "mm_wf (h, m)"
  shows "by1 (h, m) a = Some (b, v) \<longleftrightarrow> (\<exists>p. cells h p = Some (a, b, v))"
proof
  assume "by1 (h, m) a = Some (b, v)"
  then show "\<exists>p. cells h p = Some (a, b, v)"
    by (auto simp: by1_def mm_wf_find1 [OF assms] key1_Some_iff)
next
  assume "\<exists>p. cells h p = Some (a, b, v)"
  then obtain p where "cells h p = Some (a, b, v)" ..
  moreover from this have "find_entry (key1 h) a (map1 m) = Some p"
    by (simp add: mm_wf_find1 [OF assms] key1_Some_iff)
  ultimately show "by1 (h, m) a = Some (b, v)" by (simp add: by1_def)
qed

lemma by2_Some_iff:
  assumes "mm_wf (h, m)"
  shows "by2 (h, m) b = Some (a, v) \<longleftrightarrow> (\<exists>p. cells h p = Some (a, b, v))"
proof
  assume "by2 (h, m) b = Some (a, v)"
  then show "\<exists>p. cells h p = Some (a, b, v)"
    by (auto simp: by2_def mm_wf_find2 [OF assms] key2_Some_iff)
next
  assume "\<exists>p. cells h p = Some (a, b, v)"
  then obtain p where "cells h p = Some (a, b, v)" ..
  moreover from this have "find_entry (key2 h) b (map2 m) = Some p"
    by (simp add: mm_wf_find2 [OF assms] key2_Some_iff)
  ultimately show "by2 (h, m) b = Some (a, v)" by (simp add: by2_def)
qed

lemma mm_wf_new: "mm_wf mm_new"
  by (simp add: mm_wf_def mm_new_def rep_table_def)

text \<open>Every live item is found under both of its keys; the two indexes are inverse.\<close>

lemma index_eqI: "(\<And>k x. f k = Some x \<longleftrightarrow> g k = Some x) \<Longrightarrow> f = g"
  by (rule ext) (metis not_Some_eq)

lemma by1_eq_None_iff: "by1 (h, m) a = None \<longleftrightarrow> find_entry (key1 h) a (map1 m) = None"
  by (simp add: by1_def)

lemma by2_eq_None_iff: "by2 (h, m) b = None \<longleftrightarrow> find_entry (key2 h) b (map2 m) = None"
  by (simp add: by2_def)

lemma by1_by2: "mm_wf s \<Longrightarrow> by1 s a = Some (b, v) \<longleftrightarrow> by2 s b = Some (a, v)"
  by (cases s) (simp add: by1_Some_iff by2_Some_iff)

lemma hash_insert_fresh:
  assumes "keys_live key es" "find_entry key k es = None"
    and "key' p = Some k" "\<forall>e \<in> set es. key' (fst e) = key (fst e)"
  shows "hash_insert key' (p, p) es = Some (es @ [(p, p)])"
proof -
  have "keys_live key' ((p, p) # es)"
    using assms by (auto simp: keys_live_def list_all_iff)
  moreover have "\<not> list_ex (\<lambda>f. key' (fst f) = key' p) es"
    using assms by (auto simp: list_ex_iff find_entry_def find_None_iff)
  ultimately show ?thesis by (simp add: hash_insert_def)
qed

lemma mm_insert_occupied:
  assumes "mm_wf s" "by1 s a \<noteq> None \<or> by2 s b \<noteq> None"
  shows "mm_insert s a b v = Some (s, Inl (a, b, v))"
proof -
  obtain h m where s: "s = (h, m)" by (cases s)
  with assms mm_wf_live [of h m] show ?thesis
    by (auto simp: hash_get_def by1_eq_None_iff by2_eq_None_iff)
qed

lemma inj_on_fresh: "inj_on f A \<Longrightarrow> \<forall>q. f q \<noteq> x \<Longrightarrow> inj_on (f(p := x)) (insert p A)"
  unfolding inj_on_def by (metis fun_upd_apply insert_iff)

lemma mm_insert_fresh:
  assumes "mm_wf s" "by1 s a = None" "by2 s b = None"
  obtains s' where "mm_insert s a b v = Some (s', Inr ())" "mm_wf s'"
    "by1 s' = (by1 s)(a \<mapsto> (b, v))" "by2 s' = (by2 s)(b \<mapsto> (a, v))"
proof -
  obtain h m where s: "s = (h, m)" by (cases s)
  note wf = assms(1) [unfolded s]
  have n1: "find_entry (key1 h) a (map1 m) = None" and n2: "find_entry (key2 h) b (map2 m) = None"
    using assms(2,3) by (simp_all add: s by1_eq_None_iff by2_eq_None_iff)
  define p where "p = next_addr h"
  define h' where "h' = h\<lparr>cells := (cells h)(p \<mapsto> (a, b, v)), next_addr := Suc p\<rparr>"
  define m' where "m' = \<lparr>map1 = map1 m @ [(p, p)], map2 = map2 m @ [(p, p)]\<rparr>"
  have fresh: "p \<notin> dom (cells h)" using wf by (auto simp: mm_wf_def p_def)
  have tables: "rep_table (dom (cells h)) (map1 m)" "rep_table (dom (cells h)) (map2 m)"
    using wf by (simp_all add: mm_wf_def)
  have keys: "key1 h' = (key1 h)(p \<mapsto> a)" "key2 h' = (key2 h)(p \<mapsto> b)"
    by (auto simp: key1_def key2_def h'_def)
  have old: "\<forall>e \<in> set (map1 m) \<union> set (map2 m). fst e \<noteq> p"
    using tables fresh by (auto simp: rep_table_def)
  have k1: "key1 h q \<noteq> Some a" and k2: "key2 h q \<noteq> Some b" for q
    using n1 n2 mm_wf_find1 [OF wf, of a q] mm_wf_find2 [OF wf, of b q] by auto
  have ins1: "hash_insert (key1 h') (p, p) (map1 m) = Some (map1 m @ [(p, p)])"
    by (rule hash_insert_fresh [OF mm_wf_live(1) [OF wf] n1]) (use old in \<open>auto simp: keys\<close>)
  have ins2: "hash_insert (key2 h') (p, p) (map2 m) = Some (map2 m @ [(p, p)])"
    by (rule hash_insert_fresh [OF mm_wf_live(2) [OF wf] n2]) (use old in \<open>auto simp: keys\<close>)
  have res: "mm_insert s a b v = Some ((h', m'), Inr ())"
    using ins1 ins2 n1 n2 mm_wf_live [OF wf]
    by (simp add: s hash_get_def box_new_def p_def [symmetric] h'_def [symmetric] m'_def)
  have d: "dom (cells h') = insert p (dom (cells h))" by (simp add: h'_def)
  have "inj_on (key1 h') (dom (cells h'))"
    unfolding d keys by (rule inj_on_fresh) (use wf k1 in \<open>simp_all add: mm_wf_def\<close>)
  moreover have "inj_on (key2 h') (dom (cells h'))"
    unfolding d keys by (rule inj_on_fresh) (use wf k2 in \<open>simp_all add: mm_wf_def\<close>)
  moreover have "\<forall>q \<in> dom (cells h'). q < next_addr h'"
    using wf by (auto simp: mm_wf_def h'_def p_def intro: less_SucI)
  ultimately have wf': "mm_wf (h', m')"
    using rep_table_insert [OF tables(1) fresh] rep_table_insert [OF tables(2) fresh]
    by (simp add: mm_wf_def m'_def d)
  have cell': "(\<exists>q. cells h' q = Some (x, y, w)) \<longleftrightarrow>
      (x, y, w) = (a, b, v) \<or> (\<exists>q. cells h q = Some (x, y, w))" for x y w
  proof -
    have "\<exists>q. cells h' q = Some (a, b, v)" by (auto simp: h'_def)
    moreover have "cells h q = Some (x, y, w) \<Longrightarrow> cells h' q = Some (x, y, w)" for q
      using fresh by (auto simp: h'_def)
    moreover have "cells h' q = Some (x, y, w) \<Longrightarrow> (x, y, w) = (a, b, v) \<or> cells h q = Some (x, y, w)" for q
      by (auto simp: h'_def split: if_splits)
    ultimately show ?thesis by blast
  qed
  have "by1 (h', m') = (by1 (h, m))(a \<mapsto> (b, v))"
    using k1 by (intro index_eqI)
      (auto simp: by1_Some_iff [OF wf'] by1_Some_iff [OF wf] cell' key1_Some_iff split: if_splits)
  moreover have "by2 (h', m') = (by2 (h, m))(b \<mapsto> (a, v))"
    using k2 by (intro index_eqI)
      (auto simp: by2_Some_iff [OF wf'] by2_Some_iff [OF wf] cell' key2_Some_iff split: if_splits)
  ultimately show thesis using that [OF res wf'] s by blast
qed

lemma mm_get1_by1:
  assumes "mm_wf s"
  shows "mm_get1 s a = Some (map_option snd (by1 s a))"
proof -
  obtain h m where s: "s = (h, m)" by (cases s)
  show ?thesis
  proof (cases "find_entry (key1 h) a (map1 m)")
    case None
    then show ?thesis using assms by (simp add: s hash_get_def mm_wf_live by1_def)
  next
    case (Some p)
    with assms obtain b v where "cells h p = Some (a, b, v)"
      by (auto simp: s mm_wf_find1 key1_Some_iff)
    with Some show ?thesis using assms by (simp add: s hash_get_def mm_wf_live by1_def)
  qed
qed

lemma mm_get2_by2:
  assumes "mm_wf s"
  shows "mm_get2 s b = Some (map_option snd (by2 s b))"
proof -
  obtain h m where s: "s = (h, m)" by (cases s)
  show ?thesis
  proof (cases "find_entry (key2 h) b (map2 m)")
    case None
    then show ?thesis using assms by (simp add: s hash_get_def mm_wf_live by2_def)
  next
    case (Some p)
    with assms obtain a v where "cells h p = Some (a, b, v)"
      by (auto simp: s mm_wf_find2 key2_Some_iff)
    with Some show ?thesis using assms by (simp add: s hash_get_def mm_wf_live by2_def)
  qed
qed

text \<open>What either \<open>remove\<close> does to the representation when it finds the item at \<open>p\<close>.\<close>

definition cut ::
  "nat \<Rightarrow> 'a \<Rightarrow> 'b \<Rightarrow> ('a, 'b, 'v) mm \<Rightarrow> ('a, 'b, 'v) mm" where
  "cut p a b s = (case s of (h, m) \<Rightarrow>
     (h\<lparr>cells := (cells h)(p := None)\<rparr>,
      \<lparr>map1 = filter (\<lambda>e. key1 h (fst e) \<noteq> Some a) (map1 m),
       map2 = filter (\<lambda>e. key2 h (fst e) \<noteq> Some b) (map2 m)\<rparr>))"

lemma cut_props:
  assumes "mm_wf s" "cells (fst s) p = Some (a, b, v)"
  shows "mm_wf (cut p a b s)" "by1 (cut p a b s) = (by1 s)(a := None)"
    "by2 (cut p a b s) = (by2 s)(b := None)"
proof -
  obtain h m where s: "s = (h, m)" by (cases s)
  note wf = assms(1) [unfolded s]
  have p: "cells h p = Some (a, b, v)" using assms(2) by (simp add: s)
  obtain h' m' where c: "cut p a b (h, m) = (h', m')" by (cases "cut p a b (h, m)")
  then have h': "cells h' = (cells h)(p := None)" "next_addr h' = next_addr h"
    by (auto simp: cut_def)
  have d: "dom (cells h') = dom (cells h) - {p}" by (simp add: h')
  have pd: "p \<in> dom (cells h)" "key1 h p = Some a" "key2 h p = Some b"
    using p by (auto simp: key1_def key2_def)
  have inj: "inj_on (key1 h) (dom (cells h))" "inj_on (key2 h) (dom (cells h))"
    and tables: "rep_table (dom (cells h)) (map1 m)" "rep_table (dom (cells h)) (map2 m)"
    using wf by (simp_all add: mm_wf_def)
  have "rep_table (dom (cells h')) (map1 m')" "rep_table (dom (cells h')) (map2 m')"
    using c rep_table_remove [OF tables(1) inj(1) pd(1,2)] rep_table_remove [OF tables(2) inj(2) pd(1,3)]
    unfolding d by (auto simp: cut_def)
  moreover have "inj_on (key1 h') (dom (cells h'))" "inj_on (key2 h') (dom (cells h'))"
    using inj unfolding d by (auto simp: inj_on_def key1_def key2_def h')
  moreover have "\<forall>q \<in> dom (cells h'). q < next_addr h'"
    using wf by (simp add: mm_wf_def h')
  ultimately have wf': "mm_wf (h', m')" by (simp add: mm_wf_def)
  then show "mm_wf (cut p a b s)" by (simp add: s c)
  have cell': "(\<exists>q. cells h' q = Some (x, y, w)) \<longleftrightarrow>
      x \<noteq> a \<and> y \<noteq> b \<and> (\<exists>q. cells h q = Some (x, y, w))" for x y w
    using mm_wf_unique [OF wf p] by (auto simp: h' p) (metis option.inject p prod.inject)
  have other: "x = a \<longleftrightarrow> y = b" if "cells h q = Some (x, y, w)" for q x y w
    using mm_wf_unique [OF wf p that] p that by auto
  show "by1 (cut p a b s) = (by1 s)(a := None)" "by2 (cut p a b s) = (by2 s)(b := None)"
    unfolding s c using other
    by (intro index_eqI; fastforce simp: by1_Some_iff [OF wf'] by1_Some_iff [OF wf]
        by2_Some_iff [OF wf'] by2_Some_iff [OF wf] cell' split: if_splits)+
qed

lemma mm_remove1_None: "mm_wf s \<Longrightarrow> by1 s a = None \<Longrightarrow> mm_remove1 s a = Some (s, None)"
  by (cases s) (simp add: hash_remove_def mm_wf_live by1_eq_None_iff)

lemma mm_remove2_None: "mm_wf s \<Longrightarrow> by2 s b = None \<Longrightarrow> mm_remove2 s b = Some (s, None)"
  by (cases s) (simp add: hash_remove_def mm_wf_live by2_eq_None_iff)

lemma by1_cell:
  assumes "mm_wf (h, m)" "by1 (h, m) a = Some (b, v)"
  obtains p where "cells h p = Some (a, b, v)" "find_entry (key1 h) a (map1 m) = Some p"
    "find_entry (key2 h) b (map2 m) = Some p"
  using assms by (auto simp: by1_Some_iff mm_wf_find1 mm_wf_find2 key1_Some_iff key2_Some_iff)

lemma mm_remove1_Some:
  assumes "mm_wf s" "by1 s a = Some (b, v)"
  obtains s' where "mm_remove1 s a = Some (s', Some v)" "mm_wf s'"
    "by1 s' = (by1 s)(a := None)" "by2 s' = (by2 s)(b := None)"
proof -
  obtain h m where s: "s = (h, m)" by (cases s)
  obtain p where p: "cells h p = Some (a, b, v)" "find_entry (key1 h) a (map1 m) = Some p"
    by (rule by1_cell [OF assms [unfolded s]])
  then have "mm_remove1 s a = Some (cut p a b s, Some v)"
    using assms(1) by (simp add: s hash_remove_def mm_wf_live box_drop_def cut_def)
  with p(1) show thesis using that cut_props [OF assms(1)] by (simp add: s)
qed

lemma mm_remove2_Some:
  assumes "mm_wf s" "by2 s b = Some (a, v)"
  obtains s' where "mm_remove2 s b = Some (s', Some v)" "mm_wf s'"
    "by1 s' = (by1 s)(a := None)" "by2 s' = (by2 s)(b := None)"
proof -
  obtain h m where s: "s = (h, m)" by (cases s)
  have "by1 (h, m) a = Some (b, v)" using assms by (simp add: s by1_by2)
  then obtain p where p: "cells h p = Some (a, b, v)" "find_entry (key2 h) b (map2 m) = Some p"
    by (rule by1_cell [OF assms(1) [unfolded s]])
  then have "mm_remove2 s b = Some (cut p a b s, Some v)"
    using assms(1) by (simp add: s hash_remove_def mm_wf_live box_drop_def cut_def)
  with p(1) show thesis using that cut_props [OF assms(1)] by (simp add: s)
qed

text \<open>Writing a value through a \<open>_mut\<close> getter.\<close>

lemma write_value_props:
  assumes "mm_wf (h, m)" "cells h p = Some (a, b, v)" "write_value h p w = Some h'"
  shows "mm_wf (h', m)" "by1 (h', m) = (by1 (h, m))(a \<mapsto> (b, w))"
    "by2 (h', m) = (by2 (h, m))(b \<mapsto> (a, w))"
proof -
  have h': "cells h' = (cells h)(p \<mapsto> (a, b, w))" "next_addr h' = next_addr h"
    using assms(2,3) by (auto simp: write_value_def)
  have d: "dom (cells h') = dom (cells h)" using assms(2) by (auto simp: h')
  have k: "key1 h' = key1 h" "key2 h' = key2 h"
    using assms(2) by (auto simp: fun_eq_iff key1_def key2_def h')
  show wf': "mm_wf (h', m)" using assms(1) unfolding mm_wf_def by (simp add: d k h'(2))
  have cell': "(\<exists>q. cells h' q = Some (x, y, u)) \<longleftrightarrow> (x, y, u) = (a, b, w) \<or>
      (x \<noteq> a \<and> y \<noteq> b \<and> (\<exists>q. cells h q = Some (x, y, u)))" for x y u
    using mm_wf_unique [OF assms(1,2)] unfolding h'
    by (auto simp: assms(2)) (metis assms(2) option.inject prod.inject)+
  have other: "x = a \<longleftrightarrow> y = b" if "cells h q = Some (x, y, u)" for q x y u
    using mm_wf_unique [OF assms(1,2) that] assms(2) that by auto
  show "by1 (h', m) = (by1 (h, m))(a \<mapsto> (b, w))" "by2 (h', m) = (by2 (h, m))(b \<mapsto> (a, w))"
    using other
    by (intro index_eqI; fastforce simp: by1_Some_iff [OF wf'] by1_Some_iff [OF assms(1)]
        by2_Some_iff [OF wf'] by2_Some_iff [OF assms(1)] cell' split: if_splits)+
qed

lemma mm_get1_mut_None: "mm_wf s \<Longrightarrow> by1 s a = None \<Longrightarrow> mm_get1_mut s a f = Some (s, False)"
  by (cases s) (simp add: hash_get_def mm_wf_live by1_eq_None_iff)

lemma mm_get1_mut_Some:
  assumes "mm_wf s" "by1 s a = Some (b, v)"
  obtains s' where "mm_get1_mut s a f = Some (s', True)" "mm_wf s'"
    "by1 s' = (by1 s)(a \<mapsto> (b, f v))" "by2 s' = (by2 s)(b \<mapsto> (a, f v))"
proof -
  obtain h m where s: "s = (h, m)" by (cases s)
  obtain p where p: "cells h p = Some (a, b, v)" "find_entry (key1 h) a (map1 m) = Some p"
    by (rule by1_cell [OF assms [unfolded s]])
  then obtain h' where w: "write_value h p (f v) = Some h'" by (auto simp: write_value_def)
  with p have "mm_get1_mut s a f = Some ((h', m), True)"
    using assms(1) by (simp add: s hash_get_def mm_wf_live)
  then show thesis
    using that write_value_props [OF assms(1) [unfolded s] p(1) w] by (simp add: s)
qed

lemma mm_get_mut2_Some:
  assumes "mm_wf s" "by2 s b = Some (a, v)"
  obtains s' where "mm_get_mut2 s b f = Some (s', True)" "mm_wf s'"
    "by1 s' = (by1 s)(a \<mapsto> (b, f v))" "by2 s' = (by2 s)(b \<mapsto> (a, f v))"
proof -
  obtain h m where s: "s = (h, m)" by (cases s)
  have "by1 (h, m) a = Some (b, v)" using assms by (simp add: s by1_by2)
  then obtain p where p: "cells h p = Some (a, b, v)" "find_entry (key2 h) b (map2 m) = Some p"
    by (rule by1_cell [OF assms(1) [unfolded s]])
  then obtain h' where w: "write_value h p (f v) = Some h'" by (auto simp: write_value_def)
  with p have "mm_get_mut2 s b f = Some ((h', m), True)"
    using assms(1) by (simp add: s hash_get_def mm_wf_live)
  then show thesis
    using that write_value_props [OF assms(1) [unfolded s] p(1) w] by (simp add: s)
qed

text \<open>Dropping the map frees every item exactly once.\<close>

lemma drain_free_all:
  "distinct (map snd es) \<Longrightarrow> snd ` set es \<subseteq> dom (cells h) \<Longrightarrow>
   \<exists>h'. drain_free h es = Some h' \<and> dom (cells h') = dom (cells h) - snd ` set es"
proof (induction es arbitrary: h)
  case Nil
  then show ?case by simp
next
  case (Cons e es)
  obtain k p where e: "e = (k, p)" by (cases e)
  define h1 where "h1 = h\<lparr>cells := (cells h)(p := None)\<rparr>"
  have "box_drop h p = Some h1" using Cons.prems(2) by (auto simp: e box_drop_def h1_def)
  moreover have "snd ` set es \<subseteq> dom (cells h1)" using Cons.prems by (auto simp: e h1_def)
  with Cons.IH [of h1] Cons.prems(1) obtain h' where
    "drain_free h1 es = Some h'" "dom (cells h') = dom (cells h1) - snd ` set es"
    by (auto simp: e)
  ultimately show ?case by (auto simp: e h1_def)
qed

lemma mm_drop_frees_all:
  assumes "mm_wf s"
  shows "\<exists>h'. mm_drop s = Some h' \<and> cells h' = Map.empty"
proof -
  obtain h m where s: "s = (h, m)" by (cases s)
  have t: "rep_table (dom (cells h)) (map2 m)" using assms by (simp add: s mm_wf_def)
  then have "snd ` set (map2 m) = dom (cells h)" by (auto simp: rep_table_def image_image)
  moreover have "distinct (map snd (map2 m))"
    using t by (auto simp: rep_table_def distinct_map inj_on_def)
  ultimately obtain h' where "drain_free h (map2 m) = Some h'" "dom (cells h') = {}"
    using drain_free_all [of "map2 m" h] by auto
  then show ?thesis by (simp add: s)
qed

section \<open>The interface: a store with two inverse indexes\<close>

locale two_key_store =
  fixes inv :: "'s \<Rightarrow> bool"
    and idx1 :: "'s \<Rightarrow> 'a \<Rightarrow> ('b \<times> 'v) option"
    and idx2 :: "'s \<Rightarrow> 'b \<Rightarrow> ('a \<times> 'v) option"
    and ins :: "'s \<Rightarrow> 'a \<Rightarrow> 'b \<Rightarrow> 'v \<Rightarrow> ('s \<times> ('a \<times> 'b \<times> 'v + unit)) option"
    and get1 :: "'s \<Rightarrow> 'a \<Rightarrow> 'v option option"
    and get2 :: "'s \<Rightarrow> 'b \<Rightarrow> 'v option option"
    and rem1 :: "'s \<Rightarrow> 'a \<Rightarrow> ('s \<times> 'v option) option"
    and rem2 :: "'s \<Rightarrow> 'b \<Rightarrow> ('s \<times> 'v option) option"
  assumes inverse: "inv s \<Longrightarrow> idx1 s a = Some (b, v) \<longleftrightarrow> idx2 s b = Some (a, v)"
    and ins_occupied: "inv s \<Longrightarrow> idx1 s a \<noteq> None \<or> idx2 s b \<noteq> None \<Longrightarrow>
      ins s a b v = Some (s, Inl (a, b, v))"
    and ins_fresh: "inv s \<Longrightarrow> idx1 s a = None \<Longrightarrow> idx2 s b = None \<Longrightarrow>
      \<exists>s'. ins s a b v = Some (s', Inr ()) \<and> inv s' \<and>
        idx1 s' = (idx1 s)(a \<mapsto> (b, v)) \<and> idx2 s' = (idx2 s)(b \<mapsto> (a, v))"
    and get1_eq: "inv s \<Longrightarrow> get1 s a = Some (map_option snd (idx1 s a))"
    and get2_eq: "inv s \<Longrightarrow> get2 s b = Some (map_option snd (idx2 s b))"
    and rem1_None: "inv s \<Longrightarrow> idx1 s a = None \<Longrightarrow> rem1 s a = Some (s, None)"
    and rem2_None: "inv s \<Longrightarrow> idx2 s b = None \<Longrightarrow> rem2 s b = Some (s, None)"
    and rem1_Some: "inv s \<Longrightarrow> idx1 s a = Some (b, v) \<Longrightarrow>
      \<exists>s'. rem1 s a = Some (s', Some v) \<and> inv s' \<and>
        idx1 s' = (idx1 s)(a := None) \<and> idx2 s' = (idx2 s)(b := None)"
    and rem2_Some: "inv s \<Longrightarrow> idx2 s b = Some (a, v) \<Longrightarrow>
      \<exists>s'. rem2 s b = Some (s', Some v) \<and> inv s' \<and>
        idx1 s' = (idx1 s)(a := None) \<and> idx2 s' = (idx2 s)(b := None)"
begin

lemma rem1_total:
  assumes "inv s"
  obtains s' where "rem1 s a = Some (s', map_option snd (idx1 s a))" "inv s'"
    "idx1 s' = (idx1 s)(a := None)"
    "idx2 s' = (case idx1 s a of None \<Rightarrow> idx2 s | Some (b, _) \<Rightarrow> (idx2 s)(b := None))"
proof (cases "idx1 s a")
  case None
  then show ?thesis using that [of s] assms rem1_None [OF assms None] by (simp add: fun_upd_idem)
next
  case (Some p)
  then obtain b v where bv: "idx1 s a = Some (b, v)" by (cases p) auto
  from rem1_Some [OF assms bv] show ?thesis using that bv by auto
qed

lemma rem2_total:
  assumes "inv s"
  obtains s' where "rem2 s b = Some (s', map_option snd (idx2 s b))" "inv s'"
    "idx2 s' = (idx2 s)(b := None)"
    "idx1 s' = (case idx2 s b of None \<Rightarrow> idx1 s | Some (a, _) \<Rightarrow> (idx1 s)(a := None))"
proof (cases "idx2 s b")
  case None
  then show ?thesis using that [of s] assms rem2_None [OF assms None] by (simp add: fun_upd_idem)
next
  case (Some p)
  then obtain a v where bv: "idx2 s b = Some (a, v)" by (cases p) auto
  from rem2_Some [OF assms bv] show ?thesis using that bv by auto
qed

lemma ins_total:
  assumes "inv s"
  obtains s' r where "ins s a b v = Some (s', r)" "inv s'"
  using assms ins_fresh [OF assms, of a b v] ins_occupied [OF assms, of a b v] by blast

lemma idx2_unowned:
  assumes "inv s" "idx1 s a = None" "idx2 s b = Some (c, w)"
  shows "c \<noteq> a"
  using assms inverse [OF assms(1), of c b w] by auto

text \<open>
  Remove an old item under the first key, then insert: the new item takes its place, and
  the old item's second key is gone, unless another item already owns the second key.
\<close>

lemma replace:
  assumes "inv s" "idx2 s b = None \<or> (\<exists>w. idx2 s b = Some (a, w))"
  obtains s1 s2 where "rem1 s a = Some (s1, map_option snd (idx1 s a))"
    "ins s1 a b v = Some (s2, Inr ())" "inv s2" "idx1 s2 = (idx1 s)(a \<mapsto> (b, v))"
    "idx2 s2 = (case idx1 s a of None \<Rightarrow> idx2 s | Some (b0, _) \<Rightarrow> (idx2 s)(b0 := None))(b \<mapsto> (a, v))"
proof -
  obtain s1 where r: "rem1 s a = Some (s1, map_option snd (idx1 s a))" "inv s1"
    "idx1 s1 = (idx1 s)(a := None)"
    "idx2 s1 = (case idx1 s a of None \<Rightarrow> idx2 s | Some (b, _) \<Rightarrow> (idx2 s)(b := None))"
    using rem1_total [OF assms(1)] .
  have "idx2 s1 b = None"
  proof (cases "idx2 s b")
    case None
    then show ?thesis by (auto simp: r(4) split: option.splits)
  next
    case (Some p)
    with assms obtain w where "idx1 s a = Some (b, w)" by (auto simp: inverse)
    then show ?thesis by (simp add: r(4))
  qed
  with ins_fresh [OF r(2), of a b v] r(3) obtain s2 where
    "ins s1 a b v = Some (s2, Inr ())" "inv s2" "idx1 s2 = (idx1 s1)(a \<mapsto> (b, v))"
    "idx2 s2 = (idx2 s1)(b \<mapsto> (a, v))" by auto
  with r show thesis using that by auto
qed

end

interpretation mm: two_key_store mm_wf by1 by2 mm_insert mm_get1 mm_get2 mm_remove1 mm_remove2
proof unfold_locales
  fix s :: "('a, 'b, 'v) mm" and a b v
  assume wf: "mm_wf s"
  show "by1 s a = Some (b, v) \<longleftrightarrow> by2 s b = Some (a, v)" using wf by (rule by1_by2)
  show "mm_get1 s a = Some (map_option snd (by1 s a))" using wf by (rule mm_get1_by1)
  show "mm_get2 s b = Some (map_option snd (by2 s b))" using wf by (rule mm_get2_by2)
  show "by1 s a \<noteq> None \<or> by2 s b \<noteq> None \<Longrightarrow> mm_insert s a b v = Some (s, Inl (a, b, v))"
    using wf by (rule mm_insert_occupied)
  show "by1 s a = None \<Longrightarrow> mm_remove1 s a = Some (s, None)" using wf by (rule mm_remove1_None)
  show "by2 s b = None \<Longrightarrow> mm_remove2 s b = Some (s, None)" using wf by (rule mm_remove2_None)
  show "by1 s a = None \<Longrightarrow> by2 s b = None \<Longrightarrow>
      \<exists>s'. mm_insert s a b v = Some (s', Inr ()) \<and> mm_wf s' \<and>
        by1 s' = (by1 s)(a \<mapsto> (b, v)) \<and> by2 s' = (by2 s)(b \<mapsto> (a, v))"
    by (rule mm_insert_fresh [OF wf]) auto
  show "by1 s a = Some (b, v) \<Longrightarrow> \<exists>s'. mm_remove1 s a = Some (s', Some v) \<and> mm_wf s' \<and>
        by1 s' = (by1 s)(a := None) \<and> by2 s' = (by2 s)(b := None)"
    by (rule mm_remove1_Some [OF wf]) auto
  show "by2 s b = Some (a, v) \<Longrightarrow> \<exists>s'. mm_remove2 s b = Some (s', Some v) \<and> mm_wf s' \<and>
        by1 s' = (by1 s)(a := None) \<and> by2 s' = (by2 s)(b := None)"
    by (rule mm_remove2_Some [OF wf]) auto
qed

section \<open>Refinement of the abstract two-key map\<close>

datatype ('a, 'b, 'v) mm_op =
    Op_insert 'a 'b 'v
  | Op_get1 'a
  | Op_get2 'b
  | Op_set1 'a 'v
  | Op_set2 'b 'v
  | Op_remove1 'a
  | Op_remove2 'b

datatype ('a, 'b, 'v) mm_out =
    Out_insert "'a \<times> 'b \<times> 'v + unit"
  | Out_value "'v option"
  | Out_found bool

fun mm_step ::
  "('a, 'b, 'v) mm_op \<Rightarrow> ('a, 'b, 'v) mm \<Rightarrow> (('a, 'b, 'v) mm \<times> ('a, 'b, 'v) mm_out) option" where
  "mm_step (Op_insert a b v) s = map_option (apsnd Out_insert) (mm_insert s a b v)"
| "mm_step (Op_get1 a) s = map_option (\<lambda>r. (s, Out_value r)) (mm_get1 s a)"
| "mm_step (Op_get2 b) s = map_option (\<lambda>r. (s, Out_value r)) (mm_get2 s b)"
| "mm_step (Op_set1 a v) s = map_option (apsnd Out_found) (mm_get1_mut s a (\<lambda>_. v))"
| "mm_step (Op_set2 b v) s = map_option (apsnd Out_found) (mm_get_mut2 s b (\<lambda>_. v))"
| "mm_step (Op_remove1 a) s = map_option (apsnd Out_value) (mm_remove1 s a)"
| "mm_step (Op_remove2 b) s = map_option (apsnd Out_value) (mm_remove2 s b)"

fun mm_run ::
  "('a, 'b, 'v) mm_op list \<Rightarrow> ('a, 'b, 'v) mm \<Rightarrow>
   (('a, 'b, 'v) mm \<times> ('a, 'b, 'v) mm_out list) option" where
  "mm_run [] s = Some (s, [])"
| "mm_run (c # cs) s = do {
     (s', r) \<leftarrow> mm_step c s;
     (s'', rs) \<leftarrow> mm_run cs s';
     Some (s'', r # rs)
   }"

text \<open>The specification: two finite maps that index the same items.\<close>

type_synonym ('a, 'b, 'v) index_pair = "('a \<Rightarrow> ('b \<times> 'v) option) \<times> ('b \<Rightarrow> ('a \<times> 'v) option)"

fun spec_step ::
  "('a, 'b, 'v) mm_op \<Rightarrow> ('a, 'b, 'v) index_pair \<Rightarrow> ('a, 'b, 'v) index_pair \<times> ('a, 'b, 'v) mm_out"
where
  "spec_step (Op_insert a b v) (f, g) =
     (if f a \<noteq> None \<or> g b \<noteq> None then ((f, g), Out_insert (Inl (a, b, v)))
      else ((f(a \<mapsto> (b, v)), g(b \<mapsto> (a, v))), Out_insert (Inr ())))"
| "spec_step (Op_get1 a) (f, g) = ((f, g), Out_value (map_option snd (f a)))"
| "spec_step (Op_get2 b) (f, g) = ((f, g), Out_value (map_option snd (g b)))"
| "spec_step (Op_set1 a v) (f, g) =
     (case f a of None \<Rightarrow> ((f, g), Out_found False)
      | Some (b, _) \<Rightarrow> ((f(a \<mapsto> (b, v)), g(b \<mapsto> (a, v))), Out_found True))"
| "spec_step (Op_set2 b v) (f, g) =
     (case g b of None \<Rightarrow> ((f, g), Out_found False)
      | Some (a, _) \<Rightarrow> ((f(a \<mapsto> (b, v)), g(b \<mapsto> (a, v))), Out_found True))"
| "spec_step (Op_remove1 a) (f, g) =
     (case f a of None \<Rightarrow> ((f, g), Out_value None)
      | Some (b, v) \<Rightarrow> ((f(a := None), g(b := None)), Out_value (Some v)))"
| "spec_step (Op_remove2 b) (f, g) =
     (case g b of None \<Rightarrow> ((f, g), Out_value None)
      | Some (a, v) \<Rightarrow> ((f(a := None), g(b := None)), Out_value (Some v)))"

fun spec_run ::
  "('a, 'b, 'v) mm_op list \<Rightarrow> ('a, 'b, 'v) index_pair \<Rightarrow>
   ('a, 'b, 'v) index_pair \<times> ('a, 'b, 'v) mm_out list" where
  "spec_run [] t = (t, [])"
| "spec_run (c # cs) t = (case spec_step c t of (t', r) \<Rightarrow>
     (case spec_run cs t' of (t'', rs) \<Rightarrow> (t'', r # rs)))"

lemma mm_get_mut2_None: "mm_wf s \<Longrightarrow> by2 s b = None \<Longrightarrow> mm_get_mut2 s b f = Some (s, False)"
  by (cases s) (simp add: hash_get_def mm_wf_live by2_eq_None_iff)

lemma mm_step_refines:
  assumes "mm_wf s"
  shows "\<exists>s'. mm_step c s = Some (s', snd (spec_step c (by1 s, by2 s))) \<and> mm_wf s' \<and>
      fst (spec_step c (by1 s, by2 s)) = (by1 s', by2 s')"
proof (cases c)
  case (Op_insert a b v)
  show ?thesis
  proof (cases "by1 s a \<noteq> None \<or> by2 s b \<noteq> None")
    case True
    with Op_insert assms show ?thesis by (simp add: mm_insert_occupied [OF assms True])
  next
    case False
    then have n: "by1 s a = None" "by2 s b = None" by blast+
    from mm.ins_fresh [OF assms n, of v] show ?thesis
      using n by (auto simp: Op_insert)
  qed
next
  case (Op_get1 a)
  then show ?thesis using assms by (simp add: mm_get1_by1)
next
  case (Op_get2 b)
  then show ?thesis using assms by (simp add: mm_get2_by2)
next
  case (Op_set1 a v)
  show ?thesis
  proof (cases "by1 s a")
    case None
    then show ?thesis using assms by (simp add: Op_set1 mm_get1_mut_None)
  next
    case (Some p)
    then obtain b w where b: "by1 s a = Some (b, w)" by (cases p) auto
    show ?thesis
      by (rule mm_get1_mut_Some [OF assms b, of "\<lambda>_. v"]) (auto simp: Op_set1 b intro!: exI)
  qed
next
  case (Op_set2 b v)
  show ?thesis
  proof (cases "by2 s b")
    case None
    then show ?thesis using assms by (simp add: Op_set2 mm_get_mut2_None)
  next
    case (Some p)
    then obtain a w where b: "by2 s b = Some (a, w)" by (cases p) auto
    show ?thesis
      by (rule mm_get_mut2_Some [OF assms b, of "\<lambda>_. v"]) (auto simp: Op_set2 b intro!: exI)
  qed
next
  case (Op_remove1 a)
  show ?thesis
  proof (cases "by1 s a")
    case None
    then show ?thesis using assms by (simp add: Op_remove1 mm_remove1_None)
  next
    case (Some p)
    then obtain b w where b: "by1 s a = Some (b, w)" by (cases p) auto
    with mm.rem1_Some [OF assms b] show ?thesis by (auto simp: Op_remove1)
  qed
next
  case (Op_remove2 b)
  show ?thesis
  proof (cases "by2 s b")
    case None
    then show ?thesis using assms by (simp add: Op_remove2 mm_remove2_None)
  next
    case (Some p)
    then obtain a w where b: "by2 s b = Some (a, w)" by (cases p) auto
    with mm.rem2_Some [OF assms b] show ?thesis by (auto simp: Op_remove2)
  qed
qed

lemma mm_run_refines:
  assumes "mm_wf s"
  shows "\<exists>s'. mm_run cs s = Some (s', snd (spec_run cs (by1 s, by2 s))) \<and> mm_wf s' \<and>
      fst (spec_run cs (by1 s, by2 s)) = (by1 s', by2 s')"
  using assms
proof (induction cs arbitrary: s)
  case Nil
  then show ?case by simp
next
  case (Cons c cs)
  obtain s' where s': "mm_step c s = Some (s', snd (spec_step c (by1 s, by2 s)))" "mm_wf s'"
    "fst (spec_step c (by1 s, by2 s)) = (by1 s', by2 s')"
    using mm_step_refines [OF Cons.prems] by blast
  then have "spec_step c (by1 s, by2 s) = ((by1 s', by2 s'), snd (spec_step c (by1 s, by2 s)))"
    by (metis prod.collapse)
  with s' Cons.IH [OF s'(2)] show ?case by (auto split: prod.splits)
qed

text \<open>
  C5. Memory safety and refinement of the two-key map: from the empty map, every sequence of
  operations runs without undefined behaviour (no dangling pointer is read, nothing is freed
  twice), returns exactly what the abstract pair of inverse indexes returns, ends in a
  well-formed map whose indexes are the abstract ones, and dropping that map frees every item.
\<close>

theorem multi_map_safe_and_correct:
  "\<exists>s h. mm_run cs mm_new = Some (s, snd (spec_run cs (Map.empty, Map.empty))) \<and>
     fst (spec_run cs (Map.empty, Map.empty)) = (by1 s, by2 s) \<and>
     (\<forall>a b v. by1 s a = Some (b, v) \<longleftrightarrow> by2 s b = Some (a, v)) \<and>
     mm_drop s = Some h \<and> cells h = Map.empty"
proof -
  have "by1 mm_new = Map.empty" "by2 mm_new = Map.empty"
    by (auto simp: by1_def by2_def mm_new_def find_entry_def)
  note empty = this
  obtain s where
    run: "mm_run cs mm_new = Some (s, snd (spec_run cs (Map.empty, Map.empty)))"
      "fst (spec_run cs (Map.empty, Map.empty)) = (by1 s, by2 s)"
    and wf: "mm_wf s"
    using mm_run_refines [OF mm_wf_new, of cs] unfolding empty by blast
  moreover from wf obtain h where "mm_drop s = Some h" "cells h = Map.empty"
    using mm_drop_frees_all by blast
  moreover have "\<forall>a b v. by1 s a = Some (b, v) \<longleftrightarrow> by2 s b = Some (a, v)"
    using by1_by2 [OF wf] by blast
  ultimately show ?thesis by blast
qed

end
