(* ===== verification/Rust_Std.thy ===== *)
theory Rust_Std
  imports Prelude
begin

text \<open>
  The parts of Rust's standard library that the program computes with: \<open>str\<close> scanning
  (\<open>split_once\<close>, \<open>rsplit_once\<close>, \<open>split\<close>, \<open>trim\<close>, \<open>contains\<close>), unsigned \<open>FromStr\<close>,
  \<open>i64::try_from\<close>, \<open>String::truncate\<close> and \<open>SocketAddr::from_str\<close>. A \<open>str\<close> is its
  UTF-8 bytes, one \<open>char\<close> per byte, as \<open>str::len\<close> and byte indices count it.
\<close>

section \<open>Splitting and trimming\<close>

fun split_once :: "char \<Rightarrow> string \<Rightarrow> (string \<times> string) option" where
  "split_once c [] = None"
| "split_once c (x # xs) =
     (if x = c then Some ([], xs) else map_option (\<lambda>(a, b). (x # a, b)) (split_once c xs))"

definition rsplit_once :: "char \<Rightarrow> string \<Rightarrow> (string \<times> string) option" where
  "rsplit_once c s = map_option (\<lambda>(a, b). (rev b, rev a)) (split_once c (rev s))"

fun split_on :: "char \<Rightarrow> string \<Rightarrow> string list" where
  "split_on c [] = [[]]"
| "split_on c (x # xs) =
     (if x = c then [] # split_on c xs
      else (case split_on c xs of [] \<Rightarrow> [[x]] | y # ys \<Rightarrow> (x # y) # ys))"

text \<open>
  \<open>char::is_whitespace\<close> is Unicode \<open>White_Space\<close>; these are the UTF-8 encodings of all
  its members.
\<close>

definition white_space :: "string list" where
  "white_space =
     [[CHR 0x09], [CHR 0x0A], [CHR 0x0B], [CHR 0x0C], [CHR 0x0D], [CHR 0x20],
      [CHR 0xC2, CHR 0x85], [CHR 0xC2, CHR 0xA0],
      [CHR 0xE1, CHR 0x9A, CHR 0x80],
      [CHR 0xE2, CHR 0x80, CHR 0x80], [CHR 0xE2, CHR 0x80, CHR 0x81],
      [CHR 0xE2, CHR 0x80, CHR 0x82], [CHR 0xE2, CHR 0x80, CHR 0x83],
      [CHR 0xE2, CHR 0x80, CHR 0x84], [CHR 0xE2, CHR 0x80, CHR 0x85],
      [CHR 0xE2, CHR 0x80, CHR 0x86], [CHR 0xE2, CHR 0x80, CHR 0x87],
      [CHR 0xE2, CHR 0x80, CHR 0x88], [CHR 0xE2, CHR 0x80, CHR 0x89],
      [CHR 0xE2, CHR 0x80, CHR 0x8A],
      [CHR 0xE2, CHR 0x80, CHR 0xA8], [CHR 0xE2, CHR 0x80, CHR 0xA9],
      [CHR 0xE2, CHR 0x80, CHR 0xAF], [CHR 0xE2, CHR 0x81, CHR 0x9F],
      [CHR 0xE3, CHR 0x80, CHR 0x80]]"

definition starts_with :: "string \<Rightarrow> string \<Rightarrow> bool" where
  "starts_with p s \<longleftrightarrow> take (length p) s = p"

function strip_leading :: "string list \<Rightarrow> string \<Rightarrow> string" where
  "strip_leading ws s =
     (case find (\<lambda>w. w \<noteq> [] \<and> starts_with w s) ws of
        None \<Rightarrow> s
      | Some w \<Rightarrow> strip_leading ws (drop (length w) s))"
  by pat_completeness auto
termination
proof (relation "measure (\<lambda>(ws, s). length s)")
  fix ws s w
  assume "find (\<lambda>w. w \<noteq> [] \<and> starts_with w s) ws = Some w"
  then have "w \<noteq> []" "take (length w) s = w"
    by (auto simp: find_Some_iff starts_with_def)
  then have "s \<noteq> []" "0 < length w" by auto
  then show "((ws, drop (length w) s), (ws, s)) \<in> measure (\<lambda>(ws, s). length s)"
    by simp
qed simp

declare strip_leading.simps [simp del]

definition trim_start :: "string \<Rightarrow> string" where
  "trim_start s = strip_leading white_space s"

definition trim_end :: "string \<Rightarrow> string" where
  "trim_end s = rev (strip_leading (map rev white_space) (rev s))"

definition trim :: "string \<Rightarrow> string" where
  "trim s = trim_end (trim_start s)"

fun contains_str :: "string \<Rightarrow> string \<Rightarrow> bool" where
  "contains_str p [] \<longleftrightarrow> p = []"
| "contains_str p (x # xs) \<longleftrightarrow> starts_with p (x # xs) \<or> contains_str p xs"

definition has_whitespace :: "string \<Rightarrow> bool" where
  "has_whitespace s \<longleftrightarrow> list_ex (\<lambda>w. contains_str w s) white_space"

definition join_str :: "string \<Rightarrow> string list \<Rightarrow> string" where
  "join_str sep xs = (case xs of [] \<Rightarrow> [] | y # ys \<Rightarrow> y @ concat (map (\<lambda>z. sep @ z) ys))"

text \<open>\<open>{:?}\<close> of a string or a path: quoted, with the usual escapes.\<close>

definition debug_char :: "char \<Rightarrow> string" where
  "debug_char c =
     (if c = CHR 0x22 then [CHR 0x5C, CHR 0x22] else if c = CHR 0x5C then [CHR 0x5C, CHR 0x5C]
      else if c = CHR 0x0A then [CHR 0x5C, CHR ''n''] else if c = CHR 0x0D then [CHR 0x5C, CHR ''r'']
      else if c = CHR 0x09 then [CHR 0x5C, CHR ''t''] else [c])"

definition debug_str :: "string \<Rightarrow> string" where
  "debug_str s = CHR 0x22 # concat (map debug_char s) @ [CHR 0x22]"

lemma split_once_Some_iff:
  "split_once c s = Some (a, b) \<longleftrightarrow> s = a @ c # b \<and> c \<notin> set a"
proof (induction s arbitrary: a)
  case Nil
  then show ?case by simp
next
  case (Cons x s)
  show ?case
  proof (cases "x = c")
    case True
    then show ?thesis by (cases a) auto
  next
    case False
    then have "split_once c (x # s) = Some (a, b) \<longleftrightarrow>
        (\<exists>a'. split_once c s = Some (a', b) \<and> a = x # a')"
      by auto
    also have "\<dots> \<longleftrightarrow> (\<exists>a'. (s = a' @ c # b \<and> c \<notin> set a') \<and> a = x # a')"
      by (simp only: Cons.IH)
    also have "\<dots> \<longleftrightarrow> x # s = a @ c # b \<and> c \<notin> set a"
      using False by (cases a) auto
    finally show ?thesis .
  qed
qed

lemma split_once_None_iff: "split_once c s = None \<longleftrightarrow> c \<notin> set s"
  by (induction s) auto

lemma rsplit_once_Some_iff:
  "rsplit_once c s = Some (a, b) \<longleftrightarrow> s = a @ c # b \<and> c \<notin> set b"
proof -
  have "rsplit_once c s = Some (a, b) \<longleftrightarrow> split_once c (rev s) = Some (rev b, rev a)"
    by (auto simp: rsplit_once_def)
  also have "\<dots> \<longleftrightarrow> rev s = rev b @ c # rev a \<and> c \<notin> set b"
    by (simp add: split_once_Some_iff)
  also have "rev s = rev b @ c # rev a \<longleftrightarrow> s = a @ c # b"
    by (metis rev_append rev_rev_ident rev.simps(2) append.assoc append_Cons append_Nil)
  finally show ?thesis .
qed

lemma rsplit_once_None_iff: "rsplit_once c s = None \<longleftrightarrow> c \<notin> set s"
  by (simp add: rsplit_once_def split_once_None_iff)

lemma split_on_nonempty [simp]: "split_on c s \<noteq> []"
  by (induction s) (auto split: list.splits)

lemma split_on_no_sep: "c \<notin> set s \<Longrightarrow> split_on c s = [s]"
  by (induction s) auto

lemma split_on_append: "c \<notin> set a \<Longrightarrow> split_on c (a @ c # b) = a # split_on c b"
  by (induction a) auto

lemma split_on_pieces: "p \<in> set (split_on c s) \<Longrightarrow> c \<notin> set p"
  by (induction s arbitrary: p) (auto split: list.splits if_splits)

section \<open>Numbers\<close>

definition digit_val :: "char \<Rightarrow> nat option" where
  "digit_val c = (let n = of_char c :: nat in if 48 \<le> n \<and> n \<le> 57 then Some (n - 48) else None)"

definition hex_digit_val :: "char \<Rightarrow> nat option" where
  "hex_digit_val c =
     (let n = of_char c :: nat in
      if 48 \<le> n \<and> n \<le> 57 then Some (n - 48)
      else if 97 \<le> n \<and> n \<le> 102 then Some (n - 87)
      else if 65 \<le> n \<and> n \<le> 70 then Some (n - 55)
      else None)"

fun digits_val :: "nat \<Rightarrow> string \<Rightarrow> nat option" where
  "digits_val acc [] = Some acc"
| "digits_val acc (c # cs) =
     (case digit_val c of None \<Rightarrow> None | Some d \<Rightarrow> digits_val (10 * acc + d) cs)"

text \<open>
  \<open>u16::from_str\<close> and the like: one optional leading plus sign, at least one digit, no
  other characters, no overflow.
\<close>

definition parse_unsigned :: "nat \<Rightarrow> string \<Rightarrow> nat option" where
  "parse_unsigned max_val s =
     (let ds = (case s of [] \<Rightarrow> [] | c # cs \<Rightarrow> if c = CHR ''+'' then cs else s) in
      if ds = [] then None
      else (case digits_val 0 ds of
              None \<Rightarrow> None
            | Some n \<Rightarrow> if n \<le> max_val then Some n else None))"

definition parse_u16 :: "string \<Rightarrow> u16 option" where
  "parse_u16 s = map_option of_nat (parse_unsigned 65535 s)"

definition parse_u32 :: "string \<Rightarrow> u32 option" where
  "parse_u32 s = map_option of_nat (parse_unsigned 4294967295 s)"

definition i64_try_from :: "u64 \<Rightarrow> int option" where
  "i64_try_from v = (if unat v < 2 ^ 63 then Some (uint v) else None)"

function string_of_nat :: "nat \<Rightarrow> string" where
  "string_of_nat n =
     (if n < 10 then [char_of (48 + n)]
      else string_of_nat (n div 10) @ [char_of (48 + n mod 10)])"
  by pat_completeness auto
termination by (relation "measure id") auto

declare string_of_nat.simps [simp del]

lemma string_of_nat_small: "string_of_nat 0 = ''0''" "string_of_nat 1 = ''1''" "string_of_nat (Suc 0) = ''1''"
  by code_simp+

lemma digits_val_Some_digits:
  "digits_val acc s = Some n \<Longrightarrow> \<forall>c \<in> set s. digit_val c \<noteq> None"
  by (induction s arbitrary: acc) (auto split: option.splits)

lemma parse_unsigned_bound: "parse_unsigned m s = Some n \<Longrightarrow> n \<le> m"
  by (auto simp: parse_unsigned_def Let_def split: option.splits if_splits list.splits)

lemma parse_u16_zero_iff: "parse_u16 s = Some 0 \<longleftrightarrow> parse_unsigned 65535 s = Some 0"
proof -
  have "of_nat n = (0 :: u16) \<longleftrightarrow> n = 0" if "n \<le> 65535" for n
    using that by (auto simp: word_of_nat_eq_0_iff dest: dvd_imp_le)
  then show ?thesis
    by (auto simp: parse_u16_def dest: parse_unsigned_bound)
qed

lemma digit_val_not_colon: "digit_val c \<noteq> None \<Longrightarrow> c \<noteq> CHR '':'' \<and> c \<noteq> CHR ''+''"
  by (auto simp: digit_val_def Let_def)

lemma digits_no_plus:
  assumes "ds \<noteq> []" "\<forall>c \<in> set ds. digit_val c \<noteq> None"
  shows "(case ds of [] \<Rightarrow> [] | c # cs \<Rightarrow> if c = CHR ''+'' then cs else ds) = ds"
proof -
  have "hd ds \<noteq> CHR ''+''"
    by (rule conjunct2 [OF digit_val_not_colon [OF assms(2) [rule_format, OF hd_in_set [OF assms(1)]]]])
  then show ?thesis by (cases ds) auto
qed

lemma digit_val_char_of: "d < 10 \<Longrightarrow> digit_val (char_of (48 + d)) = Some d"
  by (simp add: digit_val_def Let_def)

lemma digits_val_append:
  "digits_val acc (s @ t) = Option.bind (digits_val acc s) (\<lambda>n. digits_val n t)"
  by (induction s arbitrary: acc) (auto split: option.splits)

lemma digits_val_string_of_nat: "digits_val 0 (string_of_nat n) = Some n"
proof (induction n rule: string_of_nat.induct)
  case (1 n)
  then show ?case
    by (cases "n < 10") (simp_all add: string_of_nat.simps [of n] digit_val_char_of digits_val_append)
qed

lemma string_of_nat_digits: "c \<in> set (string_of_nat n) \<Longrightarrow> digit_val c \<noteq> None"
  using digits_val_Some_digits [OF digits_val_string_of_nat] by blast

lemma string_of_nat_nonempty: "string_of_nat n \<noteq> []"
  by (simp add: string_of_nat.simps [of n])

text \<open>A number that \<open>Display\<close> prints is parsed back by \<open>FromStr\<close>.\<close>

lemma parse_unsigned_string_of_nat: "n \<le> m \<Longrightarrow> parse_unsigned m (string_of_nat n) = Some n"
  using digits_no_plus [OF string_of_nat_nonempty, of n] string_of_nat_digits [of _ n]
  by (simp add: parse_unsigned_def string_of_nat_nonempty digits_val_string_of_nat)

section \<open>String::truncate\<close>

text \<open>
  \<open>String::truncate n\<close> is the identity when \<open>n\<close> is at least the length, and panics (\<open>None\<close>)
  when byte \<open>n\<close> is a UTF-8 continuation byte.
\<close>

definition utf8_continuation :: "char \<Rightarrow> bool" where
  "utf8_continuation c \<longleftrightarrow> (let n = of_char c :: nat in 128 \<le> n \<and> n < 192)"

definition is_char_boundary :: "string \<Rightarrow> nat \<Rightarrow> bool" where
  "is_char_boundary s n \<longleftrightarrow> n = length s \<or> (n < length s \<and> \<not> utf8_continuation (s ! n))"

definition truncate_str :: "string \<Rightarrow> nat \<Rightarrow> string option" where
  "truncate_str s n =
     (if length s \<le> n then Some s
      else if is_char_boundary s n then Some (take n s) else None)"

lemma truncate_str_length: "truncate_str s n = Some t \<Longrightarrow> length t \<le> n"
  by (auto simp: truncate_str_def split: if_splits)

lemma truncate_str_ascii:
  assumes "\<forall>c \<in> set s. (of_char c :: nat) < 128"
  shows "truncate_str s n = Some (take n s)"
  using assms by (auto simp: truncate_str_def is_char_boundary_def utf8_continuation_def Let_def
      dest!: bspec[where x = "s ! n"])

section \<open>Socket addresses\<close>

text \<open>\<open>std::net::SocketAddr\<close>: IPv4 with port, IPv6 with port, flow information and scope.\<close>

datatype socket_addr =
    V4 u32 u16
  | V6 "128 word" u16 u32 u32

fun is_ipv4 :: "socket_addr \<Rightarrow> bool" where
  "is_ipv4 (V4 _ _) = True"
| "is_ipv4 (V6 _ _ _ _) = False"

fun is_ipv6 :: "socket_addr \<Rightarrow> bool" where
  "is_ipv6 (V4 _ _) = False"
| "is_ipv6 (V6 _ _ _ _) = True"

lemma is_ipv4_not_ipv6: "is_ipv4 a \<longleftrightarrow> \<not> is_ipv6 a"
  by (cases a) auto

text \<open>
  The grammar \<open>SocketAddr::from_str\<close> accepts, as recognisers that return the rest of the
  input: numbers with a digit limit and a rule on leading zeros, dotted IPv4 addresses,
  IPv6 groups with an optional embedded IPv4 tail and \<open>::\<close>, an optional scope, a port.
\<close>

definition read_char :: "char \<Rightarrow> string \<Rightarrow> string option" where
  "read_char c s = (case s of [] \<Rightarrow> None | x # xs \<Rightarrow> if x = c then Some xs else None)"

fun number_val :: "nat \<Rightarrow> (char \<Rightarrow> nat option) \<Rightarrow> nat \<Rightarrow> string \<Rightarrow> nat" where
  "number_val radix dv acc [] = acc"
| "number_val radix dv acc (c # cs) =
     (case dv c of None \<Rightarrow> acc | Some d \<Rightarrow> number_val radix dv (radix * acc + d) cs)"

definition read_number ::
  "nat \<Rightarrow> (char \<Rightarrow> nat option) \<Rightarrow> nat option \<Rightarrow> bool \<Rightarrow> nat \<Rightarrow> string \<Rightarrow> string option" where
  "read_number radix dv max_digits allow_zero_prefix max_val s =
     (let ds = takeWhile (\<lambda>c. dv c \<noteq> None) s in
      if ds = [] then None
      else if (case max_digits of None \<Rightarrow> False | Some m \<Rightarrow> m < length ds) then None
      else if \<not> allow_zero_prefix \<and> hd ds = CHR ''0'' \<and> 1 < length ds then None
      else if max_val < number_val radix dv 0 ds then None
      else Some (dropWhile (\<lambda>c. dv c \<noteq> None) s))"

definition read_octet :: "string \<Rightarrow> string option" where
  "read_octet = read_number 10 digit_val (Some 3) False 255"

definition read_ipv4 :: "string \<Rightarrow> string option" where
  "read_ipv4 s =
     Option.bind (read_octet s) (\<lambda>s1. Option.bind (read_char CHR ''.'' s1) (\<lambda>s2.
     Option.bind (read_octet s2) (\<lambda>s3. Option.bind (read_char CHR ''.'' s3) (\<lambda>s4.
     Option.bind (read_octet s4) (\<lambda>s5. Option.bind (read_char CHR ''.'' s5) (\<lambda>s6.
     read_octet s6))))))"

definition read_sep :: "bool \<Rightarrow> (string \<Rightarrow> string option) \<Rightarrow> string \<Rightarrow> string option" where
  "read_sep first inner s =
     (if first then inner s else Option.bind (read_char CHR '':'' s) inner)"

fun read_groups :: "nat \<Rightarrow> bool \<Rightarrow> string \<Rightarrow> nat \<times> bool \<times> string" where
  "read_groups 0 first s = (0, False, s)"
| "read_groups (Suc r) first s =
     (case (if 0 < r then read_sep first read_ipv4 s else None) of
        Some s' \<Rightarrow> (2, True, s')
      | None \<Rightarrow>
          (case read_sep first (read_number 16 hex_digit_val (Some 4) True 65535) s of
             None \<Rightarrow> (0, False, s)
           | Some s' \<Rightarrow> (case read_groups r False s' of (n, v4, t) \<Rightarrow> (Suc n, v4, t))))"

definition read_ipv6 :: "string \<Rightarrow> string option" where
  "read_ipv6 s =
     (case read_groups 8 True s of (head_size, head_ipv4, s1) \<Rightarrow>
        if head_size = 8 then Some s1
        else if head_ipv4 then None
        else Option.bind (read_char CHR '':'' s1) (\<lambda>s2.
             Option.bind (read_char CHR '':'' s2) (\<lambda>s3.
             Some (snd (snd (read_groups (8 - (head_size + 1)) True s3))))))"

definition read_port :: "string \<Rightarrow> string option" where
  "read_port s =
     Option.bind (read_char CHR '':'' s) (read_number 10 digit_val None True 65535)"

definition read_scope_id :: "string \<Rightarrow> string option" where
  "read_scope_id s =
     Option.bind (read_char CHR ''%'' s) (read_number 10 digit_val None True 4294967295)"

definition is_socket_addr_v4 :: "string \<Rightarrow> bool" where
  "is_socket_addr_v4 s \<longleftrightarrow> Option.bind (read_ipv4 s) read_port = Some []"

definition is_socket_addr_v6 :: "string \<Rightarrow> bool" where
  "is_socket_addr_v6 s \<longleftrightarrow>
     Option.bind (read_char CHR ''['' s) (\<lambda>s1.
     Option.bind (read_ipv6 s1) (\<lambda>s2.
     let s3 = (case read_scope_id s2 of None \<Rightarrow> s2 | Some t \<Rightarrow> t) in
     Option.bind (read_char CHR '']'' s3) read_port)) = Some []"

definition is_socket_addr :: "string \<Rightarrow> bool" where
  "is_socket_addr s \<longleftrightarrow> is_socket_addr_v4 s \<or> is_socket_addr_v6 s"

text \<open>Every recogniser returns a suffix of its input.\<close>

definition is_suffix_of :: "string \<Rightarrow> string \<Rightarrow> bool" where
  "is_suffix_of t s \<longleftrightarrow> (\<exists>p. s = p @ t)"

lemma is_suffix_of_refl [simp]: "is_suffix_of s s"
  by (auto simp: is_suffix_of_def)

lemma is_suffix_of_trans: "is_suffix_of u t \<Longrightarrow> is_suffix_of t s \<Longrightarrow> is_suffix_of u s"
  by (auto simp: is_suffix_of_def)

lemma is_suffix_of_append [intro]: "is_suffix_of u t \<Longrightarrow> is_suffix_of u (p @ t)"
  by (metis append_assoc is_suffix_of_def)

lemma is_suffix_ofE:
  assumes "is_suffix_of t s" obtains p where "s = p @ t"
  using assms by (auto simp: is_suffix_of_def)

lemma read_char_Some_iff: "read_char c s = Some t \<longleftrightarrow> s = c # t"
  by (auto simp: read_char_def split: list.splits)

lemma read_char_suffix: "read_char c s = Some t \<Longrightarrow> is_suffix_of t s"
  by (auto simp: read_char_Some_iff is_suffix_of_def)

lemma read_number_suffix: "read_number r dv m z mv s = Some t \<Longrightarrow> is_suffix_of t s"
  by (auto simp: read_number_def is_suffix_of_def Let_def split: if_splits)
     (metis takeWhile_dropWhile_id)+

lemma read_sep_suffix:
  assumes "\<And>s t. inner s = Some t \<Longrightarrow> is_suffix_of t s" "read_sep first inner s = Some t"
  shows "is_suffix_of t s"
proof (cases first)
  case True
  with assms show ?thesis by (simp add: read_sep_def)
next
  case False
  with assms(2) obtain u where "read_char CHR '':'' s = Some u" "inner u = Some t"
    by (auto simp: read_sep_def bind_eq_Some_conv)
  then show ?thesis using assms(1) read_char_suffix is_suffix_of_trans by blast
qed

lemma read_ipv4_suffix: "read_ipv4 s = Some t \<Longrightarrow> is_suffix_of t s"
  unfolding read_ipv4_def read_octet_def
  by (simp add: bind_eq_Some_conv, elim exE conjE, drule read_number_suffix)
     (meson read_char_suffix read_number_suffix is_suffix_of_trans)

lemma read_groups_suffix: "read_groups r first s = (n, v4, t) \<Longrightarrow> is_suffix_of t s"
proof (induction r first s arbitrary: n v4 t rule: read_groups.induct)
  case (1 first s)
  then show ?case by simp
next
  case (2 r first s)
  show ?case
  proof (cases "if 0 < r then read_sep first read_ipv4 s else None")
    case (Some s')
    then have "read_sep first read_ipv4 s = Some s'" by (auto split: if_splits)
    then have "is_suffix_of s' s" by (rule read_sep_suffix [rotated]) (rule read_ipv4_suffix)
    with Some "2.prems" show ?thesis by simp
  next
    case None
    note ip4 = None
    let ?g = "read_sep first (read_number 16 hex_digit_val (Some 4) True 65535) s"
    show ?thesis
    proof (cases ?g)
      case None
      with ip4 "2.prems" show ?thesis by simp
    next
      case (Some s')
      obtain k v u where rec: "read_groups r False s' = (k, v, u)"
        by (cases "read_groups r False s'") auto
      with Some ip4 "2.prems" have "t = u" by simp
      moreover have "is_suffix_of u s'"
        using "2.IH" [OF ip4 Some rec] .
      moreover have "is_suffix_of s' s"
        using Some by (rule read_sep_suffix [rotated]) (rule read_number_suffix)
      ultimately show ?thesis by (blast intro: is_suffix_of_trans)
    qed
  qed
qed

lemma read_ipv6_suffix:
  assumes "read_ipv6 s = Some t"
  shows "is_suffix_of t s"
proof -
  obtain n v4 s1 where g: "read_groups 8 True s = (n, v4, s1)"
    by (cases "read_groups 8 True s") auto
  then have 1: "is_suffix_of s1 s" by (rule read_groups_suffix)
  show ?thesis
  proof (cases "n = 8")
    case True
    with assms g 1 show ?thesis by (simp add: read_ipv6_def)
  next
    case False
    with assms g obtain s2 s3 where
      "read_char CHR '':'' s1 = Some s2" "read_char CHR '':'' s2 = Some s3"
      and t: "t = snd (snd (read_groups (8 - (n + 1)) True s3))"
      by (auto simp: read_ipv6_def bind_eq_Some_conv split: if_splits)
    then have "is_suffix_of s2 s1" "is_suffix_of s3 s2"
      by (simp_all add: read_char_suffix)
    with 1 have 3: "is_suffix_of s3 s" by (blast intro: is_suffix_of_trans)
    obtain m w u where r: "read_groups (8 - (n + 1)) True s3 = (m, w, u)"
      by (rule prod_cases3)
    then have "is_suffix_of u s3" by (rule read_groups_suffix)
    moreover have "t = u" unfolding t r by simp
    ultimately show ?thesis using 3 by (simp add: is_suffix_of_trans)
  qed
qed

lemma read_port_all:
  assumes "read_port s = Some []"
  obtains ds where "s = CHR '':'' # ds" "ds \<noteq> []" "\<forall>c \<in> set ds. digit_val c \<noteq> None"
    "number_val 10 digit_val 0 ds \<le> 65535"
proof -
  from assms obtain ds where s: "s = CHR '':'' # ds"
    and rn: "read_number 10 digit_val None True 65535 ds = Some []"
    by (auto simp: read_port_def bind_eq_Some_conv read_char_Some_iff)
  from rn have dw: "dropWhile (\<lambda>c. digit_val c \<noteq> None) ds = []"
    by (auto simp: read_number_def Let_def split: if_splits)
  then have all: "\<forall>c \<in> set ds. digit_val c \<noteq> None"
    by (simp only: dropWhile_eq_Nil_conv)
  then have tw: "takeWhile (\<lambda>c. digit_val c \<noteq> None) ds = ds"
    by (simp only: takeWhile_eq_all_conv)
  from rn have "ds \<noteq> [] \<and> number_val 10 digit_val 0 ds \<le> 65535"
    unfolding read_number_def Let_def tw by (auto split: if_splits)
  then show thesis using that [OF s _ all] by simp
qed

lemma digits_val_number_val:
  "\<forall>c \<in> set ds. digit_val c \<noteq> None \<Longrightarrow>
   digits_val acc ds = Some (number_val 10 digit_val acc ds)"
  by (induction ds arbitrary: acc) (auto split: option.splits)

text \<open>
  Whatever \<open>SocketAddr::from_str\<close> accepts ends in a colon and a port that \<open>u16::from_str\<close>
  accepts too, with something in front of the colon.
\<close>

lemma socket_addr_host_port:
  assumes "is_socket_addr s"
  shows "\<exists>h p. rsplit_once CHR '':'' s = Some (h, p) \<and> h \<noteq> [] \<and> parse_u16 p \<noteq> None"
proof -
  have "\<exists>pre q. s = pre @ q \<and> pre \<noteq> [] \<and> read_port q = Some []"
  proof (cases "is_socket_addr_v4 s")
    case True
    then obtain q where q: "read_ipv4 s = Some q" and port: "read_port q = Some []"
      by (auto simp: is_socket_addr_v4_def bind_eq_Some_conv)
    from q obtain pre where "s = pre @ q" by (auto elim: is_suffix_ofE dest: read_ipv4_suffix)
    moreover have "pre \<noteq> []"
    proof
      assume "pre = []"
      with \<open>s = pre @ q\<close> have "read_ipv4 q = Some q" using q by simp
      moreover from port obtain ds where "q = CHR '':'' # ds" by (rule read_port_all)
      ultimately show False
        by (auto simp: read_ipv4_def read_octet_def read_number_def bind_eq_Some_conv Let_def
            digit_val_def)
    qed
    ultimately show ?thesis using port by blast
  next
    case False
    with assms have "is_socket_addr_v6 s" by (simp add: is_socket_addr_def)
    then obtain s1 s2 s3 q where 1: "read_char CHR ''['' s = Some s1"
      and "read_ipv6 s1 = Some s2"
      and s3: "s3 = (case read_scope_id s2 of None \<Rightarrow> s2 | Some t \<Rightarrow> t)"
      and "read_char CHR '']'' s3 = Some q" and port: "read_port q = Some []"
      by (auto simp: is_socket_addr_v6_def bind_eq_Some_conv Let_def)
    moreover have "is_suffix_of s3 s2"
      unfolding s3 by (auto split: option.splits simp: read_scope_id_def bind_eq_Some_conv
          intro: is_suffix_of_trans dest: read_number_suffix read_char_suffix)
    ultimately have "is_suffix_of q s1"
      by (meson read_ipv6_suffix read_char_suffix is_suffix_of_trans)
    then obtain pre where "s1 = pre @ q" by (rule is_suffix_ofE)
    with 1 have "s = (CHR ''['' # pre) @ q" by (simp add: read_char_Some_iff)
    with port show ?thesis by blast
  qed
  then obtain pre q where s: "s = pre @ q" "pre \<noteq> []" and "read_port q = Some []" by blast
  from \<open>read_port q = Some []\<close> obtain ds where q: "q = CHR '':'' # ds" "ds \<noteq> []"
    and ds: "\<forall>c \<in> set ds. digit_val c \<noteq> None" "number_val 10 digit_val 0 ds \<le> 65535"
    by (rule read_port_all)
  have "CHR '':'' \<notin> set ds" using ds(1) digit_val_not_colon by blast
  then have "rsplit_once CHR '':'' s = Some (pre, ds)"
    by (simp add: rsplit_once_Some_iff s q)
  moreover have "parse_u16 ds \<noteq> None"
    using ds q(2) digits_no_plus [OF q(2) ds(1)]
    by (simp add: parse_u16_def parse_unsigned_def digits_val_number_val del: not_None_eq)
  ultimately show ?thesis using s(2) by blast
qed

end
