(* ===== verification/Protocol.thy ===== *)
theory Protocol
  imports Rust_Std
begin

text \<open>
  \<open>src/protocol.rs\<close>: the messages of the control and data channels and their framing.
  \<open>bincode\<close> and \<open>sha2\<close> are not part of the repository: the codec is a record of functions,
  and what the code relies on (fixed-width encodings that decode to themselves) is
  \<open>bincode_ok\<close>. A connection that is read is the list of bytes still to come before the
  end of the stream; one that is written is the list of bytes sent, with the number of
  bytes it still takes before it fails.
\<close>

section \<open>Messages\<close>

type_synonym digest = bytes

definition HASH_WIDTH_IN_BYTES :: nat where
  "HASH_WIDTH_IN_BYTES = 32"

type_synonym protocol_version = u8

definition PROTO_V1 :: u8 where
  "PROTO_V1 = 1"

definition CURRENT_PROTO_VERSION :: protocol_version where
  "CURRENT_PROTO_VERSION = PROTO_V1"

datatype hello =
    ControlChannelHello protocol_version digest
  | DataChannelHello protocol_version digest

datatype auth = Auth digest

datatype ack = Ok | ServiceNotExist | AuthFailed

fun display_ack :: "ack \<Rightarrow> string" where
  "display_ack Ok = ''Ok''"
| "display_ack ServiceNotExist = ''Service not exist''"
| "display_ack AuthFailed = ''Incorrect token''"

datatype control_channel_cmd = CreateDataChannel | HeartBeat

datatype data_channel_cmd = StartForwardTcp | StartForwardUdp

record udp_header =
  hdr_from :: socket_addr
  hdr_len :: u16

record udp_traffic =
  ut_from :: socket_addr
  ut_data :: bytes

section \<open>The codec\<close>

record bincode =
  ser_hello :: "hello \<Rightarrow> bytes"
  de_hello :: "bytes \<Rightarrow> hello option"
  ser_auth :: "auth \<Rightarrow> bytes"
  de_auth :: "bytes \<Rightarrow> auth option"
  ser_ack :: "ack \<Rightarrow> bytes"
  de_ack :: "bytes \<Rightarrow> ack option"
  ser_c_cmd :: "control_channel_cmd \<Rightarrow> bytes"
  de_c_cmd :: "bytes \<Rightarrow> control_channel_cmd option"
  ser_d_cmd :: "data_channel_cmd \<Rightarrow> bytes"
  de_d_cmd :: "bytes \<Rightarrow> data_channel_cmd option"
  ser_udp_header :: "udp_header \<Rightarrow> bytes"
  de_udp_header :: "bytes \<Rightarrow> udp_header option"

definition wf_digest :: "digest \<Rightarrow> bool" where
  "wf_digest d \<longleftrightarrow> length d = HASH_WIDTH_IN_BYTES"

fun hello_digest :: "hello \<Rightarrow> digest" where
  "hello_digest (ControlChannelHello v d) = d"
| "hello_digest (DataChannelHello v d) = d"

fun hello_version :: "hello \<Rightarrow> protocol_version" where
  "hello_version (ControlChannelHello v d) = v"
| "hello_version (DataChannelHello v d) = v"

text \<open>The serde form of an IPv6 socket address keeps the address and the port only.\<close>

fun serde_addr :: "socket_addr \<Rightarrow> bool" where
  "serde_addr (V4 ip p) = True"
| "serde_addr (V6 ip p flow scope) \<longleftrightarrow> flow = 0 \<and> scope = 0"

text \<open>
  bincode's documented default format: a variant index of four bytes, fixed-width
  integers, arrays without a length; a value is decoded from its own encoding, an
  encoding's length depends on the type only, and an address takes at most 22 bytes.
\<close>

definition bincode_ok :: "bincode \<Rightarrow> bool" where
  "bincode_ok B \<longleftrightarrow>
     (\<forall>h. wf_digest (hello_digest h) \<longrightarrow> de_hello B (ser_hello B h) = Some h \<and> length (ser_hello B h) = 37) \<and>
     (\<forall>d. wf_digest d \<longrightarrow> de_auth B (ser_auth B (Auth d)) = Some (Auth d) \<and> length (ser_auth B (Auth d)) = 32) \<and>
     (\<forall>a. de_ack B (ser_ack B a) = Some a \<and> length (ser_ack B a) = 4) \<and>
     (\<forall>c. de_c_cmd B (ser_c_cmd B c) = Some c \<and> length (ser_c_cmd B c) = 4) \<and>
     (\<forall>c. de_d_cmd B (ser_d_cmd B c) = Some c \<and> length (ser_d_cmd B c) = 4) \<and>
     (\<forall>h. serde_addr (hdr_from h) \<longrightarrow> de_udp_header B (ser_udp_header B h) = Some h) \<and>
     (\<forall>h. 0 < length (ser_udp_header B h) \<and> length (ser_udp_header B h) \<le> 24)"

section \<open>Connections\<close>

definition read_exact :: "nat \<Rightarrow> bytes \<Rightarrow> anyhow + bytes \<times> bytes" where
  "read_exact n s =
     (if n \<le> length s then Inr (take n s, drop n s) else Inl (Err ''early eof''))"

definition read_u8 :: "bytes \<Rightarrow> anyhow + u8 \<times> bytes" where
  "read_u8 s = (case s of [] \<Rightarrow> Inl (Err ''early eof'') | b # s' \<Rightarrow> Inr (b, s'))"

record sink =
  written :: bytes
  takes :: "nat option"

definition write_all :: "sink \<Rightarrow> bytes \<Rightarrow> anyhow + sink" where
  "write_all w bs =
     (case takes w of
        None \<Rightarrow> Inr (w\<lparr>written := written w @ bs\<rparr>)
      | Some n \<Rightarrow>
          if length bs \<le> n then Inr (w\<lparr>written := written w @ bs, takes := Some (n - length bs)\<rparr>)
          else Inl (Err ''broken pipe''))"

definition write_u8 :: "sink \<Rightarrow> u8 \<Rightarrow> anyhow + sink" where
  "write_u8 w b = write_all w [b]"

section \<open>UDP traffic on a stream\<close>

definition write_slice ::
  "bincode \<Rightarrow> sink \<Rightarrow> socket_addr \<Rightarrow> bytes \<Rightarrow> anyhow + sink" where
  "write_slice B w from data =
     (let hdr = \<lparr>hdr_from = from, hdr_len = of_nat (length data)\<rparr>;
          v = ser_udp_header B hdr in
      rbind (write_u8 w (of_nat (length v))) (\<lambda>w1.
      rbind (write_all w1 v) (\<lambda>w2.
      write_all w2 data)))"

definition udp_write :: "bincode \<Rightarrow> udp_traffic \<Rightarrow> sink \<Rightarrow> anyhow + sink" where
  "udp_write B t w =
     (let hdr = \<lparr>hdr_from = ut_from t, hdr_len = of_nat (length (ut_data t))\<rparr>;
          v = ser_udp_header B hdr in
      rbind (write_u8 w (of_nat (length v))) (\<lambda>w1.
      rbind (write_all w1 v) (\<lambda>w2.
      write_all w2 (ut_data t))))"

definition udp_read :: "bincode \<Rightarrow> bytes \<Rightarrow> u8 \<Rightarrow> anyhow + udp_traffic \<times> bytes" where
  "udp_read B s hdr_len8 =
     rbind (with_context (Ctx ''Failed to read udp header'') (read_exact (unat hdr_len8) s)) (\<lambda>(buf, s1).
     rbind (with_context (Ctx ''Failed to deserialize UdpHeader'')
              (ok_or (Err ''bincode'') (de_udp_header B buf))) (\<lambda>hdr.
     rbind (read_exact (unat (hdr_len hdr)) s1) (\<lambda>(data, s2).
     Inr (\<lparr>ut_from = hdr_from hdr, ut_data = data\<rparr>, s2))))"

section \<open>Fixed-size packets\<close>

record packet_length =
  pl_hello :: nat
  pl_ack :: nat
  pl_auth :: nat
  pl_c_cmd :: nat
  pl_d_cmd :: nat

definition PacketLength_new :: "bincode \<Rightarrow> (string \<Rightarrow> digest) \<Rightarrow> packet_length" where
  "PacketLength_new B sha256 =
     (let d = sha256 ''default'' in
      \<lparr>pl_hello = length (ser_hello B (ControlChannelHello CURRENT_PROTO_VERSION d)),
       pl_ack = length (ser_ack B Ok),
       pl_auth = length (ser_auth B (Auth d)),
       pl_c_cmd = length (ser_c_cmd B CreateDataChannel),
       pl_d_cmd = length (ser_d_cmd B StartForwardTcp)\<rparr>)"

definition version_mismatch :: "protocol_version \<Rightarrow> anyhow" where
  "version_mismatch v =
     Err (''Protocol version mismatched. Expected '' @ string_of_nat (unat CURRENT_PROTO_VERSION) @
          '', got '' @ string_of_nat (unat v) @ ''. Please update `rathole`.'')"

definition read_hello :: "bincode \<Rightarrow> packet_length \<Rightarrow> bytes \<Rightarrow> anyhow + hello \<times> bytes" where
  "read_hello B PACKET_LEN s =
     rbind (with_context (Ctx ''Failed to read hello'') (read_exact (pl_hello PACKET_LEN) s)) (\<lambda>(buf, s').
     rbind (with_context (Ctx ''Failed to deserialize hello'')
              (ok_or (Err ''bincode'') (de_hello B buf))) (\<lambda>hello.
     case hello of
       ControlChannelHello v _ \<Rightarrow>
         if v \<noteq> CURRENT_PROTO_VERSION then Inl (version_mismatch v) else Inr (hello, s')
     | DataChannelHello v _ \<Rightarrow>
         if v \<noteq> CURRENT_PROTO_VERSION then Inl (version_mismatch v) else Inr (hello, s')))"

definition read_auth :: "bincode \<Rightarrow> packet_length \<Rightarrow> bytes \<Rightarrow> anyhow + auth \<times> bytes" where
  "read_auth B PACKET_LEN s =
     rbind (with_context (Ctx ''Failed to read auth'') (read_exact (pl_auth PACKET_LEN) s)) (\<lambda>(buf, s').
     rbind (with_context (Ctx ''Failed to deserialize auth'')
              (ok_or (Err ''bincode'') (de_auth B buf))) (\<lambda>a. Inr (a, s')))"

definition read_ack :: "bincode \<Rightarrow> packet_length \<Rightarrow> bytes \<Rightarrow> anyhow + ack \<times> bytes" where
  "read_ack B PACKET_LEN s =
     rbind (with_context (Ctx ''Failed to read ack'') (read_exact (pl_ack PACKET_LEN) s)) (\<lambda>(buf, s').
     rbind (with_context (Ctx ''Failed to deserialize ack'')
              (ok_or (Err ''bincode'') (de_ack B buf))) (\<lambda>a. Inr (a, s')))"

definition read_control_cmd ::
  "bincode \<Rightarrow> packet_length \<Rightarrow> bytes \<Rightarrow> anyhow + control_channel_cmd \<times> bytes" where
  "read_control_cmd B PACKET_LEN s =
     rbind (with_context (Ctx ''Failed to read cmd'') (read_exact (pl_c_cmd PACKET_LEN) s)) (\<lambda>(buf, s').
     rbind (with_context (Ctx ''Failed to deserialize control cmd'')
              (ok_or (Err ''bincode'') (de_c_cmd B buf))) (\<lambda>c. Inr (c, s')))"

definition read_data_cmd ::
  "bincode \<Rightarrow> packet_length \<Rightarrow> bytes \<Rightarrow> anyhow + data_channel_cmd \<times> bytes" where
  "read_data_cmd B PACKET_LEN s =
     rbind (with_context (Ctx ''Failed to read cmd'') (read_exact (pl_d_cmd PACKET_LEN) s)) (\<lambda>(buf, s').
     rbind (with_context (Ctx ''Failed to deserialize data cmd'')
              (ok_or (Err ''bincode'') (de_d_cmd B buf))) (\<lambda>c. Inr (c, s')))"

section \<open>Framing\<close>

named_theorems io_simps \<open>reading from and writing to a connection that does not fail\<close>

lemma read_exact_append [io_simps]: "length v = n \<Longrightarrow> read_exact n (v @ s) = Inr (v, s)"
  by (simp add: read_exact_def)

lemma read_exact_length: "read_exact n s = Inr (v, s') \<Longrightarrow> s = v @ s' \<and> length v = n"
  by (auto simp: read_exact_def split: if_splits)

lemma read_u8_Cons [io_simps]: "read_u8 (b # s) = Inr (b, s)"
  by (simp add: read_u8_def)

lemma write_all_open [io_simps]:
  "takes w = None \<Longrightarrow> write_all w bs = Inr (w\<lparr>written := written w @ bs\<rparr>)"
  by (simp add: write_all_def)

lemma write_u8_open [io_simps]:
  "takes w = None \<Longrightarrow> write_u8 w b = Inr (w\<lparr>written := written w @ [b]\<rparr>)"
  by (simp add: write_u8_def io_simps)

lemma bincode_okD:
  assumes "bincode_ok B"
  shows "wf_digest (hello_digest h) \<Longrightarrow> de_hello B (ser_hello B h) = Some h"
    "wf_digest (hello_digest h) \<Longrightarrow> length (ser_hello B h) = 37"
    "wf_digest d \<Longrightarrow> de_auth B (ser_auth B (Auth d)) = Some (Auth d)"
    "wf_digest d \<Longrightarrow> length (ser_auth B (Auth d)) = 32"
    "de_ack B (ser_ack B a) = Some a" "length (ser_ack B a) = 4"
    "de_c_cmd B (ser_c_cmd B c) = Some c" "length (ser_c_cmd B c) = 4"
    "de_d_cmd B (ser_d_cmd B e) = Some e" "length (ser_d_cmd B e) = 4"
    "serde_addr (hdr_from u) \<Longrightarrow> de_udp_header B (ser_udp_header B u) = Some u"
    "0 < length (ser_udp_header B u)" "length (ser_udp_header B u) \<le> 24"
  using assms by (auto simp: bincode_ok_def)

lemma packet_length_new:
  assumes "bincode_ok B" "wf_digest (sha ''default'')"
  shows "PacketLength_new B sha =
    \<lparr>pl_hello = 37, pl_ack = 4, pl_auth = 32, pl_c_cmd = 4, pl_d_cmd = 4\<rparr>"
  using assms by (simp add: PacketLength_new_def Let_def bincode_okD)

lemma unat_small_u8: "n \<le> 24 \<Longrightarrow> unat (of_nat n :: u8) = n"
  by (simp add: unat_of_nat)

lemma udp_write_open:
  assumes "takes w = None"
  shows "udp_write B t w = Inr (w\<lparr>written := written w @
    (let v = ser_udp_header B \<lparr>hdr_from = ut_from t, hdr_len = of_nat (length (ut_data t))\<rparr>
     in of_nat (length v) # v @ ut_data t)\<rparr>)"
  using assms by (simp add: udp_write_def Let_def io_simps)

lemma write_slice_udp_write: "write_slice B w from data = udp_write B \<lparr>ut_from = from, ut_data = data\<rparr> w"
  by (simp add: write_slice_def udp_write_def)

definition udp_recv :: "bincode \<Rightarrow> bytes \<Rightarrow> anyhow + udp_traffic \<times> bytes" where
  "udp_recv B s = rbind (read_u8 s) (\<lambda>(n, s'). udp_read B s' n)"

text \<open>
  The length field is 16 bits wide: what the reader takes is the data up to its length
  modulo \<open>2 ^ 16\<close>, and the rest of the data stays in the stream.
\<close>

lemma udp_recv_written:
  fixes data rest :: bytes
  assumes B: "bincode_ok B" and addr: "serde_addr from"
  defines "hdr \<equiv> \<lparr>hdr_from = from, hdr_len = of_nat (length data)\<rparr>"
  defines "n \<equiv> length data mod 2 ^ 16"
  shows "udp_recv B (of_nat (length (ser_udp_header B hdr)) # ser_udp_header B hdr @ data @ rest) =
    Inr (\<lparr>ut_from = from, ut_data = take n data\<rparr>, drop n data @ rest)"
proof -
  let ?v = "ser_udp_header B hdr"
  have v: "unat (of_nat (length ?v) :: u8) = length ?v"
    by (rule unat_small_u8 [OF bincode_okD(13) [OF B]])
  have de: "de_udp_header B ?v = Some hdr"
    using bincode_okD(11) [OF B, of hdr] addr by (simp add: hdr_def)
  have len: "unat (hdr_len hdr) = n" by (simp add: hdr_def n_def unat_of_nat)
  have n: "n \<le> length data" by (simp add: n_def)
  then have "read_exact n (data @ rest) = Inr (take n data, drop n data @ rest)"
    by (simp add: read_exact_def)
  then show ?thesis
    by (simp add: udp_recv_def udp_read_def io_simps v de len) (simp add: hdr_def)
qed

fun udp_write_many :: "bincode \<Rightarrow> udp_traffic list \<Rightarrow> sink \<Rightarrow> anyhow + sink" where
  "udp_write_many B [] w = Inr w"
| "udp_write_many B (t # ts) w = rbind (udp_write B t w) (udp_write_many B ts)"

fun udp_recv_many :: "bincode \<Rightarrow> nat \<Rightarrow> bytes \<Rightarrow> anyhow + udp_traffic list \<times> bytes" where
  "udp_recv_many B 0 s = Inr ([], s)"
| "udp_recv_many B (Suc k) s =
     rbind (udp_recv B s) (\<lambda>(t, s1). rbind (udp_recv_many B k s1) (\<lambda>(ts, s2). Inr (t # ts, s2)))"

text \<open>What one packet looks like on the wire.\<close>

definition udp_frame :: "bincode \<Rightarrow> udp_traffic \<Rightarrow> bytes" where
  "udp_frame B t =
     (let v = ser_udp_header B \<lparr>hdr_from = ut_from t, hdr_len = of_nat (length (ut_data t))\<rparr>
      in of_nat (length v) # v @ ut_data t)"

lemma udp_write_frame: "takes w = None \<Longrightarrow> udp_write B t w = Inr (w\<lparr>written := written w @ udp_frame B t\<rparr>)"
  by (simp add: udp_write_open udp_frame_def)

lemma udp_recv_frame:
  assumes "bincode_ok B" "serde_addr (ut_from t)" "length (ut_data t) < 2 ^ 16"
  shows "udp_recv B (udp_frame B t @ rest) = Inr (t, rest)"
  using udp_recv_written [OF assms(1,2), of "ut_data t" rest] assms(3)
  by (simp add: udp_frame_def Let_def)

lemma udp_write_many_frames:
  "takes w = None \<Longrightarrow>
   udp_write_many B ts w = Inr (w\<lparr>written := written w @ concat (map (udp_frame B) ts)\<rparr>)"
  by (induction ts arbitrary: w) (simp_all add: udp_write_frame)

lemma udp_recv_many_frames:
  assumes "bincode_ok B" "\<forall>t \<in> set ts. serde_addr (ut_from t) \<and> length (ut_data t) < 2 ^ 16"
  shows "udp_recv_many B (length ts) (concat (map (udp_frame B) ts) @ rest) = Inr (ts, rest)"
  using assms(2) by (induction ts) (simp_all add: udp_recv_frame [OF assms(1)])

section \<open>The documented bincode format, as an instance\<close>

fun le_bytes :: "nat \<Rightarrow> nat \<Rightarrow> bytes" where
  "le_bytes 0 n = []"
| "le_bytes (Suc k) n = of_nat n # le_bytes k (n div 256)"

fun le_val :: "bytes \<Rightarrow> nat" where
  "le_val [] = 0"
| "le_val (b # bs) = unat b + 256 * le_val bs"

lemma length_le_bytes [simp]: "length (le_bytes k n) = k"
  by (induction k n rule: le_bytes.induct) auto

lemma le_val_le_bytes: "le_val (le_bytes k n) = n mod 256 ^ k"
  by (induction k n rule: le_bytes.induct) (auto simp: unat_of_nat mod_mult2_eq)

lemma le_val_small: "n < 256 ^ k \<Longrightarrow> le_val (le_bytes k n) = n"
  by (simp add: le_val_le_bytes)

lemma le_val_u16: "of_nat (le_val (le_bytes 2 (unat (p :: u16)))) = p"
proof -
  have "unat p < 256 ^ 2" using unsigned_less [of p] by simp
  then show ?thesis by (simp add: le_val_small)
qed

lemma le_val_u32: "of_nat (le_val (le_bytes 4 (unat (p :: u32)))) = p"
proof -
  have "unat p < 256 ^ 4" using unsigned_less [of p] by simp
  then show ?thesis by (simp add: le_val_small)
qed

lemma le_val_u128: "of_nat (le_val (le_bytes 16 (unat (p :: 128 word)))) = p"
proof -
  have "unat p < 256 ^ 16" using unsigned_less [of p] by simp
  then show ?thesis by (simp add: le_val_small)
qed

definition variant :: "nat \<Rightarrow> bytes" where
  "variant i = le_bytes 4 i"

fun v1_ser_hello :: "hello \<Rightarrow> bytes" where
  "v1_ser_hello (ControlChannelHello v d) = variant 0 @ v # d"
| "v1_ser_hello (DataChannelHello v d) = variant 1 @ v # d"

definition v1_de_hello :: "bytes \<Rightarrow> hello option" where
  "v1_de_hello s =
     (if length s = 37 then
        (case le_val (take 4 s) of
           0 \<Rightarrow> Some (ControlChannelHello (s ! 4) (drop 5 s))
         | Suc 0 \<Rightarrow> Some (DataChannelHello (s ! 4) (drop 5 s))
         | _ \<Rightarrow> None)
      else None)"

fun v1_ser_auth :: "auth \<Rightarrow> bytes" where
  "v1_ser_auth (Auth d) = d"

definition v1_ser_enum :: "'a list \<Rightarrow> 'a \<Rightarrow> bytes" where
  "v1_ser_enum vs x = variant (length (takeWhile (\<lambda>y. y \<noteq> x) vs))"

definition v1_de_enum :: "'a list \<Rightarrow> bytes \<Rightarrow> 'a option" where
  "v1_de_enum vs s =
     (if length s = 4 \<and> le_val s < length vs then Some (vs ! le_val s) else None)"

fun v1_ser_addr :: "socket_addr \<Rightarrow> bytes" where
  "v1_ser_addr (V4 ip p) = variant 0 @ le_bytes 4 (unat ip) @ le_bytes 2 (unat p)"
| "v1_ser_addr (V6 ip p _ _) = variant 1 @ le_bytes 16 (unat ip) @ le_bytes 2 (unat p)"

definition v1_de_addr :: "bytes \<Rightarrow> socket_addr option" where
  "v1_de_addr s =
     (if length s = 10 \<and> le_val (take 4 s) = 0
      then Some (V4 (of_nat (le_val (take 4 (drop 4 s)))) (of_nat (le_val (drop 8 s))))
      else if length s = 22 \<and> le_val (take 4 s) = 1
      then Some (V6 (of_nat (le_val (take 16 (drop 4 s)))) (of_nat (le_val (drop 20 s))) 0 0)
      else None)"

definition bincode_v1 :: bincode where
  "bincode_v1 =
     \<lparr>ser_hello = v1_ser_hello, de_hello = v1_de_hello,
      ser_auth = v1_ser_auth, de_auth = \<lambda>s. if length s = 32 then Some (Auth s) else None,
      ser_ack = v1_ser_enum [Ok, ServiceNotExist, AuthFailed],
      de_ack = v1_de_enum [Ok, ServiceNotExist, AuthFailed],
      ser_c_cmd = v1_ser_enum [CreateDataChannel, HeartBeat],
      de_c_cmd = v1_de_enum [CreateDataChannel, HeartBeat],
      ser_d_cmd = v1_ser_enum [StartForwardTcp, StartForwardUdp],
      de_d_cmd = v1_de_enum [StartForwardTcp, StartForwardUdp],
      ser_udp_header = \<lambda>h. v1_ser_addr (hdr_from h) @ le_bytes 2 (unat (hdr_len h)),
      de_udp_header = \<lambda>s. map_option
        (\<lambda>a. \<lparr>hdr_from = a, hdr_len = of_nat (le_val (drop (length s - 2) s))\<rparr>)
        (v1_de_addr (take (length s - 2) s))\<rparr>"

lemma variant_props [simp]: "length (variant i) = 4" "i < 3 \<Longrightarrow> le_val (variant i) = i"
  by (simp_all add: variant_def le_val_le_bytes)

lemma v1_hello: "length d = 32 \<Longrightarrow> hello_digest h = d \<Longrightarrow>
    v1_de_hello (v1_ser_hello h) = Some h \<and> length (v1_ser_hello h) = 37"
  by (cases h) (simp_all add: v1_de_hello_def nth_append)

lemma v1_enum:
  assumes "x \<in> set vs" "length vs \<le> 3"
  shows "v1_de_enum vs (v1_ser_enum vs x) = Some x" "length (v1_ser_enum vs x) = 4"
proof -
  let ?i = "length (takeWhile (\<lambda>y. y \<noteq> x) vs)"
  have "dropWhile (\<lambda>y. y \<noteq> x) vs \<noteq> []" using assms(1) by auto
  moreover have "length vs = ?i + length (dropWhile (\<lambda>y. y \<noteq> x) vs)"
    by (metis length_append takeWhile_dropWhile_id)
  ultimately have "?i < length vs" by simp
  moreover from this have "vs ! ?i = x" using nth_length_takeWhile [of "\<lambda>y. y \<noteq> x" vs] by simp
  ultimately show "v1_de_enum vs (v1_ser_enum vs x) = Some x"
    using assms(2) by (simp add: v1_de_enum_def v1_ser_enum_def)
qed (simp add: v1_ser_enum_def)

lemma v1_addr: "serde_addr a \<Longrightarrow> v1_de_addr (v1_ser_addr a) = Some a"
  by (cases a) (simp_all add: v1_de_addr_def le_val_u16 le_val_u32 le_val_u128)

lemma v1_addr_length: "length (v1_ser_addr a) \<le> 22"
  by (cases a) simp_all

lemma bincode_v1_ok: "bincode_ok bincode_v1"
proof -
  have "a \<in> set [Ok, ServiceNotExist, AuthFailed]" for a by (cases a) auto
  moreover have "c \<in> set [CreateDataChannel, HeartBeat]" for c by (cases c) auto
  moreover have "d \<in> set [StartForwardTcp, StartForwardUdp]" for d by (cases d) auto
  moreover have "le_val (le_bytes 2 (unat p)) = unat p" for p :: u16
    using unsigned_less [of p] by (intro le_val_small) simp
  ultimately show ?thesis
    using v1_hello v1_addr v1_addr_length
    by (simp add: bincode_ok_def bincode_v1_def wf_digest_def HASH_WIDTH_IN_BYTES_def v1_enum)
qed

section \<open>What a peer reads is what the other wrote\<close>

definition bincode_env :: "bincode \<Rightarrow> (string \<Rightarrow> digest) \<Rightarrow> bool" where
  "bincode_env B sha \<longleftrightarrow> bincode_ok B \<and> (\<forall>x. wf_digest (sha x))"

lemma bincode_envD [dest]:
  assumes "bincode_env B sha"
  shows "bincode_ok B" "wf_digest (sha x)"
  using assms by (simp_all add: bincode_env_def)

lemma packet_length_env:
  "bincode_env B sha \<Longrightarrow> PacketLength_new B sha =
    \<lparr>pl_hello = 37, pl_ack = 4, pl_auth = 32, pl_c_cmd = 4, pl_d_cmd = 4\<rparr>"
  by (simp add: bincode_env_def packet_length_new)

lemma read_hello_written:
  assumes "bincode_env B sha" "wf_digest (hello_digest h)"
  shows "read_hello B (PacketLength_new B sha) (ser_hello B h @ rest) =
    (if hello_version h = CURRENT_PROTO_VERSION then Inr (h, rest)
     else Inl (version_mismatch (hello_version h)))"
  using assms(2) bincode_envD(1) [OF assms(1)]
  by (cases h) (simp_all add: read_hello_def packet_length_env [OF assms(1)] io_simps bincode_okD)

lemma read_auth_written [io_simps]:
  assumes "bincode_env B sha" "wf_digest d"
  shows "read_auth B (PacketLength_new B sha) (ser_auth B (Auth d) @ rest) = Inr (Auth d, rest)"
  using assms(2) bincode_envD(1) [OF assms(1)]
  by (simp add: read_auth_def packet_length_env [OF assms(1)] io_simps bincode_okD)

lemma read_ack_written [io_simps]:
  assumes "bincode_env B sha"
  shows "read_ack B (PacketLength_new B sha) (ser_ack B a @ rest) = Inr (a, rest)"
  using bincode_envD(1) [OF assms]
  by (simp add: read_ack_def packet_length_env [OF assms] io_simps bincode_okD)

lemma read_control_cmd_written [io_simps]:
  assumes "bincode_env B sha"
  shows "read_control_cmd B (PacketLength_new B sha) (ser_c_cmd B c @ rest) = Inr (c, rest)"
  using bincode_envD(1) [OF assms]
  by (simp add: read_control_cmd_def packet_length_env [OF assms] io_simps bincode_okD)

lemma read_data_cmd_written [io_simps]:
  assumes "bincode_env B sha"
  shows "read_data_cmd B (PacketLength_new B sha) (ser_d_cmd B c @ rest) = Inr (c, rest)"
  using bincode_envD(1) [OF assms]
  by (simp add: read_data_cmd_def packet_length_env [OF assms] io_simps bincode_okD)

text \<open>Only a hello of the current version is ever returned.\<close>

lemma read_hello_Inr_iff:
  "read_hello B P s = Inr (h, s') \<longleftrightarrow>
    (\<exists>v. read_exact (pl_hello P) s = Inr (v, s') \<and> de_hello B v = Some h \<and>
       hello_version h = CURRENT_PROTO_VERSION)"
proof -
  have version: "(case x of
       ControlChannelHello v _ \<Rightarrow>
         if v \<noteq> CURRENT_PROTO_VERSION then Inl (version_mismatch v) else Inr (x, t)
     | DataChannelHello v _ \<Rightarrow>
         if v \<noteq> CURRENT_PROTO_VERSION then Inl (version_mismatch v) else Inr (x, t)) = Inr (h, s')
     \<longleftrightarrow> x = h \<and> t = s' \<and> hello_version h = CURRENT_PROTO_VERSION" for x and t :: bytes
    by (cases x) auto
  show ?thesis
    by (auto simp: read_hello_def result_simps version split_paired_Ex)
qed

lemma bincode_v1_env: "bincode_env bincode_v1 (\<lambda>x. replicate 32 0)"
  by (simp add: bincode_env_def bincode_v1_ok wf_digest_def HASH_WIDTH_IN_BYTES_def)

section \<open>Properties\<close>

text \<open>
  C39. UDP over a stream: a sequence of datagrams written one after the other (each with at
  most 65535 bytes) is read back as the same sequence with the same source addresses, and
  the reader stops exactly at the end of the last one.
\<close>

theorem udp_framing_roundtrip:
  assumes "bincode_ok B"
    and "\<forall>t \<in> set ts. serde_addr (ut_from t) \<and> length (ut_data t) < 2 ^ 16"
  shows "\<exists>w. udp_write_many B ts \<lparr>written = [], takes = None\<rparr> = Inr w \<and>
    udp_recv_many B (length ts) (written w @ rest) = Inr (ts, rest)"
  using udp_recv_many_frames [OF assms] by (simp add: udp_write_many_frames)

theorem udp_framing_roundtrip_witness:
  "\<exists>w. udp_write_many bincode_v1
        [\<lparr>ut_from = V4 0x7F000001 80, ut_data = [1, 2, 3]\<rparr>, \<lparr>ut_from = V6 1 53 0 0, ut_data = []\<rparr>]
        \<lparr>written = [], takes = None\<rparr> = Inr w \<and>
    udp_recv_many bincode_v1
      (length [\<lparr>ut_from = V4 0x7F000001 80, ut_data = [1, 2, 3]\<rparr>, \<lparr>ut_from = V6 1 53 0 0, ut_data = []\<rparr>])
      (written w @ [9]) =
    Inr ([\<lparr>ut_from = V4 0x7F000001 80, ut_data = [1, 2, 3]\<rparr>, \<lparr>ut_from = V6 1 53 0 0, ut_data = []\<rparr>], [9])"
  by (rule udp_framing_roundtrip [OF bincode_v1_ok]) simp

text \<open>
  The 16-bit length field: a datagram of any length is framed with its length modulo
  65536, so the reader gets that prefix of the data and takes what is left of it for the
  next packet. Lengths below 65536 (the buffers of the program are 2048 bytes) are exact.
\<close>

theorem udp_length_wraps:
  assumes "bincode_ok B" "serde_addr (ut_from t)"
  shows "\<exists>w. udp_write B t \<lparr>written = [], takes = None\<rparr> = Inr w \<and>
    udp_recv B (written w @ rest) =
      Inr (t\<lparr>ut_data := take (length (ut_data t) mod 2 ^ 16) (ut_data t)\<rparr>,
           drop (length (ut_data t) mod 2 ^ 16) (ut_data t) @ rest)"
  using udp_recv_written [OF assms, of "ut_data t" rest]
  by (simp add: udp_write_open Let_def)

theorem udp_length_wraps_witness:
  "\<exists>w. udp_write bincode_v1 \<lparr>ut_from = V4 1 2, ut_data = replicate 65537 7\<rparr>
      \<lparr>written = [], takes = None\<rparr> = Inr w \<and>
    udp_recv bincode_v1 (written w @ []) =
      Inr (\<lparr>ut_from = V4 1 2, ut_data = [7]\<rparr>, replicate 65536 7)"
proof -
  have t: "take 1 (replicate 65537 (7 :: u8)) = [7]" "drop 1 (replicate 65537 (7 :: u8)) = replicate 65536 7"
    by (simp_all only: take_replicate drop_replicate) simp_all
  show ?thesis
    using udp_length_wraps [OF bincode_v1_ok, of "\<lparr>ut_from = V4 1 2, ut_data = replicate 65537 7\<rparr>" "[]"] t
    by simp
qed

text \<open>
  The hello on the wire: the peer that reads a serialised hello gets it back if it has
  the current protocol version, and otherwise fails with the message that names both
  versions; nothing after the hello is consumed.
\<close>

theorem hello_version_check:
  assumes "bincode_env B sha" "wf_digest (hello_digest h)"
  shows "read_hello B (PacketLength_new B sha) (ser_hello B h @ rest) =
    (if hello_version h = 1 then Inr (h, rest)
     else Inl (Err (''Protocol version mismatched. Expected 1, got '' @
       string_of_nat (unat (hello_version h)) @ ''. Please update `rathole`.'')))"
  using read_hello_written [OF assms, of rest]
  by (simp add: CURRENT_PROTO_VERSION_def PROTO_V1_def version_mismatch_def string_of_nat_small)

theorem hello_version_check_witness:
  "read_hello bincode_v1 (PacketLength_new bincode_v1 (\<lambda>x. replicate 32 0))
     (ser_hello bincode_v1 (DataChannelHello 0 (replicate 32 5)) @ [1]) =
   Inl (Err (''Protocol version mismatched. Expected 1, got 0. Please update `rathole`.''))"
  using hello_version_check [OF bincode_v1_env, of "DataChannelHello 0 (replicate 32 5)" "[1]"]
  by (simp add: wf_digest_def HASH_WIDTH_IN_BYTES_def string_of_nat_small)

end
