(* ===== verification/Config.thy ===== *)
theory Config
  imports Rust_Std "HOL-Library.Multiset"
begin

text \<open>
  \<open>src/config.rs\<close>: the configuration types, their defaults, and the validation that the
  loader and the configuration editor share. A \<open>HashMap\<close> of services is an association
  list in its iteration order, which the code leaves open; the theorems show that it does
  not matter. \<open>toml::from_str\<close> is a parameter, and a \<open>Url\<close> is what its accessors return.
\<close>

section \<open>Configuration types\<close>

definition DEFAULT_HEARTBEAT_INTERVAL_SECS :: u64 where
  "DEFAULT_HEARTBEAT_INTERVAL_SECS = 30"

definition DEFAULT_HEARTBEAT_TIMEOUT_SECS :: u64 where
  "DEFAULT_HEARTBEAT_TIMEOUT_SECS = 40"

definition DEFAULT_CLIENT_RETRY_INTERVAL_SECS :: u64 where
  "DEFAULT_CLIENT_RETRY_INTERVAL_SECS = 1"

definition DEFAULT_NODELAY :: bool where
  "DEFAULT_NODELAY = True"

definition DEFAULT_KEEPALIVE_SECS :: u64 where
  "DEFAULT_KEEPALIVE_SECS = 20"

definition DEFAULT_KEEPALIVE_INTERVAL :: u64 where
  "DEFAULT_KEEPALIVE_INTERVAL = 8"

datatype masked_string = MaskedString (unmask: string)

definition debug_masked :: "masked_string \<Rightarrow> string" where
  "debug_masked m = ''MASKED''"

datatype transport_type = T_Tcp | T_Tls | T_Noise | T_Websocket

datatype service_type = Tcp | Udp

definition default_transport_type :: transport_type where
  "default_transport_type = T_Tcp"

definition default_service_type :: service_type where
  "default_service_type = Tcp"

record client_service_config =
  csc_service_type :: service_type
  csc_name :: string
  csc_local_addr :: string
  csc_prefer_ipv6 :: bool
  csc_token :: "masked_string option"
  csc_nodelay :: "bool option"
  csc_retry_interval :: "u64 option"

record server_service_config =
  ssc_service_type :: service_type
  ssc_name :: string
  ssc_bind_addr :: string
  ssc_token :: "masked_string option"
  ssc_nodelay :: "bool option"

definition client_service_with_name :: "string \<Rightarrow> client_service_config" where
  "client_service_with_name name =
     \<lparr>csc_service_type = default_service_type, csc_name = name, csc_local_addr = [],
      csc_prefer_ipv6 = False, csc_token = None, csc_nodelay = None, csc_retry_interval = None\<rparr>"

definition server_service_with_name :: "string \<Rightarrow> server_service_config" where
  "server_service_with_name name =
     \<lparr>ssc_service_type = default_service_type, ssc_name = name, ssc_bind_addr = [],
      ssc_token = None, ssc_nodelay = None\<rparr>"

record tls_config =
  tls_hostname :: "string option"
  tls_trusted_root :: "string option"
  tls_pkcs12 :: "string option"
  tls_pkcs12_password :: "masked_string option"

definition default_noise_pattern :: string where
  "default_noise_pattern = ''Noise_NK_25519_ChaChaPoly_BLAKE2s''"

record noise_config =
  noise_pattern :: string
  noise_local_private_key :: "masked_string option"
  noise_remote_public_key :: "string option"

record websocket_config =
  ws_tls :: bool

text \<open>What the accessors of the crate \<open>url\<close> return for a parsed URL.\<close>

record url =
  url_scheme :: string
  url_host_str :: "string option"
  url_port :: "u16 option"
  url_username :: string
  url_password :: "string option"
  url_text :: string

record tcp_config =
  tcp_nodelay :: bool
  tcp_keepalive_secs :: u64
  tcp_keepalive_interval :: u64
  tcp_proxy :: "url option"

definition default_tcp_config :: tcp_config where
  "default_tcp_config =
     \<lparr>tcp_nodelay = DEFAULT_NODELAY, tcp_keepalive_secs = DEFAULT_KEEPALIVE_SECS,
      tcp_keepalive_interval = DEFAULT_KEEPALIVE_INTERVAL, tcp_proxy = None\<rparr>"

record transport_config =
  tr_type :: transport_type
  tr_tcp :: tcp_config
  tr_tls :: "tls_config option"
  tr_noise :: "noise_config option"
  tr_websocket :: "websocket_config option"

definition default_transport_config :: transport_config where
  "default_transport_config =
     \<lparr>tr_type = default_transport_type, tr_tcp = default_tcp_config, tr_tls = None,
      tr_noise = None, tr_websocket = None\<rparr>"

record client_config =
  cc_remote_addr :: string
  cc_default_token :: "masked_string option"
  cc_prefer_ipv6 :: "bool option"
  cc_services :: "(string \<times> client_service_config) list"
  cc_transport :: transport_config
  cc_heartbeat_timeout :: u64
  cc_retry_interval :: u64

record server_config =
  sc_bind_addr :: string
  sc_default_token :: "masked_string option"
  sc_services :: "(string \<times> server_service_config) list"
  sc_transport :: transport_config
  sc_heartbeat_interval :: u64

record config =
  cfg_server :: "server_config option"
  cfg_client :: "client_config option"

section \<open>Validation\<close>

definition validate_proxy :: "url \<Rightarrow> anyhow + unit" where
  "validate_proxy u =
     (if url_scheme u = ''socks5'' \<or> url_scheme u = ''http'' then
        (if url_host_str u \<noteq> None \<and> url_port u \<noteq> None then Inr ()
         else Inl (Err (''proxy url `'' @ url_text u @ ''` must include a host and a port'')))
      else Inl (Err (''Unknown proxy scheme: '' @ url_scheme u)))"

definition validate_transport_config :: "transport_config \<Rightarrow> bool \<Rightarrow> anyhow + unit" where
  "validate_transport_config c is_server =
     rbind (case tcp_proxy (tr_tcp c) of None \<Rightarrow> Inr () | Some u \<Rightarrow> validate_proxy u) (\<lambda>_.
     case tr_type c of
       T_Tcp \<Rightarrow> Inr ()
     | T_Tls \<Rightarrow>
         rbind (ok_or (Err ''Missing TLS configuration'') (tr_tls c)) (\<lambda>tls.
         if is_server then
           rbind (ok_or (Err ''Missing `pkcs12` or `pkcs12_password`'')
                    (if tls_pkcs12 tls \<noteq> None then tls_pkcs12_password tls else None)) (\<lambda>_. Inr ())
         else Inr ())
     | T_Noise \<Rightarrow>
         if tr_noise c = None then Inl (Err ''missing noise configuration for `noise` transport'')
         else Inr ()
     | T_Websocket \<Rightarrow> Inr ())"

text \<open>The port that the port-0 check looks at.\<close>

definition addr_port :: "string \<Rightarrow> u16 option" where
  "addr_port a = Option.bind (rsplit_once CHR '':'' a) (\<lambda>(_, port). parse_u16 port)"

fun validate_server_services ::
  "masked_string option \<Rightarrow> (string \<times> service_type) set \<Rightarrow> (string \<times> server_service_config) list \<Rightarrow>
   anyhow + (string \<times> server_service_config) list" where
  "validate_server_services default_token bind_addrs [] = Inr []"
| "validate_server_services default_token bind_addrs ((name, s) # rest) =
     (let s1 = s\<lparr>ssc_name := name\<rparr>;
          s2 = (if ssc_token s1 = None then s1\<lparr>ssc_token := default_token\<rparr> else s1) in
      if ssc_token s2 = None then Inl (Err (''The token of service '' @ name @ '' is not set''))
      else if ssc_token s2 = Some (MaskedString [])
      then Inl (Err (''the token of service `'' @ name @ ''` is empty''))
      else if (ssc_bind_addr s2, ssc_service_type s2) \<in> bind_addrs
      then Inl (Err (''duplicate `bind_addr` `'' @ ssc_bind_addr s2 @
             ''` in `[server.services]` (service `'' @ name @ ''`)''))
      else rbind (validate_server_services default_token
                    (insert (ssc_bind_addr s2, ssc_service_type s2) bind_addrs) rest)
             (\<lambda>rest'. Inr ((name, s2) # rest')))"

definition validate_server_config :: "server_config \<Rightarrow> anyhow + server_config" where
  "validate_server_config server =
     (if addr_port (sc_bind_addr server) = Some 0
      then Inl (Err (''`server.bind_addr` `'' @ sc_bind_addr server @ ''` must not use port 0''))
      else if sc_default_token server = Some (MaskedString [])
      then Inl (Err ''`server.default_token` must not be empty'')
      else rbind (validate_server_services (sc_default_token server) {} (sc_services server)) (\<lambda>services.
           rbind (validate_transport_config (sc_transport server) True) (\<lambda>_.
           Inr (server\<lparr>sc_services := services\<rparr>))))"

fun validate_client_services ::
  "masked_string option \<Rightarrow> u64 \<Rightarrow> (string \<times> client_service_config) list \<Rightarrow>
   anyhow + (string \<times> client_service_config) list" where
  "validate_client_services default_token retry_interval [] = Inr []"
| "validate_client_services default_token retry_interval ((name, s) # rest) =
     (let s1 = s\<lparr>csc_name := name\<rparr>;
          s2 = (if csc_token s1 = None then s1\<lparr>csc_token := default_token\<rparr> else s1) in
      if csc_token s2 = None then Inl (Err (''The token of service '' @ name @ '' is not set''))
      else if csc_token s2 = Some (MaskedString [])
      then Inl (Err (''the token of service `'' @ name @ ''` is empty''))
      else if csc_retry_interval s2 = Some 0
      then Inl (Err (''`retry_interval` of service `'' @ name @ ''` must be greater than 0''))
      else
        let s3 = (if csc_retry_interval s2 = None
                  then s2\<lparr>csc_retry_interval := Some retry_interval\<rparr> else s2) in
        rbind (validate_client_services default_token retry_interval rest)
          (\<lambda>rest'. Inr ((name, s3) # rest')))"

definition validate_client_config :: "client_config \<Rightarrow> anyhow + client_config" where
  "validate_client_config client =
     (if cc_retry_interval client = 0
      then Inl (Err ''`client.retry_interval` must be greater than 0'')
      else if cc_default_token client = Some (MaskedString [])
      then Inl (Err ''`client.default_token` must not be empty'')
      else rbind (validate_client_services (cc_default_token client) (cc_retry_interval client)
                    (cc_services client)) (\<lambda>services.
           rbind (validate_transport_config (cc_transport client) False) (\<lambda>_.
           Inr (client\<lparr>cc_services := services\<rparr>))))"

definition config_from_str :: "(string \<Rightarrow> anyhow + config) \<Rightarrow> string \<Rightarrow> anyhow + config" where
  "config_from_str toml_from_str s =
     rbind (with_context (Ctx ''Failed to parse the config'') (toml_from_str s)) (\<lambda>config.
     rbind (case cfg_server config of
              None \<Rightarrow> Inr config
            | Some server \<Rightarrow> rbind (validate_server_config server)
                               (\<lambda>server'. Inr (config\<lparr>cfg_server := Some server'\<rparr>))) (\<lambda>config1.
     rbind (case cfg_client config1 of
              None \<Rightarrow> Inr config1
            | Some client \<Rightarrow> rbind (validate_client_config client)
                               (\<lambda>client'. Inr (config1\<lparr>cfg_client := Some client'\<rparr>))) (\<lambda>config2.
     if cfg_server config2 = None \<and> cfg_client config2 = None
     then Inl (Err ''Neither of `[server]` or `[client]` is defined'')
     else Inr config2)))"

definition config_validate :: "(string \<Rightarrow> anyhow + config) \<Rightarrow> string \<Rightarrow> anyhow + unit" where
  "config_validate toml_from_str s = rbind (config_from_str toml_from_str s) (\<lambda>_. Inr ())"

definition config_from_file ::
  "(string \<Rightarrow> anyhow + config) \<Rightarrow> (string \<Rightarrow> anyhow + string) \<Rightarrow> string \<Rightarrow> anyhow + config" where
  "config_from_file toml_from_str read_to_string path =
     rbind (with_context (Ctx (''Failed to read the config '' @ debug_str path)) (read_to_string path)) (\<lambda>s.
     with_context
       (Ctx ''Configuration is invalid. Please refer to the configuration specification.'')
       (config_from_str toml_from_str s))"

section \<open>What validation accepts, declaratively\<close>

definition effective_token :: "masked_string option \<Rightarrow> masked_string option \<Rightarrow> masked_string option" where
  "effective_token default_token t = (if t = None then default_token else t)"

definition token_usable :: "masked_string option \<Rightarrow> bool" where
  "token_usable t = (case t of None \<Rightarrow> False | Some m \<Rightarrow> unmask m \<noteq> [])"

definition proxy_ok :: "url \<Rightarrow> bool" where
  "proxy_ok u \<longleftrightarrow> url_scheme u \<in> {''socks5'', ''http''} \<and> url_host_str u \<noteq> None \<and> url_port u \<noteq> None"

definition transport_ok :: "transport_config \<Rightarrow> bool \<Rightarrow> bool" where
  "transport_ok c is_server \<longleftrightarrow>
     (\<forall>u. tcp_proxy (tr_tcp c) = Some u \<longrightarrow> proxy_ok u) \<and>
     (tr_type c = T_Tls \<longrightarrow> tr_tls c \<noteq> None \<and>
        (is_server \<longrightarrow> (\<forall>t. tr_tls c = Some t \<longrightarrow> tls_pkcs12 t \<noteq> None \<and> tls_pkcs12_password t \<noteq> None))) \<and>
     (tr_type c = T_Noise \<longrightarrow> tr_noise c \<noteq> None)"

definition bind_key :: "string \<times> server_service_config \<Rightarrow> string \<times> service_type" where
  "bind_key e = (ssc_bind_addr (snd e), ssc_service_type (snd e))"

definition fill_server :: "masked_string option \<Rightarrow> string \<times> server_service_config \<Rightarrow> string \<times> server_service_config" where
  "fill_server dt e = (fst e, (snd e)\<lparr>ssc_name := fst e, ssc_token := effective_token dt (ssc_token (snd e))\<rparr>)"

definition server_ok :: "server_config \<Rightarrow> bool" where
  "server_ok s \<longleftrightarrow>
     addr_port (sc_bind_addr s) \<noteq> Some 0 \<and> sc_default_token s \<noteq> Some (MaskedString []) \<and>
     (\<forall>e \<in> set (sc_services s). token_usable (effective_token (sc_default_token s) (ssc_token (snd e)))) \<and>
     distinct (map bind_key (sc_services s)) \<and> transport_ok (sc_transport s) True"

definition normal_server :: "server_config \<Rightarrow> server_config" where
  "normal_server s = s\<lparr>sc_services := map (fill_server (sc_default_token s)) (sc_services s)\<rparr>"

definition fill_client ::
  "masked_string option \<Rightarrow> u64 \<Rightarrow> string \<times> client_service_config \<Rightarrow> string \<times> client_service_config" where
  "fill_client dt ri e = (fst e, (snd e)\<lparr>csc_name := fst e,
     csc_token := effective_token dt (csc_token (snd e)),
     csc_retry_interval := (case csc_retry_interval (snd e) of None \<Rightarrow> Some ri | Some r \<Rightarrow> Some r)\<rparr>)"

definition client_ok :: "client_config \<Rightarrow> bool" where
  "client_ok c \<longleftrightarrow>
     cc_retry_interval c \<noteq> 0 \<and> cc_default_token c \<noteq> Some (MaskedString []) \<and>
     (\<forall>e \<in> set (cc_services c). token_usable (effective_token (cc_default_token c) (csc_token (snd e))) \<and>
        csc_retry_interval (snd e) \<noteq> Some 0) \<and>
     transport_ok (cc_transport c) False"

definition normal_client :: "client_config \<Rightarrow> client_config" where
  "normal_client c = c\<lparr>cc_services := map (fill_client (cc_default_token c) (cc_retry_interval c)) (cc_services c)\<rparr>"

lemma token_usable_iff: "token_usable t \<longleftrightarrow> t \<noteq> None \<and> t \<noteq> Some (MaskedString [])"
  by (cases t) (auto simp: token_usable_def intro: masked_string.expand)

lemma validate_proxy_Inr_iff: "validate_proxy u = Inr x \<longleftrightarrow> proxy_ok u"
  by (auto simp: validate_proxy_def proxy_ok_def)

lemma validate_transport_config_Inr_iff [result_simps]:
  "validate_transport_config c b = Inr x \<longleftrightarrow> transport_ok c b"
proof -
  have proxy: "(case tcp_proxy (tr_tcp c) of None \<Rightarrow> Inr () | Some u \<Rightarrow> validate_proxy u) = Inr y \<longleftrightarrow>
      (\<forall>u. tcp_proxy (tr_tcp c) = Some u \<longrightarrow> proxy_ok u)" for y
    by (cases "tcp_proxy (tr_tcp c)") (auto simp: validate_proxy_Inr_iff)
  show ?thesis
    by (cases "tr_type c"; cases "tr_tls c"; cases b)
       (auto simp: validate_transport_config_def transport_ok_def rbind_eq_Inr_iff proxy ok_or_eq_Inr_iff)
qed

lemma validate_server_services_Inr_iff:
  "validate_server_services dt seen kvs = Inr r \<longleftrightarrow>
     (\<forall>e \<in> set kvs. token_usable (effective_token dt (ssc_token (snd e)))) \<and>
     distinct (map bind_key kvs) \<and> bind_key ` set kvs \<inter> seen = {} \<and> r = map (fill_server dt) kvs"
proof (induction kvs arbitrary: seen r)
  case Nil
  then show ?case by auto
next
  case (Cons e kvs)
  obtain n s where e: "e = (n, s)" by (cases e)
  define t where "t = effective_token dt (ssc_token s)"
  have t: "ssc_token (snd (fill_server dt (n, s))) = t" by (simp add: fill_server_def t_def)
  have f: "(let s1 = s\<lparr>ssc_name := n\<rparr> in if ssc_token s1 = None then s1\<lparr>ssc_token := dt\<rparr> else s1)
      = snd (fill_server dt (n, s))"
    by (simp add: fill_server_def effective_token_def Let_def)
  have k: "(ssc_bind_addr (snd (fill_server dt (n, s))), ssc_service_type (snd (fill_server dt (n, s))))
      = bind_key e"
    by (simp add: fill_server_def bind_key_def e)
  have "validate_server_services dt seen (e # kvs) = Inr r \<longleftrightarrow>
      token_usable t \<and> bind_key e \<notin> seen \<and>
      (\<exists>r'. validate_server_services dt (insert (bind_key e) seen) kvs = Inr r' \<and> r = fill_server dt e # r')"
    using f by (simp add: e Let_def t k [unfolded e] token_usable_iff rbind_eq_Inr_iff)
      (auto simp: fill_server_def)
  also have "\<dots> \<longleftrightarrow> (\<forall>e \<in> set (e # kvs). token_usable (effective_token dt (ssc_token (snd e)))) \<and>
     distinct (map bind_key (e # kvs)) \<and> bind_key ` set (e # kvs) \<inter> seen = {} \<and>
     r = map (fill_server dt) (e # kvs)"
    by (auto simp: Cons.IH t_def e)
  finally show ?case .
qed

lemma validate_client_services_Inr_iff:
  "validate_client_services dt ri kvs = Inr r \<longleftrightarrow>
     (\<forall>e \<in> set kvs. token_usable (effective_token dt (csc_token (snd e))) \<and>
        csc_retry_interval (snd e) \<noteq> Some 0) \<and>
     r = map (fill_client dt ri) kvs"
proof (induction kvs arbitrary: r)
  case Nil
  then show ?case by auto
next
  case (Cons e kvs)
  obtain n s where e: "e = (n, s)" by (cases e)
  have "validate_client_services dt ri (e # kvs) = Inr r \<longleftrightarrow>
      token_usable (effective_token dt (csc_token s)) \<and> csc_retry_interval s \<noteq> Some 0 \<and>
      (\<exists>r'. validate_client_services dt ri kvs = Inr r' \<and> r = fill_client dt ri e # r')"
    by (auto simp: e Let_def token_usable_iff effective_token_def rbind_eq_Inr_iff fill_client_def
        split: option.splits)
  then show ?case by (auto simp: Cons.IH e)
qed

lemma validate_server_config_Inr_iff [result_simps]:
  "validate_server_config s = Inr s' \<longleftrightarrow> server_ok s \<and> s' = normal_server s"
  by (auto simp: validate_server_config_def server_ok_def normal_server_def result_simps
      validate_server_services_Inr_iff)

lemma validate_client_config_Inr_iff [result_simps]:
  "validate_client_config c = Inr c' \<longleftrightarrow> client_ok c \<and> c' = normal_client c"
  by (auto simp: validate_client_config_def client_ok_def normal_client_def result_simps
      validate_client_services_Inr_iff)

lemma config_from_str_Inr_iff:
  "config_from_str parse s = Inr c \<longleftrightarrow>
    (\<exists>c0. parse s = Inr c0 \<and>
       (\<forall>x. cfg_server c0 = Some x \<longrightarrow> server_ok x) \<and> (\<forall>x. cfg_client c0 = Some x \<longrightarrow> client_ok x) \<and>
       (cfg_server c0 \<noteq> None \<or> cfg_client c0 \<noteq> None) \<and>
       c = c0\<lparr>cfg_server := map_option normal_server (cfg_server c0),
              cfg_client := map_option normal_client (cfg_client c0)\<rparr>)"
proof -
  have "config_from_str parse s = Inr c \<longleftrightarrow>
    (\<exists>c0. parse s = Inr c0 \<and> config_from_str (\<lambda>_. Inr c0) s = Inr c)"
    by (auto simp: config_from_str_def rbind_eq_Inr_iff with_context_eq_Inr_iff)
  moreover have "config_from_str (\<lambda>_. Inr c0) s = Inr c \<longleftrightarrow>
       (\<forall>x. cfg_server c0 = Some x \<longrightarrow> server_ok x) \<and> (\<forall>x. cfg_client c0 = Some x \<longrightarrow> client_ok x) \<and>
       (cfg_server c0 \<noteq> None \<or> cfg_client c0 \<noteq> None) \<and>
       c = c0\<lparr>cfg_server := map_option normal_server (cfg_server c0),
              cfg_client := map_option normal_client (cfg_client c0)\<rparr>" for c0
    by (cases c0; cases "cfg_server c0"; cases "cfg_client c0")
       (auto simp: config_from_str_def result_simps)
  ultimately show ?thesis by simp
qed

text \<open>What the runtime relies on after a configuration was loaded.\<close>

definition server_runtime_ready :: "server_config \<Rightarrow> bool" where
  "server_runtime_ready s \<longleftrightarrow>
     addr_port (sc_bind_addr s) \<noteq> Some 0 \<and>
     list_all (\<lambda>e. ssc_name (snd e) = fst e \<and> token_usable (ssc_token (snd e))) (sc_services s) \<and>
     distinct (map bind_key (sc_services s)) \<and> transport_ok (sc_transport s) True"

definition client_runtime_ready :: "client_config \<Rightarrow> bool" where
  "client_runtime_ready c \<longleftrightarrow>
     cc_retry_interval c \<noteq> 0 \<and>
     list_all (\<lambda>e. csc_name (snd e) = fst e \<and> token_usable (csc_token (snd e)) \<and>
        csc_retry_interval (snd e) \<noteq> None \<and> csc_retry_interval (snd e) \<noteq> Some 0) (cc_services c) \<and>
     transport_ok (cc_transport c) False"

lemma fill_server_simps [simp]:
  "fst (fill_server dt e) = fst e"
  "ssc_name (snd (fill_server dt e)) = fst e"
  "ssc_token (snd (fill_server dt e)) = effective_token dt (ssc_token (snd e))"
  "bind_key (fill_server dt e) = bind_key e"
  by (simp_all add: fill_server_def bind_key_def)

lemma fill_client_simps [simp]:
  "fst (fill_client dt ri e) = fst e"
  "csc_name (snd (fill_client dt ri e)) = fst e"
  "csc_token (snd (fill_client dt ri e)) = effective_token dt (csc_token (snd e))"
  "csc_retry_interval (snd (fill_client dt ri e)) = Some (case csc_retry_interval (snd e) of None \<Rightarrow> ri | Some r \<Rightarrow> r)"
  by (auto simp: fill_client_def split: option.splits)

lemma server_ok_ready: "server_ok s \<Longrightarrow> server_runtime_ready (normal_server s)"
  by (simp add: server_ok_def server_runtime_ready_def normal_server_def list_all_iff comp_def)

lemma client_ok_ready: "client_ok c \<Longrightarrow> client_runtime_ready (normal_client c)"
  by (auto simp: client_ok_def client_runtime_ready_def normal_client_def list_all_iff split: option.splits)

lemma effective_token_usable: "token_usable t \<Longrightarrow> effective_token dt t = t"
  by (cases t) (auto simp: effective_token_def token_usable_def)

lemma fill_server_idem:
  "token_usable (effective_token dt (ssc_token (snd e))) \<Longrightarrow> fill_server dt (fill_server dt e) = fill_server dt e"
  by (simp add: fill_server_def effective_token_usable)

lemma fill_client_idem:
  "token_usable (effective_token dt (csc_token (snd e))) \<Longrightarrow>
   fill_client dt ri (fill_client dt ri e) = fill_client dt ri e"
  by (auto simp: fill_client_def effective_token_usable split: option.splits)

lemma normal_server_idem:
  assumes "server_ok s"
  shows "server_ok (normal_server s) \<and> normal_server (normal_server s) = normal_server s"
  using assms by (auto simp: server_ok_def normal_server_def comp_def effective_token_usable fill_server_idem)

lemma normal_client_idem:
  assumes "client_ok c"
  shows "client_ok (normal_client c) \<and> normal_client (normal_client c) = normal_client c"
  using assms
  by (auto simp: client_ok_def normal_client_def effective_token_usable fill_client_idem split: option.splits)

text \<open>A minimal configuration, for the witnesses.\<close>

definition sample_server :: server_config where
  "sample_server =
     \<lparr>sc_bind_addr = ''0.0.0.0:2333'', sc_default_token = Some (MaskedString ''t0''),
      sc_services = [(''ssh'', (server_service_with_name [])\<lparr>ssc_bind_addr := ''0.0.0.0:5202''\<rparr>),
                     (''dns'', (server_service_with_name [])\<lparr>ssc_bind_addr := ''0.0.0.0:53'',
                        ssc_service_type := Udp, ssc_token := Some (MaskedString ''t1'')\<rparr>)],
      sc_transport = default_transport_config,
      sc_heartbeat_interval = DEFAULT_HEARTBEAT_INTERVAL_SECS\<rparr>"

definition sample_client :: client_config where
  "sample_client =
     \<lparr>cc_remote_addr = ''example.org:2333'', cc_default_token = Some (MaskedString ''t0''),
      cc_prefer_ipv6 = None,
      cc_services = [(''ssh'', (client_service_with_name [])\<lparr>csc_local_addr := ''127.0.0.1:22''\<rparr>)],
      cc_transport = default_transport_config,
      cc_heartbeat_timeout = DEFAULT_HEARTBEAT_TIMEOUT_SECS,
      cc_retry_interval = DEFAULT_CLIENT_RETRY_INTERVAL_SECS\<rparr>"

lemmas config_defaults = default_transport_config_def default_transport_type_def default_tcp_config_def
  server_service_with_name_def client_service_with_name_def default_service_type_def
  DEFAULT_HEARTBEAT_INTERVAL_SECS_def DEFAULT_HEARTBEAT_TIMEOUT_SECS_def
  DEFAULT_CLIENT_RETRY_INTERVAL_SECS_def

lemma sample_addr_port: "addr_port ''0.0.0.0:2333'' = Some 2333"
  by (simp add: addr_port_def rsplit_once_def parse_u16_def parse_unsigned_def digit_val_def)

lemma sample_server_ok: "server_ok sample_server"
  by (simp add: server_ok_def sample_server_def config_defaults effective_token_def token_usable_def
      bind_key_def transport_ok_def sample_addr_port)

lemma sample_client_ok: "client_ok sample_client"
  by (simp add: client_ok_def sample_client_def config_defaults effective_token_def token_usable_def
      transport_ok_def)

section \<open>Properties\<close>

text \<open>
  C20. Loading is exact: a configuration string is accepted if and only if it parses, at least
  one side is defined and each defined side satisfies its declarative rules (no port 0, no
  empty token, a usable token per service, distinct address and type pairs, non-zero retry
  intervals, a complete transport section); the result is the parsed configuration with names,
  tokens and retry intervals filled in and nothing else changed.
\<close>

theorem config_load_exact:
  "config_from_str parse s = Inr c \<longleftrightarrow>
     (\<exists>c0. parse s = Inr c0 \<and> \<not> (cfg_server c0 = None \<and> cfg_client c0 = None) \<and>
        pred_option server_ok (cfg_server c0) \<and> pred_option client_ok (cfg_client c0) \<and>
        c = c0\<lparr>cfg_server := map_option normal_server (cfg_server c0),
               cfg_client := map_option normal_client (cfg_client c0)\<rparr>)"
  unfolding config_from_str_Inr_iff by (intro ex_cong) (auto simp: pred_option_def)



text \<open>
  The order in which the \<open>HashMap\<close> of services is iterated does not matter: with the same
  services in another order, validation gives the same verdict and, when it accepts, the same
  services.
\<close>

theorem validation_order_independent:
  assumes "mset kvs = mset (sc_services s)" "mset kws = mset (cc_services c)"
  shows "is_ok (validate_server_config (s\<lparr>sc_services := kvs\<rparr>)) = is_ok (validate_server_config s) \<and>
    is_ok (validate_client_config (c\<lparr>cc_services := kws\<rparr>)) = is_ok (validate_client_config c) \<and>
    mset (sc_services (normal_server (s\<lparr>sc_services := kvs\<rparr>))) = mset (sc_services (normal_server s)) \<and>
    mset (cc_services (normal_client (c\<lparr>cc_services := kws\<rparr>))) = mset (cc_services (normal_client c))"
proof (intro conjI)
  have sets: "set kvs = set (sc_services s)" "set kws = set (cc_services c)"
    using assms by (metis set_mset_mset)+
  have "mset (map bind_key kvs) = mset (map bind_key (sc_services s))"
    by (simp add: assms)
  then have "distinct (map bind_key kvs) = distinct (map bind_key (sc_services s))"
    by (rule mset_eq_imp_distinct_iff)
  then show "is_ok (validate_server_config (s\<lparr>sc_services := kvs\<rparr>)) = is_ok (validate_server_config s)"
    by (simp add: is_ok_iff validate_server_config_Inr_iff server_ok_def sets)
  show "is_ok (validate_client_config (c\<lparr>cc_services := kws\<rparr>)) = is_ok (validate_client_config c)"
    by (simp add: is_ok_iff validate_client_config_Inr_iff client_ok_def sets)
qed (simp_all add: assms normal_server_def normal_client_def)

theorem validation_order_independent_witness:
  "is_ok (validate_server_config (sample_server\<lparr>sc_services := rev (sc_services sample_server)\<rparr>))"
  using validation_order_independent
    [of "rev (sc_services sample_server)" sample_server "rev (cc_services sample_client)" sample_client]
  by (simp add: is_ok_iff validate_server_config_Inr_iff sample_server_ok)

text \<open>
  Validation is idempotent: a side that was accepted and filled in is accepted again and
  left unchanged (the loader runs it on files that the editor has validated before).
\<close>

theorem validation_idempotent:
  assumes "validate_server_config s = Inr s'" "validate_client_config c = Inr c'"
  shows "validate_server_config s' = Inr s' \<and> validate_client_config c' = Inr c'"
  using assms normal_server_idem [of s] normal_client_idem [of c] by (simp add: result_simps)

theorem validation_idempotent_witness:
  "validate_server_config (normal_server sample_server) = Inr (normal_server sample_server) \<and>
   validate_client_config (normal_client sample_client) = Inr (normal_client sample_client)"
  by (rule validation_idempotent [of sample_server _ sample_client])
     (simp_all add: result_simps sample_server_ok sample_client_ok)

end
