(* ===== verification/Config_Watcher.thy ===== *)
theory Config_Watcher
  imports Config
begin

text \<open>
  \<open>src/config_watcher.rs\<close>: what changed between two configurations, as events for the
  instance that runs, and the loop that rescans the file. Two configurations are equal when
  their service maps have the same entries. The trait \<open>InstanceConfig\<close> is the locale
  \<open>instance_config\<close>, interpreted for both sides.
\<close>

section \<open>Changes\<close>

datatype client_service_change =
    Client_Add client_service_config
  | Client_Delete string

datatype server_service_change =
    Server_Add server_service_config
  | Server_Delete string

datatype config_change =
    General config
  | ServerChange server_service_change
  | ClientChange client_service_change

definition same_map :: "('k \<times> 'v) list \<Rightarrow> ('k \<times> 'v) list \<Rightarrow> bool" where
  "same_map xs ys \<longleftrightarrow> set xs = set ys"

definition server_equal_without_service :: "server_config \<Rightarrow> server_config \<Rightarrow> bool" where
  "server_equal_without_service l r \<longleftrightarrow> l\<lparr>sc_services := []\<rparr> = r\<lparr>sc_services := []\<rparr>"

definition client_equal_without_service :: "client_config \<Rightarrow> client_config \<Rightarrow> bool" where
  "client_equal_without_service l r \<longleftrightarrow> l\<lparr>cc_services := []\<rparr> = r\<lparr>cc_services := []\<rparr>"

definition server_config_eq :: "server_config \<Rightarrow> server_config \<Rightarrow> bool" where
  "server_config_eq l r \<longleftrightarrow> server_equal_without_service l r \<and> same_map (sc_services l) (sc_services r)"

definition client_config_eq :: "client_config \<Rightarrow> client_config \<Rightarrow> bool" where
  "client_config_eq l r \<longleftrightarrow> client_equal_without_service l r \<and> same_map (cc_services l) (cc_services r)"

definition option_eq :: "('a \<Rightarrow> 'a \<Rightarrow> bool) \<Rightarrow> 'a option \<Rightarrow> 'a option \<Rightarrow> bool" where
  "option_eq eq x y = (case (x, y) of (None, None) \<Rightarrow> True | (Some a, Some b) \<Rightarrow> eq a b | _ \<Rightarrow> False)"

definition config_eq :: "config \<Rightarrow> config \<Rightarrow> bool" where
  "config_eq l r \<longleftrightarrow> option_eq server_config_eq (cfg_server l) (cfg_server r) \<and>
     option_eq client_config_eq (cfg_client l) (cfg_client r)"

definition server_delete_change :: "string \<Rightarrow> config_change" where
  "server_delete_change s = ServerChange (Server_Delete s)"

definition server_add_change :: "server_service_config \<Rightarrow> config_change" where
  "server_add_change c = ServerChange (Server_Add c)"

definition client_delete_change :: "string \<Rightarrow> config_change" where
  "client_delete_change s = ClientChange (Client_Delete s)"

definition client_add_change :: "client_service_config \<Rightarrow> config_change" where
  "client_add_change c = ClientChange (Client_Add c)"

text \<open>The generic function over \<open>InstanceConfig\<close>, with the trait's methods as arguments.\<close>

definition calculate_instance_config_events ::
  "('c \<Rightarrow> 'c \<Rightarrow> bool) \<Rightarrow> (string \<Rightarrow> config_change) \<Rightarrow> ('s \<Rightarrow> config_change) \<Rightarrow>
   ('c \<Rightarrow> (string \<times> 's) list) \<Rightarrow> 'c \<Rightarrow> 'c \<Rightarrow> config_change list option" where
  "calculate_instance_config_events
     equal_without_service service_delete_change service_add_change get_services old new =
   (if \<not> equal_without_service old new then None
    else
      let old_services = get_services old; new_services = get_services new;
          deletions = map service_delete_change
            (filter (\<lambda>name. map_of new_services name = None) (map fst old_services));
          addition = map (\<lambda>(_, c). service_add_change c)
            (filter (\<lambda>(name, c). map_of old_services name \<noteq> Some c) new_services)
      in Some (deletions @ addition))"

definition server_events :: "server_config \<Rightarrow> server_config \<Rightarrow> config_change list option" where
  "server_events = calculate_instance_config_events
     server_equal_without_service server_delete_change server_add_change sc_services"

definition client_events :: "client_config \<Rightarrow> client_config \<Rightarrow> config_change list option" where
  "client_events = calculate_instance_config_events
     client_equal_without_service client_delete_change client_add_change cc_services"

text \<open>
  The events of one side; \<open>None\<close> asks for a full restart. Both sides are there or neither
  is, since the caller has compared \<open>is_some\<close>.
\<close>

definition side_events ::
  "('c \<Rightarrow> 'c \<Rightarrow> bool) \<Rightarrow> ('c \<Rightarrow> 'c \<Rightarrow> config_change list option) \<Rightarrow> 'c option \<Rightarrow> 'c option \<Rightarrow>
   config_change list option" where
  "side_events eq events old new =
     (case (old, new) of
        (Some o', Some n) \<Rightarrow> if eq o' n then Some [] else events o' n
      | _ \<Rightarrow> Some [])"

definition calculate_events :: "config \<Rightarrow> config \<Rightarrow> config_change list option" where
  "calculate_events old new =
     (if config_eq old new then None
      else if (cfg_server old \<noteq> None) \<noteq> (cfg_server new \<noteq> None) \<or>
              (cfg_client old \<noteq> None) \<noteq> (cfg_client new \<noteq> None)
      then Some [General new]
      else
        (case side_events server_config_eq server_events (cfg_server old) (cfg_server new) of
           None \<Rightarrow> Some [General new]
         | Some v \<Rightarrow>
             (case side_events client_config_eq client_events (cfg_client old) (cfg_client new) of
                None \<Rightarrow> Some [General new]
              | Some w \<Rightarrow> Some (v @ w))))"

section \<open>The watcher\<close>

text \<open>
  The callback of the file watcher: only modifications of a path with the file's own name
  wake the loop.
\<close>

record file_event =
  fe_is_modify :: bool
  fe_file_names :: "string option list"

definition watch_callback :: "string option \<Rightarrow> anyhow + file_event \<Rightarrow> bool" where
  "watch_callback file_name res =
     (case res of
        Inl _ \<Rightarrow> False
      | Inr e \<Rightarrow> fe_is_modify e \<and> list_ex (\<lambda>x. x = file_name) (fe_file_names e))"

text \<open>
  One turn of the \<open>select!\<close> loop. A wake-up carries what \<open>Config::from_file\<close> returns then;
  \<open>event_tx.send\<close> fails once the receiver is gone, and the loop returns that error.
\<close>

datatype watch_input =
    Rescan "anyhow + config"
  | Watcher_closed
  | Shutdown

datatype watch_status = Watching | Exited | Send_failed

record watch_state =
  w_old :: config
  w_sent :: "config_change list"
  w_status :: watch_status

definition watch_step :: "bool \<Rightarrow> watch_input \<Rightarrow> watch_state \<Rightarrow> watch_state" where
  "watch_step receiver_open i s =
     (if w_status s \<noteq> Watching then s
      else case i of
        Watcher_closed \<Rightarrow> s\<lparr>w_status := Exited\<rparr>
      | Shutdown \<Rightarrow> s\<lparr>w_status := Exited\<rparr>
      | Rescan (Inl e) \<Rightarrow> s
      | Rescan (Inr new) \<Rightarrow>
          let events = (case calculate_events (w_old s) new of None \<Rightarrow> [] | Some es \<Rightarrow> es) in
          if events \<noteq> [] \<and> \<not> receiver_open then s\<lparr>w_status := Send_failed\<rparr>
          else s\<lparr>w_old := new, w_sent := w_sent s @ events\<rparr>)"

definition watch_start :: "config \<Rightarrow> watch_state" where
  "watch_start origin = \<lparr>w_old = origin, w_sent = [General origin], w_status = Watching\<rparr>"

definition watch_run :: "watch_input list \<Rightarrow> watch_state \<Rightarrow> watch_state" where
  "watch_run is s = fold (watch_step True) is s"

section \<open>What the receiver sees\<close>

text \<open>
  The receiver's view of a configuration: everything but the services, and the services as
  a map. A general event replaces the view, the others update one service.
\<close>

type_synonym 's services = "string \<Rightarrow> 's option"

record config_view =
  v_server :: "(server_config \<times> server_service_config services) option"
  v_client :: "(client_config \<times> client_service_config services) option"

definition view :: "config \<Rightarrow> config_view" where
  "view c =
     \<lparr>v_server = map_option (\<lambda>s. (s\<lparr>sc_services := []\<rparr>, map_of (sc_services s))) (cfg_server c),
      v_client = map_option (\<lambda>s. (s\<lparr>cc_services := []\<rparr>, map_of (cc_services s))) (cfg_client c)\<rparr>"

fun apply_server_change :: "config_change \<Rightarrow> server_service_config services \<Rightarrow> server_service_config services" where
  "apply_server_change (ServerChange (Server_Add c)) m = m(ssc_name c \<mapsto> c)"
| "apply_server_change (ServerChange (Server_Delete n)) m = m(n := None)"
| "apply_server_change _ m = m"

fun apply_client_change :: "config_change \<Rightarrow> client_service_config services \<Rightarrow> client_service_config services" where
  "apply_client_change (ClientChange (Client_Add c)) m = m(csc_name c \<mapsto> c)"
| "apply_client_change (ClientChange (Client_Delete n)) m = m(n := None)"
| "apply_client_change _ m = m"

fun apply_change :: "config_change \<Rightarrow> config_view \<Rightarrow> config_view" where
  "apply_change (General c) v = view c"
| "apply_change e v =
     v\<lparr>v_server := map_option (apsnd (apply_server_change e)) (v_server v),
       v_client := map_option (apsnd (apply_client_change e)) (v_client v)\<rparr>"

section \<open>The interface of one side\<close>

lemma same_map_map_of:
  "distinct_keys xs \<Longrightarrow> distinct_keys ys \<Longrightarrow> same_map xs ys \<longleftrightarrow> map_of xs = map_of ys"
  by (auto simp: same_map_def map_of_inject_set)

locale instance_config =
  fixes services :: "'c \<Rightarrow> (string \<times> 's) list"
    and name_of :: "'s \<Rightarrow> string"
    and same_rest :: "'c \<Rightarrow> 'c \<Rightarrow> bool"
    and del :: "string \<Rightarrow> config_change"
    and add :: "'s \<Rightarrow> config_change"
    and apply_one :: "config_change \<Rightarrow> 's services \<Rightarrow> 's services"
  assumes apply_del: "apply_one (del n) m = m(n := None)"
    and apply_add: "apply_one (add c) m = m(name_of c \<mapsto> c)"
begin

lemma fold_del: "fold apply_one (map del ns) m = (\<lambda>k. if k \<in> set ns then None else m k)"
  by (induction ns arbitrary: m) (auto simp: apply_del fun_eq_iff)

lemma fold_add:
  assumes "\<forall>(n, c) \<in> set kvs. name_of c = n" "distinct_keys kvs"
  shows "fold apply_one (map (\<lambda>(_, c). add c) kvs) m = m ++ map_of kvs"
  using assms
proof (induction kvs arbitrary: m)
  case Nil
  then show ?case by simp
next
  case (Cons e kvs)
  obtain n c where e: "e = (n, c)" by (cases e)
  have "name_of c = n" and n: "n \<notin> dom (map_of kvs)"
    using Cons.prems by (auto simp: e dom_map_of_conv_image_fst)
  moreover have IH: "fold apply_one (map (\<lambda>(_, c). add c) kvs) (m(n \<mapsto> c)) = m(n \<mapsto> c) ++ map_of kvs"
    by (rule Cons.IH) (use Cons.prems in auto)
  ultimately have "fold apply_one (map (\<lambda>(_, c). add c) (e # kvs)) m = m(n \<mapsto> c) ++ map_of kvs"
    by (simp only: e list.map fold_simps prod.case apply_add)
  also have "\<dots> = m ++ map_of (e # kvs)" by (simp add: e map_add_upd_left [OF n])
  finally show ?case .
qed

text \<open>Deletions, then additions, turn the old service map into the new one.\<close>

lemma sync:
  assumes "\<forall>(n, c) \<in> set (services new). name_of c = n" "distinct_keys (services new)"
    and "calculate_instance_config_events same_rest del add services old new = Some evs"
  shows "fold apply_one evs (map_of (services old)) = map_of (services new)"
proof -
  let ?o = "services old" and ?n = "services new"
  let ?adds = "filter (\<lambda>(name, c). map_of ?o name \<noteq> Some c) ?n"
  have evs: "evs = map del (filter (\<lambda>name. map_of ?n name = None) (map fst ?o)) @
      map (\<lambda>(_, c). add c) ?adds"
    using assms(3) by (simp add: calculate_instance_config_events_def Let_def split: if_splits)
  have adds: "\<forall>(n, c) \<in> set ?adds. name_of c = n" "distinct_keys ?adds"
    using assms(1,2) by (auto intro: distinct_map_filter)
  have "map_of ?adds k = (if map_of ?o k = map_of ?n k then None else map_of ?n k)" for k
  proof (cases "map_of ?n k")
    case None
    then have "k \<notin> fst ` set ?adds" by (auto simp: map_of_eq_None_iff)
    then have "map_of ?adds k = None" by (simp only: map_of_eq_None_iff) simp
    then show ?thesis using None by simp
  next
    case (Some c)
    then have "(k, c) \<in> set ?n" by (rule map_of_SomeD)
    show ?thesis
    proof (cases "map_of ?o k = Some c")
      case True
      have "b = c" if "(k, b) \<in> set ?n" for b
        using map_of_is_SomeI [OF assms(2) that] Some by simp
      with True have "k \<notin> fst ` set ?adds" by auto
      then have "map_of ?adds k = None" by (simp only: map_of_eq_None_iff) simp
      then show ?thesis using True Some by simp
    next
      case False
      with \<open>(k, c) \<in> set ?n\<close> have "(k, c) \<in> set ?adds" by auto
      with adds(2) have "map_of ?adds k = Some c" by (rule map_of_is_SomeI)
      then show ?thesis using False Some by simp
    qed
  qed
  note adds_map = this
  have dels: "k \<in> set (filter (\<lambda>name. map_of ?n name = None) (map fst ?o)) \<longleftrightarrow>
      map_of ?n k = None \<and> map_of ?o k \<noteq> None" for k
    by (simp only: set_filter mem_Collect_eq set_map map_of_eq_None_iff) blast
  show ?thesis
    unfolding evs fold_append comp_def fold_del fold_add [OF adds] dels
    by (rule ext) (auto simp: map_add_def adds_map split: option.splits)
qed

text \<open>Only services that are new or different are added, only vanished ones deleted.\<close>

lemma exact:
  assumes "\<forall>(n, c) \<in> set (services new). name_of c = n" "distinct_keys (services new)"
    and "calculate_instance_config_events same_rest del add services old new = Some evs"
    and "inj del" "inj add" "\<And>n c. del n \<noteq> add c"
  shows "del n \<in> set evs \<longleftrightarrow> map_of (services old) n \<noteq> None \<and> map_of (services new) n = None"
    and "add c \<in> set evs \<longleftrightarrow>
      map_of (services new) (name_of c) = Some c \<and> map_of (services old) (name_of c) \<noteq> Some c"
proof -
  have evs: "set evs = del ` {n. map_of (services old) n \<noteq> None \<and> map_of (services new) n = None} \<union>
      add ` {c. \<exists>n. (n, c) \<in> set (services new) \<and> map_of (services old) n \<noteq> Some c}"
  proof -
    have "evs = map del (filter (\<lambda>n. map_of (services new) n = None) (map fst (services old))) @
        map (\<lambda>(_, c). add c) (filter (\<lambda>(n, c). map_of (services old) n \<noteq> Some c) (services new))"
      using assms(3) by (simp add: calculate_instance_config_events_def Let_def split: if_splits)
    moreover have "set (filter (\<lambda>n. map_of (services new) n = None) (map fst (services old))) =
        {n. map_of (services old) n \<noteq> None \<and> map_of (services new) n = None}"
      by (simp only: set_filter set_map map_of_eq_None_iff) blast
    moreover have "(\<lambda>(_, c). add c) ` set (filter (\<lambda>(n, c). map_of (services old) n \<noteq> Some c) (services new)) =
        add ` {c. \<exists>n. (n, c) \<in> set (services new) \<and> map_of (services old) n \<noteq> Some c}"
      by (force simp: image_iff)
    ultimately show ?thesis by (simp only: set_append set_map)
  qed
  have disj: "add c \<notin> del ` A" "del n \<notin> add ` B" for c n A B
    using assms(6) by (metis imageE)+
  show "del n \<in> set evs \<longleftrightarrow> map_of (services old) n \<noteq> None \<and> map_of (services new) n = None"
    unfolding evs Un_iff inj_image_mem_iff [OF assms(4)] by (simp only: disj simp_thms mem_Collect_eq)
  have names: "name_of c = n" if "(n, c) \<in> set (services new)" for n
    using that assms(1) by auto
  have "add c \<in> set evs \<longleftrightarrow> (\<exists>n. (n, c) \<in> set (services new) \<and> map_of (services old) n \<noteq> Some c)"
    unfolding evs Un_iff inj_image_mem_iff [OF assms(5)] by (simp only: disj simp_thms mem_Collect_eq)
  also have "\<dots> \<longleftrightarrow> (name_of c, c) \<in> set (services new) \<and> map_of (services old) (name_of c) \<noteq> Some c"
    using names by metis
  finally show "add c \<in> set evs \<longleftrightarrow>
      map_of (services new) (name_of c) = Some c \<and> map_of (services old) (name_of c) \<noteq> Some c"
    using assms(2) by simp
qed

lemma side_exact:
  assumes "pred_option (\<lambda>s. distinct_keys (services s) \<and> list_all (\<lambda>(n, c). name_of c = n) (services s)) old"
    and "pred_option (\<lambda>s. distinct_keys (services s) \<and> list_all (\<lambda>(n, c). name_of c = n) (services s)) new"
    and "option_eq same_rest old new"
    and "side_events (\<lambda>a b. same_rest a b \<and> same_map (services a) (services b))
       (calculate_instance_config_events same_rest del add services) old new = Some evs"
    and "inj del" "inj add" "\<And>n c. del n \<noteq> add c"
  shows "(del n \<in> set evs \<longleftrightarrow> (\<exists>a b. old = Some a \<and> new = Some b \<and>
         map_of (services a) n \<noteq> None \<and> map_of (services b) n = None)) \<and>
    (add c \<in> set evs \<longleftrightarrow> (\<exists>a b. old = Some a \<and> new = Some b \<and>
         map_of (services b) (name_of c) = Some c \<and> map_of (services a) (name_of c) \<noteq> Some c))"
proof (cases old)
  case None
  with assms(4) show ?thesis by (simp add: side_events_def)
next
  case (Some a)
  with assms(3) obtain b where ab: "old = Some a" "new = Some b" "same_rest a b"
    by (auto simp: option_eq_def split: option.splits)
  have wf: "\<forall>(n, c) \<in> set (services b). name_of c = n" "distinct_keys (services b)" "distinct_keys (services a)"
    using assms(1,2) ab by (simp_all add: list_all_iff)
  show ?thesis
  proof (cases "same_map (services a) (services b)")
    case True
    then have "evs = []" "map_of (services a) = map_of (services b)"
      using assms(4) ab wf by (simp_all add: side_events_def same_map_map_of)
    then show ?thesis using ab by auto
  next
    case False
    then have "calculate_instance_config_events same_rest del add services a b = Some evs"
      using assms(4) ab by (simp add: side_events_def)
    from exact [OF wf(1,2) this assms(5-7)] show ?thesis using ab by simp
  qed
qed

end

interpretation server_side: instance_config sc_services ssc_name server_equal_without_service
  server_delete_change server_add_change apply_server_change
  by unfold_locales (simp_all add: server_delete_change_def server_add_change_def)

interpretation client_side: instance_config cc_services csc_name client_equal_without_service
  client_delete_change client_add_change apply_client_change
  by unfold_locales (simp_all add: client_delete_change_def client_add_change_def)

section \<open>The events bring the receiver to the new configuration\<close>

definition wf_server_services :: "server_config \<Rightarrow> bool" where
  "wf_server_services s \<longleftrightarrow> distinct_keys (sc_services s) \<and>
     list_all (\<lambda>(n, c). ssc_name c = n) (sc_services s)"

definition wf_client_services :: "client_config \<Rightarrow> bool" where
  "wf_client_services s \<longleftrightarrow> distinct_keys (cc_services s) \<and>
     list_all (\<lambda>(n, c). csc_name c = n) (cc_services s)"

definition wf_config :: "config \<Rightarrow> bool" where
  "wf_config c \<longleftrightarrow> pred_option wf_server_services (cfg_server c) \<and>
     pred_option wf_client_services (cfg_client c)"

lemma normal_server_wf: "distinct_keys (sc_services s) \<Longrightarrow> wf_server_services (normal_server s)"
  by (auto simp: wf_server_services_def normal_server_def list_all_iff comp_def fill_server_def)

lemma normal_client_wf: "distinct_keys (cc_services s) \<Longrightarrow> wf_client_services (normal_client s)"
  by (auto simp: wf_client_services_def normal_client_def list_all_iff comp_def fill_client_def)

text \<open>What \<open>from_str\<close> returns is well formed when the parser's maps have distinct keys.\<close>

lemma loaded_wf:
  assumes "config_from_str parse s = Inr c"
    and "\<And>c0. parse s = Inr c0 \<Longrightarrow>
      pred_option (\<lambda>x. distinct_keys (sc_services x)) (cfg_server c0) \<and>
      pred_option (\<lambda>x. distinct_keys (cc_services x)) (cfg_client c0)"
  shows "wf_config c"
  using assms
  by (force simp: config_from_str_Inr_iff wf_config_def pred_option_def intro: normal_server_wf normal_client_wf)

fun is_server_change :: "config_change \<Rightarrow> bool" where
  "is_server_change (ServerChange _) = True"
| "is_server_change _ = False"

fun is_client_change :: "config_change \<Rightarrow> bool" where
  "is_client_change (ClientChange _) = True"
| "is_client_change _ = False"

lemma server_events_kind: "server_events o' n = Some evs \<Longrightarrow> list_all is_server_change evs"
  by (auto simp: server_events_def calculate_instance_config_events_def Let_def list_all_iff
      server_delete_change_def server_add_change_def split: if_splits)

lemma client_events_kind: "client_events o' n = Some evs \<Longrightarrow> list_all is_client_change evs"
  by (auto simp: client_events_def calculate_instance_config_events_def Let_def list_all_iff
      client_delete_change_def client_add_change_def split: if_splits)

lemma fold_server_changes:
  "list_all is_server_change evs \<Longrightarrow> fold apply_change evs v =
     v\<lparr>v_server := map_option (apsnd (fold apply_server_change evs)) (v_server v)\<rparr>"
proof (induction evs arbitrary: v)
  case Nil
  then show ?case by (cases v) (simp add: apsnd_def map_prod_def option.map_ident)
next
  case (Cons e evs)
  then show ?case
    by (cases v; cases e; cases "v_server v") (auto simp: apsnd_def map_prod_def option.map_id)
qed

lemma fold_client_changes:
  "list_all is_client_change evs \<Longrightarrow> fold apply_change evs v =
     v\<lparr>v_client := map_option (apsnd (fold apply_client_change evs)) (v_client v)\<rparr>"
proof (induction evs arbitrary: v)
  case Nil
  then show ?case by (cases v) (simp add: apsnd_def map_prod_def option.map_ident)
next
  case (Cons e evs)
  then show ?case
    by (cases v; cases e; cases "v_client v") (auto simp: apsnd_def map_prod_def option.map_id)
qed

definition server_view :: "server_config \<Rightarrow> server_config \<times> server_service_config services" where
  "server_view s = (s\<lparr>sc_services := []\<rparr>, map_of (sc_services s))"

definition client_view :: "client_config \<Rightarrow> client_config \<times> client_service_config services" where
  "client_view s = (s\<lparr>cc_services := []\<rparr>, map_of (cc_services s))"

lemma view_sides: "view c = \<lparr>v_server = map_option server_view (cfg_server c), v_client = map_option client_view (cfg_client c)\<rparr>"
  by (simp add: view_def server_view_def [abs_def] client_view_def [abs_def])

lemma server_eq_view:
  "wf_server_services a \<Longrightarrow> wf_server_services b \<Longrightarrow> server_config_eq a b \<longleftrightarrow> server_view a = server_view b"
  by (auto simp: server_config_eq_def server_equal_without_service_def server_view_def
      wf_server_services_def same_map_map_of)

lemma client_eq_view:
  "wf_client_services a \<Longrightarrow> wf_client_services b \<Longrightarrow> client_config_eq a b \<longleftrightarrow> client_view a = client_view b"
  by (auto simp: client_config_eq_def client_equal_without_service_def client_view_def
      wf_client_services_def same_map_map_of)

lemma server_events_sync:
  assumes "wf_server_services n" "server_events o' n = Some evs"
  shows "apsnd (fold apply_server_change evs) (server_view o') = server_view n"
proof -
  have "server_equal_without_service o' n"
    using assms(2) by (auto simp: server_events_def calculate_instance_config_events_def split: if_splits)
  moreover have "fold apply_server_change evs (map_of (sc_services o')) = map_of (sc_services n)"
    using assms by (intro server_side.sync) (auto simp: wf_server_services_def server_events_def list_all_iff)
  ultimately show ?thesis by (simp add: server_view_def server_equal_without_service_def)
qed

lemma client_events_sync:
  assumes "wf_client_services n" "client_events o' n = Some evs"
  shows "apsnd (fold apply_client_change evs) (client_view o') = client_view n"
proof -
  have "client_equal_without_service o' n"
    using assms(2) by (auto simp: client_events_def calculate_instance_config_events_def split: if_splits)
  moreover have "fold apply_client_change evs (map_of (cc_services o')) = map_of (cc_services n)"
    using assms by (intro client_side.sync) (auto simp: wf_client_services_def client_events_def list_all_iff)
  ultimately show ?thesis by (simp add: client_view_def client_equal_without_service_def)
qed

lemma side_server_sync:
  assumes "pred_option wf_server_services old" "pred_option wf_server_services new"
    and "(old = None) = (new = None)"
    and "side_events server_config_eq server_events old new = Some evs"
  shows "list_all is_server_change evs \<and>
    map_option (apsnd (fold apply_server_change evs)) (map_option server_view old) = map_option server_view new"
  using assms server_events_kind server_events_sync
  by (cases old; cases new) (auto simp: side_events_def server_eq_view split: if_splits)

lemma side_client_sync:
  assumes "pred_option wf_client_services old" "pred_option wf_client_services new"
    and "(old = None) = (new = None)"
    and "side_events client_config_eq client_events old new = Some evs"
  shows "list_all is_client_change evs \<and>
    map_option (apsnd (fold apply_client_change evs)) (map_option client_view old) = map_option client_view new"
  using assms client_events_kind client_events_sync
  by (cases old; cases new) (auto simp: side_events_def client_eq_view split: if_splits)

lemma config_eq_view:
  assumes "wf_config old" "wf_config new"
  shows "config_eq old new \<longleftrightarrow> view old = view new"
  using assms
  by (cases "cfg_server old"; cases "cfg_server new"; cases "cfg_client old"; cases "cfg_client new")
     (simp_all add: config_eq_def option_eq_def view_sides wf_config_def server_eq_view client_eq_view)

definition events_of :: "config \<Rightarrow> config \<Rightarrow> config_change list" where
  "events_of old new = (case calculate_events old new of None \<Rightarrow> [] | Some es \<Rightarrow> es)"

lemma events_sync:
  assumes "wf_config old" "wf_config new"
  shows "fold apply_change (events_of old new) (view old) = view new"
proof (cases "calculate_events old new")
  case None
  then have "config_eq old new"
    by (auto simp: calculate_events_def split: if_splits option.splits)
  with None show ?thesis using config_eq_view [OF assms] by (simp add: events_of_def)
next
  case (Some evs)
  show ?thesis
  proof (cases "evs = [General new]")
    case True
    with Some show ?thesis by (simp add: events_of_def)
  next
    case False
    with Some obtain v w where vw: "evs = v @ w"
      and s: "side_events server_config_eq server_events (cfg_server old) (cfg_server new) = Some v"
      and c: "side_events client_config_eq client_events (cfg_client old) (cfg_client new) = Some w"
      and both: "(cfg_server old = None) = (cfg_server new = None)" "(cfg_client old = None) = (cfg_client new = None)"
      by (auto simp: calculate_events_def split: if_splits option.splits)
    note S = side_server_sync [OF _ _ both(1) s] and C = side_client_sync [OF _ _ both(2) c]
    show ?thesis using S C assms Some
      by (simp add: events_of_def vw fold_server_changes fold_client_changes view_sides wf_config_def)
  qed
qed

section \<open>Properties\<close>

definition server_services :: "config \<Rightarrow> server_service_config services" where
  "server_services c = (case cfg_server c of None \<Rightarrow> Map.empty | Some s \<Rightarrow> map_of (sc_services s))"

definition client_services :: "config \<Rightarrow> client_service_config services" where
  "client_services c = (case cfg_client c of None \<Rightarrow> Map.empty | Some s \<Rightarrow> map_of (cc_services s))"

definition same_but_services :: "config \<Rightarrow> config \<Rightarrow> bool" where
  "same_but_services a b \<longleftrightarrow>
     option_eq server_equal_without_service (cfg_server a) (cfg_server b) \<and>
     option_eq client_equal_without_service (cfg_client a) (cfg_client b)"

lemma events_of_sides:
  assumes "same_but_services old new"
  obtains v w where "events_of old new = v @ w"
    "side_events server_config_eq server_events (cfg_server old) (cfg_server new) = Some v"
    "side_events client_config_eq client_events (cfg_client old) (cfg_client new) = Some w"
proof -
  have "\<exists>v. side_events server_config_eq server_events (cfg_server old) (cfg_server new) = Some v \<and>
      (config_eq old new \<longrightarrow> v = [])"
    using assms
    by (auto simp: same_but_services_def option_eq_def side_events_def server_events_def config_eq_def
        calculate_instance_config_events_def Let_def split: option.splits)
  moreover have "\<exists>w. side_events client_config_eq client_events (cfg_client old) (cfg_client new) = Some w \<and>
      (config_eq old new \<longrightarrow> w = [])"
    using assms
    by (auto simp: same_but_services_def option_eq_def side_events_def client_events_def config_eq_def
        calculate_instance_config_events_def Let_def split: option.splits)
  moreover have "(cfg_server old \<noteq> None) = (cfg_server new \<noteq> None)"
    "(cfg_client old \<noteq> None) = (cfg_client new \<noteq> None)"
    using assms by (auto simp: same_but_services_def option_eq_def split: option.splits)
  ultimately show thesis
    using that by (cases "config_eq old new") (auto simp: events_of_def calculate_events_def)
qed

lemma change_constructors:
  "inj server_delete_change" "inj server_add_change" "server_delete_change n \<noteq> server_add_change c"
  "inj client_delete_change" "inj client_add_change" "client_delete_change n \<noteq> client_add_change d"
  by (auto simp: inj_def server_delete_change_def server_add_change_def client_delete_change_def
      client_add_change_def)

lemma config_eq_sides:
  "server_config_eq = (\<lambda>a b. server_equal_without_service a b \<and> same_map (sc_services a) (sc_services b))"
  "client_config_eq = (\<lambda>a b. client_equal_without_service a b \<and> same_map (cc_services a) (cc_services b))"
  by (simp_all add: fun_eq_iff server_config_eq_def client_config_eq_def)

lemma services_Some_iff:
  "server_services c n = Some x \<longleftrightarrow> (\<exists>s. cfg_server c = Some s \<and> map_of (sc_services s) n = Some x)"
  "client_services c n = Some y \<longleftrightarrow> (\<exists>s. cfg_client c = Some s \<and> map_of (cc_services s) n = Some y)"
  by (auto simp: server_services_def client_services_def split: option.splits)

lemma events_of_exact:
  assumes "wf_config old" "wf_config new" "same_but_services old new"
  shows "(ServerChange (Server_Delete n) \<in> set (events_of old new) \<longleftrightarrow>
       \<not> (server_services old n = None) \<and> server_services new n = None) \<and>
    (ServerChange (Server_Add c) \<in> set (events_of old new) \<longleftrightarrow>
       server_services new (ssc_name c) = Some c \<and> server_services old (ssc_name c) \<noteq> Some c) \<and>
    (ClientChange (Client_Delete n) \<in> set (events_of old new) \<longleftrightarrow>
       \<not> (client_services old n = None) \<and> client_services new n = None) \<and>
    (ClientChange (Client_Add d) \<in> set (events_of old new) \<longleftrightarrow>
       client_services new (csc_name d) = Some d \<and> client_services old (csc_name d) \<noteq> Some d) \<and>
    General x \<notin> set (events_of old new)"
proof -
  obtain v w where ev: "events_of old new = v @ w"
    and v: "side_events server_config_eq server_events (cfg_server old) (cfg_server new) = Some v"
    and w: "side_events client_config_eq client_events (cfg_client old) (cfg_client new) = Some w"
    using events_of_sides [OF assms(3)] .
  have kinds: "list_all is_server_change v" "list_all is_client_change w"
    using v w server_events_kind client_events_kind
    by (auto simp: side_events_def split: option.splits if_splits)
  then have other: "ServerChange y \<notin> set w" "ClientChange z \<notin> set v" "General x \<notin> set v" "General x \<notin> set w" for y z
    by (auto simp: list_all_iff)
  have both: "cfg_server old = None \<longleftrightarrow> cfg_server new = None" "cfg_client old = None \<longleftrightarrow> cfg_client new = None"
    using assms(3) by (auto simp: same_but_services_def option_eq_def split: option.splits)
  note S = server_side.side_exact [OF _ _ _ v [unfolded config_eq_sides server_events_def] change_constructors(1-3)]
  note C = client_side.side_exact [OF _ _ _ w [unfolded config_eq_sides client_events_def] change_constructors(4-6)]
  have s: "(ServerChange (Server_Delete n) \<in> set v \<longleftrightarrow> (\<exists>a b. cfg_server old = Some a \<and> cfg_server new = Some b \<and>
         map_of (sc_services a) n \<noteq> None \<and> map_of (sc_services b) n = None)) \<and>
    (ServerChange (Server_Add c) \<in> set v \<longleftrightarrow> (\<exists>a b. cfg_server old = Some a \<and> cfg_server new = Some b \<and>
         map_of (sc_services b) (ssc_name c) = Some c \<and> map_of (sc_services a) (ssc_name c) \<noteq> Some c))"
    using S [of n c] assms
    by (simp add: wf_config_def wf_server_services_def [abs_def] same_but_services_def
        server_delete_change_def server_add_change_def)
  have c: "(ClientChange (Client_Delete n) \<in> set w \<longleftrightarrow> (\<exists>a b. cfg_client old = Some a \<and> cfg_client new = Some b \<and>
         map_of (cc_services a) n \<noteq> None \<and> map_of (cc_services b) n = None)) \<and>
    (ClientChange (Client_Add d) \<in> set w \<longleftrightarrow> (\<exists>a b. cfg_client old = Some a \<and> cfg_client new = Some b \<and>
         map_of (cc_services b) (csc_name d) = Some d \<and> map_of (cc_services a) (csc_name d) \<noteq> Some d))"
    using C [of n d] assms
    by (simp add: wf_config_def wf_client_services_def [abs_def] same_but_services_def
        client_delete_change_def client_add_change_def)
  show ?thesis
    using s c other both
    by (cases "cfg_server old"; cases "cfg_server new"; cases "cfg_client old"; cases "cfg_client new")
       (simp_all add: ev server_services_def client_services_def)
qed

text \<open>
  C19. Hot reload restarts nothing needlessly: when two configurations differ in their services
  at most, a service is deleted exactly if it vanished and added exactly if it is new or
  changed, on each side; unchanged services get no event, and there is no general restart.
\<close>

theorem reload_events_exact:
  assumes "wf_config old" "wf_config new" "same_but_services old new"
  shows "(ServerChange (Server_Delete n) \<in> set (events_of old new) \<longleftrightarrow>
       \<not> (server_services old n = None) \<and> server_services new n = None) \<and>
    (ServerChange (Server_Add c) \<in> set (events_of old new) \<longleftrightarrow>
       server_services new (ssc_name c) = Some c \<and> server_services old (ssc_name c) \<noteq> Some c) \<and>
    (ClientChange (Client_Delete n) \<in> set (events_of old new) \<longleftrightarrow>
       \<not> (client_services old n = None) \<and> client_services new n = None) \<and>
    (ClientChange (Client_Add d) \<in> set (events_of old new) \<longleftrightarrow>
       client_services new (csc_name d) = Some d \<and> client_services old (csc_name d) \<noteq> Some d) \<and>
    General x \<notin> set (events_of old new)"
  by (rule events_of_exact [OF assms])

lemma general_event:
  assumes "\<not> same_but_services old new"
  shows "events_of old new = [General new]"
proof -
  have "calculate_events old new = Some [General new]"
  proof (rule ccontr)
    assume no: "calculate_events old new \<noteq> Some [General new]"
    have "option_eq server_equal_without_service (cfg_server old) (cfg_server new)"
      using no by (cases "cfg_server old"; cases "cfg_server new")
        (auto simp: calculate_events_def config_eq_def option_eq_def side_events_def server_events_def
          server_config_eq_def calculate_instance_config_events_def split: if_splits)
    moreover have "option_eq client_equal_without_service (cfg_client old) (cfg_client new)"
      using no by (cases "cfg_client old"; cases "cfg_client new")
        (auto simp: calculate_events_def config_eq_def option_eq_def side_events_def client_events_def
          client_config_eq_def calculate_instance_config_events_def split: if_splits option.splits)
    ultimately show False using assms by (simp add: same_but_services_def)
  qed
  then show ?thesis by (simp add: events_of_def)
qed

text \<open>
  A full restart is asked for exactly when something other than the services changed: one
  side appeared or vanished, or a field of a side differs.
\<close>

theorem restart_exactly_when_rest_changed:
  "(General x \<in> set (events_of old new)) = (x = new \<and> \<not> same_but_services old new)"
proof (cases "same_but_services old new")
  case True
  then obtain v w where "events_of old new = v @ w"
    and v: "side_events server_config_eq server_events (cfg_server old) (cfg_server new) = Some v"
    and w: "side_events client_config_eq client_events (cfg_client old) (cfg_client new) = Some w"
    by (rule events_of_sides)
  moreover have "list_all is_server_change v" "list_all is_client_change w"
    using v w server_events_kind client_events_kind
    by (auto simp: side_events_def split: option.splits if_splits)
  ultimately show ?thesis using True by (auto simp: list_all_iff)
next
  case False
  then show ?thesis using general_event [OF False] by auto
qed

fun last_valid :: "config \<Rightarrow> watch_input list \<Rightarrow> config" where
  "last_valid c [] = c"
| "last_valid c (Rescan (Inr n) # is) = last_valid n is"
| "last_valid c (Rescan (Inl e) # is) = last_valid c is"
| "last_valid c (_ # is) = c"

lemma watch_step_rescan:
  "w_status s = Watching \<Longrightarrow> watch_step True (Rescan (Inr n)) s =
     s\<lparr>w_old := n, w_sent := w_sent s @ events_of (w_old s) n\<rparr>"
  by (auto simp: watch_step_def Let_def events_of_def split: option.splits)

lemma watch_step_other:
  "w_status s = Watching \<Longrightarrow> watch_step r (Rescan (Inl e)) s = s"
  "w_status s = Watching \<Longrightarrow> watch_step r Watcher_closed s = s\<lparr>w_status := Exited\<rparr>"
  "w_status s = Watching \<Longrightarrow> watch_step r Shutdown s = s\<lparr>w_status := Exited\<rparr>"
  "w_status s \<noteq> Watching \<Longrightarrow> watch_step r i s = s"
  by (simp_all add: watch_step_def)

lemma watch_run_exited: "w_status s \<noteq> Watching \<Longrightarrow> watch_run is s = s"
  unfolding watch_run_def by (induction "is") (simp_all add: watch_step_other)

lemma watch_run_Cons: "watch_run (i # is) s = watch_run is (watch_step True i s)"
  by (simp add: watch_run_def)

lemma watch_run_tracks:
  assumes "w_status s = Watching" "wf_config (w_old s)"
    and "\<forall>n. Rescan (Inr n) \<in> set is \<longrightarrow> wf_config n"
    and "fold apply_change (w_sent s) v = view (w_old s)"
  shows "w_old (watch_run is s) = last_valid (w_old s) is \<and>
    fold apply_change (w_sent (watch_run is s)) v = view (last_valid (w_old s) is)"
  using assms
proof (induction "is" arbitrary: s)
  case Nil
  then show ?case by (simp add: watch_run_def)
next
  case (Cons i "is")
  show ?case
  proof (cases i)
    case (Rescan r)
    show ?thesis
    proof (cases r)
      case (Inl e)
      then show ?thesis using Cons by (simp add: Rescan watch_run_Cons watch_step_other)
    next
      case (Inr n)
      let ?s = "s\<lparr>w_old := n, w_sent := w_sent s @ events_of (w_old s) n\<rparr>"
      have n: "wf_config n" using Cons.prems(3) Rescan Inr by simp
      have "fold apply_change (w_sent ?s) v = view n"
        using Cons.prems(4) events_sync [OF Cons.prems(2) n] by simp
      then have "w_old (watch_run is ?s) = last_valid n is \<and>
          fold apply_change (w_sent (watch_run is ?s)) v = view (last_valid n is)"
        using Cons.IH [of ?s] Cons.prems n by simp
      then show ?thesis using Cons.prems(1) by (simp add: Rescan Inr watch_run_Cons watch_step_rescan)
    qed
  next
    case Watcher_closed
    then show ?thesis using Cons.prems by (simp add: watch_run_Cons watch_step_other watch_run_exited)
  next
    case Shutdown
    then show ?thesis using Cons.prems by (simp add: watch_run_Cons watch_step_other watch_run_exited)
  qed
qed

text \<open>
  The watcher never loses a change: after any sequence of file modifications (valid or
  not), shutdown or closure, a receiver that applies every event it was sent holds exactly
  the last valid configuration the watcher has seen before it left its loop.
\<close>

theorem watcher_tracks_file:
  assumes "wf_config origin" "\<forall>n. Rescan (Inr n) \<in> set is \<longrightarrow> wf_config n"
  shows "fold apply_change (w_sent (watch_run is (watch_start origin))) v = view (last_valid origin is)"
  using watch_run_tracks [of "watch_start origin" "is" v] assms by (simp add: watch_start_def)

definition sample_config :: config where
  "sample_config = \<lparr>cfg_server = Some (normal_server sample_server), cfg_client = Some (normal_client sample_client)\<rparr>"

definition sample_config2 :: config where
  "sample_config2 =
     \<lparr>cfg_server = Some (normal_server (sample_server\<lparr>sc_services := tl (sc_services sample_server)\<rparr>)),
      cfg_client = Some (normal_client sample_client)\<rparr>"

lemma sample_configs_wf: "wf_config sample_config" "wf_config sample_config2"
  by (simp_all add: wf_config_def sample_config_def sample_config2_def normal_server_wf normal_client_wf
      sample_server_def sample_client_def)

lemma sample_configs_rest: "same_but_services sample_config sample_config2"
  by (simp add: same_but_services_def option_eq_def sample_config_def sample_config2_def
      server_equal_without_service_def client_equal_without_service_def normal_server_def normal_client_def)

theorem watcher_tracks_file_witness:
  "fold apply_change (w_sent (watch_run
      [Rescan (Inr sample_config2), Rescan (Inl (Err ''bad'')), Rescan (Inr sample_config), Shutdown,
       Rescan (Inr sample_config2)] (watch_start sample_config))) (view sample_config2) = view sample_config"
  using watcher_tracks_file [of sample_config
      "[Rescan (Inr sample_config2), Rescan (Inl (Err ''bad'')), Rescan (Inr sample_config), Shutdown,
        Rescan (Inr sample_config2)]" "view sample_config2"] sample_configs_wf
  by auto

theorem reload_events_exact_witness:
  "(ServerChange (Server_Delete ''ssh'') \<in> set (events_of sample_config sample_config2)) \<and>
   (ServerChange (Server_Delete ''dns'') \<notin> set (events_of sample_config sample_config2)) \<and>
   (General sample_config \<notin> set (events_of sample_config sample_config2))"
  using reload_events_exact [OF sample_configs_wf sample_configs_rest, of "''ssh''"]
    reload_events_exact [OF sample_configs_wf sample_configs_rest, of "''dns''"]
  by (simp add: server_services_def sample_config_def sample_config2_def normal_server_def
      sample_server_def fill_server_def)

end
