(* ===== verification/Runtime_Status.thy ===== *)
theory Runtime_Status
  imports Rust_Std
begin

text \<open>
  \<open>src/runtime_status.rs\<close>: the registry that the client and the server tasks update and
  that the status endpoint reads. Every function takes the write lock once, so each is one
  atomic step on the snapshot; the clock reading is an argument. \<open>None\<close> is a panic:
  \<open>String::truncate\<close> panics when byte 512 is not a character boundary.
\<close>

section \<open>Snapshots\<close>

definition RUNTIME_SCHEMA_VERSION :: u32 where
  "RUNTIME_SCHEMA_VERSION = 2"

definition STATUS_REQUEST :: string where
  "STATUS_REQUEST = ''rathole-x-status-v1''"

definition MAX_STATUS_RESPONSE :: nat where
  "MAX_STATUS_RESPONSE = 64 * 1024"

datatype runtime_role = Role_Client | Role_Server

datatype client_control_state = C_Connecting | C_Connected | C_Retrying | C_Stopped

datatype server_control_state = S_Waiting | S_Connected | S_Stopped

datatype server_listener_state = L_Pending | L_Listening | L_Error | L_Stopped

record runtime_event =
  at_unix_ms :: u64
  message :: string

record server_listener_snapshot =
  sl_state :: server_listener_state
  sl_last_error :: "runtime_event option"

record client_service_status =
  cs_state :: client_control_state
  configured_control_target :: string
  resolved_control_target :: "socket_addr option"
  last_connected_at_unix_ms :: "u64 option"
  last_error :: "runtime_event option"

record server_service_status =
  ss_state :: server_control_state
  control_channel_source :: "socket_addr option"
  connected_since_unix_ms :: "u64 option"
  last_disconnected_or_error :: "runtime_event option"

datatype runtime_service_snapshot =
    Client client_service_status
  | Server server_service_status

record runtime_snapshot =
  rs_schema_version :: u32
  rs_role :: runtime_role
  rs_process_id :: u32
  rs_captured_at_unix_ms :: u64
  rs_server_listener :: "server_listener_snapshot option"
  rs_services :: "string \<Rightarrow> runtime_service_snapshot option"

text \<open>\<open>as_millis().try_into().unwrap_or(u64::MAX)\<close>; a clock before the epoch counts as 0.\<close>

definition now_unix_ms :: "nat option \<Rightarrow> u64" where
  "now_unix_ms since_epoch =
     (let ms = (case since_epoch of None \<Rightarrow> 0 | Some m \<Rightarrow> m) in
      if ms < 2 ^ 64 then of_nat ms else - 1)"

definition safe_error :: "u64 \<Rightarrow> string \<Rightarrow> runtime_event option" where
  "safe_error now err =
     map_option (\<lambda>m. \<lparr>at_unix_ms = now, message = m\<rparr>) (truncate_str err 512)"

section \<open>Registry operations\<close>

definition new_client_status :: "string \<Rightarrow> runtime_service_snapshot" where
  "new_client_status remote_addr =
     Client \<lparr>cs_state = C_Stopped, configured_control_target = remote_addr,
       resolved_control_target = None, last_connected_at_unix_ms = None, last_error = None\<rparr>"

definition new_server_status :: runtime_service_snapshot where
  "new_server_status =
     Server \<lparr>ss_state = S_Waiting, control_channel_source = None,
       connected_since_unix_ms = None, last_disconnected_or_error = None\<rparr>"

definition client_registry :: "u32 \<Rightarrow> u64 \<Rightarrow> string \<Rightarrow> string list \<Rightarrow> runtime_snapshot" where
  "client_registry pid now remote_addr services =
     \<lparr>rs_schema_version = RUNTIME_SCHEMA_VERSION, rs_role = Role_Client, rs_process_id = pid,
      rs_captured_at_unix_ms = now, rs_server_listener = None,
      rs_services = map_of (map (\<lambda>name. (name, new_client_status remote_addr)) services)\<rparr>"

definition server_registry :: "u32 \<Rightarrow> u64 \<Rightarrow> string list \<Rightarrow> runtime_snapshot" where
  "server_registry pid now services =
     \<lparr>rs_schema_version = RUNTIME_SCHEMA_VERSION, rs_role = Role_Server, rs_process_id = pid,
      rs_captured_at_unix_ms = now,
      rs_server_listener = Some \<lparr>sl_state = L_Pending, sl_last_error = None\<rparr>,
      rs_services = map_of (map (\<lambda>name. (name, new_server_status)) services)\<rparr>"

definition snapshot :: "u64 \<Rightarrow> runtime_snapshot \<Rightarrow> runtime_snapshot" where
  "snapshot now reg = reg\<lparr>rs_captured_at_unix_ms := now\<rparr>"

definition server_listener_pending :: "runtime_snapshot \<Rightarrow> runtime_snapshot" where
  "server_listener_pending reg =
     (case rs_server_listener reg of None \<Rightarrow> reg
      | Some l \<Rightarrow> reg\<lparr>rs_server_listener := Some (l\<lparr>sl_state := L_Pending, sl_last_error := None\<rparr>)\<rparr>)"

definition server_listener_listening :: "runtime_snapshot \<Rightarrow> runtime_snapshot" where
  "server_listener_listening reg =
     (case rs_server_listener reg of None \<Rightarrow> reg
      | Some l \<Rightarrow> reg\<lparr>rs_server_listener := Some (l\<lparr>sl_state := L_Listening, sl_last_error := None\<rparr>)\<rparr>)"

definition server_listener_error :: "u64 \<Rightarrow> runtime_snapshot \<Rightarrow> string \<Rightarrow> runtime_snapshot option" where
  "server_listener_error now reg err =
     (case rs_server_listener reg of None \<Rightarrow> Some reg
      | Some l \<Rightarrow> map_option
          (\<lambda>e. reg\<lparr>rs_server_listener := Some (l\<lparr>sl_state := L_Error, sl_last_error := Some e\<rparr>)\<rparr>)
          (safe_error now err))"

definition server_listener_stopped :: "runtime_snapshot \<Rightarrow> runtime_snapshot" where
  "server_listener_stopped reg =
     (case rs_server_listener reg of None \<Rightarrow> reg
      | Some l \<Rightarrow> reg\<lparr>rs_server_listener := Some (l\<lparr>sl_state := L_Stopped\<rparr>)\<rparr>)"

definition client_add :: "runtime_snapshot \<Rightarrow> string \<Rightarrow> string \<Rightarrow> runtime_snapshot" where
  "client_add reg name remote_addr =
     reg\<lparr>rs_services := (rs_services reg)(name \<mapsto> new_client_status remote_addr)\<rparr>"

definition server_add :: "runtime_snapshot \<Rightarrow> string \<Rightarrow> runtime_snapshot" where
  "server_add reg name = reg\<lparr>rs_services := (rs_services reg)(name \<mapsto> new_server_status)\<rparr>"

definition remove_service :: "runtime_snapshot \<Rightarrow> string \<Rightarrow> runtime_snapshot" where
  "remove_service reg name = reg\<lparr>rs_services := (rs_services reg)(name := None)\<rparr>"

text \<open>\<open>get_mut\<close> with a pattern on the service's kind.\<close>

definition with_client ::
  "runtime_snapshot \<Rightarrow> string \<Rightarrow> (client_service_status \<Rightarrow> client_service_status option) \<Rightarrow>
   runtime_snapshot option" where
  "with_client reg name f =
     (case rs_services reg name of
        Some (Client c) \<Rightarrow>
          map_option (\<lambda>c'. reg\<lparr>rs_services := (rs_services reg)(name \<mapsto> Client c')\<rparr>) (f c)
      | _ \<Rightarrow> Some reg)"

definition with_server ::
  "runtime_snapshot \<Rightarrow> string \<Rightarrow> (server_service_status \<Rightarrow> server_service_status option) \<Rightarrow>
   runtime_snapshot option" where
  "with_server reg name f =
     (case rs_services reg name of
        Some (Server s) \<Rightarrow>
          map_option (\<lambda>s'. reg\<lparr>rs_services := (rs_services reg)(name \<mapsto> Server s')\<rparr>) (f s)
      | _ \<Rightarrow> Some reg)"

definition client_connecting :: "runtime_snapshot \<Rightarrow> string \<Rightarrow> runtime_snapshot option" where
  "client_connecting reg name = with_client reg name (\<lambda>c. Some (c\<lparr>cs_state := C_Connecting\<rparr>))"

definition client_resolved :: "runtime_snapshot \<Rightarrow> string \<Rightarrow> socket_addr \<Rightarrow> runtime_snapshot option" where
  "client_resolved reg name addr =
     with_client reg name (\<lambda>c. Some (c\<lparr>resolved_control_target := Some addr\<rparr>))"

definition client_connected :: "u64 \<Rightarrow> runtime_snapshot \<Rightarrow> string \<Rightarrow> runtime_snapshot option" where
  "client_connected now reg name =
     with_client reg name (\<lambda>c. Some (c\<lparr>cs_state := C_Connected,
       last_connected_at_unix_ms := Some now, last_error := None\<rparr>))"

definition client_retrying :: "u64 \<Rightarrow> runtime_snapshot \<Rightarrow> string \<Rightarrow> string \<Rightarrow> runtime_snapshot option" where
  "client_retrying now reg name err =
     with_client reg name (\<lambda>c. map_option
       (\<lambda>e. c\<lparr>cs_state := C_Retrying, last_error := Some e\<rparr>) (safe_error now err))"

definition client_stopped :: "runtime_snapshot \<Rightarrow> string \<Rightarrow> runtime_snapshot option" where
  "client_stopped reg name = with_client reg name (\<lambda>c. Some (c\<lparr>cs_state := C_Stopped\<rparr>))"

definition server_connected ::
  "u64 \<Rightarrow> runtime_snapshot \<Rightarrow> string \<Rightarrow> socket_addr \<Rightarrow> runtime_snapshot \<times> u64 option" where
  "server_connected now reg name source =
     (case rs_services reg name of
        Some (Server s) \<Rightarrow>
          (reg\<lparr>rs_services := (rs_services reg)(name \<mapsto> Server (s\<lparr>ss_state := S_Connected,
             control_channel_source := Some source, connected_since_unix_ms := Some now,
             last_disconnected_or_error := None\<rparr>))\<rparr>, Some now)
      | _ \<Rightarrow> (reg, None))"

definition server_disconnected ::
  "u64 \<Rightarrow> runtime_snapshot \<Rightarrow> string \<Rightarrow> socket_addr \<Rightarrow> u64 \<Rightarrow> string option \<Rightarrow> runtime_snapshot option" where
  "server_disconnected now reg name source connected_since detail =
     with_server reg name (\<lambda>s.
       if control_channel_source s \<noteq> Some source \<or> connected_since_unix_ms s \<noteq> Some connected_since
       then Some s
       else
         let cleared = s\<lparr>ss_state := S_Waiting, control_channel_source := None,
                         connected_since_unix_ms := None\<rparr> in
         (case detail of
            None \<Rightarrow> Some (cleared\<lparr>last_disconnected_or_error := None\<rparr>)
          | Some d \<Rightarrow> map_option (\<lambda>e. cleared\<lparr>last_disconnected_or_error := Some e\<rparr>) (safe_error now d)))"

section \<open>The endpoint name\<close>

text \<open>
  On Unix: \<open>canonicalize\<close>, else the absolute path, else joined to the current directory.
  The verbatim prefix exists on Windows only.
\<close>

definition path_join :: "string \<Rightarrow> string \<Rightarrow> string" where
  "path_join dir p =
     (if starts_with ''/'' p then p
      else if dir = [] \<or> last dir = CHR ''/'' then dir @ p else dir @ ''/'' @ p)"

definition strip_verbatim_prefix :: "string \<Rightarrow> string" where
  "strip_verbatim_prefix path = path"

definition canonical_config_path ::
  "(string \<Rightarrow> string option) \<Rightarrow> string option \<Rightarrow> string \<Rightarrow> string" where
  "canonical_config_path canonicalize current_dir path =
     strip_verbatim_prefix
       (case canonicalize path of
          Some p \<Rightarrow> p
        | None \<Rightarrow> if starts_with ''/'' path then path
                  else (case current_dir of None \<Rightarrow> path | Some cwd \<Rightarrow> path_join cwd path))"

definition hex_digit :: "nat \<Rightarrow> char" where
  "hex_digit n = (if n < 10 then char_of (48 + n) else char_of (87 + n))"

definition hex_encode :: "bytes \<Rightarrow> string" where
  "hex_encode bs = concat (map (\<lambda>b. [hex_digit (unat b div 16), hex_digit (unat b mod 16)]) bs)"

definition status_name_for_config ::
  "(string \<Rightarrow> bytes) \<Rightarrow> (string \<Rightarrow> string option) \<Rightarrow> string option \<Rightarrow> string \<Rightarrow> string" where
  "status_name_for_config sha256 canonicalize current_dir config_path =
     ''rathole-x-status-'' @
     hex_encode (take 16 (sha256 (canonical_config_path canonicalize current_dir config_path)))"

section \<open>Operations as values\<close>

datatype status_op =
    Op_listener_pending
  | Op_listener_listening
  | Op_listener_error string
  | Op_listener_stopped
  | Op_client_add string string
  | Op_server_add string
  | Op_remove string
  | Op_client_connecting string
  | Op_client_resolved string socket_addr
  | Op_client_connected string
  | Op_client_retrying string string
  | Op_client_stopped string
  | Op_server_connected string socket_addr
  | Op_server_disconnected string socket_addr u64 "string option"

fun status_step :: "u64 \<Rightarrow> status_op \<Rightarrow> runtime_snapshot \<Rightarrow> runtime_snapshot option" where
  "status_step now Op_listener_pending r = Some (server_listener_pending r)"
| "status_step now Op_listener_listening r = Some (server_listener_listening r)"
| "status_step now (Op_listener_error e) r = server_listener_error now r e"
| "status_step now Op_listener_stopped r = Some (server_listener_stopped r)"
| "status_step now (Op_client_add n a) r = Some (client_add r n a)"
| "status_step now (Op_server_add n) r = Some (server_add r n)"
| "status_step now (Op_remove n) r = Some (remove_service r n)"
| "status_step now (Op_client_connecting n) r = client_connecting r n"
| "status_step now (Op_client_resolved n a) r = client_resolved r n a"
| "status_step now (Op_client_connected n) r = client_connected now r n"
| "status_step now (Op_client_retrying n e) r = client_retrying now r n e"
| "status_step now (Op_client_stopped n) r = client_stopped r n"
| "status_step now (Op_server_connected n a) r = Some (fst (server_connected now r n a))"
| "status_step now (Op_server_disconnected n a t d) r = server_disconnected now r n a t d"

fun status_run :: "(u64 \<times> status_op) list \<Rightarrow> runtime_snapshot \<Rightarrow> runtime_snapshot option" where
  "status_run [] r = Some r"
| "status_run ((now, c) # cs) r = Option.bind (status_step now c r) (status_run cs)"

section \<open>What a snapshot always satisfies\<close>

definition event_ok :: "runtime_event option \<Rightarrow> bool" where
  "event_ok e = (case e of None \<Rightarrow> True | Some x \<Rightarrow> length (message x) \<le> 512)"

fun service_ok :: "runtime_service_snapshot \<Rightarrow> bool" where
  "service_ok (Client c) \<longleftrightarrow>
     (cs_state c = C_Connected \<longrightarrow> last_error c = None \<and> last_connected_at_unix_ms c \<noteq> None) \<and>
     (cs_state c = C_Retrying \<longrightarrow> last_error c \<noteq> None) \<and> event_ok (last_error c)"
| "service_ok (Server s) \<longleftrightarrow>
     ss_state s \<noteq> S_Stopped \<and>
     (ss_state s = S_Connected \<longleftrightarrow> control_channel_source s \<noteq> None) \<and>
     (ss_state s = S_Connected \<longleftrightarrow> connected_since_unix_ms s \<noteq> None) \<and>
     (ss_state s = S_Connected \<longrightarrow> last_disconnected_or_error s = None) \<and>
     event_ok (last_disconnected_or_error s)"

definition listener_ok :: "server_listener_snapshot option \<Rightarrow> bool" where
  "listener_ok l = (case l of None \<Rightarrow> True | Some x \<Rightarrow>
     event_ok (sl_last_error x) \<and> (sl_state x \<in> {L_Pending, L_Listening} \<longrightarrow> sl_last_error x = None) \<and>
     (sl_state x = L_Error \<longrightarrow> sl_last_error x \<noteq> None))"

definition status_inv :: "runtime_snapshot \<Rightarrow> bool" where
  "status_inv r \<longleftrightarrow> (\<forall>n s. rs_services r n = Some s \<longrightarrow> service_ok s) \<and> listener_ok (rs_server_listener r)"

named_theorems status_defs \<open>the registry operations\<close>

lemmas [status_defs] = server_listener_pending_def server_listener_listening_def server_listener_error_def
  server_listener_stopped_def client_add_def server_add_def remove_service_def client_connecting_def
  client_resolved_def client_connected_def client_retrying_def client_stopped_def server_connected_def
  server_disconnected_def with_client_def with_server_def new_client_status_def new_server_status_def

lemma safe_error_bound: "safe_error now err = Some e \<Longrightarrow> event_ok (Some e)"
  by (auto simp: safe_error_def event_ok_def dest: truncate_str_length)

lemma status_inv_update:
  "status_inv r \<Longrightarrow> service_ok s \<Longrightarrow> status_inv (r\<lparr>rs_services := (rs_services r)(n \<mapsto> s)\<rparr>)"
  by (simp add: status_inv_def)

lemma status_inv_listener:
  "status_inv r \<Longrightarrow> listener_ok l \<Longrightarrow> status_inv (r\<lparr>rs_server_listener := l\<rparr>)"
  by (simp add: status_inv_def)

lemma status_invD: "status_inv r \<Longrightarrow> rs_services r n = Some s \<Longrightarrow> service_ok s"
  by (simp add: status_inv_def)

lemma with_client_cases:
  assumes "with_client r n f = Some r'"
  obtains "r' = r"
  | c c' where "rs_services r n = Some (Client c)" "f c = Some c'"
      "r' = r\<lparr>rs_services := (rs_services r)(n \<mapsto> Client c')\<rparr>"
proof (cases "rs_services r n")
  case None
  then show ?thesis using assms that(1) by (simp add: with_client_def)
next
  case (Some s)
  show ?thesis
  proof (cases "\<exists>x. s = Client x")
    case True
    then obtain x where x: "s = Client x" ..
    with Some assms obtain y where "f x = Some y" and r': "r' = r\<lparr>rs_services := (rs_services r)(n \<mapsto> Client y)\<rparr>"
      unfolding with_client_def by auto
    then show ?thesis using that(2) [OF Some [unfolded x]] by simp
  next
    case False
    with Some assms have "r' = r" by (cases s) (simp_all add: with_client_def)
    then show ?thesis by (rule that(1))
  qed
qed

lemma with_server_cases:
  assumes "with_server r n f = Some r'"
  obtains "r' = r"
  | s s' where "rs_services r n = Some (Server s)" "f s = Some s'"
      "r' = r\<lparr>rs_services := (rs_services r)(n \<mapsto> Server s')\<rparr>"
proof (cases "rs_services r n")
  case None
  then show ?thesis using assms that(1) by (simp add: with_server_def)
next
  case (Some s)
  show ?thesis
  proof (cases "\<exists>x. s = Server x")
    case True
    then obtain x where x: "s = Server x" ..
    with Some assms obtain y where "f x = Some y" and r': "r' = r\<lparr>rs_services := (rs_services r)(n \<mapsto> Server y)\<rparr>"
      unfolding with_server_def by auto
    then show ?thesis using that(2) [OF Some [unfolded x]] by simp
  next
    case False
    with Some assms have "r' = r" by (cases s) (simp_all add: with_server_def)
    then show ?thesis by (rule that(1))
  qed
qed

lemma with_client_inv:
  assumes "status_inv r" "with_client r n f = Some r'"
    and "\<And>c c'. service_ok (Client c) \<Longrightarrow> f c = Some c' \<Longrightarrow> service_ok (Client c')"
  shows "status_inv r'"
  using assms(2)
proof (cases rule: with_client_cases)
  case 1
  with assms(1) show ?thesis by simp
next
  case (2 c c')
  then show ?thesis using assms(3) status_invD [OF assms(1)] status_inv_update [OF assms(1)] by metis
qed

lemma with_server_inv:
  assumes "status_inv r" "with_server r n f = Some r'"
    and "\<And>c c'. service_ok (Server c) \<Longrightarrow> f c = Some c' \<Longrightarrow> service_ok (Server c')"
  shows "status_inv r'"
  using assms(2)
proof (cases rule: with_server_cases)
  case 1
  with assms(1) show ?thesis by simp
next
  case (2 c c')
  then show ?thesis using assms(3) status_invD [OF assms(1)] status_inv_update [OF assms(1)] by metis
qed

lemma client_ops_inv:
  assumes "status_inv r"
  shows "client_connecting r n = Some r' \<Longrightarrow> status_inv r'"
    "client_resolved r n a = Some r' \<Longrightarrow> status_inv r'"
    "client_connected now r n = Some r' \<Longrightarrow> status_inv r'"
    "client_retrying now r n e = Some r' \<Longrightarrow> status_inv r'"
    "client_stopped r n = Some r' \<Longrightarrow> status_inv r'"
  unfolding client_connecting_def client_resolved_def client_connected_def client_retrying_def client_stopped_def
  by (erule with_client_inv [OF assms], auto simp: event_ok_def dest: safe_error_bound)+

lemma server_disconnected_inv:
  assumes "status_inv r" "server_disconnected now r n a t d = Some r'"
  shows "status_inv r'"
  using assms(2) unfolding server_disconnected_def
proof (rule with_server_inv [OF assms(1)])
  fix c c'
  assume "service_ok (Server c)"
    "(if control_channel_source c \<noteq> Some a \<or> connected_since_unix_ms c \<noteq> Some t then Some c
      else let cleared = c\<lparr>ss_state := S_Waiting, control_channel_source := None, connected_since_unix_ms := None\<rparr>
           in case d of None \<Rightarrow> Some (cleared\<lparr>last_disconnected_or_error := None\<rparr>)
              | Some d \<Rightarrow> map_option (\<lambda>e. cleared\<lparr>last_disconnected_or_error := Some e\<rparr>) (safe_error now d)) = Some c'"
  then show "service_ok (Server c')"
    by (cases d) (auto simp: Let_def event_ok_def dest: safe_error_bound split: if_splits)
qed

lemma server_connected_inv:
  assumes "status_inv r"
  shows "status_inv (fst (server_connected now r n a))"
proof (cases "rs_services r n")
  case None
  then show ?thesis using assms by (simp add: server_connected_def)
next
  case (Some s)
  then show ?thesis using assms
    by (cases s) (simp_all add: server_connected_def status_inv_update event_ok_def)
qed

lemma listener_ops_inv:
  assumes "status_inv r"
  shows "status_inv (server_listener_pending r)" "status_inv (server_listener_listening r)"
    "status_inv (server_listener_stopped r)"
    "server_listener_error now r e = Some r' \<Longrightarrow> status_inv r'"
proof -
  have l: "rs_server_listener r = Some x \<Longrightarrow> event_ok (sl_last_error x)" for x
    using assms by (simp add: status_inv_def listener_ok_def)
  show "status_inv (server_listener_pending r)" "status_inv (server_listener_listening r)"
    using assms by (auto simp: server_listener_pending_def server_listener_listening_def listener_ok_def
        event_ok_def intro!: status_inv_listener split: option.splits)
  show "status_inv (server_listener_stopped r)"
    using assms l by (auto simp: server_listener_stopped_def listener_ok_def intro!: status_inv_listener split: option.splits)
  show "server_listener_error now r e = Some r' \<Longrightarrow> status_inv r'"
    using assms by (auto simp: server_listener_error_def listener_ok_def dest: safe_error_bound
        intro!: status_inv_listener split: option.splits)
qed

lemma add_remove_inv:
  assumes "status_inv r"
  shows "status_inv (client_add r n a)" "status_inv (server_add r n)" "status_inv (remove_service r n)"
  using assms
  by (simp_all add: client_add_def server_add_def status_inv_update new_client_status_def
      new_server_status_def event_ok_def remove_service_def) (simp add: status_inv_def)

lemma status_step_inv:
  assumes "status_inv r" "status_step now c r = Some r'"
  shows "status_inv r'"
proof (cases c)
  case Op_listener_pending
  then show ?thesis using assms listener_ops_inv(1) by auto
next
  case Op_listener_listening
  then show ?thesis using assms listener_ops_inv(2) by auto
next
  case (Op_listener_error e)
  then show ?thesis using assms(2) by (auto intro: listener_ops_inv(4) [OF assms(1)])
next
  case Op_listener_stopped
  then show ?thesis using assms listener_ops_inv(3) by auto
next
  case (Op_client_add n a)
  then show ?thesis using assms add_remove_inv(1) by auto
next
  case (Op_server_add n)
  then show ?thesis using assms add_remove_inv(2) by auto
next
  case (Op_remove n)
  then show ?thesis using assms add_remove_inv(3) by auto
next
  case (Op_client_connecting n)
  then show ?thesis using assms(2) by (auto intro: client_ops_inv(1) [OF assms(1)])
next
  case (Op_client_resolved n a)
  then show ?thesis using assms(2) by (auto intro: client_ops_inv(2) [OF assms(1)])
next
  case (Op_client_connected n)
  then show ?thesis using assms(2) by (auto intro: client_ops_inv(3) [OF assms(1)])
next
  case (Op_client_retrying n e)
  then show ?thesis using assms(2) by (auto intro: client_ops_inv(4) [OF assms(1)])
next
  case (Op_client_stopped n)
  then show ?thesis using assms(2) by (auto intro: client_ops_inv(5) [OF assms(1)])
next
  case (Op_server_connected n a)
  then show ?thesis using assms server_connected_inv by auto
next
  case (Op_server_disconnected n a t d)
  then show ?thesis using assms(2) by (auto intro: server_disconnected_inv [OF assms(1)])
qed

lemma status_run_inv: "status_inv r \<Longrightarrow> status_run cs r = Some r' \<Longrightarrow> status_inv r'"
proof (induction cs r rule: status_run.induct)
  case (1 r)
  then show ?case by simp
next
  case (2 now c cs r)
  then show ?case using status_step_inv by (auto simp: bind_eq_Some_conv)
qed

lemma registries_inv: "status_inv (client_registry pid now a ns)" "status_inv (server_registry pid now ns)"
  by (auto simp: status_inv_def client_registry_def server_registry_def listener_ok_def event_ok_def
      new_client_status_def new_server_status_def dest!: map_of_SomeD)

section \<open>Ownership of a server entry\<close>

text \<open>
  The operations that leave the entry of service \<open>n\<close> to the channel that was connected from
  \<open>a\<close> at time \<open>t\<close>: everything but a new registration, a removal, a newer connection and
  that channel's own disconnection.
\<close>

fun leaves_owner :: "string \<Rightarrow> socket_addr \<Rightarrow> u64 \<Rightarrow> status_op \<Rightarrow> bool" where
  "leaves_owner n a t (Op_client_add m _) \<longleftrightarrow> m \<noteq> n"
| "leaves_owner n a t (Op_server_add m) \<longleftrightarrow> m \<noteq> n"
| "leaves_owner n a t (Op_remove m) \<longleftrightarrow> m \<noteq> n"
| "leaves_owner n a t (Op_server_connected m _) \<longleftrightarrow> m \<noteq> n"
| "leaves_owner n a t (Op_server_disconnected m b u _) \<longleftrightarrow> (m, b, u) \<noteq> (n, a, t)"
| "leaves_owner n a t _ \<longleftrightarrow> True"

definition owned_by :: "runtime_snapshot \<Rightarrow> string \<Rightarrow> socket_addr \<Rightarrow> u64 \<Rightarrow> bool" where
  "owned_by r n a t \<longleftrightarrow> (\<exists>s. rs_services r n = Some (Server s) \<and> ss_state s = S_Connected \<and>
     control_channel_source s = Some a \<and> connected_since_unix_ms s = Some t)"

lemma with_client_other:
  assumes "owned_by r n a t" "with_client r m f = Some r'"
  shows "owned_by r' n a t"
  using assms(2)
proof (cases rule: with_client_cases)
  case (2 c c')
  with assms(1) have "m \<noteq> n" by (auto simp: owned_by_def)
  with 2 assms(1) show ?thesis by (simp add: owned_by_def)
qed (use assms(1) in simp)

lemma with_server_other:
  assumes "owned_by r n a t" "with_server r m f = Some r'"
    and "\<And>s s'. m = n \<Longrightarrow> rs_services r n = Some (Server s) \<Longrightarrow> control_channel_source s = Some a \<Longrightarrow>
      connected_since_unix_ms s = Some t \<Longrightarrow> f s = Some s' \<Longrightarrow> s' = s"
  shows "owned_by r' n a t"
  using assms(2)
proof (cases rule: with_server_cases)
  case (2 s s')
  show ?thesis
  proof (cases "m = n")
    case True
    with 2 assms(1) have "control_channel_source s = Some a" "connected_since_unix_ms s = Some t"
      by (auto simp: owned_by_def)
    then have "s' = s" using assms(3) True 2 by simp
    with 2 True assms(1) show ?thesis by (simp add: owned_by_def)
  next
    case False
    with 2 assms(1) show ?thesis by (simp add: owned_by_def)
  qed
qed (use assms(1) in simp)

lemma listener_ops_services:
  "rs_services (server_listener_pending r) = rs_services r"
  "rs_services (server_listener_listening r) = rs_services r"
  "rs_services (server_listener_stopped r) = rs_services r"
  "server_listener_error now r e = Some r' \<Longrightarrow> rs_services r' = rs_services r"
  by (auto simp: server_listener_pending_def server_listener_listening_def server_listener_stopped_def
      server_listener_error_def split: option.splits)

lemma owned_by_services: "rs_services r' = rs_services r \<Longrightarrow> owned_by r' n a t = owned_by r n a t"
  by (simp add: owned_by_def)

lemma disconnect_other:
  assumes "owned_by r n a t" "(m, b, u) \<noteq> (n, a, t)" "server_disconnected now r m b u d = Some r'"
  shows "owned_by r' n a t"
  using assms(3) unfolding server_disconnected_def
  by (rule with_server_other [OF assms(1)]) (use assms(2) in \<open>auto split: if_splits\<close>)

lemma add_remove_owner:
  assumes "owned_by r n a t" "m \<noteq> n"
  shows "owned_by (client_add r m x) n a t" "owned_by (server_add r m) n a t"
    "owned_by (remove_service r m) n a t"
  using assms by (simp_all add: owned_by_def client_add_def server_add_def remove_service_def)

lemma client_ops_owner:
  assumes "owned_by r n a t"
  shows "client_connecting r m = Some r' \<Longrightarrow> owned_by r' n a t"
    "client_resolved r m b = Some r' \<Longrightarrow> owned_by r' n a t"
    "client_connected now r m = Some r' \<Longrightarrow> owned_by r' n a t"
    "client_retrying now r m e = Some r' \<Longrightarrow> owned_by r' n a t"
    "client_stopped r m = Some r' \<Longrightarrow> owned_by r' n a t"
  unfolding client_connecting_def client_resolved_def client_connected_def client_retrying_def client_stopped_def
  by (erule with_client_other [OF assms])+

lemma connected_other_owner:
  assumes "owned_by r n a t" "m \<noteq> n"
  shows "owned_by (fst (server_connected now r m b)) n a t"
proof (cases "rs_services r m")
  case None
  then show ?thesis using assms by (simp add: server_connected_def)
next
  case (Some s)
  then show ?thesis using assms by (cases s) (simp_all add: server_connected_def owned_by_def)
qed

lemma status_step_owner:
  assumes "owned_by r n a t" "leaves_owner n a t c" "status_step now c r = Some r'"
  shows "owned_by r' n a t"
proof (cases c)
  case Op_listener_pending
  then show ?thesis
    using assms(1,3) owned_by_services [OF listener_ops_services(1) [of r]] by auto
next
  case Op_listener_listening
  then show ?thesis
    using assms(1,3) owned_by_services [OF listener_ops_services(2) [of r]] by auto
next
  case Op_listener_stopped
  then show ?thesis
    using assms(1,3) owned_by_services [OF listener_ops_services(3) [of r]] by auto
next
  case (Op_listener_error e)
  then show ?thesis
    using assms(1,3) owned_by_services [OF listener_ops_services(4) [of now r e r']] by simp
next
  case (Op_client_add m x)
  then show ?thesis using assms(2,3) add_remove_owner(1) [OF assms(1)] by auto
next
  case (Op_server_add m)
  then show ?thesis using assms(2,3) add_remove_owner(2) [OF assms(1)] by auto
next
  case (Op_remove m)
  then show ?thesis using assms(2,3) add_remove_owner(3) [OF assms(1)] by auto
next
  case (Op_client_connecting m)
  then show ?thesis using assms(3) by (auto intro: client_ops_owner(1) [OF assms(1)])
next
  case (Op_client_resolved m b)
  then show ?thesis using assms(3) by (auto intro: client_ops_owner(2) [OF assms(1)])
next
  case (Op_client_connected m)
  then show ?thesis using assms(3) by (auto intro: client_ops_owner(3) [OF assms(1)])
next
  case (Op_client_retrying m e)
  then show ?thesis using assms(3) by (auto intro: client_ops_owner(4) [OF assms(1)])
next
  case (Op_client_stopped m)
  then show ?thesis using assms(3) by (auto intro: client_ops_owner(5) [OF assms(1)])
next
  case (Op_server_connected m b)
  then show ?thesis using assms(2,3) connected_other_owner [OF assms(1)] by auto
next
  case (Op_server_disconnected m b u d)
  then show ?thesis using assms(2,3) disconnect_other [OF assms(1)] by simp
qed

lemma status_run_owner:
  "owned_by r n a t \<Longrightarrow> list_all (\<lambda>e. leaves_owner n a t (snd e)) cs \<Longrightarrow> status_run cs r = Some r' \<Longrightarrow>
   owned_by r' n a t"
proof (induction cs r rule: status_run.induct)
  case (1 r)
  then show ?case by simp
next
  case (2 now c cs r)
  from "2.prems"(3) obtain r1 where "status_step now c r = Some r1" "status_run cs r1 = Some r'"
    by (auto simp: bind_eq_Some_conv)
  with 2 status_step_owner [of r n a t c now r1] show ?case by simp
qed

lemma server_connected_owns:
  assumes "rs_services r n = Some (Server s)"
  shows "server_connected now r n a = (fst (server_connected now r n a), Some now)"
    and "owned_by (fst (server_connected now r n a)) n a now"
  using assms by (simp_all add: server_connected_def owned_by_def)

lemma server_disconnected_owner:
  assumes "owned_by r n a t" "server_disconnected now r n a t d = Some r'"
  shows "\<exists>s. rs_services r' n = Some (Server s) \<and> ss_state s = S_Waiting \<and>
    control_channel_source s = None \<and> connected_since_unix_ms s = None"
  using assms
  by (cases d) (auto simp: owned_by_def server_disconnected_def with_server_def Let_def)

lemma server_disconnected_silent: "\<exists>r'. server_disconnected now r n a t None = Some r'"
proof (cases "rs_services r n")
  case (Some s)
  then show ?thesis by (cases s) (simp_all add: server_disconnected_def with_server_def Let_def)
qed (simp add: server_disconnected_def with_server_def)

section \<open>Properties\<close>

text \<open>
  C35. Every snapshot that the status endpoint can show is consistent: a connected client has a
  connection time and no error, a retrying one has an error, a server service is connected
  exactly when its source and its connection time are known (and is never \<open>Stopped\<close>), the
  listener shows an error exactly in its error state, and every diagnostic is at most 512
  bytes; whatever the order of the operations of all tasks.
\<close>

theorem status_always_consistent:
  assumes "r0 = client_registry pid now addr names \<or> r0 = server_registry pid now names"
    and "status_run cs r0 = Some r"
  shows "status_inv r"
  using assms status_run_inv registries_inv by blast

theorem status_always_consistent_witness:
  "\<exists>r. status_run [(5, Op_server_connected ''ssh'' (V4 1 2)), (6, Op_server_disconnected ''ssh'' (V4 1 2) 5 None)]
         (server_registry 1 0 [''ssh'']) = Some r \<and> status_inv r"
proof -
  obtain r where r: "status_run [(5, Op_server_connected ''ssh'' (V4 1 2)), (6, Op_server_disconnected ''ssh'' (V4 1 2) 5 None)]
         (server_registry 1 0 [''ssh'']) = Some r"
    by (simp add: server_registry_def server_connected_def server_disconnected_def with_server_def
        new_server_status_def Let_def)
  then have "status_inv r"
    using status_always_consistent [of "server_registry 1 0 [''ssh'']" 1 0 "[]" "[''ssh'']"] by blast
  with r show ?thesis by blast
qed

text \<open>
  A superseded channel never spoils its successor's entry: once a control channel is
  registered, the entry stays connected with that channel's source and time through any
  operations of other tasks (late disconnections of older channels included), until the
  service is re-registered or removed, a newer channel connects, or the channel itself
  disconnects, which turns the entry to waiting.
\<close>

theorem superseded_channel_keeps_out:
  assumes "rs_services r n = Some (Server s)"
    and "list_all (\<lambda>e. leaves_owner n a t (snd e)) cs"
    and "status_run cs (fst (server_connected t r n a)) = Some r1"
    and "server_disconnected t' r1 n a t d = Some r2"
  shows "owned_by r1 n a t \<and>
    (\<exists>s'. rs_services r2 n = Some (Server s') \<and> ss_state s' = S_Waiting \<and>
       control_channel_source s' = None \<and> connected_since_unix_ms s' = None)"
  using status_run_owner [OF server_connected_owns(2) [OF assms(1)] assms(2,3)]
    server_disconnected_owner [OF _ assms(4)] by blast

theorem superseded_channel_keeps_out_witness:
  "\<exists>r1 r2. status_run [(9, Op_server_disconnected ''ssh'' (V4 1 1) 4 (Some ''old''))]
       (fst (server_connected 8 (fst (server_connected 4 (server_registry 1 0 [''ssh'']) ''ssh'' (V4 1 1))) ''ssh'' (V4 1 2))) = Some r1 \<and>
     server_disconnected 10 r1 ''ssh'' (V4 1 2) 8 None = Some r2 \<and>
     owned_by r1 ''ssh'' (V4 1 2) 8"
proof -
  let ?r = "fst (server_connected 4 (server_registry 1 0 [''ssh'']) ''ssh'' (V4 1 1))"
  let ?cs = "[(9, Op_server_disconnected ''ssh'' (V4 1 1) 4 (Some ''old''))]"
  obtain s where s: "rs_services ?r ''ssh'' = Some (Server s)"
    by (simp add: server_registry_def server_connected_def new_server_status_def)
  obtain r1 where r1: "status_run ?cs (fst (server_connected 8 ?r ''ssh'' (V4 1 2))) = Some r1"
    by (simp add: server_registry_def server_connected_def server_disconnected_def with_server_def
        new_server_status_def Let_def)
  obtain r2 where r2: "server_disconnected 10 r1 ''ssh'' (V4 1 2) 8 None = Some r2"
    using server_disconnected_silent by blast
  have "list_all (\<lambda>e. leaves_owner ''ssh'' (V4 1 2) 8 (snd e)) ?cs" by simp
  from superseded_channel_keeps_out [OF s this r1 r2] r1 r2 show ?thesis by blast
qed

text \<open>
  Recording an error panics exactly when its text is longer than 512 bytes and byte 512 is
  inside a UTF-8 sequence; otherwise the diagnostic is the text's first 512 bytes.
\<close>

theorem safe_error_panics_exactly:
  "(safe_error now err = None) = (512 < length err \<and> utf8_continuation (err ! 512)) \<and>
   safe_error now err \<in> {None, Some \<lparr>at_unix_ms = now, message = take 512 err\<rparr>}"
  by (auto simp: safe_error_def truncate_str_def is_char_boundary_def)

text \<open>
  The client's entries have no owner: when a service is replaced, the old task's
  \<open>client_stopped\<close> can arrive after the new task has connected, and hides it.
\<close>

lemma client_stop_hides_new_channel:
  "\<exists>r c. status_run [(1, Op_client_add ''ssh'' ''h:1''), (2, Op_client_connecting ''ssh''),
        (3, Op_client_connected ''ssh''), (4, Op_client_stopped ''ssh'')]
      (client_registry 1 0 ''h:1'' [''ssh'']) = Some r \<and>
    rs_services r ''ssh'' = Some (Client c) \<and> cs_state c = C_Stopped \<and>
    last_connected_at_unix_ms c = Some 3"
  by (simp add: client_registry_def client_add_def client_connecting_def client_connected_def
      client_stopped_def with_client_def new_client_status_def)

end
