(* ===== verification/Transport.thy ===== *)
theory Transport
  imports Config
begin

text \<open>
  \<open>src/helper.rs\<close> and \<open>src/transport/\<close>: name resolution, the choice of a UDP address, TCP
  connections through a proxy, socket options, and the constructors, accepts, handshakes
  and connects of the four transports. Sockets and the cryptographic libraries are
  parameters (records of functions over abstract stream types); the program's own logic,
  the order of the calls and every error it raises are modelled.
\<close>

section \<open>Helpers\<close>

datatype connect_target =
    To_Addr socket_addr
  | To_Pair string u16
  | To_Name string

record 's net =
  lookup_host :: "string \<Rightarrow> anyhow + socket_addr list"
  tcp_connect :: "connect_target \<Rightarrow> anyhow + 's"
  socks5_connect :: "'s \<Rightarrow> string \<times> u16 \<Rightarrow> (string \<times> string) option \<Rightarrow> anyhow + 's"
  http_connect :: "'s \<Rightarrow> string \<Rightarrow> u16 \<Rightarrow> anyhow + 's"
  http_connect_basic_auth :: "'s \<Rightarrow> string \<Rightarrow> u16 \<Rightarrow> string \<Rightarrow> string \<Rightarrow> anyhow + 's"
  udp_bind :: "string \<Rightarrow> anyhow + 's"
  udp_socket_connect :: "'s \<Rightarrow> socket_addr \<Rightarrow> anyhow + 's"

definition to_socket_addr :: "'s net \<Rightarrow> string \<Rightarrow> anyhow + socket_addr" where
  "to_socket_addr N addr =
     rbind (lookup_host N addr) (\<lambda>as.
     ok_or (Err ''Failed to lookup the host'') (case as of [] \<Rightarrow> None | a # _ \<Rightarrow> Some a))"

definition host_port_pair :: "string \<Rightarrow> anyhow + string \<times> u16" where
  "host_port_pair s =
     rbind (ok_or (Err (''Missing `:` in the address `'' @ s @ ''`'')) (rsplit_once CHR '':'' s)) (\<lambda>(h, p).
     rbind (ok_or (Err ''ParseIntError'') (parse_u16 p)) (\<lambda>port. Inr (h, port)))"

definition udp_choose :: "'s net \<Rightarrow> string \<Rightarrow> bool \<Rightarrow> anyhow + socket_addr \<times> string" where
  "udp_choose N addr prefer_ipv6 =
     (if \<not> prefer_ipv6 then
        rbind (to_socket_addr N addr) (\<lambda>a.
        Inr (a, case a of V4 _ _ \<Rightarrow> ''0.0.0.0:0'' | V6 _ _ _ _ \<Rightarrow> '':::0''))
      else
        rbind (lookup_host N addr) (\<lambda>all.
        case find is_ipv6 all of
          Some a \<Rightarrow> Inr (a, '':::0'')
        | None \<Rightarrow> (case find is_ipv4 all of
              None \<Rightarrow> Inl (Err ''Failed to lookup the host'')
            | Some a \<Rightarrow> Inr (a, ''0.0.0.0:0''))))"

definition udp_connect :: "'s net \<Rightarrow> string \<Rightarrow> bool \<Rightarrow> anyhow + 's" where
  "udp_connect N addr prefer_ipv6 =
     rbind (udp_choose N addr prefer_ipv6) (\<lambda>(socket_addr, bind_addr).
     rbind (udp_bind N bind_addr) (\<lambda>s. udp_socket_connect N s socket_addr))"

record addr_maybe_cached =
  amc_addr :: string
  amc_socket_addr :: "socket_addr option"

definition AddrMaybeCached_new :: "string \<Rightarrow> addr_maybe_cached" where
  "AddrMaybeCached_new addr = \<lparr>amc_addr = addr, amc_socket_addr = None\<rparr>"

definition amc_resolve :: "'s net \<Rightarrow> addr_maybe_cached \<Rightarrow> addr_maybe_cached \<times> (anyhow + unit)" where
  "amc_resolve N a =
     (case to_socket_addr N (amc_addr a) of
        Inr s \<Rightarrow> (a\<lparr>amc_socket_addr := Some s\<rparr>, Inr ())
      | Inl e \<Rightarrow> (a, Inl e))"

definition amc_display :: "(socket_addr \<Rightarrow> string) \<Rightarrow> addr_maybe_cached \<Rightarrow> string" where
  "amc_display show_addr a =
     (case amc_socket_addr a of Some s \<Rightarrow> show_addr s | None \<Rightarrow> amc_addr a)"

definition proxy_auth :: "url \<Rightarrow> (string \<times> string) option" where
  "proxy_auth u =
     (if url_username u \<noteq> [] \<or> url_password u \<noteq> None
      then Some (url_username u, case url_password u of None \<Rightarrow> [] | Some p \<Rightarrow> p)
      else None)"

definition tcp_connect_with_proxy ::
  "'s net \<Rightarrow> addr_maybe_cached \<Rightarrow> url option \<Rightarrow> anyhow + 's" where
  "tcp_connect_with_proxy N addr proxy =
     (case proxy of
        Some u \<Rightarrow>
          rbind (ok_or (Err ''The proxy url should have a host field'') (url_host_str u)) (\<lambda>host.
          rbind (ok_or (Err ''The proxy url should have a port field'') (url_port u)) (\<lambda>port.
          rbind (tcp_connect N (To_Pair host port)) (\<lambda>s.
          let auth = proxy_auth u in
          if url_scheme u = ''socks5'' then
            rbind (host_port_pair (amc_addr addr)) (\<lambda>hp. socks5_connect N s hp auth)
          else if url_scheme u = ''http'' then
            rbind (host_port_pair (amc_addr addr)) (\<lambda>(h, p).
            case auth of
              Some (user, pass) \<Rightarrow> http_connect_basic_auth N s h p user pass
            | None \<Rightarrow> http_connect N s h p)
          else Inl (Err (''Unknown proxy scheme `'' @ url_scheme u @ ''`'')))))
      | None \<Rightarrow>
          (case amc_socket_addr addr of
             Some a \<Rightarrow> tcp_connect N (To_Addr a)
           | None \<Rightarrow> tcp_connect N (To_Name (amc_addr addr))))"

text \<open>
  \<open>retry_notify_with_deadline\<close>: the retry loop of the crate backoff races against the
  shutdown signal; which of the two is ready first is an input.
\<close>

datatype 'i race = Retried "anyhow + 'i" | Deadline

definition retry_notify_with_deadline :: "'i race \<Rightarrow> anyhow + 'i option" where
  "retry_notify_with_deadline r =
     (case r of Retried v \<Rightarrow> rbind v (\<lambda>x. Inr (Some x)) | Deadline \<Rightarrow> Inr None)"

definition write_and_flush ::
  "('c \<Rightarrow> 'd \<Rightarrow> anyhow + 'c) \<Rightarrow> ('c \<Rightarrow> anyhow + 'c) \<Rightarrow> 'c \<Rightarrow> 'd \<Rightarrow> anyhow + 'c" where
  "write_and_flush write_all flush conn data =
     rbind (with_context (Ctx ''Failed to write data'') (write_all conn data)) (\<lambda>c.
     with_context (Ctx ''Failed to flush data'') (flush c))"

section \<open>Socket options\<close>

record keepalive =
  keepalive_secs :: u64
  keepalive_interval :: u64

record socket_opts =
  so_nodelay :: "bool option"
  so_keepalive :: "keepalive option"

definition opts_none :: socket_opts where
  "opts_none = \<lparr>so_nodelay = None, so_keepalive = None\<rparr>"

definition opts_for_control_channel :: socket_opts where
  "opts_for_control_channel = opts_none\<lparr>so_nodelay := Some True\<rparr>"

definition opts_from_cfg :: "tcp_config \<Rightarrow> socket_opts" where
  "opts_from_cfg cfg =
     \<lparr>so_nodelay = Some (tcp_nodelay cfg),
      so_keepalive = Some \<lparr>keepalive_secs = tcp_keepalive_secs cfg,
                           keepalive_interval = tcp_keepalive_interval cfg\<rparr>\<rparr>"

definition opts_from_client_cfg :: "client_service_config \<Rightarrow> socket_opts" where
  "opts_from_client_cfg cfg = opts_none\<lparr>so_nodelay := csc_nodelay cfg\<rparr>"

definition opts_from_server_cfg :: "server_service_config \<Rightarrow> socket_opts" where
  "opts_from_server_cfg cfg = opts_none\<lparr>so_nodelay := ssc_nodelay cfg\<rparr>"

text \<open>
  Applying options is a sequence of system calls; a failure is logged and the next call is
  still made. The state of a socket is the value of its two options.
\<close>

datatype sockopt_call = Set_keepalive u64 u64 | Set_nodelay bool

definition try_set_tcp_keepalive :: "u64 \<Rightarrow> u64 \<Rightarrow> sockopt_call" where
  "try_set_tcp_keepalive duration interval = Set_keepalive duration interval"

definition opts_apply :: "socket_opts \<Rightarrow> sockopt_call list" where
  "opts_apply o' =
     (case so_keepalive o' of None \<Rightarrow> []
      | Some k \<Rightarrow> [try_set_tcp_keepalive (keepalive_secs k) (keepalive_interval k)]) @
     (case so_nodelay o' of None \<Rightarrow> [] | Some b \<Rightarrow> [Set_nodelay b])"

fun do_sockopt :: "sockopt_call \<Rightarrow> (u64 \<times> u64) option \<times> bool \<Rightarrow> (u64 \<times> u64) option \<times> bool" where
  "do_sockopt (Set_keepalive t i) (k, n) = (Some (t, i), n)"
| "do_sockopt (Set_nodelay b) (k, n) = (k, b)"

section \<open>TCP\<close>

record tcp_transport =
  tcp_socket_opts :: socket_opts
  tcp_cfg :: tcp_config

definition tcp_new :: "transport_config \<Rightarrow> anyhow + tcp_transport" where
  "tcp_new c = Inr \<lparr>tcp_socket_opts = opts_from_cfg (tr_tcp c), tcp_cfg = tr_tcp c\<rparr>"

text \<open>A stream with the option calls made on it so far.\<close>

type_synonym 's sock = "'s \<times> sockopt_call list"

definition tcp_hint :: "'s sock \<Rightarrow> socket_opts \<Rightarrow> 's sock" where
  "tcp_hint conn opt = (fst conn, snd conn @ opts_apply opt)"

definition tcp_accept ::
  "tcp_transport \<Rightarrow> anyhow + 's \<times> socket_addr \<Rightarrow> anyhow + 's sock \<times> socket_addr" where
  "tcp_accept t accepted =
     rbind accepted (\<lambda>(s, addr). Inr ((s, opts_apply (tcp_socket_opts t)), addr))"

definition tcp_handshake :: "'s sock \<Rightarrow> anyhow + 's sock" where
  "tcp_handshake conn = Inr conn"

definition tcp_transport_connect :: "'s net \<Rightarrow> tcp_transport \<Rightarrow> addr_maybe_cached \<Rightarrow> anyhow + 's sock" where
  "tcp_transport_connect N t addr =
     rbind (tcp_connect_with_proxy N addr (tcp_proxy (tcp_cfg t))) (\<lambda>s.
     Inr (s, opts_apply (tcp_socket_opts t)))"

section \<open>TLS (rustls)\<close>

text \<open>
  What the code takes from the file system, \<open>p12\<close>, \<open>rustls_pemfile\<close>, \<open>rustls\<close> and the
  native root store: certificates are of type \<open>'cert\<close>, configurations \<open>'scfg\<close> and \<open>'ccfg\<close>.
\<close>

record ('cert, 'key, 'scfg, 'ccfg) tls_lib =
  fs_read :: "string \<Rightarrow> anyhow + bytes"
  pfx_parse :: "bytes \<Rightarrow> anyhow + bytes"
  pfx_cert_bags :: "bytes \<Rightarrow> string \<Rightarrow> anyhow + 'cert list"
  pfx_key_bags :: "bytes \<Rightarrow> string \<Rightarrow> anyhow + 'key list"
  single_cert_config :: "'cert list \<Rightarrow> 'key \<Rightarrow> anyhow + 'scfg"
  pem_certs :: "string \<Rightarrow> anyhow + (anyhow + 'cert) list"
  native_certs :: "anyhow + 'cert list"
  add_root :: "'cert list \<Rightarrow> 'cert \<Rightarrow> anyhow + 'cert list"
  client_with_roots :: "'cert list \<Rightarrow> 'ccfg"

definition load_server_config ::
  "('cert, 'key, 'scfg, 'ccfg) tls_lib \<Rightarrow> tls_config \<Rightarrow> anyhow + 'scfg option" where
  "load_server_config L config =
     (case tls_pkcs12 config of
        Some path \<Rightarrow>
          rbind (with_context (Ctx (''Failed to read `tls.pkcs12` '' @ path)) (fs_read L path)) (\<lambda>buf.
          rbind (pfx_parse L buf) (\<lambda>pfx.
          rbind (ok_or (Err ''Missing `tls.pkcs12_password`'') (tls_pkcs12_password config)) (\<lambda>pass.
          rbind (pfx_cert_bags L pfx (unmask pass)) (\<lambda>certs.
          rbind (pfx_key_bags L pfx (unmask pass)) (\<lambda>keys.
          rbind (ok_or (Err (''No private key found in `tls.pkcs12` '' @ path))
                   (case keys of [] \<Rightarrow> None | k # _ \<Rightarrow> Some k)) (\<lambda>key.
          rbind (single_cert_config L certs key) (\<lambda>c. Inr (Some c))))))))
      | None \<Rightarrow> Inr None)"

fun add_roots ::
  "('cert, 'key, 'scfg, 'ccfg) tls_lib \<Rightarrow> string \<Rightarrow> 'cert list \<Rightarrow> (anyhow + 'cert) list \<Rightarrow>
   anyhow + 'cert list" where
  "add_roots L ctx roots [] = Inr roots"
| "add_roots L ctx roots (c # cs) =
     rbind c (\<lambda>cert.
     rbind (with_context (Ctx ctx) (add_root L roots cert)) (\<lambda>roots'.
     add_roots L ctx roots' cs))"

definition load_client_config ::
  "('cert, 'key, 'scfg, 'ccfg) tls_lib \<Rightarrow> tls_config \<Rightarrow> anyhow + 'ccfg option" where
  "load_client_config L config =
     rbind
       (case tls_trusted_root config of
          Some path \<Rightarrow>
            rbind (with_context (Ctx (''Failed to open `tls.trusted_root` '' @ path)) (pem_certs L path)) (\<lambda>certs.
            add_roots L (''Failed to trust a certificate in '' @ path) []
              (map (with_context (Ctx (''Failed to parse a certificate in '' @ path))) certs))
        | None \<Rightarrow>
            rbind (with_context (\<lambda>e. Err (''Failed to load native certs: '' @ err_display e)) (native_certs L)) (\<lambda>certs.
            add_roots L ''Failed to trust a native root certificate'' [] (map Inr certs)))
       (\<lambda>roots.
        if roots = [] then Inl (Err ''No root certificate available to verify the server'')
        else Inr (Some (client_with_roots L roots)))"

record ('scfg, 'ccfg) tls_transport =
  tlt_tcp :: tcp_transport
  tlt_config :: tls_config
  tlt_connector :: "'ccfg option"
  tlt_acceptor :: "'scfg option"

definition tls_new ::
  "('cert, 'key, 'scfg, 'ccfg) tls_lib \<Rightarrow> transport_config \<Rightarrow> anyhow + ('scfg, 'ccfg) tls_transport" where
  "tls_new L c =
     rbind (tcp_new c) (\<lambda>tcp.
     rbind (ok_or (Err ''Missing tls config'') (tr_tls c)) (\<lambda>config.
     rbind (if tls_trusted_root config = None \<and> tls_pkcs12 config \<noteq> None then Inr None
            else load_client_config L config) (\<lambda>connector.
     rbind (load_server_config L config) (\<lambda>acceptor.
     Inr \<lparr>tlt_tcp = tcp, tlt_config = config, tlt_connector = connector, tlt_acceptor = acceptor\<rparr>))))"

definition tls_accept ::
  "('scfg, 'ccfg) tls_transport \<Rightarrow> anyhow + 's \<times> socket_addr \<Rightarrow> anyhow + 's sock \<times> socket_addr" where
  "tls_accept t accepted =
     with_context (Ctx ''Failed to accept TCP connection'') (tcp_accept (tlt_tcp t) accepted)"

definition tls_handshake ::
  "('scfg \<Rightarrow> 's sock \<Rightarrow> anyhow + 't) \<Rightarrow> ('scfg, 'ccfg) tls_transport \<Rightarrow> 's sock \<Rightarrow> anyhow + 't" where
  "tls_handshake server_tls t conn =
     rbind (ok_or (Err ''Missing `tls.pkcs12` for running as a server'') (tlt_acceptor t)) (\<lambda>a.
     server_tls a conn)"

definition tls_connect ::
  "('cert, 'key, 'scfg, 'ccfg) tls_lib \<Rightarrow> 's net \<Rightarrow> (string \<Rightarrow> anyhow + 'name) \<Rightarrow>
   ('ccfg \<Rightarrow> 'name \<Rightarrow> 's sock \<Rightarrow> anyhow + 't) \<Rightarrow>
   ('scfg, 'ccfg) tls_transport \<Rightarrow> addr_maybe_cached \<Rightarrow> anyhow + 't" where
  "tls_connect L N server_name client_tls t addr =
     rbind (tcp_transport_connect N (tlt_tcp t) addr) (\<lambda>conn.
     rbind (case tlt_connector t of
              Some c \<Rightarrow> Inr c
            | None \<Rightarrow> rbind (load_client_config L (tlt_config t)) (\<lambda>c.
                ok_or (Err ''No tls client config available for running as a client'') c)) (\<lambda>connector.
     rbind (host_port_pair (amc_addr addr)) (\<lambda>(h, _).
     let host_name = (case tls_hostname (tlt_config t) of Some n \<Rightarrow> n | None \<Rightarrow> h) in
     rbind (server_name host_name) (\<lambda>n. client_tls connector n conn))))"

section \<open>TLS (native-tls)\<close>

record ('cert, 'ident, 'scfg, 'ccfg) native_tls_lib =
  nfs_read_to_string :: "string \<Rightarrow> anyhow + string"
  nfs_read :: "string \<Rightarrow> anyhow + bytes"
  certificate_from_pem :: "string \<Rightarrow> anyhow + 'cert"
  connector_build :: "'cert list \<Rightarrow> anyhow + 'ccfg"
  identity_from_pkcs12 :: "bytes \<Rightarrow> string \<Rightarrow> anyhow + 'ident"
  acceptor_new :: "'ident \<Rightarrow> anyhow + 'scfg"

definition native_tls_new ::
  "('cert, 'ident, 'scfg, 'ccfg) native_tls_lib \<Rightarrow> transport_config \<Rightarrow>
   anyhow + ('scfg, 'ccfg) tls_transport" where
  "native_tls_new L c =
     rbind (tcp_new c) (\<lambda>tcp.
     rbind (ok_or (Err ''Missing tls config'') (tr_tls c)) (\<lambda>config.
     rbind (case tls_trusted_root config of
              Some path \<Rightarrow>
                rbind (with_context (Ctx ''Failed to read the `tls.trusted_root`'')
                         (nfs_read_to_string L path)) (\<lambda>s.
                rbind (with_context (Ctx ''Failed to read certificate from `tls.trusted_root`'')
                         (certificate_from_pem L s)) (\<lambda>cert.
                rbind (connector_build L [cert]) (\<lambda>connector. Inr (Some connector))))
            | None \<Rightarrow> rbind (connector_build L []) (\<lambda>connector. Inr (Some connector))) (\<lambda>connector.
     rbind (case tls_pkcs12 config of
              Some path \<Rightarrow>
                rbind (ok_or (Err ''Missing `tls.pkcs12_password`'') (tls_pkcs12_password config)) (\<lambda>password.
                rbind (nfs_read L path) (\<lambda>buf.
                rbind (with_context (Ctx ''Failed to create identity'')
                         (identity_from_pkcs12 L buf (unmask password))) (\<lambda>ident.
                rbind (with_context (Ctx ''Failed to create the tls acceptor'') (acceptor_new L ident))
                  (\<lambda>a. Inr (Some a)))))
            | None \<Rightarrow> Inr None) (\<lambda>acceptor.
     Inr \<lparr>tlt_tcp = tcp, tlt_config = config, tlt_connector = connector, tlt_acceptor = acceptor\<rparr>))))"

definition native_tls_connect ::
  "'s net \<Rightarrow> ('ccfg \<Rightarrow> string \<Rightarrow> 's sock \<Rightarrow> anyhow + 't) \<Rightarrow> ('scfg, 'ccfg) tls_transport \<Rightarrow>
   addr_maybe_cached \<Rightarrow> anyhow + 't" where
  "native_tls_connect N client_tls t addr =
     rbind (tcp_transport_connect N (tlt_tcp t) addr) (\<lambda>conn.
     rbind (ok_or (Err ''No tls client config available for running as a client'') (tlt_connector t)) (\<lambda>connector.
     rbind (host_port_pair (amc_addr addr)) (\<lambda>(h, _).
     client_tls connector (case tls_hostname (tlt_config t) of Some n \<Rightarrow> n | None \<Rightarrow> h) conn)))"

section \<open>Noise\<close>

record 'params noise_lib =
  parse_pattern :: "string \<Rightarrow> anyhow + 'params"
  base64_decode :: "string \<Rightarrow> anyhow + bytes"
  generate_private :: "'params \<Rightarrow> anyhow + bytes"

record 'params noise_transport =
  nt_tcp :: tcp_transport
  nt_config :: noise_config
  nt_params :: 'params
  nt_local_private_key :: bytes
  nt_remote_public_key :: "bytes option"

definition noise_new :: "'params noise_lib \<Rightarrow> transport_config \<Rightarrow> anyhow + 'params noise_transport" where
  "noise_new L c =
     rbind (tcp_new c) (\<lambda>tcp.
     rbind (ok_or (Err ''Missing noise config'') (tr_noise c)) (\<lambda>config.
     rbind (parse_pattern L (noise_pattern config)) (\<lambda>builder.
     rbind (case noise_remote_public_key config of
              Some x \<Rightarrow> rbind (with_context (Ctx ''Failed to decode remote_public_key'') (base64_decode L x))
                          (\<lambda>k. Inr (Some k))
            | None \<Rightarrow> Inr None) (\<lambda>remote.
     rbind (case noise_local_private_key config of
              Some x \<Rightarrow> with_context (Ctx ''Failed to decode local_private_key'') (base64_decode L (unmask x))
            | None \<Rightarrow> generate_private L builder) (\<lambda>private.
     rbind (parse_pattern L (noise_pattern config)) (\<lambda>params.
     Inr \<lparr>nt_tcp = tcp, nt_config = config, nt_params = params,
          nt_local_private_key = private, nt_remote_public_key = remote\<rparr>))))))"

definition noise_builder :: "'params noise_transport \<Rightarrow> 'params \<times> bytes \<times> bytes option" where
  "noise_builder t = (nt_params t, nt_local_private_key t, nt_remote_public_key t)"

definition noise_accept ::
  "'params noise_transport \<Rightarrow> anyhow + 's \<times> socket_addr \<Rightarrow> anyhow + 's sock \<times> socket_addr" where
  "noise_accept t accepted =
     with_context (Ctx ''Failed to accept TCP connection'') (tcp_accept (nt_tcp t) accepted)"

definition noise_handshake ::
  "('params \<times> bytes \<times> bytes option \<Rightarrow> anyhow + 'hs) \<Rightarrow> ('s sock \<Rightarrow> 'hs \<Rightarrow> anyhow + 't) \<Rightarrow>
   'params noise_transport \<Rightarrow> 's sock \<Rightarrow> anyhow + 't" where
  "noise_handshake build_responder noise_stream t conn =
     rbind (build_responder (noise_builder t)) (\<lambda>hs.
     with_context (Ctx ''Failed to do noise handshake'') (noise_stream conn hs))"

definition noise_connect ::
  "'s net \<Rightarrow> ('params \<times> bytes \<times> bytes option \<Rightarrow> anyhow + 'hs) \<Rightarrow> ('s sock \<Rightarrow> 'hs \<Rightarrow> anyhow + 't) \<Rightarrow>
   'params noise_transport \<Rightarrow> addr_maybe_cached \<Rightarrow> anyhow + 't" where
  "noise_connect N build_initiator noise_stream t addr =
     rbind (with_context (Ctx ''Failed to connect TCP socket'') (tcp_transport_connect N (nt_tcp t) addr)) (\<lambda>conn.
     rbind (build_initiator (noise_builder t)) (\<lambda>hs.
     with_context (Ctx ''Failed to do noise handshake'') (noise_stream conn hs)))"

section \<open>Websocket\<close>

record web_socket_config =
  write_buffer_size :: nat
  max_message_size :: "nat option"
  max_frame_size :: "nat option"

datatype ('scfg, 'ccfg) sub_transport =
    Secure "('scfg, 'ccfg) tls_transport"
  | Insecure tcp_transport

record ('scfg, 'ccfg) websocket_transport =
  wt_sub :: "('scfg, 'ccfg) sub_transport"
  wt_conf :: web_socket_config

text \<open>The TLS module is the one the build selects: rustls or native-tls.\<close>

definition websocket_new ::
  "(transport_config \<Rightarrow> anyhow + ('scfg, 'ccfg) tls_transport) \<Rightarrow> transport_config \<Rightarrow>
   anyhow + ('scfg, 'ccfg) websocket_transport" where
  "websocket_new new_tls c =
     rbind (ok_or (Err ''Missing websocket config'') (tr_websocket c)) (\<lambda>wsconfig.
     let conf = \<lparr>write_buffer_size = 0, max_message_size = Some (2 ^ 20), max_frame_size = Some (2 ^ 20)\<rparr> in
     rbind (if ws_tls wsconfig then rbind (new_tls c) (\<lambda>t. Inr (Secure t))
            else rbind (tcp_new c) (\<lambda>t. Inr (Insecure t))) (\<lambda>sub.
     Inr \<lparr>wt_sub = sub, wt_conf = conf\<rparr>))"

definition websocket_accept ::
  "('scfg, 'ccfg) websocket_transport \<Rightarrow> anyhow + 's \<times> socket_addr \<Rightarrow> anyhow + 's sock \<times> socket_addr" where
  "websocket_accept t accepted =
     (case wt_sub t of
        Insecure u \<Rightarrow> tcp_accept u accepted
      | Secure u \<Rightarrow> tls_accept u accepted)"

datatype ('s, 't) transport_stream = Plain_Stream "'s sock" | Tls_Stream 't

definition websocket_handshake ::
  "('scfg \<Rightarrow> 's sock \<Rightarrow> anyhow + 't) \<Rightarrow>
   (('s, 't) transport_stream \<Rightarrow> web_socket_config \<Rightarrow> anyhow + 'w) \<Rightarrow>
   ('scfg, 'ccfg) websocket_transport \<Rightarrow> 's sock \<Rightarrow> anyhow + 'w" where
  "websocket_handshake server_tls accept_ws t conn =
     rbind (case wt_sub t of
              Insecure u \<Rightarrow> rbind (tcp_handshake conn) (\<lambda>s. Inr (Plain_Stream s))
            | Secure u \<Rightarrow> rbind (tls_handshake server_tls u conn) (\<lambda>s. Inr (Tls_Stream s))) (\<lambda>ts.
     accept_ws ts (wt_conf t))"

definition websocket_connect ::
  "(('scfg, 'ccfg) tls_transport \<Rightarrow> addr_maybe_cached \<Rightarrow> anyhow + 't) \<Rightarrow> 's net \<Rightarrow>
   (string \<Rightarrow> anyhow + 'url) \<Rightarrow> ('url \<Rightarrow> ('s, 't) transport_stream \<Rightarrow> web_socket_config \<Rightarrow> anyhow + 'w) \<Rightarrow>
   ('scfg, 'ccfg) websocket_transport \<Rightarrow> addr_maybe_cached \<Rightarrow> anyhow + 'w" where
  "websocket_connect connect_tls N url_parse client_ws t addr =
     (let u = ''ws://'' @ amc_addr addr in
      rbind (with_context (Ctx (''Failed to parse the url `'' @ u @ ''`'')) (url_parse u)) (\<lambda>url.
      rbind (case wt_sub t of
               Insecure x \<Rightarrow> rbind (tcp_transport_connect N x addr) (\<lambda>s. Inr (Plain_Stream s))
             | Secure x \<Rightarrow> rbind (connect_tls x addr) (\<lambda>s. Inr (Tls_Stream s))) (\<lambda>ts.
      with_context (Ctx ''Failed to establish the websocket connection'') (client_ws url ts (wt_conf t)))))"

text \<open>
  The tunnel: a write of the byte stream is one binary message, and the reader is the
  concatenation of the binary messages; any other frame is an error.
\<close>

datatype ws_message = Binary bytes | Text string | Ping bytes | Pong bytes | Close

definition tunnel_write :: "bytes \<Rightarrow> ws_message \<times> nat" where
  "tunnel_write buf = (Binary buf, length buf)"

fun stream_poll_next :: "(anyhow + ws_message) option \<Rightarrow> (anyhow + bytes) option" where
  "stream_poll_next None = None"
| "stream_poll_next (Some (Inl e)) = Some (Inl e)"
| "stream_poll_next (Some (Inr (Binary b))) = Some (Inr b)"
| "stream_poll_next (Some (Inr _)) = Some (Inl (Err ''unexpected frame''))"

fun tunnel_read :: "(anyhow + ws_message) list \<Rightarrow> bytes \<times> anyhow option" where
  "tunnel_read [] = ([], None)"
| "tunnel_read (m # ms) =
     (case stream_poll_next (Some m) of
        None \<Rightarrow> ([], None)
      | Some (Inl e) \<Rightarrow> ([], Some e)
      | Some (Inr b) \<Rightarrow> (case tunnel_read ms of (bs, e) \<Rightarrow> (b @ bs, e)))"

section \<open>Properties\<close>

lemma host_port_pair_append:
  "CHR '':'' \<notin> set p \<Longrightarrow> host_port_pair (h @ CHR '':'' # p) =
    rbind (ok_or (Err ''ParseIntError'') (parse_u16 p)) (\<lambda>port. Inr (h, port))"
proof -
  assume "CHR '':'' \<notin> set p"
  then have "rsplit_once CHR '':'' (h @ CHR '':'' # p) = Some (h, p)"
    by (simp add: rsplit_once_Some_iff)
  then show ?thesis by (simp add: host_port_pair_def)
qed

lemma parse_u16_string_of_nat: "parse_u16 (string_of_nat (unat (p :: u16))) = Some p"
proof -
  have "unat p < 2 ^ LENGTH(16)" by (rule unsigned_less)
  then have "unat p \<le> 65535" by simp
  then show ?thesis by (simp add: parse_u16_def parse_unsigned_string_of_nat)
qed

text \<open>
  Splitting an address at its last colon gives back the host (with its own colons, as in
  IPv6) and the port it was printed with.
\<close>

theorem host_port_pair_roundtrip:
  "host_port_pair (h @ '':'' @ string_of_nat (unat p)) = Inr (h, p)"
proof -
  have "CHR '':'' \<notin> set (string_of_nat (unat p))"
    using string_of_nat_digits digit_val_not_colon by blast
  then show ?thesis by (simp add: host_port_pair_append parse_u16_string_of_nat)
qed

text \<open>
  The local address that a UDP socket is bound to is always of the family of the address it
  then connects to; with \<open>prefer_ipv6\<close> the choice is the first IPv6 address when there is
  one, otherwise the first address, and it fails exactly when the lookup does or is empty.
\<close>

theorem udp_address_family:
  assumes "lookup_host N addr = Inr as"
  shows "(case udp_choose N addr six of
      Inl e \<Rightarrow> as = []
    | Inr (a, bind) \<Rightarrow> a \<in> set as \<and> bind = (if is_ipv6 a then '':::0'' else ''0.0.0.0:0'') \<and>
        (if six \<and> list_ex is_ipv6 as then is_ipv6 a else a = hd as))"
proof (cases six)
  case False
  then show ?thesis using assms
    by (cases "as"; cases "hd as") (simp_all add: udp_choose_def to_socket_addr_def)
next
  case True
  show ?thesis
  proof (cases "find is_ipv6 as")
    case None
    then have no6: "\<forall>a \<in> set as. is_ipv4 a" "\<not> list_ex is_ipv6 as"
      by (auto simp: find_None_iff is_ipv4_not_ipv6 list_ex_iff)
    then have "find is_ipv4 as = (case as of [] \<Rightarrow> None | a # _ \<Rightarrow> Some a)"
      by (cases "as") auto
    then show ?thesis using assms True None no6
      by (cases "as") (auto simp: udp_choose_def is_ipv4_not_ipv6)
  next
    case (Some a)
    then have "a \<in> set as" "is_ipv6 a" by (auto simp: find_Some_iff)
    then show ?thesis using assms True Some by (auto simp: udp_choose_def list_ex_iff)
  qed
qed

definition sample_net :: "string net" where
  "sample_net =
     \<lparr>lookup_host = \<lambda>_. Inr [V4 1 80, V6 2 80 0 0], tcp_connect = \<lambda>_. Inr ''s'',
      socks5_connect = \<lambda>s _ _. Inr s, http_connect = \<lambda>s _ _. Inr s,
      http_connect_basic_auth = \<lambda>s _ _ _ _. Inr s, udp_bind = \<lambda>a. Inr a,
      udp_socket_connect = \<lambda>s _. Inr s\<rparr>"

theorem udp_address_family_witness:
  "case udp_choose sample_net ''x:80'' True of
     Inl e \<Rightarrow> [V4 1 80, V6 2 80 0 0] = []
   | Inr (a, bind) \<Rightarrow> a \<in> set [V4 1 80, V6 2 80 0 0] \<and> bind = (if is_ipv6 a then '':::0'' else ''0.0.0.0:0'') \<and>
       (if True \<and> list_ex is_ipv6 [V4 1 80, V6 2 80 0 0] then is_ipv6 a else a = hd [V4 1 80, V6 2 80 0 0])"
  by (rule udp_address_family) (simp add: sample_net_def)

text \<open>
  A proxy that validation accepted is always used: the connection goes to the proxy's host
  and port, then one request for the target's host and port is made in the proxy's scheme,
  with the credentials of the URL when it has any; the three errors of the connector about
  the URL (host, port, scheme) cannot occur.
\<close>

theorem validated_proxy_used:
  assumes "validate_transport_config c b = Inr ()" "tcp_proxy (tr_tcp c) = Some u"
  shows "\<exists>host port. url_host_str u = Some host \<and> url_port u = Some port \<and>
    tcp_connect_with_proxy N addr (Some u) =
      rbind (tcp_connect N (To_Pair host port)) (\<lambda>s.
      rbind (host_port_pair (amc_addr addr)) (\<lambda>(h, p).
        if url_scheme u = ''socks5'' then socks5_connect N s (h, p) (proxy_auth u)
        else (case proxy_auth u of
            Some (user, pass) \<Rightarrow> http_connect_basic_auth N s h p user pass
          | None \<Rightarrow> http_connect N s h p)))"
proof -
  have ok: "proxy_ok u"
    using assms by (simp add: validate_transport_config_Inr_iff transport_ok_def)
  then obtain host port where hp: "url_host_str u = Some host" "url_port u = Some port"
    by (auto simp: proxy_ok_def)
  have "url_scheme u = ''socks5'' \<or> url_scheme u = ''http''" using ok by (simp add: proxy_ok_def)
  then show ?thesis
  proof
    assume "url_scheme u = ''socks5''"
    then show ?thesis using hp
      by (simp add: tcp_connect_with_proxy_def Let_def prod.case_distrib case_prod_unfold)
  next
    assume "url_scheme u = ''http''"
    then show ?thesis using hp by (simp add: tcp_connect_with_proxy_def Let_def)
  qed
qed

definition sample_proxy :: url where
  "sample_proxy = \<lparr>url_scheme = ''http'', url_host_str = Some ''p'', url_port = Some 8080,
     url_username = ''u'', url_password = None, url_text = ''http://u@p:8080/''\<rparr>"

theorem validated_proxy_used_witness:
  "\<exists>host port. url_host_str sample_proxy = Some host \<and> url_port sample_proxy = Some port \<and>
    tcp_connect_with_proxy sample_net (AddrMaybeCached_new ''h:22'') (Some sample_proxy) =
      rbind (tcp_connect sample_net (To_Pair host port)) (\<lambda>s.
      rbind (host_port_pair (amc_addr (AddrMaybeCached_new ''h:22''))) (\<lambda>(h, p).
        if url_scheme sample_proxy = ''socks5'' then socks5_connect sample_net s (h, p) (proxy_auth sample_proxy)
        else (case proxy_auth sample_proxy of
            Some (user, pass) \<Rightarrow> http_connect_basic_auth sample_net s h p user pass
          | None \<Rightarrow> http_connect sample_net s h p)))"
  by (rule validated_proxy_used [where b = True and
        c = "default_transport_config\<lparr>tr_tcp := default_tcp_config\<lparr>tcp_proxy := Some sample_proxy\<rparr>\<rparr>"])
     (simp_all add: validate_transport_config_Inr_iff transport_ok_def proxy_ok_def sample_proxy_def config_defaults)

lemma load_server_config_Some:
  "load_server_config L c = Inr r \<Longrightarrow> tls_pkcs12 c = Some path \<Longrightarrow> r \<noteq> None"
  by (auto simp: load_server_config_def result_simps)

text \<open>
  A server whose TLS section passed validation has an acceptor once its transport was built,
  with either TLS library: the handshake's own error (no \<open>tls.pkcs12\<close>) cannot occur, and the
  outcome is the library's.
\<close>

theorem validated_tls_server_accepts:
  assumes "validate_transport_config c True = Inr ()" "tr_type c = T_Tls"
    and "tls_new L c = Inr t \<or> native_tls_new L' c = Inr t"
  shows "\<exists>a. tlt_acceptor t = Some a \<and> tls_handshake server_tls t conn = server_tls a conn"
proof -
  obtain tls path where tls: "tr_tls c = Some tls" "tls_pkcs12 tls = Some path"
    using assms(1,2) by (auto simp: validate_transport_config_Inr_iff transport_ok_def)
  have "tlt_acceptor t \<noteq> None"
    using assms(3)
  proof
    assume "tls_new L c = Inr t"
    then obtain acceptor where "load_server_config L tls = Inr acceptor" "tlt_acceptor t = acceptor"
      using tls by (auto simp: tls_new_def tcp_new_def result_simps split: if_splits)
    then have "acceptor \<noteq> None" using tls load_server_config_Some by blast
    then show ?thesis using \<open>tlt_acceptor t = acceptor\<close> by simp
  next
    assume "native_tls_new L' c = Inr t"
    then show ?thesis using tls by (auto simp: native_tls_new_def tcp_new_def result_simps)
  qed
  then show ?thesis by (auto simp: tls_handshake_def)
qed

definition sample_tls :: transport_config where
  "sample_tls = default_transport_config\<lparr>tr_type := T_Tls,
     tr_tls := Some \<lparr>tls_hostname = None, tls_trusted_root = None, tls_pkcs12 = Some ''id.pfx'',
                     tls_pkcs12_password = Some (MaskedString ''pw'')\<rparr>\<rparr>"

definition sample_tls_lib :: "(nat, nat, nat, nat) tls_lib" where
  "sample_tls_lib =
     \<lparr>fs_read = \<lambda>_. Inr [], pfx_parse = Inr, pfx_cert_bags = \<lambda>_ _. Inr [1], pfx_key_bags = \<lambda>_ _. Inr [2],
      single_cert_config = \<lambda>_ k. Inr k, pem_certs = \<lambda>_. Inr [], native_certs = Inr [],
      add_root = \<lambda>rs c. Inr (c # rs), client_with_roots = length\<rparr>"

definition sample_native_lib :: "(nat, nat, nat, nat) native_tls_lib" where
  "sample_native_lib =
     \<lparr>nfs_read_to_string = \<lambda>_. Inr [], nfs_read = \<lambda>_. Inr [], certificate_from_pem = \<lambda>_. Inr 1,
      connector_build = \<lambda>cs. Inr (length cs), identity_from_pkcs12 = \<lambda>_ _. Inr 1, acceptor_new = Inr\<rparr>"

theorem validated_tls_server_accepts_witness:
  "\<exists>t. tls_new sample_tls_lib sample_tls = Inr t \<and>
     (\<exists>a. tlt_acceptor t = Some a \<and> tls_handshake (\<lambda>a c. Inr a) t (''s'', []) = Inr a)"
proof -
  have "\<exists>t. tls_new sample_tls_lib sample_tls = Inr t"
    by (simp add: tls_new_def tcp_new_def sample_tls_def sample_tls_lib_def load_server_config_def)
  then obtain t where t: "tls_new sample_tls_lib sample_tls = Inr t" ..
  have "validate_transport_config sample_tls True = Inr ()" "tr_type sample_tls = T_Tls"
    by (simp_all add: validate_transport_config_Inr_iff transport_ok_def sample_tls_def config_defaults)
  then have "\<exists>a. tlt_acceptor t = Some a \<and> tls_handshake (\<lambda>a c. Inr a) t (''s'', []) = Inr a"
    by (rule validated_tls_server_accepts [where L = sample_tls_lib and L' = sample_native_lib])
       (simp add: t)
  with t show ?thesis by blast
qed


text \<open>
  Validation accepts a \<open>websocket\<close> transport without a \<open>[transport.websocket]\<close> section, which
  the constructor then refuses.
\<close>

lemma websocket_section_not_validated:
  "validate_transport_config (default_transport_config\<lparr>tr_type := T_Websocket\<rparr>) b = Inr () \<and>
   websocket_new new_tls (default_transport_config\<lparr>tr_type := T_Websocket\<rparr>) =
     Inl (Err ''Missing websocket config'')"
  by (simp add: validate_transport_config_Inr_iff transport_ok_def websocket_new_def config_defaults)

text \<open>Applying options touches nothing they do not mention.\<close>

lemma opts_apply_effect:
  "fold do_sockopt (opts_apply o') (k, n) =
     (case so_keepalive o' of None \<Rightarrow> k | Some x \<Rightarrow> Some (keepalive_secs x, keepalive_interval x),
      case so_nodelay o' of None \<Rightarrow> n | Some b \<Rightarrow> b)"
  by (cases "so_keepalive o'"; cases "so_nodelay o'") (simp_all add: opts_apply_def try_set_tcp_keepalive_def)

lemma control_channel_keeps_keepalive:
  "fold do_sockopt (snd (tcp_hint (s, opts_apply (opts_from_cfg cfg)) opts_for_control_channel)) (k, n) =
     (Some (tcp_keepalive_secs cfg, tcp_keepalive_interval cfg), True)"
  by (simp add: tcp_hint_def opts_apply_def opts_from_cfg_def opts_for_control_channel_def opts_none_def
      try_set_tcp_keepalive_def)

end
