(* ===== verification/Server.thy ===== *)
theory Server
  imports Multi_Map Protocol Config_Watcher Runtime_Status Transport
begin

unbundle bit_operations_syntax

text \<open>
  \<open>src/server.rs\<close>, the shared state of a server: the services by digest, the control
  channels by digest and by session key, the handshakes of incoming connections and hot
  reload. A handshake awaits twice with no lock held, so it is three atomic steps
  (\<open>hs_hello\<close>, \<open>hs_auth\<close>, \<open>hs_register\<close>) that interleave with every other task; the
  function \<open>do_control_channel_handshake\<close> is their composition on one connection. The
  queues of a control channel live in a store of their own: a handle holds their address.
\<close>

section \<open>Constants and small functions\<close>

definition TCP_POOL_SIZE :: nat where
  "TCP_POOL_SIZE = 8"

definition UDP_POOL_SIZE :: nat where
  "UDP_POOL_SIZE = 1"

definition CHAN_SIZE :: nat where
  "CHAN_SIZE = 2048"

definition HANDSHAKE_TIMEOUT :: u64 where
  "HANDSHAKE_TIMEOUT = 5"

definition HELLO_AUTH_TIMEOUT :: u64 where
  "HELLO_AUTH_TIMEOUT = 10"

definition MIN_DATA_CHANNEL_TIMEOUT :: u64 where
  "MIN_DATA_CHANNEL_TIMEOUT = 10"

definition data_channel_timeout :: "u64 \<Rightarrow> u64" where
  "data_channel_timeout heartbeat_interval =
     max (saturating_mul_u64 heartbeat_interval 2) MIN_DATA_CHANNEL_TIMEOUT"

fun digest_diff :: "u8 \<Rightarrow> (u8 \<times> u8) list \<Rightarrow> u8" where
  "digest_diff acc [] = acc"
| "digest_diff acc ((x, y) # ps) = digest_diff (acc OR (x XOR y)) ps"

definition digest_eq :: "digest \<Rightarrow> digest \<Rightarrow> bool" where
  "digest_eq a b \<longleftrightarrow> digest_diff 0 (zip a b) = 0"

definition bytes_of_str :: "string \<Rightarrow> bytes" where
  "bytes_of_str s = map of_char s"

text \<open>The hash and the codec the program uses.\<close>

record env =
  sha256 :: "bytes \<Rightarrow> digest"
  codec :: bincode

definition name_digest :: "env \<Rightarrow> string \<Rightarrow> digest" where
  "name_digest E n = sha256 E (bytes_of_str n)"

definition packet_len :: "env \<Rightarrow> packet_length" where
  "packet_len E = PacketLength_new (codec E) (name_digest E)"

section \<open>State\<close>

type_synonym nonce = digest
type_synonym service_map = "digest \<Rightarrow> server_service_config option"

text \<open>
  The shared ends of a control channel: the queue of data channels (with whether its
  receiver is alive), the count of arrivals not yet seen, and whether the handle was dropped,
  which is the shutdown signal of its tasks.
\<close>

record 'c chan_ends =
  ce_data :: "'c list"
  ce_receiver_alive :: bool
  ce_arrived :: nat
  ce_requests :: nat
  ce_shutdown :: bool

record control_channel_handle =
  h_chan :: nat
  h_service :: server_service_config

type_synonym channel_map = "(digest, nonce, control_channel_handle) mm"

datatype hs_phase =
    Awaiting_Auth digest nonce server_service_config socket_addr
  | Registering digest nonce control_channel_handle

record 'c server =
  sv_config :: server_config
  sv_services :: service_map
  sv_channels :: channel_map
  sv_runtime :: runtime_snapshot
  sv_store :: "nat \<Rightarrow> 'c chan_ends option"
  sv_next :: nat
  sv_handshakes :: "nat \<Rightarrow> hs_phase option"

definition generate_service_hashmap :: "env \<Rightarrow> server_config \<Rightarrow> service_map" where
  "generate_service_hashmap E c =
     fold (\<lambda>(n, s) ret. ret(name_digest E n \<mapsto> s)) (sc_services c) Map.empty"

definition server_from :: "env \<Rightarrow> server_config \<Rightarrow> runtime_snapshot \<Rightarrow> 'c server" where
  "server_from E config runtime =
     \<lparr>sv_config = config, sv_services = generate_service_hashmap E config, sv_channels = mm_new,
      sv_runtime = runtime, sv_store = \<lambda>_. None, sv_next = 0, sv_handshakes = \<lambda>_. None\<rparr>"

section \<open>Control channel handles\<close>

text \<open>
  \<open>ControlChannelHandle::new\<close>: fresh queues, with one request per pooled channel.
\<close>

definition pool_size :: "server_service_config \<Rightarrow> nat" where
  "pool_size s = (case ssc_service_type s of Tcp \<Rightarrow> TCP_POOL_SIZE | Udp \<Rightarrow> UDP_POOL_SIZE)"

definition handle_new :: "server_service_config \<Rightarrow> 'c server \<Rightarrow> control_channel_handle \<times> 'c server" where
  "handle_new service s =
     (\<lparr>h_chan = sv_next s, h_service = service\<rparr>,
      s\<lparr>sv_store := (sv_store s)(sv_next s \<mapsto>
          \<lparr>ce_data = [], ce_receiver_alive = True, ce_arrived = 0,
           ce_requests = pool_size service, ce_shutdown = False\<rparr>),
        sv_next := Suc (sv_next s)\<rparr>)"

definition drop_handle :: "control_channel_handle \<Rightarrow> 'c server \<Rightarrow> 'c server" where
  "drop_handle h s =
     s\<lparr>sv_store := (sv_store s)(h_chan h := map_option (\<lambda>c. c\<lparr>ce_shutdown := True\<rparr>) (sv_store s (h_chan h)))\<rparr>"

definition remove_channel :: "digest \<Rightarrow> 'c server \<Rightarrow> 'c server option" where
  "remove_channel d s =
     map_option (\<lambda>(m, old). (case old of None \<Rightarrow> s\<lparr>sv_channels := m\<rparr>
                             | Some h \<Rightarrow> drop_handle h (s\<lparr>sv_channels := m\<rparr>)))
       (mm_remove1 (sv_channels s) d)"

definition insert_channel ::
  "digest \<Rightarrow> nonce \<Rightarrow> control_channel_handle \<Rightarrow> 'c server \<Rightarrow> 'c server option" where
  "insert_channel d k h s =
     map_option (\<lambda>(m, r). (case r of Inr _ \<Rightarrow> s\<lparr>sv_channels := m\<rparr>
                           | Inl (_, _, h') \<Rightarrow> drop_handle h' (s\<lparr>sv_channels := m\<rparr>)))
       (mm_insert (sv_channels s) d k h)"

section \<open>The control channel handshake\<close>

text \<open>
  First step: the hello with the nonce is sent, then the service is looked up.
\<close>

definition hs_hello ::
  "env \<Rightarrow> nat \<Rightarrow> socket_addr \<Rightarrow> nonce \<Rightarrow> digest \<Rightarrow> 'c server \<Rightarrow> 'c server \<times> bytes \<times> anyhow option" where
  "hs_hello E i source nonce service_digest s =
     (let hello = ser_hello (codec E) (ControlChannelHello CURRENT_PROTO_VERSION nonce) in
      (case sv_services s service_digest of
         None \<Rightarrow>
           (s, hello @ ser_ack (codec E) ServiceNotExist,
            Some (Err (''No such a service '' @ hex_encode service_digest)))
       | Some service \<Rightarrow>
           (s\<lparr>sv_handshakes := (sv_handshakes s)(i \<mapsto> Awaiting_Auth service_digest nonce service source)\<rparr>,
            hello, None)))"

text \<open>
  Second step: the authentication message is compared with the digest of token and nonce; if
  it is right and the service is still registered, the channel's handle is created.
  \<open>token.as_ref().unwrap()\<close> panics without a token, which a validated configuration excludes.
\<close>

definition token_bytes :: "server_service_config \<Rightarrow> bytes" where
  "token_bytes service = (case ssc_token service of None \<Rightarrow> [] | Some t \<Rightarrow> bytes_of_str (unmask t))"

definition hs_auth ::
  "env \<Rightarrow> u64 \<Rightarrow> nat \<Rightarrow> digest \<Rightarrow> 'c server \<Rightarrow> 'c server \<times> bytes \<times> anyhow option" where
  "hs_auth E now i d s =
     (case sv_handshakes s i of
        Some (Awaiting_Auth service_digest nonce service source) \<Rightarrow>
          (let ended = s\<lparr>sv_handshakes := (sv_handshakes s)(i := None)\<rparr>;
               session_key = sha256 E (token_bytes service @ nonce) in
           if \<not> digest_eq session_key d then
             (ended, ser_ack (codec E) AuthFailed,
              Some (Err (''Service '' @ ssc_name service @ '' failed the authentication'')))
           else
             (case server_connected now (sv_runtime s) (ssc_name service) source of
                (rt, None) \<Rightarrow>
                  (ended\<lparr>sv_runtime := rt\<rparr>, ser_ack (codec E) Ok,
                   Some (Err (''service '' @ ssc_name service @ '' was removed during authentication'')))
              | (rt, Some since) \<Rightarrow>
                  (case handle_new service (s\<lparr>sv_runtime := rt\<rparr>) of (handle, s1) \<Rightarrow>
                     (s1\<lparr>sv_handshakes := (sv_handshakes s)(i \<mapsto> Registering service_digest session_key handle)\<rparr>,
                      ser_ack (codec E) Ok, None))))
      | _ \<Rightarrow> (s, [], None))"

text \<open>
  Third step, under the write lock of the map: a previous channel of the service is dropped
  and the new one inserted; the result of the insertion is ignored.
\<close>

definition hs_register :: "nat \<Rightarrow> 'c server \<Rightarrow> 'c server option" where
  "hs_register i s =
     (case sv_handshakes s i of
        Some (Registering service_digest session_key handle) \<Rightarrow>
          Option.bind (remove_channel service_digest s) (\<lambda>s1.
          map_option (\<lambda>s2. s2\<lparr>sv_handshakes := (sv_handshakes s2)(i := None)\<rparr>)
            (insert_channel service_digest session_key handle s1))
      | _ \<Rightarrow> Some s)"

text \<open>
  The whole handshake on one connection without interference: what it sends, given what it
  receives after the client's hello.
\<close>

definition do_control_channel_handshake ::
  "env \<Rightarrow> u64 \<Rightarrow> nat \<Rightarrow> socket_addr \<Rightarrow> nonce \<Rightarrow> digest \<Rightarrow> bytes \<Rightarrow> 'c server \<Rightarrow>
   ('c server \<times> bytes \<times> anyhow option) option" where
  "do_control_channel_handshake E now i source nonce service_digest input s =
     (case hs_hello E i source nonce service_digest s of
        (s1, out1, Some e) \<Rightarrow> Some (s1, out1, Some e)
      | (s1, out1, None) \<Rightarrow>
          (case read_auth (codec E) (packet_len E) input of
             Inl e \<Rightarrow> Some (s1\<lparr>sv_handshakes := (sv_handshakes s1)(i := None)\<rparr>, out1, Some e)
           | Inr (Auth d, _) \<Rightarrow>
               (case hs_auth E now i d s1 of
                  (s2, out2, Some e) \<Rightarrow> Some (s2, out1 @ out2, Some e)
                | (s2, out2, None) \<Rightarrow>
                    map_option (\<lambda>s3. (s3, out1 @ out2, None)) (hs_register i s2))))"

section \<open>Data channels\<close>

datatype data_outcome = Delivered | Stale | Queue_Full | Wrong_Nonce

definition do_data_channel_handshake ::
  "'c \<Rightarrow> nonce \<Rightarrow> 'c server \<Rightarrow> ('c server \<times> data_outcome) option" where
  "do_data_channel_handshake conn nonce s =
     map_option (\<lambda>r. (case r of
         None \<Rightarrow> (s, Wrong_Nonce)
       | Some h \<Rightarrow>
           (case sv_store s (h_chan h) of
              None \<Rightarrow> (s, Stale)
            | Some c \<Rightarrow>
                if \<not> ce_receiver_alive c then (s, Stale)
                else if CHAN_SIZE * 2 \<le> length (ce_data c) then (s, Queue_Full)
                else (s\<lparr>sv_store := (sv_store s)(h_chan h \<mapsto>
                          c\<lparr>ce_data := ce_data c @ [conn], ce_arrived := Suc (ce_arrived c)\<rparr>)\<rparr>,
                      Delivered))))
       (mm_get2 (sv_channels s) nonce)"

section \<open>Hot reload\<close>

definition handle_hot_reload :: "env \<Rightarrow> config_change \<Rightarrow> 'c server \<Rightarrow> 'c server option" where
  "handle_hot_reload E e s =
     (case e of
        ServerChange (Server_Add cfg) \<Rightarrow>
          (let hash = name_digest E (ssc_name cfg) in
           remove_channel hash
             (s\<lparr>sv_runtime := server_add (sv_runtime s) (ssc_name cfg),
                sv_services := (sv_services s)(hash \<mapsto> cfg)\<rparr>))
      | ServerChange (Server_Delete n) \<Rightarrow>
          (let hash = name_digest E n in
           remove_channel hash
             (s\<lparr>sv_runtime := remove_service (sv_runtime s) n,
                sv_services := (sv_services s)(hash := None)\<rparr>))
      | _ \<Rightarrow> Some s)"

section \<open>Interleaving\<close>

datatype 'c server_event =
    Ev_hello nat socket_addr nonce digest
  | Ev_auth u64 nat digest
  | Ev_register nat
  | Ev_hello_auth_timeout nat
  | Ev_data 'c nonce
  | Ev_reload config_change
  | Ev_channel_ended u64 string socket_addr u64 string
  | Ev_pool_ended nat

text \<open>
  \<open>Hello/auth timed out\<close>: the handshake's future is dropped at one of its awaits, with the
  handle it may hold. The end of a channel's task reports to the registry; the end of its
  pool closes the queue. A hot reload is one step: it holds the services lock while it
  removes the channel (\<open>Add\<close>), or no lookup can see the state in between (\<open>Delete\<close>).
\<close>

definition hs_timeout :: "nat \<Rightarrow> 'c server \<Rightarrow> 'c server" where
  "hs_timeout i s =
     (let s' = s\<lparr>sv_handshakes := (sv_handshakes s)(i := None)\<rparr> in
      (case sv_handshakes s i of
         Some (Registering _ _ h) \<Rightarrow> drop_handle h s'
       | _ \<Rightarrow> s'))"

definition server_step :: "env \<Rightarrow> 'c server_event \<Rightarrow> 'c server \<Rightarrow> 'c server option" where
  "server_step E ev s =
     (case ev of
        Ev_hello i source nonce d \<Rightarrow>
          if sv_handshakes s i = None then Some (fst (hs_hello E i source nonce d s)) else Some s
      | Ev_auth now i d \<Rightarrow> Some (fst (hs_auth E now i d s))
      | Ev_register i \<Rightarrow> hs_register i s
      | Ev_hello_auth_timeout i \<Rightarrow> Some (hs_timeout i s)
      | Ev_data conn nonce \<Rightarrow> map_option fst (do_data_channel_handshake conn nonce s)
      | Ev_reload e \<Rightarrow> handle_hot_reload E e s
      | Ev_channel_ended now n source since detail \<Rightarrow>
          map_option (\<lambda>rt. s\<lparr>sv_runtime := rt\<rparr>)
            (server_disconnected now (sv_runtime s) n source since (Some detail))
      | Ev_pool_ended c \<Rightarrow>
          Some (s\<lparr>sv_store := (sv_store s)(c := map_option (\<lambda>x. x\<lparr>ce_receiver_alive := False\<rparr>) (sv_store s c))\<rparr>))"

fun server_run :: "env \<Rightarrow> 'c server_event list \<Rightarrow> 'c server \<Rightarrow> 'c server option" where
  "server_run E [] s = Some s"
| "server_run E (e # es) s = Option.bind (server_step E e s) (server_run E es)"

section \<open>Small functions\<close>

lemma digest_diff_zero: "digest_diff acc ps = 0 \<longleftrightarrow> acc = 0 \<and> (\<forall>(x, y) \<in> set ps. x = y)"
proof (induction acc ps rule: digest_diff.induct)
  case (1 acc)
  then show ?case by simp
next
  case (2 acc x y ps)
  have "x XOR y = 0 \<longleftrightarrow> x = y"
    by (metis xor.assoc xor.left_neutral xor.right_neutral xor_self_eq)
  then have "acc OR (x XOR y) = 0 \<longleftrightarrow> acc = 0 \<and> x = y"
    by (simp add: or_eq_0_iff)
  with 2 show ?case by auto
qed

lemma digest_eq_iff: "length a = length b \<Longrightarrow> digest_eq a b \<longleftrightarrow> a = b"
  by (simp add: digest_eq_def digest_diff_zero list_eq_iff_zip_eq)

lemma data_channel_timeout_value:
  "unat (data_channel_timeout h) = max (min (2 * unat h) (2 ^ 64 - 1)) 10"
proof -
  have "unat (max a b) = max (unat a) (unat b)" for a b :: u64
    by (simp add: max_def word_le_nat_alt)
  then show ?thesis
    by (simp add: data_channel_timeout_def unat_saturating_mul_u64 MIN_DATA_CHANNEL_TIMEOUT_def mult.commute)
qed

section \<open>The ownership invariant\<close>

definition live :: "'c server \<Rightarrow> nat \<Rightarrow> bool" where
  "live s c \<longleftrightarrow> (\<exists>x. sv_store s c = Some x \<and> \<not> ce_shutdown x)"

definition in_map :: "'c server \<Rightarrow> digest \<Rightarrow> nonce \<Rightarrow> control_channel_handle \<Rightarrow> bool" where
  "in_map s d k h \<longleftrightarrow> by1 (sv_channels s) d = Some (k, h)"

definition in_handshake :: "'c server \<Rightarrow> nat \<Rightarrow> digest \<Rightarrow> nonce \<Rightarrow> control_channel_handle \<Rightarrow> bool" where
  "in_handshake s i d k h \<longleftrightarrow> sv_handshakes s i = Some (Registering d k h)"

text \<open>The places that own the channel with address \<open>c\<close>: a service of the map, or a handshake.\<close>

definition owners :: "'c server \<Rightarrow> nat \<Rightarrow> (digest + nat) set" where
  "owners s c = {Inl d | d. \<exists>k h. in_map s d k h \<and> h_chan h = c} \<union>
                {Inr i | i. \<exists>d k h. in_handshake s i d k h \<and> h_chan h = c}"

definition authentic :: "env \<Rightarrow> nonce \<Rightarrow> control_channel_handle \<Rightarrow> bool" where
  "authentic E k h \<longleftrightarrow> (\<exists>n. k = sha256 E (token_bytes (h_service h) @ n))"

definition server_inv :: "env \<Rightarrow> 'c server \<Rightarrow> bool" where
  "server_inv E s \<longleftrightarrow>
     mm_wf (sv_channels s) \<and>
     (\<forall>c. sv_store s c \<noteq> None \<longrightarrow> c < sv_next s) \<and>
     (\<forall>c. live s c \<longleftrightarrow> owners s c \<noteq> {}) \<and>
     (\<forall>c x y. x \<in> owners s c \<longrightarrow> y \<in> owners s c \<longrightarrow> x = y) \<and>
     (\<forall>d k h. in_map s d k h \<longrightarrow> authentic E k h) \<and>
     (\<forall>i d k h. in_handshake s i d k h \<longrightarrow> authentic E k h)"

lemma server_invD:
  assumes "server_inv E s"
  shows "mm_wf (sv_channels s)" "sv_store s c \<noteq> None \<Longrightarrow> c < sv_next s"
    "live s c \<longleftrightarrow> owners s c \<noteq> {}" "x \<in> owners s c \<Longrightarrow> y \<in> owners s c \<Longrightarrow> x = y"
    "in_map s d k h \<Longrightarrow> authentic E k h" "in_handshake s i d k h \<Longrightarrow> authentic E k h"
  using assms unfolding server_inv_def by blast+

text \<open>What the invariant depends on.\<close>

lemma server_inv_cong:
  assumes "sv_channels s' = sv_channels s" "sv_next s' = sv_next s" "\<And>c. live s' c = live s c"
    and "\<And>c. (sv_store s' c = None) = (sv_store s c = None)"
    and "\<And>i d k h. in_handshake s' i d k h = in_handshake s i d k h"
  shows "server_inv E s' = server_inv E s"
proof -
  have "in_map s' = in_map s" by (simp add: fun_eq_iff in_map_def assms(1))
  moreover have "in_handshake s' = in_handshake s" by (simp add: fun_eq_iff assms(5))
  moreover from calculation have "owners s' = owners s" by (simp add: fun_eq_iff owners_def)
  ultimately show ?thesis by (simp add: server_inv_def assms)
qed

lemma live_drop_handle: "live (drop_handle h s) c \<longleftrightarrow> live s c \<and> c \<noteq> h_chan h"
  by (auto simp: live_def drop_handle_def)

lemma drop_handle_simps [simp]:
  "sv_channels (drop_handle h s) = sv_channels s" "sv_next (drop_handle h s) = sv_next s"
  "sv_handshakes (drop_handle h s) = sv_handshakes s" "sv_services (drop_handle h s) = sv_services s"
  "sv_runtime (drop_handle h s) = sv_runtime s" "sv_config (drop_handle h s) = sv_config s"
  "sv_store (drop_handle h s) c = None \<longleftrightarrow> sv_store s c = None"
  by (auto simp: drop_handle_def)

text \<open>
  One owner goes and its channel is shut down with it: the invariant is kept.
\<close>

lemma server_inv_release:
  assumes inv: "server_inv E s" and x: "x \<in> owners s (h_chan h)"
    and wf: "mm_wf (sv_channels s')"
    and store: "\<And>c. (sv_store s' c = None) = (sv_store s c = None)" "sv_next s' = sv_next s"
    and lv: "\<And>c. live s' c \<longleftrightarrow> live s c \<and> c \<noteq> h_chan h"
    and own: "\<And>c. owners s' c = owners s c - {x}"
    and sub: "\<And>d k g. in_map s' d k g \<Longrightarrow> in_map s d k g"
      "\<And>i d k g. in_handshake s' i d k g \<Longrightarrow> in_handshake s i d k g"
  shows "server_inv E s'"
proof -
  have "live s' c \<longleftrightarrow> owners s' c \<noteq> {}" for c
  proof (cases "c = h_chan h")
    case True
    then have "owners s c = {x}" using x server_invD(4) [OF inv] by blast
    then show ?thesis using True lv own by simp
  next
    case False
    have "x \<notin> owners s c"
      using x False by (auto simp: owners_def in_map_def in_handshake_def)
    then show ?thesis using False lv own server_invD(3) [OF inv] by simp
  qed
  moreover have "x1 = y1" if "x1 \<in> owners s' c" "y1 \<in> owners s' c" for c x1 y1
    using that own server_invD(4) [OF inv] by blast
  ultimately show ?thesis
    using wf store sub server_invD(2,5,6) [OF inv] unfolding server_inv_def by metis
qed

lemma owners_iff:
  "Inl d \<in> owners s c \<longleftrightarrow> (\<exists>k h. in_map s d k h \<and> h_chan h = c)"
  "Inr i \<in> owners s c \<longleftrightarrow> (\<exists>d k h. in_handshake s i d k h \<and> h_chan h = c)"
  by (auto simp: owners_def)

lemma owners_of_map:
  "in_map s d k h \<Longrightarrow> Inl d \<in> owners s (h_chan h)"
  by (auto simp: owners_def)

lemma owners_of_handshake:
  "in_handshake s i d k h \<Longrightarrow> Inr i \<in> owners s (h_chan h)"
  by (auto simp: owners_def)

lemma remove_channel_ok:
  assumes inv: "server_inv E s"
  obtains s' where "remove_channel d s = Some s'" "server_inv E s'"
    "by1 (sv_channels s') = (by1 (sv_channels s))(d := None)"
    "by2 (sv_channels s') = (case by1 (sv_channels s) d of None \<Rightarrow> by2 (sv_channels s)
       | Some (k, _) \<Rightarrow> (by2 (sv_channels s))(k := None))"
    "sv_handshakes s' = sv_handshakes s" "sv_services s' = sv_services s"
    "sv_runtime s' = sv_runtime s" "sv_config s' = sv_config s"
    "\<forall>c. live s' c \<longleftrightarrow> live s c \<and> \<not> (\<exists>k h. in_map s d k h \<and> h_chan h = c)"
proof -
  obtain m where m: "mm_remove1 (sv_channels s) d = Some (m, map_option snd (by1 (sv_channels s) d))"
    "mm_wf m" "by1 m = (by1 (sv_channels s))(d := None)"
    "by2 m = (case by1 (sv_channels s) d of None \<Rightarrow> by2 (sv_channels s)
       | Some (k, _) \<Rightarrow> (by2 (sv_channels s))(k := None))"
    using mm.rem1_total [OF server_invD(1) [OF inv]] .
  show thesis
  proof (cases "by1 (sv_channels s) d")
    case None
    let ?s = "s\<lparr>sv_channels := m\<rparr>"
    have r: "remove_channel d s = Some ?s" using m(1) None by (simp add: remove_channel_def)
    have "by1 m = by1 (sv_channels s)" using m(3) None by (simp add: fun_upd_idem)
    then have maps: "in_map ?s = in_map s" by (simp add: fun_eq_iff in_map_def)
    have "owners ?s = owners s" by (simp add: fun_eq_iff owners_def maps in_handshake_def)
    then have "server_inv E ?s"
      using inv m(2) by (simp add: server_inv_def maps live_def in_handshake_def)
    then show thesis using that [OF r] m None by (simp add: live_def in_map_def)
  next
    case (Some p)
    then obtain k h where kh: "by1 (sv_channels s) d = Some (k, h)" by (cases p) auto
    let ?s = "drop_handle h (s\<lparr>sv_channels := m\<rparr>)"
    have r: "remove_channel d s = Some ?s" using m(1) kh by (simp add: remove_channel_def)
    have mp: "in_map s d k h" using kh by (simp add: in_map_def)
    have maps: "in_map ?s e k' g \<longleftrightarrow> in_map s e k' g \<and> e \<noteq> d" for e k' g
      by (auto simp: in_map_def m(3))
    have lv: "live ?s c \<longleftrightarrow> live s c \<and> c \<noteq> h_chan h" for c
      by (simp add: live_drop_handle) (simp add: live_def)
    have own: "owners ?s c = owners s c - {Inl d}" for c
      by (auto simp: owners_def maps in_handshake_def) blast
    have "server_inv E ?s"
      by (rule server_inv_release [OF inv owners_of_map [OF mp]])
        (simp_all add: m(2) lv own maps in_handshake_def)
    moreover have "\<forall>c. live ?s c \<longleftrightarrow> live s c \<and> \<not> (\<exists>k h. in_map s d k h \<and> h_chan h = c)"
      using lv kh by (auto simp: in_map_def)
    ultimately show thesis using that [OF r] m kh by simp
  qed
qed

lemma hs_hello_inv:
  assumes inv: "server_inv E s" and free: "sv_handshakes s i = None"
  shows "server_inv E (fst (hs_hello E i source nonce d s))"
proof -
  have "server_inv E (s\<lparr>sv_handshakes := (sv_handshakes s)(i \<mapsto> Awaiting_Auth d nonce svc source)\<rparr>) = server_inv E s" for svc
    by (rule server_inv_cong) (use free in \<open>auto simp: live_def in_handshake_def\<close>)
  then show ?thesis using inv by (auto simp: hs_hello_def Let_def split: option.splits)
qed

lemma hs_timeout_inv:
  assumes inv: "server_inv E s"
  shows "server_inv E (hs_timeout i s)"
proof (cases "\<exists>d k h. in_handshake s i d k h")
  case True
  then obtain d k h where hs: "in_handshake s i d k h" by blast
  let ?s = "drop_handle h (s\<lparr>sv_handshakes := (sv_handshakes s)(i := None)\<rparr>)"
  have t: "hs_timeout i s = ?s" using hs by (simp add: hs_timeout_def in_handshake_def)
  have hsk: "in_handshake ?s j e k' g \<longleftrightarrow> in_handshake s j e k' g \<and> j \<noteq> i" for j e k' g
    by (auto simp: in_handshake_def)
  have maps: "in_map ?s = in_map s" by (simp add: fun_eq_iff in_map_def)
  have own: "owners ?s c = owners s c - {Inr i}" for c
    by (auto simp: owners_def maps hsk) blast
  have lv: "live ?s c \<longleftrightarrow> live s c \<and> c \<noteq> h_chan h" for c
    by (simp add: live_drop_handle) (simp add: live_def)
  show ?thesis unfolding t
    by (rule server_inv_release [OF inv owners_of_handshake [OF hs]])
      (simp_all add: server_invD(1) [OF inv] lv own maps hsk)
next
  case False
  then have "hs_timeout i s = s\<lparr>sv_handshakes := (sv_handshakes s)(i := None)\<rparr>"
    by (auto simp: hs_timeout_def in_handshake_def Let_def split: option.split hs_phase.split)
  moreover have "server_inv E (s\<lparr>sv_handshakes := (sv_handshakes s)(i := None)\<rparr>) = server_inv E s"
    by (rule server_inv_cong) (use False in \<open>auto simp: live_def in_handshake_def\<close>)
  ultimately show ?thesis using inv by simp
qed

text \<open>A fresh handle in a handshake that had none.\<close>

lemma handle_new_inv:
  assumes inv: "server_inv E s" and awaiting: "\<not> (\<exists>d k h. in_handshake s i d k h)"
    and new: "handle_new svc (s\<lparr>sv_runtime := rt\<rparr>) = (h, s1)" and auth: "authentic E k h"
  shows "server_inv E (s1\<lparr>sv_handshakes := (sv_handshakes s)(i \<mapsto> Registering d k h)\<rparr>)"
    (is "server_inv E ?s")
proof -
  have h: "h_chan h = sv_next s" and st: "sv_channels ?s = sv_channels s" "sv_next ?s = Suc (sv_next s)"
    using new by (auto simp: handle_new_def)
  have lv: "live ?s c \<longleftrightarrow> live s c \<or> c = sv_next s" for c
    using new by (auto simp: handle_new_def live_def)
  have fresh: "\<not> live s (sv_next s)"
    using server_invD(2) [OF inv, of "sv_next s"] by (auto simp: live_def)
  then have nobody: "owners s (sv_next s) = {}" using server_invD(3) [OF inv] by blast
  have maps: "in_map ?s = in_map s" by (simp add: fun_eq_iff in_map_def st)
  have hsk: "in_handshake ?s j e l g \<longleftrightarrow> (if j = i then (e, l, g) = (d, k, h) else in_handshake s j e l g)" for j e l g
    by (auto simp: in_handshake_def)
  have own: "owners ?s c = (if c = sv_next s then {Inr i} else owners s c)" for c
  proof (cases "c = sv_next s")
    case True
    have "owners ?s c \<subseteq> {Inr i} \<union> owners s c"
      by (auto simp: owners_def maps hsk split: if_splits)
    moreover have "Inr i \<in> owners ?s c" using h True by (auto simp: owners_def hsk)
    ultimately show ?thesis using True nobody by auto
  next
    case False
    have "owners ?s c = owners s c"
      using awaiting False h by (auto simp: owners_def maps hsk split: if_splits) blast+
    with False show ?thesis by simp
  qed
  show ?thesis
  proof (unfold server_inv_def, intro conjI allI impI)
    show "mm_wf (sv_channels ?s)" using st server_invD(1) [OF inv] by simp
    show "c < sv_next ?s" if "sv_store ?s c \<noteq> None" for c
      using that new server_invD(2) [OF inv, of c] by (auto simp: handle_new_def split: if_splits)
    show "live ?s c \<longleftrightarrow> owners ?s c \<noteq> {}" for c
      using server_invD(3) [OF inv] by (auto simp: lv own)
    show "x = y" if "x \<in> owners ?s c" "y \<in> owners ?s c" for c x y
      using that server_invD(4) [OF inv] by (auto simp: own split: if_splits)
    show "authentic E l g" if "in_map ?s e l g" for e l g
      using that server_invD(5) [OF inv] by (simp add: maps)
    show "authentic E l g" if "in_handshake ?s j e l g" for j e l g
      using that server_invD(6) [OF inv] auth by (auto simp: hsk split: if_splits)
  qed
qed

lemma hs_auth_inv:
  assumes inv: "server_inv E s"
  shows "server_inv E (fst (hs_auth E now i d s))"
proof (cases "\<exists>e n svc src. sv_handshakes s i = Some (Awaiting_Auth e n svc src)")
  case True
  then obtain e n svc src where ph: "sv_handshakes s i = Some (Awaiting_Auth e n svc src)" by blast
  have none: "\<not> (\<exists>d k h. in_handshake s i d k h)" using ph by (simp add: in_handshake_def)
  have ended: "server_inv E (s\<lparr>sv_handshakes := (sv_handshakes s)(i := None), sv_runtime := rt\<rparr>)" for rt
    using inv by (subst server_inv_cong [of _ s]) (use ph in \<open>auto simp: live_def in_handshake_def\<close>)
  obtain rt r where sc: "server_connected now (sv_runtime s) (ssc_name svc) src = (rt, r)"
    by (cases "server_connected now (sv_runtime s) (ssc_name svc) src")
  obtain h s1 where hn: "handle_new svc (s\<lparr>sv_runtime := rt\<rparr>) = (h, s1)"
    by (cases "handle_new svc (s\<lparr>sv_runtime := rt\<rparr>)")
  let ?k = "sha256 E (token_bytes svc @ n)"
  have "h_service h = svc" using hn by (auto simp: handle_new_def)
  then have "authentic E ?k h" by (auto simp: authentic_def)
  from handle_new_inv [OF inv none hn this, of e]
  show ?thesis using ended [of "sv_runtime s"] ended [of rt]
    by (cases "digest_eq ?k d"; cases r) (simp_all add: hs_auth_def ph Let_def sc hn)
next
  case False
  then have "fst (hs_auth E now i d s) = s"
    by (auto simp: hs_auth_def split: option.split hs_phase.split)
  with inv show ?thesis by simp
qed

lemma hs_register_ok:
  assumes inv: "server_inv E s" and hs: "in_handshake s i d k h"
  obtains s' where "hs_register i s = Some s'" "server_inv E s'"
    "sv_handshakes s' = (sv_handshakes s)(i := None)" "sv_services s' = sv_services s"
    "sv_runtime s' = sv_runtime s"
    "by2 (sv_channels s) k = None \<or> (\<exists>g. by2 (sv_channels s) k = Some (d, g)) \<Longrightarrow>
       by1 (sv_channels s') = (by1 (sv_channels s))(d \<mapsto> (k, h)) \<and>
       (\<forall>c. live s' c \<longleftrightarrow> live s c \<and> \<not> (\<exists>l g. in_map s d l g \<and> h_chan g = c))"
    "\<not> (by2 (sv_channels s) k = None \<or> (\<exists>g. by2 (sv_channels s) k = Some (d, g))) \<Longrightarrow>
       by1 (sv_channels s') = (by1 (sv_channels s))(d := None)"
proof -
  obtain s1 where s1: "remove_channel d s = Some s1" "server_inv E s1"
    "by1 (sv_channels s1) = (by1 (sv_channels s))(d := None)"
    "by2 (sv_channels s1) = (case by1 (sv_channels s) d of None \<Rightarrow> by2 (sv_channels s)
       | Some (k, _) \<Rightarrow> (by2 (sv_channels s))(k := None))"
    "sv_handshakes s1 = sv_handshakes s" "sv_services s1 = sv_services s" "sv_runtime s1 = sv_runtime s"
    "sv_config s1 = sv_config s"
    "\<forall>c. live s1 c \<longleftrightarrow> live s c \<and> \<not> (\<exists>k h. in_map s d k h \<and> h_chan h = c)"
    by (rule remove_channel_ok [OF inv, of d])
  have wf1: "mm_wf (sv_channels s1)" by (rule server_invD(1) [OF s1(2)])
  have d1: "by1 (sv_channels s1) d = None" by (simp add: s1(3))
  have hs1: "in_handshake s1 i d k h" using hs by (simp add: in_handshake_def s1(5))
  have free: "by2 (sv_channels s1) k = None \<longleftrightarrow>
      by2 (sv_channels s) k = None \<or> (\<exists>g. by2 (sv_channels s) k = Some (d, g))"
    by (auto simp: s1(4) by1_by2 [OF server_invD(1) [OF inv], symmetric] split: option.splits)
  have reg: "hs_register i s = map_option (\<lambda>s2. s2\<lparr>sv_handshakes := (sv_handshakes s2)(i := None)\<rparr>)
      (insert_channel d k h s1)"
    using hs s1(1) by (simp add: hs_register_def in_handshake_def)
  show thesis
  proof (cases "by2 (sv_channels s1) k")
    case None
    from mm.ins_fresh [OF wf1 d1 None, of h] obtain m where m:
      "mm_insert (sv_channels s1) d k h = Some (m, Inr ())" "mm_wf m"
      "by1 m = (by1 (sv_channels s1))(d \<mapsto> (k, h))" by blast
    let ?s = "s1\<lparr>sv_channels := m, sv_handshakes := (sv_handshakes s1)(i := None)\<rparr>"
    have r: "hs_register i s = Some ?s" using m(1) by (simp add: reg insert_channel_def)
    have maps: "in_map ?s e l g \<longleftrightarrow> (if e = d then (l, g) = (k, h) else in_map s1 e l g)" for e l g
      by (auto simp: in_map_def m(3))
    have hsk: "in_handshake ?s j e l g \<longleftrightarrow> in_handshake s1 j e l g \<and> j \<noteq> i" for j e l g
      by (auto simp: in_handshake_def)
    have nod: "\<not> in_map s1 d l g" for l g by (simp add: in_map_def d1)
    have only: "owners s1 (h_chan h) = {Inr i}"
      using owners_of_handshake [OF hs1] server_invD(4) [OF s1(2)] by blast
    have own: "owners ?s c = (if c = h_chan h then {Inl d} else owners s1 c)" for c
    proof (cases "c = h_chan h")
      case True
      have "owners ?s c \<subseteq> {Inl d} \<union> (owners s1 c - {Inr i})"
        by (auto simp: owners_def maps hsk split: if_splits) blast+
      moreover have "Inl d \<in> owners ?s c" using True by (auto simp: owners_def maps)
      ultimately show ?thesis using True only by auto
    next
      case False
      have "Inr i \<notin> owners s1 c" using hs1 False by (auto simp: owners_def in_handshake_def)
      have "x \<in> owners ?s c \<longleftrightarrow> x \<in> owners s1 c" for x
      proof (cases x)
        case (Inl e)
        then show ?thesis using False nod by (cases "e = d") (auto simp: owners_iff maps)
      next
        case (Inr j)
        then show ?thesis using \<open>Inr i \<notin> owners s1 c\<close> by (cases "j = i") (auto simp: owners_iff hsk)
      qed
      with False show ?thesis by auto
    qed
    have lv: "live ?s c = live s1 c" for c by (simp add: live_def)
    have "server_inv E ?s"
    proof (unfold server_inv_def, intro conjI allI impI)
      show "mm_wf (sv_channels ?s)" by (simp add: m(2))
      show "c < sv_next ?s" if "sv_store ?s c \<noteq> None" for c
        using that server_invD(2) [OF s1(2)] by simp
      show "live ?s c \<longleftrightarrow> owners ?s c \<noteq> {}" for c
        using server_invD(3) [OF s1(2), of c] only by (simp add: lv own)
      show "x = y" if "x \<in> owners ?s c" "y \<in> owners ?s c" for c x y
        using that server_invD(4) [OF s1(2)] by (auto simp: own split: if_splits)
      show "authentic E l g" if "in_map ?s e l g" for e l g
        using that server_invD(5) [OF s1(2)] server_invD(6) [OF s1(2) hs1] by (auto simp: maps split: if_splits)
      show "authentic E l g" if "in_handshake ?s j e l g" for j e l g
        using that server_invD(6) [OF s1(2)] unfolding hsk by blast
    qed
    moreover have "\<forall>c. live ?s c \<longleftrightarrow> live s c \<and> \<not> (\<exists>l g. in_map s d l g \<and> h_chan g = c)"
      using s1(9) by (simp add: lv)
    moreover have cond: "by2 (sv_channels s) k = None \<or> (\<exists>g. by2 (sv_channels s) k = Some (d, g))"
      using free None by blast
    ultimately show thesis
      by (intro that [OF r]) (simp add: s1 m(3) | use cond in blast)+
  next
    case (Some p)
    then have ins: "mm_insert (sv_channels s1) d k h = Some (sv_channels s1, Inl (d, k, h))"
      by (intro mm.ins_occupied [OF wf1]) simp
    let ?s = "(drop_handle h s1)\<lparr>sv_handshakes := (sv_handshakes s1)(i := None)\<rparr>"
    have r: "hs_register i s = Some ?s" by (simp add: reg insert_channel_def ins)
    have maps: "in_map ?s = in_map s1" by (simp add: fun_eq_iff in_map_def)
    have hsk: "in_handshake ?s j e l g \<longleftrightarrow> in_handshake s1 j e l g \<and> j \<noteq> i" for j e l g
      by (auto simp: in_handshake_def)
    have own: "owners ?s c = owners s1 c - {Inr i}" for c
      by (auto simp: owners_def maps hsk) blast
    have lv: "live ?s c \<longleftrightarrow> live s1 c \<and> c \<noteq> h_chan h" for c
      using live_drop_handle [of h s1 c] by (simp add: live_def)
    have "server_inv E ?s"
      by (rule server_inv_release [OF s1(2) owners_of_handshake [OF hs1]])
        (simp_all add: wf1 lv own maps hsk)
    moreover have cond: "\<not> (by2 (sv_channels s) k = None \<or> (\<exists>g. by2 (sv_channels s) k = Some (d, g)))"
      using free Some by simp
    ultimately show thesis
      by (intro that [OF r]) (simp add: s1 | use cond in blast)+
  qed
qed

lemma hs_register_idle: "\<not> (\<exists>d k h. in_handshake s i d k h) \<Longrightarrow> hs_register i s = Some s"
  by (auto simp: hs_register_def in_handshake_def split: option.split hs_phase.split)

lemma data_handshake_cases:
  assumes inv: "server_inv E s"
  obtains (wrong) "by2 (sv_channels s) n = None" "do_data_channel_handshake conn n s = Some (s, Wrong_Nonce)"
  | (known) d h x where "by2 (sv_channels s) n = Some (d, h)" "sv_store s (h_chan h) = Some x"
      "\<not> ce_shutdown x"
      "do_data_channel_handshake conn n s = Some
        (if \<not> ce_receiver_alive x then (s, Stale)
         else if CHAN_SIZE * 2 \<le> length (ce_data x) then (s, Queue_Full)
         else (s\<lparr>sv_store := (sv_store s)(h_chan h \<mapsto>
                  x\<lparr>ce_data := ce_data x @ [conn], ce_arrived := Suc (ce_arrived x)\<rparr>)\<rparr>, Delivered))"
proof (cases "by2 (sv_channels s) n")
  case None
  then show ?thesis
    using that(1) mm_get2_by2 [OF server_invD(1) [OF inv], of n] by (simp add: do_data_channel_handshake_def)
next
  case (Some p)
  then obtain d h where dh: "by2 (sv_channels s) n = Some (d, h)" by (cases p) auto
  then have "in_map s d n h"
    by (simp add: in_map_def by1_by2 [OF server_invD(1) [OF inv]])
  then have "live s (h_chan h)"
    using owners_of_map server_invD(3) [OF inv] by blast
  then obtain x where x: "sv_store s (h_chan h) = Some x" "\<not> ce_shutdown x"
    by (auto simp: live_def)
  then show ?thesis
    using that(2) [OF dh x] dh mm_get2_by2 [OF server_invD(1) [OF inv], of n]
    by (simp add: do_data_channel_handshake_def)
qed

lemma data_handshake_inv:
  assumes inv: "server_inv E s" and r: "do_data_channel_handshake conn n s = Some (s', out)"
  shows "server_inv E s'"
  using inv
proof (cases rule: data_handshake_cases [where n = n and conn = conn])
  case wrong
  with r inv show ?thesis by simp
next
  case (known d h x)
  have "server_inv E (s\<lparr>sv_store := (sv_store s)(h_chan h \<mapsto>
      x\<lparr>ce_data := ce_data x @ [conn], ce_arrived := Suc (ce_arrived x)\<rparr>)\<rparr>) = server_inv E s"
    by (rule server_inv_cong) (auto simp: live_def in_handshake_def known)
  then show ?thesis using r inv known(4) by (auto split: if_splits)
qed

lemma hot_reload_ok:
  assumes inv: "server_inv E s"
  obtains s' where "handle_hot_reload E e s = Some s'" "server_inv E s'" "sv_handshakes s' = sv_handshakes s"
proof -
  have upd: "server_inv E (s\<lparr>sv_runtime := rt, sv_services := sm\<rparr>)" for rt sm
    using inv by (subst server_inv_cong [of _ s]) (auto simp: live_def in_handshake_def)
  have rm: "\<exists>s'. remove_channel d (s\<lparr>sv_runtime := rt, sv_services := sm\<rparr>) = Some s' \<and> server_inv E s' \<and>
      sv_handshakes s' = sv_handshakes s" for d rt sm
    by (rule remove_channel_ok [OF upd [where rt = rt and sm = sm], of d]) auto
  show thesis
  proof (cases e)
    case (ServerChange c)
    then show ?thesis using rm that by (cases c) (auto simp: handle_hot_reload_def Let_def)
  qed (use that inv in \<open>auto simp: handle_hot_reload_def\<close>)
qed

lemma server_step_inv:
  assumes inv: "server_inv E s" and st: "server_step E ev s = Some s'"
  shows "server_inv E s'"
proof (cases ev)
  case (Ev_hello i source nonce d)
  then show ?thesis using st inv hs_hello_inv [OF inv] by (auto simp: server_step_def split: if_splits)
next
  case (Ev_auth now i d)
  then show ?thesis using st hs_auth_inv [OF inv] by (auto simp: server_step_def)
next
  case (Ev_register i)
  show ?thesis
  proof (cases "\<exists>d k h. in_handshake s i d k h")
    case True
    then obtain d k h where "in_handshake s i d k h" by blast
    then obtain s'' where "hs_register i s = Some s''" "server_inv E s''"
      by (rule hs_register_ok [OF inv])
    with st show ?thesis by (simp add: Ev_register server_step_def)
  next
    case False
    then show ?thesis using st inv by (simp add: Ev_register server_step_def hs_register_idle)
  qed
next
  case (Ev_hello_auth_timeout i)
  then show ?thesis using st hs_timeout_inv [OF inv] by (auto simp: server_step_def)
next
  case (Ev_data conn n)
  then show ?thesis using st data_handshake_inv [OF inv] by (auto simp: server_step_def)
next
  case (Ev_reload e)
  with st hot_reload_ok [OF inv, of e] show ?thesis by (auto simp: server_step_def)
next
  case (Ev_channel_ended now n source since detail)
  then obtain rt where "s' = s\<lparr>sv_runtime := rt\<rparr>" using st by (auto simp: server_step_def)
  moreover have "server_inv E (s\<lparr>sv_runtime := rt\<rparr>) = server_inv E s"
    by (rule server_inv_cong) (auto simp: live_def in_handshake_def)
  ultimately show ?thesis using inv by simp
next
  case (Ev_pool_ended c)
  have "server_inv E (s\<lparr>sv_store := (sv_store s)(c := map_option (\<lambda>x. x\<lparr>ce_receiver_alive := False\<rparr>) (sv_store s c))\<rparr>)
      = server_inv E s"
    by (rule server_inv_cong) (auto simp: live_def in_handshake_def)
  then show ?thesis using st inv by (auto simp: Ev_pool_ended server_step_def)
qed

lemma server_run_inv: "server_inv E s \<Longrightarrow> server_run E evs s = Some s' \<Longrightarrow> server_inv E s'"
proof (induction evs arbitrary: s)
  case Nil
  then show ?case by simp
next
  case (Cons e evs)
  then obtain s1 where s1: "server_step E e s = Some s1" "server_run E evs s1 = Some s'"
    by (auto simp: bind_eq_Some_conv)
  then show ?case using Cons.IH [OF server_step_inv [OF Cons.prems(1) s1(1)]] by simp
qed

lemma by1_mm_new [simp]: "by1 mm_new d = None"
  by (simp add: by1_def mm_new_def find_entry_def)

lemma server_from_inv: "server_inv E (server_from E config runtime)"
  by (auto simp: server_inv_def server_from_def mm_wf_new live_def owners_def in_map_def in_handshake_def)

text \<open>A diagnostic that \<open>safe_error\<close> can cut.\<close>

fun event_total :: "'c server_event \<Rightarrow> bool" where
  "event_total (Ev_channel_ended _ _ _ _ detail) \<longleftrightarrow> truncate_str detail 512 \<noteq> None"
| "event_total _ \<longleftrightarrow> True"

lemma server_disconnected_total:
  "truncate_str d 512 \<noteq> None \<Longrightarrow> \<exists>rt. server_disconnected now r n a t (Some d) = Some rt"
proof -
  assume "truncate_str d 512 \<noteq> None"
  then obtain m where "truncate_str d 512 = Some m" by blast
  then show ?thesis
    by (cases "rs_services r n"; cases "the (rs_services r n)")
       (simp_all add: server_disconnected_def with_server_def Let_def safe_error_def)
qed

lemma server_step_total:
  assumes inv: "server_inv E s" and tot: "event_total ev"
  shows "\<exists>s'. server_step E ev s = Some s'"
proof (cases ev)
  case (Ev_register i)
  show ?thesis
  proof (cases "\<exists>d k h. in_handshake s i d k h")
    case True
    then obtain d k h where "in_handshake s i d k h" by blast
    then obtain s'' where "hs_register i s = Some s''" by (rule hs_register_ok [OF inv])
    then show ?thesis by (simp add: Ev_register server_step_def)
  qed (simp add: Ev_register server_step_def hs_register_idle)
next
  case (Ev_data conn n)
  from inv show ?thesis
    by (cases rule: data_handshake_cases [where n = n and conn = conn]) (simp_all add: Ev_data server_step_def)
next
  case (Ev_reload e)
  obtain s' where "handle_hot_reload E e s = Some s'" by (rule hot_reload_ok [OF inv])
  then show ?thesis by (simp add: Ev_reload server_step_def)
next
  case (Ev_channel_ended now n source since detail)
  with tot server_disconnected_total [of detail now "sv_runtime s" n source since]
  show ?thesis by (auto simp: server_step_def)
qed (simp_all add: server_step_def)

lemma server_run_total:
  "server_inv E s \<Longrightarrow> list_all event_total evs \<Longrightarrow> \<exists>s'. server_run E evs s = Some s'"
proof (induction evs arbitrary: s)
  case (Cons e evs)
  then obtain s1 where "server_step E e s = Some s1" using server_step_total by fastforce
  then show ?case using Cons server_step_inv by fastforce
qed simp

section \<open>Only authenticated peers\<close>

definition presented :: "'c server_event list \<Rightarrow> nonce \<Rightarrow> bool" where
  "presented evs k \<longleftrightarrow> (\<exists>now i a. Ev_auth now i a \<in> set evs \<and> digest_eq k a)"

lemma remove_channel_maps:
  assumes inv: "server_inv E s" and r: "remove_channel d s = Some s'"
  shows "in_map s' e k h \<longleftrightarrow> in_map s e k h \<and> e \<noteq> d"
    and "in_handshake s' i e k h \<longleftrightarrow> in_handshake s i e k h"
proof -
  have "by1 (sv_channels s') = (by1 (sv_channels s))(d := None) \<and> sv_handshakes s' = sv_handshakes s"
    by (rule remove_channel_ok [OF inv, of d]) (use r in simp)
  then show "in_map s' e k h \<longleftrightarrow> in_map s e k h \<and> e \<noteq> d"
    "in_handshake s' i e k h \<longleftrightarrow> in_handshake s i e k h"
    by (simp_all add: in_map_def in_handshake_def)
qed

lemma hs_auth_cases:
  obtains (idle) "fst (hs_auth E now i a s) = s"
  | (ended) rt where "fst (hs_auth E now i a s) =
      s\<lparr>sv_handshakes := (sv_handshakes s)(i := None), sv_runtime := rt\<rparr>"
  | (created) e n svc src rt h s1 where "sv_handshakes s i = Some (Awaiting_Auth e n svc src)"
      "digest_eq (sha256 E (token_bytes svc @ n)) a"
      "handle_new svc (s\<lparr>sv_runtime := rt\<rparr>) = (h, s1)"
      "fst (hs_auth E now i a s) =
        s1\<lparr>sv_handshakes := (sv_handshakes s)(i \<mapsto> Registering e (sha256 E (token_bytes svc @ n)) h)\<rparr>"
proof (cases "\<exists>e n svc src. sv_handshakes s i = Some (Awaiting_Auth e n svc src)")
  case True
  then obtain e n svc src where ph: "sv_handshakes s i = Some (Awaiting_Auth e n svc src)" by blast
  obtain rt r where sc: "server_connected now (sv_runtime s) (ssc_name svc) src = (rt, r)"
    by (cases "server_connected now (sv_runtime s) (ssc_name svc) src")
  obtain h s1 where hn: "handle_new svc (s\<lparr>sv_runtime := rt\<rparr>) = (h, s1)"
    by (cases "handle_new svc (s\<lparr>sv_runtime := rt\<rparr>)")
  show ?thesis
  proof (cases "digest_eq (sha256 E (token_bytes svc @ n)) a")
    case False
    then show ?thesis using ended [of "sv_runtime s"] by (simp add: hs_auth_def ph Let_def)
  next
    case True
    then show ?thesis using ended [of rt] created [OF ph True hn]
      by (cases r) (simp_all add: hs_auth_def ph Let_def sc hn)
  qed
next
  case False
  then have "fst (hs_auth E now i a s) = s"
    by (auto simp: hs_auth_def split: option.split hs_phase.split)
  then show ?thesis by (rule idle)
qed

lemma hs_auth_maps:
  "in_map (fst (hs_auth E now i a s)) e k h \<longleftrightarrow> in_map s e k h"
  "in_handshake (fst (hs_auth E now i a s)) j e k h \<Longrightarrow> in_handshake s j e k h \<or> digest_eq k a"
  by (rule hs_auth_cases [of E now i a s];
      auto simp: in_map_def in_handshake_def handle_new_def split: if_splits)+

lemma hs_register_maps:
  assumes inv: "server_inv E s" and r: "hs_register i s = Some s'"
  shows "in_map s' e l g \<Longrightarrow> in_map s e l g \<or> in_handshake s i e l g"
    and "in_handshake s' j e l g \<Longrightarrow> in_handshake s j e l g"
proof -
  have "(in_map s' e l g \<longrightarrow> in_map s e l g \<or> in_handshake s i e l g) \<and>
      (in_handshake s' j e l g \<longrightarrow> in_handshake s j e l g)"
  proof (cases "\<exists>d k h. in_handshake s i d k h")
    case True
    then obtain d k h where hs: "in_handshake s i d k h" by blast
    have "sv_handshakes s' = (sv_handshakes s)(i := None) \<and>
        (by1 (sv_channels s') = (by1 (sv_channels s))(d \<mapsto> (k, h)) \<or>
         by1 (sv_channels s') = (by1 (sv_channels s))(d := None))"
    proof (rule hs_register_ok [OF inv hs])
      fix t
      let ?free = "by2 (sv_channels s) k = None \<or> (\<exists>g. by2 (sv_channels s) k = Some (d, g))"
      assume t: "hs_register i s = Some t" "sv_handshakes t = (sv_handshakes s)(i := None)"
        and "?free \<Longrightarrow> by1 (sv_channels t) = (by1 (sv_channels s))(d \<mapsto> (k, h)) \<and>
          (\<forall>c. live t c \<longleftrightarrow> live s c \<and> \<not> (\<exists>l g. in_map s d l g \<and> h_chan g = c))"
        and "\<not> ?free \<Longrightarrow> by1 (sv_channels t) = (by1 (sv_channels s))(d := None)"
      then have "by1 (sv_channels t) = (by1 (sv_channels s))(d \<mapsto> (k, h)) \<or>
         by1 (sv_channels t) = (by1 (sv_channels s))(d := None)" by blast
      with t r show ?thesis by simp
    qed
    then show ?thesis using hs by (auto simp: in_map_def in_handshake_def split: if_splits)
  next
    case False
    then show ?thesis using r by (simp add: hs_register_idle)
  qed
  then show "in_map s' e l g \<Longrightarrow> in_map s e l g \<or> in_handshake s i e l g"
    "in_handshake s' j e l g \<Longrightarrow> in_handshake s j e l g" by blast+
qed

lemma hs_timeout_maps:
  "in_map (hs_timeout i s) e k h \<longleftrightarrow> in_map s e k h"
  "in_handshake (hs_timeout i s) j e k h \<Longrightarrow> in_handshake s j e k h"
  by (auto simp: hs_timeout_def in_map_def in_handshake_def Let_def split: option.splits hs_phase.splits if_splits)

lemma hs_hello_maps:
  "in_map (fst (hs_hello E i source nonce d s)) e k h \<longleftrightarrow> in_map s e k h"
  "in_handshake (fst (hs_hello E i source nonce d s)) j e k h \<Longrightarrow> in_handshake s j e k h"
  by (auto simp: hs_hello_def in_map_def in_handshake_def Let_def split: option.splits if_splits)

lemma data_handshake_maps:
  assumes inv: "server_inv E s" and r: "do_data_channel_handshake conn n s = Some (s', out)"
  shows "in_map s' e k h \<longleftrightarrow> in_map s e k h" "in_handshake s' j e k h \<longleftrightarrow> in_handshake s j e k h"
  by (rule data_handshake_cases [OF inv, of n conn]; use r in
      \<open>auto simp: in_map_def in_handshake_def split: if_splits\<close>)+

lemma hot_reload_maps:
  assumes inv: "server_inv E s" and r: "handle_hot_reload E e s = Some s'"
  shows "in_map s' d k h \<Longrightarrow> in_map s d k h" "in_handshake s' j d k h \<longleftrightarrow> in_handshake s j d k h"
proof -
  have upd: "server_inv E (s\<lparr>sv_runtime := rt, sv_services := sm\<rparr>)" for rt sm
    using inv by (subst server_inv_cong [of _ s]) (auto simp: live_def in_handshake_def)
  have "s' = s \<or> (\<exists>x rt sm. remove_channel x (s\<lparr>sv_runtime := rt, sv_services := sm\<rparr>) = Some s')"
    using r by (auto simp: handle_hot_reload_def Let_def split: config_change.splits server_service_change.splits)
  then have "(in_map s' d k h \<longrightarrow> in_map s d k h) \<and> (in_handshake s' j d k h \<longleftrightarrow> in_handshake s j d k h)"
  proof
    assume "\<exists>x rt sm. remove_channel x (s\<lparr>sv_runtime := rt, sv_services := sm\<rparr>) = Some s'"
    then obtain x rt sm where x: "remove_channel x (s\<lparr>sv_runtime := rt, sv_services := sm\<rparr>) = Some s'" by blast
    from remove_channel_maps [OF upd x] show ?thesis by (simp add: in_map_def in_handshake_def)
  qed simp
  then show "in_map s' d k h \<Longrightarrow> in_map s d k h" "in_handshake s' j d k h \<longleftrightarrow> in_handshake s j d k h"
    by blast+
qed

lemma server_step_maps:
  assumes inv: "server_inv E s" and st: "server_step E ev s = Some s'"
  shows "in_map s' d k h \<Longrightarrow> in_map s d k h \<or> (\<exists>i. in_handshake s i d k h)"
    and "in_handshake s' j d k h \<Longrightarrow>
      in_handshake s j d k h \<or> (\<exists>now i a. ev = Ev_auth now i a \<and> digest_eq k a)"
proof -
  have "(in_map s' d k h \<longrightarrow> in_map s d k h \<or> (\<exists>i. in_handshake s i d k h)) \<and>
    (in_handshake s' j d k h \<longrightarrow> in_handshake s j d k h \<or> (\<exists>now i a. ev = Ev_auth now i a \<and> digest_eq k a))"
  proof (cases ev)
    case (Ev_hello i source nonce x)
    then show ?thesis using st
      by (auto simp: server_step_def hs_hello_maps(1) dest: hs_hello_maps(2) split: if_splits)
  next
    case (Ev_auth now i a)
    then show ?thesis using st by (auto simp: server_step_def hs_auth_maps(1) dest: hs_auth_maps(2))
  next
    case (Ev_register i)
    with st have "hs_register i s = Some s'" by (simp add: server_step_def)
    then show ?thesis using hs_register_maps [OF inv] by blast
  next
    case (Ev_hello_auth_timeout i)
    then show ?thesis using st by (auto simp: server_step_def hs_timeout_maps(1) dest: hs_timeout_maps(2))
  next
    case (Ev_data conn n)
    with st obtain out where "do_data_channel_handshake conn n s = Some (s', out)"
      by (auto simp: server_step_def)
    then show ?thesis using data_handshake_maps [OF inv] by blast
  next
    case (Ev_reload e)
    with st have "handle_hot_reload E e s = Some s'" by (simp add: server_step_def)
    then show ?thesis using hot_reload_maps [OF inv] by blast
  qed (use st in \<open>auto simp: server_step_def in_map_def in_handshake_def\<close>)
  then show "in_map s' d k h \<Longrightarrow> in_map s d k h \<or> (\<exists>i. in_handshake s i d k h)"
    "in_handshake s' j d k h \<Longrightarrow>
      in_handshake s j d k h \<or> (\<exists>now i a. ev = Ev_auth now i a \<and> digest_eq k a)" by blast+
qed

lemma server_run_presented:
  assumes "server_inv E s" "server_run E evs s = Some s'"
    and "\<forall>d k h. in_map s d k h \<longrightarrow> P k" "\<forall>i d k h. in_handshake s i d k h \<longrightarrow> P k"
    and "\<forall>now i a k. Ev_auth now i a \<in> set evs \<longrightarrow> digest_eq k a \<longrightarrow> P k"
  shows "in_map s' d k h \<Longrightarrow> P k"
  using assms
proof (induction evs arbitrary: s)
  case (Cons e evs)
  then obtain s1 where s1: "server_step E e s = Some s1" "server_run E evs s1 = Some s'"
    by (auto simp: bind_eq_Some_conv)
  have "\<forall>d k h. in_map s1 d k h \<longrightarrow> P k"
    using server_step_maps(1) [OF Cons.prems(2) s1(1)] Cons.prems(4,5) by blast
  moreover have "\<forall>i d k h. in_handshake s1 i d k h \<longrightarrow> P k"
    using server_step_maps(2) [OF Cons.prems(2) s1(1)] Cons.prems(5,6) by (metis list.set_intros(1))
  moreover have "server_inv E s1" by (rule server_step_inv [OF Cons.prems(2) s1(1)])
  ultimately show ?case
    using Cons.IH [of s1] Cons.prems(1,6) s1(2) by (meson list.set_intros(2))
qed auto

section \<open>Hot reload reaches the services\<close>

text \<open>
  The map by digest represents a map by name, on a set of names without hash collisions.
\<close>

definition hashed :: "env \<Rightarrow> string set \<Rightarrow> server_service_config services \<Rightarrow> service_map \<Rightarrow> bool" where
  "hashed E S m M \<longleftrightarrow> inj_on (name_digest E) S \<and> dom m \<subseteq> S \<and>
     (\<forall>n \<in> S. M (name_digest E n) = m n) \<and> (\<forall>x. x \<notin> name_digest E ` S \<longrightarrow> M x = None)"

lemma hashed_unique:
  assumes "hashed E S m M" "hashed E S m M'"
  shows "M = M'"
proof (rule ext)
  fix x
  show "M x = M' x"
  proof (cases "x \<in> name_digest E ` S")
    case True
    then obtain n where "n \<in> S" "x = name_digest E n" by blast
    then show ?thesis using assms by (simp add: hashed_def)
  next
    case False
    then show ?thesis using assms by (simp add: hashed_def)
  qed
qed

lemma hashed_upd_opt:
  assumes h: "hashed E S m M" and n: "n \<in> S"
  shows "hashed E S (m(n := v)) (M(name_digest E n := v))"
proof -
  have inj: "name_digest E k = name_digest E n \<longleftrightarrow> k = n" if "k \<in> S" for k
    using h n that inj_on_eq_iff [of "name_digest E" S k n] by (simp add: hashed_def)
  have "dom (m(n := v)) \<subseteq> S" using h n by (auto simp: hashed_def split: if_splits)
  moreover have "\<forall>k \<in> S. (M(name_digest E n := v)) (name_digest E k) = (m(n := v)) k"
    using h inj by (simp add: hashed_def)
  moreover have "\<forall>x. x \<notin> name_digest E ` S \<longrightarrow> (M(name_digest E n := v)) x = None"
    using h n by (auto simp: hashed_def)
  ultimately show ?thesis using h by (simp add: hashed_def)
qed

lemmas hashed_upd = hashed_upd_opt [where v = "Some c" for c]
  and hashed_del = hashed_upd_opt [where v = None]

lemma hashed_fold:
  "hashed E S m M \<Longrightarrow> fst ` set kvs \<subseteq> S \<Longrightarrow>
   hashed E S (fold (\<lambda>(n, c) m. m(n \<mapsto> c)) kvs m) (fold (\<lambda>(n, c) ret. ret(name_digest E n \<mapsto> c)) kvs M)"
  by (induction kvs arbitrary: m M) (auto simp: hashed_upd)

lemma fold_upd_map_of:
  "distinct_keys kvs \<Longrightarrow> fold (\<lambda>(n, c) m. m(n \<mapsto> c)) kvs m = m ++ map_of kvs"
proof (induction kvs arbitrary: m)
  case (Cons e kvs)
  obtain n c where e: "e = (n, c)" by (cases e)
  have n: "n \<notin> dom (map_of kvs)" using Cons.prems by (auto simp: e dom_map_of_conv_image_fst)
  have "fold (\<lambda>(n, c) m. m(n \<mapsto> c)) kvs (m(n \<mapsto> c)) = m(n \<mapsto> c) ++ map_of kvs"
    by (rule Cons.IH) (use Cons.prems in \<open>simp add: e\<close>)
  then show ?case
    by (simp only: e fold_simps prod.case map_of.simps fst_conv snd_conv map_add_upd map_add_upd_left [OF n])
qed simp

lemma generate_service_hashmap_hashed:
  assumes "distinct_keys (sc_services c)" "fst ` set (sc_services c) \<subseteq> S" "inj_on (name_digest E) S"
  shows "hashed E S (map_of (sc_services c)) (generate_service_hashmap E c)"
proof -
  have "hashed E S Map.empty Map.empty" using assms(3) by (simp add: hashed_def)
  from hashed_fold [OF this assms(2)] show ?thesis
    by (simp add: generate_service_hashmap_def fold_upd_map_of [OF assms(1)])
qed

fun change_names :: "config_change \<Rightarrow> string set" where
  "change_names (ServerChange (Server_Add c)) = {ssc_name c}"
| "change_names (ServerChange (Server_Delete n)) = {n}"
| "change_names _ = {}"

lemma hot_reload_services:
  assumes inv: "server_inv E s" and r: "handle_hot_reload E e s = Some s'"
    and h: "hashed E S m (sv_services s)" and n: "change_names e \<subseteq> S"
  shows "hashed E S (apply_server_change e m) (sv_services s')"
proof -
  have upd: "server_inv E (s\<lparr>sv_runtime := rt, sv_services := sm\<rparr>)" for rt sm
    using inv by (subst server_inv_cong [of _ s]) (auto simp: live_def in_handshake_def)
  have rm: "remove_channel x (s\<lparr>sv_runtime := rt, sv_services := sm\<rparr>) = Some s' \<Longrightarrow> sv_services s' = sm" for x rt sm
    by (rule remove_channel_ok [OF upd [where rt = rt and sm = sm], of x]) auto
  show ?thesis
  proof (cases e)
    case (ServerChange c)
    with r rm h n show ?thesis
      by (cases c) (auto simp: handle_hot_reload_def Let_def hashed_upd hashed_del)
  qed (use r h in \<open>auto simp: handle_hot_reload_def\<close>)
qed

lemma reload_run_services:
  assumes "server_inv E s" "server_run E (map Ev_reload es) s = Some s'"
    and "hashed E S m (sv_services s)" "\<forall>e \<in> set es. change_names e \<subseteq> S"
  shows "hashed E S (fold apply_server_change es m) (sv_services s')"
  using assms
proof (induction es arbitrary: s m)
  case Nil
  then show ?case by simp
next
  case (Cons e es)
  then obtain s1 where s1: "handle_hot_reload E e s = Some s1" "server_run E (map Ev_reload es) s1 = Some s'"
    by (auto simp: bind_eq_Some_conv server_step_def)
  have "server_inv E s1"
    using server_step_inv [OF Cons.prems(1), of "Ev_reload e"] s1(1) by (simp add: server_step_def)
  moreover have "hashed E S (apply_server_change e m) (sv_services s1)"
    using hot_reload_services [OF Cons.prems(1) s1(1) Cons.prems(3)] Cons.prems(4) by simp
  ultimately show ?case using Cons.IH [of s1 "apply_server_change e m"] s1(2) Cons.prems(4) by simp
qed

text \<open>The events between two configurations name services of either, and lead from one to the other.\<close>

lemma server_changes_named:
  assumes "wf_config old" "wf_config new" "same_but_services old new"
    and "cfg_server old = Some so" "cfg_server new = Some sn" "e \<in> set (events_of old new)"
  shows "change_names e \<subseteq> fst ` set (sc_services so) \<union> fst ` set (sc_services sn)"
proof (cases e)
  case (ServerChange c)
  show ?thesis
  proof (cases c)
    case (Server_Add x)
    then have "server_services new (ssc_name x) = Some x"
      using assms(6) ServerChange events_of_exact [OF assms(1-3), of "[]" x] by simp
    then have "map_of (sc_services sn) (ssc_name x) \<noteq> None"
      using assms(5) by (simp add: server_services_def)
    then show ?thesis unfolding map_of_eq_None_iff by (simp add: ServerChange Server_Add)
  next
    case (Server_Delete n)
    then have "server_services old n \<noteq> None"
      using assms(6) ServerChange events_of_exact [OF assms(1-3), of n] by simp
    then have "map_of (sc_services so) n \<noteq> None"
      using assms(4) by (simp add: server_services_def)
    then show ?thesis unfolding map_of_eq_None_iff by (simp add: ServerChange Server_Delete)
  qed
qed simp_all

lemma client_changes_skip: "list_all is_client_change w \<Longrightarrow> fold apply_server_change w m = m"
proof (induction w)
  case (Cons x w)
  then show ?case by (cases x) simp_all
qed simp

lemma server_changes_fold:
  assumes "wf_config old" "wf_config new" "same_but_services old new"
    and "cfg_server old = Some so" "cfg_server new = Some sn"
  shows "fold apply_server_change (events_of old new) (map_of (sc_services so)) = map_of (sc_services sn)"
proof -
  obtain v w where ev: "events_of old new = v @ w"
    and v: "side_events server_config_eq server_events (cfg_server old) (cfg_server new) = Some v"
    and w: "side_events client_config_eq client_events (cfg_client old) (cfg_client new) = Some w"
    using events_of_sides [OF assms(3)] .
  have "list_all is_client_change w"
    using w client_events_kind by (auto simp: side_events_def split: option.splits if_splits)
  moreover have "map_option (apsnd (fold apply_server_change v)) (map_option server_view (cfg_server old)) =
      map_option server_view (cfg_server new)"
    using side_server_sync [OF _ _ _ v] assms(1,2,4,5) by (simp add: wf_config_def)
  ultimately show ?thesis using assms(4,5) client_changes_skip by (simp add: ev server_view_def)
qed

section \<open>The handshake on one connection\<close>

text \<open>
  What the server sends and does on a connection whose peer sends the digest \<open>d\<close>: its hello
  with the nonce, then the verdict.
\<close>

lemma handshake_outcome:
  assumes env: "bincode_env (codec E) (name_digest E)" and d: "wf_digest d"
    and svc: "sv_services s sd = Some svc"
  shows "\<exists>s' e. do_control_channel_handshake E now i src nonce sd (ser_auth (codec E) (Auth d) @ rest) s
      = (if digest_eq (sha256 E (token_bytes svc @ nonce)) d
            \<and> snd (server_connected now (sv_runtime s) (ssc_name svc) src) \<noteq> None
         then map_option (\<lambda>s'. (s', ser_hello (codec E) (ControlChannelHello 1 nonce) @ ser_ack (codec E) Ok, None))
                (hs_register i (fst (hs_auth E now i d (fst (hs_hello E i src nonce sd s)))))
         else Some (s', ser_hello (codec E) (ControlChannelHello 1 nonce) @
             ser_ack (codec E) (if digest_eq (sha256 E (token_bytes svc @ nonce)) d then Ok else AuthFailed), Some e))"
proof -
  have ra: "read_auth (codec E) (packet_len E) (ser_auth (codec E) (Auth d) @ rest) = Inr (Auth d, rest)"
    unfolding packet_len_def by (rule read_auth_written [OF env d])
  obtain rt r where sc: "server_connected now (sv_runtime s) (ssc_name svc) src = (rt, r)"
    by (cases "server_connected now (sv_runtime s) (ssc_name svc) src")
  show ?thesis
    by (cases "digest_eq (sha256 E (token_bytes svc @ nonce)) d"; cases r)
       (simp_all add: do_control_channel_handshake_def hs_hello_def svc Let_def ra hs_auth_def sc
         CURRENT_PROTO_VERSION_def PROTO_V1_def handle_new_def)
qed

section \<open>Sample data\<close>

definition toy_sha :: "bytes \<Rightarrow> digest" where
  "toy_sha bs = take 32 (bs @ replicate 32 0)"

definition sample_env :: env where
  "sample_env = \<lparr>sha256 = toy_sha, codec = bincode_v1\<rparr>"

lemma toy_sha_wf: "wf_digest (toy_sha bs)"
  by (simp add: wf_digest_def toy_sha_def HASH_WIDTH_IN_BYTES_def)

lemma sample_env_ok: "bincode_env (codec sample_env) (name_digest sample_env)"
  by (simp add: bincode_env_def sample_env_def bincode_v1_ok name_digest_def toy_sha_wf)

definition sample_state :: "nat server" where
  "sample_state = server_from sample_env (normal_server sample_server) (server_registry 1 0 [''ssh'', ''dns''])"

section \<open>Properties\<close>


definition sample_trace :: "nat server_event list" where
  "sample_trace =
     [Ev_hello 0 (V4 1 5) (replicate 32 7) (name_digest sample_env ''ssh''),
      Ev_auth 5 0 (toy_sha (bytes_of_str ''t0'' @ replicate 32 7)), Ev_register 0,
      Ev_data 3 (toy_sha (bytes_of_str ''t0'' @ replicate 32 7))]"


text \<open>
  C4. Only a peer that proved the token gets a control channel: every channel in the map has as
  its session key the hash of its service's token and some nonce, and an authentication
  message equal to that key was received on a connection that was waiting for it.
\<close>

theorem registered_channels_authenticated:
  assumes "server_run E evs (server_from E config rt) = Some s"
    and "by1 (sv_channels s) d = Some (k, h)"
  shows "(\<exists>now i a. Ev_auth now i a \<in> set evs \<and> digest_eq k a) \<and>
    (\<exists>nonce. k = sha256 E (token_bytes (h_service h) @ nonce))"
proof
  have m: "in_map s d k h" using assms(2) by (simp add: in_map_def)
  then show "\<exists>nonce. k = sha256 E (token_bytes (h_service h) @ nonce)"
    using server_invD(5) [OF server_run_inv [OF server_from_inv assms(1)]] by (simp add: authentic_def)
  show "\<exists>now i a. Ev_auth now i a \<in> set evs \<and> digest_eq k a"
    by (rule server_run_presented [OF server_from_inv assms(1) _ _ _ m])
      (auto simp: in_map_def in_handshake_def server_from_def)
qed

text \<open>
  A new control channel supersedes the old one: registering succeeds, makes the new channel
  the service's, signals the old one to stop, and leaves the channels of all other services
  alone, given a session key that no other service's channel has.
\<close>

theorem registration_supersedes:
  assumes "server_inv E s" "sv_handshakes s i = Some (Registering d k h)" "by2 (sv_channels s) k = None"
  shows "\<exists>s'. hs_register i s = Some s' \<and> server_inv E s' \<and>
    by1 (sv_channels s') = (by1 (sv_channels s))(d \<mapsto> (k, h)) \<and> live s' (h_chan h) \<and>
    (\<forall>c. live s c \<and> \<not> live s' c \<longleftrightarrow> (\<exists>k0 h0. by1 (sv_channels s) d = Some (k0, h0) \<and> h_chan h0 = c))"
proof -
  have hs: "in_handshake s i d k h" using assms(2) by (simp add: in_handshake_def)
  obtain s' where s': "hs_register i s = Some s'" "server_inv E s'"
    "by1 (sv_channels s') = (by1 (sv_channels s))(d \<mapsto> (k, h))"
    "\<forall>c. live s' c \<longleftrightarrow> live s c \<and> \<not> (\<exists>l g. in_map s d l g \<and> h_chan g = c)"
    by (rule hs_register_ok [OF assms(1) hs]) (use assms(3) in blast)
  have "in_map s' d k h" using s'(3) by (simp add: in_map_def)
  then have "live s' (h_chan h)" using owners_of_map server_invD(3) [OF s'(2)] by blast
  moreover have "live s c" if "in_map s d k0 h0" "h_chan h0 = c" for c k0 h0
    using owners_of_map [OF that(1)] that(2) server_invD(3) [OF assms(1)] by blast
  ultimately show ?thesis using s' by (auto simp: in_map_def)
qed

text \<open>
  C6. A data channel goes to the control channel whose session key it shows and to nobody else:
  with an unknown key nothing changes; with a known one only that channel's queue grows, by
  this connection at its end, together with its count of arrivals, unless the channel's pool is
  gone or its queue is full, and then nothing changes.
\<close>

theorem data_channel_routed:
  assumes "server_inv E s"
  shows "\<exists>s' out. do_data_channel_handshake conn k s = Some (s', out) \<and>
    (out = Wrong_Nonce \<longleftrightarrow> by2 (sv_channels s) k = None) \<and>
    (if out \<noteq> Delivered then s' = s
     else \<exists>d h x. by2 (sv_channels s) k = Some (d, h) \<and> sv_store s (h_chan h) = Some x \<and>
       s' = s\<lparr>sv_store := (sv_store s)(h_chan h \<mapsto>
              x\<lparr>ce_data := ce_data x @ [conn], ce_arrived := Suc (ce_arrived x)\<rparr>)\<rparr>)"
  using assms
proof (cases rule: data_handshake_cases [where n = k and conn = conn])
  case wrong
  then show ?thesis by simp
next
  case (known d h x)
  then show ?thesis by (cases "ce_receiver_alive x"; cases "CHAN_SIZE * 2 \<le> length (ce_data x)") auto
qed

theorem data_channel_routed_witness:
  "\<exists>s' out. do_data_channel_handshake 3 (replicate 32 1) sample_state = Some (s', out) \<and>
    (out = Wrong_Nonce \<longleftrightarrow> by2 (sv_channels sample_state) (replicate 32 1) = None) \<and>
    (if out \<noteq> Delivered then s' = sample_state
     else \<exists>d h x. by2 (sv_channels sample_state) (replicate 32 1) = Some (d, h) \<and>
       sv_store sample_state (h_chan h) = Some x \<and>
       s' = sample_state\<lparr>sv_store := (sv_store sample_state)(h_chan h \<mapsto>
              x\<lparr>ce_data := ce_data x @ [3], ce_arrived := Suc (ce_arrived x)\<rparr>)\<rparr>)"
  by (rule data_channel_routed [where E = sample_env]) (simp add: sample_state_def server_from_inv)

text \<open>
  C7. Hot reload of services: after the events for a new configuration (nothing but services
  changed, no hash collision among the names), the server looks services up exactly as a
  server freshly started from the new configuration would.
\<close>

theorem reload_equals_restart:
  assumes "server_inv E s" "wf_config old" "wf_config new" "same_but_services old new"
    and "cfg_server old = Some so" "cfg_server new = Some sn"
    and "inj_on (name_digest E) (fst ` set (sc_services so) \<union> fst ` set (sc_services sn))"
    and "sv_services s = generate_service_hashmap E so"
    and "server_run E (map Ev_reload (events_of old new)) s = Some s'"
  shows "sv_services s' = generate_service_hashmap E sn"
proof -
  let ?S = "fst ` set (sc_services so) \<union> fst ` set (sc_services sn)"
  have wf: "wf_server_services so" "wf_server_services sn"
    using assms(2,3,5,6) by (simp_all add: wf_config_def)
  have names: "\<forall>e \<in> set (events_of old new). change_names e \<subseteq> ?S"
    using server_changes_named [OF assms(2-6)] by blast
  have "hashed E ?S (map_of (sc_services so)) (sv_services s)"
    using generate_service_hashmap_hashed [of so ?S E] wf(1) assms(7,8) by (simp add: wf_server_services_def)
  from reload_run_services [OF assms(1,9) this names]
  have 1: "hashed E ?S (fold apply_server_change (events_of old new) (map_of (sc_services so))) (sv_services s')" .
  with server_changes_fold [OF assms(2-6)]
  have "hashed E ?S (map_of (sc_services sn)) (sv_services s')" by simp
  moreover have "hashed E ?S (map_of (sc_services sn)) (generate_service_hashmap E sn)"
    using wf(2) assms(7) by (intro generate_service_hashmap_hashed) (auto simp: wf_server_services_def)
  ultimately show ?thesis by (rule hashed_unique)
qed

theorem reload_equals_restart_witness:
  "\<exists>s'. server_run sample_env (map Ev_reload (events_of sample_config sample_config2)) sample_state = Some s' \<and>
    sv_services s' = generate_service_hashmap sample_env
      (normal_server (sample_server\<lparr>sc_services := tl (sc_services sample_server)\<rparr>))"
proof -
  have inv: "server_inv sample_env sample_state" by (simp add: sample_state_def server_from_inv)
  have "list_all event_total (map Ev_reload (events_of sample_config sample_config2) :: nat server_event list)"
    by (simp add: list_all_iff)
  from server_run_total [OF inv this] obtain s' where
    s': "server_run sample_env (map Ev_reload (events_of sample_config sample_config2)) sample_state = Some s'" ..
  have inj: "inj_on (name_digest sample_env) (fst ` set (sc_services (normal_server sample_server)) \<union>
      fst ` set (sc_services (normal_server (sample_server\<lparr>sc_services := tl (sc_services sample_server)\<rparr>))))"
  proof -
    have "name_digest sample_env ''ssh'' \<noteq> name_digest sample_env ''dns''" by code_simp
    then show ?thesis
      by (auto simp: normal_server_def sample_server_def fill_server_def)
  qed
  have "sv_services s' = generate_service_hashmap sample_env
      (normal_server (sample_server\<lparr>sc_services := tl (sc_services sample_server)\<rparr>))"
    by (rule reload_equals_restart [OF inv sample_configs_wf sample_configs_rest _ _ inj _ s'])
      (simp_all add: sample_config_def sample_config2_def sample_state_def server_from_def)
  with s' show ?thesis by blast
qed

definition sample_after :: "nat server" where
  "sample_after = the (server_run sample_env sample_trace sample_state)"

lemma sample_after_run: "server_run sample_env sample_trace sample_state = Some sample_after"
proof -
  have "\<exists>s. server_run sample_env sample_trace sample_state = Some s"
    by (rule server_run_total [where E = sample_env])
      (simp_all add: sample_state_def server_from_inv sample_trace_def)
  then show ?thesis by (auto simp: sample_after_def)
qed

theorem registered_channels_authenticated_witness:
  "\<exists>k h. by1 (sv_channels sample_after) (name_digest sample_env ''ssh'') = Some (k, h) \<and>
    (\<exists>now i a. Ev_auth now i a \<in> set sample_trace \<and> digest_eq k a) \<and>
    (\<exists>nonce. k = sha256 sample_env (token_bytes (h_service h) @ nonce))"
proof -
  have "by1 (sv_channels sample_after) (name_digest sample_env ''ssh'') \<noteq> None"
    by code_simp
  then obtain k h where kh: "by1 (sv_channels sample_after) (name_digest sample_env ''ssh'') = Some (k, h)"
    by auto
  from registered_channels_authenticated [OF sample_after_run [unfolded sample_state_def] kh] kh
  show ?thesis by blast
qed

definition sample_registering :: "nat server" where
  "sample_registering = the (server_run sample_env (take 2 sample_trace) sample_state)"

theorem registration_supersedes_witness:
  "\<exists>k h s'. hs_register 0 sample_registering = Some s' \<and>
    by1 (sv_channels s') = (by1 (sv_channels sample_registering))(name_digest sample_env ''ssh'' \<mapsto> (k, h)) \<and>
    live s' (h_chan h)"
proof -
  obtain s where s: "server_run sample_env (take 2 sample_trace) sample_state = Some s"
    using server_run_total [where E = sample_env and s = sample_state and evs = "take 2 sample_trace"]
    by (auto simp: sample_state_def server_from_inv sample_trace_def)
  then have inv: "server_inv sample_env sample_registering"
    using server_run_inv [OF server_from_inv, of sample_env "take 2 sample_trace"]
    by (simp add: sample_registering_def sample_state_def)
  let ?k = "toy_sha (bytes_of_str ''t0'' @ replicate 32 7)"
  have "(case sv_handshakes sample_registering 0 of Some (Registering d k h) \<Rightarrow>
      d = name_digest sample_env ''ssh'' \<and> k = ?k | _ \<Rightarrow> False)" by code_simp
  then obtain h where h: "sv_handshakes sample_registering 0 = Some (Registering (name_digest sample_env ''ssh'') ?k h)"
    by (auto split: option.splits hs_phase.splits)
  have "by2 (sv_channels sample_registering) ?k = None" by code_simp
  from registration_supersedes [OF inv h this] show ?thesis by blast
qed

text \<open>
  Comparing session keys without early exit is equality of digests.
\<close>

theorem digest_eq_correct:
  assumes "wf_digest a" "wf_digest b"
  shows "digest_eq a b = (a = b)"
  using assms by (simp add: wf_digest_def digest_eq_iff)

theorem digest_eq_correct_witness:
  "digest_eq (replicate 32 3) (replicate 32 3) = (replicate 32 (3 :: u8) = replicate 32 3)"
  by (rule digest_eq_correct) (simp_all add: wf_digest_def HASH_WIDTH_IN_BYTES_def)

text \<open>
  The data channel budget is twice the heartbeat interval, saturating at the largest 64-bit
  value and never under 10 seconds; in particular it never wraps to a small value.
\<close>

theorem data_channel_timeout_exact:
  "unat (data_channel_timeout h) = max (min (2 * unat h) (2 ^ 64 - 1)) 10"
  by (rule data_channel_timeout_value)

section \<open>Two races between a handshake and a hot reload\<close>

text \<open>
  The service is looked up before the peer's authentication message arrives. If a hot reload
  changes the token in between, the old token still authenticates, and the channel that is
  registered serves the old configuration although the reload was there to drop it.
\<close>

definition changed_ssh :: server_service_config where
  "changed_ssh = (server_service_with_name ''ssh'')\<lparr>ssc_bind_addr := ''0.0.0.0:5202'',
     ssc_token := Some (MaskedString ''new'')\<rparr>"

lemma old_token_survives_reload:
  "case server_run sample_env
     [Ev_hello 0 (V4 1 5) (replicate 32 7) (name_digest sample_env ''ssh''),
      Ev_reload (ServerChange (Server_Add changed_ssh)),
      Ev_auth 5 0 (toy_sha (bytes_of_str ''t0'' @ replicate 32 7)), Ev_register 0] sample_state of
     None \<Rightarrow> False
   | Some s \<Rightarrow>
       map_option ssc_token (sv_services s (name_digest sample_env ''ssh'')) = Some (Some (MaskedString ''new'')) \<and>
       map_option (\<lambda>x. ssc_token (h_service (snd x))) (by1 (sv_channels s) (name_digest sample_env ''ssh'')) =
         Some (Some (MaskedString ''t0''))"
  by code_simp

text \<open>
  If the service is deleted between the authentication and the insertion under the map's lock,
  the channel is inserted all the same and serves a service that is no longer configured.
\<close>

lemma deleted_service_gets_channel:
  "case server_run sample_env
     [Ev_hello 0 (V4 1 5) (replicate 32 7) (name_digest sample_env ''ssh''),
      Ev_auth 5 0 (toy_sha (bytes_of_str ''t0'' @ replicate 32 7)),
      Ev_reload (ServerChange (Server_Delete ''ssh'')), Ev_register 0] sample_state of
     None \<Rightarrow> False
   | Some s \<Rightarrow>
       sv_services s (name_digest sample_env ''ssh'') = None \<and>
       by1 (sv_channels s) (name_digest sample_env ''ssh'') \<noteq> None"
  by code_simp

end
