(* ===== verification/Control_Channel.thy ===== *)
theory Control_Channel
  imports Server
begin

text \<open>
  \<open>src/server.rs\<close>, \<open>ControlChannel::run\<close>: the loop of one control channel as a timed step
  relation. A state records the clock (milliseconds), when the current \<open>select!\<close> started
  (its heartbeat sleep is created anew in every iteration), the number of data channels
  requested and not yet arrived, and their deadline; the commands written are the output.
\<close>

section \<open>The loop\<close>

record cc_state =
  cc_now :: nat
  cc_iteration :: nat
  cc_pending :: u32
  cc_deadline :: "nat option"
  cc_arrived_closed :: bool
  cc_written :: "(nat \<times> control_channel_cmd) list"
  cc_result :: "(anyhow + unit) option"

text \<open>
  What the branches of \<open>select!\<close> see: a request (\<open>Some\<close>) or the closed request queue, an arrival
  or the closed arrival queue, the two timers, and the shutdown signal. Writing a command may
  fail, which ends the loop without error.
\<close>

datatype cc_event =
    Request bool
  | Requests_Closed
  | Arrived
  | Arrivals_Closed
  | Deadline_Fired
  | Heartbeat_Fired bool
  | Shutdown_Received

definition cc_timeout_ms :: "u64 \<Rightarrow> nat" where
  "cc_timeout_ms timeout_secs = 1000 * unat timeout_secs"

definition cc_stuck :: "u64 \<Rightarrow> anyhow" where
  "cc_stuck timeout_secs =
     Err (''No data channel arrived within '' @ string_of_nat (unat timeout_secs) @
          ''s; the control channel is stuck'')"

text \<open>Whether a branch can be taken now.\<close>

fun cc_enabled :: "u64 \<Rightarrow> cc_state \<Rightarrow> cc_event \<Rightarrow> bool" where
  "cc_enabled hb s Arrived \<longleftrightarrow> \<not> cc_arrived_closed s"
| "cc_enabled hb s Arrivals_Closed \<longleftrightarrow> \<not> cc_arrived_closed s"
| "cc_enabled hb s Deadline_Fired \<longleftrightarrow> (case cc_deadline s of None \<Rightarrow> False | Some d \<Rightarrow> d \<le> cc_now s)"
| "cc_enabled hb s (Heartbeat_Fired _) \<longleftrightarrow> hb \<noteq> 0 \<and> cc_iteration s + 1000 * unat hb \<le> cc_now s"
| "cc_enabled hb s _ \<longleftrightarrow> True"

text \<open>The body of the branch; the next iteration of \<open>select!\<close> starts at the current time.\<close>

fun cc_branch :: "u64 \<Rightarrow> u64 \<Rightarrow> cc_event \<Rightarrow> cc_state \<Rightarrow> cc_state" where
  "cc_branch hb timeout (Request write_ok) s =
     (if write_ok then
        s\<lparr>cc_written := cc_written s @ [(cc_now s, CreateDataChannel)],
          cc_pending := cc_pending s + 1,
          cc_deadline := (if cc_deadline s = None then Some (cc_now s + cc_timeout_ms timeout) else cc_deadline s),
          cc_iteration := cc_now s\<rparr>
      else s\<lparr>cc_result := Some (Inr ())\<rparr>)"
| "cc_branch hb timeout Requests_Closed s = s\<lparr>cc_result := Some (Inr ())\<rparr>"
| "cc_branch hb timeout Arrived s =
     (let p = saturating_sub_u32 (cc_pending s) 1 in
      s\<lparr>cc_pending := p,
        cc_deadline := (if 0 < p then Some (cc_now s + cc_timeout_ms timeout) else None),
        cc_iteration := cc_now s\<rparr>)"
| "cc_branch hb timeout Arrivals_Closed s = s\<lparr>cc_arrived_closed := True, cc_iteration := cc_now s\<rparr>"
| "cc_branch hb timeout Deadline_Fired s = s\<lparr>cc_result := Some (Inl (cc_stuck timeout))\<rparr>"
| "cc_branch hb timeout (Heartbeat_Fired write_ok) s =
     (if write_ok then
        s\<lparr>cc_written := cc_written s @ [(cc_now s, HeartBeat)], cc_iteration := cc_now s\<rparr>
      else s\<lparr>cc_result := Some (Inr ())\<rparr>)"
| "cc_branch hb timeout Shutdown_Received s = s\<lparr>cc_result := Some (Inr ())\<rparr>"

definition cc_start :: "nat \<Rightarrow> cc_state" where
  "cc_start t = \<lparr>cc_now = t, cc_iteration = t, cc_pending = 0, cc_deadline = None,
     cc_arrived_closed = False, cc_written = [], cc_result = None\<rparr>"

text \<open>
  A step of the loop: time passes, or an enabled branch is taken. Time does not pass a timer
  that is ready: the runtime polls the loop when a timer fires.
\<close>

definition cc_quiet_until :: "u64 \<Rightarrow> cc_state \<Rightarrow> nat \<Rightarrow> bool" where
  "cc_quiet_until hb s t \<longleftrightarrow>
     (\<forall>d. cc_deadline s = Some d \<longrightarrow> t \<le> d) \<and> (hb \<noteq> 0 \<longrightarrow> t \<le> cc_iteration s + 1000 * unat hb)"

inductive cc_step :: "u64 \<Rightarrow> u64 \<Rightarrow> cc_event option \<Rightarrow> cc_state \<Rightarrow> cc_state \<Rightarrow> bool"
  for hb timeout :: u64 where
  tick: "cc_result s = None \<Longrightarrow> cc_now s \<le> t \<Longrightarrow> cc_quiet_until hb s t \<Longrightarrow>
    cc_step hb timeout None s (s\<lparr>cc_now := t\<rparr>)"
| branch: "cc_result s = None \<Longrightarrow> cc_enabled hb s e \<Longrightarrow>
    cc_step hb timeout (Some e) s (cc_branch hb timeout e s)"

inductive cc_run :: "u64 \<Rightarrow> u64 \<Rightarrow> cc_state \<Rightarrow> cc_event list \<Rightarrow> cc_state \<Rightarrow> bool"
  for hb timeout :: u64 where
  refl: "cc_run hb timeout s [] s"
| tick: "cc_run hb timeout s es s1 \<Longrightarrow> cc_step hb timeout None s1 s2 \<Longrightarrow> cc_run hb timeout s es s2"
| event: "cc_run hb timeout s es s1 \<Longrightarrow> cc_step hb timeout (Some e) s1 s2 \<Longrightarrow>
    cc_run hb timeout s (es @ [e]) s2"

inductive_cases cc_step_tickE: "cc_step hb timeout None s s'"
inductive_cases cc_step_eventE: "cc_step hb timeout (Some e) s s'"

section \<open>The deadline\<close>

definition is_request :: "cc_event \<Rightarrow> bool" where
  "is_request e \<longleftrightarrow> e = Request True"

text \<open>
  Outstanding requests after a list of events: every arrival answers one, if there is one.
\<close>

fun outstanding :: "cc_event list \<Rightarrow> nat \<Rightarrow> nat" where
  "outstanding [] n = n"
| "outstanding (e # es) n =
     outstanding es (if e = Request True then Suc n else if e = Arrived then n - 1 else n)"

lemma outstanding_snoc:
  "outstanding (es @ [e]) n =
     (let m = outstanding es n in if e = Request True then Suc m else if e = Arrived then m - 1 else m)"
  by (induction es arbitrary: n) (auto simp: Let_def)

lemma outstanding_le: "outstanding es n \<le> n + length (filter is_request es)"
proof (induction es arbitrary: n)
  case (Cons e es)
  show ?case using Cons.IH [of "Suc n"] Cons.IH [of "n - 1"] Cons.IH [of n]
    by (auto simp: is_request_def)
qed simp

definition cc_inv :: "u64 \<Rightarrow> u64 \<Rightarrow> cc_event list \<Rightarrow> cc_state \<Rightarrow> bool" where
  "cc_inv hb timeout es s \<longleftrightarrow>
     unat (cc_pending s) = outstanding es 0 \<and>
     (cc_deadline s = None \<longleftrightarrow> outstanding es 0 = 0) \<and>
     (\<forall>d. cc_deadline s = Some d \<longrightarrow> d \<le> cc_now s + cc_timeout_ms timeout \<and>
        (cc_result s = None \<longrightarrow> cc_now s \<le> d)) \<and>
     cc_iteration s \<le> cc_now s \<and>
     (cc_result s = None \<longrightarrow> hb \<noteq> 0 \<longrightarrow> cc_now s \<le> cc_iteration s + 1000 * unat hb)"

lemma cc_run_inv:
  assumes "cc_run hb timeout (cc_start t) es s" "length (filter is_request es) < 2 ^ 32"
  shows "cc_inv hb timeout es s"
  using assms
proof (induction "cc_start t" es s rule: cc_run.induct)
  case refl
  then show ?case by (simp add: cc_inv_def cc_start_def)
next
  case (tick es s1 s2)
  then show ?case by (auto simp: cc_inv_def cc_quiet_until_def elim!: cc_step_tickE)
next
  case (event es s1 e s2)
  then have inv: "cc_inv hb timeout es s1" by simp
  from event(3) have run: "cc_result s1 = None" and s2: "s2 = cc_branch hb timeout e s1"
    by (auto elim: cc_step_eventE)
  show ?case
  proof (cases "e = Request True")
    case True
    have "outstanding es 0 < 2 ^ 32 - 1"
      using outstanding_le [of es 0] event(4) by (simp add: True is_request_def)
    then have "unat (cc_pending s1) < 2 ^ 32 - 1" using inv by (simp add: cc_inv_def)
    from unat_suc_u32 [OF this] show ?thesis
      using inv run by (auto simp: cc_inv_def s2 True outstanding_snoc cc_timeout_ms_def)
  next
    case False
    show ?thesis
    proof (cases "e = Arrived")
      case True
      define p where "p = saturating_sub_u32 (cc_pending s1) 1"
      have "unat p = outstanding es 0 - 1"
        using inv by (simp add: p_def unat_saturating_sub_u32 cc_inv_def)
      moreover from this have "0 < p \<longleftrightarrow> outstanding es 0 - 1 \<noteq> 0"
        by (metis unat_eq_zero word_gt_0)
      ultimately show ?thesis
        using inv run by (auto simp: cc_inv_def s2 True outstanding_snoc p_def [symmetric] Let_def)
    next
      case other: False
      then show ?thesis
        using inv run False
        by (cases e) (auto simp: cc_inv_def s2 outstanding_snoc Let_def split: if_splits)
    qed
  qed
qed

section \<open>The gap between commands\<close>

definition cc_heartbeat_ms :: "u64 \<Rightarrow> nat" where
  "cc_heartbeat_ms hb = 1000 * unat hb"

definition last_write :: "nat \<Rightarrow> cc_state \<Rightarrow> nat" where
  "last_write t s = (if cc_written s = [] then t else fst (last (cc_written s)))"

text \<open>Iterations since the last command that ended without writing one.\<close>

fun silent_iterations :: "cc_event list \<Rightarrow> nat \<Rightarrow> nat" where
  "silent_iterations [] n = n"
| "silent_iterations (e # es) n = silent_iterations es (case e of
     Request w \<Rightarrow> 0 | Heartbeat_Fired w \<Rightarrow> 0 | Arrived \<Rightarrow> Suc n | Arrivals_Closed \<Rightarrow> Suc n | _ \<Rightarrow> n)"

lemma silent_iterations_snoc:
  "silent_iterations (es @ [e]) n = (case e of
     Request w \<Rightarrow> 0 | Heartbeat_Fired w \<Rightarrow> 0 | Arrived \<Rightarrow> Suc (silent_iterations es n)
   | Arrivals_Closed \<Rightarrow> Suc (silent_iterations es n) | _ \<Rightarrow> silent_iterations es n)"
  by (cases e; induction es arbitrary: n) simp_all

definition gap_inv :: "u64 \<Rightarrow> nat \<Rightarrow> cc_event list \<Rightarrow> cc_state \<Rightarrow> bool" where
  "gap_inv hb t es s \<longleftrightarrow> cc_result s = None \<longrightarrow>
     cc_iteration s \<le> last_write t s + silent_iterations es 0 * cc_heartbeat_ms hb \<and>
     cc_now s \<le> cc_iteration s + cc_heartbeat_ms hb"

lemma cc_run_gap:
  assumes "cc_run hb timeout (cc_start t) es s" "hb \<noteq> 0"
  shows "gap_inv hb t es s"
  using assms(1)
proof (induction "cc_start t" es s rule: cc_run.induct)
  case refl
  then show ?case by (simp add: gap_inv_def cc_start_def last_write_def)
next
  case (tick es s1 s2)
  then show ?case using assms(2)
    by (auto simp: gap_inv_def cc_quiet_until_def cc_heartbeat_ms_def last_write_def elim!: cc_step_tickE)
next
  case (event es s1 e s2)
  from event(3) have run: "cc_result s1 = None" and s2: "s2 = cc_branch hb timeout e s1"
    by (auto elim: cc_step_eventE)
  show ?case
    using event(2) run
    by (cases e) (auto simp: gap_inv_def s2 last_write_def silent_iterations_snoc Let_def)
qed

section \<open>Properties\<close>


text \<open>
  Only a fired deadline ends a control channel with an error: whenever the loop has failed, its
  last event was the deadline, a requested channel was outstanding, and the message names the
  budget; every other end of the loop is without error.
\<close>

theorem control_channel_fails_only_when_stuck:
  assumes "cc_run hb timeout (cc_start t) es s" "length (filter is_request es) < 2 ^ 32"
    and "cc_result s = Some (Inl e)"
  shows "e = cc_stuck timeout \<and> (\<exists>es'. es = es' @ [Deadline_Fired] \<and> 0 < outstanding es' 0)"
  using assms
proof (induction "cc_start t" es s rule: cc_run.induct)
  case refl
  then show ?case by (simp add: cc_start_def)
next
  case (tick es s1 s2)
  then show ?case by (auto elim: cc_step_tickE)
next
  case (event es s1 ev s2)
  from event(3) have run: "cc_result s1 = None" and en: "cc_enabled hb s1 ev"
    and s2: "s2 = cc_branch hb timeout ev s1" by (auto elim: cc_step_eventE)
  have ev: "ev = Deadline_Fired" "e = cc_stuck timeout"
    using event(5) run by (cases ev; auto simp: s2 Let_def split: if_splits)+
  have "cc_inv hb timeout es s1" using event(1,4) by (intro cc_run_inv) auto
  then have "0 < outstanding es 0"
    using en by (auto simp: cc_inv_def ev split: option.splits)
  then show ?case by (simp add: ev)
qed

text \<open>
  Heartbeats: the time since the last command the client saw is at most one heartbeat interval
  for the current iteration plus one for each arrival (which writes nothing but starts the
  sleep anew) since that command.
\<close>

theorem heartbeat_gap_bound:
  assumes "cc_run hb timeout (cc_start t) es s" "hb \<noteq> 0" "cc_result s = None"
  shows "cc_now s \<le> last_write t s + (1 + silent_iterations es 0) * cc_heartbeat_ms hb"
  using cc_run_gap [OF assms(1,2)] assms(3) by (simp add: gap_inv_def)

section \<open>A control channel whose heartbeat is late\<close>

text \<open>
  With the default interval of 30 seconds (budget 60), a request is written at time 0 and its
  data channel arrives after 29 seconds. The sleep restarts at the arrival, so at 59 seconds
  nothing has been written since time 0, which is longer than a client's default heartbeat timeout
  of 40 seconds.
\<close>

definition late_events :: "cc_event list" where
  "late_events = [Request True, Arrived]"

definition late_state :: cc_state where
  "late_state = \<lparr>cc_now = 59000, cc_iteration = 29000, cc_pending = 0, cc_deadline = None,
     cc_arrived_closed = False, cc_written = [(0, CreateDataChannel)], cc_result = None\<rparr>"

lemma late_run: "cc_run 30 (data_channel_timeout 30) (cc_start 0) late_events late_state"
proof -
  have t: "cc_timeout_ms (data_channel_timeout 30) = 60000"
    by (simp add: cc_timeout_ms_def data_channel_timeout_value)
  let ?R = "cc_run 30 (data_channel_timeout 30) (cc_start 0)"
  have "?R ([] @ [Request True]) (cc_branch 30 (data_channel_timeout 30) (Request True) (cc_start 0))"
    by (rule cc_run.event [OF cc_run.refl], rule cc_step.branch) (simp_all add: cc_start_def)
  then have 1: "?R [Request True] \<lparr>cc_now = 0, cc_iteration = 0, cc_pending = 1, cc_deadline = Some 60000,
     cc_arrived_closed = False, cc_written = [(0, CreateDataChannel)], cc_result = None\<rparr>"
    by (simp add: cc_start_def t)
  have "?R [Request True] (\<lparr>cc_now = 0, cc_iteration = 0, cc_pending = 1, cc_deadline = Some 60000,
     cc_arrived_closed = False, cc_written = [(0, CreateDataChannel)], cc_result = None\<rparr>\<lparr>cc_now := 29000\<rparr>)"
    by (rule cc_run.tick [OF 1], rule cc_step.tick) (simp_all add: cc_quiet_until_def)
  then have 2: "?R [Request True] \<lparr>cc_now = 29000, cc_iteration = 0, cc_pending = 1, cc_deadline = Some 60000,
     cc_arrived_closed = False, cc_written = [(0, CreateDataChannel)], cc_result = None\<rparr>"
    by simp
  have "?R ([Request True] @ [Arrived]) (cc_branch 30 (data_channel_timeout 30) Arrived
     \<lparr>cc_now = 29000, cc_iteration = 0, cc_pending = 1, cc_deadline = Some 60000,
     cc_arrived_closed = False, cc_written = [(0, CreateDataChannel)], cc_result = None\<rparr>)"
    by (rule cc_run.event [OF 2], rule cc_step.branch) simp_all
  then have 3: "?R late_events (late_state\<lparr>cc_now := 29000\<rparr>)"
    by (simp add: late_events_def late_state_def saturating_sub_u32_def Let_def)
  have "?R late_events (late_state\<lparr>cc_now := 29000\<rparr>\<lparr>cc_now := 59000\<rparr>)"
    by (rule cc_run.tick [OF 3], rule cc_step.tick) (simp_all add: late_state_def cc_quiet_until_def)
  then show ?thesis by (simp add: late_state_def)
qed

lemma heartbeat_can_be_late:
  "cc_run DEFAULT_HEARTBEAT_INTERVAL_SECS (data_channel_timeout DEFAULT_HEARTBEAT_INTERVAL_SECS)
     (cc_start 0) late_events late_state \<and> cc_result late_state = None \<and>
   1000 * unat DEFAULT_HEARTBEAT_TIMEOUT_SECS < cc_now late_state - last_write 0 late_state"
  using late_run by (simp add: DEFAULT_HEARTBEAT_INTERVAL_SECS_def DEFAULT_HEARTBEAT_TIMEOUT_SECS_def
    late_state_def last_write_def)

theorem heartbeat_gap_bound_witness:
  "cc_now late_state \<le> last_write 0 late_state + (1 + silent_iterations late_events 0) * cc_heartbeat_ms 30 \<and>
   silent_iterations late_events 0 = 1"
  using heartbeat_gap_bound [OF late_run] by (simp add: late_events_def late_state_def)


text \<open>A client that delivers nothing: with an interval of one second the deadline fires after 10.\<close>

definition stuck_state :: "nat \<Rightarrow> cc_state" where
  "stuck_state n = \<lparr>cc_now = n, cc_iteration = n, cc_pending = 1, cc_deadline = Some 10000,
     cc_arrived_closed = False, cc_written = [(0, CreateDataChannel)], cc_result = None\<rparr>"

lemma stuck_run: "cc_run 0 (data_channel_timeout 0) (cc_start 0) [Request True, Deadline_Fired]
  (\<lparr>cc_now = 10000, cc_iteration = 0, cc_pending = 1, cc_deadline = Some 10000, cc_arrived_closed = False,
    cc_written = [(0, CreateDataChannel)], cc_result = Some (Inl (cc_stuck (data_channel_timeout 0)))\<rparr>)"
proof -
  have t: "cc_timeout_ms (data_channel_timeout 0) = 10000"
    by (simp add: cc_timeout_ms_def data_channel_timeout_value)
  let ?R = "cc_run 0 (data_channel_timeout 0) (cc_start 0)"
  have "?R ([] @ [Request True]) (cc_branch 0 (data_channel_timeout 0) (Request True) (cc_start 0))"
    by (rule cc_run.event [OF cc_run.refl], rule cc_step.branch) (simp_all add: cc_start_def)
  then have 1: "?R [Request True] (stuck_state 0)"
    by (simp add: cc_start_def t stuck_state_def)
  have 2: "?R [Request True] (stuck_state 0\<lparr>cc_now := 10000\<rparr>)"
    by (rule cc_run.tick [OF 1], rule cc_step.tick) (simp_all add: cc_quiet_until_def stuck_state_def)
  have "?R ([Request True] @ [Deadline_Fired])
      (cc_branch 0 (data_channel_timeout 0) Deadline_Fired (stuck_state 0\<lparr>cc_now := 10000\<rparr>))"
    by (rule cc_run.event [OF 2], rule cc_step.branch) (simp_all add: stuck_state_def)
  then show ?thesis by (simp add: stuck_state_def)
qed

theorem control_channel_fails_only_when_stuck_witness:
  "\<exists>es'. [Request True, Deadline_Fired] = es' @ [Deadline_Fired] \<and> 0 < outstanding es' 0"
  using control_channel_fails_only_when_stuck [OF stuck_run] by (simp add: is_request_def)

end
