(* ===== verification/Server_Pools.thy ===== *)
theory Server_Pools
  imports Server "HOL-Library.Multiset" "HOL-Library.Sublist"
begin

text \<open>
  \<open>src/server.rs\<close>, the two connection pools of a control channel: the listener that accepts
  visitors (\<open>tcp_listen_and_send\<close>), the pool that pairs visitors with data channels
  (\<open>run_tcp_connection_pool\<close>) and the forwarding session of a UDP service
  (\<open>run_udp_connection_pool\<close>). Each is a partial function on events: a step is undefined
  (\<open>None\<close>) where the code would wait.
\<close>

section \<open>TCP: the listener and the pool\<close>

record ('v, 'c) tcp_pool =
  tp_listening :: bool
  tp_sending :: "'v option"
  tp_queue :: "'v list"
  tp_visitor :: "'v option"
  tp_channels :: "'c list"
  tp_requests :: nat
  tp_forwarding :: "('c \<times> 'v) list"
  tp_broken :: "'c list"
  tp_running :: bool

text \<open>
  Events of the listener: a visitor (and whether the request for a data channel could be
  sent), a failed accept, the visitor entering the bounded queue, the shutdown signal. Events
  of the pool: taking a visitor, taking a data channel (whether the command could be written and,
  if not, whether a new one could be requested), and the two closed queues. \<open>Deliver\<close> is a data
  channel handed over by its handshake.
\<close>

datatype ('v, 'c) tcp_event =
    Accept 'v bool
  | Accept_Failed
  | Enqueue
  | Listener_Shutdown
  | Take_Visitor
  | Use_Channel bool bool
  | Deliver 'c
  | Visitors_Closed
  | Channels_Closed

definition tcp_listen_and_send :: "'l race \<Rightarrow> bool" where
  "tcp_listen_and_send bound =
     (case retry_notify_with_deadline bound of
        Inr (Some l) \<Rightarrow> True
      | Inr None \<Rightarrow> False
      | Inl e \<Rightarrow> False)"

definition tcp_pool_start :: "'l race \<Rightarrow> ('v, 'c) tcp_pool" where
  "tcp_pool_start bound =
     \<lparr>tp_listening = tcp_listen_and_send bound, tp_sending = None, tp_queue = [], tp_visitor = None,
      tp_channels = [], tp_requests = TCP_POOL_SIZE, tp_forwarding = [], tp_broken = [], tp_running = True\<rparr>"

text \<open>
  The body of the listener's \<open>select!\<close>. While \<open>tx.send\<close> waits for room nothing else is accepted;
  when the pool is gone the send fails and its error is ignored.
\<close>

fun listener_step :: "('v, 'c) tcp_event \<Rightarrow> ('v, 'c) tcp_pool \<Rightarrow> ('v, 'c) tcp_pool option" where
  "listener_step (Accept v request_ok) p =
     (if tp_listening p \<and> tp_sending p = None then
        (if request_ok then Some (p\<lparr>tp_requests := Suc (tp_requests p), tp_sending := Some v\<rparr>)
         else Some (p\<lparr>tp_listening := False\<rparr>))
      else None)"
| "listener_step Accept_Failed p =
     (if tp_listening p \<and> tp_sending p = None then Some p else None)"
| "listener_step Enqueue p =
     (case tp_sending p of
        None \<Rightarrow> None
      | Some v \<Rightarrow>
          if \<not> tp_running p then Some (p\<lparr>tp_sending := None\<rparr>)
          else if length (tp_queue p) < CHAN_SIZE then Some (p\<lparr>tp_queue := tp_queue p @ [v], tp_sending := None\<rparr>)
          else None)"
| "listener_step Listener_Shutdown p =
     (if tp_listening p \<and> tp_sending p = None then Some (p\<lparr>tp_listening := False\<rparr>) else None)"
| "listener_step _ p = None"

text \<open>The two nested loops of the pool.\<close>

fun run_tcp_connection_pool :: "('v, 'c) tcp_event \<Rightarrow> ('v, 'c) tcp_pool \<Rightarrow> ('v, 'c) tcp_pool option" where
  "run_tcp_connection_pool Take_Visitor p =
     (case (tp_running p, tp_visitor p, tp_queue p) of
        (True, None, v # q) \<Rightarrow> Some (p\<lparr>tp_queue := q, tp_visitor := Some v\<rparr>)
      | _ \<Rightarrow> None)"
| "run_tcp_connection_pool (Use_Channel write_ok request_ok) p =
     (case (tp_running p, tp_visitor p, tp_channels p) of
        (True, Some v, c # cs) \<Rightarrow>
          if write_ok then
            Some (p\<lparr>tp_channels := cs, tp_forwarding := tp_forwarding p @ [(c, v)], tp_visitor := None\<rparr>)
          else if request_ok then
            Some (p\<lparr>tp_channels := cs, tp_broken := tp_broken p @ [c], tp_requests := Suc (tp_requests p)\<rparr>)
          else Some (p\<lparr>tp_channels := cs, tp_broken := tp_broken p @ [c], tp_running := False\<rparr>)
      | _ \<Rightarrow> None)"
| "run_tcp_connection_pool Visitors_Closed p =
     (if tp_running p \<and> tp_visitor p = None \<and> tp_queue p = [] \<and> \<not> tp_listening p \<and> tp_sending p = None
      then Some (p\<lparr>tp_running := False\<rparr>) else None)"
| "run_tcp_connection_pool Channels_Closed p =
     (if tp_running p \<and> tp_visitor p \<noteq> None \<and> tp_channels p = []
      then Some (p\<lparr>tp_running := False\<rparr>) else None)"
| "run_tcp_connection_pool _ p = None"

definition tcp_step :: "('v, 'c) tcp_event \<Rightarrow> ('v, 'c) tcp_pool \<Rightarrow> ('v, 'c) tcp_pool option" where
  "tcp_step e p =
     (case e of
        Deliver c \<Rightarrow>
          if tp_running p \<and> length (tp_channels p) < CHAN_SIZE * 2
          then Some (p\<lparr>tp_channels := tp_channels p @ [c]\<rparr>) else None
      | Accept _ _ \<Rightarrow> listener_step e p
      | Accept_Failed \<Rightarrow> listener_step e p
      | Enqueue \<Rightarrow> listener_step e p
      | Listener_Shutdown \<Rightarrow> listener_step e p
      | _ \<Rightarrow> run_tcp_connection_pool e p)"

fun tcp_run :: "('v, 'c) tcp_event list \<Rightarrow> ('v, 'c) tcp_pool \<Rightarrow> ('v, 'c) tcp_pool option" where
  "tcp_run [] p = Some p"
| "tcp_run (e # es) p = Option.bind (tcp_step e p) (tcp_run es)"

section \<open>What the events say\<close>

definition accepted :: "('v, 'c) tcp_event list \<Rightarrow> 'v list" where
  "accepted es = List.map_filter (\<lambda>e. case e of Accept v ok \<Rightarrow> if ok then Some v else None | _ \<Rightarrow> None) es"

definition delivered :: "('v, 'c) tcp_event list \<Rightarrow> 'c list" where
  "delivered es = List.map_filter (\<lambda>e. case e of Deliver c \<Rightarrow> Some c | _ \<Rightarrow> None) es"

definition waiting :: "('v, 'c) tcp_pool \<Rightarrow> 'v list" where
  "waiting p = (case tp_visitor p of None \<Rightarrow> [] | Some v \<Rightarrow> [v]) @ tp_queue p @
     (case tp_sending p of None \<Rightarrow> [] | Some v \<Rightarrow> [v])"

definition tcp_inv :: "'v list \<Rightarrow> 'c list \<Rightarrow> ('v, 'c) tcp_pool \<Rightarrow> bool" where
  "tcp_inv vs cs p \<longleftrightarrow>
     mset cs = mset (map fst (tp_forwarding p)) + mset (tp_broken p) + mset (tp_channels p) \<and>
     prefix (map snd (tp_forwarding p)) vs \<and>
     (tp_running p \<longrightarrow> vs = map snd (tp_forwarding p) @ waiting p \<and>
        tp_requests p = TCP_POOL_SIZE + length vs + length (tp_broken p))"

lemma accepted_snoc: "accepted (es @ [e]) = accepted es @ (case e of Accept v ok \<Rightarrow> if ok then [v] else [] | _ \<Rightarrow> [])"
  by (cases e) (simp_all add: accepted_def map_filter_def)

lemma delivered_snoc: "delivered (es @ [e]) = delivered es @ (case e of Deliver c \<Rightarrow> [c] | _ \<Rightarrow> [])"
  by (cases e) (simp_all add: delivered_def map_filter_def)

lemma prefix_snocI: "prefix xs vs \<Longrightarrow> prefix xs (vs @ [v])"
  by (auto simp: prefix_def)

lemma tcp_inv_start: "tcp_inv [] [] (tcp_pool_start b)"
  by (simp add: tcp_inv_def tcp_pool_start_def waiting_def)

lemma listener_step_inv:
  assumes "tcp_inv vs cs p" "listener_step e p = Some p'"
  shows "tcp_inv (vs @ (case e of Accept v ok \<Rightarrow> if ok then [v] else [] | _ \<Rightarrow> [])) cs p'"
  using assms
  by (cases e) (auto simp: tcp_inv_def waiting_def split: if_splits option.splits intro: prefix_snocI)

lemma pool_step_inv:
  assumes "tcp_inv vs cs p" "run_tcp_connection_pool e p = Some p'"
  shows "tcp_inv vs cs p'"
  using assms
  by (cases e) (auto simp: tcp_inv_def waiting_def split: if_splits option.splits bool.splits list.splits)

lemma tcp_step_inv:
  assumes "tcp_inv (accepted es) (delivered es) p" "tcp_step e p = Some p'"
  shows "tcp_inv (accepted (es @ [e])) (delivered (es @ [e])) p'"
proof (cases "\<exists>c. e = Deliver c")
  case True
  then show ?thesis using assms
    by (auto simp: tcp_step_def accepted_snoc delivered_snoc tcp_inv_def waiting_def split: if_splits)
next
  case False
  then show ?thesis
    using assms listener_step_inv [OF assms(1), of e p'] pool_step_inv [OF assms(1), of e p']
    by (cases e) (simp_all add: tcp_step_def delivered_snoc accepted_snoc)
qed

lemma tcp_run_inv:
  "tcp_inv (accepted es) (delivered es) p \<Longrightarrow> tcp_run es' p = Some p' \<Longrightarrow>
   tcp_inv (accepted (es @ es')) (delivered (es @ es')) p'"
proof (induction es' arbitrary: es p)
  case (Cons e es')
  then obtain q where q: "tcp_step e p = Some q" "tcp_run es' q = Some p'"
    by (auto simp: bind_eq_Some_conv)
  from Cons.IH [OF tcp_step_inv [OF Cons.prems(1) q(1)] q(2)] show ?case by simp
qed simp

lemma tcp_run_start_inv:
  "tcp_run es (tcp_pool_start b) = Some p \<Longrightarrow> tcp_inv (accepted es) (delivered es) p"
  using tcp_run_inv [of "[]" "tcp_pool_start b" es p] tcp_inv_start [of b]
  by (simp add: accepted_def delivered_def map_filter_def)

section \<open>UDP: the forwarding session\<close>

text \<open>
  A data channel: what the client sends on it until it is closed, and a sink for what the
  server writes. A pool is bound once; the shutdown signal is an event of a session.
\<close>

record udp_conn =
  uc_in :: bytes
  uc_out :: sink

record udp_pool =
  up_channels :: "udp_conn list"
  up_session :: "udp_conn option"
  up_requests :: nat
  up_broken :: nat
  up_sent :: "(socket_addr \<times> bytes) list"
  up_result :: "(anyhow + unit) option"

datatype udp_event =
    Udp_Deliver udp_conn
  | Start_Session bool
  | Udp_Channels_Closed
  | Inbound socket_addr bytes bool
  | Inbound_Error
  | Outbound bool bool
  | Udp_Shutdown

definition UDP_BUFFER_SIZE :: nat where
  "UDP_BUFFER_SIZE = 2048"

definition udp_pool_start :: "'l race \<Rightarrow> udp_pool" where
  "udp_pool_start bound =
     \<lparr>up_channels = [], up_session = None, up_requests = UDP_POOL_SIZE, up_broken = 0, up_sent = [],
      up_result = (case retry_notify_with_deadline bound of
        Inr (Some l) \<Rightarrow> None
      | Inr None \<Rightarrow> Some (Inr ())
      | Inl e \<Rightarrow> Some (Inl (Ctx ''Failed to listen for the service'' e)))\<rparr>"

text \<open>A broken data channel: a replacement is requested, or the pool ends.\<close>

definition replace_channel :: "bool \<Rightarrow> udp_pool \<Rightarrow> udp_pool" where
  "replace_channel request_ok p =
     (let q = p\<lparr>up_session := None, up_broken := Suc (up_broken p)\<rparr> in
      if request_ok then q\<lparr>up_requests := Suc (up_requests q)\<rparr> else q\<lparr>up_result := Some (Inr ())\<rparr>)"

definition start_session :: "bincode \<Rightarrow> bool \<Rightarrow> udp_conn \<Rightarrow> udp_pool \<Rightarrow> udp_pool" where
  "start_session B request_ok c p =
     (case write_and_flush write_all Inr (uc_out c) (ser_d_cmd B StartForwardUdp) of
        Inl e \<Rightarrow> replace_channel request_ok p
      | Inr w \<Rightarrow> p\<lparr>up_session := Some (c\<lparr>uc_out := w\<rparr>)\<rparr>)"

text \<open>
  A datagram from a visitor, cut to the buffer it is received in, goes to the data channel; a
  packet from the data channel goes to its visitor, and a failed \<open>send_to\<close> is ignored.
\<close>

definition forward_inbound :: "bincode \<Rightarrow> socket_addr \<Rightarrow> bytes \<Rightarrow> bool \<Rightarrow> udp_conn \<Rightarrow> udp_pool \<Rightarrow> udp_pool" where
  "forward_inbound B from data request_ok c p =
     (case write_slice B (uc_out c) from (take UDP_BUFFER_SIZE data) of
        Inl e \<Rightarrow> replace_channel request_ok p
      | Inr w \<Rightarrow> p\<lparr>up_session := Some (c\<lparr>uc_out := w\<rparr>)\<rparr>)"

definition forward_outbound :: "bincode \<Rightarrow> bool \<Rightarrow> bool \<Rightarrow> udp_conn \<Rightarrow> udp_pool \<Rightarrow> udp_pool" where
  "forward_outbound B send_ok request_ok c p =
     (case read_u8 (uc_in c) of
        Inl e \<Rightarrow> replace_channel request_ok p
      | Inr (hl, s1) \<Rightarrow>
          (case udp_read B s1 hl of
             Inl e \<Rightarrow> replace_channel request_ok p
           | Inr (t, s2) \<Rightarrow>
               p\<lparr>up_session := Some (c\<lparr>uc_in := s2\<rparr>),
                 up_sent := (if send_ok then up_sent p @ [(ut_from t, ut_data t)] else up_sent p)\<rparr>))"

fun run_udp_connection_pool :: "bincode \<Rightarrow> udp_event \<Rightarrow> udp_pool \<Rightarrow> udp_pool option" where
  "run_udp_connection_pool B (Udp_Deliver c) p =
     (if up_result p = None \<and> length (up_channels p) < CHAN_SIZE * 2
      then Some (p\<lparr>up_channels := up_channels p @ [c]\<rparr>) else None)"
| "run_udp_connection_pool B (Start_Session request_ok) p =
     (case (up_result p, up_session p, up_channels p) of
        (None, None, c # cs) \<Rightarrow> Some (start_session B request_ok c (p\<lparr>up_channels := cs\<rparr>))
      | _ \<Rightarrow> None)"
| "run_udp_connection_pool B Udp_Channels_Closed p =
     (if up_result p = None \<and> up_session p = None \<and> up_channels p = []
      then Some (p\<lparr>up_result := Some (Inr ())\<rparr>) else None)"
| "run_udp_connection_pool B (Inbound from data request_ok) p =
     (case (up_result p, up_session p) of
        (None, Some c) \<Rightarrow> Some (forward_inbound B from data request_ok c p)
      | _ \<Rightarrow> None)"
| "run_udp_connection_pool B Inbound_Error p =
     (case (up_result p, up_session p) of (None, Some c) \<Rightarrow> Some p | _ \<Rightarrow> None)"
| "run_udp_connection_pool B (Outbound send_ok request_ok) p =
     (case (up_result p, up_session p) of
        (None, Some c) \<Rightarrow> Some (forward_outbound B send_ok request_ok c p)
      | _ \<Rightarrow> None)"
| "run_udp_connection_pool B Udp_Shutdown p =
     (case (up_result p, up_session p) of
        (None, Some c) \<Rightarrow> Some (p\<lparr>up_session := None, up_result := Some (Inr ())\<rparr>)
      | _ \<Rightarrow> None)"

fun udp_run :: "bincode \<Rightarrow> udp_event list \<Rightarrow> udp_pool \<Rightarrow> udp_pool option" where
  "udp_run B [] p = Some p"
| "udp_run B (e # es) p = Option.bind (run_udp_connection_pool B e p) (udp_run B es)"

section \<open>What a UDP session carries\<close>

text \<open>The datagrams received from visitors since the current session began.\<close>

fun session_traffic :: "udp_event list \<Rightarrow> udp_traffic list \<Rightarrow> udp_traffic list" where
  "session_traffic [] ts = ts"
| "session_traffic (e # es) ts = session_traffic es (case e of
     Start_Session _ \<Rightarrow> []
   | Inbound from data _ \<Rightarrow> ts @ [\<lparr>ut_from = from, ut_data = take UDP_BUFFER_SIZE data\<rparr>]
   | _ \<Rightarrow> ts)"

definition udp_delivered :: "udp_event list \<Rightarrow> udp_conn list" where
  "udp_delivered es = List.map_filter (\<lambda>e. case e of Udp_Deliver c \<Rightarrow> Some c | _ \<Rightarrow> None) es"

fun event_ok_udp :: "udp_event \<Rightarrow> bool" where
  "event_ok_udp (Udp_Deliver c) = (uc_out c = \<lparr>written = [], takes = None\<rparr>)"
| "event_ok_udp (Inbound from data ok) = serde_addr from"
| "event_ok_udp _ = True"

definition fresh_conn :: "udp_conn \<Rightarrow> bool" where
  "fresh_conn c \<longleftrightarrow> uc_out c = \<lparr>written = [], takes = None\<rparr>"

definition traffic_inv :: "bincode \<Rightarrow> udp_traffic list \<Rightarrow> udp_pool \<Rightarrow> bool" where
  "traffic_inv B ts p \<longleftrightarrow> list_all fresh_conn (up_channels p) \<and>
     (\<forall>c. up_session p = Some c \<longrightarrow>
        list_all (\<lambda>t. serde_addr (ut_from t) \<and> length (ut_data t) \<le> UDP_BUFFER_SIZE) ts \<and>
        uc_out c = \<lparr>written = ser_d_cmd B StartForwardUdp @ concat (map (udp_frame B) ts), takes = None\<rparr>)"

lemma session_traffic_snoc:
  "session_traffic (es @ [e]) ts = (case e of
     Start_Session _ \<Rightarrow> []
   | Inbound from data _ \<Rightarrow> session_traffic es ts @ [\<lparr>ut_from = from, ut_data = take UDP_BUFFER_SIZE data\<rparr>]
   | _ \<Rightarrow> session_traffic es ts)"
  by (cases e; induction es arbitrary: ts) simp_all

lemma udp_delivered_snoc: "udp_delivered (es @ [e]) = udp_delivered es @ (case e of Udp_Deliver c \<Rightarrow> [c] | _ \<Rightarrow> [])"
  by (cases e) (simp_all add: udp_delivered_def map_filter_def)

lemma replace_channel_simps [simp]:
  "up_session (replace_channel ok p) = None"
  "up_channels (replace_channel ok p) = up_channels p"
  "up_broken (replace_channel ok p) = Suc (up_broken p)"
  "up_sent (replace_channel ok p) = up_sent p"
  "up_result (replace_channel ok p) = (if ok then up_result p else Some (Inr ()))"
  "up_requests (replace_channel ok p) = (if ok then Suc (up_requests p) else up_requests p)"
  by (simp_all add: replace_channel_def Let_def)

definition in_session :: "udp_pool \<Rightarrow> nat" where
  "in_session p = (if up_session p = None then 0 else 1)"

definition udp_count_inv :: "nat \<Rightarrow> udp_pool \<Rightarrow> bool" where
  "udp_count_inv n p \<longleftrightarrow> up_result p = None \<longrightarrow>
     n = length (up_channels p) + in_session p + up_broken p \<and>
     up_requests p = UDP_POOL_SIZE + up_broken p"

lemma session_step_count:
  assumes "udp_count_inv n p" "up_session p = Some c"
  shows "udp_count_inv n (forward_inbound B from data ok c p)"
    "udp_count_inv n (forward_outbound B sok ok c p)"
    "udp_count_inv n (replace_channel ok p)"
  using assms
  by (auto simp: udp_count_inv_def in_session_def forward_inbound_def forward_outbound_def split: sum.splits)

lemma start_session_count:
  assumes "udp_count_inv n p" "up_session p = None" "up_channels p = c # cs"
  shows "udp_count_inv n (start_session B ok c (p\<lparr>up_channels := cs\<rparr>))"
  using assms by (auto simp: udp_count_inv_def in_session_def start_session_def split: sum.splits)

lemma udp_step_count:
  assumes "udp_count_inv (length (udp_delivered es)) p" "run_udp_connection_pool B e p = Some p'"
  shows "udp_count_inv (length (udp_delivered (es @ [e]))) p'"
proof (cases e)
  case (Start_Session ok)
  then obtain c cs where "up_session p = None" "up_channels p = c # cs"
    "p' = start_session B ok c (p\<lparr>up_channels := cs\<rparr>)"
    using assms(2) by (auto split: option.splits list.splits)
  with start_session_count [OF assms(1)] show ?thesis by (simp add: Start_Session udp_delivered_snoc)
next
  case (Inbound src data ok)
  then show ?thesis using assms session_step_count(1)
    by (auto simp: udp_delivered_snoc split: option.splits)
next
  case (Outbound sok ok)
  then show ?thesis using assms session_step_count(2)
    by (auto simp: udp_delivered_snoc split: option.splits)
qed (insert assms, auto simp: udp_delivered_snoc udp_count_inv_def in_session_def
  split: option.splits if_splits)

lemma udp_run_count:
  "udp_count_inv (length (udp_delivered es)) p \<Longrightarrow> udp_run B es' p = Some p' \<Longrightarrow>
   udp_count_inv (length (udp_delivered (es @ es'))) p'"
proof (induction es' arbitrary: es p)
  case (Cons e es')
  then obtain q where q: "run_udp_connection_pool B e p = Some q" "udp_run B es' q = Some p'"
    by (auto simp: bind_eq_Some_conv)
  from Cons.IH [OF udp_step_count [OF Cons.prems(1) q(1)] q(2)] show ?case by simp
qed simp

lemma udp_run_start_count:
  "udp_run B es (udp_pool_start b) = Some p \<Longrightarrow> udp_count_inv (length (udp_delivered es)) p"
  using udp_run_count [of "[]" "udp_pool_start b" B es p]
  by (simp add: udp_count_inv_def in_session_def udp_pool_start_def udp_delivered_def map_filter_def
      retry_notify_with_deadline_def split: race.splits)

lemma write_slice_open:
  "takes w = None \<Longrightarrow>
   write_slice B w from data = Inr (w\<lparr>written := written w @ udp_frame B \<lparr>ut_from = from, ut_data = data\<rparr>\<rparr>)"
  by (simp add: write_slice_udp_write udp_write_frame)

lemma start_session_traffic:
  assumes "list_all fresh_conn (c # cs)"
  shows "traffic_inv B [] (start_session B ok c (p\<lparr>up_channels := cs\<rparr>))"
  using assms by (simp add: traffic_inv_def start_session_def fresh_conn_def write_and_flush_def io_simps)

lemma forward_inbound_traffic:
  assumes "traffic_inv B ts p" "up_session p = Some c" "serde_addr from"
  shows "traffic_inv B (ts @ [\<lparr>ut_from = from, ut_data = take UDP_BUFFER_SIZE data\<rparr>])
    (forward_inbound B from data ok c p)"
  using assms by (simp add: traffic_inv_def forward_inbound_def write_slice_open)

lemma forward_outbound_traffic:
  assumes "traffic_inv B ts p" "up_session p = Some c"
  shows "traffic_inv B ts (forward_outbound B sok ok c p)"
  using assms by (auto simp: traffic_inv_def forward_outbound_def split: sum.splits)

lemma udp_step_traffic:
  assumes "traffic_inv B (session_traffic es []) p" "run_udp_connection_pool B e p = Some p'" "event_ok_udp e"
  shows "traffic_inv B (session_traffic (es @ [e]) []) p'"
proof (cases e)
  case (Start_Session ok)
  then obtain c cs where "up_channels p = c # cs" "p' = start_session B ok c (p\<lparr>up_channels := cs\<rparr>)"
    using assms(2) by (auto split: option.splits list.splits)
  with start_session_traffic [of c cs B ok p] assms(1) show ?thesis
    by (simp add: Start_Session session_traffic_snoc traffic_inv_def)
next
  case (Inbound src data ok)
  then show ?thesis using assms forward_inbound_traffic
    by (auto simp: session_traffic_snoc split: option.splits)
next
  case (Outbound sok ok)
  then show ?thesis using assms forward_outbound_traffic
    by (auto simp: session_traffic_snoc split: option.splits)
qed (insert assms, auto simp: session_traffic_snoc traffic_inv_def fresh_conn_def
  split: option.splits if_splits)

lemma udp_run_traffic:
  "traffic_inv B (session_traffic es []) p \<Longrightarrow> udp_run B es' p = Some p' \<Longrightarrow> list_all event_ok_udp es' \<Longrightarrow>
   traffic_inv B (session_traffic (es @ es') []) p'"
proof (induction es' arbitrary: es p)
  case (Cons e es')
  then obtain q where q: "run_udp_connection_pool B e p = Some q" "udp_run B es' q = Some p'"
    by (auto simp: bind_eq_Some_conv)
  have "event_ok_udp e" "list_all event_ok_udp es'" using Cons.prems(3) by simp_all
  from Cons.IH [OF udp_step_traffic [OF Cons.prems(1) q(1) this(1)] q(2) this(2)] show ?case by simp
qed simp

lemma udp_run_start_traffic:
  "udp_run B es (udp_pool_start b) = Some p \<Longrightarrow> list_all event_ok_udp es \<Longrightarrow>
   traffic_inv B (session_traffic es []) p"
  using udp_run_traffic [of B "[]" "udp_pool_start b" es p]
  by (simp add: traffic_inv_def udp_pool_start_def)

section \<open>Properties\<close>

text \<open>
  C13. The TCP pool pairs visitors with data channels: visitors are served in the order they were
  accepted, each at most once, and every data channel that was delivered is either used for
  exactly one visitor, found broken, or still waiting.
\<close>

theorem tcp_pool_pairs_in_order:
  assumes "tcp_run es (tcp_pool_start b) = Some p"
  shows "prefix (map snd (tp_forwarding p)) (accepted es) \<and>
    mset (delivered es) = mset (map fst (tp_forwarding p)) + mset (tp_broken p) + mset (tp_channels p)"
  using tcp_run_start_inv [OF assms] by (simp add: tcp_inv_def)

text \<open>
  C14. No visitor of a running TCP pool starves for want of a request: one data channel was
  requested for every pooled slot, every accepted visitor and every broken channel, so once the
  client has delivered what was requested, there are eight more channels waiting than visitors.
\<close>

theorem tcp_pool_never_starves:
  assumes "tcp_run es (tcp_pool_start b) = Some p" "tp_running p"
  shows "tp_requests p = TCP_POOL_SIZE + length (accepted es) + length (tp_broken p) \<and>
    length (tp_channels p) + tp_requests p = length (delivered es) + TCP_POOL_SIZE + length (waiting p)"
proof -
  have i: "tcp_inv (accepted es) (delivered es) p" by (rule tcp_run_start_inv [OF assms(1)])
  have "length (delivered es) = length (tp_forwarding p) + length (tp_broken p) + length (tp_channels p)"
    using i by (metis tcp_inv_def size_mset size_union length_map)
  moreover have "length (accepted es) = length (tp_forwarding p) + length (waiting p)"
    using i assms(2) by (simp add: tcp_inv_def)
  ultimately show ?thesis using i assms(2) by (auto simp: tcp_inv_def)
qed

text \<open>
  The UDP pool works with exactly one data channel: one more was requested than broke, and
  when the client has delivered what was requested, one channel is in the session or waiting.
\<close>

theorem udp_pool_one_channel:
  assumes "udp_run B es (udp_pool_start b) = Some p" "up_result p = None"
  shows "up_requests p = UDP_POOL_SIZE + up_broken p \<and>
    length (up_channels p) + in_session p + up_requests p = length (udp_delivered es) + 1"
  using udp_run_start_count [OF assms(1)] assms(2) by (simp add: udp_count_inv_def UDP_POOL_SIZE_def)

text \<open>
  What a UDP session writes: over open connections, the client reads the command to forward
  UDP and then exactly the datagrams the visitors sent in this session, in order, each with its
  source address and cut to the 2048 bytes of the receive buffer, whatever socket errors, packets
  from the client and failed sends to visitors came in between.
\<close>

theorem udp_session_reaches_client:
  assumes "bincode_env B sha" "udp_run B es (udp_pool_start b) = Some p" "list_all event_ok_udp es"
    and "up_session p = Some c"
  shows "\<exists>s. read_data_cmd B (PacketLength_new B sha) (written (uc_out c)) = Inr (StartForwardUdp, s) \<and>
    udp_recv_many B (length (session_traffic es [])) s = Inr (session_traffic es [], [])"
proof -
  let ?ts = "session_traffic es []"
  have "traffic_inv B ?ts p" by (rule udp_run_start_traffic [OF assms(2,3)])
  then have ok: "list_all (\<lambda>t. serde_addr (ut_from t) \<and> length (ut_data t) \<le> UDP_BUFFER_SIZE) ?ts"
    and w: "written (uc_out c) = ser_d_cmd B StartForwardUdp @ concat (map (udp_frame B) ?ts)"
    using assms(4) by (simp_all add: traffic_inv_def)
  have "\<forall>t \<in> set ?ts. serde_addr (ut_from t) \<and> length (ut_data t) < 2 ^ 16"
    using ok by (auto simp: list_all_iff UDP_BUFFER_SIZE_def)
  from udp_recv_many_frames [OF bincode_envD(1) [OF assms(1)] this, of "[]"] show ?thesis
    by (simp add: w read_data_cmd_written [OF assms(1)])
qed

section \<open>Sample runs\<close>

text \<open>A visitor whose first data channel is broken; a second visitor still waits.\<close>

definition tcp_trace :: "(nat, nat) tcp_event list" where
  "tcp_trace = [Accept 100 True, Enqueue, Deliver 1, Accept_Failed, Take_Visitor, Use_Channel False True,
     Deliver 2, Use_Channel True True, Accept 101 True, Enqueue, Take_Visitor]"

definition tcp_after :: "(nat, nat) tcp_pool" where
  "tcp_after = \<lparr>tp_listening = True, tp_sending = None, tp_queue = [], tp_visitor = Some 101, tp_channels = [],
     tp_requests = 11, tp_forwarding = [(2, 100)], tp_broken = [1], tp_running = True\<rparr>"

lemma tcp_trace_run: "tcp_run tcp_trace (tcp_pool_start (Retried (Inr ()))) = Some tcp_after"
  by code_simp

theorem tcp_pool_pairs_in_order_witness:
  "prefix (map snd (tp_forwarding tcp_after)) (accepted tcp_trace) \<and>
   mset (delivered tcp_trace) = {#2#} + {#1#} + {#}"
  using tcp_pool_pairs_in_order [OF tcp_trace_run] by (simp add: tcp_after_def)

theorem tcp_pool_never_starves_witness:
  "tp_requests tcp_after = TCP_POOL_SIZE + length (accepted tcp_trace) + length (tp_broken tcp_after) \<and>
   length (tp_channels tcp_after) + tp_requests tcp_after =
     length (delivered tcp_trace) + TCP_POOL_SIZE + length (waiting tcp_after)"
  using tcp_pool_never_starves [OF tcp_trace_run] by (simp add: tcp_after_def)

text \<open>A UDP session that replaced a channel whose client had gone away.\<close>

definition open_sink :: sink where
  "open_sink = \<lparr>written = [], takes = None\<rparr>"

definition udp_trace :: "udp_event list" where
  "udp_trace = [Udp_Deliver \<lparr>uc_in = [], uc_out = open_sink\<rparr>, Start_Session True, Outbound True True,
     Udp_Deliver \<lparr>uc_in = udp_frame bincode_v1 \<lparr>ut_from = V4 9 9, ut_data = [5]\<rparr>, uc_out = open_sink\<rparr>,
     Start_Session True, Inbound (V4 9 9) [1, 2] True, Inbound_Error, Outbound True True, Inbound (V4 8 8) [] True]"

definition udp_after :: udp_pool where
  "udp_after = the (udp_run bincode_v1 udp_trace (udp_pool_start (Retried (Inr ()))))"

lemma udp_trace_run: "udp_run bincode_v1 udp_trace (udp_pool_start (Retried (Inr ()))) = Some udp_after"
proof -
  have "udp_run bincode_v1 udp_trace (udp_pool_start (Retried (Inr ()))) \<noteq> None" by code_simp
  then show ?thesis by (auto simp: udp_after_def)
qed

lemma udp_after_session: "up_result udp_after = None" "up_session udp_after \<noteq> None" "up_sent udp_after = [(V4 9 9, [5])]"
  by code_simp+

theorem udp_pool_one_channel_witness:
  "up_requests udp_after = UDP_POOL_SIZE + up_broken udp_after \<and>
   length (up_channels udp_after) + in_session udp_after + up_requests udp_after = length (udp_delivered udp_trace) + 1"
  by (rule udp_pool_one_channel [OF udp_trace_run udp_after_session(1)])

theorem udp_session_reaches_client_witness:
  "\<exists>c s. up_session udp_after = Some c \<and>
    read_data_cmd bincode_v1 (PacketLength_new bincode_v1 (\<lambda>x. replicate 32 0)) (written (uc_out c)) =
      Inr (StartForwardUdp, s) \<and>
    udp_recv_many bincode_v1 2 s = Inr ([\<lparr>ut_from = V4 9 9, ut_data = [1, 2]\<rparr>, \<lparr>ut_from = V4 8 8, ut_data = []\<rparr>], [])"
proof -
  obtain c where c: "up_session udp_after = Some c" using udp_after_session(2) by auto
  have "list_all event_ok_udp udp_trace" by (simp add: udp_trace_def open_sink_def)
  moreover have "session_traffic udp_trace [] = [\<lparr>ut_from = V4 9 9, ut_data = [1, 2]\<rparr>, \<lparr>ut_from = V4 8 8, ut_data = []\<rparr>]"
    by (simp add: udp_trace_def UDP_BUFFER_SIZE_def)
  ultimately show ?thesis
    using udp_session_reaches_client [OF bincode_v1_env udp_trace_run _ c] c by (auto simp: numeral_2_eq_2)
qed

end
