(* ===== verification/Server_Run.thy ===== *)
theory Server_Run
  imports Server
begin

text \<open>
  \<open>src/server.rs\<close>, \<open>run_server\<close>, \<open>Server::run\<close> and \<open>handle_connection\<close>: the accept loop over the
  shared state of theory \<open>Server\<close>. What the transport, the clock and the peers do are the events.
\<close>

section \<open>One incoming connection\<close>

text \<open>
  The first message decides between a control channel and a data channel. A full queue of
  data channels keeps the sender waiting until the deadline of the whole phase.
\<close>

definition hello_auth_timed_out :: anyhow where
  "hello_auth_timed_out = Ctx ''Hello/auth timed out'' (Err ''deadline has elapsed'')"

definition handle_connection ::
  "env \<Rightarrow> u64 \<Rightarrow> nat \<Rightarrow> socket_addr \<Rightarrow> nonce \<Rightarrow> 'c \<Rightarrow> bytes \<Rightarrow> 'c server \<Rightarrow>
   ('c server \<times> bytes \<times> anyhow option) option" where
  "handle_connection E now i source nonce conn input s =
     (case read_hello (codec E) (packet_len E) input of
        Inl e \<Rightarrow> Some (s, [], Some e)
      | Inr (ControlChannelHello v service_digest, rest) \<Rightarrow>
          do_control_channel_handshake E now i source nonce service_digest rest s
      | Inr (DataChannelHello v key, rest) \<Rightarrow>
          map_option (\<lambda>(s', out). (s', [],
              (case out of
                 Delivered \<Rightarrow> None
               | Wrong_Nonce \<Rightarrow> None
               | Stale \<Rightarrow> Some (Ctx ''Data channel for a stale control channel'' (Err ''channel closed''))
               | Queue_Full \<Rightarrow> Some hello_auth_timed_out)))
            (do_data_channel_handshake conn key s))"

section \<open>The accept loop\<close>

datatype 'c transport_handshake =
    Handshake_Ok 'c
  | Handshake_Err anyhow
  | Handshake_Timeout

datatype 'c loop_event =
    Accept_Err bool
  | Accepted socket_addr "'c transport_handshake"
  | Shutdown_Signal
  | Update "config_change option"
  | Task "'c server_event"

record 'c server_loop =
  lp_server :: "'c server"
  lp_spawned :: "('c \<times> socket_addr) list"
  lp_result :: "(anyhow + unit) option"

abbreviation set_runtime :: "('c server) \<Rightarrow> runtime_snapshot \<Rightarrow> 'c server" where
  "set_runtime s rt \<equiv> s\<lparr>sv_runtime := rt\<rparr>"

text \<open>
  \<open>Server::run\<close> up to the loop: the listener of an older run is invalidated before the bind.
  (\<open>None\<close> is the panic of \<open>safe_error\<close> on a message that cannot be cut.)
\<close>

definition server_bind :: "u64 \<Rightarrow> anyhow + 'l \<Rightarrow> 'c server \<Rightarrow> 'c server_loop option" where
  "server_bind now bound s =
     (let pending = server_listener_pending (sv_runtime s) in
      (case bound of
         Inl e \<Rightarrow>
           map_option (\<lambda>rt. \<lparr>lp_server = set_runtime s rt, lp_spawned = [],
               lp_result = Some (Inl (Ctx ''Failed to listen at `server.bind_addr`'' e))\<rparr>)
             (server_listener_error now pending (err_display e))
       | Inr l \<Rightarrow>
           Some \<lparr>lp_server = set_runtime s (server_listener_listening pending), lp_spawned = [],
             lp_result = None\<rparr>))"

text \<open>
  The branches of \<open>select!\<close>. The backoff of a failed accept has no maximal elapsed time, so it
  always gives a delay; errors of the transport layer are ignored.
\<close>

definition server_loop_step :: "env \<Rightarrow> 'c loop_event \<Rightarrow> 'c server_loop \<Rightarrow> 'c server_loop option" where
  "server_loop_step E ev lp =
     (if lp_result lp \<noteq> None then
        (case ev of
           Task t \<Rightarrow> map_option (\<lambda>s. lp\<lparr>lp_server := s\<rparr>) (server_step E t (lp_server lp))
         | _ \<Rightarrow> Some lp)
      else
        (case ev of
           Accept_Err is_io \<Rightarrow> Some lp
         | Accepted addr h \<Rightarrow>
             (case h of
                Handshake_Ok conn \<Rightarrow> Some (lp\<lparr>lp_spawned := lp_spawned lp @ [(conn, addr)]\<rparr>)
              | Handshake_Err e \<Rightarrow> Some lp
              | Handshake_Timeout \<Rightarrow> Some lp)
         | Shutdown_Signal \<Rightarrow>
             Some (lp\<lparr>lp_server := set_runtime (lp_server lp) (server_listener_stopped (sv_runtime (lp_server lp))),
               lp_result := Some (Inr ())\<rparr>)
         | Update None \<Rightarrow> Some lp
         | Update (Some e) \<Rightarrow> map_option (\<lambda>s. lp\<lparr>lp_server := s\<rparr>) (handle_hot_reload E e (lp_server lp))
         | Task t \<Rightarrow> map_option (\<lambda>s. lp\<lparr>lp_server := s\<rparr>) (server_step E t (lp_server lp))))"

fun server_loop_run :: "env \<Rightarrow> 'c loop_event list \<Rightarrow> 'c server_loop \<Rightarrow> 'c server_loop option" where
  "server_loop_run E [] lp = Some lp"
| "server_loop_run E (e # es) lp = Option.bind (server_loop_step E e lp) (server_loop_run E es)"

section \<open>The entry point\<close>

text \<open>
  The transport type selects the transport; its constructor is the model's of theory \<open>Transport\<close>.
\<close>

datatype ('scfg, 'ccfg, 'params) any_transport =
    Tcp_Transport tcp_transport
  | Tls_Transport "('scfg, 'ccfg) tls_transport"
  | Noise_Transport "'params noise_transport"
  | Websocket_Transport "('scfg, 'ccfg) websocket_transport"

definition new_transport ::
  "('cert, 'key, 'scfg, 'ccfg) tls_lib \<Rightarrow> 'params noise_lib \<Rightarrow> transport_config \<Rightarrow>
   anyhow + ('scfg, 'ccfg, 'params) any_transport" where
  "new_transport TL NL c =
     (case tr_type c of
        T_Tcp \<Rightarrow> rbind (tcp_new c) (\<lambda>t. Inr (Tcp_Transport t))
      | T_Tls \<Rightarrow> rbind (tls_new TL c) (\<lambda>t. Inr (Tls_Transport t))
      | T_Noise \<Rightarrow> rbind (noise_new NL c) (\<lambda>t. Inr (Noise_Transport t))
      | T_Websocket \<Rightarrow> rbind (websocket_new (tls_new TL) c) (\<lambda>t. Inr (Websocket_Transport t)))"

definition run_server ::
  "('cert, 'key, 'scfg, 'ccfg) tls_lib \<Rightarrow> 'params noise_lib \<Rightarrow> env \<Rightarrow> config \<Rightarrow> runtime_snapshot \<Rightarrow>
   anyhow + ('scfg, 'ccfg, 'params) any_transport \<times> 'c server" where
  "run_server TL NL E c runtime =
     (case cfg_server c of
        None \<Rightarrow> Inl (Err (''Try to run as a server, but the configuration is missing. '' @
                  ''Please add the `[server]` block''))
      | Some sc \<Rightarrow>
          rbind (new_transport TL NL (sc_transport sc)) (\<lambda>t. Inr (t, server_from E sc runtime)))"

section \<open>The listener in the status registry\<close>

abbreviation lp_listener :: "'c server_loop \<Rightarrow> server_listener_snapshot option" where
  "lp_listener lp \<equiv> rs_server_listener (sv_runtime (lp_server lp))"

lemma with_server_listener:
  "with_server r n f = Some r' \<Longrightarrow> rs_server_listener r' = rs_server_listener r"
  by (auto simp: with_server_def split: option.splits runtime_service_snapshot.splits)

lemma server_connected_listener:
  "rs_server_listener (fst (server_connected now r n a)) = rs_server_listener r"
  by (auto simp: server_connected_def split: option.splits runtime_service_snapshot.splits)

lemma remove_channel_runtime: "remove_channel d s = Some s' \<Longrightarrow> sv_runtime s' = sv_runtime s"
  by (auto simp: remove_channel_def drop_handle_def split: option.splits)

lemma insert_channel_runtime:
  assumes "insert_channel d k h s = Some s'"
  shows "sv_runtime s' = sv_runtime s"
proof -
  obtain m r where mr: "mm_insert (sv_channels s) d k h = Some (m, r)"
    using assms by (auto simp: insert_channel_def)
  then show ?thesis using assms
    by (cases r) (auto simp: insert_channel_def drop_handle_def)
qed

lemma hs_register_runtime:
  assumes "hs_register i s = Some s'"
  shows "sv_runtime s' = sv_runtime s"
proof (cases "\<exists>d k h. in_handshake s i d k h")
  case True
  then obtain d k h where "sv_handshakes s i = Some (Registering d k h)" by (auto simp: in_handshake_def)
  then obtain s1 s2 where "remove_channel d s = Some s1" "insert_channel d k h s1 = Some s2"
    "s' = s2\<lparr>sv_handshakes := (sv_handshakes s2)(i := None)\<rparr>"
    using assms by (auto simp: hs_register_def bind_eq_Some_conv)
  then show ?thesis using remove_channel_runtime insert_channel_runtime by fastforce
next
  case False
  then show ?thesis using assms hs_register_idle by fastforce
qed

lemma hs_auth_listener:
  "rs_server_listener (sv_runtime (fst (hs_auth E now i d s))) = rs_server_listener (sv_runtime s)"
proof (cases "\<exists>e n svc src. sv_handshakes s i = Some (Awaiting_Auth e n svc src)")
  case True
  then obtain e n svc src where ph: "sv_handshakes s i = Some (Awaiting_Auth e n svc src)" by blast
  obtain rt r where sc: "server_connected now (sv_runtime s) (ssc_name svc) src = (rt, r)"
    by (cases "server_connected now (sv_runtime s) (ssc_name svc) src")
  have "rs_server_listener rt = rs_server_listener (sv_runtime s)"
    using server_connected_listener [of now "sv_runtime s" "ssc_name svc" src] by (simp add: sc)
  then show ?thesis
    by (cases r; cases "digest_eq (sha256 E (token_bytes svc @ n)) d")
       (simp_all add: hs_auth_def ph Let_def sc handle_new_def)
next
  case False
  then show ?thesis by (auto simp: hs_auth_def split: option.split hs_phase.split)
qed

lemma hot_reload_listener:
  assumes "handle_hot_reload E e s = Some s'"
  shows "rs_server_listener (sv_runtime s') = rs_server_listener (sv_runtime s)"
proof (cases e)
  case (ServerChange c)
  then show ?thesis using assms
    by (cases c) (auto simp: handle_hot_reload_def Let_def server_add_def remove_service_def
        dest!: remove_channel_runtime)
qed (use assms in \<open>simp_all add: handle_hot_reload_def\<close>)

lemma data_handshake_runtime:
  assumes "do_data_channel_handshake conn n s = Some (s', out)"
  shows "sv_runtime s' = sv_runtime s"
proof -
  obtain r where r: "mm_get2 (sv_channels s) n = Some r"
    using assms by (auto simp: do_data_channel_handshake_def)
  show ?thesis
  proof (cases r)
    case None
    then show ?thesis using assms by (simp add: do_data_channel_handshake_def r)
  next
    case (Some h)
    then show ?thesis using assms
      by (cases "sv_store s (h_chan h)") (auto simp: do_data_channel_handshake_def r split: if_splits)
  qed
qed

lemma server_step_listener:
  assumes "server_step E ev s = Some s'"
  shows "rs_server_listener (sv_runtime s') = rs_server_listener (sv_runtime s)"
proof (cases ev)
  case (Ev_hello i source nonce d)
  then show ?thesis using assms
    by (auto simp: server_step_def hs_hello_def Let_def split: if_splits option.splits)
next
  case (Ev_auth now i d)
  then show ?thesis using assms hs_auth_listener [of E now i d s] by (simp add: server_step_def)
next
  case (Ev_register i)
  then show ?thesis using assms hs_register_runtime [of i s s'] by (simp add: server_step_def)
next
  case (Ev_hello_auth_timeout i)
  then show ?thesis using assms
    by (auto simp: server_step_def hs_timeout_def Let_def drop_handle_def split: option.splits hs_phase.splits)
next
  case (Ev_data conn nonce)
  then show ?thesis using assms
    by (auto simp: server_step_def dest: data_handshake_runtime)
next
  case (Ev_reload e)
  then show ?thesis using assms hot_reload_listener by (simp add: server_step_def)
next
  case (Ev_channel_ended now n source since detail)
  then show ?thesis using assms
    by (auto simp: server_step_def server_disconnected_def dest: with_server_listener)
next
  case (Ev_pool_ended c)
  then show ?thesis using assms by (auto simp: server_step_def)
qed

definition listener_inv :: "'c server_loop \<Rightarrow> bool" where
  "listener_inv lp \<longleftrightarrow> (case lp_result lp of
     None \<Rightarrow> map_option sl_state (lp_listener lp) = Some L_Listening
   | Some (Inr u) \<Rightarrow> map_option sl_state (lp_listener lp) = Some L_Stopped
   | Some (Inl e) \<Rightarrow> map_option sl_state (lp_listener lp) = Some L_Error)"

lemma server_bind_listener:
  assumes "rs_server_listener (sv_runtime s) \<noteq> None" "server_bind now bound s = Some lp"
  shows "listener_inv lp \<and> (lp_result lp = None) = is_ok bound \<and> lp_result lp \<noteq> Some (Inr ())"
  using assms
  by (cases bound) (auto simp: server_bind_def Let_def listener_inv_def server_listener_error_def
      server_listener_pending_def server_listener_listening_def)

lemma loop_step_listener:
  assumes "listener_inv lp" "server_loop_step E ev lp = Some lp'"
  shows "listener_inv lp'"
proof (cases "\<exists>e. lp_result lp = Some e")
  case True
  then obtain e where "lp_result lp = Some e" by blast
  then show ?thesis using assms
    by (cases e) (auto simp: server_loop_step_def listener_inv_def split: loop_event.splits dest!: server_step_listener)
next
  case False
  then show ?thesis using assms
    by (auto simp: server_loop_step_def listener_inv_def server_listener_stopped_def
        split: loop_event.splits transport_handshake.splits option.splits
        dest!: server_step_listener hot_reload_listener)
qed

lemma loop_step_result:
  assumes "server_loop_step E ev lp = Some lp'"
  shows "lp_result lp' = (if lp_result lp = None \<and> ev = Shutdown_Signal then Some (Inr ()) else lp_result lp)"
  using assms
  by (cases "lp_result lp")
     (auto simp: server_loop_step_def split: loop_event.splits transport_handshake.splits option.splits)

lemma loop_run_listener:
  "listener_inv lp \<Longrightarrow> server_loop_run E es lp = Some lp' \<Longrightarrow> listener_inv lp'"
  by (induction es arbitrary: lp) (auto simp: bind_eq_Some_conv dest: loop_step_listener)

lemma loop_run_result:
  "server_loop_run E es lp = Some lp' \<Longrightarrow>
   lp_result lp' = (if lp_result lp = None \<and> Shutdown_Signal \<in> set es then Some (Inr ()) else lp_result lp)"
proof (induction es arbitrary: lp)
  case (Cons e es)
  then obtain q where q: "server_loop_step E e lp = Some q" "server_loop_run E es q = Some lp'"
    by (auto simp: bind_eq_Some_conv)
  show ?case using Cons.IH [OF q(2)] loop_step_result [OF q(1)] by auto
qed simp

section \<open>Properties\<close>

text \<open>
  The server's listener status tells the truth: after the bind and any sequence of accepts
  (failed ones too), transport handshakes, reloads and task steps, the status is Error with
  the run failed exactly when the bind failed, else Stopped with a graceful end exactly when a
  shutdown signal came, else Listening with the loop still running. Nothing but the shutdown
  signal ends a bound server.
\<close>

theorem listener_status_exact:
  assumes "rs_server_listener (sv_runtime s) \<noteq> None"
    and "server_bind now bound s = Some lp" "server_loop_run E es lp = Some lp'"
  shows "map_option sl_state (lp_listener lp') = Some
      (if \<not> is_ok bound then L_Error else if Shutdown_Signal \<in> set es then L_Stopped else L_Listening) \<and>
    (lp_result lp' = None) = (is_ok bound \<and> Shutdown_Signal \<notin> set es) \<and>
    (lp_result lp' = Some (Inr ())) = (is_ok bound \<and> Shutdown_Signal \<in> set es)"
proof -
  have b: "listener_inv lp" "(lp_result lp = None) = is_ok bound" "lp_result lp \<noteq> Some (Inr ())"
    using server_bind_listener [OF assms(1,2)] by simp_all
  have "listener_inv lp'" by (rule loop_run_listener [OF b(1) assms(3)])
  with loop_run_result [OF assms(3)] b(2,3) show ?thesis
    by (cases "lp_result lp") (auto simp: listener_inv_def split: if_splits sum.splits)
qed

text \<open>
  The first message decides what a connection is, and only one of the server's own protocol
  version reaches the shared state: any other version is refused with nothing sent and nothing
  changed.
\<close>

theorem connection_dispatch:
  assumes "bincode_env (codec E) (name_digest E)" "wf_digest (hello_digest h)"
  shows "handle_connection E now i src nonce conn (ser_hello (codec E) h @ rest) s =
    (if hello_version h \<noteq> CURRENT_PROTO_VERSION then Some (s, [], Some (version_mismatch (hello_version h)))
     else (case h of
       ControlChannelHello v d \<Rightarrow> do_control_channel_handshake E now i src nonce d rest s
     | DataChannelHello v k \<Rightarrow> map_option (\<lambda>(s', out). (s', [],
           (case out of Delivered \<Rightarrow> None | Wrong_Nonce \<Rightarrow> None
            | Stale \<Rightarrow> Some (Ctx ''Data channel for a stale control channel'' (Err ''channel closed''))
            | Queue_Full \<Rightarrow> Some hello_auth_timed_out)))
         (do_data_channel_handshake conn k s)))"
  using read_hello_written [OF assms, of rest]
  by (cases h) (simp_all add: handle_connection_def packet_len_def)

section \<open>Witnesses\<close>

definition bound_loop :: "nat server_loop" where
  "bound_loop = the (server_bind 1 (Inr ()) sample_state)"

lemma bound_loop: "server_bind 1 (Inr ()) sample_state = Some bound_loop"
  by (simp add: bound_loop_def server_bind_def Let_def)

definition loop_trace :: "nat loop_event list" where
  "loop_trace = [Accept_Err True, Accepted (V4 1 5) (Handshake_Err (Err ''tls'')), Accepted (V4 1 5) (Handshake_Ok 7),
     Update (Some (ServerChange (Server_Delete ''dns''))), Task (Ev_hello 0 (V4 1 5) (replicate 32 7) (name_digest sample_env ''ssh'')),
     Shutdown_Signal]"

theorem listener_status_exact_witness:
  "\<exists>lp. server_loop_run sample_env loop_trace bound_loop = Some lp \<and>
    map_option sl_state (lp_listener lp) = Some L_Stopped"
proof -
  have "server_loop_run sample_env loop_trace bound_loop \<noteq> None" by code_simp
  then obtain lp where lp: "server_loop_run sample_env loop_trace bound_loop = Some lp" by auto
  have "rs_server_listener (sv_runtime sample_state) \<noteq> None"
    by (simp add: sample_state_def server_from_def server_registry_def)
  from listener_status_exact [OF this bound_loop lp] lp show ?thesis by (simp add: loop_trace_def)
qed

theorem connection_dispatch_witness:
  "handle_connection sample_env 5 0 (V4 1 5) (replicate 32 7) (9 :: nat)
     (ser_hello (codec sample_env) (DataChannelHello 0 (replicate 32 1)) @ []) sample_state =
   Some (sample_state, [], Some (version_mismatch 0))"
  using connection_dispatch [OF sample_env_ok, of "DataChannelHello 0 (replicate 32 1)" 5 0 "V4 1 5" "replicate 32 7" 9 "[]" sample_state]
  by (simp add: wf_digest_def HASH_WIDTH_IN_BYTES_def CURRENT_PROTO_VERSION_def PROTO_V1_def)

end
