(* ===== verification/Client_Channel.thy ===== *)
theory Client_Channel
  imports Server_Run
begin

text \<open>
  \<open>src/client.rs\<close>, one control channel of a client: the handshake of \<open>ControlChannel::run\<close>, its
  data channels with the count of consecutive failures, its loop, and the task of
  \<open>ControlChannelHandle::new\<close> that runs it again after an error.
\<close>

section \<open>The handshake\<close>

text \<open>
  What a connection is for the client: the bytes the peer will send before it closes, and a
  sink. \<open>connect_to\<close> is the transport's connect.
\<close>

record client_conn =
  conn_in :: bytes
  conn_out :: sink

definition send :: "client_conn \<Rightarrow> bytes \<Rightarrow> anyhow + client_conn" where
  "send c bs = rbind (write_all (conn_out c) bs) (\<lambda>w. Inr (c\<lparr>conn_out := w\<rparr>))"

definition receive :: "(bytes \<Rightarrow> anyhow + 'a \<times> bytes) \<Rightarrow> client_conn \<Rightarrow> anyhow + 'a \<times> client_conn" where
  "receive rd c = rbind (rd (conn_in c)) (\<lambda>(x, rest). Inr (x, c\<lparr>conn_in := rest\<rparr>))"

text \<open>
  The hello with the digest of the service's name, the server's nonce, the authentication with
  the digest of token and nonce, and the server's verdict; the result is the session key.
\<close>

definition client_token_bytes :: "client_service_config \<Rightarrow> bytes" where
  "client_token_bytes service = (case csc_token service of None \<Rightarrow> [] | Some t \<Rightarrow> bytes_of_str (unmask t))"

definition cc_handshake :: "env \<Rightarrow> client_service_config \<Rightarrow> client_conn \<Rightarrow> anyhow + nonce \<times> client_conn" where
  "cc_handshake E service conn =
     rbind (send conn (ser_hello (codec E)
              (ControlChannelHello CURRENT_PROTO_VERSION (name_digest E (csc_name service))))) (\<lambda>c1.
     rbind (receive (read_hello (codec E) (packet_len E)) c1) (\<lambda>(hello, c2).
     rbind (case hello of
              ControlChannelHello v d \<Rightarrow> Inr d
            | DataChannelHello v d \<Rightarrow> Inl (Err ''Unexpected type of hello'')) (\<lambda>nonce.
     let session_key = sha256 E (client_token_bytes service @ nonce) in
     rbind (send c2 (ser_auth (codec E) (Auth session_key))) (\<lambda>c3.
     rbind (receive (read_ack (codec E) (packet_len E)) c3) (\<lambda>(ack, c4).
     (case ack of
        Ok \<Rightarrow> Inr (session_key, c4)
      | v \<Rightarrow> Inl (Ctx (''Authentication failed: '' @ csc_name service) (Err (display_ack v)))))))))"

text \<open>
  \<open>ControlChannel::run\<close> up to its loop, with what it reports to the registry (\<open>None\<close> is a panic
  there): resolving the address, connecting, the handshake.
\<close>

definition cc_establish ::
  "env \<Rightarrow> 's net \<Rightarrow> (addr_maybe_cached \<Rightarrow> anyhow + client_conn) \<Rightarrow> u64 \<Rightarrow> string \<Rightarrow> client_service_config \<Rightarrow>
   runtime_snapshot \<Rightarrow> (runtime_snapshot \<times> (anyhow + nonce \<times> client_conn)) option" where
  "cc_establish E N connect_to now remote service rt =
     Option.bind (client_connecting rt (csc_name service)) (\<lambda>rt1.
     case amc_resolve N (AddrMaybeCached_new remote) of
       (remote_addr, Inl e) \<Rightarrow> Some (rt1, Inl e)
     | (remote_addr, Inr _) \<Rightarrow>
         Option.bind (case amc_socket_addr remote_addr of
                        None \<Rightarrow> Some rt1
                      | Some addr \<Rightarrow> client_resolved rt1 (csc_name service) addr) (\<lambda>rt2.
         case rbind (with_context (Ctx (''Failed to connect to '' @ remote)) (connect_to remote_addr))
                (cc_handshake E service) of
           Inl e \<Rightarrow> Some (rt2, Inl e)
         | Inr r \<Rightarrow> map_option (\<lambda>rt3. (rt3, Inr r)) (client_connected now rt2 (csc_name service))))"

section \<open>Data channels\<close>

definition MAX_CONSECUTIVE_DATA_CHANNEL_FAILURES :: u32 where
  "MAX_CONSECUTIVE_DATA_CHANNEL_FAILURES = 3"

text \<open>
  The counter is shared by the data channels of one run; the queue of rebuild signals holds one
  element and belongs to the task, not to the run.
\<close>

record data_ch_args =
  consecutive_failures :: u32
  force_rebuild :: "u32 option"

definition note_data_channel_failure :: "data_ch_args \<Rightarrow> data_ch_args" where
  "note_data_channel_failure a =
     (let failures = consecutive_failures a + 1;
          a' = a\<lparr>consecutive_failures := consecutive_failures a + 1\<rparr> in
      if MAX_CONSECUTIVE_DATA_CHANNEL_FAILURES \<le> failures then
        (case force_rebuild a' of
           None \<Rightarrow> a'\<lparr>force_rebuild := Some failures\<rparr>
         | Some _ \<Rightarrow> a')
      else a')"

text \<open>
  The data channel's own handshake: connecting (with retries, whose outcome is \<open>connected\<close>) and
  the hello with the session key.
\<close>

definition do_client_data_handshake :: "env \<Rightarrow> nonce \<Rightarrow> anyhow + client_conn \<Rightarrow> anyhow + client_conn" where
  "do_client_data_handshake E session_key connected =
     rbind connected (\<lambda>conn.
     send conn (ser_hello (codec E) (DataChannelHello CURRENT_PROTO_VERSION session_key)))"

datatype forwarding = Forward_Tcp client_conn | Forward_Udp client_conn

definition run_data_channel ::
  "env \<Rightarrow> nonce \<Rightarrow> client_service_config \<Rightarrow> anyhow + client_conn \<Rightarrow> data_ch_args \<Rightarrow>
   data_ch_args \<times> (anyhow + forwarding)" where
  "run_data_channel E session_key service connected a =
     (case do_client_data_handshake E session_key connected of
        Inl e \<Rightarrow> (note_data_channel_failure a, Inl e)
      | Inr conn \<Rightarrow>
          (case receive (read_data_cmd (codec E) (packet_len E)) conn of
             Inl e \<Rightarrow> (note_data_channel_failure a, Inl e)
           | Inr (cmd, c) \<Rightarrow>
               (a\<lparr>consecutive_failures := 0\<rparr>,
                (case cmd of
                   StartForwardTcp \<Rightarrow>
                     if csc_service_type service \<noteq> Tcp
                     then Inl (Err ''Expect TCP traffic. Please check the configuration.'')
                     else Inr (Forward_Tcp c)
                 | StartForwardUdp \<Rightarrow>
                     if csc_service_type service \<noteq> Udp
                     then Inl (Err ''Expect UDP traffic. Please check the configuration.'')
                     else Inr (Forward_Udp c)))))"

section \<open>The loop\<close>

text \<open>
  A command (or a failed read), the heartbeat timer, a rebuild signal and the shutdown signal.
  The timer's sleep is created anew in every iteration. \<open>Setup\<close> is a data channel task that fails
  to set up or succeeds, which only changes the shared counter.
\<close>

datatype cl_event =
    Command "anyhow + control_channel_cmd"
  | Heartbeat_Timeout
  | Rebuild
  | Cl_Shutdown
  | Setup bool

record cl_state =
  cl_now :: nat
  cl_iteration :: nat
  cl_args :: data_ch_args
  cl_spawned :: nat
  cl_result :: "(anyhow + unit) option"

definition cl_start :: "nat \<Rightarrow> u32 option \<Rightarrow> cl_state" where
  "cl_start t queued = \<lparr>cl_now = t, cl_iteration = t,
     cl_args = \<lparr>consecutive_failures = 0, force_rebuild = queued\<rparr>, cl_spawned = 0, cl_result = None\<rparr>"

fun cl_enabled :: "u64 \<Rightarrow> cl_state \<Rightarrow> cl_event \<Rightarrow> bool" where
  "cl_enabled hb s Heartbeat_Timeout \<longleftrightarrow> hb \<noteq> 0 \<and> cl_iteration s + 1000 * unat hb \<le> cl_now s"
| "cl_enabled hb s Rebuild \<longleftrightarrow> force_rebuild (cl_args s) \<noteq> None"
| "cl_enabled hb s _ \<longleftrightarrow> True"

definition rebuild_error :: "u32 \<Rightarrow> anyhow" where
  "rebuild_error n =
     Err (''Data channel setup failed '' @ string_of_nat (unat n) @
          '' times in a row; rebuilding the control channel'')"

fun cl_branch :: "cl_event \<Rightarrow> cl_state \<Rightarrow> cl_state" where
  "cl_branch (Command (Inl e)) s = s\<lparr>cl_result := Some (Inl e)\<rparr>"
| "cl_branch (Command (Inr CreateDataChannel)) s = s\<lparr>cl_spawned := Suc (cl_spawned s), cl_iteration := cl_now s\<rparr>"
| "cl_branch (Command (Inr HeartBeat)) s = s\<lparr>cl_iteration := cl_now s\<rparr>"
| "cl_branch Heartbeat_Timeout s = s\<lparr>cl_result := Some (Inl (Err ''Heartbeat timed out''))\<rparr>"
| "cl_branch Rebuild s =
     (case force_rebuild (cl_args s) of
        Some n \<Rightarrow> s\<lparr>cl_args := (cl_args s)\<lparr>force_rebuild := None\<rparr>, cl_result := Some (Inl (rebuild_error n))\<rparr>
      | None \<Rightarrow> s)"
| "cl_branch Cl_Shutdown s = s\<lparr>cl_result := Some (Inr ())\<rparr>"
| "cl_branch (Setup ok) s =
     s\<lparr>cl_args := (if ok then (cl_args s)\<lparr>consecutive_failures := 0\<rparr> else note_data_channel_failure (cl_args s))\<rparr>"

text \<open>Time passes up to the heartbeat timer; a data channel task may also run after the loop's end.\<close>

inductive cl_step :: "u64 \<Rightarrow> cl_event option \<Rightarrow> cl_state \<Rightarrow> cl_state \<Rightarrow> bool"
  for hb :: u64 where
  tick: "cl_result s = None \<Longrightarrow> cl_now s \<le> t \<Longrightarrow> (hb \<noteq> 0 \<longrightarrow> t \<le> cl_iteration s + 1000 * unat hb) \<Longrightarrow>
    cl_step hb None s (s\<lparr>cl_now := t\<rparr>)"
| branch: "cl_result s = None \<Longrightarrow> cl_enabled hb s e \<Longrightarrow> cl_step hb (Some e) s (cl_branch e s)"
| late_setup: "cl_result s \<noteq> None \<Longrightarrow> cl_step hb (Some (Setup ok)) s (cl_branch (Setup ok) s)"

inductive cl_run :: "u64 \<Rightarrow> cl_state \<Rightarrow> (nat \<times> cl_event) list \<Rightarrow> cl_state \<Rightarrow> bool"
  for hb :: u64 where
  refl: "cl_run hb s [] s"
| tick: "cl_run hb s es s1 \<Longrightarrow> cl_step hb None s1 s2 \<Longrightarrow> cl_run hb s es s2"
| event: "cl_run hb s es s1 \<Longrightarrow> cl_step hb (Some e) s1 s2 \<Longrightarrow> cl_run hb s (es @ [(cl_now s1, e)]) s2"

inductive_cases cl_step_tickE: "cl_step hb None s s'"
inductive_cases cl_step_eventE: "cl_step hb (Some e) s s'"

section \<open>The task of a control channel\<close>

text \<open>
  The crate backoff: the next delay and the reset. A policy without a maximal elapsed time never
  runs out.
\<close>

record 'b backoff_lib =
  next_backoff :: "'b \<Rightarrow> (nat \<times> 'b) option"
  reset_backoff :: "'b \<Rightarrow> 'b"

text \<open>One call of \<open>run\<close>: when it began and ended, its result, and whether shutdown was pending then.\<close>

record run_outcome =
  ro_started :: nat
  ro_ended :: nat
  ro_result :: "anyhow + unit"
  ro_shutdown :: bool

datatype 'b retry_action = Stop | Retry nat 'b

definition retry_action :: "'b backoff_lib \<Rightarrow> 'b \<Rightarrow> run_outcome \<Rightarrow> 'b retry_action" where
  "retry_action L b r =
     (case ro_result r of
        Inr _ \<Rightarrow> Stop
      | Inl e \<Rightarrow>
          if ro_shutdown r then Stop
          else
            let b' = (if 3000 < ro_ended r - ro_started r then reset_backoff L b else b) in
            (case next_backoff L b' of
               None \<Rightarrow> Stop
             | Some (d, b'') \<Rightarrow> Retry d b''))"

text \<open>
  The task over its runs so far: the registry (\<open>None\<close> is a panic), the delays slept, and whether
  it has ended. The error recorded is the context that wraps every error of a run.
\<close>

definition run_context :: string where
  "run_context = ''Failed to run the control channel''"

fun run_task :: "'b backoff_lib \<Rightarrow> u64 \<Rightarrow> string \<Rightarrow> run_outcome list \<Rightarrow> 'b \<Rightarrow> runtime_snapshot \<Rightarrow>
    (runtime_snapshot \<times> nat list \<times> bool) option" where
  "run_task L now name [] b rt = Some (rt, [], False)"
| "run_task L now name (r # rs) b rt =
     (case retry_action L b r of
        Stop \<Rightarrow> map_option (\<lambda>rt'. (rt', [], True)) (client_stopped rt name)
      | Retry d b' \<Rightarrow>
          Option.bind (case with_context (Ctx run_context) (ro_result r) of
                         Inl e \<Rightarrow> client_retrying now rt name (err_display e)
                       | Inr _ \<Rightarrow> Some rt) (\<lambda>rt'.
          map_option (\<lambda>(rt'', ds, ended). (rt'', d # ds, ended)) (run_task L now name rs b' rt')))"

section \<open>What ends the loop\<close>

fun is_command :: "cl_event \<Rightarrow> bool" where
  "is_command (Command c) \<longleftrightarrow> is_ok c"
| "is_command _ \<longleftrightarrow> False"

text \<open>The setup failures at the end of the events, since the last success.\<close>

fun trailing_failures :: "(nat \<times> cl_event) list \<Rightarrow> nat \<Rightarrow> nat" where
  "trailing_failures [] n = n"
| "trailing_failures ((t, Setup ok) # es) n = trailing_failures es (if ok then 0 else Suc n)"
| "trailing_failures ((t, e) # es) n = trailing_failures es n"

lemma trailing_failures_snoc:
  "trailing_failures (es @ [(t, e)]) n =
     (case e of Setup ok \<Rightarrow> if ok then 0 else Suc (trailing_failures es n) | _ \<Rightarrow> trailing_failures es n)"
  by (cases e; induction es n rule: trailing_failures.induct) simp_all

lemma trailing_failures_le: "trailing_failures es n \<le> n + length es"
  by (induction es n rule: trailing_failures.induct) auto

definition three_failures :: "(nat \<times> cl_event) list \<Rightarrow> bool" where
  "three_failures es \<longleftrightarrow> (\<exists>es1 es2. es = es1 @ es2 \<and> 3 \<le> trailing_failures es1 0)"

lemma three_failures_append: "three_failures es \<Longrightarrow> three_failures (es @ es')"
  unfolding three_failures_def by (metis append.assoc)

definition silent_since :: "nat \<Rightarrow> (nat \<times> cl_event) list \<Rightarrow> bool" where
  "silent_since t es \<longleftrightarrow> (\<forall>(u, e) \<in> set es. is_command e \<longrightarrow> u \<le> t)"

definition ended_for_cause :: "u64 \<Rightarrow> (nat \<times> cl_event) list \<Rightarrow> anyhow \<Rightarrow> bool" where
  "ended_for_cause hb es e \<longleftrightarrow>
     (\<exists>t. (t, Command (Inl e)) \<in> set es) \<or>
     (e = Err ''Heartbeat timed out'' \<and> hb \<noteq> 0 \<and>
        (\<exists>t es1 es2. es = es1 @ (t, Heartbeat_Timeout) # es2 \<and> silent_since (t - 1000 * unat hb) es1)) \<or>
     (\<exists>n. e = rebuild_error n \<and> 3 \<le> n \<and> three_failures es)"

definition cl_inv :: "u64 \<Rightarrow> nat \<Rightarrow> (nat \<times> cl_event) list \<Rightarrow> cl_state \<Rightarrow> bool" where
  "cl_inv hb t0 es s \<longleftrightarrow>
     unat (consecutive_failures (cl_args s)) = trailing_failures es 0 \<and>
     (\<forall>n. force_rebuild (cl_args s) = Some n \<longrightarrow> 3 \<le> n \<and> three_failures es) \<and>
     silent_since (cl_iteration s) es \<and> t0 \<le> cl_iteration s \<and> cl_iteration s \<le> cl_now s \<and>
     (cl_result s = None \<longrightarrow> hb \<noteq> 0 \<longrightarrow> cl_now s \<le> cl_iteration s + 1000 * unat hb) \<and>
     (\<forall>e. cl_result s = Some (Inl e) \<longrightarrow> ended_for_cause hb es e)"

lemma silent_since_snoc [simp]:
  "silent_since t (es @ [(u, e)]) \<longleftrightarrow> silent_since t es \<and> (is_command e \<longrightarrow> u \<le> t)"
  by (auto simp: silent_since_def)

lemma silent_since_mono: "silent_since t es \<Longrightarrow> t \<le> u \<Longrightarrow> silent_since u es"
  by (fastforce simp: silent_since_def)

lemma ended_for_cause_snoc: "ended_for_cause hb es e \<Longrightarrow> ended_for_cause hb (es @ [x]) e"
  unfolding ended_for_cause_def
  using three_failures_append [of es "[x]"] by (auto; metis append.assoc append_Cons)

lemma note_failure_count:
  "unat (consecutive_failures a) < 2 ^ 32 - 1 \<Longrightarrow>
   unat (consecutive_failures (note_data_channel_failure a)) = Suc (unat (consecutive_failures a))"
  using unat_suc_u32 [of "consecutive_failures a"]
  by (simp add: note_data_channel_failure_def Let_def split: option.split)

lemma note_failure_signal:
  "force_rebuild (note_data_channel_failure a) = Some n \<Longrightarrow>
   force_rebuild a = Some n \<or> 3 \<le> n \<and> n = consecutive_failures (note_data_channel_failure a)"
  by (auto simp: note_data_channel_failure_def Let_def MAX_CONSECUTIVE_DATA_CHANNEL_FAILURES_def
      split: option.splits if_splits)

lemma setup_inv:
  assumes inv: "cl_inv hb t0 es s" and len: "length es < 2 ^ 32 - 1"
  shows "cl_inv hb t0 (es @ [(t, Setup ok)]) (cl_branch (Setup ok) s)"
proof (cases ok)
  case True
  then show ?thesis using inv
    by (auto simp: cl_inv_def trailing_failures_snoc intro: three_failures_append ended_for_cause_snoc)
next
  case False
  let ?a = "note_data_channel_failure (cl_args s)"
  have "trailing_failures es 0 < 2 ^ 32 - 1" using trailing_failures_le [of es 0] len by simp
  then have c: "unat (consecutive_failures ?a) = Suc (trailing_failures es 0)"
    using inv note_failure_count [of "cl_args s"] by (simp add: cl_inv_def)
  have "3 \<le> n \<and> three_failures (es @ [(t, Setup False)])" if n: "force_rebuild ?a = Some n" for n
    using note_failure_signal [OF n]
  proof
    assume "force_rebuild (cl_args s) = Some n"
    then show ?thesis using inv by (auto simp: cl_inv_def intro: three_failures_append)
  next
    assume a: "3 \<le> n \<and> n = consecutive_failures ?a"
    have "unat (3 :: u32) \<le> unat n" by (rule word_le_nat_alt [THEN iffD1, OF conjunct1 [OF a]])
    then have "3 \<le> unat n" by simp
    then have "3 \<le> unat (consecutive_failures ?a)" using a by metis
    then have "3 \<le> trailing_failures (es @ [(t, Setup False)]) 0"
      using c by (simp add: trailing_failures_snoc)
    then have "three_failures (es @ [(t, Setup False)])"
      unfolding three_failures_def by (intro exI [of _ "es @ [(t, Setup False)]"] exI [of _ "[]"]) simp
    then show ?thesis using a by blast
  qed
  then show ?thesis using inv c False
    by (auto simp: cl_inv_def trailing_failures_snoc intro: ended_for_cause_snoc)
qed

lemma loop_end_inv:
  assumes "cl_inv hb t0 es s" "cl_result s = None" "\<And>ok. e \<noteq> Setup ok"
    and "ended_for_cause hb (es @ [(cl_now s, e)]) err"
  shows "\<not> is_command e \<Longrightarrow> cl_inv hb t0 (es @ [(cl_now s, e)]) (s\<lparr>cl_result := Some (Inl err)\<rparr>)"
  using assms by (cases e) (auto simp: cl_inv_def trailing_failures_snoc intro: three_failures_append)

lemma branch_inv:
  assumes inv: "cl_inv hb t0 es s" and run: "cl_result s = None" and en: "cl_enabled hb s e"
    and len: "length es < 2 ^ 32 - 1"
  shows "cl_inv hb t0 (es @ [(cl_now s, e)]) (cl_branch e s)"
proof (cases e)
  case (Command c)
  have silent: "silent_since (cl_now s) es"
    using inv silent_since_mono by (auto simp: cl_inv_def)
  show ?thesis
  proof (cases c)
    case (Inl err)
    then have "ended_for_cause hb (es @ [(cl_now s, e)]) err"
      by (auto simp: ended_for_cause_def Command)
    then show ?thesis using inv silent
      by (auto simp: cl_inv_def trailing_failures_snoc Command Inl intro: three_failures_append)
  next
    case (Inr k)
    then show ?thesis using inv silent run
      by (cases k) (auto simp: cl_inv_def trailing_failures_snoc Command intro: three_failures_append)
  qed
next
  case Heartbeat_Timeout
  have "silent_since (cl_now s - 1000 * unat hb) es"
    using inv en by (auto simp: cl_inv_def Heartbeat_Timeout intro: silent_since_mono)
  then have "ended_for_cause hb (es @ [(cl_now s, e)]) (Err ''Heartbeat timed out'')"
    using en by (auto simp: ended_for_cause_def Heartbeat_Timeout)
  from loop_end_inv [OF inv run _ this] show ?thesis by (simp add: Heartbeat_Timeout)
next
  case Rebuild
  then obtain n where n: "force_rebuild (cl_args s) = Some n" using en by auto
  then have "3 \<le> n" "three_failures es" using inv by (simp_all add: cl_inv_def)
  then have "ended_for_cause hb (es @ [(cl_now s, e)]) (rebuild_error n)"
    unfolding ended_for_cause_def using three_failures_append by blast
  from loop_end_inv [OF inv run _ this] show ?thesis
    by (simp add: Rebuild n cl_inv_def)
next
  case Cl_Shutdown
  then show ?thesis using inv run
    by (auto simp: cl_inv_def trailing_failures_snoc intro: three_failures_append)
next
  case (Setup ok)
  then show ?thesis using setup_inv [OF inv len] by simp
qed

lemma cl_run_inv:
  assumes "cl_run hb (cl_start t0 None) es s" "length es < 2 ^ 32"
  shows "cl_inv hb t0 es s"
  using assms
proof (induction "cl_start t0 None :: cl_state" es s rule: cl_run.induct)
  case refl
  then show ?case by (simp add: cl_inv_def cl_start_def silent_since_def)
next
  case (tick es s1 s2)
  then show ?case by (auto simp: cl_inv_def elim!: cl_step_tickE)
next
  case (event es s1 e s2)
  then have inv: "cl_inv hb t0 es s1" and len: "length es < 2 ^ 32 - 1" by simp_all
  consider (loop) "cl_result s1 = None" "cl_enabled hb s1 e" "s2 = cl_branch e s1"
    | (late) ok where "e = Setup ok" "s2 = cl_branch (Setup ok) s1"
    using event(3) by (auto elim: cl_step_eventE)
  then show ?case
  proof cases
    case loop
    then show ?thesis using branch_inv [OF inv _ _ len] by simp
  next
    case (late ok)
    then show ?thesis using setup_inv [OF inv len] by (simp only:)
  qed
qed

section \<open>The handshake, as the peer's bytes decide it\<close>

text \<open>A server that answers with its hello and then a verdict.\<close>

lemma client_handshake_outcome:
  fixes service :: client_service_config
  assumes env: "bincode_env (codec E) (name_digest E)" and n: "wf_digest nonce" and w: "takes w = None"
    and h: "\<And>bs. wf_digest (sha256 E bs)"
  defines "k \<equiv> sha256 E (client_token_bytes service @ nonce)"
  shows "cc_handshake E service \<lparr>conn_in = ser_hello (codec E) (ControlChannelHello CURRENT_PROTO_VERSION nonce) @
      ser_ack (codec E) a @ rest, conn_out = w\<rparr> =
    (if a = Ok then Inr (k, \<lparr>conn_in = rest, conn_out = w\<lparr>written := written w @
        ser_hello (codec E) (ControlChannelHello CURRENT_PROTO_VERSION (name_digest E (csc_name service))) @
        ser_auth (codec E) (Auth k)\<rparr>\<rparr>)
     else Inl (Ctx (''Authentication failed: '' @ csc_name service) (Err (display_ack a))))"
proof -
  have rh: "read_hello (codec E) (packet_len E)
      (ser_hello (codec E) (ControlChannelHello CURRENT_PROTO_VERSION nonce) @ r) =
      Inr (ControlChannelHello CURRENT_PROTO_VERSION nonce, r)" for r
    using read_hello_written [OF env, of "ControlChannelHello CURRENT_PROTO_VERSION nonce" r] n
    by (simp add: packet_len_def)
  have ra: "read_ack (codec E) (packet_len E) (ser_ack (codec E) v @ r) = Inr (v, r)" for v r
    unfolding packet_len_def by (rule read_ack_written [OF env])
  show ?thesis
    by (cases a) (simp_all add: cc_handshake_def send_def receive_def write_all_open w rh ra k_def Let_def)
qed

lemma client_data_hello:
  assumes "takes w = None"
  shows "do_client_data_handshake E k (Inr \<lparr>conn_in = i, conn_out = w\<rparr>) =
    Inr \<lparr>conn_in = i, conn_out = w\<lparr>written := written w @
      ser_hello (codec E) (DataChannelHello CURRENT_PROTO_VERSION k)\<rparr>\<rparr>"
  using assms by (simp add: do_client_data_handshake_def send_def write_all_open)

section \<open>The life of the task\<close>

definition client_state :: "runtime_snapshot \<Rightarrow> string \<Rightarrow> client_control_state option" where
  "client_state rt name = (case rs_services rt name of Some (Client c) \<Rightarrow> Some (cs_state c) | _ \<Rightarrow> None)"

definition stops :: "run_outcome \<Rightarrow> bool" where
  "stops r \<longleftrightarrow> is_ok (ro_result r) \<or> ro_shutdown r"

definition never_exhausted :: "'b backoff_lib \<Rightarrow> bool" where
  "never_exhausted L \<longleftrightarrow> (\<forall>b. next_backoff L b \<noteq> None)"

lemma client_stateE:
  assumes "client_state rt name \<noteq> None"
  obtains c where "rs_services rt name = Some (Client c)"
proof (cases "rs_services rt name")
  case (Some x)
  then show ?thesis using assms that by (cases x) (simp_all add: client_state_def)
qed (use assms in \<open>simp add: client_state_def\<close>)

lemma client_stopped_state:
  assumes "client_state rt name \<noteq> None"
  shows "\<exists>rt'. client_stopped rt name = Some rt' \<and> client_state rt' name = Some C_Stopped"
proof -
  obtain c where "rs_services rt name = Some (Client c)" by (rule client_stateE [OF assms])
  then show ?thesis by (simp add: client_stopped_def with_client_def client_state_def)
qed

text \<open>The recorded message is the constant context, which is short enough never to be cut.\<close>

lemma client_retrying_state:
  assumes "client_state rt name \<noteq> None"
  shows "\<exists>rt'. client_retrying now rt name (err_display (Ctx run_context e)) = Some rt' \<and>
    client_state rt' name = Some C_Retrying"
proof -
  have "truncate_str run_context 512 = Some run_context" by (simp add: truncate_str_def run_context_def)
  moreover obtain c where "rs_services rt name = Some (Client c)" by (rule client_stateE [OF assms])
  ultimately show ?thesis
    by (simp add: client_retrying_def with_client_def client_state_def safe_error_def)
qed

lemma retry_action_stop:
  assumes "never_exhausted L"
  shows "retry_action L b r = Stop \<longleftrightarrow> stops r"
proof -
  have n: "\<exists>d b'. next_backoff L x = Some (d, b')" for x
    using assms by (auto simp: never_exhausted_def)
  obtain d b' where "next_backoff L (if 3000 < ro_ended r - ro_started r then reset_backoff L b else b) = Some (d, b')"
    using n by blast
  then show ?thesis by (cases "ro_result r") (simp_all add: retry_action_def stops_def)
qed

lemma run_task_lifecycle:
  assumes "never_exhausted L"
  shows "client_state rt name \<noteq> None \<Longrightarrow>
    \<exists>rt' ds. run_task L now name rs b rt = Some (rt', ds, list_ex stops rs) \<and>
      length ds = length (takeWhile (\<lambda>r. \<not> stops r) rs) \<and>
      client_state rt' name =
        (if list_ex stops rs then Some C_Stopped else if rs = [] then client_state rt name else Some C_Retrying)"
proof (induction rs arbitrary: b rt)
  case (Cons r rs)
  show ?case
  proof (cases "stops r")
    case True
    then show ?thesis
      using client_stopped_state [OF Cons.prems] retry_action_stop [OF assms, of b r] by auto
  next
    case False
    then obtain d b' where a: "retry_action L b r = Retry d b'"
      using retry_action_stop [OF assms, of b r] by (cases "retry_action L b r") auto
    obtain e where e: "ro_result r = Inl e" using False by (cases "ro_result r") (auto simp: stops_def)
    obtain rt1 where rt1: "client_retrying now rt name (err_display (Ctx run_context e)) = Some rt1"
      "client_state rt1 name = Some C_Retrying"
      using client_retrying_state [OF Cons.prems] by blast
    then have "client_state rt1 name \<noteq> None" by simp
    from Cons.IH [OF this, of b'] show ?thesis
      using a e rt1 False by (auto split: if_splits)
  qed
qed simp

section \<open>Properties\<close>


text \<open>
  A client notices a dead server: while its loop runs with a heartbeat timeout, a command came,
  or the loop began, within that timeout; when it is exactly that long ago, the timer's branch is enabled.
\<close>

theorem client_notices_silence:
  assumes "cl_run hb (cl_start t0 None) es s" "length es < 2 ^ 32" "cl_result s = None" "hb \<noteq> 0"
  shows "silent_since (cl_iteration s) es \<and> cl_now s \<le> cl_iteration s + 1000 * unat hb \<and>
    cl_enabled hb s Heartbeat_Timeout = (cl_now s = cl_iteration s + 1000 * unat hb)"
  using cl_run_inv [OF assms(1,2)] assms(3,4) by (auto simp: cl_inv_def)

text \<open>
  The life of a control channel's task, given a backoff that never runs out: it never panics,
  it ends at the first run that returned without error or failed with shutdown pending and never
  before, it slept once after every other run, and the registry says Stopped when it has ended and
  Retrying while it waits.
\<close>

theorem control_task_lifecycle:
  assumes "never_exhausted L" "client_state rt name \<noteq> None"
  shows "\<exists>rt' ds. run_task L now name rs b rt = Some (rt', ds, list_ex stops rs) \<and>
    length ds = length (takeWhile (\<lambda>r. \<not> stops r) rs) \<and>
    client_state rt' name =
      (if list_ex stops rs then Some C_Stopped else if rs = [] then client_state rt name else Some C_Retrying)"
  by (rule run_task_lifecycle [OF assms])

section \<open>A rebuild signal that outlives its run\<close>

text \<open>
  Four data channels fail. The third failure queues the signal, the loop takes it and ends; the
  fourth, still running, queues another one. The queue belongs to the task, so the next run starts
  with it, and its loop can end at once although none of its own data channels failed.
\<close>

definition failing_run :: "(nat \<times> cl_event) list" where
  "failing_run = [(0, Setup False), (0, Setup False), (0, Setup False), (0, Rebuild), (0, Setup False)]"

definition failed_state :: cl_state where
  "failed_state = \<lparr>cl_now = 0, cl_iteration = 0, cl_args = \<lparr>consecutive_failures = 4, force_rebuild = Some 4\<rparr>,
     cl_spawned = 0, cl_result = Some (Inl (rebuild_error 3))\<rparr>"

lemma cl_run_branch:
  "cl_run hb s es s1 \<Longrightarrow> cl_result s1 = None \<Longrightarrow> cl_enabled hb s1 e \<Longrightarrow>
   cl_run hb s (es @ [(cl_now s1, e)]) (cl_branch e s1)"
  by (rule cl_run.event) (auto intro: cl_step.branch)

lemma counted_failures:
  "note_data_channel_failure \<lparr>consecutive_failures = 0, force_rebuild = None\<rparr> = \<lparr>consecutive_failures = 1, force_rebuild = None\<rparr>"
  "note_data_channel_failure \<lparr>consecutive_failures = 1, force_rebuild = None\<rparr> = \<lparr>consecutive_failures = 2, force_rebuild = None\<rparr>"
  "note_data_channel_failure \<lparr>consecutive_failures = 2, force_rebuild = None\<rparr> = \<lparr>consecutive_failures = 3, force_rebuild = Some 3\<rparr>"
  "note_data_channel_failure \<lparr>consecutive_failures = 3, force_rebuild = None\<rparr> = \<lparr>consecutive_failures = 4, force_rebuild = Some 4\<rparr>"
  by code_simp+

lemma failing_run: "cl_run 40 (cl_start 0 None) failing_run failed_state"
proof -
  let ?s = "\<lambda>n q. \<lparr>cl_now = 0, cl_iteration = 0, cl_args = \<lparr>consecutive_failures = n, force_rebuild = q\<rparr>,
     cl_spawned = 0, cl_result = None\<rparr>"
  have 0: "cl_run 40 (cl_start 0 None) [] (?s 0 None)"
    using cl_run.refl [of 40 "cl_start 0 None"] by (simp add: cl_start_def)
  have 1: "cl_run 40 (cl_start 0 None) [(0, Setup False)] (?s 1 None)"
    using cl_run_branch [OF 0, of "Setup False"]
    by (simp add: counted_failures)
  have 2: "cl_run 40 (cl_start 0 None) [(0, Setup False), (0, Setup False)] (?s 2 None)"
    using cl_run_branch [OF 1, of "Setup False"]
    by (simp add: counted_failures)
  have 3: "cl_run 40 (cl_start 0 None) [(0, Setup False), (0, Setup False), (0, Setup False)] (?s 3 (Some 3))"
    using cl_run_branch [OF 2, of "Setup False"]
    by (simp add: counted_failures)
  have 4: "cl_run 40 (cl_start 0 None) [(0, Setup False), (0, Setup False), (0, Setup False), (0, Rebuild)]
      \<lparr>cl_now = 0, cl_iteration = 0, cl_args = \<lparr>consecutive_failures = 3, force_rebuild = None\<rparr>,
       cl_spawned = 0, cl_result = Some (Inl (rebuild_error 3))\<rparr>"
    using cl_run_branch [OF 3, of Rebuild] by simp
  show ?thesis
    using cl_run.event [OF 4 cl_step.late_setup [where ok = False]]
    by (simp add: counted_failures failing_run_def failed_state_def)
qed

lemma stale_rebuild_signal:
  "cl_run 40 (cl_start 5 (force_rebuild (cl_args failed_state))) [(5, Rebuild)]
     ((cl_start 5 None)\<lparr>cl_result := Some (Inl (rebuild_error 4))\<rparr>)"
  using cl_run_branch [where hb = 40 and e = Rebuild, OF cl_run.refl [of 40 "cl_start 5 (Some 4)"]]
  by (simp add: cl_start_def failed_state_def)

section \<open>Witnesses\<close>


definition quiet_client :: cl_state where
  "quiet_client = (cl_start 0 None)\<lparr>cl_now := 40000\<rparr>"

lemma quiet_client_run: "cl_run 40 (cl_start 0 None) [] quiet_client"
  unfolding quiet_client_def by (rule cl_run.tick [OF cl_run.refl], rule cl_step.tick) (simp_all add: cl_start_def)

theorem client_notices_silence_witness:
  "cl_enabled 40 quiet_client Heartbeat_Timeout"
  using client_notices_silence [OF quiet_client_run] by (simp add: quiet_client_def cl_start_def)

definition constant_backoff :: "unit backoff_lib" where
  "constant_backoff = \<lparr>next_backoff = \<lambda>_. Some (1000, ()), reset_backoff = id\<rparr>"

theorem control_task_lifecycle_witness:
  "\<exists>rt' ds. run_task constant_backoff 7 ''ssh''
      [\<lparr>ro_started = 0, ro_ended = 1, ro_result = Inl (Err ''eof''), ro_shutdown = False\<rparr>,
       \<lparr>ro_started = 1, ro_ended = 9000, ro_result = Inl (Err ''eof''), ro_shutdown = True\<rparr>] ()
      (client_registry 1 0 ''host:1'' [''ssh'']) = Some (rt', ds, True) \<and>
    length ds = 1 \<and> client_state rt' ''ssh'' = Some C_Stopped"
proof -
  have "never_exhausted constant_backoff" by (simp add: never_exhausted_def constant_backoff_def)
  moreover have "client_state (client_registry 1 0 ''host:1'' [''ssh'']) ''ssh'' \<noteq> None"
    by (simp add: client_state_def client_registry_def new_client_status_def)
  ultimately show ?thesis
    using control_task_lifecycle [of constant_backoff "client_registry 1 0 ''host:1'' [''ssh'']" "''ssh''" 7
      "[\<lparr>ro_started = 0, ro_ended = 1, ro_result = Inl (Err ''eof''), ro_shutdown = False\<rparr>,
        \<lparr>ro_started = 1, ro_ended = 9000, ro_result = Inl (Err ''eof''), ro_shutdown = True\<rparr>]" "()"]
    by (simp add: stops_def)
qed

end
