(* ===== verification/Client_Udp.thy ===== *)
theory Client_Udp
  imports Client_Channel Server_Pools
begin

text \<open>
  \<open>src/client.rs\<close>, a data channel that forwards UDP: the loop of \<open>run_data_channel_for_udp\<close>
  that reads packets from the server, its map from visitors' addresses to forwarders, the
  forwarders (\<open>run_udp_forwarder\<close>) with a socket each, and the task that writes their replies.
  These tasks interleave at their awaits; every event below is what one does between two awaits.
\<close>

section \<open>State\<close>

definition UDP_SENDQ_SIZE :: nat where
  "UDP_SENDQ_SIZE = 1024"

definition UDP_TIMEOUT :: u64 where
  "UDP_TIMEOUT = 60"

datatype fw_phase = Forwarding | Leaving | Gone

text \<open>A forwarder: its visitor, the queue of its channel, what it sent to the local service.\<close>

record forwarder =
  fw_from :: socket_addr
  fw_queue :: "bytes list"
  fw_sent :: "bytes list"
  fw_phase :: fw_phase

text \<open>The reading loop: before a read, connecting for a packet, handing a packet over.\<close>

datatype reader = Reading | Connecting udp_traffic | Handing udp_traffic

text \<open>
  \<open>uf_read\<close> is the log of the packets read; \<open>uf_writer\<close> is the writing half of the connection
  while its task lives.
\<close>

record udp_forward =
  uf_input :: bytes
  uf_read :: "udp_traffic list"
  uf_reader :: reader
  uf_map :: "socket_addr \<Rightarrow> nat option"
  uf_forwarders :: "nat \<Rightarrow> forwarder option"
  uf_next :: nat
  uf_outbound :: "udp_traffic list"
  uf_writer :: "sink option"
  uf_written :: "udp_traffic list"
  uf_result :: "anyhow option"

definition udp_forward_start :: "client_conn \<Rightarrow> udp_forward" where
  "udp_forward_start c = \<lparr>uf_input = conn_in c, uf_read = [], uf_reader = Reading, uf_map = Map.empty,
     uf_forwarders = Map.empty, uf_next = 0, uf_outbound = [], uf_writer = Some (conn_out c),
     uf_written = [], uf_result = None\<rparr>"

datatype uf_event =
    Read_Packet
  | Connected "anyhow + unit"
  | Hand_Over
  | Fw_Inbound nat bool
  | Fw_Reply nat "anyhow + bytes"
  | Fw_Timeout nat
  | Fw_Cleanup nat
  | Write_Out

section \<open>The reading loop\<close>

definition set_forwarder :: "nat \<Rightarrow> forwarder \<Rightarrow> udp_forward \<Rightarrow> udp_forward" where
  "set_forwarder f w s = s\<lparr>uf_forwarders := (uf_forwarders s)(f \<mapsto> w)\<rparr>"

definition read_packet :: "bincode \<Rightarrow> udp_forward \<Rightarrow> udp_forward" where
  "read_packet B s =
     (case read_u8 (uf_input s) of
        Inl e \<Rightarrow> s\<lparr>uf_result := Some e\<rparr>
      | Inr (hl, s1) \<Rightarrow>
          (case with_context (Ctx ''Failed to read UDPTraffic from the server'') (udp_read B s1 hl) of
             Inl e \<Rightarrow> s\<lparr>uf_result := Some e\<rparr>
           | Inr (packet, s2) \<Rightarrow>
               s\<lparr>uf_input := s2, uf_read := uf_read s @ [packet],
                 uf_reader := (if uf_map s (ut_from packet) = None then Connecting packet else Handing packet)\<rparr>))"

text \<open>
  The connected socket gets a mapping and a forwarder; after a failed \<open>udp_connect\<close> there is
  none, and the packet is dropped when it is handed over.
\<close>

definition connected :: "udp_traffic \<Rightarrow> anyhow + unit \<Rightarrow> udp_forward \<Rightarrow> udp_forward" where
  "connected packet r s =
     (case r of
        Inl e \<Rightarrow> s\<lparr>uf_reader := Handing packet\<rparr>
      | Inr _ \<Rightarrow>
          s\<lparr>uf_map := (uf_map s)(ut_from packet \<mapsto> uf_next s),
            uf_forwarders := (uf_forwarders s)(uf_next s \<mapsto>
              \<lparr>fw_from = ut_from packet, fw_queue = [], fw_sent = [], fw_phase = Forwarding\<rparr>),
            uf_next := Suc (uf_next s), uf_reader := Handing packet\<rparr>)"

text \<open>\<open>None\<close>: the forwarder's bounded channel is full and the loop waits.\<close>

definition hand_over :: "udp_traffic \<Rightarrow> udp_forward \<Rightarrow> udp_forward option" where
  "hand_over packet s =
     (case uf_map s (ut_from packet) of
        None \<Rightarrow> Some (s\<lparr>uf_reader := Reading\<rparr>)
      | Some f \<Rightarrow>
          (case uf_forwarders s f of
             None \<Rightarrow> Some (s\<lparr>uf_reader := Reading\<rparr>)
           | Some w \<Rightarrow>
               if fw_phase w = Gone then Some (s\<lparr>uf_reader := Reading\<rparr>)
               else if UDP_SENDQ_SIZE \<le> length (fw_queue w) then None
               else Some ((set_forwarder f (w\<lparr>fw_queue := fw_queue w @ [ut_data packet]\<rparr>) s)\<lparr>uf_reader := Reading\<rparr>)))"

section \<open>A forwarder\<close>

text \<open>
  A packet for the local service (and whether the send succeeded), a reply (or a failed receive),
  the idle timeout, and the cleanup after the loop. A reply waits while the outbound queue is full;
  when its receiver is gone the forwarder leaves.
\<close>

definition fw_inbound :: "nat \<Rightarrow> bool \<Rightarrow> forwarder \<Rightarrow> udp_forward \<Rightarrow> udp_forward option" where
  "fw_inbound f ok w s =
     (case fw_queue w of
        [] \<Rightarrow> None
      | d # q \<Rightarrow>
          Some (set_forwarder f
            (if ok then w\<lparr>fw_queue := q, fw_sent := fw_sent w @ [d]\<rparr>
             else w\<lparr>fw_queue := q, fw_phase := Leaving\<rparr>) s))"

definition fw_reply :: "nat \<Rightarrow> anyhow + bytes \<Rightarrow> forwarder \<Rightarrow> udp_forward \<Rightarrow> udp_forward option" where
  "fw_reply f r w s =
     (case r of
        Inl e \<Rightarrow> Some (set_forwarder f (w\<lparr>fw_phase := Leaving\<rparr>) s)
      | Inr data \<Rightarrow>
          (case uf_writer s of
             None \<Rightarrow> Some (set_forwarder f (w\<lparr>fw_phase := Leaving\<rparr>) s)
           | Some _ \<Rightarrow>
               if UDP_SENDQ_SIZE \<le> length (uf_outbound s) then None
               else Some (s\<lparr>uf_outbound := uf_outbound s @
                            [\<lparr>ut_from = fw_from w, ut_data = take UDP_BUFFER_SIZE data\<rparr>]\<rparr>)))"

definition fw_cleanup :: "nat \<Rightarrow> forwarder \<Rightarrow> udp_forward \<Rightarrow> udp_forward" where
  "fw_cleanup f w s =
     (set_forwarder f (w\<lparr>fw_phase := Gone\<rparr>) s)\<lparr>uf_map := (uf_map s)(fw_from w := None)\<rparr>"

text \<open>The writing task: it ends, and with it the outbound queue, when a write fails.\<close>

definition write_out :: "bincode \<Rightarrow> sink \<Rightarrow> udp_forward \<Rightarrow> udp_forward option" where
  "write_out B w s =
     (case uf_outbound s of
        [] \<Rightarrow> None
      | t # ts \<Rightarrow>
          (case udp_write B t w of
             Inl e \<Rightarrow> Some (s\<lparr>uf_outbound := [], uf_writer := None\<rparr>)
           | Inr w' \<Rightarrow> Some (s\<lparr>uf_outbound := ts, uf_writer := Some w', uf_written := uf_written s @ [t]\<rparr>)))"

section \<open>Steps\<close>

definition with_forwarder ::
  "fw_phase \<Rightarrow> nat \<Rightarrow> (forwarder \<Rightarrow> udp_forward \<Rightarrow> udp_forward option) \<Rightarrow> udp_forward \<Rightarrow> udp_forward option" where
  "with_forwarder ph f g s =
     (case uf_forwarders s f of
        None \<Rightarrow> None
      | Some w \<Rightarrow> if fw_phase w = ph then g w s else None)"

fun uf_step :: "bincode \<Rightarrow> uf_event \<Rightarrow> udp_forward \<Rightarrow> udp_forward option" where
  "uf_step B Read_Packet s =
     (if uf_result s = None \<and> uf_reader s = Reading then Some (read_packet B s) else None)"
| "uf_step B (Connected r) s =
     (case uf_reader s of Connecting p \<Rightarrow> Some (connected p r s) | _ \<Rightarrow> None)"
| "uf_step B Hand_Over s = (case uf_reader s of Handing p \<Rightarrow> hand_over p s | _ \<Rightarrow> None)"
| "uf_step B (Fw_Inbound f ok) s = with_forwarder Forwarding f (fw_inbound f ok) s"
| "uf_step B (Fw_Reply f r) s = with_forwarder Forwarding f (fw_reply f r) s"
| "uf_step B (Fw_Timeout f) s =
     with_forwarder Forwarding f (\<lambda>w s. Some (set_forwarder f (w\<lparr>fw_phase := Leaving\<rparr>) s)) s"
| "uf_step B (Fw_Cleanup f) s = with_forwarder Leaving f (\<lambda>w s. Some (fw_cleanup f w s)) s"
| "uf_step B Write_Out s = (case uf_writer s of Some w \<Rightarrow> write_out B w s | None \<Rightarrow> None)"

fun uf_run :: "bincode \<Rightarrow> uf_event list \<Rightarrow> udp_forward \<Rightarrow> udp_forward option" where
  "uf_run B [] s = Some s"
| "uf_run B (e # es) s = Option.bind (uf_step B e s) (uf_run B es)"

section \<open>Invariants\<close>

definition serves :: "udp_forward \<Rightarrow> nat \<Rightarrow> socket_addr \<Rightarrow> bool" where
  "serves s f a \<longleftrightarrow> (\<exists>w. uf_forwarders s f = Some w \<and> fw_from w = a \<and> fw_phase w \<noteq> Gone)"

definition data_from :: "socket_addr \<Rightarrow> udp_traffic list \<Rightarrow> bytes list" where
  "data_from a ts = map ut_data (filter (\<lambda>t. ut_from t = a) ts)"

text \<open>The packets read and already handed over (or dropped).\<close>

definition handed :: "udp_forward \<Rightarrow> udp_traffic list" where
  "handed s = (case uf_reader s of Reading \<Rightarrow> uf_read s | _ \<Rightarrow> butlast (uf_read s))"

definition map_inv :: "udp_forward \<Rightarrow> bool" where
  "map_inv s \<longleftrightarrow>
     (\<forall>a f. uf_map s a = Some f \<longleftrightarrow> serves s f a) \<and>
     (\<forall>f. uf_next s \<le> f \<longrightarrow> uf_forwarders s f = None) \<and>
     (\<forall>p. uf_reader s = Connecting p \<longrightarrow> uf_map s (ut_from p) = None)"

definition order_inv :: "udp_forward \<Rightarrow> bool" where
  "order_inv s \<longleftrightarrow>
     (\<forall>p. uf_reader s = Connecting p \<or> uf_reader s = Handing p \<longrightarrow> uf_read s \<noteq> [] \<and> last (uf_read s) = p) \<and>
     (\<forall>f w. uf_forwarders s f = Some w \<longrightarrow>
        subseq (fw_sent w @ fw_queue w) (data_from (fw_from w) (handed s)) \<and>
        fw_from w \<in> ut_from ` set (uf_read s)) \<and>
     (\<forall>t \<in> set (uf_outbound s) \<union> set (uf_written s).
        ut_from t \<in> ut_from ` set (uf_read s) \<and> length (ut_data t) \<le> UDP_BUFFER_SIZE)"

section \<open>The map has exactly the live forwarders\<close>

lemma set_forwarder_simps [simp]:
  "uf_map (set_forwarder f w s) = uf_map s" "uf_reader (set_forwarder f w s) = uf_reader s"
  "uf_next (set_forwarder f w s) = uf_next s" "uf_read (set_forwarder f w s) = uf_read s"
  "uf_outbound (set_forwarder f w s) = uf_outbound s" "uf_written (set_forwarder f w s) = uf_written s"
  "uf_writer (set_forwarder f w s) = uf_writer s"
  "uf_forwarders (set_forwarder f w s) = (uf_forwarders s)(f \<mapsto> w)"
  by (simp_all add: set_forwarder_def)

lemma serves_cong: "uf_forwarders s' = uf_forwarders s \<Longrightarrow> serves s' = serves s"
  by (simp add: serves_def fun_eq_iff)

lemma serves_set:
  "serves (set_forwarder f w s) g a \<longleftrightarrow>
   (if g = f then fw_from w = a \<and> fw_phase w \<noteq> Gone else serves s g a)"
  by (auto simp: serves_def)

lemma map_inv_cong:
  assumes "map_inv s" "uf_map s' = uf_map s" "uf_forwarders s' = uf_forwarders s" "uf_next s' = uf_next s"
    and "\<And>p. uf_reader s' = Connecting p \<Longrightarrow> uf_map s (ut_from p) = None"
  shows "map_inv s'"
  using assms by (simp add: map_inv_def serves_cong [of s' s])

lemma map_inv_set:
  assumes "map_inv s" "uf_forwarders s f = Some v" "fw_phase v \<noteq> Gone"
    and "fw_from w = fw_from v" "fw_phase w \<noteq> Gone"
  shows "map_inv (set_forwarder f w s)"
proof -
  have "serves (set_forwarder f w s) = serves s"
    using assms(2-5) by (auto simp: fun_eq_iff serves_set) (auto simp: serves_def)
  moreover have "f < uf_next s" using assms(1,2) by (metis map_inv_def not_le option.distinct(1))
  ultimately show ?thesis using assms(1) by (auto simp: map_inv_def)
qed

lemma map_inv_reader:
  "map_inv s \<Longrightarrow> map_inv (s\<lparr>uf_reader := Reading\<rparr>)"
  by (rule map_inv_cong) simp_all

lemma read_packet_map: "map_inv s \<Longrightarrow> uf_reader s = Reading \<Longrightarrow> map_inv (read_packet B s)"
  by (auto simp: read_packet_def intro: map_inv_cong split: sum.split)

lemma connected_map:
  assumes "map_inv s" "uf_reader s = Connecting p"
  shows "map_inv (connected p r s)"
proof (cases r)
  case (Inl e)
  then show ?thesis using assms by (auto simp: connected_def intro: map_inv_cong)
next
  case (Inr u)
  have n: "uf_map s (ut_from p) = None" "uf_forwarders s (uf_next s) = None"
    using assms by (auto simp: map_inv_def)
  let ?t = "connected p r s"
  have fs: "uf_forwarders ?t = (uf_forwarders s)(uf_next s \<mapsto>
      \<lparr>fw_from = ut_from p, fw_queue = [], fw_sent = [], fw_phase = Forwarding\<rparr>)"
    and m: "uf_map ?t = (uf_map s)(ut_from p \<mapsto> uf_next s)"
    and r: "uf_next ?t = Suc (uf_next s)" "uf_reader ?t = Handing p"
    by (simp_all add: connected_def Inr)
  have sv: "serves ?t f a \<longleftrightarrow> (if f = uf_next s then a = ut_from p else serves s f a)" for f a
    by (auto simp: serves_def fs)
  have old: "uf_map s a = Some f \<longleftrightarrow> serves s f a" for a f using assms(1) by (simp add: map_inv_def)
  have "\<not> serves s (uf_next s) a" for a by (simp add: serves_def n)
  moreover have "\<not> serves s f (ut_from p)" for f using old [of "ut_from p" f] n by simp
  ultimately show ?thesis using assms(1) unfolding map_inv_def
    by (auto simp: sv m r old fs)
qed

lemma hand_over_map:
  assumes "map_inv s" "hand_over p s = Some s'"
  shows "map_inv s'"
proof (cases "uf_map s (ut_from p)")
  case None
  then show ?thesis using assms map_inv_reader by (auto simp: hand_over_def)
next
  case (Some f)
  then obtain w where w: "uf_forwarders s f = Some w" "fw_phase w \<noteq> Gone"
    using assms(1) by (auto simp: map_inv_def serves_def)
  then have "s' = (set_forwarder f (w\<lparr>fw_queue := fw_queue w @ [ut_data p]\<rparr>) s)\<lparr>uf_reader := Reading\<rparr>"
    using assms(2) Some by (simp add: hand_over_def split: if_splits)
  with map_inv_reader [OF map_inv_set [OF assms(1) w, of "w\<lparr>fw_queue := fw_queue w @ [ut_data p]\<rparr>"]] w(2)
  show ?thesis by simp
qed

lemma fw_inbound_map:
  assumes "map_inv s" "uf_forwarders s f = Some w" "fw_phase w = Forwarding" "fw_inbound f ok w s = Some s'"
  shows "map_inv s'"
proof (cases "fw_queue w")
  case (Cons d q)
  then show ?thesis using assms by (cases ok) (auto simp: fw_inbound_def intro!: map_inv_set)
qed (use assms in \<open>simp add: fw_inbound_def\<close>)

lemma fw_reply_map:
  assumes "map_inv s" "uf_forwarders s f = Some w" "fw_phase w = Forwarding" "fw_reply f r w s = Some s'"
  shows "map_inv s'"
proof -
  have "map_inv (set_forwarder f (w\<lparr>fw_phase := Leaving\<rparr>) s)"
    by (rule map_inv_set [OF assms(1,2)]) (simp_all add: assms(3))
  moreover have "map_inv (s\<lparr>uf_outbound := x\<rparr>)" for x
    using assms(1) by (rule map_inv_cong) (use assms(1) in \<open>simp_all add: map_inv_def\<close>)
  ultimately show ?thesis using assms(4)
    by (auto simp: fw_reply_def split: sum.splits option.splits if_splits)
qed

lemma fw_cleanup_map:
  assumes "map_inv s" "uf_forwarders s f = Some w" "fw_phase w = Leaving"
  shows "map_inv (fw_cleanup f w s)"
proof -
  let ?t = "fw_cleanup f w s"
  have old: "uf_map s a = Some g \<longleftrightarrow> serves s g a" for a g using assms(1) by (simp add: map_inv_def)
  have f: "serves s f (fw_from w)" using assms(2,3) by (simp add: serves_def)
  have fs: "uf_forwarders ?t = (uf_forwarders s)(f \<mapsto> w\<lparr>fw_phase := Gone\<rparr>)"
    and m: "uf_map ?t = (uf_map s)(fw_from w := None)" by (simp_all add: fw_cleanup_def)
  have sv: "serves ?t g a \<longleftrightarrow> g \<noteq> f \<and> serves s g a" for g a
    by (auto simp: serves_def fs)
  have "g = f" if "serves s g (fw_from w)" for g
    using old [of "fw_from w" g] old [of "fw_from w" f] f that by simp
  moreover have "a = fw_from w" if "serves s f a" for a using that assms(2) by (auto simp: serves_def)
  moreover have "f < uf_next s" using assms(1,2) by (metis map_inv_def not_le option.distinct(1))
  ultimately show ?thesis using assms(1) unfolding map_inv_def
    by (auto simp: sv m old fs) (simp_all add: fw_cleanup_def)
qed

lemma write_out_map:
  assumes "map_inv s" "write_out B w s = Some s'"
  shows "map_inv s'"
  using assms by (auto simp: write_out_def map_inv_def serves_def split: list.splits sum.splits)

lemma with_forwarderE:
  assumes "with_forwarder ph f g s = Some s'"
  obtains w where "uf_forwarders s f = Some w" "fw_phase w = ph" "g w s = Some s'"
  using assms by (auto simp: with_forwarder_def split: option.splits if_splits)

lemma uf_step_map:
  assumes "map_inv s" "uf_step B e s = Some s'"
  shows "map_inv s'"
proof (cases e)
  case Read_Packet
  then show ?thesis using assms read_packet_map by (auto split: if_splits)
next
  case (Connected r)
  then show ?thesis using assms connected_map by (auto split: reader.splits)
next
  case Hand_Over
  then show ?thesis using assms hand_over_map by (auto split: reader.splits)
next
  case (Fw_Inbound f ok)
  with assms(2) show ?thesis by (auto elim!: with_forwarderE intro: fw_inbound_map [OF assms(1)])
next
  case (Fw_Reply f r)
  with assms(2) show ?thesis by (auto elim!: with_forwarderE intro: fw_reply_map [OF assms(1)])
next
  case (Fw_Timeout f)
  with assms(2) show ?thesis by (auto elim!: with_forwarderE intro!: map_inv_set [OF assms(1)])
next
  case (Fw_Cleanup f)
  with assms(2) show ?thesis by (auto elim!: with_forwarderE intro: fw_cleanup_map [OF assms(1)])
next
  case Write_Out
  then show ?thesis using assms write_out_map by (auto split: option.splits)
qed

section \<open>Datagrams keep their visitor and their order\<close>

definition fw_ok :: "udp_traffic list \<Rightarrow> udp_traffic list \<Rightarrow> forwarder \<Rightarrow> bool" where
  "fw_ok done read w \<longleftrightarrow>
     subseq (fw_sent w @ fw_queue w) (data_from (fw_from w) done) \<and> fw_from w \<in> ut_from ` set read"

definition reply_ok :: "udp_traffic list \<Rightarrow> udp_traffic \<Rightarrow> bool" where
  "reply_ok read t \<longleftrightarrow> ut_from t \<in> ut_from ` set read \<and> length (ut_data t) \<le> UDP_BUFFER_SIZE"

lemma order_inv_alt:
  "order_inv s \<longleftrightarrow>
     (\<forall>p. uf_reader s = Connecting p \<or> uf_reader s = Handing p \<longrightarrow> uf_read s \<noteq> [] \<and> last (uf_read s) = p) \<and>
     (\<forall>f w. uf_forwarders s f = Some w \<longrightarrow> fw_ok (handed s) (uf_read s) w) \<and>
     (\<forall>t \<in> set (uf_outbound s) \<union> set (uf_written s). reply_ok (uf_read s) t)"
  by (simp add: order_inv_def fw_ok_def reply_ok_def)

lemma fw_ok_read: "fw_ok done read w \<Longrightarrow> fw_ok done (read @ ps) w"
  by (auto simp: fw_ok_def)

lemma reply_ok_read: "reply_ok read t \<Longrightarrow> reply_ok (read @ ps) t"
  by (auto simp: reply_ok_def)

lemma data_from_append: "data_from a (ts @ us) = data_from a ts @ data_from a us"
  by (simp add: data_from_def)

lemma fw_ok_done: "fw_ok done read w \<Longrightarrow> fw_ok (done @ ps) read w"
  by (auto simp: fw_ok_def data_from_append)

lemma fw_ok_push:
  assumes "fw_ok done read w" "ut_from p = fw_from w"
  shows "fw_ok (done @ [p]) read (w\<lparr>fw_queue := fw_queue w @ [ut_data p]\<rparr>)"
proof -
  have "subseq ((fw_sent w @ fw_queue w) @ [ut_data p]) (data_from (fw_from w) done @ [ut_data p])"
    using assms(1) by (intro list_emb_append_mono) (auto simp: fw_ok_def)
  then show ?thesis using assms by (simp add: fw_ok_def data_from_append) (simp add: data_from_def)
qed

lemma fw_ok_drop:
  assumes "fw_ok done read w" "fw_queue w = d # q"
  shows "fw_ok done read (w\<lparr>fw_queue := q, fw_phase := ph\<rparr>)"
proof -
  have "subseq (fw_sent w @ q) (fw_sent w @ d # q)"
    by (intro list_emb_append_mono) auto
  then show ?thesis using assms subseq_order.trans by (auto simp: fw_ok_def)
qed

lemma handed_set [simp]: "handed (set_forwarder f w s) = handed s"
  by (simp add: handed_def cong: reader.case_cong)

lemma handed_updates [simp]:
  "handed (s\<lparr>uf_map := m\<rparr>) = handed s" "handed (s\<lparr>uf_outbound := ob\<rparr>) = handed s"
  "handed (s\<lparr>uf_result := e\<rparr>) = handed s"
  "handed (s\<lparr>uf_outbound := ob, uf_writer := w\<rparr>) = handed s"
  "handed (s\<lparr>uf_outbound := ob, uf_writer := w, uf_written := wr\<rparr>) = handed s"
  by (simp_all add: handed_def cong: reader.case_cong)

lemma order_set:
  assumes "order_inv s" "fw_ok (handed s) (uf_read s) w"
  shows "order_inv (set_forwarder f w s)"
  using assms by (simp add: order_inv_alt)

lemma order_forwarder:
  assumes "order_inv s" "uf_forwarders s f = Some w"
  shows "fw_ok (handed s) (uf_read s) w"
  using assms by (simp add: order_inv_alt)

lemma read_packet_order:
  assumes "order_inv s" "uf_reader s = Reading"
  shows "order_inv (read_packet B s)"
proof -
  have "order_inv (s\<lparr>uf_input := i, uf_read := uf_read s @ [p], uf_reader := r\<rparr>)"
    if "r = Connecting p \<or> r = Handing p" for i p r
    using assms that by (auto simp: order_inv_alt handed_def intro: fw_ok_read reply_ok_read)
  moreover have "order_inv (s\<lparr>uf_result := x\<rparr>)" for x
    using assms by (simp add: order_inv_alt)
  ultimately show ?thesis by (simp add: read_packet_def split: sum.split)
qed

lemma connected_order:
  assumes "order_inv s" "uf_reader s = Connecting p"
  shows "order_inv (connected p r s)"
proof -
  have "ut_from p \<in> ut_from ` set (uf_read s)"
    using assms by (auto simp: order_inv_def intro!: imageI)
  then show ?thesis using assms
    by (cases r) (auto simp: connected_def order_inv_alt handed_def fw_ok_def)
qed

lemma hand_over_order:
  assumes inv: "order_inv s" and m: "map_inv s" and h: "uf_reader s = Handing p" and s': "hand_over p s = Some s'"
  shows "order_inv s'"
proof -
  have last: "uf_read s \<noteq> []" "last (uf_read s) = p" using inv h by (simp_all add: order_inv_def)
  then have r: "uf_read s = handed s @ [p]"
    using append_butlast_last_id [of "uf_read s"] by (simp add: handed_def h)
  have "fw_ok (uf_read s) (uf_read s) w" if "uf_forwarders s f = Some w" for f w
    using fw_ok_done [OF order_forwarder [OF inv that], of "[p]"] by (simp only: r [symmetric])
  then have idle: "order_inv (s\<lparr>uf_reader := Reading\<rparr>)"
    using inv by (simp add: order_inv_alt) (simp add: handed_def)
  show ?thesis
  proof (cases "uf_map s (ut_from p)")
    case None
    then show ?thesis using s' idle by (simp add: hand_over_def)
  next
    case (Some f)
    then obtain w where w: "uf_forwarders s f = Some w" "fw_phase w \<noteq> Gone" "fw_from w = ut_from p"
      using m by (auto simp: map_inv_def serves_def)
    let ?w = "w\<lparr>fw_queue := fw_queue w @ [ut_data p]\<rparr>"
    have "fw_ok (handed s) (uf_read s) w" using inv w by (simp add: order_inv_alt)
    then have "fw_ok (uf_read s) (uf_read s) ?w"
      using fw_ok_push [of "handed s" "uf_read s" w p] w(3) r by simp
    then have "order_inv (set_forwarder f ?w (s\<lparr>uf_reader := Reading\<rparr>))"
      using order_set [OF idle] by (simp add: handed_def)
    moreover have "s' = set_forwarder f ?w (s\<lparr>uf_reader := Reading\<rparr>)"
      using s' Some w by (cases s) (auto simp: hand_over_def set_forwarder_def split: if_splits)
    ultimately show ?thesis by simp
  qed
qed

lemma fw_inbound_order:
  assumes "order_inv s" "uf_forwarders s f = Some w" "fw_inbound f ok w s = Some s'"
  shows "order_inv s'"
proof (cases "fw_queue w")
  case (Cons d q)
  have w: "fw_ok (handed s) (uf_read s) w" by (rule order_forwarder [OF assms(1,2)])
  show ?thesis
  proof (cases ok)
    case True
    have "fw_ok (handed s) (uf_read s) (w\<lparr>fw_queue := q, fw_sent := fw_sent w @ [d]\<rparr>)"
      using w Cons by (simp add: fw_ok_def)
    then show ?thesis using assms Cons True order_set [OF assms(1)] by (auto simp: fw_inbound_def)
  next
    case False
    then show ?thesis using assms Cons order_set [OF assms(1) fw_ok_drop [OF w Cons]]
      by (auto simp: fw_inbound_def)
  qed
qed (use assms in \<open>simp add: fw_inbound_def\<close>)

lemma fw_leave_order:
  assumes "order_inv s" "uf_forwarders s f = Some w"
  shows "order_inv (set_forwarder f (w\<lparr>fw_phase := ph\<rparr>) s)"
  using order_set [OF assms(1)] order_forwarder [OF assms] by (simp add: fw_ok_def)

lemma fw_reply_order:
  assumes "order_inv s" "uf_forwarders s f = Some w" "fw_reply f r w s = Some s'"
  shows "order_inv s'"
proof -
  have "reply_ok (uf_read s) \<lparr>ut_from = fw_from w, ut_data = take UDP_BUFFER_SIZE d\<rparr>" for d
    using order_forwarder [OF assms(1,2)] by (simp add: fw_ok_def reply_ok_def)
  then have "order_inv (s\<lparr>uf_outbound := uf_outbound s @ [\<lparr>ut_from = fw_from w, ut_data = take UDP_BUFFER_SIZE d\<rparr>]\<rparr>)" for d
    using assms(1) by (auto simp: order_inv_alt)
  then show ?thesis using assms(3) fw_leave_order [OF assms(1,2)]
    by (auto simp: fw_reply_def split: sum.splits option.splits if_splits)
qed

lemma fw_cleanup_order:
  assumes "order_inv s" "uf_forwarders s f = Some w"
  shows "order_inv (fw_cleanup f w s)"
  using fw_leave_order [OF assms, of Gone] by (simp add: fw_cleanup_def order_inv_alt)

lemma write_out_order:
  assumes "order_inv s" "write_out B w s = Some s'"
  shows "order_inv s'"
proof (cases "uf_outbound s")
  case (Cons t ts)
  then show ?thesis using assms
    by (cases "udp_write B t w") (auto simp: write_out_def order_inv_alt)
qed (use assms in \<open>simp add: write_out_def\<close>)

lemma uf_step_order:
  assumes "order_inv s" "map_inv s" "uf_step B e s = Some s'"
  shows "order_inv s'"
proof (cases e)
  case Read_Packet
  then show ?thesis using assms read_packet_order by (auto split: if_splits)
next
  case (Connected r)
  then show ?thesis using assms connected_order by (auto split: reader.splits)
next
  case Hand_Over
  then show ?thesis using assms hand_over_order by (auto split: reader.splits)
next
  case (Fw_Inbound f ok)
  with assms(3) show ?thesis by (auto elim!: with_forwarderE intro: fw_inbound_order [OF assms(1)])
next
  case (Fw_Reply f r)
  with assms(3) show ?thesis by (auto elim!: with_forwarderE intro: fw_reply_order [OF assms(1)])
next
  case (Fw_Timeout f)
  with assms(3) show ?thesis by (auto elim!: with_forwarderE intro: fw_leave_order [OF assms(1)])
next
  case (Fw_Cleanup f)
  with assms(3) show ?thesis by (auto elim!: with_forwarderE intro: fw_cleanup_order [OF assms(1)])
next
  case Write_Out
  then show ?thesis using assms write_out_order by (auto split: option.splits)
qed

lemma uf_run_inv:
  "map_inv s \<and> order_inv s \<Longrightarrow> uf_run B es s = Some s' \<Longrightarrow> map_inv s' \<and> order_inv s'"
proof (induction es arbitrary: s)
  case (Cons e es)
  then obtain t where t: "uf_step B e s = Some t" "uf_run B es t = Some s'"
    by (auto simp: bind_eq_Some_conv)
  from Cons.prems(1) uf_step_map [OF _ t(1)] uf_step_order [OF _ _ t(1)] have "map_inv t \<and> order_inv t" by blast
  from Cons.IH [OF this t(2)] show ?case .
qed simp

lemma uf_start_inv: "map_inv (udp_forward_start c) \<and> order_inv (udp_forward_start c)"
  by (simp add: udp_forward_start_def map_inv_def order_inv_def serves_def)

section \<open>Properties\<close>

text \<open>
  C15. The port map of a UDP data channel, under every interleaving of the reader, the forwarders'
  timeouts and cleanups and the writer: an address is mapped to a forwarder exactly while that
  forwarder serves it and has not cleaned up, so there is at most one forwarder per visitor and a
  cleanup never removes a newer forwarder's mapping.
\<close>

theorem udp_port_map_exact:
  assumes "uf_run B es (udp_forward_start c) = Some s"
  shows "(uf_map s a = Some f) = serves s f a"
  using uf_run_inv [OF uf_start_inv assms] by (simp add: map_inv_def)


section \<open>Sample run\<close>

text \<open>Two visitors; the first one's forwarder times out, is cleaned up, and a later packet gets a new one.\<close>

definition sample_input :: bytes where
  "sample_input = concat (map (udp_frame bincode_v1)
     [\<lparr>ut_from = V4 9 9, ut_data = [1]\<rparr>, \<lparr>ut_from = V4 8 8, ut_data = [2]\<rparr>, \<lparr>ut_from = V4 9 9, ut_data = [3]\<rparr>])"

definition uf_trace :: "uf_event list" where
  "uf_trace = [Read_Packet, Connected (Inr ()), Hand_Over, Fw_Inbound 0 True, Fw_Reply 0 (Inr [7, 7]),
     Read_Packet, Connected (Inr ()), Hand_Over, Fw_Timeout 0, Fw_Cleanup 0, Write_Out,
     Read_Packet, Connected (Inr ()), Hand_Over]"

definition uf_after :: udp_forward where
  "uf_after = the (uf_run bincode_v1 uf_trace (udp_forward_start \<lparr>conn_in = sample_input, conn_out = open_sink\<rparr>))"

lemma uf_trace_run:
  "uf_run bincode_v1 uf_trace (udp_forward_start \<lparr>conn_in = sample_input, conn_out = open_sink\<rparr>) = Some uf_after"
proof -
  have "uf_run bincode_v1 uf_trace (udp_forward_start \<lparr>conn_in = sample_input, conn_out = open_sink\<rparr>) \<noteq> None"
    by code_simp
  then show ?thesis by (auto simp: uf_after_def)
qed

theorem udp_port_map_exact_witness:
  "(uf_map uf_after (V4 9 9) = Some 2) = serves uf_after 2 (V4 9 9)"
  by (rule udp_port_map_exact [OF uf_trace_run])

lemma uf_after_facts:
  "uf_map uf_after (V4 9 9) = Some 2" "uf_map uf_after (V4 8 8) = Some 1"
  "uf_written uf_after = [\<lparr>ut_from = V4 9 9, ut_data = [7, 7]\<rparr>]"
  "uf_forwarders uf_after 2 = Some \<lparr>fw_from = V4 9 9, fw_queue = [[3]], fw_sent = [], fw_phase = Forwarding\<rparr>"
  by code_simp+


end
