(* ===== verification/Client.thy ===== *)
theory Client
  imports Client_Udp
begin

text \<open>
  \<open>src/client.rs\<close>, \<open>run_client\<close>, \<open>Client::run\<close> and its hot reload: one handle per configured
  service, whose drop is the shutdown signal of the task it belongs to.
\<close>

section \<open>State\<close>

text \<open>
  A task serves the configuration it was started with, until its shutdown signal: the handle was
  dropped or sent it. The handles are the map by service name.
\<close>

record client_task =
  ct_service :: client_service_config
  ct_digest :: digest
  ct_shutdown :: bool

record client =
  cl_config :: client_config
  cl_handles :: "string \<Rightarrow> nat option"
  cl_tasks :: "nat \<Rightarrow> client_task option"
  cl_next :: nat
  cl_runtime :: runtime_snapshot
  cl_stopped :: bool

definition client_from :: "client_config \<Rightarrow> runtime_snapshot \<Rightarrow> client" where
  "client_from config runtime = \<lparr>cl_config = config, cl_handles = Map.empty, cl_tasks = Map.empty,
     cl_next = 0, cl_runtime = runtime, cl_stopped = False\<rparr>"

text \<open>\<open>retry_interval.unwrap()\<close> panics (\<open>None\<close>) without an interval, which a loaded configuration has.\<close>

definition client_handle_new :: "env \<Rightarrow> client_service_config \<Rightarrow> client \<Rightarrow> (nat \<times> client) option" where
  "client_handle_new E service c =
     (case csc_retry_interval service of
        None \<Rightarrow> None
      | Some interval \<Rightarrow>
          Some (cl_next c,
            c\<lparr>cl_tasks := (cl_tasks c)(cl_next c \<mapsto>
                \<lparr>ct_service = service, ct_digest = name_digest E (csc_name service), ct_shutdown = False\<rparr>),
              cl_next := Suc (cl_next c)\<rparr>))"

definition shut_down :: "nat option \<Rightarrow> client \<Rightarrow> client" where
  "shut_down h c =
     (case h of
        None \<Rightarrow> c
      | Some t \<Rightarrow> c\<lparr>cl_tasks := (cl_tasks c)(t := map_option (\<lambda>x. x\<lparr>ct_shutdown := True\<rparr>) (cl_tasks c t))\<rparr>)"

text \<open>\<open>HashMap::insert\<close> drops the handle it replaces.\<close>

definition insert_handle :: "string \<Rightarrow> nat \<Rightarrow> client \<Rightarrow> client" where
  "insert_handle n t c = (shut_down (cl_handles c n) c)\<lparr>cl_handles := (cl_handles c)(n \<mapsto> t)\<rparr>"

definition remove_handle :: "string \<Rightarrow> client \<Rightarrow> client" where
  "remove_handle n c = (shut_down (cl_handles c n) c)\<lparr>cl_handles := (cl_handles c)(n := None)\<rparr>"

section \<open>Running\<close>

definition start_service :: "env \<Rightarrow> string \<Rightarrow> client_service_config \<Rightarrow> client \<Rightarrow> client option" where
  "start_service E n service c =
     map_option (\<lambda>(t, c'). insert_handle n t c') (client_handle_new E service c)"

fun start_services :: "env \<Rightarrow> (string \<times> client_service_config) list \<Rightarrow> client \<Rightarrow> client option" where
  "start_services E [] c = Some c"
| "start_services E ((n, s) # ss) c = Option.bind (start_service E n s c) (start_services E ss)"

definition client_handle_hot_reload :: "env \<Rightarrow> config_change \<Rightarrow> client \<Rightarrow> client option" where
  "client_handle_hot_reload E e c =
     (case e of
        ClientChange (Client_Add cfg) \<Rightarrow>
          start_service E (csc_name cfg) cfg
            (c\<lparr>cl_runtime := client_add (cl_runtime c) (csc_name cfg) (cc_remote_addr (cl_config c))\<rparr>)
      | ClientChange (Client_Delete n) \<Rightarrow>
          Some (remove_handle n (c\<lparr>cl_runtime := remove_service (cl_runtime c) n\<rparr>))
      | _ \<Rightarrow> Some c)"

text \<open>The end of \<open>run\<close>: the handles are drained in the order \<open>names\<close> of the hash map.\<close>

fun drain :: "string list \<Rightarrow> client \<Rightarrow> client option" where
  "drain [] c = Some (c\<lparr>cl_stopped := True\<rparr>)"
| "drain (n # ns) c =
     Option.bind (client_stopped (cl_runtime c) n) (\<lambda>rt.
       drain ns (remove_handle n (c\<lparr>cl_runtime := rt\<rparr>)))"

datatype client_event =
    Cl_Update "config_change option"
  | Cl_Stop "string list"

definition client_step :: "env \<Rightarrow> client_event \<Rightarrow> client \<Rightarrow> client option" where
  "client_step E e c =
     (if cl_stopped c then Some c
      else (case e of
              Cl_Update None \<Rightarrow> Some c
            | Cl_Update (Some change) \<Rightarrow> client_handle_hot_reload E change c
            | Cl_Stop names \<Rightarrow> drain names c))"

fun client_run :: "env \<Rightarrow> client_event list \<Rightarrow> client \<Rightarrow> client option" where
  "client_run E [] c = Some c"
| "client_run E (e # es) c = Option.bind (client_step E e c) (client_run E es)"

definition run_client ::
  "('cert, 'key, 'scfg, 'ccfg) tls_lib \<Rightarrow> 'params noise_lib \<Rightarrow> env \<Rightarrow> config \<Rightarrow> runtime_snapshot \<Rightarrow>
   (anyhow + ('scfg, 'ccfg, 'params) any_transport \<times> client) option" where
  "run_client TL NL E c runtime =
     (case cfg_client c of
        None \<Rightarrow> Some (Inl (Err (''Try to run as a client, but the configuration is missing. '' @
                  ''Please add the `[client]` block'')))
      | Some cc \<Rightarrow>
          (case with_context (Ctx ''Failed to create the transport'') (new_transport TL NL (cc_transport cc)) of
             Inl e \<Rightarrow> Some (Inl e)
           | Inr t \<Rightarrow> map_option (\<lambda>cl. Inr (t, cl)) (start_services E (cc_services cc) (client_from cc runtime))))"

section \<open>Handles own the running tasks\<close>

definition runs :: "client \<Rightarrow> nat \<Rightarrow> bool" where
  "runs c t \<longleftrightarrow> (\<exists>x. cl_tasks c t = Some x \<and> \<not> ct_shutdown x)"

definition client_inv :: "env \<Rightarrow> client \<Rightarrow> bool" where
  "client_inv E c \<longleftrightarrow>
     (\<forall>t. runs c t \<longleftrightarrow> t \<in> ran (cl_handles c)) \<and>
     (\<forall>n m t. cl_handles c n = Some t \<longrightarrow> cl_handles c m = Some t \<longrightarrow> n = m) \<and>
     (\<forall>t. cl_next c \<le> t \<longrightarrow> cl_tasks c t = None) \<and>
     (\<forall>t x. cl_tasks c t = Some x \<longrightarrow> ct_digest x = name_digest E (csc_name (ct_service x)))"

text \<open>The services that are served: the configuration of the running task under each name.\<close>

definition served :: "client \<Rightarrow> client_service_config services" where
  "served c n = Option.bind (cl_handles c n) (\<lambda>t. map_option ct_service (cl_tasks c t))"

lemma client_invD:
  assumes "client_inv E c"
  shows "runs c t \<longleftrightarrow> t \<in> ran (cl_handles c)"
    "cl_handles c n = Some t \<Longrightarrow> cl_handles c m = Some t \<Longrightarrow> n = m"
    "cl_next c \<le> t \<Longrightarrow> cl_tasks c t = None"
    "cl_tasks c t = Some x \<Longrightarrow> ct_digest x = name_digest E (csc_name (ct_service x))"
  using assms unfolding client_inv_def by blast+

lemma shut_down_simps [simp]:
  "cl_handles (shut_down h c) = cl_handles c" "cl_next (shut_down h c) = cl_next c"
  "cl_config (shut_down h c) = cl_config c" "cl_stopped (shut_down h c) = cl_stopped c"
  "cl_runtime (shut_down h c) = cl_runtime c"
  by (simp_all add: shut_down_def split: option.split)

lemma runs_shut_down: "runs (shut_down h c) t \<longleftrightarrow> runs c t \<and> h \<noteq> Some t"
  by (cases h) (auto simp: runs_def shut_down_def)

lemma shut_down_service:
  "map_option ct_service (cl_tasks (shut_down h c) t) = map_option ct_service (cl_tasks c t)"
  by (cases h) (simp_all add: shut_down_def option.map_comp comp_def)

lemma shut_down_tasks:
  assumes "cl_tasks (shut_down h c) t = Some y"
  obtains x where "cl_tasks c t = Some x" "ct_service y = ct_service x" "ct_digest y = ct_digest x"
  using assms that by (cases h) (auto simp: shut_down_def split: if_splits)

lemma shut_down_None: "cl_tasks c t = None \<Longrightarrow> cl_tasks (shut_down h c) t = None"
  by (cases h) (auto simp: shut_down_def)

lemma served_cong:
  "cl_handles c' = cl_handles c \<Longrightarrow> cl_tasks c' = cl_tasks c \<Longrightarrow> served c' = served c"
  by (simp add: served_def fun_eq_iff)

lemma client_inv_cong:
  assumes "client_inv E c" "cl_handles c' = cl_handles c" "cl_tasks c' = cl_tasks c" "cl_next c' = cl_next c"
  shows "client_inv E c'"
proof -
  have "runs c' = runs c" by (simp add: runs_def fun_eq_iff assms(3))
  then show ?thesis using assms by (simp add: client_inv_def)
qed

lemma remove_handle_inv:
  assumes inv: "client_inv E c"
  shows "client_inv E (remove_handle n c)"
  unfolding client_inv_def
proof (intro conjI allI impI)
  fix t
  have "t \<in> ran ((cl_handles c)(n := None)) \<longleftrightarrow> t \<in> ran (cl_handles c) \<and> cl_handles c n \<noteq> Some t"
    using client_invD(2) [OF inv, of n t] by (auto simp: ran_def)
  moreover have "runs (remove_handle n c) t = runs (shut_down (cl_handles c n) c) t"
    by (simp add: runs_def remove_handle_def)
  ultimately show "runs (remove_handle n c) t \<longleftrightarrow> t \<in> ran (cl_handles (remove_handle n c))"
    by (simp add: runs_shut_down client_invD(1) [OF inv]) (simp add: remove_handle_def)
next
  fix a b t
  assume "cl_handles (remove_handle n c) a = Some t" "cl_handles (remove_handle n c) b = Some t"
  then show "a = b" using client_invD(2) [OF inv] by (auto simp: remove_handle_def split: if_splits)
next
  fix t
  assume "cl_next (remove_handle n c) \<le> t"
  then show "cl_tasks (remove_handle n c) t = None"
    using client_invD(3) [OF inv] shut_down_None by (simp add: remove_handle_def)
next
  fix t x
  assume "cl_tasks (remove_handle n c) t = Some x"
  then show "ct_digest x = name_digest E (csc_name (ct_service x))"
    using client_invD(4) [OF inv] by (auto simp: remove_handle_def elim!: shut_down_tasks)
qed

lemma remove_handle_served: "served (remove_handle n c) = (served c)(n := None)"
  by (rule ext) (simp add: served_def remove_handle_def shut_down_service)

text \<open>Starting a service: inserting its handle is removing the old one and adding a fresh one.\<close>

lemma start_service_remove:
  assumes "csc_retry_interval s = Some i" and fresh: "cl_handles c n \<noteq> Some (cl_next c)"
  shows "start_service E n s c = Some ((remove_handle n c)\<lparr>
    cl_tasks := (cl_tasks (remove_handle n c))(cl_next c \<mapsto>
      \<lparr>ct_service = s, ct_digest = name_digest E (csc_name s), ct_shutdown = False\<rparr>),
    cl_next := Suc (cl_next c), cl_handles := (cl_handles c)(n \<mapsto> cl_next c)\<rparr>)"
  using assms
  by (cases "cl_handles c n")
     (auto simp: start_service_def client_handle_new_def insert_handle_def remove_handle_def shut_down_def fun_upd_twist)

lemma start_service_ok:
  assumes inv: "client_inv E c" and i: "csc_retry_interval s \<noteq> None"
  shows "\<exists>c'. start_service E n s c = Some c' \<and> client_inv E c' \<and> served c' = (served c)(n \<mapsto> s) \<and>
    cl_stopped c' = cl_stopped c"
proof -
  let ?r = "remove_handle n c"
  have inv': "client_inv E ?r" by (rule remove_handle_inv [OF inv])
  have none: "cl_tasks c (cl_next c) = None" by (rule client_invD(3) [OF inv]) simp
  then have "\<not> runs c (cl_next c)" by (simp add: runs_def)
  then have no: "cl_next c \<notin> ran (cl_handles c)" using client_invD(1) [OF inv] by blast
  then have fresh: "cl_handles c m \<noteq> Some (cl_next c)" for m by (auto simp: ran_def)
  obtain iv where "csc_retry_interval s = Some iv" using i by blast
  from start_service_remove [OF this fresh] obtain c' where c': "start_service E n s c = Some c'"
    "cl_tasks c' = (cl_tasks ?r)(cl_next c \<mapsto> \<lparr>ct_service = s, ct_digest = name_digest E (csc_name s), ct_shutdown = False\<rparr>)"
    "cl_next c' = Suc (cl_next c)" "cl_handles c' = (cl_handles c)(n \<mapsto> cl_next c)" "cl_stopped c' = cl_stopped c"
    by (simp add: remove_handle_def)
  have r: "cl_next ?r = cl_next c" "cl_handles ?r = (cl_handles c)(n := None)" by (simp_all add: remove_handle_def)
  have "runs c' t \<longleftrightarrow> t = cl_next c \<or> runs ?r t" for t
    by (auto simp: runs_def c'(2))
  moreover have "ran (cl_handles c') = insert (cl_next c) (ran (cl_handles ?r))"
    by (auto simp: c'(4) r(2) ran_def)
  ultimately have 1: "runs c' t \<longleftrightarrow> t \<in> ran (cl_handles c')" for t
    using client_invD(1) [OF inv'] by auto
  have 2: "a = b" if "cl_handles c' a = Some t" "cl_handles c' b = Some t" for a b t
    using that client_invD(2) [OF inv] fresh by (auto simp: c'(4) split: if_splits)
  have 3: "cl_tasks c' t = None" if "cl_next c' \<le> t" for t
    using that client_invD(3) [OF inv', of t] by (simp add: c'(2,3) r(1))
  have 4: "ct_digest x = name_digest E (csc_name (ct_service x))" if "cl_tasks c' t = Some x" for t x
    using that client_invD(4) [OF inv', of t x] by (auto simp: c'(2) split: if_splits)
  have "served c' m = ((served c)(n \<mapsto> s)) m" for m
  proof (cases "m = n")
    case True
    then show ?thesis by (simp add: served_def c'(2,4))
  next
    case False
    then have "served c' m = served ?r m"
      using fresh [of m] by (cases "cl_handles c m") (simp_all add: served_def c'(2,4) r(2))
    then show ?thesis using False by (simp add: remove_handle_served)
  qed
  then have "served c' = (served c)(n \<mapsto> s)" by blast
  moreover have "client_inv E c'" unfolding client_inv_def using 1 2 3 4 by blast
  ultimately show ?thesis using c'(1,5) by blast
qed

lemma start_services_ok:
  "client_inv E c \<Longrightarrow> \<forall>(n, s) \<in> set ss. csc_retry_interval s \<noteq> None \<Longrightarrow>
   \<exists>c'. start_services E ss c = Some c' \<and> client_inv E c' \<and>
     served c' = fold (\<lambda>(n, s) m. m(n \<mapsto> s)) ss (served c) \<and> cl_stopped c' = cl_stopped c"
proof (induction ss arbitrary: c)
  case (Cons e ss)
  obtain n s where e: "e = (n, s)" by (cases e)
  obtain c1 where c1: "start_service E n s c = Some c1" "client_inv E c1" "served c1 = (served c)(n \<mapsto> s)"
    "cl_stopped c1 = cl_stopped c"
    using start_service_ok [OF Cons.prems(1), of s n] Cons.prems(2) by (auto simp: e)
  from Cons.IH [OF c1(2)] Cons.prems(2) show ?case by (auto simp: e c1)
qed simp

lemma client_from_inv: "client_inv E (client_from cc rt)"
  by (simp add: client_inv_def client_from_def runs_def)

section \<open>Hot reload\<close>

definition change_ready :: "config_change \<Rightarrow> bool" where
  "change_ready e \<longleftrightarrow> (case e of ClientChange (Client_Add cfg) \<Rightarrow> csc_retry_interval cfg \<noteq> None | _ \<Rightarrow> True)"

lemma client_reload_ok:
  assumes inv: "client_inv E c" and "change_ready e"
  shows "\<exists>c'. client_handle_hot_reload E e c = Some c' \<and> client_inv E c' \<and>
    served c' = apply_client_change e (served c) \<and> cl_stopped c' = cl_stopped c"
proof (cases e)
  case (ClientChange ch)
  have rt: "client_inv E (c\<lparr>cl_runtime := x\<rparr>)" "served (c\<lparr>cl_runtime := x\<rparr>) = served c" for x
    by (rule client_inv_cong [OF inv], simp_all) (rule served_cong, simp_all)
  show ?thesis
  proof (cases ch)
    case (Client_Add cfg)
    then have "csc_retry_interval cfg \<noteq> None" using assms(2) by (simp add: change_ready_def ClientChange)
    from start_service_ok [OF rt(1) this] show ?thesis
      by (fastforce simp: ClientChange Client_Add client_handle_hot_reload_def rt(2))
  next
    case (Client_Delete n)
    then show ?thesis
      using remove_handle_inv [OF rt(1)] by (simp add: ClientChange client_handle_hot_reload_def remove_handle_served rt(2))
        (simp add: remove_handle_def)
  qed
qed (use inv in \<open>simp_all add: client_handle_hot_reload_def\<close>)

lemma client_reload_run:
  "client_inv E c \<Longrightarrow> \<not> cl_stopped c \<Longrightarrow> list_all change_ready es \<Longrightarrow>
   \<exists>c'. client_run E (map (\<lambda>e. Cl_Update (Some e)) es) c = Some c' \<and> client_inv E c' \<and>
     served c' = fold apply_client_change es (served c) \<and> \<not> cl_stopped c'"
proof (induction es arbitrary: c)
  case (Cons e es)
  have ready: "change_ready e" "list_all change_ready es" using Cons.prems(3) by simp_all
  obtain c1 where c1: "client_handle_hot_reload E e c = Some c1" "client_inv E c1"
    "served c1 = apply_client_change e (served c)" "cl_stopped c1 = cl_stopped c"
    using client_reload_ok [OF Cons.prems(1) ready(1)] by blast
  from Cons.IH [OF c1(2) _ ready(2)] c1 Cons.prems(2) show ?case by (simp add: client_step_def)
qed simp

text \<open>The events for a new configuration, folded over the old services, give the new services.\<close>

lemma client_fold_events:
  assumes "wf_config old" "wf_config new" "same_but_services old new"
    and "cfg_client old = Some co" "cfg_client new = Some cn"
  shows "fold apply_client_change (events_of old new) (map_of (cc_services co)) = map_of (cc_services cn)"
proof -
  obtain v w where ev: "events_of old new = v @ w"
    and v: "side_events server_config_eq server_events (cfg_server old) (cfg_server new) = Some v"
    and w: "side_events client_config_eq client_events (cfg_client old) (cfg_client new) = Some w"
    using events_of_sides [OF assms(3)] .
  have "list_all is_server_change v"
    using v server_events_kind by (auto simp: side_events_def split: option.splits if_splits)
  then have "fold apply_client_change v m = m" for m
  proof (induction v)
    case (Cons x v)
    then show ?case by (cases x) simp_all
  qed simp
  moreover have "map_option (apsnd (fold apply_client_change w)) (map_option client_view (cfg_client old)) =
      map_option client_view (cfg_client new)"
    using side_client_sync [OF _ _ _ w] assms(1,2,4,5) by (simp add: wf_config_def)
  ultimately show ?thesis using assms(4,5) by (simp add: ev client_view_def)
qed

definition retry_ready :: "client_config \<Rightarrow> bool" where
  "retry_ready cc \<longleftrightarrow> list_all (\<lambda>(n, s). csc_retry_interval s \<noteq> None) (cc_services cc)"

lemma events_ready:
  assumes "wf_config old" "wf_config new" "same_but_services old new"
    and "cfg_client new = Some cn" "retry_ready cn"
  shows "list_all change_ready (events_of old new)"
  unfolding list_all_iff
proof
  fix e
  assume e: "e \<in> set (events_of old new)"
  show "change_ready e"
  proof (cases "\<exists>cfg. e = ClientChange (Client_Add cfg)")
    case True
    then obtain cfg where cfg: "e = ClientChange (Client_Add cfg)" by blast
    then have "client_services new (csc_name cfg) = Some cfg"
      using e events_of_exact [OF assms(1-3)] by blast
    then have "(csc_name cfg, cfg) \<in> set (cc_services cn)"
      using assms(4) map_of_SomeD by (fastforce simp: client_services_def)
    then show ?thesis using assms(5) by (auto simp: change_ready_def cfg retry_ready_def list_all_iff)
  next
    case False
    then show ?thesis by (auto simp: change_ready_def split: config_change.split client_service_change.split)
  qed
qed

section \<open>Stopping\<close>

lemma client_stopped_total: "\<exists>rt'. client_stopped rt n = Some rt'"
  by (auto simp: client_stopped_def with_client_def split: option.split runtime_service_snapshot.split)

lemma drain_ok:
  "client_inv E c \<Longrightarrow>
   \<exists>c'. drain ns c = Some c' \<and> client_inv E c' \<and> cl_stopped c' \<and> cl_handles c' = (cl_handles c) |` (- set ns)"
proof (induction ns arbitrary: c)
  case Nil
  have "client_inv E (c\<lparr>cl_stopped := True\<rparr>)" by (rule client_inv_cong [OF Nil]) simp_all
  then show ?case by (simp add: restrict_map_def)
next
  case (Cons n ns)
  obtain rt where rt: "client_stopped (cl_runtime c) n = Some rt" using client_stopped_total by blast
  have "client_inv E (remove_handle n (c\<lparr>cl_runtime := rt\<rparr>))"
    by (rule remove_handle_inv, rule client_inv_cong [OF Cons.prems]) simp_all
  from Cons.IH [OF this] obtain c' where c': "drain ns (remove_handle n (c\<lparr>cl_runtime := rt\<rparr>)) = Some c'"
    "client_inv E c'" "cl_stopped c'"
    "cl_handles c' = cl_handles (remove_handle n (c\<lparr>cl_runtime := rt\<rparr>)) |` (- set ns)"
    by blast
  moreover have "cl_handles (remove_handle n (c\<lparr>cl_runtime := rt\<rparr>)) = (cl_handles c)(n := None)"
    by (simp add: remove_handle_def)
  moreover have "((cl_handles c)(n := None)) |` (- set ns) = (cl_handles c) |` (- set (n # ns))"
    by (auto simp: restrict_map_def fun_eq_iff)
  ultimately show ?case by (simp add: rt)
qed

lemma fold_upd_services:
  "distinct (map fst ss) \<Longrightarrow> fold (\<lambda>(n, s) m. m(n \<mapsto> s)) ss Map.empty = map_of ss"
  using fold_upd_map_of by fastforce

section \<open>Properties\<close>

text \<open>
  Starting a client: with a usable transport and a retry interval in every service (a loaded
  configuration has both), one task is started per configured service, each with its service's
  configuration and the digest of its name, and these are the only running tasks.
\<close>

theorem client_starts_every_service:
  assumes "cfg_client c = Some cc" "new_transport TL NL (cc_transport cc) = Inr t"
    and "wf_client_services cc" "retry_ready cc"
  shows "\<exists>cl. run_client TL NL E c rt = Some (Inr (t, cl)) \<and> client_inv E cl \<and> served cl = map_of (cc_services cc)"
proof -
  have "\<forall>(n, s) \<in> set (cc_services cc). csc_retry_interval s \<noteq> None"
    using assms(4) by (simp add: retry_ready_def list_all_iff)
  from start_services_ok [OF client_from_inv this] obtain cl where
    cl: "start_services E (cc_services cc) (client_from cc rt) = Some cl" "client_inv E cl"
    "served cl = fold (\<lambda>(n, s) m. m(n \<mapsto> s)) (cc_services cc) (served (client_from cc rt))" by blast
  have "served (client_from cc rt) = Map.empty" by (simp add: served_def client_from_def fun_eq_iff)
  then have "served cl = map_of (cc_services cc)"
    using cl(3) assms(3) fold_upd_services [of "cc_services cc"] by (simp add: wf_client_services_def)
  then show ?thesis using assms(1,2) cl by (simp add: run_client_def)
qed

text \<open>
  C8. Hot reload of a client: processing the events for a new configuration (only services changed)
  never panics, and afterwards the running tasks serve exactly the new configuration's services,
  one task each, as after a restart; the tasks of changed and deleted services were told to stop.
\<close>

theorem client_reload_equals_restart:
  assumes "client_inv E c" "\<not> cl_stopped c" "wf_config old" "wf_config new" "same_but_services old new"
    and "cfg_client old = Some co" "cfg_client new = Some cn" "retry_ready cn"
    and "served c = map_of (cc_services co)"
  shows "\<exists>c'. client_run E (map (\<lambda>e. Cl_Update (Some e)) (events_of old new)) c = Some c' \<and>
    client_inv E c' \<and> served c' = map_of (cc_services cn)"
  using client_reload_run [OF assms(1,2) events_ready [OF assms(3-5,7,8)]] client_fold_events [OF assms(3-7)]
  by (auto simp: assms(9))


section \<open>Witnesses\<close>

definition sample_tcp :: tcp_transport where
  "sample_tcp = \<lparr>tcp_socket_opts = opts_from_cfg default_tcp_config, tcp_cfg = default_tcp_config\<rparr>"

definition sample_client_state :: client where
  "sample_client_state = the (start_services sample_env (cc_services (normal_client sample_client))
     (client_from (normal_client sample_client) (client_registry 1 0 ''example.org:2333'' [''ssh''])))"

lemma sample_retry_ready: "retry_ready (normal_client sample_client)"
  by (simp add: retry_ready_def normal_client_def sample_client_def fill_client_def client_service_with_name_def)

lemma sample_client_wf: "wf_client_services (normal_client sample_client)"
  by (rule normal_client_wf) (simp add: sample_client_def)

theorem client_starts_every_service_witness:
  "\<forall>(TL :: (unit, unit, unit, unit) tls_lib) (NL :: unit noise_lib) rt. \<exists>cl. run_client TL NL sample_env sample_config rt = Some (Inr (Tcp_Transport sample_tcp, cl)) \<and>
    client_inv sample_env cl \<and> served cl ''ssh'' \<noteq> None"
proof (intro allI)
  fix TL :: "(unit, unit, unit, unit) tls_lib" and NL :: "unit noise_lib" and rt
  have "new_transport TL NL (cc_transport (normal_client sample_client)) = Inr (Tcp_Transport sample_tcp)"
    by (simp add: new_transport_def normal_client_def sample_client_def default_transport_config_def
        default_transport_type_def tcp_new_def sample_tcp_def)
  moreover have "cfg_client sample_config = Some (normal_client sample_client)" by (simp add: sample_config_def)
  moreover have "map_of (cc_services (normal_client sample_client)) ''ssh'' \<noteq> None"
    by (simp add: normal_client_def sample_client_def fill_client_def)
  ultimately show "\<exists>cl. run_client TL NL sample_env sample_config rt = Some (Inr (Tcp_Transport sample_tcp, cl)) \<and>
    client_inv sample_env cl \<and> served cl ''ssh'' \<noteq> None"
    using client_starts_every_service [OF _ _ sample_client_wf sample_retry_ready, of sample_config TL NL
        "Tcp_Transport sample_tcp" sample_env rt] by fastforce
qed

lemma sample_client_state_ok:
  "client_inv sample_env sample_client_state" "\<not> cl_stopped sample_client_state"
  "served sample_client_state = map_of (cc_services (normal_client sample_client))"
  "set [''ssh''] = dom (cl_handles sample_client_state)"
proof -
  have r: "\<forall>(n, s) \<in> set (cc_services (normal_client sample_client)). csc_retry_interval s \<noteq> None"
    using sample_retry_ready by (simp add: retry_ready_def list_all_iff)
  let ?c = "client_from (normal_client sample_client) (client_registry 1 0 ''example.org:2333'' [''ssh''])"
  obtain c where c: "start_services sample_env (cc_services (normal_client sample_client)) ?c = Some c"
    "client_inv sample_env c"
    "served c = fold (\<lambda>(n, s) m. m(n \<mapsto> s)) (cc_services (normal_client sample_client)) (served ?c)"
    "cl_stopped c = cl_stopped ?c"
    using start_services_ok [OF client_from_inv r] by blast
  have s: "sample_client_state = c" by (simp add: sample_client_state_def c(1))
  have e: "served ?c = Map.empty" by (simp add: served_def client_from_def fun_eq_iff)
  show "client_inv sample_env sample_client_state" "\<not> cl_stopped sample_client_state"
    using c(2,4) by (simp_all add: s client_from_def)
  show "served sample_client_state = map_of (cc_services (normal_client sample_client))"
    using c(3) fold_upd_services [of "cc_services (normal_client sample_client)"] sample_client_wf by (simp add: s e wf_client_services_def)
  have "cl_handles c = [''ssh'' \<mapsto> 0]"
    using c(1) by (auto simp: normal_client_def sample_client_def fill_client_def client_service_with_name_def
        start_service_def client_handle_new_def insert_handle_def shut_down_def client_from_def)
  then show "set [''ssh''] = dom (cl_handles sample_client_state)" by (simp add: s)
qed

definition sample_config3 :: config where
  "sample_config3 = \<lparr>cfg_server = Some (normal_server sample_server),
     cfg_client = Some (normal_client (sample_client\<lparr>cc_services := []\<rparr>))\<rparr>"

theorem client_reload_equals_restart_witness:
  "\<exists>c'. client_run sample_env (map (\<lambda>e. Cl_Update (Some e)) (events_of sample_config sample_config3))
      sample_client_state = Some c' \<and> client_inv sample_env c' \<and> served c' = Map.empty"
proof -
  have "wf_config sample_config3"
    by (simp add: wf_config_def sample_config3_def normal_server_wf normal_client_wf sample_server_def)
  moreover have "same_but_services sample_config sample_config3"
    by (simp add: same_but_services_def option_eq_def sample_config_def sample_config3_def
        server_equal_without_service_def client_equal_without_service_def normal_client_def)
  moreover have "cfg_client sample_config3 = Some (normal_client (sample_client\<lparr>cc_services := []\<rparr>))"
    by (simp add: sample_config3_def)
  moreover have "retry_ready (normal_client (sample_client\<lparr>cc_services := []\<rparr>))"
    by (simp add: retry_ready_def normal_client_def)
  moreover have "cfg_client sample_config = Some (normal_client sample_client)" by (simp add: sample_config_def)
  moreover have "cc_services (normal_client (sample_client\<lparr>cc_services := []\<rparr>)) = []"
    by (simp add: normal_client_def)
  ultimately show ?thesis
    using client_reload_equals_restart [OF sample_client_state_ok(1,2) sample_configs_wf(1) _ _ _ _ _ sample_client_state_ok(3)]
    by fastforce
qed


end
