(* ===== verification/App.thy ===== *)
theory App
  imports Client Server_Run Config_Watcher
begin

text \<open>
  \<open>src/lib.rs\<close>, the process: which role it runs, the instance that runs it, and the loop of
  \<open>run_with_config\<close>, which waits for a usable configuration, replaces the instance at a general
  change, hands it the changes of services, and shuts it down. Channels are modelled with
  tokio's documented semantics: a broadcast message reaches the receivers subscribed when it is
  sent, a bounded queue makes its sender wait.
\<close>

section \<open>One instance\<close>

datatype run_mode = Mode_Server | Mode_Client | Mode_Ambiguous | Mode_Undetermine

definition determine_run_mode :: "config \<Rightarrow> bool \<Rightarrow> bool \<Rightarrow> run_mode" where
  "determine_run_mode config client server =
     (if client \<and> server then Mode_Undetermine
      else if client then Mode_Client
      else if server then Mode_Server
      else if cfg_client config \<noteq> None \<and> cfg_server config \<noteq> None then Mode_Ambiguous
      else if cfg_client config \<noteq> None then Mode_Client
      else if cfg_server config \<noteq> None then Mode_Server
      else Mode_Undetermine)"

text \<open>
  What an instance runs after its start. A panic is \<open>None\<close>: the \<open>expect\<close> on the section of a
  forced role, and what \<open>run_client\<close> panics at. The status endpoint, whose failure only warns,
  is not part of the result.
\<close>

datatype ('scfg, 'ccfg, 'params, 'c) started =
    Started_Client "('scfg, 'ccfg, 'params) any_transport" client
  | Started_Server "('scfg, 'ccfg, 'params) any_transport" "'c server"

definition run_instance ::
  "('cert, 'key, 'scfg, 'ccfg) tls_lib \<Rightarrow> 'params noise_lib \<Rightarrow> env \<Rightarrow> u32 \<Rightarrow> u64 \<Rightarrow> config \<Rightarrow> bool \<Rightarrow> bool \<Rightarrow>
   (anyhow + ('scfg, 'ccfg, 'params, 'c) started) option" where
  "run_instance TL NL E pid now config client server =
     (case determine_run_mode config client server of
        Mode_Ambiguous \<Rightarrow> Some (Inl (Err (''configuration declares both [client] and [server]; select exactly '' @
          ''one role with `run --client` or `run --server`, or split it into separate configs'')))
      | Mode_Undetermine \<Rightarrow> Some (Inl (Err (''cannot determine the running mode: pass `--server` or `--client`, '' @
          ''or add exactly one [server]/[client] section to the config'')))
      | Mode_Client \<Rightarrow>
          Option.bind (cfg_client config) (\<lambda>cc.
          map_option (\<lambda>r. rbind r (\<lambda>(t, c). Inr (Started_Client t c)))
            (run_client TL NL E config (client_registry pid now (cc_remote_addr cc) (map fst (cc_services cc)))))
      | Mode_Server \<Rightarrow>
          map_option (\<lambda>sc. rbind (run_server TL NL E config (server_registry pid now (map fst (sc_services sc))))
            (\<lambda>(t, s). Inr (Started_Server t s))) (cfg_server config))"

section \<open>The loop\<close>

text \<open>
  The task of an instance: it subscribes to its shutdown channel when it is first polled, so a
  signal sent before that is missed. \<open>in_taken\<close> are the changes its own loop has received,
  \<open>in_queue\<close> those that wait in its channel.
\<close>

record instance_task =
  in_config :: config
  in_polled :: bool
  in_stop :: bool
  in_missed :: bool
  in_taken :: "config_change list"
  in_queue :: "config_change list"
  in_done :: bool

datatype app_phase =
    Ap_Spawned
  | Ap_Trying
  | Ap_Waiting
  | Ap_Ready
  | Ap_Joining config
  | Ap_Sending config_change
  | Ap_Teardown
  | Ap_Ended

text \<open>
  \<open>ap_current\<close> is the last instance, also while it is joined; \<open>ap_past\<close> and \<open>ap_seen\<close> record the
  joined instances and the events received. The external signal is forwarded at most once;
  \<open>ap_retry\<close>, \<open>ap_watch\<close> and \<open>ap_process\<close> say that the receiver of the retry loop, of the watcher
  and of the main loop holds it.
\<close>

record app =
  ap_phase :: app_phase
  ap_current :: "instance_task option"
  ap_past :: "instance_task list"
  ap_seen :: "config_change list"
  ap_forwarded :: bool
  ap_retry :: bool
  ap_watch :: bool
  ap_process :: bool

definition app_start :: app where
  "app_start =
     \<lparr>ap_phase = Ap_Spawned, ap_current = None, ap_past = [], ap_seen = [], ap_forwarded = False,
      ap_retry = False, ap_watch = False, ap_process = False\<rparr>"

definition spawn_instance :: "config \<Rightarrow> instance_task" where
  "spawn_instance config =
     \<lparr>in_config = config, in_polled = False, in_stop = False, in_missed = False, in_taken = [],
      in_queue = [], in_done = False\<rparr>"

definition send_shutdown :: "instance_task \<Rightarrow> instance_task" where
  "send_shutdown i =
     (if in_done i then i else if in_polled i then i\<lparr>in_stop := True\<rparr> else i\<lparr>in_missed := True\<rparr>)"

definition UPDATE_CAPACITY :: nat where
  "UPDATE_CAPACITY = 1024"

datatype app_event =
    Forwarded
  | Subscribed
  | Created
  | Create_Failed
  | Retry
  | Stop_Waiting
  | Received config_change
  | Events_Closed
  | Stopped
  | Joined
  | Sent
  | Final_Joined
  | Polled
  | Taken
  | Finished

definition join_current :: "app \<Rightarrow> app" where
  "join_current s =
     s\<lparr>ap_past := ap_past s @ (case ap_current s of None \<Rightarrow> [] | Some i \<Rightarrow> [i]), ap_current := None\<rparr>"

definition start_instance :: "config \<Rightarrow> app \<Rightarrow> app" where
  "start_instance config s = (join_current s)\<lparr>ap_current := Some (spawn_instance config), ap_phase := Ap_Ready\<rparr>"

text \<open>One event of the watcher: a general change, or a change of services for the last instance.\<close>

definition receive :: "config_change \<Rightarrow> app \<Rightarrow> app" where
  "receive e s =
     (let s' = s\<lparr>ap_seen := ap_seen s @ [e]\<rparr> in
      case e of
        General config \<Rightarrow>
          (case ap_current s of
             None \<Rightarrow> start_instance config s'
           | Some i \<Rightarrow> s'\<lparr>ap_current := Some (send_shutdown i), ap_phase := Ap_Joining config\<rparr>)
      | _ \<Rightarrow> (if ap_current s = None then s' else s'\<lparr>ap_phase := Ap_Sending e\<rparr>))"

text \<open>
  \<open>send(..).await\<close>: without a receiver the change is dropped, at a full channel the sender waits.
\<close>

definition deliver :: "config_change \<Rightarrow> app \<Rightarrow> app option" where
  "deliver e s =
     Option.bind (ap_current s) (\<lambda>i.
     if in_done i then Some (s\<lparr>ap_phase := Ap_Ready\<rparr>)
     else if length (in_queue i) < UPDATE_CAPACITY
     then Some (s\<lparr>ap_current := Some (i\<lparr>in_queue := in_queue i @ [e]\<rparr>), ap_phase := Ap_Ready\<rparr>)
     else None)"

definition teardown :: "app \<Rightarrow> app" where
  "teardown s = s\<lparr>ap_current := map_option send_shutdown (ap_current s), ap_phase := Ap_Teardown\<rparr>"

definition current_done :: "app \<Rightarrow> bool" where
  "current_done s = pred_option in_done (ap_current s)"

text \<open>
  A step of the task of the instance; \<open>starts\<close> tells whether \<open>run_instance\<close> reaches its loop.
\<close>

definition instance_step :: "(config \<Rightarrow> bool) \<Rightarrow> app_event \<Rightarrow> instance_task \<Rightarrow> instance_task option" where
  "instance_step starts e i =
     (if in_done i then None
      else case e of
        Polled \<Rightarrow> if in_polled i then None else Some (i\<lparr>in_polled := True\<rparr>)
      | Taken \<Rightarrow>
          (case in_queue i of
             [] \<Rightarrow> None
           | x # q \<Rightarrow> if in_polled i \<and> starts (in_config i)
                      then Some (i\<lparr>in_taken := in_taken i @ [x], in_queue := q\<rparr>) else None)
      | Finished \<Rightarrow> if in_polled i then Some (i\<lparr>in_done := True\<rparr>) else None
      | _ \<Rightarrow> None)"

definition app_step :: "(config \<Rightarrow> bool) \<Rightarrow> app_event \<Rightarrow> app \<Rightarrow> app option" where
  "app_step starts e s =
     (let p = ap_phase s in
      case e of
        Forwarded \<Rightarrow>
          if ap_forwarded s then None
          else Some (s\<lparr>ap_forwarded := True, ap_retry := p \<noteq> Ap_Spawned,
                 ap_watch := p \<notin> {Ap_Spawned, Ap_Waiting}, ap_process := p \<notin> {Ap_Spawned, Ap_Trying, Ap_Waiting}\<rparr>)
      | Subscribed \<Rightarrow> if p = Ap_Spawned then Some (s\<lparr>ap_phase := Ap_Trying\<rparr>) else None
      | Created \<Rightarrow> if p = Ap_Trying then Some (s\<lparr>ap_phase := Ap_Ready\<rparr>) else None
      | Create_Failed \<Rightarrow> if p = Ap_Trying then Some (s\<lparr>ap_phase := Ap_Waiting, ap_watch := False\<rparr>) else None
      | Retry \<Rightarrow> if p = Ap_Waiting then Some (s\<lparr>ap_phase := Ap_Trying\<rparr>) else None
      | Stop_Waiting \<Rightarrow> if p = Ap_Waiting \<and> ap_retry s then Some (s\<lparr>ap_phase := Ap_Ended\<rparr>) else None
      | Received c \<Rightarrow> if p = Ap_Ready then Some (receive c s) else None
      | Events_Closed \<Rightarrow> if p = Ap_Ready then Some (teardown s) else None
      | Stopped \<Rightarrow> if p = Ap_Ready \<and> ap_process s then Some (teardown s) else None
      | Joined \<Rightarrow>
          (case p of
             Ap_Joining config \<Rightarrow> if current_done s then Some (start_instance config s) else None
           | _ \<Rightarrow> None)
      | Sent \<Rightarrow> (case p of Ap_Sending c \<Rightarrow> deliver c s | _ \<Rightarrow> None)
      | Final_Joined \<Rightarrow>
          if p = Ap_Teardown \<and> current_done s then Some ((join_current s)\<lparr>ap_phase := Ap_Ended\<rparr>) else None
      | _ \<Rightarrow> map_option (\<lambda>i. s\<lparr>ap_current := Some i\<rparr>) (Option.bind (ap_current s) (instance_step starts e)))"

fun app_run :: "(config \<Rightarrow> bool) \<Rightarrow> app_event list \<Rightarrow> app \<Rightarrow> app option" where
  "app_run starts [] s = Some s"
| "app_run starts (e # es) s = Option.bind (app_step starts e s) (app_run starts es)"

inductive app_reach :: "(config \<Rightarrow> bool) \<Rightarrow> app \<Rightarrow> bool" for starts where
  start: "app_reach starts app_start"
| step: "app_reach starts s \<Longrightarrow> app_step starts e s = Some s' \<Longrightarrow> app_reach starts s'"


lemma app_run_reach: "app_run starts es s = Some s' \<Longrightarrow> app_reach starts s \<Longrightarrow> app_reach starts s'"
proof (induction es arbitrary: s)
  case (Cons e es)
  then obtain t where "app_step starts e s = Some t" "app_run starts es t = Some s'"
    by (auto simp: bind_eq_Some_conv)
  then show ?case using Cons.IH app_reach.step [OF Cons.prems(2)] by blast
qed simp

section \<open>One instance at a time\<close>

text \<open>
  The phases: before the main loop there is no instance, in it the last instance was not told to
  stop, and the loop waits only for an instance to which the signal was sent.
\<close>

definition early :: "app_phase \<Rightarrow> bool" where
  "early p \<longleftrightarrow> p \<in> {Ap_Spawned, Ap_Trying, Ap_Waiting}"

fun joining :: "app_phase \<Rightarrow> bool" where
  "joining (Ap_Joining c) = True"
| "joining Ap_Teardown = True"
| "joining _ = False"

fun serving :: "app_phase \<Rightarrow> bool" where
  "serving Ap_Ready = True"
| "serving (Ap_Sending e) = True"
| "serving _ = False"

definition told :: "instance_task \<Rightarrow> bool" where
  "told i \<longleftrightarrow> in_stop i \<or> in_missed i"

definition phase_inv :: "app \<Rightarrow> bool" where
  "phase_inv s \<longleftrightarrow>
     list_all in_done (ap_past s) \<and>
     (early (ap_phase s) \<or> ap_phase s = Ap_Ended \<longrightarrow> ap_current s = None) \<and>
     (serving (ap_phase s) \<longrightarrow> pred_option (\<lambda>i. \<not> told i) (ap_current s)) \<and>
     (joining (ap_phase s) \<longrightarrow> pred_option (\<lambda>i. told i \<or> in_done i) (ap_current s)) \<and>
     (\<forall>e. ap_phase s = Ap_Sending e \<longrightarrow> ap_current s \<noteq> None)"

lemma told_send: "told (send_shutdown i) \<or> in_done (send_shutdown i)"
  by (simp add: told_def send_shutdown_def)

lemma told_spawn [simp]: "\<not> told (spawn_instance c)" "\<not> in_done (spawn_instance c)"
  by (simp_all add: told_def spawn_instance_def)

lemma told_step: "instance_step starts e i = Some i' \<Longrightarrow> told i' = told i"
  by (auto simp: instance_step_def told_def split: if_splits app_event.splits list.splits)

lemma start_instance_simps [simp]:
  "ap_phase (start_instance c s) = Ap_Ready" "ap_current (start_instance c s) = Some (spawn_instance c)"
  "ap_past (start_instance c s) = ap_past s @ (case ap_current s of None \<Rightarrow> [] | Some i \<Rightarrow> [i])"
  "ap_seen (start_instance c s) = ap_seen s"
  by (simp_all add: start_instance_def join_current_def)

lemma phase_inv_start_instance:
  "list_all in_done (ap_past s) \<Longrightarrow> current_done s \<Longrightarrow> phase_inv (start_instance c s)"
  by (cases "ap_current s") (simp_all add: phase_inv_def early_def current_done_def)

lemma phase_inv_receive: "phase_inv s \<Longrightarrow> ap_phase s = Ap_Ready \<Longrightarrow> phase_inv (receive e s)"
  using told_send
  by (cases e; cases "ap_current s") (simp_all add: receive_def Let_def phase_inv_def early_def)

lemma phase_inv_deliver:
  assumes "deliver e s = Some s'" "phase_inv s" "ap_phase s = Ap_Sending e"
  shows "phase_inv s'"
  using assms by (auto simp: deliver_def phase_inv_def early_def told_def bind_eq_Some_conv split: if_splits)

lemma phase_inv_teardown: "phase_inv s \<Longrightarrow> phase_inv (teardown s)"
  using told_send by (cases "ap_current s") (simp_all add: teardown_def phase_inv_def early_def)

lemma phase_inv_ended: "phase_inv s \<Longrightarrow> current_done s \<Longrightarrow> phase_inv ((join_current s)\<lparr>ap_phase := Ap_Ended\<rparr>)"
  by (cases "ap_current s") (simp_all add: join_current_def current_done_def phase_inv_def)

lemma phase_inv_task:
  assumes "phase_inv s" "ap_current s = Some i" "instance_step starts e i = Some i'"
  shows "phase_inv (s\<lparr>ap_current := Some i'\<rparr>)"
proof -
  have "told i' = told i" by (rule told_step [OF assms(3)])
  moreover have "\<not> in_done i" using assms(3) by (auto simp: instance_step_def split: if_splits)
  ultimately show ?thesis using assms(1,2) by (auto simp: phase_inv_def)
qed

lemma app_step_cases:
  assumes "app_step starts e s = Some s'"
  obtains (flags) f r w p where "s' = s\<lparr>ap_forwarded := f, ap_retry := r, ap_watch := w, ap_process := p\<rparr>"
      "\<not> ap_forwarded s" "p \<Longrightarrow> \<not> early (ap_phase s)"
  | (before) p w where "early (ap_phase s)" "s' = s\<lparr>ap_phase := p, ap_watch := w\<rparr>" "early p \<or> p = Ap_Ready \<or> p = Ap_Ended"
      "w \<Longrightarrow> ap_watch s"
  | (received) c where "e = Received c" "ap_phase s = Ap_Ready" "s' = receive c s"
  | (leave) "ap_phase s = Ap_Ready" "s' = teardown s"
  | (joined) c where "ap_phase s = Ap_Joining c" "current_done s" "s' = start_instance c s"
  | (sent) c where "ap_phase s = Ap_Sending c" "deliver c s = Some s'"
  | (ended) "ap_phase s = Ap_Teardown" "current_done s" "s' = (join_current s)\<lparr>ap_phase := Ap_Ended\<rparr>"
  | (task) i i' where "ap_current s = Some i" "instance_step starts e i = Some i'" "s' = s\<lparr>ap_current := Some i'\<rparr>"
proof (cases e)
  case Forwarded
  then show thesis using assms
    by (intro flags [where f = "ap_forwarded s'" and r = "ap_retry s'" and w = "ap_watch s'" and p = "ap_process s'"])
      (auto simp: app_step_def early_def Let_def split: if_splits)
next
  case Subscribed
  then show thesis using assms
    by (intro before [where p = "ap_phase s'" and w = "ap_watch s'"]) (auto simp: app_step_def early_def split: if_splits)
next
  case Created
  then show thesis using assms
    by (intro before [where p = "ap_phase s'" and w = "ap_watch s'"]) (auto simp: app_step_def early_def split: if_splits)
next
  case Create_Failed
  then show thesis using assms
    by (intro before [where p = "ap_phase s'" and w = "ap_watch s'"]) (auto simp: app_step_def early_def split: if_splits)
next
  case Retry
  then show thesis using assms
    by (intro before [where p = "ap_phase s'" and w = "ap_watch s'"]) (auto simp: app_step_def early_def split: if_splits)
next
  case Stop_Waiting
  then show thesis using assms
    by (intro before [where p = "ap_phase s'" and w = "ap_watch s'"]) (auto simp: app_step_def early_def split: if_splits)
next
  case (Received c)
  then show thesis using assms by (intro received) (auto simp: app_step_def split: if_splits)
next
  case Events_Closed
  then show thesis using assms by (intro leave) (auto simp: app_step_def split: if_splits)
next
  case Stopped
  then show thesis using assms by (intro leave) (auto simp: app_step_def split: if_splits)
next
  case Joined
  then show thesis using assms joined by (auto simp: app_step_def split: if_splits app_phase.splits)
next
  case Sent
  then show thesis using assms sent by (auto simp: app_step_def split: app_phase.splits)
next
  case Final_Joined
  then show thesis using assms by (intro ended) (auto simp: app_step_def split: if_splits)
qed (use assms task in \<open>auto simp: app_step_def bind_eq_Some_conv\<close>)

lemma phase_inv_step:
  assumes "app_step starts e s = Some s'" "phase_inv s"
  shows "phase_inv s'"
  using assms(1)
proof (cases rule: app_step_cases)
  case (flags f r w p)
  then show ?thesis using assms(2) by (simp add: phase_inv_def)
next
  case (before p w)
  then show ?thesis using assms(2) by (auto simp: phase_inv_def early_def)
next
  case (joined c)
  have "list_all in_done (ap_past s)" using assms(2) by (simp add: phase_inv_def)
  then show ?thesis using joined by (simp add: phase_inv_start_instance)
qed (use assms(2) phase_inv_receive phase_inv_deliver phase_inv_teardown phase_inv_ended phase_inv_task in
    \<open>simp_all\<close>)

lemma phase_inv_reach: "app_reach starts s \<Longrightarrow> phase_inv s"
  by (induction rule: app_reach.induct)
    (simp_all add: phase_inv_step, simp add: phase_inv_def app_start_def early_def)


section \<open>The instance has every change\<close>

text \<open>
  What the last instance has been given, and the change that is on its way, are the changes
  received since its configuration.
\<close>

fun is_general :: "config_change \<Rightarrow> bool" where
  "is_general (General c) = True"
| "is_general _ = False"

definition on_the_way :: "app_phase \<Rightarrow> config_change list" where
  "on_the_way p = (case p of Ap_Sending e \<Rightarrow> [e] | _ \<Rightarrow> [])"

definition given :: "app_phase \<Rightarrow> instance_task \<Rightarrow> config_change list" where
  "given p i = in_taken i @ in_queue i @ on_the_way p"

definition seen_inv :: "app \<Rightarrow> bool" where
  "seen_inv s \<longleftrightarrow>
     (\<forall>i. ap_current s = Some i \<longrightarrow> serving (ap_phase s) \<longrightarrow> \<not> in_done i \<longrightarrow>
        (\<exists>pre. ap_seen s = pre @ General (in_config i) # given (ap_phase s) i) \<and>
        list_all (\<lambda>e. \<not> is_general e) (given (ap_phase s) i)) \<and>
     (\<forall>c. ap_phase s = Ap_Joining c \<longrightarrow> (\<exists>pre. ap_seen s = pre @ [General c])) \<and>
     (\<forall>e. ap_phase s = Ap_Sending e \<longrightarrow> \<not> is_general e)"

lemma given_step:
  assumes "instance_step starts e i = Some i'"
  shows "given p i' = given p i" "in_config i' = in_config i" "\<not> in_done i"
  using assms by (auto simp: instance_step_def given_def split: if_splits app_event.splits list.splits)

lemma seen_inv_step:
  assumes "app_step starts e s = Some s'" "seen_inv s" "phase_inv s"
  shows "seen_inv s'"
  using assms(1)
proof (cases rule: app_step_cases)
  case (flags f r w p)
  then show ?thesis using assms(2) by (simp add: seen_inv_def)
next
  case (before p w)
  then have "ap_current s = None" using assms(3) by (simp add: phase_inv_def)
  then show ?thesis using before by (auto simp: seen_inv_def early_def)
next
  case (received c)
  then show ?thesis using assms(2)
    by (cases c; cases "ap_current s")
      (auto simp: receive_def Let_def seen_inv_def given_def on_the_way_def spawn_instance_def)
next
  case leave
  then show ?thesis by (simp add: seen_inv_def teardown_def)
next
  case (joined c)
  then show ?thesis using assms(2)
    by (auto simp: seen_inv_def given_def on_the_way_def spawn_instance_def)
next
  case (sent c)
  then show ?thesis using assms(2)
    by (auto simp: deliver_def seen_inv_def given_def on_the_way_def bind_eq_Some_conv split: if_splits)
next
  case ended
  then show ?thesis by (simp add: seen_inv_def)
next
  case (task i i')
  note g = given_step [OF task(2)]
  from task(1,3) g assms(2) show ?thesis by (auto simp: seen_inv_def)
qed

lemma seen_inv_reach: "app_reach starts s \<Longrightarrow> seen_inv s"
proof (induction rule: app_reach.induct)
  case start
  show ?case by (simp add: seen_inv_def app_start_def)
next
  case (step s e s')
  then show ?case using seen_inv_step phase_inv_reach by blast
qed


section \<open>The instance and the file\<close>

text \<open>What loading a configuration establishes.\<close>

definition loaded :: "config \<Rightarrow> bool" where
  "loaded c \<longleftrightarrow> wf_config c \<and> pred_option retry_ready (cfg_client c)"

definition change_ok :: "config_change \<Rightarrow> bool" where
  "change_ok e \<longleftrightarrow> change_ready e \<and> (\<forall>c. e = General c \<longrightarrow> loaded c)"

lemma events_ok:
  assumes "loaded old" "loaded new"
  shows "list_all change_ok (events_of old new)"
  unfolding list_all_iff
proof
  fix e
  assume e: "e \<in> set (events_of old new)"
  have wf: "wf_config old" "wf_config new" using assms by (simp_all add: loaded_def)
  have g: "loaded c" if "e = General c" for c
    using e assms(2) unfolding that restart_exactly_when_rest_changed by simp
  have "change_ready e"
  proof (cases "\<exists>cfg. e = ClientChange (Client_Add cfg)")
    case True
    then obtain cfg where cfg: "e = ClientChange (Client_Add cfg)" by blast
    have same: "same_but_services old new"
    proof (rule ccontr)
      assume n: "\<not> same_but_services old new"
      from e [unfolded general_event [OF n] cfg] show False by simp
    qed
    have "client_services new (csc_name cfg) = Some cfg"
      using e events_of_exact [OF wf same] by (auto simp: cfg)
    then obtain cn where "cfg_client new = Some cn" "(csc_name cfg, cfg) \<in> set (cc_services cn)"
      by (auto simp: client_services_def dest: map_of_SomeD split: option.splits)
    then show ?thesis using assms(2) by (auto simp: loaded_def change_ready_def cfg retry_ready_def list_all_iff)
  next
    case False
    then show ?thesis by (auto simp: change_ready_def split: config_change.split client_service_change.split)
  qed
  then show "change_ok e" using g by (simp add: change_ok_def)
qed

lemma watch_run_ok:
  assumes "w_status s = Watching" "loaded (w_old s)" "\<forall>n. Rescan (Inr n) \<in> set is \<longrightarrow> loaded n"
    and "list_all change_ok (w_sent s)"
  shows "list_all change_ok (w_sent (watch_run is s))"
  using assms
proof (induction "is" arbitrary: s)
  case Nil
  then show ?case by (simp add: watch_run_def)
next
  case (Cons i "is")
  show ?case
  proof (cases i)
    case (Rescan r)
    show ?thesis
    proof (cases r)
      case (Inr n)
      let ?s = "s\<lparr>w_old := n, w_sent := w_sent s @ events_of (w_old s) n\<rparr>"
      have "loaded n" using Cons.prems(3) Rescan Inr by simp
      then have "list_all change_ok (w_sent (watch_run is ?s))"
        using Cons.IH [of ?s] Cons.prems events_ok [OF Cons.prems(2)] by simp
      then show ?thesis using Cons.prems(1) by (simp add: Rescan Inr watch_run_Cons watch_step_rescan)
    qed (use Cons in \<open>simp add: Rescan watch_run_Cons watch_step_other\<close>)
  qed (use Cons.prems in \<open>simp_all add: watch_run_Cons watch_step_other watch_run_exited\<close>)
qed

lemma v_client_changes:
  "list_all (\<lambda>e. \<not> is_general e) es \<Longrightarrow>
   v_client (fold apply_change es v) = map_option (apsnd (fold apply_client_change es)) (v_client v)"
proof (induction es arbitrary: v)
  case (Cons e es)
  then show ?case
    by (cases e; cases "v_client v") (auto simp: apsnd_def map_prod_def split: prod.splits)
next
  case Nil
  then show ?case by (cases "v_client v") auto
qed

lemma run_client_ok:
  assumes "run_client TL NL E c rt = Some (Inr (t, cl))" "cfg_client c = Some cc"
    and "wf_client_services cc" "retry_ready cc"
  shows "client_inv E cl" "\<not> cl_stopped cl" "served cl = map_of (cc_services cc)"
proof -
  have "\<forall>(n, s) \<in> set (cc_services cc). csc_retry_interval s \<noteq> None"
    using assms(4) by (simp add: retry_ready_def list_all_iff)
  from start_services_ok [OF client_from_inv this] obtain x where
    x: "start_services E (cc_services cc) (client_from cc rt) = Some x" "client_inv E x"
    "served x = fold (\<lambda>(n, s) m. m(n \<mapsto> s)) (cc_services cc) (served (client_from cc rt))"
    "cl_stopped x = cl_stopped (client_from cc rt)" by blast
  have "x = cl" using assms(1,2) x(1) by (auto simp: run_client_def split: sum.splits)
  moreover have "served (client_from cc rt) = Map.empty" by (simp add: served_def client_from_def fun_eq_iff)
  ultimately show "client_inv E cl" "\<not> cl_stopped cl" "served cl = map_of (cc_services cc)"
    using x(2-4) assms(3) fold_upd_services [of "cc_services cc"]
    by (simp_all add: wf_client_services_def client_from_def)
qed

section \<open>The shutdown\<close>

text \<open>
  A signal the main loop holds was forwarded after it subscribed; the queue is bounded.
\<close>

definition stop_inv :: "app \<Rightarrow> bool" where
  "stop_inv s \<longleftrightarrow>
     (ap_process s \<longrightarrow> \<not> early (ap_phase s)) \<and>
     pred_option (\<lambda>i. length (in_queue i) \<le> UPDATE_CAPACITY) (ap_current s)"

lemma queue_step:
  "instance_step starts e i = Some i' \<Longrightarrow> length (in_queue i') \<le> length (in_queue i)"
  by (auto simp: instance_step_def split: if_splits app_event.splits list.splits)

lemma send_shutdown_queue [simp]: "in_queue (send_shutdown i) = in_queue i"
  by (simp add: send_shutdown_def)

lemma stop_inv_step:
  assumes "app_step starts e s = Some s'" "stop_inv s"
  shows "stop_inv s'"
  using assms(1)
proof (cases rule: app_step_cases)
  case (flags f r w p)
  then show ?thesis using assms(2) by (auto simp: stop_inv_def)
next
  case (before p w)
  then show ?thesis using assms(2) by (auto simp: stop_inv_def)
next
  case (received c)
  then show ?thesis using assms(2)
    by (cases c; cases "ap_current s")
      (auto simp: receive_def Let_def stop_inv_def early_def start_instance_def join_current_def spawn_instance_def)
next
  case leave
  then show ?thesis using assms(2) by (cases "ap_current s") (auto simp: stop_inv_def teardown_def early_def)
next
  case (joined c)
  then show ?thesis by (simp add: stop_inv_def early_def spawn_instance_def)
next
  case (sent c)
  then show ?thesis using assms(2)
    by (auto simp: deliver_def stop_inv_def early_def bind_eq_Some_conv split: if_splits)
next
  case ended
  then show ?thesis by (simp add: stop_inv_def early_def join_current_def)
next
  case (task i i')
  then show ?thesis using assms(2) queue_step [OF task(2)] by (simp add: stop_inv_def)
qed

lemma stop_inv_reach: "app_reach starts s \<Longrightarrow> stop_inv s"
  by (induction rule: app_reach.induct) (simp_all add: stop_inv_step, simp add: stop_inv_def app_start_def)

text \<open>The instances that have not ended.\<close>

definition running :: "app \<Rightarrow> instance_task list" where
  "running s = filter (\<lambda>i. \<not> in_done i) (ap_past s @ (case ap_current s of None \<Rightarrow> [] | Some i \<Rightarrow> [i]))"

text \<open>What the main loop does on its own.\<close>

definition main_events :: "app_event list" where
  "main_events = [Stopped, Joined, Sent, Final_Joined]"

text \<open>
  The signal is lost on an instance that was spawned and not yet polled: \<open>itx.subscribe()\<close> is
  called inside its task. The loop then waits for an instance that was never told to stop.
\<close>

lemma app_hangs:
  "\<exists>s i. app_run (\<lambda>_. True) [Subscribed, Created, Received (General c), Forwarded, Stopped, Polled] app_start = Some s \<and>
     ap_phase s = Ap_Teardown \<and> ap_current s = Some i \<and> in_polled i \<and> \<not> in_stop i \<and> \<not> in_done i"
  by (simp add: app_step_def app_start_def receive_def teardown_def start_instance_def join_current_def
      spawn_instance_def send_shutdown_def instance_step_def)

text \<open>
  A signal that arrives before the retry loop has subscribed is lost: the process waits for a
  configuration that does not come, and no later event stops it, since the signal is forwarded once.
\<close>

definition deaf :: "app \<Rightarrow> bool" where
  "deaf s \<longleftrightarrow> ap_forwarded s \<and> \<not> ap_retry s \<and> \<not> ap_watch s \<and> \<not> ap_process s"

lemma deaf_step:
  assumes "app_step starts e s = Some s'" "deaf s"
  shows "deaf s'" "e \<noteq> Forwarded" "e \<noteq> Stop_Waiting" "e \<noteq> Stopped"
proof -
  show "e \<noteq> Forwarded" "e \<noteq> Stop_Waiting" "e \<noteq> Stopped"
    using assms by (auto simp: app_step_def deaf_def split: if_splits)
  from assms(1) show "deaf s'"
  proof (cases rule: app_step_cases)
    case (flags f r w p)
    then show ?thesis using assms(2) by (simp add: deaf_def)
  next
    case (received c)
    then show ?thesis using assms(2)
      by (cases c; cases "ap_current s") (auto simp: receive_def Let_def deaf_def start_instance_def join_current_def)
  qed (use assms(2) in \<open>auto simp: deaf_def teardown_def start_instance_def join_current_def deliver_def
      bind_eq_Some_conv split: if_splits\<close>)
qed

lemma early_signal_lost:
  "app_run starts (Forwarded # es) app_start = Some s \<Longrightarrow> deaf s"
proof -
  assume r: "app_run starts (Forwarded # es) app_start = Some s"
  have d: "deaf (app_start\<lparr>ap_forwarded := True\<rparr>)" by (simp add: deaf_def app_start_def)
  have "deaf s'" if "app_run starts es t = Some s'" "deaf t" for es t s'
    using that
  proof (induction es arbitrary: t)
    case (Cons e es)
    then show ?case using deaf_step(1) by (auto simp: bind_eq_Some_conv)
  qed simp
  with d r show "deaf s" by (simp add: app_step_def) (simp add: app_start_def)
qed

section \<open>Properties\<close>

text \<open>
  C9. The process follows its file. In any state of the main loop that the process can reach, after
  any history of the file (in which the configurations that load are those a loaded configuration
  can be), a running client instance whose channel is empty serves exactly the services of the
  last valid content of the file: its configuration and the changes it received give that client.
\<close>
theorem app_serves_file:
  assumes "app_reach starts s" "ap_phase s = Ap_Ready" "ap_current s = Some i" "\<not> in_done i" "in_queue i = []"
    and "ap_seen s = w_sent (watch_run is (watch_start origin))"
    and "loaded origin" "\<forall>n. Rescan (Inr n) \<in> set is \<longrightarrow> loaded n"
    and "run_client TL NL E (in_config i) rt = Some (Inr (t, cl))"
  shows "\<exists>cl' cc. client_run E (map (\<lambda>e. Cl_Update (Some e)) (in_taken i)) cl = Some cl' \<and> client_inv E cl' \<and>
    cfg_client (last_valid origin is) = Some cc \<and> served cl' = map_of (cc_services cc) \<and>
    cc\<lparr>cc_services := []\<rparr> = (the (cfg_client (in_config i)))\<lparr>cc_services := []\<rparr>"
proof -
  obtain pre where pre: "ap_seen s = pre @ General (in_config i) # in_taken i"
    and es: "list_all (\<lambda>e. \<not> is_general e) (in_taken i)"
    using seen_inv_reach [OF assms(1)] assms(2-5) by (auto simp: seen_inv_def given_def on_the_way_def)
  have ok: "list_all change_ok (ap_seen s)"
    unfolding assms(6) using assms(7,8)
    by (intro watch_run_ok) (simp_all add: watch_start_def change_ok_def change_ready_def)
  have l: "loaded (in_config i)" and ready: "list_all change_ready (in_taken i)"
    using ok by (simp_all add: pre change_ok_def list_all_iff)
  obtain co where co: "cfg_client (in_config i) = Some co"
    using assms(9) by (auto simp: run_client_def split: option.splits)
  note c = run_client_ok [OF assms(9) co]
  have "view (last_valid origin is) = fold apply_change (ap_seen s) v" for v
    using watch_run_tracks [of "watch_start origin" "is" v] assms(6-8) by (simp add: watch_start_def loaded_def)
  then have "v_client (view (last_valid origin is)) =
      v_client (fold apply_change (in_taken i) (view (in_config i)))" by (simp add: pre)
  then have v: "v_client (view (last_valid origin is)) =
      Some (co\<lparr>cc_services := []\<rparr>, fold apply_client_change (in_taken i) (map_of (cc_services co)))"
    by (simp add: v_client_changes [OF es]) (simp add: view_def co)
  then obtain cc where cc: "cfg_client (last_valid origin is) = Some cc"
    "cc\<lparr>cc_services := []\<rparr> = co\<lparr>cc_services := []\<rparr>"
    "map_of (cc_services cc) = fold apply_client_change (in_taken i) (map_of (cc_services co))"
    by (auto simp: view_def)
  have w: "wf_client_services co" "retry_ready co" using l by (simp_all add: loaded_def wf_config_def co)
  show ?thesis
    using client_reload_run [OF c(1,2) [OF w] ready] cc c(3) [OF w] by (auto simp: co)
qed

definition sample_app :: app where
  "sample_app = the (app_run (\<lambda>_. True) [Subscribed, Created, Received (General sample_config), Polled] app_start)"

lemmas app_run_simps = app_step_def app_start_def receive_def start_instance_def join_current_def
  spawn_instance_def instance_step_def Let_def

lemma sample_app_run:
  "app_run (\<lambda>_. True) [Subscribed, Created, Received (General sample_config), Polled] app_start = Some sample_app"
  by (simp add: sample_app_def app_run_simps)

lemma sample_app_reach: "app_reach (\<lambda>_. True) sample_app"
  by (rule app_run_reach [OF sample_app_run app_reach.start])

lemma sample_app_simps [simp]:
  "ap_phase sample_app = Ap_Ready" "ap_seen sample_app = [General sample_config]" "ap_past sample_app = []"
  "ap_current sample_app = Some ((spawn_instance sample_config)\<lparr>in_polled := True\<rparr>)"
  by (simp_all add: sample_app_def app_run_simps)

lemma sample_loaded: "loaded sample_config"
  using sample_client_wf sample_retry_ready
  by (simp add: loaded_def wf_config_def sample_config_def normal_server_wf sample_server_def)

theorem app_serves_file_witness:
  "\<forall>(TL :: (unit, unit, unit, unit) tls_lib) (NL :: unit noise_lib) rt. \<exists>t cl. run_client TL NL sample_env sample_config rt = Some (Inr (t, cl)) \<and>
    served cl = map_of (cc_services (normal_client sample_client))"
proof (intro allI)
  fix TL :: "(unit, unit, unit, unit) tls_lib" and NL :: "unit noise_lib" and rt
  have "new_transport TL NL (cc_transport (normal_client sample_client)) = Inr (Tcp_Transport sample_tcp)"
    by (simp add: new_transport_def normal_client_def sample_client_def default_transport_config_def
        default_transport_type_def tcp_new_def sample_tcp_def)
  moreover have c: "cfg_client sample_config = Some (normal_client sample_client)" by (simp add: sample_config_def)
  moreover have "\<exists>cl. start_services sample_env (cc_services (normal_client sample_client))
      (client_from (normal_client sample_client) rt) = Some cl"
    using start_services_ok [OF client_from_inv] sample_retry_ready by (fastforce simp: retry_ready_def list_all_iff)
  ultimately obtain cl where r: "run_client TL NL sample_env sample_config rt = Some (Inr (Tcp_Transport sample_tcp, cl))"
    by (auto simp: run_client_def)
  have "\<exists>cl' cc. client_run sample_env (map (\<lambda>e. Cl_Update (Some e)) []) cl = Some cl' \<and> client_inv sample_env cl' \<and>
    cfg_client (last_valid sample_config []) = Some cc \<and> served cl' = map_of (cc_services cc) \<and>
    cc\<lparr>cc_services := []\<rparr> = (the (cfg_client sample_config))\<lparr>cc_services := []\<rparr>"
    using app_serves_file [OF sample_app_reach, of "(spawn_instance sample_config)\<lparr>in_polled := True\<rparr>" "[]" sample_config
        TL NL sample_env rt "Tcp_Transport sample_tcp" cl] sample_loaded r
    by (simp add: spawn_instance_def watch_run_def watch_start_def)
  then show "\<exists>t cl. run_client TL NL sample_env sample_config rt = Some (Inr (t, cl)) \<and>
    served cl = map_of (cc_services (normal_client sample_client))" using r by (auto simp: c)
qed

text \<open>
  C10. One instance at a time: in every reachable state at most one instance has not ended, and in
  the main loop that one has not been told to stop. When the process returns, all of its instances
  have ended, so that none outlives it.
\<close>
theorem app_one_instance:
  assumes "app_reach starts s"
  shows "length (running s) \<le> 1 \<and>
    (serving (ap_phase s) \<longrightarrow> (\<forall>i \<in> set (running s). ap_current s = Some i \<and> \<not> told i)) \<and>
    (ap_phase s = Ap_Ended \<longrightarrow> running s = [])"
proof -
  have inv: "phase_inv s" by (rule phase_inv_reach [OF assms])
  have r: "running s = (case ap_current s of None \<Rightarrow> [] | Some i \<Rightarrow> if in_done i then [] else [i])"
    using inv by (cases "ap_current s") (auto simp: running_def phase_inv_def list_all_iff filter_empty_conv)
  show ?thesis using inv by (cases "ap_current s") (auto simp: r phase_inv_def)
qed

theorem app_one_instance_witness:
  "running sample_app = [(spawn_instance sample_config)\<lparr>in_polled := True\<rparr>] \<and> length (running sample_app) \<le> 1"
  using app_one_instance [OF sample_app_reach] by (simp add: running_def spawn_instance_def)

text \<open>
  C11. Shutdown: once the main loop holds the signal, the process has ended, or can take a step of
  its own towards the end, or waits for its instance: one that holds the signal and is ending, one
  that missed it because it had not been polled, or one whose channel of updates is full.
\<close>
theorem app_never_stuck:
  assumes "app_reach starts s" "ap_process s"
  shows "ap_phase s = Ap_Ended \<or> (\<exists>e \<in> set main_events. app_step starts e s \<noteq> None) \<or>
    (\<exists>i. ap_current s = Some i \<and> \<not> in_done i \<and>
       (joining (ap_phase s) \<and> (in_stop i \<or> in_missed i) \<or>
        (\<exists>e. ap_phase s = Ap_Sending e) \<and> length (in_queue i) = UPDATE_CAPACITY))"
proof -
  have p: "phase_inv s" and st: "stop_inv s"
    using phase_inv_reach [OF assms(1)] stop_inv_reach [OF assms(1)] by simp_all
  have ne: "\<not> early (ap_phase s)" using st assms(2) by (simp add: stop_inv_def)
  have wait: "\<exists>i. ap_current s = Some i \<and> \<not> in_done i \<and> (in_stop i \<or> in_missed i)"
    if "joining (ap_phase s)" "\<not> current_done s"
    using that p by (cases "ap_current s") (auto simp: phase_inv_def current_done_def told_def)
  show ?thesis
  proof (cases "ap_phase s")
    case Ap_Ready
    then have "app_step starts Stopped s \<noteq> None" using assms(2) by (simp add: app_step_def)
    then show ?thesis by (auto simp: main_events_def)
  next
    case (Ap_Joining c)
    have "app_step starts Joined s \<noteq> None" if "current_done s" using that Ap_Joining by (simp add: app_step_def)
    then show ?thesis using wait Ap_Joining by (auto simp: main_events_def)
  next
    case (Ap_Sending e)
    then obtain i where i: "ap_current s = Some i" "length (in_queue i) \<le> UPDATE_CAPACITY"
      using p st by (auto simp: phase_inv_def stop_inv_def)
    then have "app_step starts Sent s \<noteq> None \<or> \<not> in_done i \<and> length (in_queue i) = UPDATE_CAPACITY"
      using Ap_Sending by (auto simp: app_step_def deliver_def)
    then show ?thesis using i(1) Ap_Sending by (auto simp: main_events_def)
  next
    case Ap_Teardown
    have "app_step starts Final_Joined s \<noteq> None" if "current_done s" using that Ap_Teardown by (simp add: app_step_def)
    then show ?thesis using wait Ap_Teardown by (auto simp: main_events_def)
  qed (use ne in \<open>simp_all add: early_def\<close>)
qed

theorem app_never_stuck_witness:
  "app_reach (\<lambda>_. True) (sample_app\<lparr>ap_forwarded := True, ap_retry := True, ap_watch := True, ap_process := True\<rparr>) \<and>
   (\<exists>e \<in> set main_events. app_step (\<lambda>_. True) e
      (sample_app\<lparr>ap_forwarded := True, ap_retry := True, ap_watch := True, ap_process := True\<rparr>) \<noteq> None)"
proof -
  let ?s = "sample_app\<lparr>ap_forwarded := True, ap_retry := True, ap_watch := True, ap_process := True\<rparr>"
  have "\<not> ap_forwarded sample_app" by (simp add: sample_app_def app_run_simps)
  then have "app_step (\<lambda>_. True) Forwarded sample_app = Some ?s" by (simp add: app_step_def)
  then have r: "app_reach (\<lambda>_. True) ?s" by (rule app_reach.step [OF sample_app_reach])
  show ?thesis using app_never_stuck [OF r] r by simp
qed

text \<open>
  For a configuration as loading leaves it, starting an instance panics in exactly one case:
  exactly one role is forced on the command line and the file has no section for it. Every other
  start returns: the running role, or the error that is logged.
\<close>
theorem run_instance_panics_exactly:
  assumes "loaded c"
  shows "run_instance TL NL E pid now c client server = None \<longleftrightarrow>
    client \<and> \<not> server \<and> cfg_client c = None \<or> server \<and> \<not> client \<and> cfg_server c = None"
proof -
  have rc: "run_client TL NL E c rt \<noteq> None" if "cfg_client c = Some cc" for cc rt
  proof -
    have "\<forall>(n, s) \<in> set (cc_services cc). csc_retry_interval s \<noteq> None"
      using assms that by (simp add: loaded_def retry_ready_def list_all_iff)
    from start_services_ok [OF client_from_inv this] show ?thesis
      by (force simp: run_client_def that split: sum.splits)
  qed
  show ?thesis using rc
    by (cases "cfg_client c"; cases "cfg_server c"; cases client; cases server)
      (simp_all add: run_instance_def determine_run_mode_def)
qed

theorem run_instance_panics_exactly_witness:
  "\<forall>(TL :: (unit, unit, unit, unit) tls_lib) (NL :: unit noise_lib).
    run_instance TL NL sample_env 1 0 (sample_config\<lparr>cfg_client := None\<rparr>) True False = None \<and>
    run_instance TL NL sample_env 1 0 (sample_config\<lparr>cfg_client := None\<rparr>) False False \<noteq> None"
proof -
  have l: "loaded (sample_config\<lparr>cfg_client := None\<rparr>)"
    using sample_loaded by (simp add: loaded_def wf_config_def)
  show ?thesis by (simp add: run_instance_panics_exactly [OF l])
qed

end
