(* ===== verification/Toml_Doc.thy ===== *)
theory Toml_Doc
  imports Rust_Std
begin

text \<open>
  The documents that \<open>src/config_edit.rs\<close> edits: the public enumerations of the crate
  \<open>toml_edit\<close> as the program matches on them, and the JSON it reports. The list of a table is
  what its \<open>iter()\<close> yields. Parsing and printing a document, and \<open>TableLike::insert\<close> and
  \<open>TableLike::remove\<close>, are the crate's code: they are the fields of the record \<open>toml_edit\<close>,
  and the locale \<open>toml_edit_laws\<close> states what the program relies on.
\<close>

section \<open>Documents\<close>

text \<open>A float is its 64 bits; a date is its text.\<close>

datatype toml_value =
    V_String string
  | V_Integer int
  | V_Float u64
  | V_Boolean bool
  | V_Datetime string
  | V_Array "toml_value list"
  | V_InlineTable "(string \<times> toml_value) list"

datatype item =
    Item_None
  | Item_Value toml_value
  | Item_Table "(string \<times> item) list"
  | Item_ArrayOfTables "(string \<times> item) list list"

datatype json =
    J_Null
  | J_Bool bool
  | J_Int int
  | J_Float u64
  | J_String string
  | J_Array "json list"
  | J_Object "(string \<times> json) list"

text \<open>\<open>as_table_like\<close> with what its \<open>iter\<close> yields, and \<open>Item::get\<close>.\<close>

fun entries :: "item \<Rightarrow> (string \<times> item) list option" where
  "entries (Item_Table es) = Some es"
| "entries (Item_Value (V_InlineTable vs)) = Some (map (\<lambda>(k, v). (k, Item_Value v)) vs)"
| "entries _ = None"

abbreviation table_like :: "item \<Rightarrow> bool" where
  "table_like t \<equiv> entries t \<noteq> None"

fun is_table :: "item \<Rightarrow> bool" where
  "is_table (Item_Table es) = True"
| "is_table _ = False"

definition item_get :: "item \<Rightarrow> string \<Rightarrow> item option" where
  "item_get t k = Option.bind (entries t) (\<lambda>es. map_of es k)"

definition item_keys :: "item \<Rightarrow> string list" where
  "item_keys t = (case entries t of None \<Rightarrow> [] | Some es \<Rightarrow> map fst es)"

fun as_str :: "item \<Rightarrow> string option" where
  "as_str (Item_Value (V_String s)) = Some s"
| "as_str _ = None"

fun as_integer :: "item \<Rightarrow> int option" where
  "as_integer (Item_Value (V_Integer i)) = Some i"
| "as_integer _ = None"

definition str_item :: "string \<Rightarrow> item" where
  "str_item s = Item_Value (V_String s)"

definition int_item :: "int \<Rightarrow> item" where
  "int_item i = Item_Value (V_Integer i)"

definition bool_item :: "bool \<Rightarrow> item" where
  "bool_item b = Item_Value (V_Boolean b)"

text \<open>
  Writing through \<open>get_mut\<close>: the entry at \<open>k\<close>, which is there, is changed in place. The entries
  of an inline table are values.
\<close>

fun put_item :: "string \<Rightarrow> item \<Rightarrow> item \<Rightarrow> item" where
  "put_item k x (Item_Table es) = Item_Table (map (\<lambda>(k', y). if k' = k then (k', x) else (k', y)) es)"
| "put_item k (Item_Value x) (Item_Value (V_InlineTable vs)) =
     Item_Value (V_InlineTable (map (\<lambda>(k', y). if k' = k then (k', x) else (k', y)) vs))"
| "put_item k x t = t"

section \<open>JSON\<close>

text \<open>\<open>Number::from_f64\<close> refuses infinities and NaN: the exponent of eleven ones.\<close>

definition float_to_json :: "u64 \<Rightarrow> json" where
  "float_to_json f = (if take_bit 11 (drop_bit 52 f) = mask 11 then J_Null else J_Float f)"

fun value_to_json :: "toml_value \<Rightarrow> json" where
  "value_to_json (V_String s) = J_String s"
| "value_to_json (V_Integer i) = J_Int i"
| "value_to_json (V_Float f) = float_to_json f"
| "value_to_json (V_Boolean b) = J_Bool b"
| "value_to_json (V_Datetime d) = J_String d"
| "value_to_json (V_Array vs) = J_Array (map value_to_json vs)"
| "value_to_json (V_InlineTable es) = J_Object (map (\<lambda>(k, v). (k, value_to_json v)) es)"

fun item_to_json :: "item \<Rightarrow> json" where
  "item_to_json Item_None = J_Null"
| "item_to_json (Item_Value v) = value_to_json v"
| "item_to_json (Item_Table es) = J_Object (map (\<lambda>(k, i). (k, item_to_json i)) es)"
| "item_to_json (Item_ArrayOfTables ts) =
     J_Array (map (\<lambda>es. J_Object (map (\<lambda>(k, i). (k, item_to_json i)) es)) ts)"

section \<open>The crate\<close>

record toml_edit =
  te_parse :: "string \<Rightarrow> anyhow + item"
  te_to_string :: "item \<Rightarrow> string"
  te_insert :: "item \<Rightarrow> string \<Rightarrow> item \<Rightarrow> item"
  te_remove :: "item \<Rightarrow> string \<Rightarrow> item"

text \<open>
  The values of a document by path: what a reader of the file sees. Printing and parsing may
  reorder entries and drop tables without a value, but keep these.
\<close>

fun atom :: "item \<Rightarrow> toml_value option" where
  "atom (Item_Value v) = (case v of V_InlineTable _ \<Rightarrow> None | _ \<Rightarrow> Some v)"
| "atom _ = None"

fun leaf :: "item \<Rightarrow> string list \<Rightarrow> toml_value option" where
  "leaf t [] = atom t"
| "leaf t (k # ks) = Option.bind (item_get t k) (\<lambda>x. leaf x ks)"

text \<open>Keys are unique, integers have 64 bits, an array of tables has an element.\<close>

fun wf_value :: "toml_value \<Rightarrow> bool" where
  "wf_value (V_Integer i) = (- (2 ^ 63) \<le> i \<and> i < 2 ^ 63)"
| "wf_value (V_Array vs) = list_all wf_value vs"
| "wf_value (V_InlineTable es) = (distinct_keys es \<and> list_all (\<lambda>(k, v). wf_value v) es)"
| "wf_value _ = True"

fun wf_item :: "item \<Rightarrow> bool" where
  "wf_item Item_None = False"
| "wf_item (Item_Value v) = wf_value v"
| "wf_item (Item_Table es) = (distinct_keys es \<and> list_all (\<lambda>(k, i). wf_item i) es)"
| "wf_item (Item_ArrayOfTables ts) =
     (ts \<noteq> [] \<and> list_all (\<lambda>es. distinct_keys es \<and> list_all (\<lambda>(k, i). wf_item i) es) ts)"

text \<open>
  What is stored when \<open>v\<close> is inserted into \<open>t\<close>: \<open>v\<close> itself, or its form as a value if \<open>t\<close> is an
  inline table, which keeps the entries of a table of values.
\<close>

definition storable :: "item \<Rightarrow> item \<Rightarrow> bool" where
  "storable t v \<longleftrightarrow> is_table t \<or> (\<exists>x. v = Item_Value x)"

fun flat :: "item \<Rightarrow> bool" where
  "flat (Item_Table es) = list_all (\<lambda>(k, i). \<exists>x. i = Item_Value x) es"
| "flat _ = False"

definition stored :: "item \<Rightarrow> item \<Rightarrow> item \<Rightarrow> bool" where
  "stored t v v' \<longleftrightarrow>
     (if storable t v then v' = v
      else (\<exists>x. v' = Item_Value x) \<and> (wf_item v \<longrightarrow> wf_item v') \<and> (flat v \<longrightarrow> entries v' = entries v))"

definition comment_lines :: "string \<Rightarrow> bool" where
  "comment_lines s = list_all (\<lambda>l. l = [] \<or> hd l = CHR ''#'') (split_on (CHR 10) s)"

locale toml_edit_laws =
  fixes TE :: toml_edit
  assumes insert_law: "entries t = Some es \<Longrightarrow> \<exists>es' v'. entries (te_insert TE t k v) = Some es' \<and>
      map_of es' = (map_of es)(k \<mapsto> v') \<and> stored t v v' \<and> is_table (te_insert TE t k v) = is_table t \<and>
      (wf_item t \<and> wf_item v \<longrightarrow> wf_item (te_insert TE t k v))"
    and remove_law: "entries t = Some es \<Longrightarrow> \<exists>es'. entries (te_remove TE t k) = Some es' \<and>
      map_of es' = (map_of es)(k := None) \<and> is_table (te_remove TE t k) = is_table t \<and>
      (wf_item t \<longrightarrow> wf_item (te_remove TE t k))"
    and parse_law: "te_parse TE s = Inr d \<Longrightarrow> is_table d \<and> wf_item d"
    and print_law: "is_table d \<Longrightarrow> wf_item d \<Longrightarrow>
      \<exists>d'. te_parse TE (te_to_string TE d) = Inr d' \<and> leaf d' = leaf d"
    and comment_law: "comment_lines c \<Longrightarrow> is_table d \<Longrightarrow> wf_item d \<Longrightarrow>
      te_parse TE (c @ CHR 10 # te_to_string TE d) = te_parse TE (te_to_string TE d)"


section \<open>Reading what was written\<close>

lemma item_get_table_like: "item_get t k = Some x \<Longrightarrow> table_like t"
  by (cases "entries t") (simp_all add: item_get_def)

lemma item_get_None [simp]: "entries t = None \<Longrightarrow> item_get t k = None"
  by (simp add: item_get_def)

lemma item_keys_iff: "k \<in> set (item_keys t) \<longleftrightarrow> item_get t k \<noteq> None"
  by (cases "entries t") (simp_all add: item_keys_def item_get_def map_of_eq_None_iff)

lemma map_of_put: "map_of (map (\<lambda>(k', y). if k' = k then (k', x) else (k', y)) es) k' =
    (if k' = k then map_option (\<lambda>_. x) (map_of es k) else map_of es k')"
  by (induction es) auto

lemma map_fst_put: "map fst (map (\<lambda>(k', y). if k' = k then (k', x) else (k', y)) es) = map fst es"
  by (induction es) auto

lemma put_inline_values:
  "map (\<lambda>(k, v). (k, Item_Value v)) (map (\<lambda>(k', y). if k' = k then (k', x) else (k', y)) vs) =
   map (\<lambda>(k', y). if k' = k then (k', Item_Value x) else (k', y)) (map (\<lambda>(k, v). (k, Item_Value v)) vs)"
  by (induction vs) auto

lemma entries_put:
  assumes "entries t = Some es" "storable t x"
  shows "entries (put_item k x t) = Some (map (\<lambda>(k', y). if k' = k then (k', x) else (k', y)) es)"
  using assms put_inline_values
  by (cases t rule: entries.cases) (auto simp: storable_def simp del: map_map)

lemma get_put:
  assumes "item_get t k \<noteq> None" "storable t x"
  shows "item_get (put_item k x t) k' = (if k' = k then Some x else item_get t k')"
proof -
  obtain es where "entries t = Some es" using assms(1) item_get_table_like by blast
  with assms show ?thesis by (auto simp: item_get_def entries_put map_of_put)
qed

lemma is_table_put [simp]: "is_table (put_item k x t) = is_table t"
  by (cases "(k, x, t)" rule: put_item.cases) auto

lemma list_all_put:
  "list_all (\<lambda>(k, y). P y) es \<Longrightarrow> P x \<Longrightarrow>
   list_all (\<lambda>(k, y). P y) (map (\<lambda>(k', y). if k' = k then (k', x) else (k', y)) es)"
  by (induction es) (auto split: if_splits)

lemma wf_put: "wf_item t \<Longrightarrow> wf_item x \<Longrightarrow> wf_item (put_item k x t)"
  by (cases "(k, x, t)" rule: put_item.cases)
    (simp_all only: put_item.simps prod.inject wf_item.simps wf_value.simps map_fst_put list_all_put simp_thms)

lemma storable_table [simp]: "is_table t \<Longrightarrow> storable t x"
  by (simp add: storable_def)

lemma storable_value [simp]: "storable t (Item_Value x)"
  by (simp add: storable_def)

text \<open>What is under a key of a table that holds an item is storable there.\<close>

lemma item_get_storable: "item_get t k = Some x \<Longrightarrow> storable t x"
  by (cases t rule: entries.cases) (auto simp: item_get_def dest!: map_of_SomeD)

lemma wf_item_get: "wf_item t \<Longrightarrow> item_get t k = Some x \<Longrightarrow> wf_item x"
  by (cases t rule: entries.cases) (fastforce simp: item_get_def list_all_iff dest!: map_of_SomeD)+

lemma is_table_like [simp]: "is_table t \<Longrightarrow> table_like t"
  by (cases t) auto

context toml_edit_laws
begin

lemma insert_cases:
  assumes "table_like t"
  obtains v' where "stored t v v'" "\<And>k'. item_get (te_insert TE t k v) k' = (if k' = k then Some v' else item_get t k')"
    "table_like (te_insert TE t k v)" "is_table (te_insert TE t k v) = is_table t"
    "wf_item t \<Longrightarrow> wf_item v \<Longrightarrow> wf_item (te_insert TE t k v)"
proof -
  obtain es where es: "entries t = Some es" using assms by blast
  obtain es' v' where "entries (te_insert TE t k v) = Some es'" "map_of es' = (map_of es)(k \<mapsto> v')"
    "stored t v v'" "is_table (te_insert TE t k v) = is_table t"
    "wf_item t \<and> wf_item v \<longrightarrow> wf_item (te_insert TE t k v)"
    using insert_law [OF es] by blast
  with es that [of v'] show thesis by (simp add: item_get_def)
qed

lemma get_insert_other: "table_like t \<Longrightarrow> k' \<noteq> k \<Longrightarrow> item_get (te_insert TE t k v) k' = item_get t k'"
  by (rule insert_cases [where t = t and v = v and k = k]) auto

lemma get_insert_storable: "table_like t \<Longrightarrow> storable t v \<Longrightarrow> item_get (te_insert TE t k v) k = Some v"
  by (rule insert_cases [where t = t and v = v and k = k]) (auto simp: stored_def)

lemma insert_table_like: "table_like t \<Longrightarrow> table_like (te_insert TE t k v)"
  by (rule insert_cases [where t = t and v = v and k = k])

lemma insert_is_table: "table_like t \<Longrightarrow> is_table (te_insert TE t k v) = is_table t"
  by (rule insert_cases [where t = t and v = v and k = k])

lemma insert_wf: "wf_item t \<Longrightarrow> table_like t \<Longrightarrow> wf_item v \<Longrightarrow> wf_item (te_insert TE t k v)"
  by (rule insert_cases [where t = t and v = v and k = k])

lemma remove_cases:
  assumes "table_like t"
  shows "item_get (te_remove TE t k) k' = (if k' = k then None else item_get t k')"
    "table_like (te_remove TE t k)" "is_table (te_remove TE t k) = is_table t"
    "wf_item t \<Longrightarrow> wf_item (te_remove TE t k)"
proof -
  obtain es where es: "entries t = Some es" using assms by blast
  obtain es' where e: "entries (te_remove TE t k) = Some es'" "map_of es' = (map_of es)(k := None)"
    "is_table (te_remove TE t k) = is_table t" "wf_item t \<longrightarrow> wf_item (te_remove TE t k)"
    using remove_law [OF es] by blast
  show "item_get (te_remove TE t k) k' = (if k' = k then None else item_get t k')"
    using es e by (simp add: item_get_def)
  show "table_like (te_remove TE t k)" "is_table (te_remove TE t k) = is_table t"
    "wf_item t \<Longrightarrow> wf_item (te_remove TE t k)"
    using e by auto
qed

end

end
