(* ===== verification/Config_Store.thy ===== *)
theory Config_Store
  imports Config Toml_Doc "HOL-Library.Char_ord" "HOL-Library.List_Lexorder" "HOL-Library.Product_Lexorder"
begin

text \<open>
  \<open>src/config_edit.rs\<close>, the files behind the configuration commands: reading and the atomic
  replacement of a configuration, the version stamp, the role of a document, the installed
  services and which configuration a command works on. The state is the regular files of a disk;
  what the operating system answers during one command (which calls fail, and what a failed
  write leaves) is a parameter. The platform is Linux.
\<close>

section \<open>Paths\<close>

text \<open>A path is its directories and its file name.\<close>

type_synonym path = "string list \<times> string"

definition display_path :: "path \<Rightarrow> string" where
  "display_path p = join_str ''/'' (fst p @ [snd p])"

definition display_dir :: "string list \<Rightarrow> string" where
  "display_dir d = join_str ''/'' d"

text \<open>\<open>file_stem\<close> and \<open>extension\<close>: a dot at the start does not begin an extension.\<close>

definition stem_extension :: "string \<Rightarrow> string \<times> string option" where
  "stem_extension f =
     (case rsplit_once CHR ''.'' f of
        None \<Rightarrow> (f, None)
      | Some (a, b) \<Rightarrow> if a = [] then (f, None) else (a, Some b))"

definition with_extension :: "path \<Rightarrow> string \<Rightarrow> path" where
  "with_extension p ext = (fst p, fst (stem_extension (snd p)) @ (if ext = [] then [] else CHR ''.'' # ext))"

definition os_default_config_path :: path where
  "os_default_config_path = ([[], ''etc'', ''rathole-x''], ''rathole-x.toml'')"

definition config_dir :: "string list" where
  "config_dir = fst os_default_config_path"

section \<open>The disk\<close>

record disk_file =
  f_content :: string
  f_mode :: nat

type_synonym disk = "path \<Rightarrow> disk_file option"

datatype io_kind = NotFound | PermissionDenied | OtherKind

record io_error =
  ie_kind :: io_kind
  ie_text :: string

record io =
  io_read :: "path \<Rightarrow> io_error option"
  io_mkdir :: "io_error option"
  io_write :: "(io_error \<times> disk_file option) option"
  io_chmod :: "io_error option"
  io_rename :: "io_error option"
  io_unlink :: "path \<Rightarrow> bool"
  io_open :: "path \<Rightarrow> bool"
  io_create :: "path \<Rightarrow> bool"
  io_read_dir :: "string list \<Rightarrow> string list option"
  io_pid :: nat
  io_mode :: nat

text \<open>The crates and the tools of the program that the commands use.\<close>

record editor =
  ed_toml :: toml_edit
  ed_config :: "string \<Rightarrow> anyhow + config"
  ed_version :: "string \<Rightarrow> u32 option option"
  ed_semver :: string
  ed_keypair :: "anyhow + string \<times> string"
  ed_url :: "string \<Rightarrow> anyhow + url"
  ed_token :: "nat \<Rightarrow> string"

definition path_exists :: "disk \<Rightarrow> path \<Rightarrow> bool" where
  "path_exists w p = (w p \<noteq> None)"

definition read_to_string :: "io \<Rightarrow> disk \<Rightarrow> path \<Rightarrow> io_error + string" where
  "read_to_string os w p =
     (case io_read os p of
        Some e \<Rightarrow> Inl e
      | None \<Rightarrow>
          (case w p of
             None \<Rightarrow> Inl \<lparr>ie_kind = NotFound, ie_text = ''No such file or directory''\<rparr>
           | Some f \<Rightarrow> Inr (f_content f)))"

definition io_anyhow :: "string \<times> io_error \<Rightarrow> anyhow" where
  "io_anyhow x = Ctx (fst x) (Err (ie_text (snd x)))"

definition remove_tmp :: "io \<Rightarrow> path \<Rightarrow> disk \<Rightarrow> disk" where
  "remove_tmp os tmp w = (if io_unlink os tmp then w(tmp := None) else w)"

definition tmp_path :: "io \<Rightarrow> path \<Rightarrow> path" where
  "tmp_path os p = with_extension p (''tmp'' @ string_of_nat (io_pid os))"

definition write_atomic :: "io \<Rightarrow> path \<Rightarrow> string \<Rightarrow> disk \<Rightarrow> disk \<times> (string \<times> io_error + unit)" where
  "write_atomic os p content w =
     (let tmp = tmp_path os p in
      case io_write os of
        Some (e, left) \<Rightarrow> (w(tmp := left), Inl (''Failed to write '' @ display_path tmp, e))
      | None \<Rightarrow>
          (let mode = (case w tmp of None \<Rightarrow> io_mode os | Some f \<Rightarrow> f_mode f);
               w1 = w(tmp \<mapsto> \<lparr>f_content = content, f_mode = mode\<rparr>) in
           case io_chmod os of
             Some e \<Rightarrow> (w1, Inl (''Failed to secure '' @ display_path tmp, e))
           | None \<Rightarrow>
               (let f = \<lparr>f_content = content, f_mode = 420\<rparr>; w2 = w1(tmp \<mapsto> f) in
                case io_rename os of
                  Some e \<Rightarrow>
                    (remove_tmp os tmp w2,
                     Inl (''Failed to replace '' @ display_path p @ '' with '' @ display_path tmp, e))
                | None \<Rightarrow> (if tmp = p then w2 else w2(p \<mapsto> f, tmp := None), Inr ()))))"

section \<open>Documents on disk\<close>

definition load_document :: "editor \<Rightarrow> io \<Rightarrow> disk \<Rightarrow> path \<Rightarrow> anyhow + item" where
  "load_document ED os w p =
     (case read_to_string os w p of
        Inr s \<Rightarrow> with_context (Ctx (''Failed to parse '' @ display_path p)) (te_parse (ed_toml ED) s)
      | Inl e \<Rightarrow>
          if ie_kind e = NotFound then Inr (Item_Table [])
          else Inl (io_anyhow (''Failed to read '' @ display_path p, e)))"

definition write_config :: "io \<Rightarrow> path \<Rightarrow> string \<Rightarrow> disk \<Rightarrow> disk \<times> (anyhow + unit)" where
  "write_config os p content w =
     map_prod id (\<lambda>r. case r of Inl e \<Rightarrow> Inl (Ctx (''Failed to write '' @ display_path p) (io_anyhow e)) | Inr u \<Rightarrow> Inr u)
       (write_atomic os p content w)"

definition save_document :: "editor \<Rightarrow> io \<Rightarrow> path \<Rightarrow> item \<Rightarrow> disk \<Rightarrow> disk \<times> (anyhow + unit)" where
  "save_document ED os p doc w = write_config os p (te_to_string (ed_toml ED) doc) w"

definition text_lines :: "string list \<Rightarrow> string" where
  "text_lines ls = concat (map (\<lambda>l. l @ [CHR 10]) ls)"

definition CONFIG_SKELETON :: string where
  \<open>CONFIG_SKELETON = text_lines
    [''# rathole-x configuration file'',
     ''#'',
     ''# Each rathole-x process runs exactly one role: client or server. Use separate'',
     ''# configs and processes for both roles; a legacy dual-section config requires'',
     ''# an explicit `rathole-x run --client` or `rathole-x run --server`.'',
     ''#'',
     ''# Point a client at its server once, then add services:'',
     ''#   rathole-x config set --client --remote-addr <SERVER:PORT>'',
     ''#   rathole-x config add --client "name:my-service;local:<HOST:PORT>"'',
     ''#   rathole-x config add --server "name:my-service;bind:<HOST:PORT>"'',
     ''#'',
     ''# ---------------------------------------------------------------------------'',
     ''# Client side: connect to a rathole server and expose local services through it'',
     ''# ---------------------------------------------------------------------------'',
     ''#'',
     ''# [client]'',
     ''# remote_addr = "example.com:2333"   # control channel address of the server'',
     ''# # default_token = "secret"         # default token for every client service'',
     ''# # heartbeat_timeout = 40           # seconds before the control channel is declared dead'',
     ''# # retry_interval = 1               # seconds between reconnection attempts'',
     ''#'',
     ''# # Optional transport configuration (default is plain TCP):'',
     ''# # [client.transport]'',
     ''# # type = "noise"                   # tcp | tls | noise | websocket'',
     ''# # [client.transport.noise]'',
     ''# # remote_public_key = "..."        # the server's noise public key'',
     ''#'',
     ''# [client.services.my-service]'',
     ''# local_addr = "127.0.0.1:80"        # local address the traffic is forwarded to'',
     ''# # token = "secret"                 # overrides default_token'',
     ''# # type = "tcp"                     # tcp (default) or udp'',
     ''#'',
     ''# ---------------------------------------------------------------------------'',
     ''# Server side: accept clients and publish their services'',
     ''# ---------------------------------------------------------------------------'',
     ''#'',
     ''# [server]'',
     ''# bind_addr = "0.0.0.0:2333"         # control channel bind address'',
     ''# # default_token = "secret"         # default token for every server service'',
     ''# # heartbeat_interval = 30          # seconds between heartbeats'',
     ''#'',
     ''# # Optional transport configuration (default is plain TCP):'',
     ''# # [server.transport]'',
     ''# # type = "noise"                   # tcp | tls | noise | websocket'',
     ''# # [server.transport.noise]'',
     ''# # local_private_key = "..."        # generate with: rathole-x genkey'',
     ''#'',
     ''# [server.services.my-service]'',
     ''# bind_addr = "0.0.0.0:80"           # address the service is published on'',
     ''# # token = "secret"                 # overrides default_token'',
     ''# # type = "tcp"                     # tcp (default) or udp'']\<close>

definition ensure_config_skeleton :: "io \<Rightarrow> disk \<Rightarrow> path \<Rightarrow> anyhow + bool" where
  "ensure_config_skeleton os w p =
     (if path_exists w p then Inr False
      else (case (fst p, io_mkdir os) of
              (_ # _, Some e) \<Rightarrow> Inl (io_anyhow (''Failed to create '' @ display_dir (fst p), e))
            | _ \<Rightarrow> Inr True))"

text \<open>The text of a document, under the skeleton in a new file, and its saving once it is validated.\<close>

definition document_text :: "editor \<Rightarrow> item \<Rightarrow> bool \<Rightarrow> string" where
  "document_text ED doc created =
     (if created then CONFIG_SKELETON @ CHR 10 # te_to_string (ed_toml ED) doc
      else te_to_string (ed_toml ED) doc)"

definition save_with_skeleton ::
  "editor \<Rightarrow> io \<Rightarrow> path \<Rightarrow> item \<Rightarrow> bool \<Rightarrow> disk \<Rightarrow> disk \<times> (anyhow + unit)" where
  "save_with_skeleton ED os p doc created w =
     (case config_validate (ed_config ED) (te_to_string (ed_toml ED) doc) of
        Inl e \<Rightarrow> (w, Inl e)
      | Inr _ \<Rightarrow>
          if created then write_config os p (document_text ED doc True) w
          else save_document ED os p doc w)"

section \<open>Roles\<close>

datatype service_side = Side_Client | Side_Server

fun side_key :: "service_side \<Rightarrow> string" where
  "side_key Side_Client = ''client''"
| "side_key Side_Server = ''server''"

datatype service_role = Role_Client | Role_Server

fun role_key :: "service_role \<Rightarrow> string" where
  "role_key Role_Client = ''client''"
| "role_key Role_Server = ''server''"

definition has_section :: "item \<Rightarrow> string \<Rightarrow> bool" where
  "has_section doc k = (item_get doc k \<noteq> None)"

definition detect_role :: "item \<Rightarrow> anyhow + service_role" where
  "detect_role doc =
     (case (has_section doc ''client'', has_section doc ''server'') of
        (True, False) \<Rightarrow> Inr Role_Client
      | (False, True) \<Rightarrow> Inr Role_Server
      | (True, True) \<Rightarrow> Inl (Err (''The config defines both [client] and [server]; this command edits '' @
          ''single-role configs. Split it into two files and install two services.''))
      | (False, False) \<Rightarrow> Inl (Err ''The config defines neither [client] nor [server]''))"

definition ensure_role_allows :: "item \<Rightarrow> service_side \<Rightarrow> anyhow + unit" where
  "ensure_role_allows doc requested =
     (if \<not> has_section doc ''client'' \<and> \<not> has_section doc ''server'' then Inr ()
      else rbind (detect_role doc) (\<lambda>role.
        if (role, requested) \<in> {(Role_Client, Side_Client), (Role_Server, Side_Server)} then Inr ()
        else Inl (Err (''This config is a '' @ role_key role @ '' config; '' @ side_key requested @
          '' entries do not belong here. Use the matching side or another service config.''))))"

section \<open>Names and addresses\<close>

definition is_alphanumeric :: "char \<Rightarrow> bool" where
  "is_alphanumeric c =
     (let n = of_char c :: nat in (48 \<le> n \<and> n \<le> 57) \<or> (65 \<le> n \<and> n \<le> 90) \<or> (97 \<le> n \<and> n \<le> 122))"

definition validate_service_name :: "string \<Rightarrow> anyhow + unit" where
  "validate_service_name name =
     (if name = [] \<or> \<not> list_all (\<lambda>c. is_alphanumeric c \<or> c = CHR ''-'' \<or> c = CHR ''_'') name
      then Inl (Err (''Invalid service name '' @ [CHR 39] @ name @ [CHR 39] @ '': use letters, digits, '' @
        [CHR 39] @ ''-'' @ [CHR 39] @ '' or '' @ [CHR 39] @ ''_'' @ [CHR 39] @ '' only''))
      else Inr ())"

definition validate_host_port :: "string \<Rightarrow> string \<Rightarrow> anyhow + unit" where
  "validate_host_port addr flag =
     (if is_socket_addr addr then Inr ()
      else
        let bad = Inl (Err (''Invalid '' @ flag @ '' '' @ [CHR 39] @ addr @ [CHR 39] @ '': expected host:port'')) in
        (case rsplit_once CHR '':'' addr of
           Some (host, port) \<Rightarrow> if host \<noteq> [] \<and> parse_u16 port \<noteq> None then Inr () else bad
         | None \<Rightarrow> bad))"

section \<open>Installed services\<close>

definition service_config_path :: "string option \<Rightarrow> anyhow + string \<times> path" where
  "service_config_path name =
     (let n = (case name of None \<Rightarrow> ''default'' | Some n \<Rightarrow> n) in
      rbind (validate_service_name n) (\<lambda>_. Inr (n, (config_dir, n @ ''.toml''))))"

instantiation service_role :: linorder
begin

definition less_eq_service_role :: "service_role \<Rightarrow> service_role \<Rightarrow> bool" where
  "less_eq_service_role a b = (a = Role_Client \<or> b = Role_Server)"

definition less_service_role :: "service_role \<Rightarrow> service_role \<Rightarrow> bool" where
  "less_service_role a b = (a = Role_Client \<and> b = Role_Server)"

instance
proof
  fix a b c :: service_role
  show "(a < b) = (a \<le> b \<and> \<not> b \<le> a)" "a \<le> a" "a \<le> b \<or> b \<le> a"
    by (cases a; cases b; simp add: less_eq_service_role_def less_service_role_def)+
  show "a \<le> b \<Longrightarrow> b \<le> c \<Longrightarrow> a \<le> c" "a \<le> b \<Longrightarrow> b \<le> a \<Longrightarrow> a = b"
    by (cases a; cases b; cases c; simp add: less_eq_service_role_def)+
qed

end

definition installed_service :: "editor \<Rightarrow> io \<Rightarrow> disk \<Rightarrow> string \<Rightarrow> (string \<times> service_role) option" where
  "installed_service ED os w f =
     (case stem_extension f of (stem, ext) \<Rightarrow>
        if ext \<noteq> Some ''toml'' \<or> stem = ''version'' then None
        else Option.bind (ok_option (load_document ED os w (config_dir, f))) (\<lambda>doc.
             map_option (\<lambda>role. (stem, role)) (ok_option (detect_role doc))))"

definition list_installed_services :: "editor \<Rightarrow> io \<Rightarrow> disk \<Rightarrow> (string \<times> service_role) list" where
  "list_installed_services ED os w =
     (case io_read_dir os config_dir of
        None \<Rightarrow> []
      | Some names \<Rightarrow> sort (List.map_filter (installed_service ED os w) names))"

definition resolve_service_config ::
  "editor \<Rightarrow> io \<Rightarrow> disk \<Rightarrow> path option \<Rightarrow> string option \<Rightarrow> anyhow + path" where
  "resolve_service_config ED os w config name =
     (case (config, name) of
        (Some c, _) \<Rightarrow> Inr c
      | (None, Some n) \<Rightarrow> rbind (validate_service_name n) (\<lambda>_. Inr (config_dir, n @ ''.toml''))
      | (None, None) \<Rightarrow>
          (case list_installed_services ED os w of
             [(only, _)] \<Rightarrow> Inr (config_dir, only @ ''.toml'')
           | [] \<Rightarrow> Inl (Err (''No installed service found in '' @ display_dir config_dir @
               '': install one first (`rathole-x service install server|client --yes`) or pass -c/--name''))
           | many \<Rightarrow> Inl (Err (string_of_nat (length many) @ '' services installed ('' @
               join_str '', '' (map fst many) @ ''); specify one with --name''))))"

section \<open>Installing and stamping\<close>

definition DEFAULT_SERVER_CONFIG :: string where
  \<open>DEFAULT_SERVER_CONFIG = text_lines
    [''# rathole-x server configuration'',
     ''# Generated by `rathole-x service install server`. Edit freely; the service'',
     ''# hot-reloads changes.'',
     ''#'',
     ''# Add services with:'',
     ''#   rathole-x config add --name <name> --server "name:...;bind:0.0.0.0:PORT"'',
     ''# Tune the control channel with:'',
     ''#   rathole-x config set --name <name> --server --transport noise'',
     '''',
     ''[server]'',
     ''bind_addr = "0.0.0.0:2333"'',
     '''',
     ''[server.services]'']\<close>

definition DEFAULT_CLIENT_CONFIG :: string where
  \<open>DEFAULT_CLIENT_CONFIG = text_lines
    [''# rathole-x client configuration'',
     ''# Generated by `rathole-x service install client`. Edit freely; the service'',
     ''# hot-reloads changes.'',
     ''#'',
     ''# Point this client at your server first:'',
     ''#   rathole-x config set --name <name> --client --remote-addr <SERVER>:2333'',
     ''# Then add services:'',
     ''#   rathole-x config add --name <name> --client "name:...;local:127.0.0.1:PORT"'',
     '''',
     ''[client]'',
     ''remote_addr = "example.com:2333"  # placeholder; unused until services exist'',
     '''',
     ''[client.services]'']\<close>

definition permission_hint :: "io_error \<Rightarrow> string" where
  "permission_hint e =
     (if ie_kind e = PermissionDenied
      then '' (insufficient permissions; run the command elevated, e.g. with sudo)'' else [])"

definition ensure_role_config ::
  "editor \<Rightarrow> io \<Rightarrow> path \<Rightarrow> service_role \<Rightarrow> disk \<Rightarrow> disk \<times> (anyhow + bool)" where
  "ensure_role_config ED os p role w =
     (if path_exists w p then
        (w, case read_to_string os w p of
              Inl e \<Rightarrow> Inl (io_anyhow (''Failed to read config file '' @ display_path p @ permission_hint e, e))
            | Inr content \<Rightarrow>
                rbind (with_context (Ctx (''Config file '' @ display_path p @ '' is not a valid rathole-x configuration''))
                         (config_validate (ed_config ED) content)) (\<lambda>_.
                case Option.bind (ok_option (te_parse (ed_toml ED) content)) (\<lambda>doc. ok_option (detect_role doc)) of
                  Some existing \<Rightarrow>
                    if existing \<noteq> role then
                      Inl (Err (''Config '' @ display_path p @ '' is a '' @ role_key existing @
                        '' config from a previous install; it cannot back a '' @ role_key role @
                        '' service. Remove it (`sudo rm '' @ display_path p @ ''`) or uninstall with --purge first''))
                    else Inr False
                | None \<Rightarrow> Inr False))
      else
        (case (fst p, io_mkdir os) of
           (_ # _, Some e) \<Rightarrow>
             (w, Inl (io_anyhow (''Failed to create config directory '' @ display_dir (fst p) @ permission_hint e, e)))
         | _ \<Rightarrow>
             (case write_atomic os p
                     (case role of Role_Client \<Rightarrow> DEFAULT_CLIENT_CONFIG | Role_Server \<Rightarrow> DEFAULT_SERVER_CONFIG) w of
                (w', Inl (c, e)) \<Rightarrow>
                  (w', Inl (Ctx (''Failed to write default config '' @ display_path p @ permission_hint e) (io_anyhow (c, e))))
              | (w', Inr _) \<Rightarrow> (w', Inr True))))"

definition version_path :: "path \<Rightarrow> path" where
  "version_path p = (fst p, ''version.toml'')"

definition writable_by_current_user :: "io \<Rightarrow> path \<Rightarrow> disk \<Rightarrow> disk \<times> bool" where
  "writable_by_current_user os p w =
     (if path_exists w p then (w, io_open os p)
      else if fst p = [] then (w, True)
      else
        let probe = (fst p, ''.rathole-x-probe-'' @ string_of_nat (io_pid os));
            ok = io_create os probe;
            w1 = (if ok then w(probe \<mapsto> \<lparr>f_content = [], f_mode = io_mode os\<rparr>) else w) in
        (if io_unlink os probe then w1(probe := None) else w1, ok))"

definition major_version :: "string \<Rightarrow> u32" where
  "major_version version = (case parse_u32 (hd (split_on CHR ''.'' version)) of None \<Rightarrow> 0 | Some n \<Rightarrow> n)"

definition check_version_compat :: "editor \<Rightarrow> io \<Rightarrow> disk \<Rightarrow> path \<Rightarrow> anyhow + unit" where
  "check_version_compat ED os w p =
     (case read_to_string os w (version_path p) of
        Inl _ \<Rightarrow> Inr ()
      | Inr content \<Rightarrow>
          (case ed_version ED content of
             Some (Some stamped) \<Rightarrow>
               if stamped \<noteq> major_version (ed_semver ED) then
                 Inl (Err (''This config is managed by rathole-x v'' @ string_of_nat (unat stamped) @
                   '' but this CLI is v'' @ string_of_nat (unat (major_version (ed_semver ED))) @
                   ''. Reinstall the service to upgrade: `rathole-x service uninstall --yes` then '' @
                   ''`rathole-x service install <server|client> --yes`.''))
               else Inr ()
           | _ \<Rightarrow> Inr ()))"


section \<open>What a save leaves on the disk\<close>

lemma write_atomic_outcome:
  assumes "tmp_path os p \<noteq> p"
  shows "case write_atomic os p content w of
      (w', Inr _) \<Rightarrow> w' = w(p \<mapsto> \<lparr>f_content = content, f_mode = 420\<rparr>, tmp_path os p := None)
    | (w', Inl _) \<Rightarrow> \<exists>f. w' = w(tmp_path os p := f)"
proof -
  let ?t = "tmp_path os p"
  have r: "\<exists>f. remove_tmp os ?t (w(?t \<mapsto> g)) = w(?t := f)" for g
    by (simp add: remove_tmp_def) blast
  show ?thesis
  proof (cases "io_write os")
    case None
    then show ?thesis
      using assms r by (cases "io_chmod os"; cases "io_rename os") (auto simp: write_atomic_def Let_def)
  next
    case (Some x)
    then show ?thesis by (cases x) (auto simp: write_atomic_def Let_def)
  qed
qed

text \<open>
  A failed \<open>chmod\<close> leaves the temporary file, with the whole text of the configuration, and so
  may a failed write.
\<close>

lemma chmod_failure_leaves_secrets:
  assumes "io_write os = None" "io_chmod os = Some e"
  shows "\<exists>m. fst (write_atomic os p content w) (tmp_path os p) = Some \<lparr>f_content = content, f_mode = m\<rparr>"
  using assms by (simp add: write_atomic_def Let_def)

text \<open>
  The outcome of a command on the configuration \<open>p\<close>: no file but \<open>p\<close> and its temporary file is
  touched, \<open>p\<close> is not touched by a command that fails, and when it was replaced, its new text
  satisfies \<open>V\<close>.
\<close>

definition safe_outcome :: "io \<Rightarrow> path \<Rightarrow> (string \<Rightarrow> bool) \<Rightarrow> disk \<Rightarrow> disk \<times> (anyhow + 'a) \<Rightarrow> bool" where
  "safe_outcome os p V w x \<longleftrightarrow>
     (\<forall>q. q \<noteq> p \<longrightarrow> q \<noteq> tmp_path os p \<longrightarrow> fst x q = w q) \<and>
     (\<not> is_ok (snd x) \<longrightarrow> fst x p = w p) \<and>
     (fst x p \<noteq> w p \<longrightarrow> (\<exists>c. fst x p = Some \<lparr>f_content = c, f_mode = 420\<rparr> \<and> V c))"

lemma safe_outcome_refl [simp]: "safe_outcome os p V w (w, r)"
  by (simp add: safe_outcome_def)

lemma is_ok_map [simp]: "is_ok (rbind r (\<lambda>_. Inr x)) = is_ok r"
  by (cases r) auto

lemma safe_outcome_map:
  "safe_outcome os p V w x \<Longrightarrow> safe_outcome os p V w (map_prod id (\<lambda>r. rbind r (\<lambda>_. Inr y)) x)"
  by (simp add: safe_outcome_def)

lemma write_config_outcome:
  assumes "tmp_path os p \<noteq> p"
  shows "case write_config os p content w of
      (w', Inr _) \<Rightarrow> w' = w(p \<mapsto> \<lparr>f_content = content, f_mode = 420\<rparr>, tmp_path os p := None)
    | (w', Inl _) \<Rightarrow> \<exists>f. w' = w(tmp_path os p := f)"
  using write_atomic_outcome [OF assms, where content = content and w = w]
  by (auto simp: write_config_def split: prod.splits sum.splits)

lemma write_config_safe:
  assumes "tmp_path os p \<noteq> p" "V content"
  shows "safe_outcome os p V w (write_config os p content w)"
  using write_config_outcome [OF assms(1), where content = content and w = w] assms
  by (auto simp: safe_outcome_def split: prod.splits sum.splits)

text \<open>The skeleton consists of comments.\<close>

lemma split_on_line: "c \<notin> set l \<Longrightarrow> split_on c (l @ c # s) = l # split_on c s"
  by (induction l) auto

lemma comment_text_lines:
  "list_all (\<lambda>l. CHR 10 \<notin> set l \<and> (l = [] \<or> hd l = CHR ''#'')) ls \<Longrightarrow> comment_lines (text_lines ls)"
proof (induction ls)
  case (Cons l ls)
  then show ?case by (simp add: text_lines_def comment_lines_def split_on_line)
qed (simp add: text_lines_def comment_lines_def)

lemma skeleton_comments: "comment_lines CONFIG_SKELETON"
  unfolding CONFIG_SKELETON_def by (rule comment_text_lines) simp

text \<open>
  Documented of \<open>toml::from_str\<close>: comment lines at the start do not matter.
\<close>

definition ignores_comments :: "editor \<Rightarrow> bool" where
  "ignores_comments ED \<longleftrightarrow> (\<forall>c s. comment_lines c \<longrightarrow> ed_config ED (c @ CHR 10 # s) = ed_config ED s)"

definition valid_text :: "editor \<Rightarrow> string \<Rightarrow> bool" where
  "valid_text ED s = is_ok (config_validate (ed_config ED) s)"

lemma valid_document_text:
  assumes "ignores_comments ED"
  shows "valid_text ED (document_text ED doc created) = valid_text ED (te_to_string (ed_toml ED) doc)"
  using assms skeleton_comments
  by (simp add: valid_text_def document_text_def ignores_comments_def config_validate_def config_from_str_def)

lemma save_with_skeleton_safe:
  assumes "tmp_path os p \<noteq> p" "ignores_comments ED"
  shows "safe_outcome os p (valid_text ED) w (save_with_skeleton ED os p doc created w)"
proof (cases "config_validate (ed_config ED) (te_to_string (ed_toml ED) doc)")
  case (Inr u)
  then have v: "valid_text ED (te_to_string (ed_toml ED) doc)" by (simp add: valid_text_def)
  then have "valid_text ED (document_text ED doc True)" using assms(2) by (simp add: valid_document_text)
  then show ?thesis using Inr v write_config_safe [OF assms(1)]
    by (simp add: save_with_skeleton_def save_document_def)
qed (simp add: save_with_skeleton_def)

lemma save_with_skeleton_ok:
  assumes "tmp_path os p \<noteq> p" "save_with_skeleton ED os p doc created w = (w', Inr u)"
  shows "w' = w(p \<mapsto> \<lparr>f_content = document_text ED doc created, f_mode = 420\<rparr>, tmp_path os p := None)"
proof -
  have "write_config os p (document_text ED doc created) w = (w', Inr u)"
    using assms(2) by (auto simp: save_with_skeleton_def save_document_def document_text_def split: sum.splits if_splits)
  then show ?thesis using write_config_outcome [OF assms(1), where content = "document_text ED doc created" and w = w] by simp
qed

section \<open>Reading a saved document back\<close>

context toml_edit_laws
begin

lemma load_document_table:
  assumes "load_document ED os w p = Inr doc" "ed_toml ED = TE"
  shows "is_table doc" "wf_item doc"
proof -
  have "is_table doc \<and> wf_item doc"
  proof (cases "read_to_string os w p")
    case (Inl e)
    then show ?thesis using assms(1) by (auto simp: load_document_def split: if_splits)
  next
    case (Inr s)
    then show ?thesis using assms parse_law [of s doc] by (simp add: load_document_def result_simps)
  qed
  then show "is_table doc" "wf_item doc" by simp_all
qed

lemma load_saved:
  assumes "ed_toml ED = TE" "is_table doc" "wf_item doc" "io_read os p = None"
    and "w p = Some \<lparr>f_content = document_text ED doc created, f_mode = m\<rparr>"
  shows "\<exists>d. load_document ED os w p = Inr d \<and> leaf d = leaf doc"
  using print_law [OF assms(2,3)] comment_law [OF skeleton_comments assms(2,3)] assms(1,4,5)
  by (auto simp: load_document_def read_to_string_def document_text_def)

end

section \<open>Names and addresses\<close>

text \<open>
  The first test of \<open>validate_host_port\<close> is redundant: every socket address has a non-empty
  host and a port in front of and behind its last colon.
\<close>

lemma validate_host_port_iff:
  "is_ok (validate_host_port a flag) \<longleftrightarrow>
     (\<exists>host port. rsplit_once CHR '':'' a = Some (host, port) \<and> host \<noteq> [] \<and> parse_u16 port \<noteq> None)"
  using socket_addr_host_port [of a]
  by (auto simp: validate_host_port_def Let_def split: option.splits)

text \<open>The order in which a directory is read does not matter.\<close>

lemma list_installed_permute:
  assumes "io_read_dir os config_dir = Some names" "io_read_dir os' config_dir = Some names'"
    and "mset names = mset names'" "io_read os = io_read os'"
  shows "list_installed_services ED os w = list_installed_services ED os' w"
proof -
  have "load_document ED os = load_document ED os'"
    by (simp add: fun_eq_iff load_document_def read_to_string_def assms(4))
  then have "installed_service ED os = installed_service ED os'"
    by (intro ext) (simp only: installed_service_def)
  moreover have "sort (List.map_filter (installed_service ED os' w) names) =
      sort (List.map_filter (installed_service ED os' w) names')"
    using assms(3) by (intro properties_for_sort) (simp_all add: List.map_filter_def)
  ultimately show ?thesis
    using assms(1,2) by (simp add: list_installed_services_def)
qed

end
