(* ===== verification/Toml_Edits.thy ===== *)
theory Toml_Edits
  imports Toml_Doc "HOL-Library.Sublist"
begin

text \<open>
  What an edit of a table does to the values a reader finds in it: assignments of values to
  paths. An assignment to a path also removes what was below it. The commands are described by
  such lists, composed from the assignments of their insertions.
\<close>

type_synonym assignments = "(string list \<times> toml_value) list"

definition assign :: "assignments \<Rightarrow> (string list \<Rightarrow> toml_value option) \<Rightarrow> string list \<Rightarrow> toml_value option" where
  "assign A L p =
     (case List.find (\<lambda>(q, v). prefix q p) A of
        None \<Rightarrow> L p
      | Some (q, v) \<Rightarrow> if q = p then Some v else None)"

definition below :: "string \<Rightarrow> assignments \<Rightarrow> assignments" where
  "below k A = map (\<lambda>(q, v). (k # q, v)) A"

text \<open>\<open>t'\<close> comes from the table \<open>t\<close> by the assignments \<open>A\<close>, of which the last wins.\<close>

definition edited :: "item \<Rightarrow> item \<Rightarrow> assignments \<Rightarrow> bool" where
  "edited t t' A \<longleftrightarrow>
     table_like t' \<and> is_table t' = is_table t \<and> (wf_item t \<longrightarrow> wf_item t') \<and> leaf t' = assign A (leaf t)"

lemma assign_Nil [simp]: "assign [] L = L"
  by (simp add: assign_def fun_eq_iff)

lemma find_append: "List.find P (xs @ ys) = (case List.find P xs of None \<Rightarrow> List.find P ys | Some x \<Rightarrow> Some x)"
  by (induction xs) auto

lemma assign_append: "assign (B @ A) L = assign B (assign A L)"
  by (simp add: fun_eq_iff assign_def find_append split: option.split)

lemma below_Nil [simp]: "below k [] = []"
  by (simp add: below_def)

lemma below_append: "below k (B @ A) = below k B @ below k A"
  by (simp add: below_def)

lemma below_Cons [simp]: "below k ((q, v) # A) = (k # q, v) # below k A"
  by (simp add: below_def)

lemma assign_below:
  "assign (below k A) L [] = L []"
  "assign (below k A) L (k' # ks) = (if k' = k then assign A (\<lambda>p. L (k # p)) ks else L (k' # ks))"
  by (induction A) (auto simp: assign_def below_def)

lemma assign_redundant:
  assumes "set A \<subseteq> set B"
  shows "assign (B @ A) L = assign B L"
proof
  fix p
  have "List.find P A = None" if "List.find P B = None" for P
    using that assms by (auto simp: find_None_iff)
  then show "assign (B @ A) L p = assign B L p"
    by (simp add: assign_def find_append split: option.split)
qed

lemma assign_outside: "\<forall>(q, v) \<in> set A. \<not> prefix q p \<Longrightarrow> assign A L p = L p"
  by (induction A) (auto simp: assign_def)

lemma atom_table_like [simp]: "table_like t \<Longrightarrow> atom t = None"
  by (cases t rule: entries.cases) auto

lemma leaf_empty [simp]: "leaf (Item_Table []) = (\<lambda>p. None)"
proof
  show "leaf (Item_Table []) p = None" for p by (cases p) (simp_all add: item_get_def)
qed

lemma leaf_value: "entries (Item_Value v) = None \<Longrightarrow> leaf (Item_Value v) p = (if p = [] then Some v else None)"
  by (cases p; cases v) simp_all

lemma edited_refl [simp]: "edited t t [] \<longleftrightarrow> table_like t"
  by (simp add: edited_def)

lemma editedD:
  assumes "edited t t' A"
  shows "table_like t'" "is_table t' = is_table t" "wf_item t \<Longrightarrow> wf_item t'" "leaf t' = assign A (leaf t)"
  using assms by (simp_all add: edited_def)

lemma edited_trans: "edited t t1 A \<Longrightarrow> edited t1 t2 B \<Longrightarrow> edited t t2 (B @ A)"
  by (auto simp: edited_def assign_append)

text \<open>What replaces a table under a key is storable there again.\<close>

lemma shape_storable:
  assumes "item_get t k = Some x" "table_like x" "table_like x'" "is_table x' = is_table x"
  shows "storable t x'"
proof -
  have "storable t x" by (rule item_get_storable [OF assms(1)])
  moreover have "\<exists>v. x' = Item_Value v" if "\<exists>v. x = Item_Value v"
    using that assms(3,4) by (cases x' rule: entries.cases) auto
  ultimately show ?thesis using assms(4) by (auto simp: storable_def)
qed

lemma edited_storable: "item_get t k = Some x \<Longrightarrow> table_like x \<Longrightarrow> edited x x' A \<Longrightarrow> storable t x'"
  using shape_storable editedD(1,2) by blast

lemma table_like_put: "table_like t \<Longrightarrow> storable t x \<Longrightarrow> table_like (put_item k x t)"
  using entries_put by blast

lemma leaf_put:
  assumes "item_get t k = Some x" "storable t x'"
  shows "leaf (put_item k x' t) p = (case p of [] \<Rightarrow> None | k' # ks \<Rightarrow> if k' = k then leaf x' ks else leaf t p)"
  using table_like_put [OF item_get_table_like [OF assms(1)] assms(2), of k] get_put [OF _ assms(2)] assms(1)
  by (cases p) simp_all

lemma edited_put:
  assumes "table_like t" "item_get t k = Some x" "table_like x" "edited x x' A"
  shows "edited t (put_item k x' t) (below k A)"
proof -
  have s: "storable t x'" by (rule edited_storable [OF assms(2-4)])
  have "table_like (put_item k x' t)" using entries_put [OF _ s] assms(1) by blast
  moreover have "leaf (put_item k x' t) p = assign (below k A) (leaf t) p" for p
    using assms(1) editedD(4) [OF assms(4)] calculation get_put [OF _ s] assms(2)
    by (cases p) (simp_all add: assign_below)
  moreover have "wf_item t \<Longrightarrow> wf_item (put_item k x' t)"
    using wf_put editedD(3) [OF assms(4)] wf_item_get [OF _ assms(2)] by blast
  ultimately show ?thesis by (auto simp: edited_def)
qed

text \<open>Only what is assigned under a key can change under it.\<close>

lemma edited_get_other: "item_get t k \<noteq> None \<Longrightarrow> storable t x \<Longrightarrow> k' \<noteq> k \<Longrightarrow> item_get (put_item k x t) k' = item_get t k'"
  by (simp add: get_put)

context toml_edit_laws
begin

lemma edited_insert_value:
  assumes "table_like t" "entries (Item_Value v) = None" "wf_value v"
  shows "edited t (te_insert TE t k (Item_Value v)) [([k], v)]"
proof -
  let ?t = "te_insert TE t k (Item_Value v)"
  have g: "item_get ?t k' = (if k' = k then Some (Item_Value v) else item_get t k')" for k'
    using get_insert_storable [OF assms(1), of "Item_Value v" k] get_insert_other [OF assms(1), of k' k "Item_Value v"] by simp
  have "leaf ?t p = assign [([k], v)] (leaf t) p" for p
    using assms(1) insert_table_like [OF assms(1)]
    by (cases p) (auto simp: g assign_def leaf_value [OF assms(2)])
  then show ?thesis
    using assms insert_table_like [OF assms(1)] insert_is_table [OF assms(1)] insert_wf [of t "Item_Value v" k]
    by (auto simp: edited_def)
qed

lemma edited_insert_str: "table_like t \<Longrightarrow> edited t (te_insert TE t k (str_item s)) [([k], V_String s)]"
  unfolding str_item_def by (rule edited_insert_value) simp_all

lemma edited_insert_bool: "table_like t \<Longrightarrow> edited t (te_insert TE t k (bool_item b)) [([k], V_Boolean b)]"
  unfolding bool_item_def by (rule edited_insert_value) simp_all

lemma edited_insert_int:
  "table_like t \<Longrightarrow> - (2 ^ 63) \<le> i \<Longrightarrow> i < 2 ^ 63 \<Longrightarrow> edited t (te_insert TE t k (int_item i)) [([k], V_Integer i)]"
  unfolding int_item_def by (rule edited_insert_value) simp_all

text \<open>A new table under a free key: empty, or one of values.\<close>

lemma stored_leaf:
  assumes "stored t v v'" "flat v"
  shows "leaf v' = leaf v"
proof
  fix p
  have "entries v' = entries v" using assms by (auto simp: stored_def split: if_splits)
  moreover have "table_like v" using assms(2) by (cases v) auto
  ultimately show "leaf v' p = leaf v p" by (cases p) (simp_all add: item_get_def)
qed

lemma edited_insert_flat:
  assumes "table_like t" "item_get t k = None" "edited (Item_Table []) e A" "flat e"
  shows "edited t (te_insert TE t k e) (below k A)"
proof -
  obtain v' where v: "stored t e v'" "\<And>k'. item_get (te_insert TE t k e) k' = (if k' = k then Some v' else item_get t k')"
    "table_like (te_insert TE t k e)" "is_table (te_insert TE t k e) = is_table t"
    "wf_item t \<Longrightarrow> wf_item e \<Longrightarrow> wf_item (te_insert TE t k e)"
    using insert_cases [OF assms(1)] by metis
  have "leaf (te_insert TE t k e) p = assign (below k A) (leaf t) p" for p
    using assms(1,2) v(3) editedD(4) [OF assms(3)]
    by (cases p) (simp_all add: v(2) assign_below stored_leaf [OF v(1) assms(4)] fun_eq_iff)
  then show ?thesis using v editedD(3) [OF assms(3)] by (auto simp: edited_def)
qed

lemma edited_insert_empty: "table_like t \<Longrightarrow> item_get t k = None \<Longrightarrow> edited t (te_insert TE t k (Item_Table [])) []"
  using edited_insert_flat [of t k "Item_Table []" "[]"] by simp

lemma flat_insert:
  assumes "flat e" "wf_item e" "wf_value v"
  shows "flat (te_insert TE e k (Item_Value v))"
proof -
  obtain es where e: "e = Item_Table es" using assms(1) by (cases e) auto
  obtain es' v' where e': "entries (te_insert TE e k (Item_Value v)) = Some es'"
    "map_of es' = (map_of es)(k \<mapsto> v')" "stored e (Item_Value v) v'"
    "is_table (te_insert TE e k (Item_Value v))" "wf_item (te_insert TE e k (Item_Value v))"
    using insert_law [of e es k "Item_Value v"] assms by (auto simp: e)
  obtain fs where i: "te_insert TE e k (Item_Value v) = Item_Table fs"
    using e'(4) by (cases "te_insert TE e k (Item_Value v)") auto
  have "fs = es'" using e'(1) i by simp
  have "\<exists>x. j = Item_Value x" if "(k', j) \<in> set fs" for k' j
  proof -
    have "map_of fs k' = Some j" using that e'(5) by (simp add: i)
    moreover have "v' = Item_Value v" using e'(3) by (simp add: stored_def)
    ultimately have "((map_of es)(k \<mapsto> Item_Value v)) k' = Some j"
      using e'(2) \<open>fs = es'\<close> by simp
    then have "j = Item_Value v \<or> (k', j) \<in> set es" by (auto dest: map_of_SomeD split: if_splits)
    then show ?thesis using assms(1) by (auto simp: e list_all_iff)
  qed
  then show ?thesis by (auto simp: i list_all_iff)
qed

lemma edited_insert_table:
  assumes "is_table t" "item_get t k = None" "edited (Item_Table []) e A"
  shows "edited t (te_insert TE t k e) (below k A)" "item_get (te_insert TE t k e) k = Some e"
proof -
  have like: "table_like t" using assms(1) by simp
  have g: "item_get (te_insert TE t k e) k' = (if k' = k then Some e else item_get t k')" for k'
    using get_insert_storable [OF like storable_table [OF assms(1)]] get_insert_other [OF like] by simp
  then show "item_get (te_insert TE t k e) k = Some e" by simp
  have "leaf (te_insert TE t k e) p = assign (below k A) (leaf t) p" for p
    using assms(2) like insert_table_like [OF like] editedD(4) [OF assms(3)]
    by (cases p) (simp_all add: g assign_below)
  then show "edited t (te_insert TE t k e) (below k A)"
    using insert_table_like [OF like] insert_is_table [OF like] insert_wf [OF _ like] editedD(3) [OF assms(3)]
    by (auto simp: edited_def)
qed

end

text \<open>The table under a key, or a new one.\<close>

definition child_table :: "item \<Rightarrow> string \<Rightarrow> item" where
  "child_table t k = (case item_get t k of None \<Rightarrow> Item_Table [] | Some x \<Rightarrow> x)"

definition opt_assign :: "string \<Rightarrow> ('a \<Rightarrow> toml_value) \<Rightarrow> 'a option \<Rightarrow> assignments" where
  "opt_assign k f v = (case v of None \<Rightarrow> [] | Some x \<Rightarrow> [([k], f x)])"


context toml_edit_laws
begin

lemma leaf_remove:
  "table_like t \<Longrightarrow> leaf (te_remove TE t k) p = (if prefix [k] p then None else leaf t p)"
  using remove_cases [of t k] by (cases p) auto

end

end
