(* ===== verification/Config_Edit.thy ===== *)
theory Config_Edit
  imports Config_Store Toml_Edits
begin

text \<open>
  \<open>src/config_edit.rs\<close>, the commands \<open>config list\<close>, \<open>config remove\<close> and \<open>config set\<close>. A
  reference into a document is a path of \<open>put_item\<close>: what was read under a key is changed and
  put back. What the commands print for people is not modelled, except that \<open>config list\<close>
  prints lines; the reported JSON is.
\<close>

section \<open>Listing and removing\<close>

record service_info =
  si_name :: string
  si_side :: service_side
  si_json :: json

definition services_of :: "item \<Rightarrow> service_side \<Rightarrow> item option" where
  "services_of doc side =
     Option.bind (item_get doc (side_key side)) (\<lambda>s.
     Option.bind (item_get s ''services'') (\<lambda>t. if table_like t then Some t else None))"

definition service_named :: "item \<Rightarrow> service_side \<Rightarrow> string \<Rightarrow> bool" where
  "service_named doc side name \<longleftrightarrow> (\<exists>t. services_of doc side = Some t \<and> item_get t name \<noteq> None)"

definition listed_services :: "item \<Rightarrow> service_side \<Rightarrow> service_info list" where
  "listed_services doc side =
     (case Option.bind (services_of doc side) entries of
        None \<Rightarrow> []
      | Some es \<Rightarrow> map (\<lambda>(name, i). \<lparr>si_name = name, si_side = side, si_json = item_to_json i\<rparr>) es)"

definition list_services :: "editor \<Rightarrow> io \<Rightarrow> path \<Rightarrow> disk \<Rightarrow> anyhow + service_info list" where
  "list_services ED os p w =
     (if \<not> path_exists w p then Inr []
      else rbind (load_document ED os w p) (\<lambda>doc.
        Inr (listed_services doc Side_Client @ listed_services doc Side_Server)))"

definition remove_from :: "toml_edit \<Rightarrow> string \<Rightarrow> item \<Rightarrow> service_side \<Rightarrow> item option" where
  "remove_from TE name doc side =
     Option.bind (item_get doc (side_key side)) (\<lambda>s.
     Option.bind (services_of doc side) (\<lambda>t.
     if item_get t name = None then None
     else Some (put_item (side_key side) (put_item ''services'' (te_remove TE t name) s) doc)))"

definition remove_service_entry ::
  "editor \<Rightarrow> io \<Rightarrow> path \<Rightarrow> string \<Rightarrow> disk \<Rightarrow> disk \<times> (anyhow + unit)" where
  "remove_service_entry ED os p name w =
     (if \<not> path_exists w p then (w, Inl (Err (''Configuration file '' @ display_path p @ '' does not exist'')))
      else
        (case load_document ED os w p of
           Inl e \<Rightarrow> (w, Inl e)
         | Inr doc \<Rightarrow>
             (case (remove_from (ed_toml ED) name doc Side_Client, remove_from (ed_toml ED) name doc Side_Server) of
                (Some doc', _) \<Rightarrow> save_document ED os p doc' w
              | (None, Some doc') \<Rightarrow> save_document ED os p doc' w
              | (None, None) \<Rightarrow>
                  (w, Inl (Err (''No service named '' @ [CHR 39] @ name @ [CHR 39] @ '' in '' @ display_path p))))))"

text \<open>
  The lines \<open>config list\<close> prints, with the secrets masked by four bullets; \<open>json_text\<close> is the
  printer of \<open>serde_json\<close>.
\<close>

definition is_sensitive_key :: "string \<Rightarrow> bool" where
  "is_sensitive_key k = (contains_str ''token'' k \<or> contains_str ''private_key'' k \<or> contains_str ''password'' k)"

definition bullets :: string where
  "bullets = concat (replicate 4 [CHR 226, CHR 128, CHR 162])"

fun is_json_string :: "json \<Rightarrow> bool" where
  "is_json_string (J_String s) = True"
| "is_json_string _ = False"

definition list_line :: "(json \<Rightarrow> string) \<Rightarrow> string \<times> json \<Rightarrow> string" where
  "list_line json_text x =
     (if is_sensitive_key (fst x) \<and> is_json_string (snd x)
      then ''  '' @ fst x @ '' = '' @ CHR 34 # bullets @ [CHR 34]
      else ''  '' @ fst x @ '' = '' @ json_text (snd x))"

definition list_lines :: "(json \<Rightarrow> string) \<Rightarrow> service_info \<Rightarrow> string list" where
  "list_lines json_text s =
     [side_key (si_side s) @ '' service '' @ [CHR 39] @ si_name s @ [CHR 39] @ '':''] @
     (case si_json s of J_Object kvs \<Rightarrow> map (list_line json_text) kvs | _ \<Rightarrow> []) @ [[]]"

definition run_list ::
  "editor \<Rightarrow> (json \<Rightarrow> string) \<Rightarrow> io \<Rightarrow> bool \<Rightarrow> path \<Rightarrow> disk \<Rightarrow> string list \<times> (anyhow + json)" where
  "run_list ED json_text os json p w =
     (case list_services ED os p w of
        Inl e \<Rightarrow> ([], Inl e)
      | Inr services \<Rightarrow>
          (if json then []
           else if services = [] then [''No services defined in '' @ display_path p]
           else concat (map (list_lines json_text) services),
           Inr (J_Object [(''services'', J_Array (map (\<lambda>s. J_Object
             [(''name'', J_String (si_name s)), (''side'', J_String (side_key (si_side s))),
              (''service'', si_json s)]) services))])))"

definition run_remove :: "editor \<Rightarrow> io \<Rightarrow> string \<Rightarrow> path \<Rightarrow> disk \<Rightarrow> disk \<times> (anyhow + json)" where
  "run_remove ED os name p w =
     (case list_services ED os p w of
        Inl e \<Rightarrow> (w, Inl e)
      | Inr services \<Rightarrow>
          (let side = map_option si_side (List.find (\<lambda>s. si_name s = name) services) in
           map_prod id (\<lambda>r. rbind r (\<lambda>_. Inr (J_Object [(''removed'', J_String name),
               (''side'', case side of None \<Rightarrow> J_Null | Some s \<Rightarrow> J_String (side_key s))])))
             (remove_service_entry ED os p name w)))"

section \<open>Setting global fields\<close>

datatype transport_type_arg = Arg_Tcp | Arg_Tls | Arg_Noise | Arg_Websocket

fun transport_key :: "transport_type_arg \<Rightarrow> string" where
  "transport_key Arg_Tcp = ''tcp''"
| "transport_key Arg_Tls = ''tls''"
| "transport_key Arg_Noise = ''noise''"
| "transport_key Arg_Websocket = ''websocket''"

record set_args =
  sa_client :: bool
  sa_server :: bool
  sa_remote_addr :: "string option"
  sa_bind_addr :: "string option"
  sa_default_token :: "string option"
  sa_prefer_ipv6 :: "bool option"
  sa_heartbeat_timeout :: "u64 option"
  sa_retry_interval :: "u64 option"
  sa_heartbeat_interval :: "u64 option"
  sa_transport :: "transport_type_arg option"
  sa_noise :: bool
  sa_noise_key :: "string option"
  sa_trusted_root :: "string option"
  sa_hostname :: "string option"
  sa_pkcs12 :: "string option"
  sa_pkcs12_password :: "string option"
  sa_ws_tls :: "bool option"
  sa_nodelay :: "bool option"
  sa_keepalive_secs :: "u64 option"
  sa_keepalive_interval :: "u64 option"
  sa_proxy :: "string option"

definition set_side :: "editor \<Rightarrow> io \<Rightarrow> set_args \<Rightarrow> path \<Rightarrow> disk \<Rightarrow> anyhow + service_side" where
  "set_side ED os a p w =
     (case (sa_client a, sa_server a) of
        (True, False) \<Rightarrow> Inr Side_Client
      | (False, True) \<Rightarrow> Inr Side_Server
      | (True, True) \<Rightarrow> Inl (Err ''--client and --server are mutually exclusive'')
      | (False, False) \<Rightarrow>
          (case ok_option (load_document ED os w p) of
             None \<Rightarrow> Inl (Err ''Exactly one of --client or --server is required'')
           | Some doc \<Rightarrow>
               (case (has_section doc ''client'', has_section doc ''server'') of
                  (True, False) \<Rightarrow> Inr Side_Client
                | (False, True) \<Rightarrow> Inr Side_Server
                | (True, True) \<Rightarrow> rbind (detect_role doc) (\<lambda>_. Inl (Err ''unreachable''))
                | (False, False) \<Rightarrow> Inl (Err ''Exactly one of --client or --server is required''))))"

definition tls_requested :: "set_args \<Rightarrow> bool" where
  "tls_requested a \<longleftrightarrow> sa_trusted_root a \<noteq> None \<or> sa_hostname a \<noteq> None \<or> sa_pkcs12 a \<noteq> None \<or>
     sa_pkcs12_password a \<noteq> None"

definition tcp_requested :: "set_args \<Rightarrow> bool" where
  "tcp_requested a \<longleftrightarrow> sa_nodelay a \<noteq> None \<or> sa_keepalive_secs a \<noteq> None \<or>
     sa_keepalive_interval a \<noteq> None \<or> sa_proxy a \<noteq> None"

definition transport_requested :: "set_args \<Rightarrow> bool" where
  "transport_requested a \<longleftrightarrow> sa_transport a \<noteq> None \<or> sa_noise a \<or> sa_noise_key a \<noteq> None \<or>
     tls_requested a \<or> sa_ws_tls a \<noteq> None \<or> tcp_requested a"

definition any_field :: "set_args \<Rightarrow> bool" where
  "any_field a \<longleftrightarrow> sa_remote_addr a \<noteq> None \<or> sa_bind_addr a \<noteq> None \<or> sa_default_token a \<noteq> None \<or>
     sa_prefer_ipv6 a \<noteq> None \<or> sa_heartbeat_timeout a \<noteq> None \<or> sa_retry_interval a \<noteq> None \<or>
     sa_heartbeat_interval a \<noteq> None \<or> transport_requested a"

text \<open>The checks of the flags against the side, in the order of the code.\<close>

fun check_all :: "(bool \<times> string) list \<Rightarrow> anyhow + unit" where
  "check_all [] = Inr ()"
| "check_all ((bad, msg) # cs) = (if bad then Inl (Err msg) else check_all cs)"

fun set_side_check :: "set_args \<Rightarrow> service_side \<Rightarrow> anyhow + unit" where
  "set_side_check a Side_Client = check_all
     [(sa_bind_addr a \<noteq> None, ''--bind-addr is a [server] field''),
      (sa_heartbeat_interval a \<noteq> None, ''--heartbeat-interval is a [server] field''),
      (sa_pkcs12 a \<noteq> None \<or> sa_pkcs12_password a \<noteq> None, ''--pkcs12/--pkcs12-password are [server] fields''),
      (sa_noise a, ''--noise (keypair generation) is server-side; clients set --noise-key <SERVER_PUBLIC_KEY>'')]"
| "set_side_check a Side_Server = check_all
     [(sa_remote_addr a \<noteq> None, ''--remote-addr is a [client] field''),
      (sa_prefer_ipv6 a \<noteq> None, ''--prefer-ipv6 is a [client] field''),
      (sa_heartbeat_timeout a \<noteq> None, ''--heartbeat-timeout is a [client] field''),
      (sa_retry_interval a \<noteq> None, ''--retry-interval is a [client] field''),
      (sa_trusted_root a \<noteq> None \<or> sa_hostname a \<noteq> None, ''--trusted-root/--hostname are [client] fields''),
      (sa_noise_key a \<noteq> None, ''--noise-key is a [client] field; servers use --noise'')]"

definition set_value_check :: "editor \<Rightarrow> set_args \<Rightarrow> anyhow + unit" where
  "set_value_check ED a =
     rbind (case sa_remote_addr a of None \<Rightarrow> Inr () | Some x \<Rightarrow> validate_host_port x ''--remote-addr'') (\<lambda>_.
     rbind (case sa_bind_addr a of None \<Rightarrow> Inr () | Some x \<Rightarrow> validate_host_port x ''--bind-addr'') (\<lambda>_.
     case sa_proxy a of
       None \<Rightarrow> Inr ()
     | Some x \<Rightarrow>
         with_context (Ctx (''Invalid --proxy URL '' @ [CHR 39] @ x @ [CHR 39])) (rbind (ed_url ED x) (\<lambda>_. Inr ()))))"

text \<open>Inserting what a flag gives, and a nested table that is created when it is missing.\<close>

definition insert_opt :: "toml_edit \<Rightarrow> ('a \<Rightarrow> item) \<Rightarrow> string \<Rightarrow> 'a option \<Rightarrow> item \<Rightarrow> item" where
  "insert_opt TE f k v t = (case v of None \<Rightarrow> t | Some x \<Rightarrow> te_insert TE t k (f x))"

definition insert_u64 :: "toml_edit \<Rightarrow> string \<Rightarrow> u64 option \<Rightarrow> item \<Rightarrow> anyhow + item" where
  "insert_u64 TE k v t =
     (case v of
        None \<Rightarrow> Inr t
      | Some x \<Rightarrow>
          rbind (ok_or (Err ''out of range integral type conversion attempted'') (i64_try_from x)) (\<lambda>i.
          Inr (te_insert TE t k (int_item i))))"

definition ensure_table :: "toml_edit \<Rightarrow> item \<Rightarrow> string \<Rightarrow> path \<Rightarrow> anyhow + item \<times> item" where
  "ensure_table TE parent key p =
     (let parent' = (if item_get parent key = None then te_insert TE parent key (Item_Table []) else parent) in
      case item_get parent' key of
        Some t \<Rightarrow> if is_table t then Inr (parent', t)
                  else Inl (Err (''['' @ key @ ''] is not a table in '' @ display_path p))
      | None \<Rightarrow> Inl (Err (''['' @ key @ ''] is not a table in '' @ display_path p)))"

definition in_table :: "toml_edit \<Rightarrow> item \<Rightarrow> string \<Rightarrow> path \<Rightarrow> (item \<Rightarrow> anyhow + item) \<Rightarrow> anyhow + item" where
  "in_table TE parent key p f =
     rbind (ensure_table TE parent key p) (\<lambda>(parent', t).
     rbind (f t) (\<lambda>t'. Inr (put_item key t' parent')))"

definition set_scalars :: "toml_edit \<Rightarrow> set_args \<Rightarrow> item \<Rightarrow> anyhow + item" where
  "set_scalars TE a section =
     (let s1 = insert_opt TE str_item ''remote_addr'' (sa_remote_addr a) section;
          s2 = insert_opt TE str_item ''bind_addr'' (sa_bind_addr a) s1;
          s3 = insert_opt TE str_item ''default_token'' (sa_default_token a) s2;
          s4 = insert_opt TE bool_item ''prefer_ipv6'' (sa_prefer_ipv6 a) s3 in
      rbind (insert_u64 TE ''heartbeat_timeout'' (sa_heartbeat_timeout a) s4) (\<lambda>s5.
      rbind (insert_u64 TE ''retry_interval'' (sa_retry_interval a) s5) (\<lambda>s6.
      insert_u64 TE ''heartbeat_interval'' (sa_heartbeat_interval a) s6)))"

definition implied_type :: "set_args \<Rightarrow> transport_type_arg option" where
  "implied_type a =
     (if sa_noise a \<or> sa_noise_key a \<noteq> None then Some Arg_Noise
      else if tls_requested a then Some Arg_Tls
      else if sa_ws_tls a \<noteq> None then Some Arg_Websocket
      else None)"

definition set_transport_type :: "toml_edit \<Rightarrow> set_args \<Rightarrow> item \<Rightarrow> item" where
  "set_transport_type TE a t =
     (let t1 = insert_opt TE (\<lambda>x. str_item (transport_key x)) ''type''
                 (case sa_transport a of None \<Rightarrow> implied_type a | Some x \<Rightarrow> Some x) t in
      if item_get t1 ''type'' = None then te_insert TE t1 ''type'' (str_item ''tcp'') else t1)"

definition set_transport :: "editor \<Rightarrow> set_args \<Rightarrow> path \<Rightarrow> item \<Rightarrow> anyhow + item" where
  "set_transport ED a p transport =
     (let TE = ed_toml ED in
      rbind (if sa_noise a then
               rbind (ed_keypair ED) (\<lambda>(private_key, _).
               in_table TE (set_transport_type TE a transport) ''noise'' p (\<lambda>noise.
               Inr (te_insert TE noise ''local_private_key'' (str_item private_key))))
             else Inr (set_transport_type TE a transport)) (\<lambda>t1.
      rbind (case sa_noise_key a of
               None \<Rightarrow> Inr t1
             | Some pub_key \<Rightarrow> in_table TE t1 ''noise'' p (\<lambda>noise.
                 Inr (te_insert TE noise ''remote_public_key'' (str_item pub_key)))) (\<lambda>t2.
      rbind (if tls_requested a then
               in_table TE t2 ''tls'' p (\<lambda>tls. Inr
                 (insert_opt TE str_item ''pkcs12_password'' (sa_pkcs12_password a)
                 (insert_opt TE str_item ''pkcs12'' (sa_pkcs12 a)
                 (insert_opt TE str_item ''hostname'' (sa_hostname a)
                 (insert_opt TE str_item ''trusted_root'' (sa_trusted_root a) tls)))))
             else Inr t2) (\<lambda>t3.
      rbind (case sa_ws_tls a of
               None \<Rightarrow> Inr t3
             | Some b \<Rightarrow> in_table TE t3 ''websocket'' p (\<lambda>ws. Inr (te_insert TE ws ''tls'' (bool_item b)))) (\<lambda>t4.
      if tcp_requested a then
        in_table TE t4 ''tcp'' p (\<lambda>tcp.
          rbind (insert_u64 TE ''keepalive_secs'' (sa_keepalive_secs a)
                  (insert_opt TE bool_item ''nodelay'' (sa_nodelay a) tcp)) (\<lambda>c1.
          rbind (insert_u64 TE ''keepalive_interval'' (sa_keepalive_interval a) c1) (\<lambda>c2.
          Inr (insert_opt TE str_item ''proxy'' (sa_proxy a) c2))))
      else Inr t4)))))"

definition new_set_section :: "toml_edit \<Rightarrow> set_args \<Rightarrow> service_side \<Rightarrow> anyhow + item" where
  "new_set_section TE a side =
     rbind (case side of
              Side_Client \<Rightarrow>
                rbind (ok_or (Err ''creating a new [client] section requires --remote-addr'') (sa_remote_addr a))
                  (\<lambda>x. Inr (te_insert TE (Item_Table []) ''remote_addr'' (str_item x)))
            | Side_Server \<Rightarrow>
                rbind (ok_or (Err ''creating a new [server] section requires --bind-addr'') (sa_bind_addr a))
                  (\<lambda>x. Inr (te_insert TE (Item_Table []) ''bind_addr'' (str_item x)))) (\<lambda>section.
     Inr (te_insert TE section ''services'' (Item_Table [])))"

definition not_a_table :: "string \<Rightarrow> path \<Rightarrow> anyhow" where
  "not_a_table key p = Err (''['' @ key @ ''] is not a table in '' @ display_path p)"

text \<open>The document that \<open>config set\<close> makes of a document.\<close>

definition set_document :: "editor \<Rightarrow> set_args \<Rightarrow> service_side \<Rightarrow> path \<Rightarrow> item \<Rightarrow> anyhow + item" where
  "set_document ED a side p doc =
     (let TE = ed_toml ED; key = side_key side in
      rbind (ensure_role_allows doc side) (\<lambda>_.
      rbind (if has_section doc key then Inr doc
             else rbind (new_set_section TE a side) (\<lambda>section. Inr (te_insert TE doc key section))) (\<lambda>doc1.
      rbind (ok_or (not_a_table key p)
              (Option.bind (item_get doc1 key) (\<lambda>s. if table_like s then Some s else None))) (\<lambda>section.
      rbind (set_scalars TE a section) (\<lambda>s1.
      rbind (if transport_requested a then in_table TE s1 ''transport'' p (set_transport ED a p) else Inr s1) (\<lambda>s2.
      Inr (put_item key s2 doc1)))))))"

definition open_document :: "editor \<Rightarrow> io \<Rightarrow> path \<Rightarrow> disk \<Rightarrow> anyhow + bool \<times> item" where
  "open_document ED os p w =
     rbind (ensure_config_skeleton os w p) (\<lambda>created.
     rbind (if created then Inr (Item_Table []) else load_document ED os w p) (\<lambda>doc.
     Inr (created, doc)))"

definition set_changes :: "editor \<Rightarrow> io \<Rightarrow> set_args \<Rightarrow> path \<Rightarrow> disk \<Rightarrow> anyhow + service_side \<times> bool \<times> item" where
  "set_changes ED os a p w =
     rbind (set_side ED os a p w) (\<lambda>side.
     rbind (require (any_field a) (Err ''No fields given; see `rathole-x config set --help`'')) (\<lambda>_.
     rbind (set_side_check a side) (\<lambda>_.
     rbind (set_value_check ED a) (\<lambda>_.
     rbind (open_document ED os p w) (\<lambda>(created, doc).
     rbind (set_document ED a side p doc) (\<lambda>doc'.
     rbind (with_context (Ctx (''Refusing to save an invalid configuration to '' @ display_path p))
              (config_validate (ed_config ED) (te_to_string (ed_toml ED) doc'))) (\<lambda>_.
     Inr (side, created, doc'))))))))"

definition set_result :: "editor \<Rightarrow> set_args \<Rightarrow> service_side \<Rightarrow> bool \<Rightarrow> item \<Rightarrow> json" where
  "set_result ED a side created doc = J_Object
     [(''side'', J_String (side_key side)),
      (''section'', case item_get doc (side_key side) of None \<Rightarrow> J_Null | Some s \<Rightarrow> item_to_json s),
      (''generated'', J_Object
        (if sa_noise a then
           (case ed_keypair ED of
              Inr (private_key, public_key) \<Rightarrow>
                [(''noise_private_key'', J_String private_key), (''noise_public_key'', J_String public_key)]
            | Inl _ \<Rightarrow> [])
         else [])),
      (''created'', J_Bool created)]"

definition run_set :: "editor \<Rightarrow> io \<Rightarrow> set_args \<Rightarrow> path \<Rightarrow> disk \<Rightarrow> disk \<times> (anyhow + json)" where
  "run_set ED os a p w =
     (case set_changes ED os a p w of
        Inl e \<Rightarrow> (w, Inl e)
      | Inr (side, created, doc) \<Rightarrow>
          map_prod id (\<lambda>r. rbind r (\<lambda>_. Inr (set_result ED a side created doc)))
            (write_config os p (document_text ED doc created) w))"


section \<open>What \<open>config set\<close> assigns\<close>

definition scalar_assignments :: "set_args \<Rightarrow> assignments" where
  "scalar_assignments a =
     opt_assign ''heartbeat_interval'' (V_Integer \<circ> uint) (sa_heartbeat_interval a) @
     opt_assign ''retry_interval'' (V_Integer \<circ> uint) (sa_retry_interval a) @
     opt_assign ''heartbeat_timeout'' (V_Integer \<circ> uint) (sa_heartbeat_timeout a) @
     opt_assign ''prefer_ipv6'' V_Boolean (sa_prefer_ipv6 a) @
     opt_assign ''default_token'' V_String (sa_default_token a) @
     opt_assign ''bind_addr'' V_String (sa_bind_addr a) @
     opt_assign ''remote_addr'' V_String (sa_remote_addr a)"

definition type_assignments :: "set_args \<Rightarrow> item \<Rightarrow> assignments" where
  "type_assignments a t =
     (case (case sa_transport a of None \<Rightarrow> implied_type a | Some x \<Rightarrow> Some x) of
        Some x \<Rightarrow> [([''type''], V_String (transport_key x))]
      | None \<Rightarrow> if item_get t ''type'' = None then [([''type''], V_String ''tcp'')] else [])"

definition key_assignments :: "editor \<Rightarrow> set_args \<Rightarrow> assignments" where
  "key_assignments ED a =
     (if sa_noise a then
        (case ed_keypair ED of Inr (private_key, _) \<Rightarrow> [([''local_private_key''], V_String private_key)] | Inl _ \<Rightarrow> [])
      else [])"

definition transport_assignments :: "editor \<Rightarrow> set_args \<Rightarrow> item \<Rightarrow> assignments" where
  "transport_assignments ED a t =
     below ''tcp'' (opt_assign ''proxy'' V_String (sa_proxy a) @
       opt_assign ''keepalive_interval'' (V_Integer \<circ> uint) (sa_keepalive_interval a) @
       opt_assign ''keepalive_secs'' (V_Integer \<circ> uint) (sa_keepalive_secs a) @
       opt_assign ''nodelay'' V_Boolean (sa_nodelay a)) @
     below ''websocket'' (opt_assign ''tls'' V_Boolean (sa_ws_tls a)) @
     below ''tls'' (opt_assign ''pkcs12_password'' V_String (sa_pkcs12_password a) @
       opt_assign ''pkcs12'' V_String (sa_pkcs12 a) @ opt_assign ''hostname'' V_String (sa_hostname a) @
       opt_assign ''trusted_root'' V_String (sa_trusted_root a)) @
     below ''noise'' (opt_assign ''remote_public_key'' V_String (sa_noise_key a)) @
     below ''noise'' (key_assignments ED a) @ type_assignments a t"

definition set_assignments :: "editor \<Rightarrow> set_args \<Rightarrow> item \<Rightarrow> assignments" where
  "set_assignments ED a section =
     (if transport_requested a
      then below ''transport'' (transport_assignments ED a (child_table section ''transport'')) else []) @
     scalar_assignments a"

lemma bind_table_like:
  assumes "Option.bind x (\<lambda>s. if table_like s then Some s else None) = Some s"
  shows "x = Some s" "table_like s"
  using assms by (cases x; simp split: if_splits)+

lemma set_changes_Inr:
  assumes "set_changes ED os a p w = Inr (side, created, doc')"
  shows "\<exists>doc. open_document ED os p w = Inr (created, doc) \<and> set_document ED a side p doc = Inr doc' \<and>
    valid_text ED (te_to_string (ed_toml ED) doc')"
  using assms unfolding set_changes_def valid_text_def
  by (clarsimp simp: result_simps is_ok_iff simp del: append.simps)

lemma i64_try_from_Some:
  assumes "i64_try_from x = Some i"
  shows "i = uint x" "- (2 ^ 63) \<le> i" "i < 2 ^ 63"
proof -
  have x: "unat x < 2 ^ 63" "i = uint x" using assms by (simp_all add: i64_try_from_def split: if_splits)
  have "uint x = int (unat x)" by simp
  moreover have "int (unat x) < int (2 ^ 63)" using x(1) by (simp only: of_nat_less_iff)
  moreover have "int (2 ^ 63) = 2 ^ 63" by simp
  ultimately show "i = uint x" "- (2 ^ 63) \<le> i" "i < 2 ^ 63" using x(2) by linarith+
qed

lemma ensure_table_Inr:
  assumes "ensure_table TE parent key p = Inr (parent', t)"
  shows "parent' = (if item_get parent key = None then te_insert TE parent key (Item_Table []) else parent)"
    "item_get parent' key = Some t" "is_table t"
proof -
  let ?q = "if item_get parent key = None then te_insert TE parent key (Item_Table []) else parent"
  obtain u where u: "item_get ?q key = Some u"
    using assms by (cases "item_get ?q key") (simp_all add: ensure_table_def Let_def)
  then have e: "?q = parent' \<and> u = t \<and> is_table u"
    using assms unfolding ensure_table_def Let_def by (cases "is_table u") simp_all
  then show "parent' = ?q" "is_table t" by blast+
  show "item_get parent' key = Some t" using e u by blast
qed

context toml_edit_laws
begin

lemma edited_insert_opt:
  assumes "table_like t" "\<And>x t. table_like t \<Longrightarrow> edited t (te_insert TE t k (f x)) [([k], g x)]"
  shows "edited t (insert_opt TE f k v t) (opt_assign k g v)"
  using assms by (cases v) (simp_all add: insert_opt_def opt_assign_def)

lemma edited_insert_opt_str: "table_like t \<Longrightarrow> edited t (insert_opt TE str_item k v t) (opt_assign k V_String v)"
  by (rule edited_insert_opt) (auto intro: edited_insert_str)

lemma edited_insert_opt_bool: "table_like t \<Longrightarrow> edited t (insert_opt TE bool_item k v t) (opt_assign k V_Boolean v)"
  by (rule edited_insert_opt) (auto intro: edited_insert_bool)

lemma edited_insert_u64:
  assumes "insert_u64 TE k v t = Inr t'" "table_like t"
  shows "edited t t' (opt_assign k (V_Integer \<circ> uint) v)"
proof (cases v)
  case (Some x)
  obtain i where i: "i64_try_from x = Some i" "t' = te_insert TE t k (int_item i)"
    using assms(1) Some by (auto simp: insert_u64_def result_simps)
  note r = i64_try_from_Some [OF i(1)]
  show ?thesis
    using edited_insert_int [OF assms(2) r(2,3), of k] by (simp add: i(2) opt_assign_def Some r(1))
qed (use assms in \<open>simp add: insert_u64_def opt_assign_def\<close>)

lemma in_table_edited:
  assumes "in_table TE parent key p f = Inr parent'" "table_like parent"
    and "\<And>t t'. is_table t \<Longrightarrow> f t = Inr t' \<Longrightarrow> edited t t' (A t)"
  shows "edited parent parent' (below key (A (child_table parent key)))"
proof -
  obtain parent1 t t' where e: "ensure_table TE parent key p = Inr (parent1, t)" "f t = Inr t'"
    "parent' = put_item key t' parent1"
    using assms(1) by (auto simp: in_table_def result_simps)
  note t = ensure_table_Inr [OF e(1)]
  have p1: "edited parent parent1 [] \<and> t = child_table parent key"
  proof (cases "item_get parent key")
    case None
    then have p: "parent1 = te_insert TE parent key (Item_Table [])" using t(1) by simp
    obtain v' where v': "stored parent (Item_Table []) v'" "item_get parent1 key = Some v'"
      using insert_cases [OF assms(2), of "Item_Table []" key] unfolding p by metis
    then have "t = Item_Table []" using t(2,3) by (auto simp: stored_def split: if_splits)
    then show ?thesis using edited_insert_empty [OF assms(2) None] by (simp add: p child_table_def None)
  next
    case (Some x)
    then show ?thesis using t assms(2) by (simp add: child_table_def)
  qed
  have "edited parent1 parent' (below key (A t))"
    unfolding e(3) using editedD(1) [of parent parent1] p1 t(2,3) assms(3) [OF t(3) e(2)]
    by (intro edited_put) auto
  then show ?thesis using edited_trans [of parent parent1 "[]"] p1 by simp
qed

lemma set_scalars_edited:
  assumes "set_scalars TE a s = Inr s'" "table_like s"
  shows "edited s s' (scalar_assignments a)"
proof -
  let ?s1 = "insert_opt TE str_item ''remote_addr'' (sa_remote_addr a) s"
  let ?s2 = "insert_opt TE str_item ''bind_addr'' (sa_bind_addr a) ?s1"
  let ?s3 = "insert_opt TE str_item ''default_token'' (sa_default_token a) ?s2"
  let ?s4 = "insert_opt TE bool_item ''prefer_ipv6'' (sa_prefer_ipv6 a) ?s3"
  obtain s5 s6 where s: "insert_u64 TE ''heartbeat_timeout'' (sa_heartbeat_timeout a) ?s4 = Inr s5"
    "insert_u64 TE ''retry_interval'' (sa_retry_interval a) s5 = Inr s6"
    "insert_u64 TE ''heartbeat_interval'' (sa_heartbeat_interval a) s6 = Inr s'"
    using assms(1) by (auto simp: set_scalars_def Let_def result_simps)
  note e1 = edited_insert_opt_str [OF assms(2), of "''remote_addr''" "sa_remote_addr a"]
  note e2 = edited_trans [OF e1 edited_insert_opt_str [OF editedD(1) [OF e1]]]
  note e3 = edited_trans [OF e2 edited_insert_opt_str [OF editedD(1) [OF e2]]]
  note e4 = edited_trans [OF e3 edited_insert_opt_bool [OF editedD(1) [OF e3]]]
  note e5 = edited_trans [OF e4 edited_insert_u64 [OF s(1) editedD(1) [OF e4]]]
  note e6 = edited_trans [OF e5 edited_insert_u64 [OF s(2) editedD(1) [OF e5]]]
  note e7 = edited_trans [OF e6 edited_insert_u64 [OF s(3) editedD(1) [OF e6]]]
  from e7 show ?thesis by (simp add: scalar_assignments_def)
qed

lemma set_transport_type_edited:
  assumes "table_like t"
  shows "edited t (set_transport_type TE a t) (type_assignments a t)"
proof (cases "case sa_transport a of None \<Rightarrow> implied_type a | Some x \<Rightarrow> Some x")
  case None
  then show ?thesis using assms edited_insert_str [OF assms, of "''type''" "''tcp''"]
    by (simp add: set_transport_type_def type_assignments_def insert_opt_def Let_def)
next
  case (Some x)
  have "item_get (te_insert TE t ''type'' (str_item (transport_key x))) ''type'' \<noteq> None"
    using get_insert_storable [OF assms, of "str_item (transport_key x)" "''type''"] by (simp add: str_item_def)
  then show ?thesis using edited_insert_str [OF assms, of "''type''" "transport_key x"] Some
    by (auto simp: set_transport_type_def type_assignments_def insert_opt_def Let_def)
qed

text \<open>A step of \<open>set_transport\<close> that may or may not go into a nested table.\<close>

lemma in_table_step:
  assumes "(if c then in_table TE t k p f else Inr t) = Inr t'" "table_like t" "\<not> c \<Longrightarrow> A = []"
    and "\<And>x x'. is_table x \<Longrightarrow> f x = Inr x' \<Longrightarrow> edited x x' A"
  shows "edited t t' (below k A)"
proof (cases c)
  case True
  then show ?thesis using in_table_edited [of t k p f t' "\<lambda>_. A"] assms by simp
qed (use assms in simp)

lemma in_table_insert:
  assumes "in_table TE t k p (\<lambda>x. Inr (te_insert TE x k' i)) = Inr t'" "table_like t"
    and "\<And>x. table_like x \<Longrightarrow> edited x (te_insert TE x k' i) A"
  shows "edited t t' (below k A)"
proof (rule in_table_step [where c = True])
  show "(if True then in_table TE t k p (\<lambda>x. Inr (te_insert TE x k' i)) else Inr t) = Inr t'" by (simp add: assms(1))
  fix x x'
  assume "is_table x" "Inr (te_insert TE x k' i) = Inr x'"
  then show "edited x x' A" using assms(3) [OF is_table_like] by blast
qed (use assms(2) in simp_all)

lemma tls_edited:
  assumes "table_like x"
  shows "edited x (insert_opt TE str_item ''pkcs12_password'' (sa_pkcs12_password a)
      (insert_opt TE str_item ''pkcs12'' (sa_pkcs12 a) (insert_opt TE str_item ''hostname'' (sa_hostname a)
      (insert_opt TE str_item ''trusted_root'' (sa_trusted_root a) x))))
    (opt_assign ''pkcs12_password'' V_String (sa_pkcs12_password a) @
     opt_assign ''pkcs12'' V_String (sa_pkcs12 a) @ opt_assign ''hostname'' V_String (sa_hostname a) @
     opt_assign ''trusted_root'' V_String (sa_trusted_root a))"
proof -
  note e1 = edited_insert_opt_str [OF assms, of "''trusted_root''" "sa_trusted_root a"]
  note e2 = edited_trans [OF e1 edited_insert_opt_str [OF editedD(1) [OF e1]]]
  note e3 = edited_trans [OF e2 edited_insert_opt_str [OF editedD(1) [OF e2]]]
  show ?thesis using edited_trans [OF e3 edited_insert_opt_str [OF editedD(1) [OF e3]]] by simp
qed

lemma tcp_edited:
  assumes "rbind (insert_u64 TE ''keepalive_secs'' (sa_keepalive_secs a)
                  (insert_opt TE bool_item ''nodelay'' (sa_nodelay a) x)) (\<lambda>c1.
          rbind (insert_u64 TE ''keepalive_interval'' (sa_keepalive_interval a) c1) (\<lambda>c2.
          Inr (insert_opt TE str_item ''proxy'' (sa_proxy a) c2))) = Inr x'" "table_like x"
  shows "edited x x' (opt_assign ''proxy'' V_String (sa_proxy a) @
       opt_assign ''keepalive_interval'' (V_Integer \<circ> uint) (sa_keepalive_interval a) @
       opt_assign ''keepalive_secs'' (V_Integer \<circ> uint) (sa_keepalive_secs a) @
       opt_assign ''nodelay'' V_Boolean (sa_nodelay a))"
proof -
  obtain c1 c2 where c: "insert_u64 TE ''keepalive_secs'' (sa_keepalive_secs a)
      (insert_opt TE bool_item ''nodelay'' (sa_nodelay a) x) = Inr c1"
    "insert_u64 TE ''keepalive_interval'' (sa_keepalive_interval a) c1 = Inr c2"
    "x' = insert_opt TE str_item ''proxy'' (sa_proxy a) c2"
    using assms(1) by (auto simp: result_simps)
  note e1 = edited_insert_opt_bool [OF assms(2), of "''nodelay''" "sa_nodelay a"]
  note e2 = edited_trans [OF e1 edited_insert_u64 [OF c(1) editedD(1) [OF e1]]]
  note e3 = edited_trans [OF e2 edited_insert_u64 [OF c(2) editedD(1) [OF e2]]]
  show ?thesis using edited_trans [OF e3 edited_insert_opt_str [OF editedD(1) [OF e3]]] by (simp add: c(3))
qed

lemma set_transport_edited:
  assumes "set_transport ED a p t = Inr t'" "ed_toml ED = TE" "table_like t"
  shows "edited t t' (transport_assignments ED a t)"
proof -
  obtain t1 t2 t3 t4 where
    s1: "(if sa_noise a then rbind (ed_keypair ED) (\<lambda>(private_key, _).
            in_table TE (set_transport_type TE a t) ''noise'' p (\<lambda>noise.
              Inr (te_insert TE noise ''local_private_key'' (str_item private_key))))
          else Inr (set_transport_type TE a t)) = Inr t1"
    and s2: "(case sa_noise_key a of None \<Rightarrow> Inr t1 | Some k \<Rightarrow> in_table TE t1 ''noise'' p (\<lambda>noise.
            Inr (te_insert TE noise ''remote_public_key'' (str_item k)))) = Inr t2"
    and s3: "(if tls_requested a then in_table TE t2 ''tls'' p (\<lambda>tls. Inr
              (insert_opt TE str_item ''pkcs12_password'' (sa_pkcs12_password a)
              (insert_opt TE str_item ''pkcs12'' (sa_pkcs12 a) (insert_opt TE str_item ''hostname'' (sa_hostname a)
              (insert_opt TE str_item ''trusted_root'' (sa_trusted_root a) tls))))) else Inr t2) = Inr t3"
    and s4: "(case sa_ws_tls a of None \<Rightarrow> Inr t3 | Some b \<Rightarrow> in_table TE t3 ''websocket'' p
            (\<lambda>ws. Inr (te_insert TE ws ''tls'' (bool_item b)))) = Inr t4"
    and s5: "(if tcp_requested a then in_table TE t4 ''tcp'' p (\<lambda>tcp.
            rbind (insert_u64 TE ''keepalive_secs'' (sa_keepalive_secs a)
                  (insert_opt TE bool_item ''nodelay'' (sa_nodelay a) tcp)) (\<lambda>c1.
            rbind (insert_u64 TE ''keepalive_interval'' (sa_keepalive_interval a) c1) (\<lambda>c2.
            Inr (insert_opt TE str_item ''proxy'' (sa_proxy a) c2)))) else Inr t4) = Inr t'"
    using assms(1) unfolding set_transport_def assms(2) Let_def by (auto simp only: rbind_eq_Inr_iff)
  note e0 = set_transport_type_edited [OF assms(3), of a]
  have e1: "edited (set_transport_type TE a t) t1 (below ''noise'' (key_assignments ED a))"
  proof (cases "sa_noise a")
    case True
    then obtain priv pub where k: "ed_keypair ED = Inr (priv, pub)"
      "in_table TE (set_transport_type TE a t) ''noise'' p (\<lambda>noise.
         Inr (te_insert TE noise ''local_private_key'' (str_item priv))) = Inr t1"
      using s1 by (auto simp: result_simps)
    have "edited (set_transport_type TE a t) t1 (below ''noise'' [([''local_private_key''], V_String priv)])"
      by (rule in_table_insert [OF k(2) editedD(1) [OF e0] edited_insert_str])
    then show ?thesis by (simp add: key_assignments_def True k(1))
  qed (use s1 editedD(1) [OF e0] in \<open>simp add: key_assignments_def\<close>)
  note e1' = edited_trans [OF e0 e1]
  have e2: "edited t1 t2 (below ''noise'' (opt_assign ''remote_public_key'' V_String (sa_noise_key a)))"
    using s2 in_table_insert [OF _ editedD(1) [OF e1'] edited_insert_str] editedD(1) [OF e1]
    by (cases "sa_noise_key a") (auto simp: opt_assign_def)
  note e2' = edited_trans [OF e1' e2]
  have e3: "edited t2 t3 (below ''tls'' (opt_assign ''pkcs12_password'' V_String (sa_pkcs12_password a) @
       opt_assign ''pkcs12'' V_String (sa_pkcs12 a) @ opt_assign ''hostname'' V_String (sa_hostname a) @
       opt_assign ''trusted_root'' V_String (sa_trusted_root a)))"
  proof (rule in_table_step [OF s3 editedD(1) [OF e2']])
    show "\<not> tls_requested a \<Longrightarrow> opt_assign ''pkcs12_password'' V_String (sa_pkcs12_password a) @
       opt_assign ''pkcs12'' V_String (sa_pkcs12 a) @ opt_assign ''hostname'' V_String (sa_hostname a) @
       opt_assign ''trusted_root'' V_String (sa_trusted_root a) = []"
      by (simp add: tls_requested_def opt_assign_def)
  qed (use tls_edited [OF is_table_like] in blast)
  note e3' = edited_trans [OF e2' e3]
  have e4: "edited t3 t4 (below ''websocket'' (opt_assign ''tls'' V_Boolean (sa_ws_tls a)))"
    using s4 in_table_insert [OF _ editedD(1) [OF e3'] edited_insert_bool] editedD(1) [OF e3']
    by (cases "sa_ws_tls a") (auto simp: opt_assign_def)
  note e4' = edited_trans [OF e3' e4]
  have e5: "edited t4 t' (below ''tcp'' (opt_assign ''proxy'' V_String (sa_proxy a) @
       opt_assign ''keepalive_interval'' (V_Integer \<circ> uint) (sa_keepalive_interval a) @
       opt_assign ''keepalive_secs'' (V_Integer \<circ> uint) (sa_keepalive_secs a) @
       opt_assign ''nodelay'' V_Boolean (sa_nodelay a)))"
  proof (rule in_table_step [OF s5 editedD(1) [OF e4']])
    show "\<not> tcp_requested a \<Longrightarrow> opt_assign ''proxy'' V_String (sa_proxy a) @
       opt_assign ''keepalive_interval'' (V_Integer \<circ> uint) (sa_keepalive_interval a) @
       opt_assign ''keepalive_secs'' (V_Integer \<circ> uint) (sa_keepalive_secs a) @
       opt_assign ''nodelay'' V_Boolean (sa_nodelay a) = []"
      by (simp add: tcp_requested_def opt_assign_def)
  qed (rule tcp_edited, assumption, simp)
  show ?thesis using edited_trans [OF e4' e5] by (simp add: transport_assignments_def)
qed

lemma child_table_insert_other:
  "table_like t \<Longrightarrow> k' \<noteq> k \<Longrightarrow> child_table (te_insert TE t k x) k' = child_table t k'"
  by (simp add: child_table_def get_insert_other)

lemma insert_opt_get: "table_like t \<Longrightarrow> k' \<noteq> k \<Longrightarrow> item_get (insert_opt TE f k v t) k' = item_get t k'"
  by (cases v) (simp_all add: insert_opt_def get_insert_other)

lemma insert_opt_like: "table_like t \<Longrightarrow> table_like (insert_opt TE f k v t)"
  using insert_table_like by (cases v) (auto simp: insert_opt_def)

lemma insert_u64_get:
  "insert_u64 TE k v t = Inr t' \<Longrightarrow> table_like t \<Longrightarrow> k' \<noteq> k \<Longrightarrow> item_get t' k' = item_get t k'"
  by (cases v) (auto simp: insert_u64_def result_simps get_insert_other)

lemma set_scalars_transport:
  assumes "set_scalars TE a s = Inr s'" "table_like s"
  shows "item_get s' ''transport'' = item_get s ''transport''"
proof -
  let ?s1 = "insert_opt TE str_item ''remote_addr'' (sa_remote_addr a) s"
  let ?s2 = "insert_opt TE str_item ''bind_addr'' (sa_bind_addr a) ?s1"
  let ?s3 = "insert_opt TE str_item ''default_token'' (sa_default_token a) ?s2"
  let ?s4 = "insert_opt TE bool_item ''prefer_ipv6'' (sa_prefer_ipv6 a) ?s3"
  obtain s5 s6 where s: "insert_u64 TE ''heartbeat_timeout'' (sa_heartbeat_timeout a) ?s4 = Inr s5"
    "insert_u64 TE ''retry_interval'' (sa_retry_interval a) s5 = Inr s6"
    "insert_u64 TE ''heartbeat_interval'' (sa_heartbeat_interval a) s6 = Inr s'"
    using assms(1) by (auto simp: set_scalars_def Let_def result_simps)
  have t4: "table_like ?s4" by (intro insert_opt_like assms(2))
  note t5 = editedD(1) [OF edited_insert_u64 [OF s(1) t4]]
  note t6 = editedD(1) [OF edited_insert_u64 [OF s(2) t5]]
  have "item_get s' ''transport'' = item_get ?s4 ''transport''"
    using insert_u64_get [OF s(3) t6] insert_u64_get [OF s(2) t5] insert_u64_get [OF s(1) t4] by simp
  also have "\<dots> = item_get s ''transport''"
    using assms(2) by (simp add: insert_opt_get insert_opt_like)
  finally show ?thesis .
qed

lemma section_edited:
  assumes "set_scalars TE a s = Inr s1" "ed_toml ED = TE" "table_like s"
    and "(if transport_requested a then in_table TE s1 ''transport'' p (set_transport ED a p) else Inr s1) = Inr s2"
  shows "edited s s2 (set_assignments ED a s)"
proof -
  note e1 = set_scalars_edited [OF assms(1,3)]
  have c: "child_table s1 ''transport'' = child_table s ''transport''"
    by (simp add: child_table_def set_scalars_transport [OF assms(1,3)])
  show ?thesis
  proof (cases "transport_requested a")
    case True
    have "edited s1 s2 (below ''transport'' (transport_assignments ED a (child_table s1 ''transport'')))"
    proof (rule in_table_edited [OF _ editedD(1) [OF e1]])
      show "in_table TE s1 ''transport'' p (set_transport ED a p) = Inr s2" using assms(4) True by simp
      show "edited t t' (transport_assignments ED a t)"
        if "is_table t" "set_transport ED a p t = Inr t'" for t t'
        by (rule set_transport_edited [OF that(2) assms(2) is_table_like [OF that(1)]])
    qed
    then show ?thesis using edited_trans [OF e1] True by (simp add: set_assignments_def c)
  qed (use e1 assms(4) in \<open>simp add: set_assignments_def\<close>)
qed

lemma new_set_section_edited:
  assumes "new_set_section TE a side = Inr s"
  shows "\<exists>A. edited (Item_Table []) s A \<and> set A \<subseteq> set (scalar_assignments a)" "item_get s ''transport'' = None"
    "is_table s"
proof -
  have t: "table_like (Item_Table [])" "is_table (Item_Table [])" by simp_all
  obtain k x where x: "s = te_insert TE (te_insert TE (Item_Table []) k (str_item x)) ''services'' (Item_Table [])"
    "k = ''remote_addr'' \<and> sa_remote_addr a = Some x \<or> k = ''bind_addr'' \<and> sa_bind_addr a = Some x"
    using assms by (cases side) (auto simp: new_set_section_def result_simps)
  let ?s1 = "te_insert TE (Item_Table []) k (str_item x)"
  note e1 = edited_insert_str [OF t(1), of k x]
  have g: "item_get ?s1 k' = None" if "k' \<noteq> k" for k'
    using get_insert_other [OF t(1) that] by (simp add: item_get_def)
  have n: "k \<noteq> ''services''" "k \<noteq> ''transport''" using x(2) by auto
  have "edited ?s1 s []" unfolding x(1) by (rule edited_insert_empty [OF editedD(1) [OF e1] g [OF n(1) [symmetric]]])
  then have "edited (Item_Table []) s [([k], V_String x)]"
    using edited_trans [OF e1, of s "[]"] by simp
  moreover have "([k], V_String x) \<in> set (scalar_assignments a)"
    using x(2) unfolding scalar_assignments_def by (elim disjE conjE) (simp_all add: opt_assign_def)
  ultimately show "\<exists>A. edited (Item_Table []) s A \<and> set A \<subseteq> set (scalar_assignments a)" by auto
  show "item_get s ''transport'' = None"
    using get_insert_other [OF editedD(1) [OF e1]] g [OF n(2) [symmetric]] by (simp add: x(1))
  show "is_table s"
    unfolding x(1) insert_is_table [OF editedD(1) [OF e1]] insert_is_table [OF t(1)] by (rule t(2))
qed

lemma set_document_edited:
  assumes "set_document ED a side p doc = Inr doc'" "ed_toml ED = TE" "is_table doc"
  shows "edited doc doc' (below (side_key side) (set_assignments ED a (child_table doc (side_key side))))"
proof -
  let ?k = "side_key side"
  obtain doc1 s s1 s2 where d: "(if has_section doc ?k then Inr doc
       else rbind (new_set_section TE a side) (\<lambda>section. Inr (te_insert TE doc ?k section))) = Inr doc1"
    and g0: "Option.bind (item_get doc1 ?k) (\<lambda>s. if table_like s then Some s else None) = Some s"
    and s: "set_scalars TE a s = Inr s1"
      "(if transport_requested a then in_table TE s1 ''transport'' p (set_transport ED a p) else Inr s1) = Inr s2"
      "doc' = put_item ?k s2 doc1"
    using assms(1) unfolding set_document_def Let_def assms(2) rbind_eq_Inr_iff ok_or_eq_Inr_iff by blast
  have g: "item_get doc1 ?k = Some s" "table_like s" using bind_table_like [OF g0] .
  note e = section_edited [OF s(1) assms(2) g(2) s(2)]
  have e2: "edited doc1 doc' (below ?k (set_assignments ED a s))"
    unfolding s(3) by (rule edited_put [OF item_get_table_like [OF g(1)] g(1,2) e])
  show ?thesis
  proof (cases "has_section doc ?k")
    case True
    then show ?thesis using d e2 g(1) by (simp add: child_table_def)
  next
    case False
    then obtain n where n: "new_set_section TE a side = Inr n" "doc1 = te_insert TE doc ?k n"
      using d by (auto simp: result_simps)
    obtain A where A: "edited (Item_Table []) n A" "set A \<subseteq> set (scalar_assignments a)"
      using new_set_section_edited(1) [OF n(1)] by blast
    have none: "item_get doc ?k = None" using False by (simp add: has_section_def)
    note i = edited_insert_table [OF assms(3) none A(1)]
    have "s = n" using i(2) g(1) by (simp add: n(2))
    have "child_table n ''transport'' = child_table (Item_Table []) ''transport''"
      using new_set_section_edited(2) [OF n(1)] by (simp add: child_table_def item_get_def)
    then have same: "set_assignments ED a s = set_assignments ED a (child_table doc ?k)"
      using none \<open>s = n\<close> by (simp add: set_assignments_def child_table_def)
    have "set (below ?k A) \<subseteq> set (below ?k (set_assignments ED a s))"
      using A(2) by (auto simp: set_assignments_def below_def)
    then show ?thesis
      using edited_trans [OF i(1) [folded n(2)] e2] assign_redundant [of "below ?k A"]
      by (auto simp: edited_def same)
  qed
qed

lemma open_document_doc:
  assumes "open_document ED os p w = Inr (created, doc)" "ed_toml ED = TE"
  shows "is_table doc" "wf_item doc" "created = (w p = None)"
    "if created then doc = Item_Table [] else load_document ED os w p = Inr doc"
proof -
  have c: "created = (w p = None)"
    using assms(1) by (auto simp: open_document_def ensure_config_skeleton_def path_exists_def rbind_eq_Inr_iff
        split: if_splits list.splits option.splits)
  have d: "if created then doc = Item_Table [] else load_document ED os w p = Inr doc"
    using assms(1) by (auto simp: open_document_def rbind_eq_Inr_iff split: if_splits)
  show "created = (w p = None)" by (rule c)
  show "if created then doc = Item_Table [] else load_document ED os w p = Inr doc" by (rule d)
  show "is_table doc" "wf_item doc"
    using d load_document_table [OF _ assms(2)] by (auto split: if_splits)
qed

lemma run_set_leaf:
  assumes "run_set ED os a p w = (w', Inr j)" "ed_toml ED = TE" "tmp_path os p \<noteq> p" "io_read os p = None"
  shows "\<exists>side doc d. set_side ED os a p w = Inr side \<and>
    (if w p = None then doc = Item_Table [] else load_document ED os w p = Inr doc) \<and>
    load_document ED os w' p = Inr d \<and>
    leaf d = assign (below (side_key side) (set_assignments ED a (child_table doc (side_key side)))) (leaf doc)"
proof -
  obtain side created doc' where c: "set_changes ED os a p w = Inr (side, created, doc')"
    using assms(1) by (auto simp: run_set_def split: sum.splits prod.splits)
  obtain doc where o: "open_document ED os p w = Inr (created, doc)" "set_document ED a side p doc = Inr doc'"
    using set_changes_Inr [OF c] by blast
  note doc = open_document_doc [OF o(1) assms(2)]
  note e = set_document_edited [OF o(2) assms(2) doc(1)]
  obtain u where wr: "write_config os p (document_text ED doc' created) w = (w', Inr u)"
    using assms(1) c by (cases "write_config os p (document_text ED doc' created) w")
      (auto simp: run_set_def rbind_eq_Inr_iff)
  have "w' p = Some \<lparr>f_content = document_text ED doc' created, f_mode = 420\<rparr>"
    using write_config_outcome [OF assms(3), where content = "document_text ED doc' created" and w = w] wr assms(3) by auto
  moreover have "is_table doc'" "wf_item doc'" using editedD(2,3) [OF e] doc(1,2) by simp_all
  ultimately obtain d where "load_document ED os w' p = Inr d" "leaf d = leaf doc'"
    using load_saved [OF assms(2) _ _ assms(4), of doc' w' created] by blast
  moreover have "set_side ED os a p w = Inr side"
    using c by (auto simp: set_changes_def rbind_eq_Inr_iff)
  ultimately show ?thesis using doc(3,4) editedD(4) [OF e] by auto
qed

end


section \<open>What \<open>config remove\<close> removes\<close>

lemma services_of_Some:
  assumes "services_of doc side = Some t"
  obtains s where "item_get doc (side_key side) = Some s" "item_get s ''services'' = Some t" "table_like t"
proof -
  obtain s where s: "item_get doc (side_key side) = Some s"
    "Option.bind (item_get s ''services'') (\<lambda>t. if table_like t then Some t else None) = Some t"
    using assms by (cases "item_get doc (side_key side)") (simp_all add: services_of_def)
  show thesis by (rule that [OF s(1) bind_table_like [OF s(2)]])
qed

lemma remove_from_None: "remove_from TE name doc side = None \<longleftrightarrow> \<not> service_named doc side name"
proof (cases "services_of doc side")
  case (Some t)
  then obtain s where "item_get doc (side_key side) = Some s" by (rule services_of_Some)
  with Some show ?thesis by (simp add: remove_from_def service_named_def)
next
  case None
  then show ?thesis by (cases "item_get doc (side_key side)") (simp_all add: remove_from_def service_named_def)
qed

context toml_edit_laws
begin

lemma remove_from_leaf:
  assumes "remove_from TE name doc side = Some doc'" "is_table doc"
  shows "leaf doc' p = (if prefix [side_key side, ''services'', name] p then None else leaf doc p)"
    "is_table doc'" "wf_item doc \<Longrightarrow> wf_item doc'" "service_named doc side name"
proof -
  obtain t where t: "services_of doc side = Some t" "item_get t name \<noteq> None"
    using assms(1) by (auto simp: remove_from_def bind_eq_Some_conv split: if_splits)
  obtain s where s: "item_get doc (side_key side) = Some s" "item_get s ''services'' = Some t" "table_like t"
    by (rule services_of_Some [OF t(1)])
  let ?t = "te_remove TE t name" and ?s = "put_item ''services'' (te_remove TE t name) s"
  have d: "doc' = put_item (side_key side) ?s doc"
    using assms(1) s(1) t by (simp add: remove_from_def)
  note r = remove_cases [OF s(3), of name]
  have st: "storable s ?t" by (rule shape_storable [OF s(2,3) r(2,3)])
  have ss: "storable doc ?s" using assms(2) by simp
  show "leaf doc' p = (if prefix [side_key side, ''services'', name] p then None else leaf doc p)"
    using assms(2) s(1,2) item_get_table_like [OF s(2)]
    by (auto simp: d leaf_put [OF s(1) ss] leaf_put [OF s(2) st] leaf_remove [OF s(3)] split: list.splits)
  show "is_table doc'" using assms(2) by (simp add: d)
  show "wf_item doc'" if "wf_item doc"
    using that s r(4) wf_put wf_item_get unfolding d by metis
  show "service_named doc side name" using t by (auto simp: service_named_def)
qed

lemma run_remove_leaf:
  assumes "run_remove ED os name p w = (w', Inr j)" "ed_toml ED = TE" "tmp_path os p \<noteq> p"
  shows "\<exists>side doc d. load_document ED os w p = Inr doc \<and> service_named doc side name \<and>
    (service_named doc Side_Client name \<longrightarrow> side = Side_Client) \<and> load_document ED os w' p = Inr d \<and>
    (\<forall>q. leaf d q = (if prefix [side_key side, ''services'', name] q then None else leaf doc q))"
proof -
  obtain u where e: "remove_service_entry ED os p name w = (w', Inr u)"
    using assms(1) by (cases "remove_service_entry ED os p name w")
      (auto simp: run_remove_def Let_def rbind_eq_Inr_iff split: sum.splits)
  obtain doc where doc: "load_document ED os w p = Inr doc" and ex: "path_exists w p"
    using e by (auto simp: remove_service_entry_def split: if_splits sum.splits)
  note tab = load_document_table [OF doc assms(2)]
  obtain side doc' where r: "remove_from TE name doc side = Some doc'"
    "side = Side_Server \<longrightarrow> remove_from TE name doc Side_Client = None"
    and sv: "save_document ED os p doc' w = (w', Inr u)"
    using e ex doc assms(2) by (auto simp: remove_service_entry_def split: option.splits)
  have "doc \<noteq> Item_Table []" using r(1) by (auto simp: remove_from_def item_get_def)
  then have io: "io_read os p = None"
    using doc by (auto simp: load_document_def read_to_string_def split: option.splits if_splits)
  note l = remove_from_leaf [OF r(1) tab(1)]
  have "w' p = Some \<lparr>f_content = document_text ED doc' False, f_mode = 420\<rparr>"
    using write_config_outcome [OF assms(3), where content = "document_text ED doc' False" and w = w] sv assms(3)
    by (auto simp: save_document_def document_text_def)
  then obtain d where d: "load_document ED os w' p = Inr d" "leaf d = leaf doc'"
    using load_saved [OF assms(2) l(2) l(3) [OF tab(2)] io] by blast
  have "service_named doc Side_Client name \<longrightarrow> side = Side_Client"
    using r(2) by (cases side) (simp_all add: remove_from_None)
  then show ?thesis using doc l(1,4) d by auto
qed

end

section \<open>Commands that fail change nothing\<close>

lemma run_set_safe:
  assumes "tmp_path os p \<noteq> p" "ignores_comments ED"
  shows "safe_outcome os p (valid_text ED) w (run_set ED os a p w)"
proof (cases "set_changes ED os a p w")
  case (Inr r)
  obtain side created doc where r: "r = (side, created, doc)" by (cases r)
  have "valid_text ED (document_text ED doc created)"
    using set_changes_Inr [OF Inr [unfolded r]] by (simp add: valid_document_text [OF assms(2)]) blast
  then show ?thesis
    by (simp add: run_set_def Inr r safe_outcome_map write_config_safe [OF assms(1)])
qed (simp add: run_set_def)

lemma remove_service_entry_safe:
  "tmp_path os p \<noteq> p \<Longrightarrow> safe_outcome os p (\<lambda>_. True) w (remove_service_entry ED os p name w)"
  by (simp add: remove_service_entry_def save_document_def write_config_safe split: sum.split option.split prod.split)

lemma run_remove_safe:
  "tmp_path os p \<noteq> p \<Longrightarrow> safe_outcome os p (\<lambda>_. True) w (run_remove ED os name p w)"
  by (simp add: run_remove_def Let_def safe_outcome_map remove_service_entry_safe split: sum.split)

end
