(* ===== verification/Config_Add.thy ===== *)
theory Config_Add
  imports Config_Edit
begin

text \<open>
  \<open>src/config_edit.rs\<close>, the command \<open>config add\<close>: one service from flags, a batch of compact
  SPEC entries, or an interactive session. What the terminal answers is a list of answers, used
  up by the prompts; a call of \<open>unwrap\<close> on \<open>None\<close> is \<open>None\<close> of the outer option.
\<close>

section \<open>Arguments and specs\<close>

datatype service_type_arg = Type_Tcp | Type_Udp

record add_args =
  aa_entry :: "string option"
  aa_client_specs :: "string list"
  aa_server_specs :: "string list"
  aa_bind_addr :: "string option"
  aa_local_addr :: "string option"
  aa_token :: "string option"
  aa_noise :: bool
  aa_noise_key :: "string option"
  aa_service_type :: service_type_arg
  aa_json :: bool
  aa_yes :: bool

record service_spec =
  spec_name :: string
  spec_local_addr :: "string option"
  spec_bind_addr :: "string option"
  spec_token :: "string option"
  spec_udp :: bool

definition default_spec :: service_spec where
  "default_spec = \<lparr>spec_name = [], spec_local_addr = None, spec_bind_addr = None, spec_token = None,
     spec_udp = False\<rparr>"

definition quote :: "string \<Rightarrow> string" where
  "quote s = [CHR 39] @ s @ [CHR 39]"

definition parse_pair :: "service_side \<Rightarrow> string \<Rightarrow> string \<Rightarrow> service_spec \<Rightarrow> anyhow + service_spec" where
  "parse_pair side key val s =
     (if key = ''name'' then Inr (s\<lparr>spec_name := val\<rparr>)
      else if key = ''token'' then Inr (s\<lparr>spec_token := Some val\<rparr>)
      else if key = ''type'' then
        (if val = ''tcp'' then Inr s
         else if val = ''udp'' then Inr (s\<lparr>spec_udp := True\<rparr>)
         else Inl (Err (''Invalid type '' @ quote val @ '' in SPEC (tcp|udp)'')))
      else if key = ''server'' \<or> key = ''remote'' then
        Inl (Err (''the `server:` spec key is gone; set the control channel once per config '' @
          ''with `config set --client --remote-addr <host:port>`''))
      else if key = ''local'' \<and> side = Side_Client then
        rbind (validate_host_port val ''local'') (\<lambda>_. Inr (s\<lparr>spec_local_addr := Some val\<rparr>))
      else if key = ''bind'' \<and> side = Side_Server then
        rbind (validate_host_port val ''bind'') (\<lambda>_. Inr (s\<lparr>spec_bind_addr := Some val\<rparr>))
      else Inl (Err (''Unknown key '' @ quote key @ '' in '' @ side_key side @ '' SPEC'')))"

fun parse_pairs :: "service_side \<Rightarrow> string list \<Rightarrow> service_spec \<Rightarrow> anyhow + service_spec" where
  "parse_pairs side [] s = Inr s"
| "parse_pairs side (x # xs) s =
     (let pair = trim x in
      if pair = [] then parse_pairs side xs s
      else
        (case split_once CHR '':'' pair of
           None \<Rightarrow> Inl (Err (''Invalid SPEC entry '' @ quote pair @ '': expected key:value''))
         | Some (key, val) \<Rightarrow>
             rbind (parse_pair side (trim key) (trim val) s) (parse_pairs side xs)))"

definition parse_spec :: "string \<Rightarrow> service_side \<Rightarrow> anyhow + service_spec" where
  "parse_spec spec side =
     rbind (parse_pairs side (split_on CHR '';'' spec) default_spec) (\<lambda>s.
     if spec_name s = [] then
       Inl (Err (''Missing '' @ quote ''name'' @ '' in '' @ side_key side @ '' SPEC '' @ quote spec))
     else if side = Side_Client \<and> spec_local_addr s = None then
       Inl (Err (''Missing '' @ quote ''local'' @ '' in client SPEC '' @ quote spec))
     else if side = Side_Server \<and> spec_bind_addr s = None then
       Inl (Err (''Missing '' @ quote ''bind'' @ '' in server SPEC '' @ quote spec))
     else Inr s)"

section \<open>Services to be written\<close>

record pending_service =
  pe_side :: service_side
  pe_name :: string
  pe_entry :: item
  pe_generated_token :: "string option"

text \<open>\<open>generate_token\<close> is the \<open>n\<close>-th of the run.\<close>

definition spec_to_pending :: "editor \<Rightarrow> nat \<Rightarrow> service_spec \<Rightarrow> service_side \<Rightarrow> pending_service" where
  "spec_to_pending ED n spec side =
     (let TE = ed_toml ED;
          e1 = (if spec_udp spec then te_insert TE (Item_Table []) ''type'' (str_item ''udp'') else Item_Table []);
          e2 = insert_opt TE str_item ''local_addr'' (spec_local_addr spec) e1;
          e3 = insert_opt TE str_item ''bind_addr'' (spec_bind_addr spec) e2;
          generated = (if spec_token spec = None then Some (ed_token ED n) else None);
          token = (case spec_token spec of Some t \<Rightarrow> t | None \<Rightarrow> ed_token ED n) in
      \<lparr>pe_side = side, pe_name = spec_name spec, pe_entry = te_insert TE e3 ''token'' (str_item token),
       pe_generated_token = generated\<rparr>)"

definition section_not_table :: "string \<Rightarrow> anyhow" where
  "section_not_table key = Err (''['' @ key @ ''] is not a table'')"

definition insert_pending :: "toml_edit \<Rightarrow> item \<Rightarrow> pending_service \<Rightarrow> anyhow + item \<times> json" where
  "insert_pending TE doc x =
     (let key = side_key (pe_side x) in
      rbind (ok_or (section_not_table key)
              (Option.bind (item_get doc key) (\<lambda>s. if table_like s then Some s else None))) (\<lambda>section.
      rbind (ok_or (section_not_table (key @ ''.services''))
              (Option.bind (item_get section ''services'') (\<lambda>t. if table_like t then Some t else None))) (\<lambda>services.
      let services' = te_insert TE services (pe_name x) (pe_entry x) in
      Inr (put_item key (put_item ''services'' services' section) doc,
           J_Object [(''name'', J_String (pe_name x)), (''side'', J_String key),
             (''service'', case item_get services' (pe_name x) of None \<Rightarrow> J_Null | Some i \<Rightarrow> item_to_json i),
             (''generated'', J_Object (case pe_generated_token x of None \<Rightarrow> []
                | Some t \<Rightarrow> [(''token'', J_String t)]))]))))"

fun insert_all :: "toml_edit \<Rightarrow> item \<Rightarrow> pending_service list \<Rightarrow> anyhow + item \<times> json list" where
  "insert_all TE doc [] = Inr (doc, [])"
| "insert_all TE doc (x # xs) =
     rbind (insert_pending TE doc x) (\<lambda>(doc', j).
     rbind (insert_all TE doc' xs) (\<lambda>(doc'', js). Inr (doc'', j # js)))"

definition service_exists :: "item \<Rightarrow> service_side \<Rightarrow> string \<Rightarrow> bool" where
  "service_exists doc side name =
     (case services_of doc side of None \<Rightarrow> False | Some t \<Rightarrow> item_get t name \<noteq> None)"

definition ensure_client_remote_set :: "item \<Rightarrow> path \<Rightarrow> anyhow + unit" where
  "ensure_client_remote_set doc p =
     (if Option.bind (item_get doc ''client'') (\<lambda>c. item_get c ''remote_addr'') \<noteq> None then Inr ()
      else Inl (Err (''[client] remote_addr is not set in '' @ display_path p @
        ''; one client config connects to exactly one server '' @ [CHR 226, CHR 128, CHR 148] @ '' run '' @
        ''`rathole-x config set --client --remote-addr <host:port>` first'')))"

definition DEFAULT_SERVER_BIND_ADDR :: string where
  "DEFAULT_SERVER_BIND_ADDR = ''0.0.0.0:2333''"

definition new_server_section :: "toml_edit \<Rightarrow> item" where
  "new_server_section TE =
     te_insert TE (te_insert TE (Item_Table []) ''bind_addr'' (str_item DEFAULT_SERVER_BIND_ADDR))
       ''services'' (Item_Table [])"

section \<open>Batch\<close>

fun parse_specs :: "editor \<Rightarrow> nat \<Rightarrow> service_side \<Rightarrow> string list \<Rightarrow> anyhow + pending_service list" where
  "parse_specs ED n side [] = Inr []"
| "parse_specs ED n side (x # xs) =
     rbind (parse_spec x side) (\<lambda>spec.
     rbind (parse_specs ED (if spec_token spec = None then Suc n else n) side xs) (\<lambda>ps.
     Inr (spec_to_pending ED n spec side # ps)))"

definition generated_count :: "pending_service list \<Rightarrow> nat" where
  "generated_count ps = length (filter (\<lambda>x. pe_generated_token x \<noteq> None) ps)"

fun check_duplicates :: "(service_side \<times> string) list \<Rightarrow> pending_service list \<Rightarrow> anyhow + unit" where
  "check_duplicates seen [] = Inr ()"
| "check_duplicates seen (x # xs) =
     (if (pe_side x, pe_name x) \<in> set seen then
        Inl (Err (''duplicate '' @ side_key (pe_side x) @ '' service `'' @ pe_name x @ ''` in this batch''))
      else check_duplicates ((pe_side x, pe_name x) # seen) xs)"

fun check_new :: "item \<Rightarrow> pending_service list \<Rightarrow> anyhow + unit" where
  "check_new doc [] = Inr ()"
| "check_new doc (x # xs) =
     (if service_exists doc (pe_side x) (pe_name x) then
        Inl (Err (''A '' @ side_key (pe_side x) @ '' service named '' @ quote (pe_name x) @ '' already exists''))
      else check_new doc xs)"

definition has_side :: "service_side \<Rightarrow> pending_service list \<Rightarrow> bool" where
  "has_side side ps = list_ex (\<lambda>x. pe_side x = side) ps"

definition batch_prerequisites :: "path \<Rightarrow> item \<Rightarrow> pending_service list \<Rightarrow> anyhow + unit" where
  "batch_prerequisites p doc ps =
     rbind (if has_side Side_Client ps then
              rbind (ensure_role_allows doc Side_Client) (\<lambda>_. ensure_client_remote_set doc p)
            else Inr ()) (\<lambda>_.
     if has_side Side_Server ps then ensure_role_allows doc Side_Server else Inr ())"

definition add_server_section :: "toml_edit \<Rightarrow> pending_service list \<Rightarrow> item \<Rightarrow> item" where
  "add_server_section TE ps doc =
     (if has_side Side_Server ps \<and> \<not> has_section doc ''server''
      then te_insert TE doc ''server'' (new_server_section TE) else doc)"

definition run_add_batch :: "editor \<Rightarrow> io \<Rightarrow> add_args \<Rightarrow> path \<Rightarrow> disk \<Rightarrow> disk \<times> (anyhow + json)" where
  "run_add_batch ED os a p w =
     (case rbind (parse_specs ED 0 Side_Client (aa_client_specs a)) (\<lambda>cs.
           rbind (parse_specs ED (generated_count cs) Side_Server (aa_server_specs a)) (\<lambda>ss.
           rbind (check_duplicates [] (cs @ ss)) (\<lambda>_.
           rbind (batch_prerequisites p
                    (case load_document ED os w p of Inl _ \<Rightarrow> Item_Table [] | Inr d \<Rightarrow> d) (cs @ ss)) (\<lambda>_.
           rbind (open_document ED os p w) (\<lambda>(created, doc).
           let doc1 = add_server_section (ed_toml ED) (cs @ ss) doc in
           rbind (check_new doc1 (cs @ ss)) (\<lambda>_.
           rbind (insert_all (ed_toml ED) doc1 (cs @ ss)) (\<lambda>(doc2, results).
           Inr (created, doc2, results)))))))) of
        Inl e \<Rightarrow> (w, Inl e)
      | Inr (created, doc, results) \<Rightarrow>
          map_prod id (\<lambda>r. rbind r (\<lambda>_. Inr (J_Object [(''services'', J_Array results)])))
            (save_with_skeleton ED os p doc created w))"

section \<open>One service\<close>

text \<open>What a prompt of the terminal returns: a line, or the index of the selected item.\<close>

datatype answer = Typed string | Chosen nat

type_synonym answers = "(anyhow + answer) list"

fun prompt :: "answers \<Rightarrow> anyhow + string \<times> answers" where
  "prompt [] = Inl (Err ''not a terminal'')"
| "prompt (Inl e # rs) = Inl e"
| "prompt (Inr (Typed s) # rs) = Inr (s, rs)"
| "prompt (Inr (Chosen n) # rs) = Inr ([], rs)"

fun prompt_select :: "answers \<Rightarrow> anyhow + nat \<times> answers" where
  "prompt_select [] = Inl (Err ''not a terminal'')"
| "prompt_select (Inl e # rs) = Inl e"
| "prompt_select (Inr (Chosen n) # rs) = Inr (n, rs)"
| "prompt_select (Inr (Typed s) # rs) = Inr (0, rs)"

fun prompt_validated_host_port :: "string \<Rightarrow> answers \<Rightarrow> anyhow + string \<times> answers" where
  "prompt_validated_host_port field [] = Inl (Err ''not a terminal'')"
| "prompt_validated_host_port field (r # rs) =
     rbind (prompt (r # rs)) (\<lambda>(input, _).
     if is_ok (validate_host_port input field) then Inr (input, rs)
     else prompt_validated_host_port field rs)"

definition infer_side :: "add_args \<Rightarrow> item option \<Rightarrow> anyhow + service_side option" where
  "infer_side a existing =
     (case (aa_local_addr a \<noteq> None \<or> aa_noise_key a \<noteq> None, aa_bind_addr a \<noteq> None) of
        (True, True) \<Rightarrow> Inl (Err ''--bind-addr (server) cannot be combined with --local-addr (client)'')
      | (True, False) \<Rightarrow> Inr (Some Side_Client)
      | (False, True) \<Rightarrow> Inr (Some Side_Server)
      | (False, False) \<Rightarrow>
          (case existing of
             None \<Rightarrow> Inr None
           | Some doc \<Rightarrow>
               (case (has_section doc ''client'', has_section doc ''server'') of
                  (True, False) \<Rightarrow> Inr (Some Side_Client)
                | (False, True) \<Rightarrow> Inr (Some Side_Server)
                | (True, True) \<Rightarrow> rbind (detect_role doc) (\<lambda>_. Inl (Err ''unreachable''))
                | (False, False) \<Rightarrow> Inr None)))"

datatype noise_plan = Noise_None | Noise_Server string string | Noise_Client string

definition noise_conflict :: "item \<Rightarrow> string option" where
  "noise_conflict section =
     Option.bind (item_get section ''transport'') (\<lambda>t.
     if \<not> table_like t then None
     else
       let existing = (case Option.bind (item_get t ''type'') as_str of None \<Rightarrow> ''tcp'' | Some x \<Rightarrow> x) in
       if existing \<noteq> ''tcp'' \<and> existing \<noteq> ''noise'' then Some existing else None)"

definition apply_noise_transport :: "toml_edit \<Rightarrow> path \<Rightarrow> noise_plan \<Rightarrow> item \<Rightarrow> (anyhow + item) option" where
  "apply_noise_transport TE p plan doc =
     (case (case plan of
              Noise_None \<Rightarrow> None
            | Noise_Server private_key _ \<Rightarrow> Some (''server'', ''local_private_key'', private_key)
            | Noise_Client remote_public_key \<Rightarrow> Some (''client'', ''remote_public_key'', remote_public_key)) of
        None \<Rightarrow> Some (Inr doc)
      | Some (section_key, key, val) \<Rightarrow>
          (case Option.bind (item_get doc section_key) (\<lambda>s. if table_like s then Some s else None) of
             None \<Rightarrow> Some (Inl (not_a_table section_key p))
           | Some section \<Rightarrow>
               (case noise_conflict section of
                  Some existing \<Rightarrow> Some (Inl (Err (''['' @ section_key @ ''.transport] is already configured as '' @
                    quote existing @ ''; edit '' @ display_path p @ '' manually to switch transports'')))
                | None \<Rightarrow>
                    let s1 = (if item_get section ''transport'' = None
                              then te_insert TE section ''transport'' (Item_Table []) else section) in
                    Option.bind (item_get s1 ''transport'') (\<lambda>t.
                    if \<not> table_like t then None
                    else
                      let t1 = te_insert TE t ''type'' (str_item ''noise'');
                          t2 = (if item_get t1 ''noise'' = None
                                then te_insert TE t1 ''noise'' (Item_Table []) else t1) in
                      Option.bind (item_get t2 ''noise'') (\<lambda>n.
                      if \<not> table_like n then None
                      else
                        let n1 = te_insert TE n key (str_item val) in
                        Some (Inr (put_item section_key
                          (put_item ''transport'' (put_item ''noise'' n1 t2) s1) doc)))))))"

definition build_generated :: "string option \<Rightarrow> noise_plan \<Rightarrow> json" where
  "build_generated generated_token plan = J_Object
     ((case generated_token of None \<Rightarrow> [] | Some t \<Rightarrow> [(''token'', J_String t)]) @
      (case plan of
         Noise_Server private_key public_key \<Rightarrow>
           [(''noise_private_key'', J_String private_key), (''noise_public_key'', J_String public_key)]
       | _ \<Rightarrow> []))"


definition add_side :: "add_args \<Rightarrow> bool \<Rightarrow> item option \<Rightarrow> answers \<Rightarrow> anyhow + service_side \<times> answers" where
  "add_side a interactive existing rs =
     rbind (infer_side a existing) (\<lambda>inferred.
     case inferred of
       Some side \<Rightarrow> Inr (side, rs)
     | None \<Rightarrow>
         if interactive then
           rbind (prompt rs) (\<lambda>(choice, rs').
           Inr (if trim choice = ''2'' then Side_Server else Side_Client, rs'))
         else Inl (Err (''Cannot determine the side: give --local-addr (client) or --bind-addr (server)'')))"

definition ask_field ::
  "bool \<Rightarrow> string option \<Rightarrow> string \<Rightarrow> (answers \<Rightarrow> anyhow + string \<times> answers) \<Rightarrow> answers \<Rightarrow>
   anyhow + (string option \<times> string list) \<times> answers" where
  "ask_field interactive given flag ask rs =
     (case given of
        Some x \<Rightarrow> Inr ((Some x, []), rs)
      | None \<Rightarrow>
          if interactive then rbind (ask rs) (\<lambda>(x, rs'). Inr ((Some x, []), rs'))
          else Inr ((None, [flag]), rs))"

definition addr_flag :: "service_side \<Rightarrow> string" where
  "addr_flag side = (case side of Side_Client \<Rightarrow> ''--local-addr'' | Side_Server \<Rightarrow> ''--bind-addr'')"

definition given_addr :: "add_args \<Rightarrow> service_side \<Rightarrow> string option" where
  "given_addr a side = (case side of Side_Client \<Rightarrow> aa_local_addr a | Side_Server \<Rightarrow> aa_bind_addr a)"

definition noise_requested :: "add_args \<Rightarrow> service_side \<Rightarrow> bool" where
  "noise_requested a side \<longleftrightarrow> aa_noise a \<or> (side = Side_Client \<and> aa_noise_key a \<noteq> None)"

text \<open>The inputs of one service: its address, the plan for the noise transport, and the token.\<close>

definition add_inputs ::
  "editor \<Rightarrow> add_args \<Rightarrow> service_side \<Rightarrow> bool \<Rightarrow> answers \<Rightarrow>
   anyhow + (string \<times> noise_plan \<times> string \<times> string option)" where
  "add_inputs ED a side interactive rs =
     rbind (ask_field interactive (given_addr a side) (addr_flag side)
              (prompt_validated_host_port (addr_flag side)) rs) (\<lambda>((addr, missing1), rs1).
     rbind (if noise_requested a side \<and> side = Side_Client
            then ask_field interactive (aa_noise_key a) ''--noise-key'' prompt rs1
            else Inr ((None, []), rs1)) (\<lambda>((noise_key, missing2), rs2).
     rbind (require (missing1 @ missing2 = []) (Err (''Missing required argument(s): '' @
              join_str '', '' (missing1 @ missing2) @ ''. They could not be prompted for because '' @
              ''stdin/stdout is not a TTY, --json, or --yes was given.''))) (\<lambda>_.
     rbind (validate_host_port (the addr) (addr_flag side)) (\<lambda>_.
     rbind (if aa_token a = None \<and> interactive then
              rbind (prompt rs2) (\<lambda>(t, _). Inr (if trim t = [] then None else Some (trim t)))
            else Inr None) (\<lambda>prompted.
     let generated = (if aa_token a = None \<and> prompted = None then Some (ed_token ED 0) else None);
         token = (case aa_token a of Some t \<Rightarrow> t
                  | None \<Rightarrow> (case prompted of Some t \<Rightarrow> t | None \<Rightarrow> ed_token ED 0)) in
     rbind (if \<not> noise_requested a side then Inr Noise_None
            else (case side of
                    Side_Server \<Rightarrow> rbind (ed_keypair ED) (\<lambda>(priv, pub). Inr (Noise_Server priv pub))
                  | Side_Client \<Rightarrow> Inr (Noise_Client (the noise_key)))) (\<lambda>plan.
     Inr (the addr, plan, token, generated)))))))"

text \<open>The document with the service: its section is created on the server side only.\<close>

definition prepare_section :: "toml_edit \<Rightarrow> service_side \<Rightarrow> path \<Rightarrow> item \<Rightarrow> anyhow + item" where
  "prepare_section TE side p doc =
     (case item_get doc (side_key side) of
        None \<Rightarrow>
          (case side of
             Side_Client \<Rightarrow> Inl (Err (''[client] section missing; run `rathole-x config set '' @
               ''--client --remote-addr <host:port>` first''))
           | Side_Server \<Rightarrow> Inr (te_insert TE doc ''server'' (new_server_section TE)))
      | Some section \<Rightarrow>
          if \<not> table_like section then Inl (not_a_table (side_key side) p)
          else if item_get section ''services'' = None then
            Inr (put_item (side_key side) (te_insert TE section ''services'' (Item_Table [])) doc)
          else Inr doc)"

definition single_entry :: "toml_edit \<Rightarrow> add_args \<Rightarrow> service_side \<Rightarrow> string \<Rightarrow> string \<Rightarrow> item" where
  "single_entry TE a side addr token =
     (let e1 = (if aa_service_type a = Type_Udp
                then te_insert TE (Item_Table []) ''type'' (str_item ''udp'') else Item_Table []);
          e2 = te_insert TE e1 (case side of Side_Client \<Rightarrow> ''local_addr'' | Side_Server \<Rightarrow> ''bind_addr'') (str_item addr)
      in te_insert TE e2 ''token'' (str_item token))"

definition add_single_document ::
  "toml_edit \<Rightarrow> add_args \<Rightarrow> service_side \<Rightarrow> string \<Rightarrow> string \<Rightarrow> noise_plan \<Rightarrow> string \<Rightarrow> string option \<Rightarrow>
   path \<Rightarrow> item \<Rightarrow> (anyhow + item \<times> json) option" where
  "add_single_document TE a side name addr plan token generated p doc =
     (case rbind (ensure_role_allows doc side) (\<lambda>_.
           rbind (require (\<not> service_exists doc side name) (Err (''a '' @ side_key side @ '' service named `'' @
                    name @ ''` already exists in '' @ display_path p))) (\<lambda>_.
           prepare_section TE side p doc)) of
        Inl e \<Rightarrow> Some (Inl e)
      | Inr doc1 \<Rightarrow>
          map_option (\<lambda>r. rbind r (\<lambda>doc2. insert_pending TE doc2
              \<lparr>pe_side = side, pe_name = name, pe_entry = single_entry TE a side addr token,
               pe_generated_token = generated\<rparr>))
            (apply_noise_transport TE p plan doc1))"

definition client_prerequisites :: "path \<Rightarrow> service_side \<Rightarrow> item option \<Rightarrow> anyhow + unit" where
  "client_prerequisites p side existing =
     (if side \<noteq> Side_Client then Inr ()
      else
        let doc = (case existing of None \<Rightarrow> Item_Table [] | Some d \<Rightarrow> d) in
        rbind (ensure_role_allows doc Side_Client) (\<lambda>_. ensure_client_remote_set doc p))"

definition run_add_single ::
  "editor \<Rightarrow> io \<Rightarrow> add_args \<Rightarrow> string \<Rightarrow> bool \<Rightarrow> answers \<Rightarrow> path \<Rightarrow> disk \<Rightarrow> (disk \<times> (anyhow + json)) option" where
  "run_add_single ED os a name interactive rs p w =
     (let existing = ok_option (load_document ED os w p) in
      case rbind (add_side a interactive existing rs) (\<lambda>(side, rs1).
           rbind (client_prerequisites p side existing) (\<lambda>_.
           rbind (add_inputs ED a side interactive rs1) (\<lambda>(addr, plan, token, generated).
           rbind (open_document ED os p w) (\<lambda>(created, doc).
           Inr (side, addr, plan, token, generated, created, doc))))) of
        Inl e \<Rightarrow> Some (w, Inl e)
      | Inr (side, addr, plan, token, generated, created, doc) \<Rightarrow>
          map_option (\<lambda>r. case r of
              Inl e \<Rightarrow> (w, Inl e)
            | Inr (doc', inserted) \<Rightarrow>
                map_prod id (\<lambda>r. rbind r (\<lambda>_. Inr (J_Object
                    [(''name'', J_String name), (''side'', J_String (side_key side)),
                     (''service'', case inserted of
                        J_Object kvs \<Rightarrow> (case map_of kvs ''service'' of None \<Rightarrow> J_Null | Some j \<Rightarrow> j) | _ \<Rightarrow> J_Null),
                     (''generated'', build_generated generated plan)])))
                  (save_with_skeleton ED os p doc' created w))
            (add_single_document (ed_toml ED) a side name addr plan token generated p doc))"

section \<open>The interactive session\<close>

lemma prompt_shorter: "prompt rs = Inr (x, rs') \<Longrightarrow> length rs' < length rs"
  by (cases rs rule: prompt.cases) auto

lemma prompt_select_shorter: "prompt_select rs = Inr (x, rs') \<Longrightarrow> length rs' < length rs"
  by (cases rs rule: prompt_select.cases) auto

lemma prompt_validated_shorter: "prompt_validated_host_port f rs = Inr (x, rs') \<Longrightarrow> length rs' < length rs"
  by (induction f rs rule: prompt_validated_host_port.induct)
    (auto simp: rbind_eq_Inr_iff intro: less_SucI split: if_splits)

definition session_addr_key :: "service_side \<Rightarrow> string" where
  "session_addr_key side = (case side of Side_Client \<Rightarrow> ''local_addr'' | Side_Server \<Rightarrow> ''bind_addr'')"

definition session_addr_field :: "service_side \<Rightarrow> string" where
  "session_addr_field side = (case side of Side_Client \<Rightarrow> ''local'' | Side_Server \<Rightarrow> ''bind'')"

definition session_entry ::
  "editor \<Rightarrow> service_side \<Rightarrow> string \<Rightarrow> nat \<Rightarrow> answers \<Rightarrow> anyhow + pending_service \<times> answers" where
  "session_entry ED side name n rs =
     (let TE = ed_toml ED in
      rbind (prompt_validated_host_port (session_addr_field side) rs) (\<lambda>(addr, rs1).
      rbind (prompt_select rs1) (\<lambda>(kind, rs2).
      rbind (prompt rs2) (\<lambda>(typed, rs3).
      let entered = trim typed;
          token = (if entered = [] then ed_token ED n else entered);
          e1 = te_insert TE (Item_Table []) (session_addr_key side) (str_item addr);
          e2 = (if kind = 1 then te_insert TE e1 ''type'' (str_item ''udp'') else e1) in
      Inr (\<lparr>pe_side = side, pe_name = name, pe_entry = te_insert TE e2 ''token'' (str_item token),
            pe_generated_token = (if entered = [] then Some token else None)\<rparr>, rs3)))))"

text \<open>One round: \<open>None\<close> ends the session, \<open>Some None\<close> queues nothing.\<close>

definition session_round ::
  "editor \<Rightarrow> path \<Rightarrow> service_side option \<Rightarrow> item \<Rightarrow> pending_service list \<Rightarrow> answers \<Rightarrow>
   anyhow + pending_service option option \<times> answers" where
  "session_round ED p pinned doc pending rs =
     rbind (prompt rs) (\<lambda>(typed, rs1).
     let name = trim typed in
     if name = [] then Inr (None, rs1)
     else
       rbind (case pinned of
                Some s \<Rightarrow> Inr (s, rs1)
              | None \<Rightarrow> rbind (prompt_select rs1) (\<lambda>(i, rs'). Inr (if i = 1 then Side_Server else Side_Client, rs')))
         (\<lambda>(side, rs2).
       if side = Side_Client \<and> \<not> is_ok (ensure_client_remote_set doc p) then Inr (Some None, rs2)
       else if service_exists doc side name \<or> list_ex (\<lambda>x. pe_side x = side \<and> pe_name x = name) pending
       then Inr (Some None, rs2)
       else rbind (session_entry ED side name (generated_count pending) rs2) (\<lambda>(x, rs3).
            Inr (Some (Some x), rs3))))"

lemma session_round_shorter:
  "session_round ED p pinned doc pending rs = Inr (r, rs') \<Longrightarrow> length rs' < length rs"
  by (auto simp: session_round_def session_entry_def rbind_eq_Inr_iff Let_def
      split: if_splits option.splits prod.splits
      dest!: prompt_shorter prompt_select_shorter prompt_validated_shorter)

function session :: "editor \<Rightarrow> path \<Rightarrow> service_side option \<Rightarrow> item \<Rightarrow> pending_service list \<Rightarrow> answers \<Rightarrow>
   anyhow + pending_service list" where
  "session ED p pinned doc pending rs =
     (case session_round ED p pinned doc pending rs of
        Inl e \<Rightarrow> Inl e
      | Inr (None, _) \<Rightarrow> Inr pending
      | Inr (Some None, rs') \<Rightarrow> session ED p pinned doc pending rs'
      | Inr (Some (Some x), rs') \<Rightarrow> session ED p pinned doc (pending @ [x]) rs')"
  by pat_completeness auto
termination by (relation "measure (\<lambda>(_, _, _, _, _, rs). length rs)") (auto dest: session_round_shorter)

declare session.simps [simp del]

definition pinned_side :: "item \<Rightarrow> anyhow + service_side option" where
  "pinned_side doc =
     (case (has_section doc ''client'', has_section doc ''server'') of
        (True, False) \<Rightarrow> Inr (Some Side_Client)
      | (False, True) \<Rightarrow> Inr (Some Side_Server)
      | (True, True) \<Rightarrow> rbind (detect_role doc) (\<lambda>_. Inl (Err ''unreachable''))
      | (False, False) \<Rightarrow> Inr None)"

definition run_add_interactive ::
  "editor \<Rightarrow> io \<Rightarrow> answers \<Rightarrow> path \<Rightarrow> disk \<Rightarrow> disk \<times> (anyhow + json)" where
  "run_add_interactive ED os rs p w =
     (case rbind (load_document ED os w p) (\<lambda>doc.
           rbind (pinned_side doc) (\<lambda>pinned.
           rbind (if pinned = Some Side_Client then ensure_client_remote_set doc p else Inr ()) (\<lambda>_.
           rbind (session ED p pinned doc [] rs) (\<lambda>pending.
           if pending = [] then Inr None
           else
             rbind (ensure_config_skeleton os w p) (\<lambda>_.
             rbind (insert_all (ed_toml ED) (add_server_section (ed_toml ED) pending doc) pending) (\<lambda>r.
             Inr (Some r))))))) of
        Inl e \<Rightarrow> (w, Inl e)
      | Inr None \<Rightarrow> (w, Inr (J_Object [(''services'', J_Array [])]))
      | Inr (Some (doc, results)) \<Rightarrow>
          map_prod id (\<lambda>r. rbind r (\<lambda>_. Inr (J_Object [(''services'', J_Array results)])))
            (save_with_skeleton ED os p doc (\<not> path_exists w p) w))"

definition run_add ::
  "editor \<Rightarrow> io \<Rightarrow> bool \<Rightarrow> answers \<Rightarrow> add_args \<Rightarrow> path \<Rightarrow> disk \<Rightarrow> (disk \<times> (anyhow + json)) option" where
  "run_add ED os tty rs a p w =
     (if aa_client_specs a \<noteq> [] \<or> aa_server_specs a \<noteq> [] then Some (run_add_batch ED os a p w)
      else
        let interactive = \<not> aa_json a \<and> \<not> aa_yes a \<and> tty in
        (case aa_entry a of
           Some name \<Rightarrow> run_add_single ED os a name interactive rs p w
         | None \<Rightarrow>
             if interactive then Some (run_add_interactive ED os rs p w)
             else Some (w, Inl (Err (''A service NAME is required, or pass --client/--server SPEC entries, '' @
               ''or run interactively in a TTY without a name.'')))))"


section \<open>What \<open>config add\<close> adds\<close>

definition service_path :: "pending_service \<Rightarrow> string list" where
  "service_path x = [side_key (pe_side x), ''services'', pe_name x]"

text \<open>The values of a document with the values \<open>L\<close> after the services are written into it.\<close>

definition added :: "pending_service list \<Rightarrow> (string list \<Rightarrow> toml_value option) \<Rightarrow> string list \<Rightarrow> toml_value option" where
  "added xs L q =
     (case List.find (\<lambda>x. prefix (service_path x) q) xs of
        Some x \<Rightarrow> leaf (pe_entry x) (drop 3 q)
      | None \<Rightarrow> L q)"

definition entry_ok :: "pending_service \<Rightarrow> bool" where
  "entry_ok x \<longleftrightarrow> flat (pe_entry x) \<and> wf_item (pe_entry x)"

lemma side_key_eq [simp]: "side_key a = side_key b \<longleftrightarrow> a = b"
  by (cases a; cases b) simp_all

lemma service_path_eq: "service_path x = service_path y \<longleftrightarrow> pe_side x = pe_side y \<and> pe_name x = pe_name y"
  by (simp add: service_path_def)

lemma service_path_unique:
  assumes "prefix (service_path x) q" "prefix (service_path y) q"
  shows "service_path x = service_path y"
  using assms by (auto simp: service_path_def prefix_def)

lemma added_Cons:
  assumes "\<forall>y \<in> set xs. service_path y \<noteq> service_path x"
  shows "added xs (added [x] L) = added (x # xs) L"
proof
  fix q
  show "added xs (added [x] L) q = added (x # xs) L q"
  proof (cases "prefix (service_path x) q")
    case True
    have "List.find (\<lambda>y. prefix (service_path y) q) xs = None"
      using assms service_path_unique [OF _ True] by (auto simp: find_None_iff)
    then show ?thesis by (simp add: added_def True)
  next
    case False
    then have "added [x] L q = L q" by (simp add: added_def)
    then show ?thesis using False unfolding added_def by (simp split: option.split)
  qed
qed

context toml_edit_laws
begin

lemma leaf_insert_flat:
  assumes "table_like t" "flat e"
  shows "leaf (te_insert TE t k e) q = (if prefix [k] q then leaf e (drop 1 q) else leaf t q)"
proof -
  obtain v' where v: "stored t e v'" "\<And>k'. item_get (te_insert TE t k e) k' = (if k' = k then Some v' else item_get t k')"
    "table_like (te_insert TE t k e)"
    using insert_cases [OF assms(1)] by metis
  then show ?thesis
    using assms(1) by (cases q) (simp_all add: stored_leaf [OF v(1) assms(2)])
qed

lemma insert_pending_leaf:
  assumes "insert_pending TE doc x = Inr (doc', j)" "is_table doc" "entry_ok x"
  shows "leaf doc' = added [x] (leaf doc)" "is_table doc'" "wf_item doc \<Longrightarrow> wf_item doc'"
    "\<And>k. k \<noteq> side_key (pe_side x) \<Longrightarrow> item_get doc' k = item_get doc k"
proof -
  let ?k = "side_key (pe_side x)"
  obtain s t where b: "Option.bind (item_get doc ?k) (\<lambda>s. if table_like s then Some s else None) = Some s"
    "Option.bind (item_get s ''services'') (\<lambda>t. if table_like t then Some t else None) = Some t"
    and d: "doc' = put_item ?k (put_item ''services'' (te_insert TE t (pe_name x) (pe_entry x)) s) doc"
    using assms(1) unfolding insert_pending_def Let_def rbind_eq_Inr_iff ok_or_eq_Inr_iff by blast
  note s = bind_table_like [OF b(1)] bind_table_like [OF b(2)]
  let ?t = "te_insert TE t (pe_name x) (pe_entry x)"
  let ?s = "put_item ''services'' ?t s"
  note t = insert_table_like [OF s(4), of "pe_name x" "pe_entry x"] insert_is_table [OF s(4), of "pe_name x" "pe_entry x"]
  have st: "storable s ?t" by (rule shape_storable [OF s(3,4) t])
  have ss: "storable doc ?s" using assms(2) by simp
  have e: "flat (pe_entry x)" "wf_item (pe_entry x)" using assms(3) by (simp_all add: entry_ok_def)
  have l: "leaf ?s ks = (case ks of [] \<Rightarrow> None | k # ks' \<Rightarrow> if k = ''services'' then leaf ?t ks' else leaf s ks)" for ks
    by (rule leaf_put [OF s(3) st])
  show "leaf doc' = added [x] (leaf doc)"
  proof
    fix q
    show "leaf doc' q = added [x] (leaf doc) q"
      unfolding d leaf_put [OF s(1) ss]
      using assms(2) s leaf_insert_flat [OF s(4) e(1)]
      by (auto simp: added_def service_path_def l split: list.splits)
  qed
  show "is_table doc'" using assms(2) by (simp add: d)
  show "wf_item doc'" if "wf_item doc"
    using that s insert_wf [OF _ s(4) e(2)] wf_put wf_item_get unfolding d by metis
  show "item_get doc' k = item_get doc k" if "k \<noteq> ?k" for k
    unfolding d using get_put [OF _ ss] s(1) that by simp
qed

lemma insert_all_leaf:
  assumes "insert_all TE doc xs = Inr (doc', js)" "is_table doc" "\<forall>x \<in> set xs. entry_ok x"
    and "distinct (map service_path xs)"
  shows "leaf doc' = added xs (leaf doc) \<and> is_table doc' \<and> (wf_item doc \<longrightarrow> wf_item doc') \<and>
    (\<forall>k. k \<notin> (\<lambda>x. side_key (pe_side x)) ` set xs \<longrightarrow> item_get doc' k = item_get doc k)"
  using assms
proof (induction xs arbitrary: doc js)
  case Nil
  then show ?case by (simp add: added_def fun_eq_iff)
next
  case (Cons x xs)
  obtain doc1 j js' where d: "insert_pending TE doc x = Inr (doc1, j)" "insert_all TE doc1 xs = Inr (doc', js')"
    using Cons.prems(1) by (auto simp: result_simps)
  note p = insert_pending_leaf [OF d(1) Cons.prems(2)]
  have x: "entry_ok x" using Cons.prems(3) by simp
  have ih: "leaf doc' = added xs (leaf doc1) \<and> is_table doc' \<and> (wf_item doc1 \<longrightarrow> wf_item doc') \<and>
    (\<forall>k. k \<notin> (\<lambda>x. side_key (pe_side x)) ` set xs \<longrightarrow> item_get doc' k = item_get doc1 k)"
    by (rule Cons.IH [OF d(2) p(2) [OF x]]) (use Cons.prems(3,4) in auto)
  have "\<forall>y \<in> set xs. service_path y \<noteq> service_path x" using Cons.prems(4) by (auto simp: image_iff)
  then show ?case using ih p(1,3,4) [OF x] by (simp add: added_Cons)
qed

lemma flat_str_inserts:
  assumes "flat e" "wf_item e"
  shows "flat (te_insert TE e k (str_item v))" "wf_item (te_insert TE e k (str_item v))"
proof -
  have t: "table_like e" using assms(1) by (cases e) auto
  show "flat (te_insert TE e k (str_item v))"
    unfolding str_item_def by (rule flat_insert [OF assms]) simp
  show "wf_item (te_insert TE e k (str_item v))"
    by (rule insert_wf [OF assms(2) t]) (simp add: str_item_def)
qed

lemma flat_insert_opt:
  "flat e \<Longrightarrow> wf_item e \<Longrightarrow> flat (insert_opt TE str_item k v e) \<and> wf_item (insert_opt TE str_item k v e)"
  by (cases v) (simp_all add: insert_opt_def flat_str_inserts)

lemma spec_entry_ok: "ed_toml ED = TE \<Longrightarrow> entry_ok (spec_to_pending ED n spec side)"
proof -
  assume TE: "ed_toml ED = TE"
  let ?e1 = "if spec_udp spec then te_insert TE (Item_Table []) ''type'' (str_item ''udp'') else Item_Table []"
  let ?e2 = "insert_opt TE str_item ''local_addr'' (spec_local_addr spec) ?e1"
  let ?e3 = "insert_opt TE str_item ''bind_addr'' (spec_bind_addr spec) ?e2"
  have e1: "flat ?e1 \<and> wf_item ?e1" using flat_str_inserts [of "Item_Table []"] by simp
  have e2: "flat ?e2 \<and> wf_item ?e2" using e1 flat_insert_opt by blast
  have e3: "flat ?e3 \<and> wf_item ?e3" using e2 flat_insert_opt by blast
  show ?thesis unfolding entry_ok_def spec_to_pending_def Let_def TE pending_service.select_convs
    using e3 flat_str_inserts by blast
qed

lemma parse_specs_ok:
  assumes "parse_specs ED n side specs = Inr ps" "ed_toml ED = TE" "x \<in> set ps"
  shows "entry_ok x \<and> pe_side x = side"
  using assms
proof (induction specs arbitrary: n ps)
  case (Cons s specs)
  then show ?case using spec_entry_ok [OF assms(2)]
    by (auto simp: result_simps spec_to_pending_def Let_def)
qed simp

lemma add_server_section_leaf:
  assumes "is_table doc"
  shows "leaf (add_server_section TE ps doc) =
      (if has_side Side_Server ps \<and> \<not> has_section doc ''server''
       then assign [([''server'', ''bind_addr''], V_String DEFAULT_SERVER_BIND_ADDR)] (leaf doc) else leaf doc)"
    "is_table (add_server_section TE ps doc)" "wf_item doc \<Longrightarrow> wf_item (add_server_section TE ps doc)"
    "k \<noteq> ''server'' \<Longrightarrow> item_get (add_server_section TE ps doc) k = item_get doc k"
proof -
  have t: "table_like (Item_Table [])" "is_table (Item_Table [])" by simp_all
  let ?s1 = "te_insert TE (Item_Table []) ''bind_addr'' (str_item DEFAULT_SERVER_BIND_ADDR)"
  note e1 = edited_insert_str [OF t(1), of "''bind_addr''" DEFAULT_SERVER_BIND_ADDR]
  have n: "item_get ?s1 ''services'' = None"
    using get_insert_other [OF t(1)] by (simp add: item_get_def)
  have e: "edited (Item_Table []) (new_server_section TE) [([''bind_addr''], V_String DEFAULT_SERVER_BIND_ADDR)]"
    unfolding new_server_section_def using edited_trans [OF e1 edited_insert_empty [OF editedD(1) [OF e1] n]] by simp
  have "edited doc (add_server_section TE ps doc)
      (if has_side Side_Server ps \<and> \<not> has_section doc ''server''
       then [([''server'', ''bind_addr''], V_String DEFAULT_SERVER_BIND_ADDR)] else [])"
    using edited_insert_table(1) [OF assms _ e, of "''server''"] assms
    by (simp add: add_server_section_def has_section_def)
  note d = editedD [OF this]
  show "leaf (add_server_section TE ps doc) =
      (if has_side Side_Server ps \<and> \<not> has_section doc ''server''
       then assign [([''server'', ''bind_addr''], V_String DEFAULT_SERVER_BIND_ADDR)] (leaf doc) else leaf doc)"
    using d(4) by simp
  show "is_table (add_server_section TE ps doc)" "wf_item doc \<Longrightarrow> wf_item (add_server_section TE ps doc)"
    using d(2,3) assms by simp_all
  show "k \<noteq> ''server'' \<Longrightarrow> item_get (add_server_section TE ps doc) k = item_get doc k"
    using get_insert_other [of doc k "''server''"] assms by (simp add: add_server_section_def)
qed

end

lemma check_duplicates_distinct:
  "check_duplicates seen ps = Inr u \<Longrightarrow>
   distinct (map service_path ps) \<and> (\<forall>x \<in> set ps. (pe_side x, pe_name x) \<notin> set seen)"
  by (induction ps arbitrary: seen) (fastforce simp: service_path_eq image_iff split: if_splits)+

lemma check_new_absent:
  "check_new doc ps = Inr u \<Longrightarrow> x \<in> set ps \<Longrightarrow> \<not> service_exists doc (pe_side x) (pe_name x)"
  by (induction ps) (auto split: if_splits)

definition other_side :: "service_side \<Rightarrow> service_side" where
  "other_side s = (case s of Side_Client \<Rightarrow> Side_Server | Side_Server \<Rightarrow> Side_Client)"

lemma ensure_role_allows_iff: "is_ok (ensure_role_allows doc side) \<longleftrightarrow> \<not> has_section doc (side_key (other_side side))"
  by (cases side; cases "has_section doc ''client''"; cases "has_section doc ''server''")
    (simp_all add: ensure_role_allows_def detect_role_def other_side_def)

lemma ensure_role_allows_Inr: "ensure_role_allows doc side = Inr u \<Longrightarrow> \<not> has_section doc (side_key (other_side side))"
  using ensure_role_allows_iff [of doc side] by simp


lemma batch_one_side:
  assumes "batch_prerequisites p d ps = Inr u"
  shows "\<not> (has_side Side_Client ps \<and> has_side Side_Server ps)"
proof
  assume "has_side Side_Client ps \<and> has_side Side_Server ps"
  then have "ensure_client_remote_set d p = Inr ()" "ensure_role_allows d Side_Server = Inr u"
    using assms by (auto simp: batch_prerequisites_def rbind_eq_Inr_iff)
  then have "item_get d ''client'' \<noteq> None" "\<not> has_section d ''client''"
    using ensure_role_allows_Inr [of d Side_Server]
    by (cases "item_get d ''client''"; simp add: ensure_client_remote_set_def other_side_def)+
  then show False by (simp add: has_section_def)
qed

definition batch_changes :: "editor \<Rightarrow> io \<Rightarrow> add_args \<Rightarrow> path \<Rightarrow> disk \<Rightarrow>
    pending_service list \<Rightarrow> pending_service list \<Rightarrow> bool \<Rightarrow> item \<Rightarrow> item \<Rightarrow> json list \<Rightarrow> bool" where
  "batch_changes ED os a p w cs ss created doc doc' results \<longleftrightarrow>
     parse_specs ED 0 Side_Client (aa_client_specs a) = Inr cs \<and>
     parse_specs ED (generated_count cs) Side_Server (aa_server_specs a) = Inr ss \<and>
     check_duplicates [] (cs @ ss) = Inr () \<and>
     batch_prerequisites p (case load_document ED os w p of Inl _ \<Rightarrow> Item_Table [] | Inr d \<Rightarrow> d) (cs @ ss) = Inr () \<and>
     open_document ED os p w = Inr (created, doc) \<and>
     check_new (add_server_section (ed_toml ED) (cs @ ss) doc) (cs @ ss) = Inr () \<and>
     insert_all (ed_toml ED) (add_server_section (ed_toml ED) (cs @ ss) doc) (cs @ ss) = Inr (doc', results)"

lemma run_add_batch_cases:
  obtains (error) e where "run_add_batch ED os a p w = (w, Inl e)"
  | (saved) cs ss created doc doc' results where "batch_changes ED os a p w cs ss created doc doc' results"
      "run_add_batch ED os a p w = map_prod id (\<lambda>r. rbind r (\<lambda>_. Inr (J_Object [(''services'', J_Array results)])))
         (save_with_skeleton ED os p doc' created w)"
proof -
  let ?m = "rbind (parse_specs ED 0 Side_Client (aa_client_specs a)) (\<lambda>cs.
           rbind (parse_specs ED (generated_count cs) Side_Server (aa_server_specs a)) (\<lambda>ss.
           rbind (check_duplicates [] (cs @ ss)) (\<lambda>_.
           rbind (batch_prerequisites p
                    (case load_document ED os w p of Inl _ \<Rightarrow> Item_Table [] | Inr d \<Rightarrow> d) (cs @ ss)) (\<lambda>_.
           rbind (open_document ED os p w) (\<lambda>(created, doc).
           let doc1 = add_server_section (ed_toml ED) (cs @ ss) doc in
           rbind (check_new doc1 (cs @ ss)) (\<lambda>_.
           rbind (insert_all (ed_toml ED) doc1 (cs @ ss)) (\<lambda>(doc2, results).
           Inr (created, doc2, results))))))))"
  show thesis
  proof (cases ?m)
    case (Inl e)
    then show thesis using error by (simp add: run_add_batch_def)
  next
    case (Inr x)
    obtain created doc' results where x: "x = (created, doc', results)" by (cases x)
    obtain cs ss doc where "batch_changes ED os a p w cs ss created doc doc' results"
      using Inr unfolding batch_changes_def x by (auto simp: rbind_eq_Inr_iff Let_def)
    then show thesis using saved Inr by (simp add: run_add_batch_def x)
  qed
qed

lemma run_add_batch_safe:
  assumes "tmp_path os p \<noteq> p" "ignores_comments ED"
  shows "safe_outcome os p (valid_text ED) w (run_add_batch ED os a p w)"
  by (cases rule: run_add_batch_cases [of ED os a p w])
    (simp_all add: safe_outcome_map save_with_skeleton_safe [OF assms])

lemma saved_content:
  assumes "tmp_path os p \<noteq> p"
    and "map_prod id (\<lambda>r. rbind r (\<lambda>_. Inr y)) (save_with_skeleton ED os p doc created w) = (w', Inr j)"
  shows "w' p = Some \<lparr>f_content = document_text ED doc created, f_mode = 420\<rparr>"
proof -
  obtain u where "save_with_skeleton ED os p doc created w = (w', Inr u)"
    using assms(2) by (cases "save_with_skeleton ED os p doc created w") (auto simp: rbind_eq_Inr_iff)
  from save_with_skeleton_ok [OF assms(1) this] show ?thesis using assms(1) by simp
qed

context toml_edit_laws
begin

lemma service_exists_other:
  "item_get d (side_key side) = item_get d' (side_key side) \<Longrightarrow> service_exists d side n = service_exists d' side n"
  by (simp add: service_exists_def services_of_def)

lemma run_add_batch_leaf:
  assumes "run_add_batch ED os a p w = (w', Inr j)" "ed_toml ED = TE" "tmp_path os p \<noteq> p" "io_read os p = None"
  shows "\<exists>cs ss doc d. parse_specs ED 0 Side_Client (aa_client_specs a) = Inr cs \<and>
    parse_specs ED (generated_count cs) Side_Server (aa_server_specs a) = Inr ss \<and>
    (if w p = None then doc = Item_Table [] else load_document ED os w p = Inr doc) \<and>
    load_document ED os w' p = Inr d \<and>
    leaf d = added (cs @ ss) (if ss \<noteq> [] \<and> \<not> has_section doc ''server''
      then assign [([''server'', ''bind_addr''], V_String DEFAULT_SERVER_BIND_ADDR)] (leaf doc) else leaf doc) \<and>
    (\<forall>x \<in> set (cs @ ss). \<not> service_exists doc (pe_side x) (pe_name x)) \<and> (cs = [] \<or> ss = [])"
proof (cases rule: run_add_batch_cases [of ED os a p w])
  case (error e)
  then show ?thesis using assms(1) by simp
next
  case (saved cs ss created doc doc' results)
  note b = saved(1) [unfolded batch_changes_def assms(2)]
  have specs: "parse_specs ED 0 Side_Client (aa_client_specs a) = Inr cs"
    "parse_specs ED (generated_count cs) Side_Server (aa_server_specs a) = Inr ss" using b by simp_all
  have op: "open_document ED os p w = Inr (created, doc)" using b by simp
  note doc = open_document_doc [OF op assms(2)]
  have sides: "\<forall>x \<in> set cs. pe_side x = Side_Client" "\<forall>x \<in> set ss. pe_side x = Side_Server"
    and ok: "\<forall>x \<in> set (cs @ ss). entry_ok x"
    using parse_specs_ok [OF specs(1) assms(2)] parse_specs_ok [OF specs(2) assms(2)] by auto
  have hs1: "has_side Side_Server (cs @ ss) = (ss \<noteq> [])"
    using sides by (cases ss) (auto simp: has_side_def list_ex_iff)
  have hs2: "has_side Side_Client (cs @ ss) = (cs \<noteq> [])"
    using sides by (cases cs) (auto simp: has_side_def list_ex_iff)
  note hs = hs1 hs2
  let ?doc = "add_server_section TE (cs @ ss) doc"
  have dup: "check_duplicates [] (cs @ ss) = Inr ()" and chk: "check_new ?doc (cs @ ss) = Inr ()"
    and ins: "insert_all TE ?doc (cs @ ss) = Inr (doc', results)" using b by simp_all
  note a1 = add_server_section_leaf [OF doc(1), where ps = "cs @ ss"]
  have i: "leaf doc' = added (cs @ ss) (leaf ?doc) \<and> is_table doc' \<and> (wf_item ?doc \<longrightarrow> wf_item doc')"
    using insert_all_leaf [OF ins a1(2) ok conjunct1 [OF check_duplicates_distinct [OF dup]]] by simp
  have "w' p = Some \<lparr>f_content = document_text ED doc' created, f_mode = 420\<rparr>"
    by (rule saved_content [OF assms(3) saved(2) [symmetric, unfolded assms(1)]])
  then obtain d where d: "load_document ED os w' p = Inr d" "leaf d = leaf doc'"
    using load_saved [OF assms(2) _ _ assms(4)] i a1(3) [OF doc(2)] by blast
  have new: "\<not> service_exists doc (pe_side x) (pe_name x)" if x: "x \<in> set (cs @ ss)" for x
  proof (cases "item_get doc (side_key (pe_side x)) = item_get ?doc (side_key (pe_side x))")
    case True
    then show ?thesis using check_new_absent [OF chk x] service_exists_other [OF True] by simp
  next
    case False
    then have "pe_side x = Side_Server" "\<not> has_section doc ''server''"
      using a1(4) by (cases "pe_side x"; fastforce simp: add_server_section_def)+
    then show ?thesis by (simp add: service_exists_def services_of_def has_section_def)
  qed
  have "cs = [] \<or> ss = []" using b batch_one_side [of p _ "cs @ ss"] hs by blast
  moreover have "leaf d = added (cs @ ss) (if ss \<noteq> [] \<and> \<not> has_section doc ''server''
      then assign [([''server'', ''bind_addr''], V_String DEFAULT_SERVER_BIND_ADDR)] (leaf doc) else leaf doc)"
    using d(2) i a1(1) hs(1) by simp
  moreover have "if w p = None then doc = Item_Table [] else load_document ED os w p = Inr doc"
    using doc(3,4) by simp
  ultimately show ?thesis using specs d(1) new by blast
qed

end


section \<open>The other ways to add\<close>

text \<open>
  A section whose \<open>transport\<close> is not a table, which only a check of the whole configuration would
  refuse, makes \<open>config add --noise\<close> panic.
\<close>

lemma noise_transport_panics:
  assumes "item_get doc ''server'' = Some s" "table_like s" "item_get s ''transport'' = Some t" "\<not> table_like t"
  shows "apply_noise_transport TE p (Noise_Server priv pub) doc = None"
  using assms by (simp add: apply_noise_transport_def noise_conflict_def Let_def)

lemma run_add_single_cases:
  assumes "run_add_single ED os a name interactive rs p w = Some r"
  obtains (error) e where "r = (w, Inl e)"
  | (saved) side addr plan token generated created doc doc' j y where
      "open_document ED os p w = Inr (created, doc)"
      "add_single_document (ed_toml ED) a side name addr plan token generated p doc = Some (Inr (doc', j))"
      "r = map_prod id (\<lambda>r. rbind r (\<lambda>_. Inr y)) (save_with_skeleton ED os p doc' created w)"
proof -
  let ?m = "rbind (add_side a interactive (ok_option (load_document ED os w p)) rs) (\<lambda>(side, rs1).
           rbind (client_prerequisites p side (ok_option (load_document ED os w p))) (\<lambda>_.
           rbind (add_inputs ED a side interactive rs1) (\<lambda>(addr, plan, token, generated).
           rbind (open_document ED os p w) (\<lambda>(created, doc).
           Inr (side, addr, plan, token, generated, created, doc)))))"
  show thesis
  proof (cases ?m)
    case (Inl e)
    then have "r = (w, Inl e)" using assms by (simp add: run_add_single_def Let_def)
    then show thesis by (rule error)
  next
    case (Inr x)
    obtain side addr plan token generated created doc where x: "x = (side, addr, plan, token, generated, created, doc)"
      by (cases x)
    have o: "open_document ED os p w = Inr (created, doc)"
      using Inr unfolding x by (auto simp: rbind_eq_Inr_iff)
    obtain z where z: "add_single_document (ed_toml ED) a side name addr plan token generated p doc = Some z"
      using assms Inr unfolding x
      by (cases "add_single_document (ed_toml ED) a side name addr plan token generated p doc")
        (simp_all add: run_add_single_def Let_def)
    show thesis
    proof (cases z)
      case (Inl e)
      then have "r = (w, Inl e)"
        using assms z \<open>?m = Inr x\<close> unfolding x by (simp add: run_add_single_def Let_def)
      then show thesis by (rule error)
    next
      case (Inr d)
      obtain doc' j where d: "d = (doc', j)" by (cases d)
      have "\<exists>y. r = map_prod id (\<lambda>r. rbind r (\<lambda>_. Inr y)) (save_with_skeleton ED os p doc' created w)"
        using assms z Inr \<open>?m = Inr x\<close> unfolding x d by (auto simp: run_add_single_def Let_def)
      then show thesis using saved [OF o z [unfolded Inr d]] by blast
    qed
  qed
qed

lemma run_add_single_safe:
  assumes "run_add_single ED os a name interactive rs p w = Some r" "tmp_path os p \<noteq> p" "ignores_comments ED"
  shows "safe_outcome os p (valid_text ED) w r"
  using assms(1)
  by (cases rule: run_add_single_cases) (simp_all add: safe_outcome_map save_with_skeleton_safe [OF assms(2,3)])

lemma run_add_interactive_safe:
  assumes "tmp_path os p \<noteq> p" "ignores_comments ED"
  shows "safe_outcome os p (valid_text ED) w (run_add_interactive ED os rs p w)"
  unfolding run_add_interactive_def
  by (auto simp: safe_outcome_map save_with_skeleton_safe [OF assms] split: sum.split option.split)

lemma run_add_safe:
  assumes "run_add ED os tty rs a p w = Some r" "tmp_path os p \<noteq> p" "ignores_comments ED"
  shows "safe_outcome os p (valid_text ED) w r"
  using assms(1) run_add_batch_safe [OF assms(2,3)] run_add_interactive_safe [OF assms(2,3)]
    run_add_single_safe [OF _ assms(2,3)]
  by (auto simp: run_add_def Let_def split: if_splits option.splits)


section \<open>The syntax of a SPEC\<close>

text \<open>A value that a SPEC can carry: no white space at its ends, no semicolon.\<close>

definition trimmed :: "string \<Rightarrow> bool" where
  "trimmed v = list_all (\<lambda>w. \<not> starts_with w v \<and> \<not> starts_with (rev w) (rev v)) white_space"

definition spec_value :: "string \<Rightarrow> bool" where
  "spec_value v \<longleftrightarrow> trimmed v \<and> CHR '';'' \<notin> set v"

definition spec_pairs :: "service_spec \<Rightarrow> (string \<times> string) list" where
  "spec_pairs s =
     [(''name'', spec_name s)] @
     (case spec_local_addr s of None \<Rightarrow> [] | Some a \<Rightarrow> [(''local'', a)]) @
     (case spec_bind_addr s of None \<Rightarrow> [] | Some a \<Rightarrow> [(''bind'', a)]) @
     (case spec_token s of None \<Rightarrow> [] | Some t \<Rightarrow> [(''token'', t)]) @
     (if spec_udp s then [(''type'', ''udp'')] else [])"

definition pair_text :: "string \<times> string \<Rightarrow> string" where
  "pair_text x = fst x @ CHR '':'' # snd x"

definition spec_text :: "service_spec \<Rightarrow> string" where
  "spec_text s = join_str '';'' (map pair_text (spec_pairs s))"

text \<open>The specs of a side.\<close>

definition spec_wf :: "service_side \<Rightarrow> service_spec \<Rightarrow> bool" where
  "spec_wf side s \<longleftrightarrow>
     spec_name s \<noteq> [] \<and> spec_value (spec_name s) \<and> pred_option spec_value (spec_token s) \<and>
     (case side of
        Side_Client \<Rightarrow> spec_bind_addr s = None \<and> (\<exists>a. spec_local_addr s = Some a \<and> spec_value a \<and>
          is_ok (validate_host_port a ''local''))
      | Side_Server \<Rightarrow> spec_local_addr s = None \<and> (\<exists>a. spec_bind_addr s = Some a \<and> spec_value a \<and>
          is_ok (validate_host_port a ''bind'')))"

lemma trim_trimmed: "trimmed v \<Longrightarrow> trim v = v"
proof -
  assume t: "trimmed v"
  have "List.find (\<lambda>w. w \<noteq> [] \<and> starts_with w v) white_space = None"
    "List.find (\<lambda>w. w \<noteq> [] \<and> starts_with w (rev v)) (map rev white_space) = None"
    using t by (auto simp: find_None_iff trimmed_def list_all_iff)
  then show ?thesis
    by (simp add: trim_def trim_start_def trim_end_def strip_leading.simps [of white_space v]
        strip_leading.simps [of "map rev white_space" "rev v"])
qed

lemma starts_with_cut:
  assumes "starts_with w (v @ c # r)" "c \<notin> set w"
  shows "starts_with w v"
proof -
  have t: "take (length w) (v @ c # r) = w" using assms(1) by (simp add: starts_with_def)
  have "length w \<le> length v"
  proof (rule ccontr)
    assume n: "\<not> length w \<le> length v"
    then have "take (length w) (v @ c # r) ! length v = c" by (simp add: nth_append)
    then have "w ! length v = c" using t by simp
    then show False using assms(2) n nth_mem [of "length v" w] by auto
  qed
  then show ?thesis using t by (simp add: starts_with_def)
qed

lemma white_space_chars: "w \<in> set white_space \<Longrightarrow> CHR '':'' \<notin> set w \<and> w \<noteq> [] \<and> hd w \<notin> set ''nlbt''"
  by (auto simp: white_space_def)

lemma trimmed_pair:
  assumes "trimmed v" "k \<noteq> []" "hd k \<in> set ''nlbt''"
  shows "trimmed (k @ CHR '':'' # v)"
proof -
  have "\<not> starts_with w (k @ CHR '':'' # v) \<and> \<not> starts_with (rev w) (rev (k @ CHR '':'' # v))"
    if w: "w \<in> set white_space" for w
  proof
    show "\<not> starts_with w (k @ CHR '':'' # v)"
      using white_space_chars [OF w] assms(2,3) by (cases w; cases k) (auto simp: starts_with_def)
    have "\<not> starts_with (rev w) (rev v)" using assms(1) w by (simp add: trimmed_def list_all_iff)
    then show "\<not> starts_with (rev w) (rev (k @ CHR '':'' # v))"
      using starts_with_cut [of "rev w" "rev v" "CHR '':''" "rev k"] white_space_chars [OF w] by auto
  qed
  then show ?thesis by (simp add: trimmed_def list_all_iff)
qed

lemma split_join:
  assumes "\<forall>x \<in> set xs. CHR '';'' \<notin> set x" "CHR '';'' \<notin> set x"
  shows "split_on CHR '';'' (join_str '';'' (x # xs)) = x # xs"
  using assms
proof (induction xs arbitrary: x)
  case Nil
  then show ?case by (simp add: join_str_def split_on_no_sep)
next
  case (Cons y xs)
  have "join_str '';'' (x # y # xs) = x @ CHR '';'' # join_str '';'' (y # xs)" by (simp add: join_str_def)
  with Cons show ?case by (simp add: split_on_append)
qed

text \<open>One pair after the other is parsed.\<close>

lemma parse_pairs_Cons:
  assumes "spec_value v" "k \<in> {''name'', ''local'', ''bind'', ''token'', ''type''}"
  shows "parse_pairs side (pair_text (k, v) # xs) s = rbind (parse_pair side k v s) (parse_pairs side xs)"
proof -
  have v: "trimmed v" using assms(1) by (simp add: spec_value_def)
  have k: "k \<noteq> []" "hd k \<in> set ''nlbt''" "CHR '':'' \<notin> set k" using assms(2) by auto
  have t: "trim (pair_text (k, v)) = pair_text (k, v)"
    using trim_trimmed [OF trimmed_pair [OF v k(1,2)]] by (simp add: pair_text_def)
  have "trimmed k" using assms(2) by (elim insertE emptyE; simp add: trimmed_def white_space_def starts_with_def)
  then have "trim k = k" by (rule trim_trimmed)
  moreover have "split_once CHR '':'' (pair_text (k, v)) = Some (k, v)"
    using k(3) by (simp add: split_once_Some_iff pair_text_def)
  moreover have "pair_text (k, v) \<noteq> []" by (simp add: pair_text_def)
  ultimately show ?thesis by (simp add: t trim_trimmed [OF v])
qed


lemma spec_pairs_values:
  assumes "spec_wf side s" "(k, v) \<in> set (spec_pairs s)"
  shows "spec_value v \<and> k \<in> {''name'', ''local'', ''bind'', ''token'', ''type''}"
proof -
  have "spec_value ''udp''" by (simp add: spec_value_def trimmed_def white_space_def starts_with_def)
  then show ?thesis using assms
    by (cases side; cases "spec_token s") (auto simp: spec_wf_def spec_pairs_def split: if_splits)
qed

lemma parse_pair_simps:
  "parse_pair side ''name'' v s = Inr (s\<lparr>spec_name := v\<rparr>)"
  "parse_pair side ''token'' v s = Inr (s\<lparr>spec_token := Some v\<rparr>)"
  "parse_pair side ''type'' ''udp'' s = Inr (s\<lparr>spec_udp := True\<rparr>)"
  "is_ok (validate_host_port v ''local'') \<Longrightarrow> parse_pair Side_Client ''local'' v s = Inr (s\<lparr>spec_local_addr := Some v\<rparr>)"
  "is_ok (validate_host_port v ''bind'') \<Longrightarrow> parse_pair Side_Server ''bind'' v s = Inr (s\<lparr>spec_bind_addr := Some v\<rparr>)"
  by (auto simp: parse_pair_def is_ok_iff)

lemma parse_pairs_spec:
  assumes "\<forall>(k, v) \<in> set xs. spec_value v \<and> k \<in> {''name'', ''local'', ''bind'', ''token'', ''type''}"
  shows "parse_pairs side (map pair_text xs) s = foldl (\<lambda>r (k, v). rbind r (parse_pair side k v)) (Inr s) xs"
  using assms
proof (induction xs arbitrary: s)
  case (Cons x xs)
  obtain k v where x: "x = (k, v)" by (cases x)
  have "foldl (\<lambda>r (k, v). rbind r (parse_pair side k v)) (Inl e) xs = Inl e" for e
    by (induction xs) auto
  then show ?case
    using Cons parse_pairs_Cons [of v k side "map pair_text xs" s] by (cases "parse_pair side k v s") (auto simp: x)
qed simp

lemma parse_spec_text:
  assumes "spec_wf side s"
  shows "parse_spec (spec_text s) side = Inr s"
proof -
  have vals: "\<forall>(k, v) \<in> set (spec_pairs s). spec_value v \<and> k \<in> {''name'', ''local'', ''bind'', ''token'', ''type''}"
    using spec_pairs_values [OF assms] by blast
  have "CHR '';'' \<notin> set (pair_text x)" if x: "x \<in> set (spec_pairs s)" for x
  proof -
    obtain k v where kv: "x = (k, v)" by (cases x)
    have v: "spec_value v" "k \<in> {''name'', ''local'', ''bind'', ''token'', ''type''}"
      using spec_pairs_values [OF assms] x unfolding kv by blast+
    have "CHR '';'' \<notin> set k" using v(2) by (elim insertE emptyE) simp_all
    then show ?thesis using v(1) by (simp add: pair_text_def kv spec_value_def)
  qed
  then have no: "\<forall>p \<in> set (map pair_text (spec_pairs s)). CHR '';'' \<notin> set p" by auto
  obtain y ys where y: "map pair_text (spec_pairs s) = y # ys"
    by (cases "map pair_text (spec_pairs s)") (auto simp: spec_pairs_def)
  have "split_on CHR '';'' (spec_text s) = map pair_text (spec_pairs s)"
    using no unfolding spec_text_def y by (intro split_join) auto
  then have "parse_pairs side (split_on CHR '';'' (spec_text s)) default_spec =
      foldl (\<lambda>r (k, v). rbind r (parse_pair side k v)) (Inr default_spec) (spec_pairs s)"
    using parse_pairs_spec [OF vals] by simp
  also have "\<dots> = Inr s"
  proof -
    obtain n l b t u where s: "s = \<lparr>spec_name = n, spec_local_addr = l, spec_bind_addr = b, spec_token = t, spec_udp = u\<rparr>"
      by (cases s)
    show ?thesis
    proof (cases side)
      case Side_Client
      then obtain a where "l = Some a" "b = None" "is_ok (validate_host_port a ''local'')"
        using assms by (auto simp: spec_wf_def s)
      then show ?thesis
        by (cases t; cases u) (simp_all add: s Side_Client spec_pairs_def default_spec_def parse_pair_simps)
    next
      case Side_Server
      then obtain a where "b = Some a" "l = None" "is_ok (validate_host_port a ''bind'')"
        using assms by (auto simp: spec_wf_def s)
      then show ?thesis
        by (cases t; cases u) (simp_all add: s Side_Server spec_pairs_def default_spec_def parse_pair_simps)
    qed
  qed
  finally show ?thesis
    using assms by (cases side) (auto simp: parse_spec_def spec_wf_def)
qed

end
