(* ===== verification/Config_Import.thy ===== *)
theory Config_Import
  imports Config_Add
begin

text \<open>
  \<open>src/config_edit.rs\<close>, the command \<open>config import\<close>: the whitelisted fields, the transport
  table and the services of an old configuration are copied into the target, and everything
  else is reported. The lists that the code pushes to are results here, appended in its order.
\<close>

section \<open>Whitelists\<close>

datatype scalar_kind = Kind_Str | Kind_Int | Kind_Bool

fun kind_matches :: "scalar_kind \<Rightarrow> item \<Rightarrow> bool" where
  "kind_matches Kind_Str (Item_Value (V_String _)) = True"
| "kind_matches Kind_Int (Item_Value (V_Integer _)) = True"
| "kind_matches Kind_Bool (Item_Value (V_Boolean _)) = True"
| "kind_matches _ _ = False"

definition CLIENT_IMPORT_GLOBALS :: "(string \<times> scalar_kind) list" where
  "CLIENT_IMPORT_GLOBALS =
     [(''remote_addr'', Kind_Str), (''default_token'', Kind_Str), (''prefer_ipv6'', Kind_Bool),
      (''heartbeat_timeout'', Kind_Int), (''retry_interval'', Kind_Int)]"

definition SERVER_IMPORT_GLOBALS :: "(string \<times> scalar_kind) list" where
  "SERVER_IMPORT_GLOBALS =
     [(''bind_addr'', Kind_Str), (''default_token'', Kind_Str), (''heartbeat_interval'', Kind_Int)]"

definition TRANSPORT_IMPORT_KEYS :: "string list" where
  "TRANSPORT_IMPORT_KEYS = [''type'', ''tcp'', ''tls'', ''noise'', ''websocket'']"

definition TCP_IMPORT_KEYS :: "(string \<times> scalar_kind) list" where
  "TCP_IMPORT_KEYS =
     [(''nodelay'', Kind_Bool), (''keepalive_secs'', Kind_Int), (''keepalive_interval'', Kind_Int),
      (''proxy'', Kind_Str)]"

definition TLS_IMPORT_KEYS :: "(string \<times> scalar_kind) list" where
  "TLS_IMPORT_KEYS =
     [(''hostname'', Kind_Str), (''trusted_root'', Kind_Str), (''pkcs12'', Kind_Str),
      (''pkcs12_password'', Kind_Str)]"

definition NOISE_IMPORT_KEYS :: "(string \<times> scalar_kind) list" where
  "NOISE_IMPORT_KEYS =
     [(''pattern'', Kind_Str), (''local_private_key'', Kind_Str), (''remote_public_key'', Kind_Str)]"

definition WEBSOCKET_IMPORT_KEYS :: "(string \<times> scalar_kind) list" where
  "WEBSOCKET_IMPORT_KEYS = [(''tls'', Kind_Bool)]"

definition CLIENT_SERVICE_IMPORT_KEYS :: "(string \<times> scalar_kind) list" where
  "CLIENT_SERVICE_IMPORT_KEYS =
     [(''type'', Kind_Str), (''local_addr'', Kind_Str), (''token'', Kind_Str), (''nodelay'', Kind_Bool),
      (''retry_interval'', Kind_Int), (''prefer_ipv6'', Kind_Bool)]"

definition SERVER_SERVICE_IMPORT_KEYS :: "(string \<times> scalar_kind) list" where
  "SERVER_SERVICE_IMPORT_KEYS =
     [(''type'', Kind_Str), (''bind_addr'', Kind_Str), (''token'', Kind_Str), (''nodelay'', Kind_Bool)]"

definition transport_import_subkeys :: "string \<Rightarrow> (string \<times> scalar_kind) list option" where
  "transport_import_subkeys key =
     (if key = ''tcp'' then Some TCP_IMPORT_KEYS
      else if key = ''tls'' then Some TLS_IMPORT_KEYS
      else if key = ''noise'' then Some NOISE_IMPORT_KEYS
      else if key = ''websocket'' then Some WEBSOCKET_IMPORT_KEYS
      else None)"

definition import_globals :: "service_side \<Rightarrow> (string \<times> scalar_kind) list" where
  "import_globals side = (case side of Side_Client \<Rightarrow> CLIENT_IMPORT_GLOBALS | Side_Server \<Rightarrow> SERVER_IMPORT_GLOBALS)"

definition service_import_keys :: "service_side \<Rightarrow> (string \<times> scalar_kind) list" where
  "service_import_keys side =
     (case side of Side_Client \<Rightarrow> CLIENT_SERVICE_IMPORT_KEYS | Side_Server \<Rightarrow> SERVER_SERVICE_IMPORT_KEYS)"

section \<open>Global fields\<close>

definition reject_reason :: "service_side \<Rightarrow> string \<Rightarrow> scalar_kind \<Rightarrow> item \<Rightarrow> string option" where
  "reject_reason side key kind i =
     (if key \<in> {''remote_addr'', ''bind_addr''} then
        (case validate_host_port (case as_str i of Some s \<Rightarrow> s | None \<Rightarrow> []) key of
           Inl e \<Rightarrow> Some (err_display e) | Inr _ \<Rightarrow> None)
      else if key = ''default_token'' \<and> (case as_str i of None \<Rightarrow> True | Some s \<Rightarrow> s = []) then
        Some ''empty token''
      else if side = Side_Client \<and> key = ''retry_interval'' \<and>
              (case as_integer i of None \<Rightarrow> True | Some v \<Rightarrow> v \<le> 0) then Some ''must be greater than 0''
      else if kind = Kind_Int then
        (case as_integer i of Some v \<Rightarrow> if v < 0 then Some ''negative value'' else None | None \<Rightarrow> None)
      else None)"

text \<open>The section, the applied fields and the ignored keys.\<close>

fun import_fields ::
  "toml_edit \<Rightarrow> service_side \<Rightarrow> item \<Rightarrow> (string \<times> scalar_kind) list \<Rightarrow> item \<Rightarrow> item \<times> string list \<times> string list" where
  "import_fields TE side src [] section = (section, [], [])"
| "import_fields TE side src ((key, kind) # ks) section =
     (case item_get src key of
        None \<Rightarrow> import_fields TE side src ks section
      | Some i \<Rightarrow>
          if \<not> kind_matches kind i then
            (case import_fields TE side src ks section of (s, applied, ignored) \<Rightarrow>
               (s, applied, (side_key side @ ''.'' @ key @ '' (unexpected value type)'') # ignored))
          else
            (case reject_reason side key kind i of
               Some reason \<Rightarrow>
                 (case import_fields TE side src ks section of (s, applied, ignored) \<Rightarrow>
                    (s, applied, (side_key side @ ''.'' @ key @ '' ('' @ reason @ '')'') # ignored))
             | None \<Rightarrow>
                 (case import_fields TE side src ks (te_insert TE section key i) of (s, applied, ignored) \<Rightarrow>
                    (s, key # applied, ignored))))"

definition unknown_section_keys :: "service_side \<Rightarrow> item \<Rightarrow> string list" where
  "unknown_section_keys side src =
     map (\<lambda>k. side_key side @ ''.'' @ k)
       (filter (\<lambda>k. k \<notin> fst ` set (import_globals side) \<and> k \<noteq> ''transport'' \<and> k \<noteq> ''services'') (item_keys src))"

section \<open>The transport table\<close>

fun import_subkeys ::
  "toml_edit \<Rightarrow> string \<Rightarrow> item \<Rightarrow> (string \<times> scalar_kind) list \<Rightarrow> item \<Rightarrow> item \<times> string list" where
  "import_subkeys TE pfx src [] dst = (dst, [])"
| "import_subkeys TE pfx src ((k, kind) # ks) dst =
     (case item_get src k of
        None \<Rightarrow> import_subkeys TE pfx src ks dst
      | Some i \<Rightarrow>
          if \<not> kind_matches kind i then
            (case import_subkeys TE pfx src ks dst of (d, ignored) \<Rightarrow>
               (d, (pfx @ ''.'' @ k @ '' (unexpected value type)'') # ignored))
          else import_subkeys TE pfx src ks (te_insert TE dst k i))"

fun import_subs ::
  "toml_edit \<Rightarrow> path \<Rightarrow> string \<Rightarrow> item \<Rightarrow> string list \<Rightarrow> item \<Rightarrow> anyhow + item \<times> string list" where
  "import_subs TE p pfx src [] transport = Inr (transport, [])"
| "import_subs TE p pfx src (sub # subs) transport =
     (case item_get src sub of
        None \<Rightarrow> import_subs TE p pfx src subs transport
      | Some sub_src \<Rightarrow>
          if \<not> table_like sub_src then
            rbind (import_subs TE p pfx src subs transport) (\<lambda>(t, ignored).
            Inr (t, (pfx @ ''.'' @ sub @ '' (not a table)'') # ignored))
          else
            let keys = (case transport_import_subkeys sub of None \<Rightarrow> [] | Some ks \<Rightarrow> ks) in
            rbind (ensure_table TE transport sub p) (\<lambda>(transport', dst).
            let unknown = map (\<lambda>k. pfx @ ''.'' @ sub @ ''.'' @ k)
                  (filter (\<lambda>k. k \<notin> fst ` set keys) (item_keys sub_src)) in
            case import_subkeys TE (pfx @ ''.'' @ sub) sub_src keys dst of (dst', ignored1) \<Rightarrow>
            rbind (import_subs TE p pfx src subs (put_item sub dst' transport')) (\<lambda>(t, ignored2).
            Inr (t, unknown @ ignored1 @ ignored2))))"

definition import_type :: "toml_edit \<Rightarrow> string \<Rightarrow> item \<Rightarrow> item \<Rightarrow> item \<times> string list" where
  "import_type TE pfx src transport =
     (case item_get src ''type'' of
        None \<Rightarrow> (transport, [])
      | Some ty \<Rightarrow>
          (case as_str ty of
             Some s \<Rightarrow>
               if s \<in> {''tcp'', ''tls'', ''noise'', ''websocket''}
               then (te_insert TE transport ''type'' (str_item s), [])
               else (transport, [pfx @ ''.type (unknown type `'' @ s @ ''`)''])
           | None \<Rightarrow> (transport, [pfx @ ''.type (not a string)''])))"

text \<open>Whether a transport was applied, and what was ignored.\<close>

definition import_transport ::
  "toml_edit \<Rightarrow> path \<Rightarrow> service_side \<Rightarrow> item \<Rightarrow> item \<Rightarrow> anyhow + item \<times> bool \<times> string list" where
  "import_transport TE p side src section =
     (let pfx = side_key side @ ''.transport'' in
      case item_get src ''transport'' of
        None \<Rightarrow> Inr (section, False, [])
      | Some t_src \<Rightarrow>
          if \<not> table_like t_src then Inr (section, False, [pfx @ '' (not a table)''])
          else
            rbind (ensure_table TE section ''transport'' p) (\<lambda>(section', transport).
            let unknown = map (\<lambda>k. pfx @ ''.'' @ k)
                  (filter (\<lambda>k. k \<notin> set TRANSPORT_IMPORT_KEYS) (item_keys t_src)) in
            case import_type TE pfx t_src transport of (t1, ignored1) \<Rightarrow>
            rbind (import_subs TE p pfx t_src [''tcp'', ''tls'', ''noise'', ''websocket''] t1) (\<lambda>(t2, ignored2).
            Inr (put_item ''transport'' t2 section', True, unknown @ ignored1 @ ignored2))))"

section \<open>Services\<close>

fun import_scalars ::
  "toml_edit \<Rightarrow> string \<Rightarrow> item \<Rightarrow> (string \<times> scalar_kind) list \<Rightarrow> item \<Rightarrow> item \<times> string list" where
  "import_scalars TE pfx src [] entry = (entry, [])"
| "import_scalars TE pfx src ((k, kind) # ks) entry =
     (if k \<in> {''type'', ''local_addr'', ''bind_addr'', ''token''} then import_scalars TE pfx src ks entry
      else
        (case item_get src k of
           None \<Rightarrow> import_scalars TE pfx src ks entry
         | Some i \<Rightarrow>
             if \<not> kind_matches kind i then
               (case import_scalars TE pfx src ks entry of (e, ignored) \<Rightarrow>
                  (e, (pfx @ ''.'' @ k @ '' (unexpected value type)'') # ignored))
             else import_scalars TE pfx src ks (te_insert TE entry k i)))"

definition service_addr_key :: "service_side \<Rightarrow> string" where
  "service_addr_key side = (case side of Side_Client \<Rightarrow> ''local_addr'' | Side_Server \<Rightarrow> ''bind_addr'')"

definition entry_type :: "toml_edit \<Rightarrow> item \<Rightarrow> string + item" where
  "entry_type TE src =
     (case item_get src ''type'' of
        None \<Rightarrow> Inr (Item_Table [])
      | Some ty \<Rightarrow>
          (case as_str ty of
             Some s \<Rightarrow> if s \<in> {''tcp'', ''udp''} then Inr (te_insert TE (Item_Table []) ''type'' (str_item s))
                       else Inl (''unknown service type `'' @ s @ ''`'')
           | None \<Rightarrow> Inl ''service type is not a string''))"

definition entry_addr :: "toml_edit \<Rightarrow> service_side \<Rightarrow> item \<Rightarrow> item \<Rightarrow> string + item" where
  "entry_addr TE side src entry =
     (let k = service_addr_key side in
      case Option.bind (item_get src k) as_str of
        Some a \<Rightarrow> if is_ok (validate_host_port a k) then Inr (te_insert TE entry k (str_item a))
                  else Inl (''missing or invalid '' @ k)
      | None \<Rightarrow> Inl (''missing or invalid '' @ k))"

definition entry_token :: "toml_edit \<Rightarrow> bool \<Rightarrow> item \<Rightarrow> item \<Rightarrow> string + item" where
  "entry_token TE default_token_present src entry =
     (case item_get src ''token'' of
        Some t \<Rightarrow>
          (case as_str t of
             Some s \<Rightarrow> if s \<noteq> [] then Inr (te_insert TE entry ''token'' (str_item s))
                       else Inl ''token is not a non-empty string''
           | None \<Rightarrow> Inl ''token is not a non-empty string'')
      | None \<Rightarrow> if default_token_present then Inr entry else Inl ''no token and no default_token available'')"

text \<open>The ignored keys of an entry, with the reason to skip it or the new entry.\<close>

definition import_entry ::
  "toml_edit \<Rightarrow> service_side \<Rightarrow> bool \<Rightarrow> string \<Rightarrow> item \<Rightarrow> string list \<times> (string + item)" where
  "import_entry TE side default_token_present name src =
     (case validate_service_name name of
        Inl e \<Rightarrow> ([], Inl (err_display e))
      | Inr _ \<Rightarrow>
          if \<not> table_like src then ([], Inl ''entry is not a table'')
          else
            let pfx = side_key side @ ''.services.'' @ name;
                unknown = map (\<lambda>k. pfx @ ''.'' @ k)
                  (filter (\<lambda>k. k \<notin> fst ` set (service_import_keys side)) (item_keys src)) in
            (case rbind (entry_type TE src) (\<lambda>e1.
                  rbind (entry_addr TE side src e1) (entry_token TE default_token_present src)) of
               Inl reason \<Rightarrow> (unknown, Inl reason)
             | Inr entry \<Rightarrow>
                 (case import_scalars TE pfx src (service_import_keys side) entry of (e, ignored) \<Rightarrow>
                    (unknown @ ignored, Inr e))))"

record service_report =
  sr_applied :: "string list"
  sr_existing :: "string list"
  sr_invalid :: "(string \<times> string) list"
  sr_ignored :: "string list"

definition empty_report :: service_report where
  "empty_report = \<lparr>sr_applied = [], sr_existing = [], sr_invalid = [], sr_ignored = []\<rparr>"

fun import_services ::
  "toml_edit \<Rightarrow> service_side \<Rightarrow> bool \<Rightarrow> string list \<Rightarrow> (string \<times> item) list \<Rightarrow> item \<Rightarrow> item \<times> service_report" where
  "import_services TE side dt existing [] services = (services, empty_report)"
| "import_services TE side dt existing ((name, src) # es) services =
     (if name \<in> set existing then
        (case import_services TE side dt existing es services of (t, r) \<Rightarrow>
           (t, r\<lparr>sr_existing := name # sr_existing r\<rparr>))
      else
        (case import_entry TE side dt name src of
           (ignored, Inl reason) \<Rightarrow>
             (case import_services TE side dt existing es services of (t, r) \<Rightarrow>
                (t, r\<lparr>sr_invalid := (name, reason) # sr_invalid r, sr_ignored := ignored @ sr_ignored r\<rparr>))
         | (ignored, Inr entry) \<Rightarrow>
             (case import_services TE side dt existing es (te_insert TE services name entry) of (t, r) \<Rightarrow>
                (t, r\<lparr>sr_applied := name # sr_applied r, sr_ignored := ignored @ sr_ignored r\<rparr>))))"

definition existing_services :: "item \<Rightarrow> string list" where
  "existing_services section =
     (case item_get section ''services'' of None \<Rightarrow> [] | Some t \<Rightarrow> item_keys t)"

definition has_default_token :: "item \<Rightarrow> bool" where
  "has_default_token section =
     (case Option.bind (item_get section ''default_token'') as_str of None \<Rightarrow> False | Some t \<Rightarrow> t \<noteq> [])"

definition import_service_table ::
  "toml_edit \<Rightarrow> path \<Rightarrow> service_side \<Rightarrow> item \<Rightarrow> item \<Rightarrow> anyhow + item \<times> service_report" where
  "import_service_table TE p side src section =
     (case item_get src ''services'' of
        None \<Rightarrow> Inr (section, empty_report)
      | Some svcs \<Rightarrow>
          (case entries svcs of
             None \<Rightarrow> Inr (section, empty_report\<lparr>sr_ignored := [side_key side @ ''.services (not a table)'']\<rparr>)
           | Some es \<Rightarrow>
               rbind (ensure_table TE section ''services'' p) (\<lambda>(section', services).
               case import_services TE side (has_default_token section) (existing_services section) es services of
                 (services', r) \<Rightarrow> Inr (put_item ''services'' services' section', r))))"

section \<open>The command\<close>

record import_report =
  ir_side :: service_side
  ir_fields :: "string list"
  ir_transport :: bool
  ir_services :: service_report
  ir_ignored :: "string list"
  ir_created :: bool

definition import_document ::
  "toml_edit \<Rightarrow> string \<Rightarrow> path \<Rightarrow> service_side \<Rightarrow> bool \<Rightarrow> item \<Rightarrow> item \<Rightarrow> anyhow + item \<times> import_report" where
  "import_document TE source p side created src doc =
     (let key = side_key side;
          addr_key = (case side of Side_Client \<Rightarrow> ''remote_addr'' | Side_Server \<Rightarrow> ''bind_addr'') in
      rbind (with_context (Ctx (''cannot import a '' @ key @ '' config into '' @ display_path p))
               (ensure_role_allows doc side)) (\<lambda>_.
      rbind (if has_section doc key then Inr doc
             else if Option.bind (item_get src addr_key) as_str = None then
               Inl (Err (''old config has no ['' @ key @ ''].'' @ addr_key @ ''; cannot create the ['' @ key @
                 ''] section in '' @ display_path p))
             else Inr (te_insert TE doc key (te_insert TE (Item_Table []) ''services'' (Item_Table [])))) (\<lambda>doc1.
      rbind (ok_or (not_a_table key p)
               (Option.bind (item_get doc1 key) (\<lambda>s. if table_like s then Some s else None))) (\<lambda>section.
      case import_fields TE side src (import_globals side) section of (s1, applied, ignored1) \<Rightarrow>
      rbind (import_transport TE p side src s1) (\<lambda>(s2, applied_transport, ignored2).
      rbind (import_service_table TE p side src s2) (\<lambda>(s3, services).
      Inr (put_item key s3 doc1,
           \<lparr>ir_side = side, ir_fields = applied, ir_transport = applied_transport, ir_services = services,
            ir_ignored = ignored1 @ unknown_section_keys side src @ ignored2 @ sr_ignored services,
            ir_created = created\<rparr>)))))))"

definition side_of_role :: "service_role \<Rightarrow> service_side" where
  "side_of_role role = (case role of Role_Client \<Rightarrow> Side_Client | Role_Server \<Rightarrow> Side_Server)"

definition load_source :: "editor \<Rightarrow> io \<Rightarrow> path \<Rightarrow> disk \<Rightarrow> anyhow + service_side \<times> item" where
  "load_source ED os source w =
     rbind (case read_to_string os w source of
              Inl e \<Rightarrow> Inl (io_anyhow (''Failed to read old config '' @ display_path source, e))
            | Inr s \<Rightarrow> with_context (Ctx (''Failed to parse old config '' @ display_path source))
                         (te_parse (ed_toml ED) s)) (\<lambda>src.
     rbind (with_context (Ctx (''invalid old config '' @ display_path source)) (detect_role src)) (\<lambda>role.
     let side = side_of_role role in
     rbind (ok_or (not_a_table (side_key side) source)
              (Option.bind (item_get src (side_key side)) (\<lambda>s. if table_like s then Some s else None)))
       (\<lambda>section. Inr (side, section))))"

definition import_changes ::
  "editor \<Rightarrow> io \<Rightarrow> path \<Rightarrow> path \<Rightarrow> disk \<Rightarrow> anyhow + item \<times> import_report" where
  "import_changes ED os source p w =
     rbind (load_source ED os source w) (\<lambda>(side, src).
     rbind (open_document ED os p w) (\<lambda>(created, doc).
     import_document (ed_toml ED) (display_path source) p side created src doc))"

definition strings :: "string list \<Rightarrow> json" where
  "strings ss = J_Array (map J_String ss)"

definition import_result :: "path \<Rightarrow> import_report \<Rightarrow> json" where
  "import_result source r = J_Object
     [(''action'', J_String ''import''), (''source'', J_String (display_path source)),
      (''side'', J_String (side_key (ir_side r))),
      (''applied'', J_Object [(''fields'', strings (ir_fields r)), (''transport'', J_Bool (ir_transport r)),
         (''services'', strings (sr_applied (ir_services r)))]),
      (''skipped'', J_Object [(''existing_services'', strings (sr_existing (ir_services r))),
         (''invalid_services'', J_Array (map (\<lambda>(n, reason). J_Object
            [(''name'', J_String n), (''reason'', J_String reason)]) (sr_invalid (ir_services r))))]),
      (''ignored'', strings (ir_ignored r)), (''created'', J_Bool (ir_created r))]"

definition run_import :: "editor \<Rightarrow> io \<Rightarrow> path \<Rightarrow> path \<Rightarrow> disk \<Rightarrow> disk \<times> (anyhow + json)" where
  "run_import ED os source p w =
     (case import_changes ED os source p w of
        Inl e \<Rightarrow> (w, Inl e)
      | Inr (doc, r) \<Rightarrow>
          map_prod id (\<lambda>x. rbind x (\<lambda>_. Inr (import_result source r)))
            (save_with_skeleton ED os p doc (ir_created r) w))"


section \<open>What an import copies\<close>

definition named :: "item \<Rightarrow> string \<Rightarrow> item option" where
  "named section n = Option.bind (item_get section ''services'') (\<lambda>t. item_get t n)"

lemma existing_services_iff: "n \<in> set (existing_services section) \<longleftrightarrow> named section n \<noteq> None"
  by (cases "item_get section ''services''") (simp_all add: existing_services_def named_def item_keys_iff)

definition copied_item :: "(string \<times> scalar_kind) list \<Rightarrow> item \<Rightarrow> string \<Rightarrow> item option" where
  "copied_item ks src k =
     Option.bind (map_of ks k) (\<lambda>kind. Option.bind (item_get src k) (\<lambda>i. if kind_matches kind i then Some i else None))"

lemma kind_matches_value: "kind_matches kind i \<Longrightarrow> \<exists>v. i = Item_Value v \<and> entries i = None"
  by (cases "(kind, i)" rule: kind_matches.cases) auto

lemma bind_if_pred: "pred_option P x \<Longrightarrow> Option.bind x (\<lambda>i. if P i then Some i else None) = x"
  by (cases x) auto

lemma kind_matches_str: "kind_matches Kind_Str i \<longleftrightarrow> as_str i \<noteq> None"
  by (cases i rule: as_str.cases) auto

lemma as_str_item: "as_str i = Some s \<Longrightarrow> i = str_item s"
  by (cases i rule: as_str.cases) (auto simp: str_item_def)

lemma special_keys:
  "service_addr_key side \<in> {''type'', ''local_addr'', ''bind_addr'', ''token''}"
  "map_of (service_import_keys side) (service_addr_key side) = Some Kind_Str"
  "map_of (service_import_keys side) ''type'' = Some Kind_Str"
  "map_of (service_import_keys side) ''token'' = Some Kind_Str"
  "service_addr_key side \<noteq> ''type''" "service_addr_key side \<noteq> ''token''"
  "k \<in> {''type'', ''local_addr'', ''bind_addr'', ''token''} \<Longrightarrow> k \<noteq> service_addr_key side \<Longrightarrow>
     k \<noteq> ''type'' \<Longrightarrow> k \<noteq> ''token'' \<Longrightarrow> map_of (service_import_keys side) k = None"
  "distinct_keys (service_import_keys side)"
  by (cases side; auto simp: service_addr_key_def service_import_keys_def CLIENT_SERVICE_IMPORT_KEYS_def
      SERVER_SERVICE_IMPORT_KEYS_def)+

context toml_edit_laws
begin

lemma get_insert_value:
  "table_like t \<Longrightarrow> item_get (te_insert TE t k (Item_Value v)) k' = (if k' = k then Some (Item_Value v) else item_get t k')"
  by (simp add: get_insert_storable get_insert_other)

lemma get_insert_str:
  "table_like t \<Longrightarrow> item_get (te_insert TE t k (str_item s)) k' = (if k' = k then Some (str_item s) else item_get t k')"
  unfolding str_item_def by (rule get_insert_value)

lemma import_scalars_get:
  assumes "import_scalars TE pfx src ks t = (e, ign)" "table_like t" "distinct_keys ks"
  shows "item_get e k = (if k \<in> {''type'', ''local_addr'', ''bind_addr'', ''token''} \<or> copied_item ks src k = None
      then item_get t k else copied_item ks src k) \<and> table_like e"
  using assms
proof (induction ks arbitrary: t e ign)
  case Nil
  then show ?case by (simp add: copied_item_def)
next
  case (Cons x ks)
  obtain k' kind where x: "x = (k', kind)" by (cases x)
  have new: "map_of ks k' = None" using Cons.prems(3) by (simp add: x map_of_eq_None_iff)
  have d: "distinct_keys ks" using Cons.prems(3) by simp
  show ?case
  proof (cases "k' \<in> {''type'', ''local_addr'', ''bind_addr'', ''token''} \<or> copied_item (x # ks) src k' = None")
    case True
    then have "\<exists>ign'. import_scalars TE pfx src ks t = (e, ign')"
      using Cons.prems(1)
      by (auto simp: x copied_item_def split: if_splits option.splits prod.splits)
    then have ih: "item_get e k = (if k \<in> {''type'', ''local_addr'', ''bind_addr'', ''token''} \<or> copied_item ks src k = None
      then item_get t k else copied_item ks src k) \<and> table_like e"
      using Cons.IH [OF _ Cons.prems(2) d] by blast
    then show ?thesis using True new by (cases "k = k'") (auto simp: x copied_item_def)
  next
    case False
    then obtain i where i: "item_get src k' = Some i" "kind_matches kind i"
      by (auto simp: x copied_item_def bind_eq_Some_conv split: if_splits)
    obtain v where v: "i = Item_Value v" using kind_matches_value [OF i(2)] by blast
    have "import_scalars TE pfx src ks (te_insert TE t k' i) = (e, ign)"
      using Cons.prems(1) False i by (simp add: x)
    then have ih: "item_get e k = (if k \<in> {''type'', ''local_addr'', ''bind_addr'', ''token''} \<or> copied_item ks src k = None
      then item_get (te_insert TE t k' i) k else copied_item ks src k) \<and> table_like e"
      by (rule Cons.IH [OF _ insert_table_like [OF Cons.prems(2)] d])
    then show ?thesis using False new i Cons.prems(2)
      by (cases "k = k'") (auto simp: x copied_item_def v get_insert_value)
  qed
qed

lemma import_scalars_wf:
  "import_scalars TE pfx src ks t = (e, ign) \<Longrightarrow> wf_item src \<Longrightarrow> table_like t \<Longrightarrow> wf_item t \<Longrightarrow>
   wf_item e \<and> is_table e = is_table t"
proof (induction ks arbitrary: t e ign)
  case (Cons x ks)
  obtain k kind where x: "x = (k, kind)" by (cases x)
  show ?case
  proof (cases "\<exists>ign'. import_scalars TE pfx src ks t = (e, ign')")
    case True
    then show ?thesis using Cons by blast
  next
    case False
    then obtain i where i: "item_get src k = Some i"
      "import_scalars TE pfx src ks (te_insert TE t k i) = (e, ign)"
      using Cons.prems(1) by (auto simp: x split: if_splits option.splits prod.splits)
    have "wf_item (te_insert TE t k i)"
      by (rule insert_wf [OF Cons.prems(4,3) wf_item_get [OF Cons.prems(2) i(1)]])
    then show ?thesis
      using Cons.IH [OF i(2) Cons.prems(2) insert_table_like [OF Cons.prems(3)]] insert_is_table [OF Cons.prems(3)] by simp
  qed
qed simp

lemma entry_type_get:
  assumes "entry_type TE src = Inr e"
  shows "is_table e" "wf_item e" "item_get e k = (if k = ''type'' then item_get src k else None)"
    "pred_option (kind_matches Kind_Str) (item_get src ''type'')"
proof -
  have t: "table_like (Item_Table [])" by simp
  show "is_table e" "wf_item e" "item_get e k = (if k = ''type'' then item_get src k else None)"
    "pred_option (kind_matches Kind_Str) (item_get src ''type'')"
    using assms insert_is_table [OF t] get_insert_str [OF t] flat_str_inserts(2) [of "Item_Table []"]
    by (auto simp: entry_type_def item_get_def [of "Item_Table []"] kind_matches_str
        split: option.splits if_splits dest: as_str_item)
qed

lemma entry_addr_get:
  assumes "entry_addr TE side src t = Inr e" "is_table t" "wf_item t"
  shows "is_table e" "wf_item e"
    "item_get e k = (if k = service_addr_key side then item_get src k else item_get t k)"
    "pred_option (kind_matches Kind_Str) (item_get src (service_addr_key side))"
proof -
  have t: "table_like t" using assms(2) by simp
  obtain i a where i: "item_get src (service_addr_key side) = Some i" "as_str i = Some a"
    "e = te_insert TE t (service_addr_key side) (str_item a)"
    using assms(1) by (auto simp: entry_addr_def Let_def bind_eq_Some_conv split: option.splits if_splits)
  show "is_table e" using assms(2) by (simp add: i(3) insert_is_table [OF t])
  show "wf_item e" unfolding i(3) by (rule insert_wf [OF assms(3) t]) (simp add: str_item_def)
  show "item_get e k = (if k = service_addr_key side then item_get src k else item_get t k)"
    using i(1) as_str_item [OF i(2)] by (simp add: i(3) get_insert_str [OF t])
  show "pred_option (kind_matches Kind_Str) (item_get src (service_addr_key side))"
    using i(1,2) by (simp add: kind_matches_str)
qed

lemma entry_token_get:
  assumes "entry_token TE dt src t = Inr e" "is_table t" "wf_item t" "item_get t ''token'' = None"
  shows "is_table e" "wf_item e" "item_get e k = (if k = ''token'' then item_get src k else item_get t k)"
    "pred_option (kind_matches Kind_Str) (item_get src ''token'')"
proof -
  have t: "table_like t" using assms(2) by simp
  have "is_table e \<and> wf_item e \<and> item_get e k = (if k = ''token'' then item_get src k else item_get t k) \<and>
    pred_option (kind_matches Kind_Str) (item_get src ''token'')"
  proof (cases "item_get src ''token''")
    case None
    then show ?thesis using assms by (auto simp: entry_token_def split: if_splits)
  next
    case (Some i)
    then obtain s where s: "as_str i = Some s" "e = te_insert TE t ''token'' (str_item s)"
      using assms(1) by (auto simp: entry_token_def split: option.splits if_splits)
    have "wf_item e" unfolding s(2) by (rule insert_wf [OF assms(3) t]) (simp add: str_item_def)
    then show ?thesis using Some assms(2) s(1) as_str_item [OF s(1)]
      by (simp add: s(2) insert_is_table [OF t] get_insert_str [OF t] kind_matches_str)
  qed
  then show "is_table e" "wf_item e" "item_get e k = (if k = ''token'' then item_get src k else item_get t k)"
    "pred_option (kind_matches Kind_Str) (item_get src ''token'')"
    by blast+
qed

text \<open>An entry that is accepted is the whitelisted part of the old one.\<close>

lemma import_entry_get:
  assumes "import_entry TE side dt name src = (ign, Inr e)" "wf_item src"
  shows "is_table e" "wf_item e" "item_get e k = copied_item (service_import_keys side) src k"
proof -
  obtain p ign' e3 where r: "rbind (entry_type TE src) (\<lambda>e1.
      rbind (entry_addr TE side src e1) (entry_token TE dt src)) = Inr e3"
    and s: "import_scalars TE p src (service_import_keys side) e3 = (e, ign')"
    using assms(1) unfolding import_entry_def Let_def
    by (cases "rbind (entry_type TE src) (\<lambda>e1. rbind (entry_addr TE side src e1) (entry_token TE dt src))")
      (simp_all split: sum.splits if_splits prod.splits)
  obtain e1 e2 where e: "entry_type TE src = Inr e1" "entry_addr TE side src e1 = Inr e2"
    "entry_token TE dt src e2 = Inr e3"
    using r unfolding rbind_eq_Inr_iff by blast
  note g1 = entry_type_get [OF e(1)]
  note g2 = entry_addr_get [OF e(2) g1(1,2)]
  have n: "item_get e2 ''token'' = None"
    using g2(3) [of "''token''"] g1(3) [of "''token''"] special_keys(6) [of side] by simp
  note g3 = entry_token_get [OF e(3) g2(1,2) n]
  note g4 = import_scalars_get [OF s is_table_like [OF g3(1)] special_keys(8), of k]
  note g5 = import_scalars_wf [OF s assms(2) is_table_like [OF g3(1)] g3(2)]
  show "is_table e" "wf_item e" using g5 g3(1) by simp_all
  have g3k: "item_get e3 k = (if k \<in> {''type'', service_addr_key side, ''token''} then item_get src k else None)"
    using g3(3) [of k] g2(3) [of k] g1(3) [of k] by auto
  have str: "copied_item (service_import_keys side) src k = item_get src k"
    if "k \<in> {''type'', service_addr_key side, ''token''}"
    using that g1(4) g2(4) g3(4) special_keys(2,3,4) [of side]
    by (auto simp: copied_item_def bind_if_pred)
  have none: "copied_item (service_import_keys side) src k = None"
    if "k \<in> {''type'', ''local_addr'', ''bind_addr'', ''token''}" "k \<notin> {''type'', service_addr_key side, ''token''}"
    using special_keys(7) [of k side] that by (simp add: copied_item_def)
  show "item_get e k = copied_item (service_import_keys side) src k"
    using g4 g3k str none special_keys(1) [of side]
    by (cases "k \<in> {''type'', service_addr_key side, ''token''}";
        cases "k \<in> {''type'', ''local_addr'', ''bind_addr'', ''token''}";
        cases "copied_item (service_import_keys side) src k = None") auto
qed

lemma import_services_get:
  assumes "import_services TE side dt existing es t = (t', r)" "is_table t" "wf_item t"
    and "distinct_keys es" "\<forall>(n, i) \<in> set es. wf_item i"
  shows "is_table t'" "wf_item t'"
    "n \<notin> set (sr_applied r) \<Longrightarrow> item_get t' n = item_get t n"
    "n \<in> set (sr_applied r) \<Longrightarrow> n \<notin> set existing \<and> (\<exists>src e. map_of es n = Some src \<and> item_get t' n = Some e \<and>
      is_table e \<and> (\<forall>k. item_get e k = copied_item (service_import_keys side) src k))"
    "mset (sr_applied r @ sr_existing r @ map fst (sr_invalid r)) = mset (map fst es)"
    "sr_existing r = filter (\<lambda>n. n \<in> set existing) (map fst es)" "set (sr_applied r) \<subseteq> fst ` set es"
proof -
  have "is_table t' \<and> wf_item t' \<and> (n \<notin> set (sr_applied r) \<longrightarrow> item_get t' n = item_get t n) \<and>
    (n \<in> set (sr_applied r) \<longrightarrow> n \<notin> set existing \<and> (\<exists>src e. map_of es n = Some src \<and> item_get t' n = Some e \<and>
      is_table e \<and> (\<forall>k. item_get e k = copied_item (service_import_keys side) src k))) \<and>
    mset (sr_applied r @ sr_existing r @ map fst (sr_invalid r)) = mset (map fst es) \<and>
    sr_existing r = filter (\<lambda>n. n \<in> set existing) (map fst es) \<and> set (sr_applied r) \<subseteq> fst ` set es"
    using assms
  proof (induction es arbitrary: t r)
    case Nil
    then show ?case by (auto simp: empty_report_def)
  next
    case (Cons x es)
    obtain m src where x: "x = (m, src)" by (cases x)
    have d: "distinct_keys es" "\<forall>(n, i) \<in> set es. wf_item i" "m \<notin> fst ` set es" "wf_item src"
      using Cons.prems(4,5) by (auto simp: x)
    note ih = Cons.IH [OF _ _ _ d(1,2)]
    consider (old) "m \<in> set existing"
      | (bad) ignored reason where "m \<notin> set existing" "import_entry TE side dt m src = (ignored, Inl reason)"
      | (new) ignored e where "m \<notin> set existing" "import_entry TE side dt m src = (ignored, Inr e)"
      by (cases "import_entry TE side dt m src"; cases "snd (import_entry TE side dt m src)") auto
    then show ?case
    proof cases
      case old
      obtain r' where r: "import_services TE side dt existing es t = (t', r')"
        "r = r'\<lparr>sr_existing := m # sr_existing r'\<rparr>"
        using Cons.prems(1) old by (auto simp: x split: prod.splits)
      show ?thesis using ih [OF r(1) Cons.prems(2,3)] old d(3)
        by (auto simp: x r(2))
    next
      case bad
      obtain r' where r: "import_services TE side dt existing es t = (t', r')"
        "r = r'\<lparr>sr_invalid := (m, reason) # sr_invalid r', sr_ignored := ignored @ sr_ignored r'\<rparr>"
        using Cons.prems(1) bad by (auto simp: x split: prod.splits)
      show ?thesis using ih [OF r(1) Cons.prems(2,3)] bad d(3)
        by (auto simp: x r(2))
    next
      case new
      note t = is_table_like [OF Cons.prems(2)]
      note e = import_entry_get [OF new(2) d(4)]
      let ?t = "te_insert TE t m e"
      obtain r' where r: "import_services TE side dt existing es ?t = (t', r')"
        "r = r'\<lparr>sr_applied := m # sr_applied r', sr_ignored := ignored @ sr_ignored r'\<rparr>"
        using Cons.prems(1) new by (auto simp: x split: prod.splits)
      have t2: "is_table ?t" "wf_item ?t"
        using insert_is_table [OF t] Cons.prems(2) insert_wf [OF Cons.prems(3) t e(2)] by simp_all
      have g: "item_get ?t n = (if n = m then Some e else item_get t n)"
        using get_insert_storable [OF t storable_table [OF Cons.prems(2)]] get_insert_other [OF t] by simp
      have m: "m \<notin> set (sr_applied r')" using ih [OF r(1) t2] d(3) by blast
      show ?thesis
        using ih [OF r(1) t2] new(1) d(3) g e(1,3) m by (cases "n = m") (auto simp: x r(2))
    qed
  qed
  then show "is_table t'" "wf_item t'" "n \<notin> set (sr_applied r) \<Longrightarrow> item_get t' n = item_get t n"
    "n \<in> set (sr_applied r) \<Longrightarrow> n \<notin> set existing \<and> (\<exists>src e. map_of es n = Some src \<and> item_get t' n = Some e \<and>
      is_table e \<and> (\<forall>k. item_get e k = copied_item (service_import_keys side) src k))"
    "mset (sr_applied r @ sr_existing r @ map fst (sr_invalid r)) = mset (map fst es)"
    "sr_existing r = filter (\<lambda>n. n \<in> set existing) (map fst es)" "set (sr_applied r) \<subseteq> fst ` set es"
    by blast+
qed

lemma import_fields_get:
  assumes "import_fields TE side src ks s = (s', applied, ign)" "table_like s" "wf_item s" "wf_item src"
  shows "table_like s' \<and> is_table s' = is_table s \<and> wf_item s' \<and> set applied \<subseteq> fst ` set ks \<and>
    item_get s' k = (if k \<in> set applied then item_get src k else item_get s k)"
  using assms
proof (induction ks arbitrary: s applied ign)
  case (Cons x ks)
  obtain k' kind where x: "x = (k', kind)" by (cases x)
  consider (skip) ign' where "import_fields TE side src ks s = (s', applied, ign')"
    | (copy) i applied' where "item_get src k' = Some i" "kind_matches kind i"
        "import_fields TE side src ks (te_insert TE s k' i) = (s', applied', ign)" "applied = k' # applied'"
    using Cons.prems(1) by (auto simp: x split: option.splits if_splits prod.splits)
  then show ?case
  proof cases
    case skip
    show ?thesis using Cons.IH [OF skip Cons.prems(2-4)] by auto
  next
    case copy
    obtain v where v: "i = Item_Value v" using kind_matches_value [OF copy(2)] by blast
    have w: "wf_item (te_insert TE s k' i)"
      by (rule insert_wf [OF Cons.prems(3,2) wf_item_get [OF Cons.prems(4) copy(1)]])
    show ?thesis
      using Cons.IH [OF copy(3) insert_table_like [OF Cons.prems(2)] w Cons.prems(4)] copy(1,4)
        insert_is_table [OF Cons.prems(2)] get_insert_value [OF Cons.prems(2)]
      by (auto simp: x v)
  qed
qed auto

lemma ensure_table_get:
  assumes "ensure_table TE parent key p = Inr (parent', t)" "table_like parent" "wf_item parent"
  shows "table_like parent'" "is_table parent' = is_table parent" "wf_item parent'" "wf_item t"
    "k \<noteq> key \<Longrightarrow> item_get parent' k = item_get parent k"
    "t = child_table parent key \<or> item_get parent key = None \<and> item_get t k' = None"
proof -
  note e = ensure_table_Inr [OF assms(1)]
  show p: "table_like parent'" "is_table parent' = is_table parent" "wf_item parent'"
    using insert_table_like [OF assms(2)] insert_is_table [OF assms(2)] insert_wf [OF assms(3,2)] assms(2,3)
    by (simp_all add: e(1))
  show "wf_item t" by (rule wf_item_get [OF p(3) e(2)])
  show "k \<noteq> key \<Longrightarrow> item_get parent' k = item_get parent k"
    using get_insert_other [OF assms(2)] by (simp add: e(1))
  show "t = child_table parent key \<or> item_get parent key = None \<and> item_get t k' = None"
  proof (cases "item_get parent key")
    case None
    obtain v' where "stored parent (Item_Table []) v'" "item_get parent' key = Some v'"
      using insert_cases [OF assms(2), of "Item_Table []" key] None by (metis e(1))
    then show ?thesis using e(2,3) by (auto simp: stored_def child_table_def None split: if_splits)
  qed (use e in \<open>simp add: child_table_def\<close>)
qed

lemma put_table_wf:
  assumes "item_get t k = Some x" "is_table x" "is_table x'" "wf_item t" "wf_item x'"
  shows "table_like (put_item k x' t)" "is_table (put_item k x' t) = is_table t" "wf_item (put_item k x' t)"
    "item_get (put_item k x' t) k' = (if k' = k then Some x' else item_get t k')"
proof -
  have s: "storable t x'"
    by (rule shape_storable [OF assms(1) is_table_like [OF assms(2)] is_table_like [OF assms(3)]]) (simp add: assms(2,3))
  show "table_like (put_item k x' t)" by (rule table_like_put [OF item_get_table_like [OF assms(1)] s])
  show "is_table (put_item k x' t) = is_table t" by simp
  show "wf_item (put_item k x' t)" by (rule wf_put [OF assms(4,5)])
  show "item_get (put_item k x' t) k' = (if k' = k then Some x' else item_get t k')"
    using get_put [OF _ s] assms(1) by simp
qed

lemma import_subkeys_wf:
  "import_subkeys TE pfx src ks t = (t', ign) \<Longrightarrow> wf_item src \<Longrightarrow> is_table t \<Longrightarrow> wf_item t \<Longrightarrow> is_table t' \<and> wf_item t'"
proof (induction ks arbitrary: t ign)
  case (Cons x ks)
  obtain k kind where x: "x = (k, kind)" by (cases x)
  show ?case
  proof (cases "\<exists>ign'. import_subkeys TE pfx src ks t = (t', ign')")
    case True
    then show ?thesis using Cons by blast
  next
    case False
    then obtain i where i: "item_get src k = Some i"
      "import_subkeys TE pfx src ks (te_insert TE t k i) = (t', ign)"
      using Cons.prems(1) by (auto simp: x split: if_splits option.splits prod.splits)
    note t = is_table_like [OF Cons.prems(3)]
    have "wf_item (te_insert TE t k i)" "is_table (te_insert TE t k i)"
      using insert_wf [OF Cons.prems(4) t wf_item_get [OF Cons.prems(2) i(1)]] insert_is_table [OF t] Cons.prems(3) by simp_all
    then show ?thesis using Cons.IH [OF i(2) Cons.prems(2)] by simp
  qed
qed simp

lemma import_subs_wf:
  "import_subs TE p pfx src subs t = Inr (t', ign) \<Longrightarrow> wf_item src \<Longrightarrow> is_table t \<Longrightarrow> wf_item t \<Longrightarrow> is_table t' \<and> wf_item t'"
proof (induction subs arbitrary: t ign)
  case (Cons sub subs)
  show ?case
  proof (cases "\<exists>ign'. import_subs TE p pfx src subs t = Inr (t', ign')")
    case True
    then show ?thesis using Cons by blast
  next
    case False
    obtain ss where ss: "item_get src sub = Some ss" "table_like ss"
      using Cons.prems(1) False
      by (cases "item_get src sub") (auto simp: rbind_eq_Inr_iff split: if_splits)
    let ?keys = "case transport_import_subkeys sub of None \<Rightarrow> [] | Some ks \<Rightarrow> ks"
    obtain t1 dst where et: "ensure_table TE t sub p = Inr (t1, dst)"
      using Cons.prems(1) ss by (cases "ensure_table TE t sub p") (auto simp: Let_def)
    obtain dst' ign1 where k1: "import_subkeys TE (pfx @ ''.'' @ sub) ss ?keys dst = (dst', ign1)"
      by (cases "import_subkeys TE (pfx @ ''.'' @ sub) ss ?keys dst")
    have "\<exists>ign2. import_subs TE p pfx src subs (put_item sub dst' t1) = Inr (t', ign2)"
      using Cons.prems(1) ss et k1 by (auto simp: Let_def rbind_eq_Inr_iff)
    then obtain ign2 where k2: "import_subs TE p pfx src subs (put_item sub dst' t1) = Inr (t', ign2)" by blast
    note s = ss(1) et and k = k1 k2
    note e = ensure_table_get [OF s(2) is_table_like [OF Cons.prems(3)] Cons.prems(4)]
    note g = ensure_table_Inr [OF s(2)]
    have d: "is_table dst'" "wf_item dst'"
      using import_subkeys_wf [OF k(1) wf_item_get [OF Cons.prems(2) s(1)] g(3) e(4)] by simp_all
    note q = put_table_wf [OF g(2,3) d(1) e(3) d(2)]
    show ?thesis using Cons.IH [OF k(2) Cons.prems(2)] q(2,3) e(2) Cons.prems(3) by simp
  qed
qed simp

lemma import_type_wf:
  assumes "import_type TE pfx src t = (t', ign)" "is_table t" "wf_item t"
  shows "is_table t' \<and> wf_item t'"
proof -
  note l = is_table_like [OF assms(2)]
  have "wf_item (te_insert TE t ''type'' (str_item x)) \<and> is_table (te_insert TE t ''type'' (str_item x))" for x
    using insert_wf [OF assms(3) l, of "str_item x"] insert_is_table [OF l] assms(2) by (simp add: str_item_def)
  then show ?thesis
    using assms by (auto simp: import_type_def split: option.splits if_splits)
qed

lemma import_transport_get:
  assumes "import_transport TE p side src s = Inr (s', b, ign)" "table_like s" "wf_item s" "wf_item src"
  shows "table_like s'" "is_table s' = is_table s" "wf_item s'"
    "k \<noteq> ''transport'' \<Longrightarrow> item_get s' k = item_get s k"
proof -
  have "table_like s' \<and> is_table s' = is_table s \<and> wf_item s' \<and>
    (k \<noteq> ''transport'' \<longrightarrow> item_get s' k = item_get s k)"
  proof (cases "s' = s")
    case True
    then show ?thesis using assms by simp
  next
    case False
    then obtain ts where ts: "item_get src ''transport'' = Some ts" "table_like ts"
      using assms(1) by (cases "item_get src ''transport''") (auto simp: import_transport_def Let_def split: if_splits)
    let ?pfx = "side_key side @ ''.transport''"
    obtain s1 t where e: "ensure_table TE s ''transport'' p = Inr (s1, t)"
      using assms(1) ts by (cases "ensure_table TE s ''transport'' p") (auto simp: import_transport_def Let_def)
    obtain t1 ign1 where t1: "import_type TE ?pfx ts t = (t1, ign1)" by (cases "import_type TE ?pfx ts t")
    obtain t2 ign2 where t2: "import_subs TE p ?pfx ts [''tcp'', ''tls'', ''noise'', ''websocket''] t1 = Inr (t2, ign2)"
      and s': "s' = put_item ''transport'' t2 s1"
      using assms(1) ts e t1
      by (cases "import_subs TE p ?pfx ts [''tcp'', ''tls'', ''noise'', ''websocket''] t1")
        (auto simp: import_transport_def Let_def)
    note g = ensure_table_get [OF e assms(2,3)] and i = ensure_table_Inr [OF e]
    have w1: "is_table t1 \<and> wf_item t1" by (rule import_type_wf [OF t1 i(3) g(4)])
    have w2: "is_table t2 \<and> wf_item t2"
      by (rule import_subs_wf [OF t2 wf_item_get [OF assms(4) ts(1)]]) (use w1 in simp_all)
    note q = put_table_wf [OF i(2,3) conjunct1 [OF w2] g(3) conjunct2 [OF w2]]
    show ?thesis using q g(2) g(5) [of k] by (auto simp: s')
  qed
  then show "table_like s'" "is_table s' = is_table s" "wf_item s'"
    "k \<noteq> ''transport'' \<Longrightarrow> item_get s' k = item_get s k" by blast+
qed

lemma import_service_table_get:
  assumes "import_service_table TE p side src s = Inr (s', r)" "table_like s" "wf_item s" "wf_item src"
  shows "table_like s'" "is_table s' = is_table s" "wf_item s'"
    "k \<noteq> ''services'' \<Longrightarrow> item_get s' k = item_get s k"
    "n \<notin> set (sr_applied r) \<Longrightarrow> named s' n = named s n"
    "n \<in> set (sr_applied r) \<Longrightarrow> named s n = None \<and> (\<exists>old e. named src n = Some old \<and> named s' n = Some e \<and> is_table e \<and>
       (\<forall>k. item_get e k = copied_item (service_import_keys side) old k))"
    "item_get src ''services'' = Some t \<Longrightarrow> table_like t \<Longrightarrow>
       mset (sr_applied r @ sr_existing r @ map fst (sr_invalid r)) = mset (item_keys t) \<and>
       sr_existing r = filter (\<lambda>n. named s n \<noteq> None) (item_keys t)"
proof -
  have "table_like s' \<and> is_table s' = is_table s \<and> wf_item s' \<and> (k \<noteq> ''services'' \<longrightarrow> item_get s' k = item_get s k) \<and>
    (n \<notin> set (sr_applied r) \<longrightarrow> named s' n = named s n) \<and>
    (n \<in> set (sr_applied r) \<longrightarrow> named s n = None \<and> (\<exists>old e. named src n = Some old \<and> named s' n = Some e \<and> is_table e \<and>
       (\<forall>k. item_get e k = copied_item (service_import_keys side) old k))) \<and>
    (item_get src ''services'' = Some t \<and> table_like t \<longrightarrow>
       mset (sr_applied r @ sr_existing r @ map fst (sr_invalid r)) = mset (item_keys t) \<and>
       sr_existing r = filter (\<lambda>n. named s n \<noteq> None) (item_keys t))"
  proof (cases "Option.bind (item_get src ''services'') entries")
    case None
    then have "s' = s" "sr_applied r = []"
      using assms(1) by (auto simp: import_service_table_def empty_report_def split: option.splits)
    moreover have "\<not> (item_get src ''services'' = Some t \<and> table_like t)" using None by auto
    ultimately show ?thesis using assms(2,3) by (intro conjI impI; (blast | simp))
  next
    case (Some es)
    then obtain svcs where svcs: "item_get src ''services'' = Some svcs" "entries svcs = Some es"
      by (auto simp: bind_eq_Some_conv)
    obtain s1 ss where e: "ensure_table TE s ''services'' p = Inr (s1, ss)"
      using assms(1) svcs by (cases "ensure_table TE s ''services'' p") (auto simp: import_service_table_def)
    obtain ss' where i: "import_services TE side (has_default_token s) (existing_services s) es ss = (ss', r)"
      "s' = put_item ''services'' ss' s1"
      using assms(1) svcs e
      by (cases "import_services TE side (has_default_token s) (existing_services s) es ss")
        (auto simp: import_service_table_def)
    note g = ensure_table_get [OF e assms(2,3)] and h = ensure_table_Inr [OF e]
    have wf: "wf_item svcs" by (rule wf_item_get [OF assms(4) svcs(1)])
    have wes: "distinct_keys es" "\<forall>(n, i) \<in> set es. wf_item i"
      using wf svcs(2) by (cases svcs rule: entries.cases; fastforce simp: list_all_iff comp_def case_prod_beta)+
    note m = import_services_get [OF i(1) h(3) g(4) wes]
    note q = put_table_wf [OF h(2,3) m(1) g(3) m(2)]
    have old: "item_get ss n' = named s n'" for n'
      using g(6) [of n'] by (auto simp: named_def child_table_def item_get_def [of "Item_Table []"] split: option.splits)
    have new: "named s' n' = item_get ss' n'" for n' using q(4) [of "''services''"] by (simp add: named_def i(2))
    have src: "map_of es n' = named src n'" for n'
      unfolding named_def svcs(1) by (simp add: item_get_def svcs(2))
    have keys: "item_keys svcs = map fst es" by (simp add: item_keys_def svcs(2))
    have "k \<noteq> ''services'' \<longrightarrow> item_get s' k = item_get s k" using q(4) [of k] g(5) [of k] by (simp add: i(2))
    moreover have "n \<notin> set (sr_applied r) \<longrightarrow> named s' n = named s n" using m(3) [of n] by (simp add: new old)
    moreover have "n \<in> set (sr_applied r) \<longrightarrow> named s n = None \<and> (\<exists>old e. named src n = Some old \<and>
        named s' n = Some e \<and> is_table e \<and> (\<forall>k. item_get e k = copied_item (service_import_keys side) old k))"
      using m(4) [of n] by (simp add: new src existing_services_iff)
    moreover have "sr_existing r = filter (\<lambda>n. named s n \<noteq> None) (item_keys svcs)"
      using m(6) by (simp only: keys existing_services_iff)
    moreover have "item_get src ''services'' = Some t \<and> table_like t \<longrightarrow>
       mset (sr_applied r @ sr_existing r @ map fst (sr_invalid r)) = mset (item_keys t) \<and>
       sr_existing r = filter (\<lambda>n. named s n \<noteq> None) (item_keys t)"
    proof (rule impI)
      assume "item_get src ''services'' = Some t \<and> table_like t"
      then have "t = svcs" using svcs(1) by simp
      then show "mset (sr_applied r @ sr_existing r @ map fst (sr_invalid r)) = mset (item_keys t) \<and>
          sr_existing r = filter (\<lambda>n. named s n \<noteq> None) (item_keys t)"
        using m(5) calculation(4) keys by simp
    qed
    moreover have "table_like s'" "is_table s' = is_table s" "wf_item s'" using q(1,2,3) g(2) by (simp_all add: i(2))
    ultimately show ?thesis by blast
  qed
  then show "table_like s'" "is_table s' = is_table s" "wf_item s'"
    "k \<noteq> ''services'' \<Longrightarrow> item_get s' k = item_get s k" "n \<notin> set (sr_applied r) \<Longrightarrow> named s' n = named s n"
    "n \<in> set (sr_applied r) \<Longrightarrow> named s n = None \<and> (\<exists>old e. named src n = Some old \<and> named s' n = Some e \<and> is_table e \<and>
       (\<forall>k. item_get e k = copied_item (service_import_keys side) old k))"
    "item_get src ''services'' = Some t \<Longrightarrow> table_like t \<Longrightarrow>
       mset (sr_applied r @ sr_existing r @ map fst (sr_invalid r)) = mset (item_keys t) \<and>
       sr_existing r = filter (\<lambda>n. named s n \<noteq> None) (item_keys t)"
    by blast+
qed

lemma import_document_get:
  assumes "import_document TE source p side created src doc = Inr (doc', r)"
    and "is_table doc" "wf_item doc" "wf_item src"
  shows "\<exists>s s'. s = child_table doc (side_key side) \<and> item_get doc' (side_key side) = Some s' \<and>
    is_table doc' \<and> wf_item doc' \<and> ir_created r = created \<and> ir_side r = side \<and>
    \<not> has_section doc (side_key (other_side side)) \<and>
    (\<forall>k. k \<noteq> side_key side \<longrightarrow> item_get doc' k = item_get doc k) \<and>
    set (ir_fields r) \<subseteq> fst ` set (import_globals side) \<and>
    (\<forall>k. k \<noteq> ''transport'' \<and> k \<noteq> ''services'' \<longrightarrow>
       item_get s' k = (if k \<in> set (ir_fields r) then item_get src k else item_get s k)) \<and>
    (\<forall>n. n \<notin> set (sr_applied (ir_services r)) \<longrightarrow> named s' n = named s n) \<and>
    (\<forall>n \<in> set (sr_applied (ir_services r)). named s n = None \<and> (\<exists>old e. named src n = Some old \<and> named s' n = Some e \<and>
       is_table e \<and> (\<forall>k. item_get e k = copied_item (service_import_keys side) old k))) \<and>
    (\<forall>t. item_get src ''services'' = Some t \<and> table_like t \<longrightarrow>
       mset (sr_applied (ir_services r) @ sr_existing (ir_services r) @ map fst (sr_invalid (ir_services r))) =
         mset (item_keys t) \<and>
       sr_existing (ir_services r) = filter (\<lambda>n. named s n \<noteq> None) (item_keys t))"
proof -
  let ?k = "side_key side"
  let ?new = "te_insert TE (Item_Table []) ''services'' (Item_Table [])"
  obtain u doc1 sect where allow: "ensure_role_allows doc side = Inr u"
    and d1: "doc1 = (if has_section doc ?k then doc else te_insert TE doc ?k ?new)"
    and sec: "Option.bind (item_get doc1 ?k) (\<lambda>s. if table_like s then Some s else None) = Some sect"
    and rest: "(case import_fields TE side src (import_globals side) sect of (s1, applied, ignored1) \<Rightarrow>
      rbind (import_transport TE p side src s1) (\<lambda>(s2, applied_transport, ignored2).
      rbind (import_service_table TE p side src s2) (\<lambda>(s3, services).
      Inr (put_item ?k s3 doc1,
           \<lparr>ir_side = side, ir_fields = applied, ir_transport = applied_transport, ir_services = services,
            ir_ignored = ignored1 @ unknown_section_keys side src @ ignored2 @ sr_ignored services,
            ir_created = created\<rparr>)))) = Inr (doc', r)"
    using assms(1) unfolding import_document_def Let_def rbind_eq_Inr_iff with_context_eq_Inr_iff ok_or_eq_Inr_iff
    by (auto split: if_splits)
  note s = bind_table_like [OF sec]
  obtain s1 applied ign1 where f: "import_fields TE side src (import_globals side) sect = (s1, applied, ign1)"
    by (cases "import_fields TE side src (import_globals side) sect")
  obtain s2 b ign2 s3 sv where t: "import_transport TE p side src s1 = Inr (s2, b, ign2)"
    and v: "import_service_table TE p side src s2 = Inr (s3, sv)"
    and res: "doc' = put_item ?k s3 doc1" "r = \<lparr>ir_side = side, ir_fields = applied, ir_transport = b, ir_services = sv,
            ir_ignored = ign1 @ unknown_section_keys side src @ ign2 @ sr_ignored sv, ir_created = created\<rparr>"
    using rest unfolding f by (auto simp: rbind_eq_Inr_iff)
  have nt: "table_like (Item_Table [])" "is_table (Item_Table [])" "wf_item (Item_Table [])" by simp_all
  have new: "is_table ?new" "wf_item ?new"
    using insert_is_table [OF nt(1)] insert_wf [OF nt(3,1,3)] nt(2) by simp_all
  have nk: "item_get ?new k = (if k = ''services'' then Some (Item_Table []) else None)" for k
    using get_insert_storable [OF nt(1), of "Item_Table []" "''services''"] get_insert_other [OF nt(1)]
    by (simp add: item_get_def [of "Item_Table []"])
  have dl: "table_like doc" using assms(2) by simp
  have d: "is_table doc1" "wf_item doc1" "\<forall>k. k \<noteq> ?k \<longrightarrow> item_get doc1 k = item_get doc k"
    using assms(2,3) insert_is_table [OF dl] insert_wf [OF assms(3) dl new(2)] get_insert_other [OF dl]
    by (simp_all add: d1)
  have sw: "wf_item sect" by (rule wf_item_get [OF d(2) s(1)])
  have old: "item_get sect k = item_get (child_table doc ?k) k" if "k \<noteq> ''services''" for k
  proof (cases "has_section doc ?k")
    case True
    then show ?thesis using s(1) by (simp add: d1 child_table_def)
  next
    case False
    then have "sect = ?new" using s(1) get_insert_storable [OF dl storable_table [OF assms(2)]] by (simp add: d1)
    then show ?thesis using False that nk by (simp add: child_table_def has_section_def item_get_def [of "Item_Table []"])
  qed
  have oldn: "named sect n = named (child_table doc ?k) n" for n
  proof (cases "has_section doc ?k")
    case True
    then show ?thesis using s(1) by (simp add: d1 child_table_def)
  next
    case False
    then have "sect = ?new" using s(1) get_insert_storable [OF dl storable_table [OF assms(2)]] by (simp add: d1)
    then show ?thesis using False nk by (simp add: named_def child_table_def has_section_def item_get_def [of "Item_Table []"])
  qed
  note gf = import_fields_get [OF f s(2) sw assms(4)]
  note gt = import_transport_get [OF t]
  have f1: "table_like s1" "wf_item s1" "is_table s1 = is_table sect"
    "set applied \<subseteq> fst ` set (import_globals side)" using gf by simp_all
  have t1: "table_like s2" "wf_item s2" "is_table s2 = is_table s1" using gt(1,2,3) f1(1,2) assms(4) by simp_all
  have named_eq: "named s2 n = named sect n" for n
  proof -
    have "item_get s2 ''services'' = item_get s1 ''services''" by (rule gt(4) [OF f1(1,2) assms(4)]) simp
    moreover have "''services'' \<notin> set applied"
      using f1(4) by (cases side) (auto simp: import_globals_def CLIENT_IMPORT_GLOBALS_def SERVER_IMPORT_GLOBALS_def)
    ultimately show ?thesis using import_fields_get [OF f s(2) sw assms(4), of "''services''"] by (simp add: named_def)
  qed
  note gs = import_service_table_get [OF v t1(1,2) assms(4)]
  have st: "storable doc1 s3" using d(1) by simp
  have gd: "item_get doc' k = (if k = ?k then Some s3 else item_get doc1 k)" for k
    using get_put [OF _ st] s(1) by (simp add: res(1))
  show ?thesis
  proof (rule exI [of _ "child_table doc ?k"], rule exI [of _ s3], intro conjI)
    show "item_get doc' ?k = Some s3" using gd by simp
    show "is_table doc'" using d(1) by (simp add: res(1))
    show "wf_item doc'" unfolding res(1) by (rule wf_put [OF d(2) gs(3)])
    show "\<not> has_section doc (side_key (other_side side))" by (rule ensure_role_allows_Inr [OF allow])
    show "\<forall>k. k \<noteq> ?k \<longrightarrow> item_get doc' k = item_get doc k" using gd d(3) by simp
    show "set (ir_fields r) \<subseteq> fst ` set (import_globals side)" using f1(4) by (simp add: res(2))
    show "\<forall>k. k \<noteq> ''transport'' \<and> k \<noteq> ''services'' \<longrightarrow>
       item_get s3 k = (if k \<in> set (ir_fields r) then item_get src k else item_get (child_table doc ?k) k)"
      using gs(4) gt(4) [OF f1(1,2) assms(4)] import_fields_get [OF f s(2) sw assms(4)] old by (simp add: res(2))
    show "\<forall>n. n \<notin> set (sr_applied (ir_services r)) \<longrightarrow> named s3 n = named (child_table doc ?k) n"
      using gs(5) named_eq oldn by (simp add: res(2))
    show "\<forall>n \<in> set (sr_applied (ir_services r)). named (child_table doc ?k) n = None \<and>
       (\<exists>old e. named src n = Some old \<and> named s3 n = Some e \<and> is_table e \<and>
        (\<forall>k. item_get e k = copied_item (service_import_keys side) old k))"
      using gs(6) named_eq oldn by (simp add: res(2))
    show "\<forall>t. item_get src ''services'' = Some t \<and> table_like t \<longrightarrow>
       mset (sr_applied (ir_services r) @ sr_existing (ir_services r) @ map fst (sr_invalid (ir_services r))) =
         mset (item_keys t) \<and>
       sr_existing (ir_services r) = filter (\<lambda>n. named (child_table doc ?k) n \<noteq> None) (item_keys t)"
      using gs(7) unfolding named_eq oldn res(2) import_report.select_convs by blast
  qed (simp_all add: res(2))
qed

end

text \<open>The values of the entry that an import makes of the old service \<open>n\<close>.\<close>

definition copied_values :: "service_side \<Rightarrow> item \<Rightarrow> string \<Rightarrow> string list \<Rightarrow> toml_value option" where
  "copied_values side src n q =
     Option.bind (named src n) (\<lambda>old.
     case q of
       [] \<Rightarrow> None
     | k # q' \<Rightarrow> Option.bind (copied_item (service_import_keys side) old k) (\<lambda>x. leaf x q'))"

text \<open>
  The values \<open>L\<close> of the target after an import of \<open>src\<close> into \<open>doc\<close> with the report \<open>r\<close>: fields and
  services that the report names are the old ones, all others, and other sections, are as before.
\<close>

definition imported :: "service_side \<Rightarrow> item \<Rightarrow> item \<Rightarrow> import_report \<Rightarrow> (string list \<Rightarrow> toml_value option) \<Rightarrow> bool" where
  "imported side src doc r L \<longleftrightarrow>
     (\<forall>k ks. k \<noteq> ''transport'' \<and> k \<noteq> ''services'' \<longrightarrow> L (side_key side # k # ks) =
        (if k \<in> set (ir_fields r) then leaf src (k # ks) else leaf doc (side_key side # k # ks))) \<and>
     (\<forall>n ks. L (side_key side # ''services'' # n # ks) =
        (if n \<in> set (sr_applied (ir_services r)) then copied_values side src n ks
         else leaf doc (side_key side # ''services'' # n # ks))) \<and>
     (\<forall>k ks. k \<noteq> side_key side \<longrightarrow> L (k # ks) = leaf doc (k # ks))"

text \<open>The report accounts for every old service exactly once.\<close>

definition accounted :: "service_side \<Rightarrow> item \<Rightarrow> item \<Rightarrow> service_report \<Rightarrow> bool" where
  "accounted side src doc r \<longleftrightarrow>
     (\<forall>n \<in> set (sr_applied r). \<not> service_exists doc side n) \<and>
     (\<forall>t. item_get src ''services'' = Some t \<and> table_like t \<longrightarrow>
        mset (sr_applied r @ sr_existing r @ map fst (sr_invalid r)) = mset (item_keys t) \<and>
        sr_existing r = filter (service_exists doc side) (item_keys t))"

lemma service_exists_named: "service_exists doc side n \<longleftrightarrow> named (child_table doc (side_key side)) n \<noteq> None"
proof (cases "item_get doc (side_key side)")
  case (Some s)
  then show ?thesis
    by (cases "item_get s ''services''")
      (auto simp: service_exists_def services_of_def named_def child_table_def dest: item_get_table_like)
qed (simp add: service_exists_def services_of_def named_def child_table_def item_get_def [of "Item_Table []"])

lemma leaf_named:
  "leaf doc (side_key side # ''services'' # n # ks) = Option.bind (named (child_table doc (side_key side)) n) (\<lambda>x. leaf x ks)"
  by (cases "item_get doc (side_key side)")
    (simp_all add: named_def child_table_def item_get_def [of "Item_Table []"] Option.bind_assoc)

lemma leaf_child:
  "leaf doc (side_key side # k # ks) = Option.bind (item_get (child_table doc (side_key side)) k) (\<lambda>x. leaf x ks)"
  by (cases "item_get doc (side_key side)") (simp_all add: child_table_def item_get_def [of "Item_Table []"])

lemma run_import_cases:
  obtains (error) e where "run_import ED os source p w = (w, Inl e)"
  | (saved) side src created doc doc' r where "load_source ED os source w = Inr (side, src)"
      "open_document ED os p w = Inr (created, doc)"
      "import_document (ed_toml ED) (display_path source) p side created src doc = Inr (doc', r)"
      "run_import ED os source p w = map_prod id (\<lambda>x. rbind x (\<lambda>_. Inr (import_result source r)))
         (save_with_skeleton ED os p doc' (ir_created r) w)"
proof (cases "import_changes ED os source p w")
  case (Inl e)
  then show thesis by (intro error [of e]) (simp add: run_import_def)
next
  case (Inr x)
  obtain doc' r where x: "x = (doc', r)" by (cases x)
  obtain side src created doc where "load_source ED os source w = Inr (side, src)"
      "open_document ED os p w = Inr (created, doc)"
      "import_document (ed_toml ED) (display_path source) p side created src doc = Inr (doc', r)"
    using Inr unfolding x import_changes_def by (auto simp: rbind_eq_Inr_iff)
  then show thesis by (rule saved) (simp add: run_import_def Inr x)
qed

lemma run_import_safe:
  assumes "tmp_path os p \<noteq> p" "ignores_comments ED"
  shows "safe_outcome os p (valid_text ED) w (run_import ED os source p w)"
  by (cases rule: run_import_cases [of ED os source p w])
    (simp_all add: safe_outcome_map save_with_skeleton_safe [OF assms])

context toml_edit_laws
begin

lemma load_source_wf:
  assumes "load_source ED os source w = Inr (side, src)" "ed_toml ED = TE"
  shows "wf_item src" "table_like src"
proof -
  obtain s d where "te_parse TE s = Inr d"
    "Option.bind (item_get d (side_key side)) (\<lambda>s. if table_like s then Some s else None) = Some src"
    using assms by (auto simp: load_source_def Let_def rbind_eq_Inr_iff with_context_eq_Inr_iff ok_or_eq_Inr_iff
        split: sum.splits)
  then show "wf_item src" "table_like src"
    using parse_law [of s d] wf_item_get bind_table_like by blast+
qed

lemma run_import_leaf:
  assumes "run_import ED os source p w = (w', Inr j)" "ed_toml ED = TE" "tmp_path os p \<noteq> p" "io_read os p = None"
  shows "\<exists>side src doc d r. load_source ED os source w = Inr (side, src) \<and>
    (if w p = None then doc = Item_Table [] else load_document ED os w p = Inr doc) \<and>
    load_document ED os w' p = Inr d \<and> j = import_result source r \<and> ir_side r = side \<and>
    imported side src doc r (leaf d) \<and> accounted side src doc (ir_services r)"
proof (cases rule: run_import_cases [of ED os source p w])
  case (error e)
  then show ?thesis using assms(1) by simp
next
  case (saved side src created doc doc' r)
  note doc = open_document_doc [OF saved(2) assms(2)]
  note src = load_source_wf [OF saved(1) assms(2)]
  obtain s' where i: "item_get doc' (side_key side) = Some s'" "is_table doc'" "wf_item doc'" "ir_created r = created"
      "ir_side r = side" "\<forall>k. k \<noteq> side_key side \<longrightarrow> item_get doc' k = item_get doc k"
      "\<forall>k. k \<noteq> ''transport'' \<and> k \<noteq> ''services'' \<longrightarrow> item_get s' k =
         (if k \<in> set (ir_fields r) then item_get src k else item_get (child_table doc (side_key side)) k)"
      "\<forall>n. n \<notin> set (sr_applied (ir_services r)) \<longrightarrow> named s' n = named (child_table doc (side_key side)) n"
      "\<forall>n \<in> set (sr_applied (ir_services r)). named (child_table doc (side_key side)) n = None \<and>
         (\<exists>old. named src n = Some old \<and> (\<exists>e. named s' n = Some e \<and>
         is_table e \<and> (\<forall>k. item_get e k = copied_item (service_import_keys side) old k)))"
      "\<forall>t. item_get src ''services'' = Some t \<and> table_like t \<longrightarrow>
         mset (sr_applied (ir_services r) @ sr_existing (ir_services r) @ map fst (sr_invalid (ir_services r))) =
           mset (item_keys t) \<and>
         sr_existing (ir_services r) = filter (\<lambda>n. named (child_table doc (side_key side)) n \<noteq> None) (item_keys t)"
    using import_document_get [OF saved(3) [unfolded assms(2)] doc(1,2) src(1), simplified ex_simps simp_thms]
    by (elim exE conjE) (rule that; assumption)
  have c': "child_table doc' (side_key side) = s'" by (simp add: child_table_def i(1))
  have "w' p = Some \<lparr>f_content = document_text ED doc' created, f_mode = 420\<rparr>"
    using saved_content [OF assms(3) saved(4) [symmetric, unfolded assms(1)]] i(4) by simp
  then obtain d where d: "load_document ED os w' p = Inr d" "leaf d = leaf doc'"
    using load_saved [OF assms(2) i(2,3) assms(4)] by blast
  have "imported side src doc r (leaf d)"
    unfolding imported_def d(2)
  proof (intro conjI allI impI)
    fix k ks
    assume "k \<noteq> ''transport'' \<and> k \<noteq> ''services''"
    then show "leaf doc' (side_key side # k # ks) =
        (if k \<in> set (ir_fields r) then leaf src (k # ks) else leaf doc (side_key side # k # ks))"
      unfolding leaf_child c' using i(7) by simp
  next
    fix n ks
    show "leaf doc' (side_key side # ''services'' # n # ks) =
        (if n \<in> set (sr_applied (ir_services r)) then copied_values side src n ks
         else leaf doc (side_key side # ''services'' # n # ks))"
    proof (cases "n \<in> set (sr_applied (ir_services r))")
      case True
      then obtain old e where e: "named src n = Some old" "named s' n = Some e" "is_table e"
        "\<forall>k. item_get e k = copied_item (service_import_keys side) old k" using i(9) by blast
      then show ?thesis unfolding leaf_named c' using True is_table_like [OF e(3)]
        by (cases ks) (simp_all add: copied_values_def)
    next
      case False
      then show ?thesis unfolding leaf_named c' using i(8) by simp
    qed
  next
    fix k ks
    assume "k \<noteq> side_key side"
    then show "leaf doc' (k # ks) = leaf doc (k # ks)" using i(6) by simp
  qed
  moreover have "accounted side src doc (ir_services r)"
    unfolding accounted_def service_exists_named using i(9,10) by (simp add: service_exists_named)
  moreover have "j = import_result source r"
    using assms(1) saved(4) by (cases "save_with_skeleton ED os p doc' (ir_created r) w") (auto simp: rbind_eq_Inr_iff)
  ultimately show ?thesis using saved(1) doc(3,4) d(1) i(5) by auto
qed

end

end
