(* ===== verification/Toml_Tree.thy ===== *)
theory Toml_Tree
  imports Toml_Doc "HOL-Library.AList"
begin

text \<open>
  A concrete instance of the interface of \<open>toml_edit\<close>, which shows that its laws can hold and
  lets the commands be evaluated: tables are association lists, and a document is printed in
  postfix order, as the operations of a stack machine.
\<close>

section \<open>Tables and printing\<close>

fun into_value :: "item \<Rightarrow> toml_value" where
  "into_value Item_None = V_String []"
| "into_value (Item_Value v) = v"
| "into_value (Item_Table es) = V_InlineTable (map (\<lambda>(k, i). (k, into_value i)) es)"
| "into_value (Item_ArrayOfTables ts) =
     V_Array (map (\<lambda>es. V_InlineTable (map (\<lambda>(k, i). (k, into_value i)) es)) ts)"

fun tree_insert :: "item \<Rightarrow> string \<Rightarrow> item \<Rightarrow> item" where
  "tree_insert (Item_Table es) k v = Item_Table (AList.update k v es)"
| "tree_insert (Item_Value (V_InlineTable vs)) k v = Item_Value (V_InlineTable (AList.update k (into_value v) vs))"
| "tree_insert t k v = t"

fun tree_remove :: "item \<Rightarrow> string \<Rightarrow> item" where
  "tree_remove (Item_Table es) k = Item_Table (AList.delete k es)"
| "tree_remove (Item_Value (V_InlineTable vs)) k = Item_Value (V_InlineTable (AList.delete k vs))"
| "tree_remove t k = t"

definition text_ops :: "string \<Rightarrow> string" where
  "text_ops s = concat (map (\<lambda>c. [CHR ''c'', c]) s)"

fun value_ops :: "toml_value \<Rightarrow> string" where
  "value_ops (V_String s) = text_ops s @ ''s''"
| "value_ops (V_Integer i) = text_ops (string_of_nat (nat \<bar>i\<bar>)) @ (if i < 0 then ''m'' else ''i'')"
| "value_ops (V_Float f) = text_ops (string_of_nat (unat f)) @ ''f''"
| "value_ops (V_Boolean b) = (if b then ''1'' else ''0'')"
| "value_ops (V_Datetime d) = text_ops d @ ''d''"
| "value_ops (V_Array vs) = ''['' @ concat (map (\<lambda>v. value_ops v @ ''e'') vs) @ ''a''"
| "value_ops (V_InlineTable es) = ''['' @ concat (map (\<lambda>(k, v). value_ops v @ text_ops k @ ''e'') es) @ ''t''"

fun item_ops :: "item \<Rightarrow> string" where
  "item_ops Item_None = ''N''"
| "item_ops (Item_Value v) = value_ops v"
| "item_ops (Item_Table es) = ''['' @ concat (map (\<lambda>(k, i). item_ops i @ text_ops k @ ''e'') es) @ ''T''"
| "item_ops (Item_ArrayOfTables ts) = ''['' @ concat (map (\<lambda>es.
     ''['' @ concat (map (\<lambda>(k, i). item_ops i @ text_ops k @ ''e'') es) @ ''T'' @ ''e'') ts) @ ''A''"


fun the_value :: "item \<Rightarrow> toml_value" where
  "the_value (Item_Value v) = v"
| "the_value _ = V_Array []"

fun the_table :: "item \<Rightarrow> (string \<times> item) list" where
  "the_table (Item_Table es) = es"
| "the_table _ = []"

text \<open>
  The machine that reads a document back: whether the next character is text, the text so far,
  a stack of items, and a stack of open lists.
\<close>

type_synonym machine = "bool \<times> string \<times> item list \<times> (string \<times> item) list list"

definition text_number :: "string \<Rightarrow> nat" where
  "text_number s = (case digits_val 0 s of None \<Rightarrow> 0 | Some n \<Rightarrow> n)"

definition close_list :: "char \<Rightarrow> (string \<times> item) list \<Rightarrow> item" where
  "close_list c es =
     (if c = CHR ''a'' then Item_Value (V_Array (map (the_value \<circ> snd) es))
      else if c = CHR ''t'' then Item_Value (V_InlineTable (map (apsnd the_value) es))
      else if c = CHR ''T'' then Item_Table es
      else Item_ArrayOfTables (map (the_table \<circ> snd) es))"

definition make_item :: "char \<Rightarrow> string \<Rightarrow> item" where
  "make_item c s =
     (if c = CHR ''s'' then str_item s
      else if c = CHR ''i'' then int_item (int (text_number s))
      else if c = CHR ''m'' then int_item (- int (text_number s))
      else if c = CHR ''f'' then Item_Value (V_Float (of_nat (text_number s)))
      else if c = CHR ''d'' then Item_Value (V_Datetime s)
      else if c = CHR ''1'' then bool_item True
      else if c = CHR ''0'' then bool_item False
      else Item_None)"

fun read_op :: "char \<Rightarrow> machine \<Rightarrow> machine" where
  "read_op c (True, s, st, ls) = (False, s @ [c], st, ls)"
| "read_op c (False, s, st, ls) =
     (if c = CHR ''c'' then (True, s, st, ls)
      else if c = CHR ''['' then (False, s, st, [] # ls)
      else if c = CHR ''e'' then (False, [], tl st, ((s, hd st) # hd ls) # tl ls)
      else if c \<in> set ''atTA'' then (False, s, close_list c (rev (hd ls)) # st, tl ls)
      else (False, [], make_item c s # st, ls))"

fun skip_comments :: "bool \<Rightarrow> string \<Rightarrow> string" where
  "skip_comments b [] = []"
| "skip_comments True (c # cs) = skip_comments (c \<noteq> CHR 10) cs"
| "skip_comments False (c # cs) =
     (if c = CHR 10 then skip_comments False cs
      else if c = CHR ''#'' then skip_comments True cs else c # cs)"

definition tree_parse :: "string \<Rightarrow> anyhow + item" where
  "tree_parse text =
     (case skip_comments False text of
        [] \<Rightarrow> Inr (Item_Table [])
      | ops \<Rightarrow>
          (case fold read_op ops (False, [], [], []) of
             (False, [], [d], []) \<Rightarrow>
               if is_table d \<and> wf_item d then Inr d else Inl (Err ''no document'')
           | _ \<Rightarrow> Inl (Err ''no document'')))"

definition tree_edit :: toml_edit where
  "tree_edit = \<lparr>te_parse = tree_parse, te_to_string = item_ops, te_insert = tree_insert,
     te_remove = tree_remove\<rparr>"

section \<open>The laws\<close>

lemma read_text: "fold read_op (text_ops t) (False, s, st, ls) = (False, s @ t, st, ls)"
  by (induction t arbitrary: s) (simp_all add: text_ops_def)

lemma text_number_string_of_nat [simp]: "text_number (string_of_nat n) = n"
  by (simp add: text_number_def digits_val_string_of_nat)

lemma read_value_ops: "fold read_op (value_ops v) (False, [], st, ls) = (False, [], Item_Value v # st, ls)"
proof (induction v arbitrary: st ls)
  case (V_Array vs)
  have "fold read_op (concat (map (\<lambda>v. value_ops v @ ''e'') vs)) (False, [], st, l # ls) =
      (False, [], st, (rev (map (\<lambda>v. ([], Item_Value v)) vs) @ l) # ls)" for l
    using V_Array by (induction vs arbitrary: l) simp_all
  then show ?case by (simp add: close_list_def rev_map comp_def)
next
  case (V_InlineTable es)
  have "fold read_op (concat (map (\<lambda>(k, v). value_ops v @ text_ops k @ ''e'') es)) (False, [], st, l # ls) =
      (False, [], st, (rev (map (\<lambda>(k, v). (k, Item_Value v)) es) @ l) # ls)" for l
    using V_InlineTable
  proof (induction es arbitrary: l)
    case (Cons e es)
    obtain k v where e: "e = (k, v)" by (cases e)
    have "fold read_op (value_ops v) (False, [], st', ls') = (False, [], Item_Value v # st', ls')" for st' ls'
      using Cons.prems [of e v] by (simp add: e)
    moreover have "\<And>l. fold read_op (concat (map (\<lambda>(k, v). value_ops v @ text_ops k @ ''e'') es)) (False, [], st, l # ls) =
      (False, [], st, (rev (map (\<lambda>(k, v). (k, Item_Value v)) es) @ l) # ls)"
      using Cons.IH Cons.prems by (meson list.set_intros(2))
    ultimately show ?case by (simp add: e read_text)
  qed simp
  then show ?case by (simp add: close_list_def rev_map comp_def case_prod_beta)
qed (simp_all add: read_text make_item_def str_item_def int_item_def bool_item_def)


lemma read_entries:
  assumes "\<And>k i st ls. (k, i) \<in> set es \<Longrightarrow>
      fold read_op (item_ops i) (False, [], st, ls) = (False, [], i # st, ls)"
  shows "fold read_op (''['' @ concat (map (\<lambda>(k, i). item_ops i @ text_ops k @ ''e'') es) @ ''T'')
    (False, [], st, ls) = (False, [], Item_Table es # st, ls)"
proof -
  have "fold read_op (concat (map (\<lambda>(k, i). item_ops i @ text_ops k @ ''e'') es)) (False, [], st, l # ls) =
      (False, [], st, (rev es @ l) # ls)" for l
    using assms
  proof (induction es arbitrary: l)
    case (Cons e es)
    obtain k i where e: "e = (k, i)" by (cases e)
    have "fold read_op (item_ops i) (False, [], st', ls') = (False, [], i # st', ls')" for st' ls'
      by (rule Cons.prems [of k]) (simp add: e)
    moreover have "\<And>l. fold read_op (concat (map (\<lambda>(k, i). item_ops i @ text_ops k @ ''e'') es)) (False, [], st, l # ls) =
      (False, [], st, (rev es @ l) # ls)"
      using Cons.IH Cons.prems by (meson list.set_intros(2))
    ultimately show ?case by (simp add: e read_text)
  qed simp
  then show ?thesis by (simp add: close_list_def)
qed

lemma read_item_ops:
  "wf_item d \<Longrightarrow> fold read_op (item_ops d) (False, [], st, ls) = (False, [], d # st, ls)"
proof (induction d arbitrary: st ls)
  case (Item_Value v)
  then show ?case by (simp add: read_value_ops)
next
  case (Item_Table es)
  have "fold read_op (item_ops i) (False, [], st, ls) = (False, [], i # st, ls)" if "(k, i) \<in> set es" for k i st ls
    using Item_Table.prems that by (intro Item_Table.IH [of "(k, i)"]) (auto simp: list_all_iff)
  then show ?case unfolding item_ops.simps by (rule read_entries)
next
  case (Item_ArrayOfTables ts)
  have t: "fold read_op (''['' @ concat (map (\<lambda>(k, i). item_ops i @ text_ops k @ ''e'') es) @ ''T'')
      (False, [], st, ls) = (False, [], Item_Table es # st, ls)" if "es \<in> set ts" for es st ls
    by (rule read_entries)
      (use Item_ArrayOfTables that in \<open>fastforce simp: list_all_iff\<close>)
  have "fold read_op (concat (map (\<lambda>es. ''['' @ concat (map (\<lambda>(k, i). item_ops i @ text_ops k @ ''e'') es) @
      ''T'' @ ''e'') ts)) (False, [], st, l # ls) =
      (False, [], st, (rev (map (\<lambda>es. ([], Item_Table es)) ts) @ l) # ls)" for l
    using t by (induction ts arbitrary: l) (simp_all add: comp_def)
  then show ?case by (simp add: close_list_def rev_map comp_def)
qed simp

lemma skip_comments_line:
  "CHR 10 \<notin> set l \<Longrightarrow> skip_comments True (l @ CHR 10 # s) = skip_comments False s"
  by (induction l) auto

lemma item_ops_table: "is_table d \<Longrightarrow> \<exists>s. item_ops d = CHR ''['' # s"
  by (cases d) auto

lemma tree_parse_print: "is_table d \<Longrightarrow> wf_item d \<Longrightarrow> tree_parse (item_ops d) = Inr d"
  using read_item_ops [of d "[]" "[]"] item_ops_table [of d] by (auto simp: tree_parse_def)


lemma skip_comments_lines:
  "comment_lines c \<Longrightarrow> skip_comments False (c @ CHR 10 # s) = skip_comments False s"
  "list_all (\<lambda>l. l = [] \<or> hd l = CHR ''#'') (tl (split_on (CHR 10) c)) \<Longrightarrow>
     skip_comments True (c @ CHR 10 # s) = skip_comments False s"
proof (induction c)
  case (Cons x c)
  obtain y ys where "split_on (CHR 10) c = y # ys"
    by (cases "split_on (CHR 10) c") (auto simp: split_on_nonempty)
  with Cons show "comment_lines (x # c) \<Longrightarrow> skip_comments False ((x # c) @ CHR 10 # s) = skip_comments False s"
    and "list_all (\<lambda>l. l = [] \<or> hd l = CHR ''#'') (tl (split_on (CHR 10) (x # c))) \<Longrightarrow>
     skip_comments True ((x # c) @ CHR 10 # s) = skip_comments False s"
    by (auto simp: comment_lines_def split: if_splits)
qed simp_all

lemma map_of_delete: "map_of (AList.delete k es) = (map_of es)(k := None)"
  by (simp add: AList.delete_conv')

lemma map_of_values: "map_of (map (\<lambda>(k, v). (k, Item_Value v)) vs) = map_option Item_Value \<circ> map_of vs"
  by (induction vs) auto

lemma map_values_update:
  "map (\<lambda>(k, v). (k, Item_Value v)) (AList.update k v vs) = AList.update k (Item_Value v) (map (\<lambda>(k, v). (k, Item_Value v)) vs)"
  by (induction vs) auto

lemma set_update_subset: "set (AList.update k v es) \<subseteq> insert (k, v) (set es)"
  by (induction es) auto

lemma distinct_delete: "distinct_keys es \<Longrightarrow> distinct_keys (AList.delete k es)"
  by (rule AList.distinct_delete)

lemma wf_into_value: "wf_item i \<Longrightarrow> wf_value (into_value i)"
proof (induction i)
  case (Item_Table es)
  then show ?case by (fastforce simp: list_all_iff comp_def case_prod_beta)
next
  case (Item_ArrayOfTables ts)
  then show ?case by (fastforce simp: list_all_iff comp_def case_prod_beta)
qed simp_all


lemma flat_into_value: "flat i \<Longrightarrow> entries (Item_Value (into_value i)) = entries i"
  by (cases i) (auto simp: list_all_iff intro!: map_idI)

lemma tree_insert_law:
  assumes "entries t = Some es"
  shows "\<exists>es' v'. entries (tree_insert t k v) = Some es' \<and> map_of es' = (map_of es)(k \<mapsto> v') \<and>
    stored t v v' \<and> is_table (tree_insert t k v) = is_table t \<and>
    (wf_item t \<and> wf_item v \<longrightarrow> wf_item (tree_insert t k v))"
  using assms
proof (cases rule: entries.elims)
  case (1 es')
  then show ?thesis using assms set_update_subset [of k v es']
    by (fastforce simp: AList.update_conv' stored_def storable_def list_all_iff AList.distinct_update)
next
  case (2 vs)
  have u: "map_of (AList.update k (Item_Value x) es) = (map_of es)(k \<mapsto> Item_Value x)" for x
    by (rule AList.update_conv')
  have "stored t v (Item_Value (into_value v))"
    using 2 by (auto simp: stored_def storable_def wf_into_value flat_into_value)
  moreover have "wf_item t \<and> wf_item v \<longrightarrow> wf_item (tree_insert t k v)"
    using 2 wf_into_value [of v] set_update_subset [of k "into_value v" vs]
    by (fastforce simp: list_all_iff AList.distinct_update)
  moreover have "entries (tree_insert t k v) = Some (AList.update k (Item_Value (into_value v)) es)"
    using 2 assms by (simp add: map_values_update)
  ultimately show ?thesis using 2 u [of "into_value v"] by fastforce
qed auto

lemma tree_remove_law:
  assumes "entries t = Some es"
  shows "\<exists>es'. entries (tree_remove t k) = Some es' \<and> map_of es' = (map_of es)(k := None) \<and>
    is_table (tree_remove t k) = is_table t \<and> (wf_item t \<longrightarrow> wf_item (tree_remove t k))"
  using assms
proof (cases rule: entries.elims)
  case (1 es')
  then show ?thesis using assms AList.delete_conv' [of k es']
    by (auto simp: list_all_iff AList.delete_eq distinct_map_filter)
next
  case (2 vs)
  have "map (\<lambda>(k, v). (k, Item_Value v)) (AList.delete k vs) = AList.delete k (map (\<lambda>(k, v). (k, Item_Value v)) vs)"
    by (induction vs) auto
  then show ?thesis using 2 assms AList.delete_conv' [of k es]
    by (auto simp: list_all_iff AList.delete_eq distinct_map_filter)
qed auto

interpretation tree: toml_edit_laws tree_edit
proof
  fix t es k v
  show "entries t = Some es \<Longrightarrow> \<exists>es' v'. entries (te_insert tree_edit t k v) = Some es' \<and>
      map_of es' = (map_of es)(k \<mapsto> v') \<and> stored t v v' \<and> is_table (te_insert tree_edit t k v) = is_table t \<and>
      (wf_item t \<and> wf_item v \<longrightarrow> wf_item (te_insert tree_edit t k v))"
    unfolding tree_edit_def toml_edit.select_convs by (rule tree_insert_law)
  show "entries t = Some es \<Longrightarrow> \<exists>es'. entries (te_remove tree_edit t k) = Some es' \<and>
      map_of es' = (map_of es)(k := None) \<and> is_table (te_remove tree_edit t k) = is_table t \<and>
      (wf_item t \<longrightarrow> wf_item (te_remove tree_edit t k))"
    unfolding tree_edit_def toml_edit.select_convs by (rule tree_remove_law)
next
  fix s d
  show "te_parse tree_edit s = Inr d \<Longrightarrow> is_table d \<and> wf_item d"
    by (auto simp: tree_edit_def tree_parse_def split: list.splits prod.splits bool.splits if_splits)
next
  fix d c
  assume d: "is_table d" "wf_item d"
  show "\<exists>d'. te_parse tree_edit (te_to_string tree_edit d) = Inr d' \<and> leaf d' = leaf d"
    by (simp add: tree_edit_def tree_parse_print [OF d])
  assume "comment_lines c"
  then show "te_parse tree_edit (c @ CHR 10 # te_to_string tree_edit d) =
      te_parse tree_edit (te_to_string tree_edit d)"
    by (simp add: tree_edit_def tree_parse_def skip_comments_lines)
qed

end
