(* ===== verification/Config_Commands.thy ===== *)
theory Config_Commands
  imports Config_Import Toml_Tree Config_Watcher
begin

text \<open>
  \<open>src/lib.rs\<close>, the dispatch of \<open>rathole-x config\<close>: which file a command works on, the check of
  the version stamp, the confirmation of a removal, and the command itself. The properties of
  the configuration commands are stated here; their witnesses use the instance of \<open>toml_edit\<close>
  of the theory \<open>Toml_Tree\<close>.
\<close>

section \<open>Dispatch\<close>

text \<open>The arguments of \<open>config remove\<close>, \<open>list\<close>, \<open>import\<close>, and the file that every command names.\<close>

record remove_args =
  ra_entry :: string
  ra_json :: bool
  ra_yes :: bool

record target =
  tg_config :: "path option"
  tg_name :: "string option"

datatype config_cmd =
    Config_Add add_args
  | Config_Remove remove_args
  | Config_List bool
  | Config_Set set_args bool
  | Config_Import path bool

text \<open>
  The terminal: whether stdin and stdout are one, and what the confirmation prompt returns.
  The environment variable \<open>RATHOLE_X_CONFIRMED\<close> is a flag of the state.
\<close>

record terminal =
  tm_stdin :: bool
  tm_stdout :: bool
  tm_confirm :: "anyhow + bool"

definition confirm_action :: "terminal \<Rightarrow> bool \<Rightarrow> bool \<Rightarrow> string \<Rightarrow> bool \<Rightarrow> bool \<times> (anyhow + unit)" where
  "confirm_action tm yes json subcommand confirmed =
     (if yes \<or> confirmed then (confirmed, Inr ())
      else if json \<or> \<not> (tm_stdin tm \<and> tm_stdout tm) then
        (confirmed, Inl (Err (''`'' @ subcommand @
           ''` requires confirmation; re-run with --yes in an unattended or --json invocation'')))
      else
        (case tm_confirm tm of
           Inl e \<Rightarrow> (confirmed, Inl (Ctx ''failed to read the confirmation prompt'' e))
         | Inr False \<Rightarrow> (confirmed, Inl (Err (subcommand @ '' cancelled by user'')))
         | Inr True \<Rightarrow> (True, Inr ())))"

text \<open>\<open>platform/linux.rs\<close> never relays a command to an elevated process.\<close>

definition elevate_for_config_if_needed :: "path \<Rightarrow> anyhow + bool" where
  "elevate_for_config_if_needed p = Inr False"

definition relayed_json :: json where
  "relayed_json = J_Object [(''relayed'', J_Bool True)]"

definition elevated ::
  "path \<Rightarrow> disk \<Rightarrow> (disk \<times> (anyhow + json)) option \<Rightarrow> (disk \<times> (anyhow + json)) option" where
  "elevated p w k =
     (case elevate_for_config_if_needed p of
        Inl e \<Rightarrow> Some (w, Inl e)
      | Inr relayed \<Rightarrow> if relayed then Some (w, Inr relayed_json) else k)"

definition dispatch_config_command ::
  "editor \<Rightarrow> (json \<Rightarrow> string) \<Rightarrow> io \<Rightarrow> terminal \<Rightarrow> answers \<Rightarrow> target \<Rightarrow> config_cmd \<Rightarrow> bool \<Rightarrow> disk \<Rightarrow>
     (disk \<times> (anyhow + json)) option" where
  "dispatch_config_command ED json_text os tm rs tg cmd confirmed w =
     (case resolve_service_config ED os w (tg_config tg) (tg_name tg) of
        Inl e \<Rightarrow> Some (w, Inl e)
      | Inr p \<Rightarrow>
          (case cmd of
             Config_List json \<Rightarrow> Some (w, snd (run_list ED json_text os json p w))
           | _ \<Rightarrow>
               (case check_version_compat ED os w p of
                  Inl e \<Rightarrow> Some (w, Inl e)
                | Inr _ \<Rightarrow>
                    (case cmd of
                       Config_Add a \<Rightarrow> elevated p w (run_add ED os (tm_stdin tm \<and> tm_stdout tm) rs a p w)
                     | Config_Remove a \<Rightarrow>
                         (case snd (confirm_action tm (ra_yes a) (ra_json a) ''config remove'' confirmed) of
                            Inl e \<Rightarrow> Some (w, Inl e)
                          | Inr _ \<Rightarrow> elevated p w (Some (run_remove ED os (ra_entry a) p w)))
                     | Config_Set a _ \<Rightarrow> elevated p w (Some (run_set ED os a p w))
                     | Config_Import source _ \<Rightarrow> elevated p w (Some (run_import ED os source p w))
                     | Config_List json \<Rightarrow> Some (w, snd (run_list ED json_text os json p w))))))"

section \<open>What a command leaves\<close>

text \<open>What is known of the new text: it loads, except after a removal, which is not checked.\<close>

fun text_after :: "editor \<Rightarrow> config_cmd \<Rightarrow> string \<Rightarrow> bool" where
  "text_after ED (Config_Remove a) = (\<lambda>_. True)"
| "text_after ED cmd = valid_text ED"

lemma elevated_Some: "elevated p w k = Some r \<longleftrightarrow> k = Some r"
  by (simp add: elevated_def elevate_for_config_if_needed_def)

lemma dispatch_safe:
  assumes "dispatch_config_command ED json_text os tm rs tg cmd confirmed w = Some r"
    and "resolve_service_config ED os w (tg_config tg) (tg_name tg) = Inr p"
    and "tmp_path os p \<noteq> p" "ignores_comments ED"
  shows "safe_outcome os p (text_after ED cmd) w r"
proof (cases "check_version_compat ED os w p")
  case (Inl e)
  then show ?thesis using assms(1,2)
    by (cases cmd) (simp_all add: dispatch_config_command_def, auto)
next
  case (Inr u)
  note d = assms(1) [unfolded dispatch_config_command_def assms(2) Inr sum.case]
  show ?thesis
  proof (cases cmd)
    case (Config_Add a)
    then show ?thesis using d run_add_safe [OF _ assms(3,4)] by (simp add: elevated_Some)
  next
    case (Config_Remove a)
    then show ?thesis using d run_remove_safe [OF assms(3), where name = "ra_entry a" and w = w and ED = ED]
      by (auto simp: elevated_Some split: sum.splits)
  next
    case (Config_Set a j)
    then show ?thesis using d run_set_safe [OF assms(3,4), where a = a and w = w] by (auto simp: elevated_Some)
  next
    case (Config_Import s j)
    then show ?thesis using d run_import_safe [OF assms(3,4), where source = s and w = w] by (auto simp: elevated_Some)
  qed (use d in auto)
qed

lemma dispatch_unresolved:
  assumes "resolve_service_config ED os w (tg_config tg) (tg_name tg) = Inl e"
  shows "dispatch_config_command ED json_text os tm rs tg cmd confirmed w = Some (w, Inl e)"
  by (simp add: dispatch_config_command_def assms)

lemma dispatch_incompatible:
  assumes "resolve_service_config ED os w (tg_config tg) (tg_name tg) = Inr p"
    and "check_version_compat ED os w p = Inl e" "\<forall>j. cmd \<noteq> Config_List j"
  shows "dispatch_config_command ED json_text os tm rs tg cmd confirmed w = Some (w, Inl e)"
proof (cases cmd)
  case (Config_List j)
  then show ?thesis using assms(3) by blast
qed (simp_all add: dispatch_config_command_def assms)


text \<open>Only \<open>config add\<close> with the noise transport can panic, before it writes anything.\<close>

lemma apply_noise_None: "apply_noise_transport TE p plan doc = None \<Longrightarrow> plan \<noteq> Noise_None"
  by (auto simp: apply_noise_transport_def)

lemma add_inputs_plan:
  assumes "add_inputs ED a side interactive rs = Inr (addr, plan, token, generated)" "plan \<noteq> Noise_None"
  shows "noise_requested a side"
proof (rule ccontr)
  assume "\<not> noise_requested a side"
  then show False using assms by (auto simp: add_inputs_def rbind_eq_Inr_iff Let_def)
qed

lemma run_add_panics:
  assumes "run_add ED os tty rs a p w = None"
  shows "aa_noise a \<or> aa_noise_key a \<noteq> None"
proof -
  obtain name interactive where s: "run_add_single ED os a name interactive rs p w = None"
    using assms by (auto simp: run_add_def Let_def split: if_splits option.splits)
  let ?e = "ok_option (load_document ED os w p)"
  obtain side addr plan token generated created doc rs1
    where i: "add_inputs ED a side interactive rs1 = Inr (addr, plan, token, generated)"
      and d: "add_single_document (ed_toml ED) a side name addr plan token generated p doc = None"
    using s by (auto simp: run_add_single_def Let_def rbind_eq_Inr_iff split: sum.splits)
  from d have "plan \<noteq> Noise_None"
    by (auto simp: add_single_document_def dest: apply_noise_None split: sum.splits)
  from add_inputs_plan [OF i this] show ?thesis by (auto simp: noise_requested_def)
qed

lemma dispatch_panics:
  assumes "dispatch_config_command ED json_text os tm rs tg cmd confirmed w = None"
  shows "\<exists>a. cmd = Config_Add a \<and> (aa_noise a \<or> aa_noise_key a \<noteq> None)"
proof -
  obtain p where p: "resolve_service_config ED os w (tg_config tg) (tg_name tg) = Inr p"
    using assms by (cases "resolve_service_config ED os w (tg_config tg) (tg_name tg)")
      (simp_all add: dispatch_config_command_def)
  have "elevated p w k = None \<longleftrightarrow> k = None" for k
    by (simp add: elevated_def elevate_for_config_if_needed_def)
  then show ?thesis using assms p
    by (cases cmd) (auto simp: dispatch_config_command_def dest!: run_add_panics split: sum.splits)
qed

section \<open>A sample\<close>

definition sample_editor :: editor where
  "sample_editor =
     \<lparr>ed_toml = tree_edit,
      ed_config = (\<lambda>_. Inr \<lparr>cfg_server = Some sample_server, cfg_client = None\<rparr>),
      ed_version = (\<lambda>_. Some (Some 1)), ed_semver = ''1.4.0'', ed_keypair = Inr (''private'', ''public''),
      ed_url = (\<lambda>u. Inl (Err u)), ed_token = (\<lambda>n. replicate 4 CHR ''x'')\<rparr>"

definition sample_io :: io where
  "sample_io =
     \<lparr>io_read = (\<lambda>_. None), io_mkdir = None, io_write = None, io_chmod = None, io_rename = None,
      io_unlink = (\<lambda>_. True), io_open = (\<lambda>_. True), io_create = (\<lambda>_. True),
      io_read_dir = (\<lambda>_. Some [''a.toml'', ''version.toml'']), io_pid = 7, io_mode = 384\<rparr>"

definition sample_document :: item where
  "sample_document = Item_Table [(''server'', Item_Table
     [(''bind_addr'', str_item ''0.0.0.0:2333''),
      (''services'', Item_Table
        [(''ssh'', Item_Table [(''bind_addr'', str_item ''0.0.0.0:22''), (''token'', str_item ''t'')]),
         (''web'', Item_Table [(''bind_addr'', str_item ''0.0.0.0:80'')])])])]"

definition sample_path :: path where
  "sample_path = (config_dir, ''a.toml'')"

definition sample_disk :: disk where
  "sample_disk = [sample_path \<mapsto> \<lparr>f_content = item_ops sample_document, f_mode = 420\<rparr>]"

definition sample_terminal :: terminal where
  "sample_terminal = \<lparr>tm_stdin = False, tm_stdout = False, tm_confirm = Inr True\<rparr>"

lemma sample_facts:
  "ed_toml sample_editor = tree_edit" "toml_edit_laws (ed_toml sample_editor)" "ignores_comments sample_editor"
  "io_read sample_io p = None" "tmp_path sample_io sample_path \<noteq> sample_path"
  by (simp_all add: sample_editor_def ignores_comments_def sample_io_def tree.toml_edit_laws_axioms)
    (simp add: sample_path_def tmp_path_def with_extension_def stem_extension_def rsplit_once_def)


definition sample_target :: target where
  "sample_target = \<lparr>tg_config = Some sample_path, tg_name = None\<rparr>"

definition sample_remove :: remove_args where
  "sample_remove = \<lparr>ra_entry = ''ssh'', ra_json = False, ra_yes = True\<rparr>"

definition sample_dispatch :: "config_cmd \<Rightarrow> (disk \<times> (anyhow + json)) option" where
  "sample_dispatch cmd =
     dispatch_config_command sample_editor (\<lambda>_. []) sample_io sample_terminal [] sample_target cmd False sample_disk"

lemma sample_resolve:
  "resolve_service_config sample_editor sample_io sample_disk (tg_config sample_target) (tg_name sample_target) =
     Inr sample_path"
  by (simp add: resolve_service_config_def sample_target_def)

lemma sample_remove_ok: "\<exists>w' r. sample_dispatch (Config_Remove sample_remove) = Some (w', r) \<and> is_ok r"
proof -
  have "(case sample_dispatch (Config_Remove sample_remove) of None \<Rightarrow> False | Some x \<Rightarrow> is_ok (snd x))"
    by code_simp
  then obtain x where "sample_dispatch (Config_Remove sample_remove) = Some x" "is_ok (snd x)"
    by (auto split: option.splits)
  then show ?thesis by (cases x) simp
qed

definition sample_set :: set_args where
  "sample_set =
     \<lparr>sa_client = False, sa_server = False, sa_remote_addr = None, sa_bind_addr = None,
      sa_default_token = Some ''new'', sa_prefer_ipv6 = None, sa_heartbeat_timeout = None, sa_retry_interval = None,
      sa_heartbeat_interval = None, sa_transport = None, sa_noise = False, sa_noise_key = None,
      sa_trusted_root = None, sa_hostname = None, sa_pkcs12 = None, sa_pkcs12_password = None, sa_ws_tls = None,
      sa_nodelay = None, sa_keepalive_secs = None, sa_keepalive_interval = None, sa_proxy = None\<rparr>"

lemma sample_load: "load_document sample_editor sample_io sample_disk sample_path = Inr sample_document"
  by code_simp

lemma ok_outcome:
  assumes "is_ok (snd x)"
  obtains w' j where "x = (w', Inr j)"
  using assms by (cases x) (auto simp: is_ok_iff)

lemma sample_valid: "config_validate (ed_config sample_editor) s = Inr ()"
proof -
  have "\<exists>c. config_from_str (ed_config sample_editor) s = Inr c"
    by (simp add: sample_editor_def config_from_str_Inr_iff sample_server_ok)
  then show ?thesis by (auto simp: config_validate_def)
qed

lemma sample_write: "write_config sample_io sample_path s w =
    (w(sample_path \<mapsto> \<lparr>f_content = s, f_mode = 420\<rparr>, tmp_path sample_io sample_path := None), Inr ())"
  using sample_facts(5) by (simp add: write_config_def write_atomic_def Let_def) (simp add: sample_io_def)

lemma sample_set_ok: "is_ok (snd (run_set sample_editor sample_io sample_set sample_path sample_disk))"
proof -
  have e: "set_side sample_editor sample_io sample_set sample_path sample_disk = Inr Side_Server"
    "any_field sample_set" "set_side_check sample_set Side_Server = Inr ()"
    "set_value_check sample_editor sample_set = Inr ()"
    "open_document sample_editor sample_io sample_path sample_disk = Inr (False, sample_document)" by code_simp+
  have "is_ok (set_document sample_editor sample_set Side_Server sample_path sample_document)" by code_simp
  then obtain doc where d: "set_document sample_editor sample_set Side_Server sample_path sample_document = Inr doc"
    by (auto simp: is_ok_iff)
  have "set_changes sample_editor sample_io sample_set sample_path sample_disk = Inr (Side_Server, False, doc)"
    unfolding set_changes_def by (simp add: e d sample_valid del: set_side_check.simps)
  then show ?thesis by (simp add: run_set_def sample_write)
qed

definition sample_spec :: service_spec where
  "sample_spec = \<lparr>spec_name = ''vpn'', spec_local_addr = None, spec_bind_addr = Some ''0.0.0.0:2333'',
     spec_token = Some ''k'', spec_udp = True\<rparr>"

lemma sample_spec_wf: "spec_wf Side_Server sample_spec"
proof -
  have "is_ok (validate_host_port ''0.0.0.0:2333'' ''bind'')"
    using sample_addr_port unfolding validate_host_port_iff
    by (simp add: addr_port_def rsplit_once_def)
  moreover have "spec_value ''vpn'' \<and> spec_value ''k'' \<and> spec_value ''0.0.0.0:2333''" by code_simp
  ultimately show ?thesis by (simp add: spec_wf_def sample_spec_def)
qed

definition sample_add :: add_args where
  "sample_add = \<lparr>aa_entry = None, aa_client_specs = [], aa_server_specs = [spec_text sample_spec],
     aa_bind_addr = None, aa_local_addr = None, aa_token = None, aa_noise = False, aa_noise_key = None,
     aa_service_type = Type_Tcp, aa_json = True, aa_yes = True\<rparr>"

lemma sample_add_ok: "is_ok (snd (run_add_batch sample_editor sample_io sample_add sample_path sample_disk))"
proof -
  let ?x = "spec_to_pending sample_editor 0 sample_spec Side_Server"
  have e: "parse_specs sample_editor 0 Side_Server (aa_server_specs sample_add) = Inr [?x]"
    by (simp add: sample_add_def parse_spec_text [OF sample_spec_wf])
  have f: "open_document sample_editor sample_io sample_path sample_disk = Inr (False, sample_document)"
    "batch_prerequisites sample_path sample_document [?x] = Inr ()"
    "add_server_section (ed_toml sample_editor) [?x] sample_document = sample_document"
    "check_new sample_document [?x] = Inr ()" by code_simp+
  have "is_ok (insert_all (ed_toml sample_editor) sample_document [?x])" by code_simp
  then obtain doc results where i: "insert_all (ed_toml sample_editor) sample_document [?x] = Inr (doc, results)"
    by (auto simp: is_ok_iff)
  have a: "aa_client_specs sample_add = []" by (simp add: sample_add_def)
  show ?thesis
    unfolding run_add_batch_def
    by (simp add: a e f i sample_load sample_valid sample_write save_with_skeleton_def save_document_def
        generated_count_def del: check_new.simps insert_all.simps parse_specs.simps(2))
qed

text \<open>An old configuration with a service that the target has, one without an address and one unknown field.\<close>

definition old_path :: path where
  "old_path = ([], ''old.toml'')"

definition old_document :: item where
  "old_document = Item_Table [(''server'', Item_Table
     [(''default_token'', str_item ''old''), (''colour'', str_item ''blue''),
      (''services'', Item_Table [(''ssh'', Item_Table []), (''new'', Item_Table [])])])]"

definition import_disk :: disk where
  "import_disk = sample_disk(old_path \<mapsto> \<lparr>f_content = item_ops old_document, f_mode = 420\<rparr>)"

lemma sample_import_ok: "is_ok (snd (run_import sample_editor sample_io old_path sample_path import_disk))"
proof -
  have "is_ok (import_changes sample_editor sample_io old_path sample_path import_disk)" by code_simp
  then obtain doc r where "import_changes sample_editor sample_io old_path sample_path import_disk = Inr (doc, r)"
    by (auto simp: is_ok_iff)
  then show ?thesis
    by (simp add: run_import_def save_with_skeleton_def save_document_def sample_valid sample_write)
qed

section \<open>Properties\<close>



text \<open>
  C23. A \<open>config set\<close> that succeeds leaves a file whose document has the values of the old one with
  exactly the requested fields assigned: every other value, of any section, is what it was.
\<close>
theorem config_set_exact:
  assumes "run_set ED os a p w = (w', Inr j)" "toml_edit_laws (ed_toml ED)"
    and "tmp_path os p \<noteq> p" "io_read os p = None"
  shows "\<exists>side doc d. set_side ED os a p w = Inr side \<and>
    (if w p = None then doc = Item_Table [] else load_document ED os w p = Inr doc) \<and>
    load_document ED os w' p = Inr d \<and>
    leaf d = assign (below (side_key side) (set_assignments ED a (child_table doc (side_key side)))) (leaf doc)"
  by (rule toml_edit_laws.run_set_leaf [OF assms(2,1) refl assms(3,4)])

theorem config_set_exact_witness:
  "\<exists>w' d. load_document sample_editor sample_io w' sample_path = Inr d \<and>
     leaf d [''server'', ''default_token''] = Some (V_String ''new'') \<and>
     leaf d [''server'', ''services'', ''ssh'', ''token''] = Some (V_String ''t'')"
proof -
  obtain w' j where r: "run_set sample_editor sample_io sample_set sample_path sample_disk = (w', Inr j)"
    by (rule ok_outcome [OF sample_set_ok])
  have side: "set_side sample_editor sample_io sample_set sample_path sample_disk = Inr Side_Server" by code_simp
  obtain d where d: "load_document sample_editor sample_io w' sample_path = Inr d"
      "leaf d = assign (below ''server'' (set_assignments sample_editor sample_set
        (child_table sample_document ''server''))) (leaf sample_document)"
    using config_set_exact [OF r sample_facts(2,5,4)] side sample_load by (auto simp: sample_disk_def)
  have "assign (below ''server'' (set_assignments sample_editor sample_set
        (child_table sample_document ''server''))) (leaf sample_document) [''server'', ''default_token''] =
      Some (V_String ''new'')"
    "assign (below ''server'' (set_assignments sample_editor sample_set
        (child_table sample_document ''server''))) (leaf sample_document) [''server'', ''services'', ''ssh'', ''token''] =
      Some (V_String ''t'')"
    by code_simp+
  then show ?thesis by (intro exI [of _ w'] exI [of _ d] conjI) (simp_all only: d)
qed

text \<open>
  A \<open>config remove\<close> that succeeds removes the values below one service of that name, the
  client's before the server's, and no others.
\<close>
theorem config_remove_exact:
  assumes "run_remove ED os name p w = (w', Inr j)" "toml_edit_laws (ed_toml ED)" "tmp_path os p \<noteq> p"
  shows "\<exists>side doc d. load_document ED os w p = Inr doc \<and> service_named doc side name \<and>
    (service_named doc Side_Client name \<longrightarrow> side = Side_Client) \<and> load_document ED os w' p = Inr d \<and>
    (\<forall>q. leaf d q = (if prefix [side_key side, ''services'', name] q then None else leaf doc q))"
  by (rule toml_edit_laws.run_remove_leaf [OF assms(2,1) refl assms(3)])

theorem config_remove_exact_witness:
  "\<exists>w' d. load_document sample_editor sample_io w' sample_path = Inr d \<and>
     leaf d [''server'', ''services'', ''ssh'', ''token''] = None \<and>
     leaf d [''server'', ''services'', ''web'', ''bind_addr''] = Some (V_String ''0.0.0.0:80'')"
proof -
  have "is_ok (snd (run_remove sample_editor sample_io ''ssh'' sample_path sample_disk))" by code_simp
  then obtain w' j where r: "run_remove sample_editor sample_io ''ssh'' sample_path sample_disk = (w', Inr j)"
    by (rule ok_outcome)
  obtain side d where d: "service_named sample_document side ''ssh''"
      "load_document sample_editor sample_io w' sample_path = Inr d"
      "\<forall>q. leaf d q = (if prefix [side_key side, ''services'', ''ssh''] q then None else leaf sample_document q)"
    using config_remove_exact [OF r sample_facts(2,5)] sample_load by auto
  have "services_of sample_document Side_Client = None" by code_simp
  then have "side = Side_Server" using d(1) by (cases side) (simp_all add: service_named_def)
  moreover have "leaf sample_document [''server'', ''services'', ''web'', ''bind_addr''] = Some (V_String ''0.0.0.0:80'')"
    by code_simp
  ultimately show ?thesis using d(2) by (intro exI [of _ w'] exI [of _ d] conjI) (simp_all only: d(3), simp_all)
qed

text \<open>
  C24. A \<open>config add\<close> with SPECs that succeeds writes the entries of exactly these services, of which
  none was there and all are of one side, and changes nothing else but that a new server section
  gets the default address.
\<close>
theorem config_add_exact:
  assumes "run_add_batch ED os a p w = (w', Inr j)" "toml_edit_laws (ed_toml ED)"
    and "tmp_path os p \<noteq> p" "io_read os p = None"
  shows "\<exists>cs ss doc d. parse_specs ED 0 Side_Client (aa_client_specs a) = Inr cs \<and>
    parse_specs ED (generated_count cs) Side_Server (aa_server_specs a) = Inr ss \<and>
    (if w p = None then doc = Item_Table [] else load_document ED os w p = Inr doc) \<and>
    load_document ED os w' p = Inr d \<and>
    leaf d = added (cs @ ss) (if ss \<noteq> [] \<and> \<not> has_section doc ''server''
      then assign [([''server'', ''bind_addr''], V_String DEFAULT_SERVER_BIND_ADDR)] (leaf doc) else leaf doc) \<and>
    (\<forall>x \<in> set (cs @ ss). \<not> service_exists doc (pe_side x) (pe_name x)) \<and> (cs = [] \<or> ss = [])"
  by (rule toml_edit_laws.run_add_batch_leaf [OF assms(2,1) refl assms(3,4)])

theorem config_add_exact_witness:
  "\<exists>w' ss d. load_document sample_editor sample_io w' sample_path = Inr d \<and>
     parse_specs sample_editor 0 Side_Server [spec_text sample_spec] = Inr ss \<and>
     leaf d = added ss (leaf sample_document)"
proof -
  obtain w' j where r: "run_add_batch sample_editor sample_io sample_add sample_path sample_disk = (w', Inr j)"
    by (rule ok_outcome [OF sample_add_ok])
  have s: "has_section sample_document ''server''" by code_simp
  show ?thesis
    using config_add_exact [OF r sample_facts(2,5,4)] sample_load s
    by (auto simp: sample_add_def sample_disk_def generated_count_def)
qed



text \<open>
  The SPEC syntax is a round trip: the text of the pairs of a service, joined by semicolons, is
  read back as that service, for all names, addresses and tokens that a SPEC can carry.
\<close>
theorem spec_roundtrip:
  assumes "spec_wf side s"
  shows "parse_spec (spec_text s) side = Inr s"
  by (rule parse_spec_text [OF assms])

theorem spec_roundtrip_witness: "parse_spec (spec_text sample_spec) Side_Server = Inr sample_spec"
  by (rule spec_roundtrip [OF sample_spec_wf])

text \<open>
  The installed services, and so the one that a command works on when none is named, do not depend
  on the order in which the directory is read.
\<close>
theorem installed_services_order_independent:
  assumes "io_read_dir os config_dir = Some names" "io_read_dir os' config_dir = Some names'"
    and "mset names = mset names'" "io_read os = io_read os'"
  shows "list_installed_services ED os w = list_installed_services ED os' w \<and>
    resolve_service_config ED os w c n = resolve_service_config ED os' w c n"
  unfolding resolve_service_config_def list_installed_permute [OF assms, where ED = ED and w = w] by simp

theorem installed_services_order_independent_witness:
  "list_installed_services sample_editor sample_io sample_disk =
     list_installed_services sample_editor
       (sample_io\<lparr>io_read_dir := \<lambda>_. Some [''version.toml'', ''a.toml'']\<rparr>) sample_disk"
  using installed_services_order_independent [of sample_io "[''a.toml'', ''version.toml'']"
      "sample_io\<lparr>io_read_dir := \<lambda>_. Some [''version.toml'', ''a.toml'']\<rparr>" "[''version.toml'', ''a.toml'']"
      sample_editor sample_disk None None]
  by (simp add: sample_io_def add_mset_commute)

end
