(* ===== verification/Linux_Host.thy ===== *)
theory Linux_Host
  imports Config_Store
begin

text \<open>
  \<open>src/platform/linux.rs\<close>, what both init systems use: the machine a service command works on
  (its files, the tools that were run, the lines that were printed), the service account, the
  protection of a configuration, the deployed binary and the clean-up. How the operating system
  and the tools answer is a parameter, so every failure is a branch.
\<close>

section \<open>The machine\<close>

text \<open>
  \<open>ho_run\<close> is what running a tool gives after the tools run so far: it could not be started, or
  its exit and its output (decoded as the program decodes it). \<open>ho_write\<close>, \<open>ho_open\<close> and
  \<open>ho_unlink\<close> say which calls fail, a failed write with what it leaves; \<open>ho_copy\<close> the file a copy
  makes, or the error with what it leaves.
\<close>

record tool_output =
  ou_success :: bool
  ou_stdout :: string
  ou_stderr :: string

type_synonym tool_call = "string \<times> string list"

record host =
  ho_euid :: u32
  ho_systemd :: bool
  ho_run :: "tool_call list \<Rightarrow> tool_call \<Rightarrow> string + tool_output"
  ho_exe :: "io_error + path"
  ho_write :: "path \<Rightarrow> (io_error \<times> disk_file option) option"
  ho_open :: "path \<Rightarrow> io_error option"
  ho_chmod :: "path \<Rightarrow> io_error option"
  ho_unlink :: "path \<Rightarrow> io_error option"
  ho_mkdir :: "string list \<Rightarrow> io_error option"
  ho_copy :: "disk \<Rightarrow> path \<Rightarrow> path \<Rightarrow> io_error \<times> disk_file option + disk_file"
  ho_read_dir :: "disk \<Rightarrow> string list \<Rightarrow> string list option"
  ho_mode :: nat

record computer =
  ma_disk :: disk
  ma_tools :: "tool_call list"
  ma_printed :: "string list"

type_synonym 'a act = "computer \<Rightarrow> computer \<times> (anyhow + 'a)"

section \<open>Actions\<close>

named_theorems act_simps \<open>unfolding of the combinators of actions\<close>

definition act_return :: "'a \<Rightarrow> 'a act" where
  "act_return x m = (m, Inr x)"

definition act_lift :: "anyhow + 'a \<Rightarrow> 'a act" where
  "act_lift r m = (m, r)"

abbreviation act_fail :: "anyhow \<Rightarrow> 'a act" where
  "act_fail e \<equiv> act_lift (Inl e)"

text \<open>The operator \<open>?\<close> between two actions.\<close>

definition act_bind :: "'a act \<Rightarrow> ('a \<Rightarrow> 'b act) \<Rightarrow> 'b act" where
  "act_bind f k m = (case f m of (m', Inl e) \<Rightarrow> (m', Inl e) | (m', Inr x) \<Rightarrow> k x m')"

abbreviation act_seq :: "'a act \<Rightarrow> 'b act \<Rightarrow> 'b act" where
  "act_seq f k \<equiv> act_bind f (\<lambda>_. k)"

definition act_context :: "string \<Rightarrow> 'a act \<Rightarrow> 'a act" where
  "act_context c f m = map_prod id (with_context (Ctx c)) (f m)"

definition act_when :: "bool \<Rightarrow> unit act \<Rightarrow> unit act" where
  "act_when b f = (if b then f else act_return ())"

fun act_all :: "unit act list \<Rightarrow> unit act" where
  "act_all [] = act_return ()"
| "act_all (f # fs) = act_seq f (act_all fs)"

definition on_machine :: "(computer \<Rightarrow> 'a act) \<Rightarrow> 'a act" where
  "on_machine f m = f m m"

definition print_line :: "string \<Rightarrow> unit act" where
  "print_line s m = (m\<lparr>ma_printed := ma_printed m @ [s]\<rparr>, Inr ())"

definition print_lines :: "string list \<Rightarrow> unit act" where
  "print_lines ls m = (m\<lparr>ma_printed := ma_printed m @ ls\<rparr>, Inr ())"

lemma act_bind_Inr: "act_bind f k m = (m', Inr y) \<longleftrightarrow> (\<exists>m1 x. f m = (m1, Inr x) \<and> k x m1 = (m', Inr y))"
  by (auto simp: act_bind_def split: prod.splits sum.splits)

lemma act_bind_ok: "f m = (m1, Inr x) \<Longrightarrow> act_bind f k m = k x m1"
  by (simp add: act_bind_def)

lemma act_bind_fail: "f m = (m1, Inl e) \<Longrightarrow> act_bind f k m = (m1, Inl e)"
  by (simp add: act_bind_def)

lemma act_context_iff [simp]:
  "act_context c f m = (m', Inr y) \<longleftrightarrow> f m = (m', Inr y)"
  "act_context c f m = (m', Inl e) \<longleftrightarrow> (\<exists>e'. f m = (m', Inl e') \<and> e = Ctx c e')"
  by (cases "f m"; cases "snd (f m)"; auto simp: act_context_def)+

lemma act_leaf [simp]:
  "act_return x m = (m, Inr x)" "act_lift r m = (m, r)" "on_machine h m = h m m"
  "print_line s m = (m\<lparr>ma_printed := ma_printed m @ [s]\<rparr>, Inr ())"
  "print_lines ls m = (m\<lparr>ma_printed := ma_printed m @ ls\<rparr>, Inr ())"
  by (simp_all add: act_return_def act_lift_def on_machine_def print_line_def print_lines_def)

section \<open>Tools and files\<close>

text \<open>\<open>Command::output\<close> and \<open>Command::status\<close>, and whether one of them succeeded.\<close>

definition run_tool :: "host \<Rightarrow> string \<Rightarrow> string list \<Rightarrow> computer \<Rightarrow> computer \<times> (string + tool_output)" where
  "run_tool H program args m =
     (m\<lparr>ma_tools := ma_tools m @ [(program, args)]\<rparr>, ho_run H (ma_tools m) (program, args))"

definition tool_succeeds :: "host \<Rightarrow> string \<Rightarrow> string list \<Rightarrow> bool act" where
  "tool_succeeds H program args m =
     map_prod id (\<lambda>r. Inr (case r of Inl _ \<Rightarrow> False | Inr o1 \<Rightarrow> ou_success o1)) (run_tool H program args m)"

definition command_ok :: "host \<Rightarrow> string \<Rightarrow> string list \<Rightarrow> unit act" where
  "command_ok H program args m =
     map_prod id (\<lambda>r. case r of
         Inl e \<Rightarrow> Inl (Ctx (''failed to run '' @ program) (Err e))
       | Inr o1 \<Rightarrow> if ou_success o1 then Inr ()
                 else Inl (Err (program @ '' '' @ join_str '' '' args @ '' failed'')))
       (run_tool H program args m)"

text \<open>A tool whose output is reported: \<open>run_systemctl\<close> and \<open>run_rc\<close>.\<close>

definition run_reported :: "host \<Rightarrow> string \<Rightarrow> string list \<Rightarrow> unit act" where
  "run_reported H program args m =
     (let line = program @ '' '' @ join_str '' '' args in
      map_prod id (\<lambda>r. case r of
          Inl e \<Rightarrow> Inl (Ctx (''failed to run `'' @ line @ ''`'') (Err e))
        | Inr o1 \<Rightarrow> if ou_success o1 then Inr ()
                  else Inl (Err (''`'' @ line @ ''` failed:'' @ [CHR 10] @ trim (ou_stderr o1))))
        (run_tool H program args m))"

definition write_file :: "host \<Rightarrow> path \<Rightarrow> string \<Rightarrow> unit act" where
  "write_file H p content m =
     (case ho_write H p of
        Some (e, left) \<Rightarrow> (m\<lparr>ma_disk := (ma_disk m)(p := left)\<rparr>, Inl (Err (ie_text e)))
      | None \<Rightarrow>
          (m\<lparr>ma_disk := (ma_disk m)(p \<mapsto>
              \<lparr>f_content = content, f_mode = (case ma_disk m p of None \<Rightarrow> ho_mode H | Some f \<Rightarrow> f_mode f)\<rparr>)\<rparr>, Inr ()))"

text \<open>\<open>set_permissions\<close>, and \<open>remove_file\<close>, which fails on a file that is not there.\<close>

definition set_permissions :: "host \<Rightarrow> path \<Rightarrow> nat \<Rightarrow> unit act" where
  "set_permissions H p mode m =
     (case (ho_chmod H p, ma_disk m p) of
        (Some e, _) \<Rightarrow> (m, Inl (Err (ie_text e)))
      | (None, None) \<Rightarrow> (m, Inl (Err ''No such file or directory''))
      | (None, Some f) \<Rightarrow> (m\<lparr>ma_disk := (ma_disk m)(p \<mapsto> f\<lparr>f_mode := mode\<rparr>)\<rparr>, Inr ()))"

definition remove_file :: "host \<Rightarrow> path \<Rightarrow> unit act" where
  "remove_file H p m =
     (case ho_unlink H p of
        Some e \<Rightarrow> (m, Inl (Err (ie_text e)))
      | None \<Rightarrow>
          if path_exists (ma_disk m) p then (m\<lparr>ma_disk := (ma_disk m)(p := None)\<rparr>, Inr ())
          else (m, Inl (Err ''No such file or directory'')))"

definition create_dir_all :: "host \<Rightarrow> string list \<Rightarrow> unit act" where
  "create_dir_all H d m =
     (m, case ho_mkdir H d of None \<Rightarrow> Inr () | Some e \<Rightarrow> Inl (Err (ie_text e)))"

text \<open>\<open>let _ =\<close> an action: its error is dropped.\<close>

definition ignore :: "'a act \<Rightarrow> unit act" where
  "ignore f m = (fst (f m), Inr ())"

section \<open>The account, the configuration and the binary\<close>

definition SERVICE_ACCOUNT :: string where
  "SERVICE_ACCOUNT = ''rathole-x''"

definition SERVICE_GROUP :: string where
  "SERVICE_GROUP = ''rathole-x''"

definition installed_binary_path :: path where
  "installed_binary_path = ([[], ''usr'', ''local'', ''lib'', ''rathole-x''], ''rathole-x'')"

datatype init_system = Systemd | OpenRc

definition init :: "host \<Rightarrow> init_system act" where
  "init H m =
     (if ho_systemd H then (m, Inr Systemd)
      else case run_tool H ''rc-service'' [''--version''] m of
        (m', Inr _) \<Rightarrow> (m', Inr OpenRc)
      | (m', Inl _) \<Rightarrow>
          (m', Inl (Err ''no supported Linux init system found; rathole-x supports systemd and OpenRC'')))"

definition ensure_root :: "host \<Rightarrow> unit act" where
  "ensure_root H = (if ho_euid H \<noteq> 0 then act_fail (Err ''please run with sudo'') else act_return ())"

definition exists_entry :: "host \<Rightarrow> string \<Rightarrow> string \<Rightarrow> bool act" where
  "exists_entry H database key = tool_succeeds H ''getent'' [database, key]"

definition ensure_service_account :: "host \<Rightarrow> unit act" where
  "ensure_service_account H =
     act_seq (ensure_root H)
    (act_bind (exists_entry H ''group'' SERVICE_GROUP) (\<lambda>g.
     act_seq (if g then act_return () else
       act_bind (tool_succeeds H ''groupadd'' [''--system'', SERVICE_GROUP]) (\<lambda>ok.
       if ok then act_return () else command_ok H ''addgroup'' [''-S'', SERVICE_GROUP]))
    (act_bind (exists_entry H ''passwd'' SERVICE_ACCOUNT) (\<lambda>p.
     if p then act_return () else
       act_bind (tool_succeeds H ''useradd'' [''--system'', ''--no-create-home'', ''--shell'', ''/usr/sbin/nologin'',
         ''--gid'', SERVICE_GROUP, SERVICE_ACCOUNT]) (\<lambda>ok.
       if ok then act_return () else
         command_ok H ''adduser'' [''-S'', ''-D'', ''-H'', ''-s'', ''/sbin/nologin'', ''-G'', SERVICE_GROUP, SERVICE_ACCOUNT])))))"

definition owner :: "host \<Rightarrow> string \<Rightarrow> string \<Rightarrow> unit act" where
  "owner H value mode =
     act_seq (command_ok H ''chown'' [''root:rathole-x'', value]) (command_ok H ''chmod'' [mode, value])"

text \<open>A path of the model has a parent, so the error of a path without one does not arise.\<close>

definition secure_managed_config :: "host \<Rightarrow> path \<Rightarrow> unit act" where
  "secure_managed_config H p =
     act_seq (act_context (''failed to create '' @ display_dir (fst p)) (create_dir_all H (fst p)))
    (act_seq (owner H (display_dir (fst p)) ''0755'')
    (on_machine (\<lambda>m. if path_exists (ma_disk m) p then owner H (display_path p) ''0644'' else act_return ())))"

definition version_stamp :: "string \<Rightarrow> string" where
  "version_stamp semver =
     text_lines [''# Written by rathole-x service install.'',
       ''version = '' @ string_of_nat (unat (major_version semver))]"

definition write_version_stamp :: "host \<Rightarrow> string \<Rightarrow> path \<Rightarrow> unit act" where
  "write_version_stamp H semver config =
     (let version = version_path config in
      act_seq (act_context (''failed to write '' @ display_path version)
        (write_file H version (version_stamp semver)))
      (secure_managed_config H version))"

definition copy_file :: "host \<Rightarrow> path \<Rightarrow> path \<Rightarrow> unit act" where
  "copy_file H src dest m =
     (case ho_copy H (ma_disk m) src dest of
        Inl (e, left) \<Rightarrow> (m\<lparr>ma_disk := (ma_disk m)(dest := left)\<rparr>, Inl (Err (ie_text e)))
      | Inr f \<Rightarrow> (m\<lparr>ma_disk := (ma_disk m)(dest \<mapsto> f)\<rparr>, Inr ()))"

definition deploy_binary :: "host \<Rightarrow> path act" where
  "deploy_binary H =
     (let dest = installed_binary_path; d = display_path dest in
      act_seq (ensure_root H)
     (act_seq (create_dir_all H (fst dest))
     (act_bind (act_lift (case ho_exe H of
         Inl e \<Rightarrow> Inl (Ctx ''failed to resolve current executable'' (Err (ie_text e))) | Inr p \<Rightarrow> Inr p)) (\<lambda>exe.
      act_seq (act_context (''failed to install binary to '' @ d) (copy_file H exe dest))
     (act_seq (command_ok H ''chown'' [''root:root'', d])
     (act_seq (command_ok H ''chmod'' [''0755'', d])
     (act_return dest)))))))"

definition is_toml :: "string \<Rightarrow> bool" where
  "is_toml f \<longleftrightarrow> snd (stem_extension f) = Some ''toml''"

definition other_configs :: "host \<Rightarrow> disk \<Rightarrow> path \<Rightarrow> bool" where
  "other_configs H w config =
     (case ho_read_dir H w (fst config) of
        None \<Rightarrow> False
      | Some names \<Rightarrow> list_ex (\<lambda>f. is_toml f \<and> (fst config, f) \<noteq> version_path config) names)"

definition remove_service_files :: "host \<Rightarrow> path \<Rightarrow> bool \<Rightarrow> unit act" where
  "remove_service_files H config purge =
     (let version = version_path config in
      act_seq (on_machine (\<lambda>m. act_when (purge \<and> path_exists (ma_disk m) config)
        (act_seq (ensure_root H)
          (act_context (''failed to remove config '' @ display_path config) (remove_file H config)))))
     (on_machine (\<lambda>m. act_when (\<not> other_configs H (ma_disk m) config \<and> path_exists (ma_disk m) version)
        (act_context (''failed to remove version stamp '' @ display_path version) (remove_file H version)))))"

section \<open>What both backends print and read\<close>

definition install_lines :: "service_role \<Rightarrow> string \<Rightarrow> string \<Rightarrow> path \<Rightarrow> string \<Rightarrow> string list" where
  "install_lines role name svc config start =
     [''Installing '' @ role_key role @ '' service '' @ CHR 39 # name @ CHR 39 # '':'',
      ''  Service:     '' @ svc,
      ''  Config:      '' @ display_path config,
      ''  Access:      root-managed config; edits require sudo'',
      ''  Runtime:     '' @ SERVICE_ACCOUNT @ '' (CAP_NET_BIND_SERVICE only)'',
      ''  Auto start:  enabled ('' @ start @ '')'']"

definition installed_lines :: "string \<Rightarrow> string \<Rightarrow> string list" where
  "installed_lines svc name =
     [''Service '' @ CHR 39 # svc @ CHR 39 # '' installed and started'',
      ''Run `rathole-x status --name '' @ name @ ''` to inspect, `rathole-x config add --name '' @ name @
        '' ...` to configure (hot-reloaded).'']"

definition already_exists :: "string \<Rightarrow> string \<Rightarrow> anyhow" where
  "already_exists svc name =
     Err (''service '' @ CHR 39 # svc @ CHR 39 # '' already exists; run `rathole-x service uninstall --yes --name '' @
       name @ ''` first'')"

definition unsafe_user_config :: anyhow where
  "unsafe_user_config = Err ''--allow-user-config is unsafe for Linux managed services and is not supported''"

definition config_stem :: "string \<Rightarrow> path \<Rightarrow> string" where
  "config_stem otherwise config = (if snd config = [] then otherwise else fst (stem_extension (snd config)))"

definition uninstall_lines :: "string \<Rightarrow> bool \<Rightarrow> path \<Rightarrow> string list" where
  "uninstall_lines name purge config =
     [''Uninstalling service '' @ CHR 39 # name @ CHR 39 # '':'',
      ''  Config:      will be '' @ (if purge then ''removed'' else ''kept'') @ '' ('' @ display_path config @ '')'']"

definition not_installed_line :: "string \<Rightarrow> string" where
  "not_installed_line name =
     ''Service '' @ CHR 39 # name @ CHR 39 # '' is not installed; cleaning up leftover files.''"

definition updated_line :: "path \<Rightarrow> nat \<Rightarrow> string" where
  "updated_line exe n =
     ''Updated '' @ display_path exe @ '' and restarted '' @ string_of_nat n @ '' service(s).''"

definition parse_pid :: "string \<Rightarrow> u32 option" where
  "parse_pid s = (case parse_u32 (trim s) of Some p \<Rightarrow> if p = 0 then None else Some p | None \<Rightarrow> None)"

section \<open>What an action changes\<close>

text \<open>
  \<open>touches P f\<close>: however it ends, the action changes no file outside \<open>P\<close>. \<open>keeps_tools\<close>: it runs
  no tool.
\<close>

named_theorems touches_intros \<open>frame rules of the actions\<close>

definition touches :: "path set \<Rightarrow> 'a act \<Rightarrow> bool" where
  "touches P f \<longleftrightarrow> (\<forall>m p. p \<notin> P \<longrightarrow> ma_disk (fst (f m)) p = ma_disk m p)"

lemma touchesD: "touches P f \<Longrightarrow> f m = (m', r) \<Longrightarrow> p \<notin> P \<Longrightarrow> ma_disk m' p = ma_disk m p"
  by (metis fst_conv touches_def)

lemma touches_mono: "touches P f \<Longrightarrow> P \<subseteq> Q \<Longrightarrow> touches Q f"
  by (auto simp: touches_def)

lemma touches_leaf [touches_intros]:
  "touches P (act_return x)" "touches P (act_lift r)" "touches P (print_line s)" "touches P (print_lines ls)"
  "touches P (create_dir_all H d)"
  by (simp_all add: touches_def create_dir_all_def)

lemma touches_bind [touches_intros]: "touches P f \<Longrightarrow> (\<And>x. touches P (k x)) \<Longrightarrow> touches P (act_bind f k)"
  by (auto simp: touches_def act_bind_def split: prod.split sum.split) (metis fst_conv)+

lemma touches_context [touches_intros]: "touches P f \<Longrightarrow> touches P (act_context c f)"
  by (simp add: touches_def act_context_def)

lemma touches_when [touches_intros]: "(b \<Longrightarrow> touches P f) \<Longrightarrow> touches P (act_when b f)"
  by (simp add: act_when_def touches_leaf)

lemma touches_if [touches_intros]: "(b \<Longrightarrow> touches P f) \<Longrightarrow> (\<not> b \<Longrightarrow> touches P g) \<Longrightarrow> touches P (if b then f else g)"
  by simp

lemma touches_on_machine [touches_intros]: "(\<And>m. touches P (f m)) \<Longrightarrow> touches P (on_machine f)"
  by (simp add: touches_def)

lemma touches_ignore [touches_intros]: "touches P f \<Longrightarrow> touches P (ignore f)"
  by (simp add: touches_def ignore_def)

lemma touches_all [touches_intros]: "(\<And>f. f \<in> set fs \<Longrightarrow> touches P f) \<Longrightarrow> touches P (act_all fs)"
  by (induction fs) (auto intro: touches_intros)

lemma touches_tools [touches_intros]:
  "touches P (tool_succeeds H program args)" "touches P (command_ok H program args)"
  "touches P (run_reported H program args)"
  by (simp_all add: touches_def tool_succeeds_def command_ok_def run_reported_def run_tool_def Let_def)

lemma touches_files [touches_intros]:
  "p \<in> P \<Longrightarrow> touches P (write_file H p content)" "p \<in> P \<Longrightarrow> touches P (remove_file H p)"
  "p \<in> P \<Longrightarrow> touches P (set_permissions H p mode)" "p \<in> P \<Longrightarrow> touches P (copy_file H src p)"
  by (auto simp: touches_def write_file_def remove_file_def set_permissions_def copy_file_def
      split: option.splits sum.splits prod.splits)

lemma touches_init [touches_intros]: "touches P (init H)"
  by (auto simp: touches_def init_def run_tool_def split: sum.splits prod.splits)

lemma touches_root [touches_intros]: "touches P (ensure_root H)"
  by (simp add: ensure_root_def touches_leaf)

lemma touches_account [touches_intros]: "touches P (ensure_service_account H)"
  unfolding ensure_service_account_def exists_entry_def by (intro touches_intros)

lemma touches_secure [touches_intros]: "touches P (secure_managed_config H p)"
  unfolding secure_managed_config_def owner_def by (intro touches_intros)

lemma touches_stamp [touches_intros]: "version_path config \<in> P \<Longrightarrow> touches P (write_version_stamp H semver config)"
  unfolding write_version_stamp_def Let_def by (intro touches_intros)

lemma touches_deploy [touches_intros]: "installed_binary_path \<in> P \<Longrightarrow> touches P (deploy_binary H)"
  unfolding deploy_binary_def Let_def by (intro touches_intros)

lemma touches_cleanup [touches_intros]:
  "version_path config \<in> P \<Longrightarrow> (purge \<Longrightarrow> config \<in> P) \<Longrightarrow> touches P (remove_service_files H config purge)"
  unfolding remove_service_files_def Let_def by (intro touches_intros) auto

text \<open>Without root, nothing after the check happens; the clean-up removes at most the version stamp.\<close>

lemma touches_unprivileged: "ho_euid H \<noteq> 0 \<Longrightarrow> touches P (act_bind (ensure_root H) k)"
  by (simp add: touches_def act_bind_def ensure_root_def)

lemma touches_cleanup_unprivileged:
  "ho_euid H \<noteq> 0 \<Longrightarrow> version_path config \<in> P \<Longrightarrow> touches P (remove_service_files H config purge)"
  unfolding remove_service_files_def Let_def by (intro touches_intros touches_unprivileged) auto

lemma act_all_append: "act_all (fs @ gs) m = act_seq (act_all fs) (act_all gs) m"
  by (induction fs arbitrary: m) (auto simp: act_bind_def split: prod.split sum.split)

text \<open>A successful step, one for each action.\<close>

lemma write_file_ok:
  "write_file H p content m = (m', Inr x) \<Longrightarrow>
   m' = m\<lparr>ma_disk := (ma_disk m)(p \<mapsto>
     \<lparr>f_content = content, f_mode = (case ma_disk m p of None \<Rightarrow> ho_mode H | Some f \<Rightarrow> f_mode f)\<rparr>)\<rparr>"
  by (simp add: write_file_def split: option.splits prod.splits)

lemma remove_file_ok:
  "remove_file H p m = (m', Inr x) \<Longrightarrow> path_exists (ma_disk m) p \<and> m' = m\<lparr>ma_disk := (ma_disk m)(p := None)\<rparr>"
  by (simp add: remove_file_def split: option.splits if_splits)

lemma ensure_root_ok: "ensure_root H m = (m', Inr x) \<longleftrightarrow> ho_euid H = 0 \<and> m' = m"
  by (auto simp: ensure_root_def)

lemma run_reported_ok:
  "run_reported H program args m = (m', Inr x) \<Longrightarrow> m' = m\<lparr>ma_tools := ma_tools m @ [(program, args)]\<rparr>"
  by (auto simp: run_reported_def Let_def run_tool_def split: sum.splits)

lemma command_ok_ok:
  "command_ok H program args m = (m', Inr x) \<Longrightarrow> m' = m\<lparr>ma_tools := ma_tools m @ [(program, args)]\<rparr>"
  by (auto simp: command_ok_def run_tool_def split: sum.splits)

lemma tool_succeeds_ok:
  "tool_succeeds H program args m = (m', r) \<Longrightarrow> m' = m\<lparr>ma_tools := ma_tools m @ [(program, args)]\<rparr> \<and> r \<noteq> Inl e"
  by (auto simp: tool_succeeds_def run_tool_def)

lemma copy_file_ok:
  "copy_file H src dest m = (m', Inr x) \<Longrightarrow>
   \<exists>f. ho_copy H (ma_disk m) src dest = Inr f \<and> m' = m\<lparr>ma_disk := (ma_disk m)(dest \<mapsto> f)\<rparr>"
  by (auto simp: copy_file_def split: sum.splits prod.splits)

text \<open>A copy to another path has the content of its source.\<close>

definition copies :: "host \<Rightarrow> bool" where
  "copies H \<longleftrightarrow> (\<forall>w src dest f. ho_copy H w src dest = Inr f \<longrightarrow> src \<noteq> dest \<longrightarrow>
     (\<exists>x. w src = Some x \<and> f_content f = f_content x))"

definition deploy_calls :: "tool_call list" where
  "deploy_calls = [(''chown'', [''root:root'', display_path installed_binary_path]),
     (''chmod'', [''0755'', display_path installed_binary_path])]"

lemma deploy_binary_ok:
  assumes "deploy_binary H m = (m', Inr p)"
  shows "\<exists>exe f. ho_exe H = Inr exe \<and> ho_copy H (ma_disk m) exe installed_binary_path = Inr f \<and> ho_euid H = 0 \<and>
    p = installed_binary_path \<and>
    m' = m\<lparr>ma_disk := (ma_disk m)(installed_binary_path \<mapsto> f),
      ma_tools := ma_tools m @ [(''chown'', [''root:root'', display_path installed_binary_path]),
        (''chmod'', [''0755'', display_path installed_binary_path])]\<rparr>"
proof -
  let ?d = installed_binary_path
  obtain exe m1 m2 where s: "ho_euid H = 0" "ho_exe H = Inr exe" "copy_file H exe ?d m = (m1, Inr ())"
    "command_ok H ''chown'' [''root:root'', display_path ?d] m1 = (m2, Inr ())"
    "command_ok H ''chmod'' [''0755'', display_path ?d] m2 = (m', Inr ())" "p = ?d"
    using assms
    by (auto simp: deploy_binary_def Let_def act_bind_Inr ensure_root_ok create_dir_all_def
        split: option.splits sum.splits)
  show ?thesis using copy_file_ok [OF s(3)] command_ok_ok [OF s(4)] command_ok_ok [OF s(5)] s(1,2,6) by auto
qed

text \<open>Actions that only run tools.\<close>

named_theorems runs_intros \<open>actions that only run tools\<close>

definition runs_tools :: "'a act \<Rightarrow> bool" where
  "runs_tools f \<longleftrightarrow> (\<forall>m. \<exists>ts. fst (f m) = m\<lparr>ma_tools := ma_tools m @ ts\<rparr>)"

lemma runs_toolsD: "runs_tools f \<Longrightarrow> f m = (m', r) \<Longrightarrow> \<exists>ts. m' = m\<lparr>ma_tools := ma_tools m @ ts\<rparr>"
  by (metis fst_conv runs_tools_def)

lemma runs_leaf [runs_intros]: "runs_tools (act_return x)" "runs_tools (act_lift r)" "runs_tools (create_dir_all H d)"
  by (auto simp: runs_tools_def create_dir_all_def intro: exI [of _ "[]"])

lemma runs_bind [runs_intros]: "runs_tools f \<Longrightarrow> (\<And>x. runs_tools (k x)) \<Longrightarrow> runs_tools (act_bind f k)"
  unfolding runs_tools_def
proof
  fix m
  assume f: "\<forall>m. \<exists>ts. fst (f m) = m\<lparr>ma_tools := ma_tools m @ ts\<rparr>"
    and k: "\<And>x. \<forall>m. \<exists>ts. fst (k x m) = m\<lparr>ma_tools := ma_tools m @ ts\<rparr>"
  obtain m1 r where e: "f m = (m1, r)" by (cases "f m")
  then obtain ts where m1: "m1 = m\<lparr>ma_tools := ma_tools m @ ts\<rparr>" using f by (metis fst_conv)
  show "\<exists>ts. fst (act_bind f k m) = m\<lparr>ma_tools := ma_tools m @ ts\<rparr>"
  proof (cases r)
    case (Inr x)
    obtain ts' where "fst (k x m1) = m1\<lparr>ma_tools := ma_tools m1 @ ts'\<rparr>" using k by blast
    then have "fst (act_bind f k m) = m\<lparr>ma_tools := ma_tools m @ (ts @ ts')\<rparr>" by (simp add: act_bind_def e Inr m1)
    then show ?thesis by blast
  qed (auto simp: act_bind_def e m1)
qed

lemma runs_if [runs_intros]: "runs_tools f \<Longrightarrow> runs_tools g \<Longrightarrow> runs_tools (if b then f else g)"
  by simp

lemma runs_context [runs_intros]: "runs_tools f \<Longrightarrow> runs_tools (act_context c f)"
  by (simp add: runs_tools_def act_context_def)

lemma runs_on_machine [runs_intros]: "(\<And>m. runs_tools (f m)) \<Longrightarrow> runs_tools (on_machine f)"
  by (simp add: runs_tools_def)

lemma runs_ignore [runs_intros]: "runs_tools f \<Longrightarrow> runs_tools (ignore f)"
  by (simp add: runs_tools_def ignore_def)

lemma runs_all [runs_intros]: "(\<And>f. f \<in> set fs \<Longrightarrow> runs_tools f) \<Longrightarrow> runs_tools (act_all fs)"
  by (induction fs) (auto intro: runs_intros)

lemma runs_run [runs_intros]:
  "runs_tools (tool_succeeds H program args)" "runs_tools (command_ok H program args)"
  "runs_tools (run_reported H program args)"
  by (auto simp: runs_tools_def tool_succeeds_def command_ok_def run_reported_def run_tool_def Let_def)

lemma runs_init [runs_intros]: "runs_tools (init H)"
  by (auto simp: runs_tools_def init_def run_tool_def split: sum.splits prod.splits intro: exI [of _ "[]"])

lemma runs_root [runs_intros]: "runs_tools (ensure_root H)"
  by (simp add: ensure_root_def runs_leaf)

lemma runs_account [runs_intros]: "runs_tools (ensure_service_account H)"
  unfolding ensure_service_account_def exists_entry_def by (intro runs_intros)

lemma runs_secure [runs_intros]: "runs_tools (secure_managed_config H p)"
  unfolding secure_managed_config_def owner_def by (intro runs_intros)

lemma write_version_stamp_ok:
  assumes "write_version_stamp H semver config m = (m', Inr x)"
  shows "\<exists>ts mode. m' = m\<lparr>ma_disk := (ma_disk m)(version_path config \<mapsto>
      \<lparr>f_content = version_stamp semver, f_mode = mode\<rparr>), ma_tools := ma_tools m @ ts\<rparr>"
proof -
  obtain m1 where s: "write_file H (version_path config) (version_stamp semver) m = (m1, Inr ())"
    "secure_managed_config H (version_path config) m1 = (m', Inr x)"
    using assms by (auto simp: write_version_stamp_def Let_def act_bind_Inr)
  show ?thesis using write_file_ok [OF s(1)] runs_toolsD [OF runs_secure s(2)] by auto
qed

text \<open>The clean-up: the configuration goes exactly with \<open>purge\<close>, the stamp with the last configuration.\<close>

lemma remove_service_files_ok:
  assumes "remove_service_files H config purge m = (m', Inr x)"
  shows "\<exists>w1. w1 = (if purge then (ma_disk m)(config := None) else ma_disk m) \<and>
    m' = m\<lparr>ma_disk := (if other_configs H w1 config then w1 else w1(version_path config := None))\<rparr> \<and>
    (purge \<and> path_exists (ma_disk m) config \<longrightarrow> ho_euid H = 0)"
proof -
  let ?f = "act_when (purge \<and> path_exists (ma_disk m) config)
    (act_seq (ensure_root H) (act_context (''failed to remove config '' @ display_path config) (remove_file H config)))"
  obtain m1 where s: "?f m = (m1, Inr ())"
    "act_when (\<not> other_configs H (ma_disk m1) config \<and> path_exists (ma_disk m1) (version_path config))
      (act_context (''failed to remove version stamp '' @ display_path (version_path config))
        (remove_file H (version_path config))) m1 = (m', Inr x)"
    using assms by (auto simp: remove_service_files_def Let_def act_bind_Inr)
  have m1: "m1 = m\<lparr>ma_disk := (if purge then (ma_disk m)(config := None) else ma_disk m)\<rparr> \<and>
      (purge \<and> path_exists (ma_disk m) config \<longrightarrow> ho_euid H = 0)"
    using s(1) by (auto simp: act_when_def act_bind_Inr ensure_root_ok path_exists_def fun_upd_idem
        dest!: remove_file_ok split: if_splits)
  have "m' = m1\<lparr>ma_disk := (if other_configs H (ma_disk m1) config then ma_disk m1
      else (ma_disk m1)(version_path config := None))\<rparr>"
    using s(2) by (auto simp: act_when_def path_exists_def fun_upd_idem dest!: remove_file_ok split: if_splits)
  with m1 show ?thesis by simp
qed

lemma other_configs_kept:
  "ho_read_dir H w (fst config) = Some names \<Longrightarrow> snd config \<in> set names \<Longrightarrow> is_toml (snd config) \<Longrightarrow>
   config \<noteq> version_path config \<Longrightarrow> other_configs H w config"
  by (auto simp: other_configs_def list_ex_iff intro!: bexI [of _ "snd config"])

section \<open>The interface of an init system\<close>

text \<open>
  What the two backends have in common: a service has one file, named by its role and its name,
  and the commands over all services find it by its name, whatever its role.
\<close>

locale init_backend =
  fixes svc :: "service_role \<Rightarrow> string \<Rightarrow> string"
    and spath :: "string \<Rightarrow> path"
    and existing :: "disk \<Rightarrow> string \<Rightarrow> string option"
    and svc_of :: "disk \<Rightarrow> string \<times> service_role \<Rightarrow> string"
    and render :: "path \<Rightarrow> path \<Rightarrow> string \<Rightarrow> anyhow + string"
    and write_entry :: "host \<Rightarrow> string \<Rightarrow> string \<Rightarrow> unit act"
    and stop_call :: "string \<Rightarrow> tool_call"
    and start_call :: "string \<Rightarrow> tool_call"
    and stop_all :: "host \<Rightarrow> (string \<times> service_role) list \<Rightarrow> unit act"
    and rewrite_all :: "host \<Rightarrow> path \<Rightarrow> (string \<times> service_role) list \<Rightarrow> unit act"
    and start_all :: "host \<Rightarrow> (string \<times> service_role) list \<Rightarrow> nat act"
  assumes svc_inj: "svc r n = svc r' n' \<longleftrightarrow> r = r' \<and> n = n'"
    and spath_inj: "spath u = spath u' \<longleftrightarrow> u = u'"
    and spath_binary: "spath u \<noteq> installed_binary_path"
    and existing_eq: "existing w name = List.find (\<lambda>u. path_exists w (spath u)) [svc Role_Client name, svc Role_Server name]"
    and svc_of_eq: "svc_of w s = (case existing w (fst s) of Some u \<Rightarrow> u | None \<Rightarrow> svc (snd s) (fst s))"
    and write_entry_ok: "write_entry H u content m = (m', Inr x) \<Longrightarrow>
      \<exists>mode. m' = m\<lparr>ma_disk := (ma_disk m)(spath u \<mapsto> \<lparr>f_content = content, f_mode = mode\<rparr>)\<rparr>"
    and stop_all_eq: "stop_all H ss = act_all (map (\<lambda>s. on_machine (\<lambda>m.
      ignore (tool_succeeds H (fst (stop_call (svc_of (ma_disk m) s))) (snd (stop_call (svc_of (ma_disk m) s)))))) ss)"
    and rewrite_all_eq: "rewrite_all H exe ss = act_all (map (\<lambda>s. on_machine (\<lambda>m. let u = svc_of (ma_disk m) s in
      if \<not> path_exists (ma_disk m) (spath u) then act_return ()
      else act_bind (act_lift (render exe (config_dir, fst s @ ''.toml'') u)) (write_entry H u))) ss)"
    and start_all_Nil: "start_all H [] = act_return 0"
    and start_all_Cons: "start_all H (s # ss) =
      act_bind (on_machine (\<lambda>m. tool_succeeds H (fst (start_call (svc_of (ma_disk m) s))) (snd (start_call (svc_of (ma_disk m) s)))))
        (\<lambda>ok. act_bind (start_all H ss) (\<lambda>n. act_return (if ok then Suc n else n)))"
begin

lemma existing_Some: "existing w name = Some u \<Longrightarrow> path_exists w (spath u) \<and> (\<exists>r. u = svc r name)"
  by (auto simp: existing_eq split: if_splits)

lemma existing_None: "existing w name = None \<longleftrightarrow> (\<forall>r. w (spath (svc r name)) = None)"
  by (auto simp: existing_eq path_exists_def split: if_splits) (metis service_role.exhaust)

lemma stop_all_ok:
  "stop_all H ss m = (m\<lparr>ma_tools := ma_tools m @ map (\<lambda>s. stop_call (svc_of (ma_disk m) s)) ss\<rparr>, Inr ())"
  unfolding stop_all_eq
  by (induction ss arbitrary: m) (auto simp: act_bind_def ignore_def tool_succeeds_def run_tool_def)

lemma start_all_ok:
  "\<exists>n \<le> length ss. start_all H ss m =
     (m\<lparr>ma_tools := ma_tools m @ map (\<lambda>s. start_call (svc_of (ma_disk m) s)) ss\<rparr>, Inr n)"
proof (induction ss arbitrary: m)
  case Nil
  then show ?case by (simp add: start_all_Nil)
next
  case (Cons s ss)
  let ?c = "start_call (svc_of (ma_disk m) s)"
  let ?m = "m\<lparr>ma_tools := ma_tools m @ [?c]\<rparr>"
  obtain ok where t: "tool_succeeds H (fst ?c) (snd ?c) m = (?m, Inr ok)"
    by (auto simp: tool_succeeds_def run_tool_def)
  obtain n where n: "n \<le> length ss" "start_all H ss ?m =
      (?m\<lparr>ma_tools := ma_tools ?m @ map (\<lambda>s. start_call (svc_of (ma_disk ?m) s)) ss\<rparr>, Inr n)"
    using Cons.IH by blast
  then show ?case
    by (intro exI [of _ "if ok then Suc n else n"]) (simp add: start_all_Cons act_bind_def t)
qed

text \<open>Rewriting keeps which services there are, so every one is found again.\<close>

definition same_services :: "disk \<Rightarrow> disk \<Rightarrow> bool" where
  "same_services w w' \<longleftrightarrow> (\<forall>u. path_exists w (spath u) = path_exists w' (spath u))"

lemma same_services_of: "same_services w w' \<Longrightarrow> svc_of w s = svc_of w' s"
  by (simp add: same_services_def svc_of_eq existing_eq)

lemma rewrite_all_ok:
  assumes "rewrite_all H exe ss m = (m', Inr x)"
  shows "ma_tools m' = ma_tools m \<and> same_services (ma_disk m) (ma_disk m') \<and>
    (\<forall>p. p \<notin> (\<lambda>s. spath (svc_of (ma_disk m) s)) ` set ss \<longrightarrow> ma_disk m' p = ma_disk m p) \<and>
    (\<forall>u. path_exists (ma_disk m) (spath u) \<longrightarrow> u \<in> svc_of (ma_disk m) ` set ss \<longrightarrow>
       (\<exists>s f. s \<in> set ss \<and> u = svc_of (ma_disk m) s \<and> ma_disk m' (spath u) = Some f \<and>
         render exe (config_dir, fst s @ ''.toml'') u = Inr (f_content f)))"
  using assms
proof (induction ss arbitrary: m)
  case Nil
  then show ?case by (simp add: rewrite_all_eq same_services_def)
next
  case (Cons s ss)
  let ?u = "svc_of (ma_disk m) s"
  show ?case
  proof (cases "path_exists (ma_disk m) (spath ?u)")
    case False
    then have r: "rewrite_all H exe ss m = (m', Inr x)"
      using Cons.prems by (simp add: rewrite_all_eq act_bind_def)
    have "u \<in> svc_of (ma_disk m) ` set ss" if "path_exists (ma_disk m) (spath u)" "u \<in> svc_of (ma_disk m) ` set (s # ss)" for u
      using that False by auto
    then show ?thesis using Cons.IH [OF r] unfolding list.set(2) image_insert by (meson insertCI)
  next
    case True
    obtain m1 content where s: "render exe (config_dir, fst s @ ''.toml'') ?u = Inr content"
      "write_entry H ?u content m = (m1, Inr ())" "rewrite_all H exe ss m1 = (m', Inr x)"
      using Cons.prems True by (auto simp: rewrite_all_eq Let_def act_bind_Inr)
    obtain mode where w: "m1 = m\<lparr>ma_disk := (ma_disk m)(spath ?u \<mapsto> \<lparr>f_content = content, f_mode = mode\<rparr>)\<rparr>"
      using write_entry_ok [OF s(2)] by blast
    have same: "same_services (ma_disk m) (ma_disk m1)" using True w by (auto simp: same_services_def path_exists_def)
    note IH = Cons.IH [OF s(3)]
    have su: "svc_of (ma_disk m1) = svc_of (ma_disk m)" using same_services_of [OF same] by auto
    have ex: "path_exists (ma_disk m1) (spath u) = path_exists (ma_disk m) (spath u)" for u
      using same by (simp add: same_services_def)
    show ?thesis
    proof (intro conjI allI impI)
      show "ma_tools m' = ma_tools m" using IH w by simp
      show "same_services (ma_disk m) (ma_disk m')" using IH same by (simp add: same_services_def)
      show "ma_disk m' p = ma_disk m p"
        if "p \<notin> (\<lambda>s. spath (svc_of (ma_disk m) s)) ` set (s # ss)" for p
      proof -
        have "p \<notin> (\<lambda>s. spath (svc_of (ma_disk m1) s)) ` set ss" using that by (simp add: su)
        then have "ma_disk m' p = ma_disk m1 p" using IH by blast
        then show ?thesis using that w by auto
      qed
      fix u
      assume u: "path_exists (ma_disk m) (spath u)" "u \<in> svc_of (ma_disk m) ` set (s # ss)"
      show "\<exists>t f. t \<in> set (s # ss) \<and> u = svc_of (ma_disk m) t \<and> ma_disk m' (spath u) = Some f \<and>
        render exe (config_dir, fst t @ ''.toml'') u = Inr (f_content f)"
      proof (cases "u \<in> svc_of (ma_disk m) ` set ss")
        case True
        then obtain t f where "t \<in> set ss" "u = svc_of (ma_disk m) t" "ma_disk m' (spath u) = Some f"
          "render exe (config_dir, fst t @ ''.toml'') u = Inr (f_content f)"
          using IH u(1) unfolding su ex by blast
        then show ?thesis by (intro exI [of _ t] exI [of _ f]) simp
      next
        case False
        then have us: "u = ?u" using u(2) by auto
        have "spath u \<notin> (\<lambda>s. spath (svc_of (ma_disk m1) s)) ` set ss"
          using False by (auto simp: su spath_inj)
        then have "ma_disk m' (spath u) = ma_disk m1 (spath u)" using IH by blast
        then show ?thesis using s(1) w us
          by (intro exI [of _ s] exI [of _ "\<lparr>f_content = content, f_mode = mode\<rparr>"]) simp
      qed
    qed
  qed
qed

lemma svc_of_name: "svc_of w s = svc_of w t \<Longrightarrow> fst s = fst t"
  by (auto simp: svc_of_eq svc_inj split: option.splits dest!: existing_Some)

lemma rewritten:
  assumes "rewrite_all H exe ss m = (m', Inr x)" "s \<in> set ss" "path_exists (ma_disk m) (spath (svc_of (ma_disk m) s))"
  shows "\<exists>f. ma_disk m' (spath (svc_of (ma_disk m) s)) = Some f \<and>
    render exe (config_dir, fst s @ ''.toml'') (svc_of (ma_disk m) s) = Inr (f_content f)"
proof -
  obtain t f where t: "t \<in> set ss" "svc_of (ma_disk m) s = svc_of (ma_disk m) t"
    "ma_disk m' (spath (svc_of (ma_disk m) s)) = Some f"
    "render exe (config_dir, fst t @ ''.toml'') (svc_of (ma_disk m) s) = Inr (f_content f)"
    using rewrite_all_ok [OF assms(1)] assms(2,3) by blast
  then show ?thesis using svc_of_name [OF t(2)] by simp
qed

text \<open>An upgrade after its stops: the binary, the files of the services, the starts.\<close>

lemma upgrade_ok:
  assumes "stop_all H ss m = (m1, Inr ())" "deploy_binary H m1 = (m2, Inr exe)" "rewrite_all H exe ss m2 = (m3, Inr ())"
    and "m4 = m3\<lparr>ma_tools := ma_tools m3 @ mid\<rparr>" "start_all H ss m4 = (m5, Inr n)"
  shows "ma_tools m5 = ma_tools m @ map (\<lambda>s. stop_call (svc_of (ma_disk m) s)) ss @ deploy_calls @ mid @
      map (\<lambda>s. start_call (svc_of (ma_disk m) s)) ss"
    and "\<exists>src f. ho_exe H = Inr src \<and> ho_copy H (ma_disk m) src installed_binary_path = Inr f \<and>
      ma_disk m5 installed_binary_path = Some f"
    and "\<And>s. s \<in> set ss \<Longrightarrow> path_exists (ma_disk m) (spath (svc_of (ma_disk m) s)) \<Longrightarrow>
      \<exists>f. ma_disk m5 (spath (svc_of (ma_disk m) s)) = Some f \<and>
        render installed_binary_path (config_dir, fst s @ ''.toml'') (svc_of (ma_disk m) s) = Inr (f_content f)"
    and "\<And>p. p \<noteq> installed_binary_path \<Longrightarrow> p \<notin> (\<lambda>s. spath (svc_of (ma_disk m) s)) ` set ss \<Longrightarrow>
      ma_disk m5 p = ma_disk m p"
proof -
  have m1: "m1 = m\<lparr>ma_tools := ma_tools m @ map (\<lambda>s. stop_call (svc_of (ma_disk m) s)) ss\<rparr>"
    using assms(1) by (simp add: stop_all_ok)
  obtain src f where d: "ho_exe H = Inr src" "ho_copy H (ma_disk m1) src installed_binary_path = Inr f"
    "exe = installed_binary_path" "ma_disk m2 = (ma_disk m1)(installed_binary_path \<mapsto> f)"
    "ma_tools m2 = ma_tools m1 @ deploy_calls"
    using deploy_binary_ok [OF assms(2)] by (auto simp: deploy_calls_def)
  have same2: "same_services (ma_disk m) (ma_disk m2)"
    using spath_binary d(4) by (simp add: same_services_def path_exists_def m1)
  have su2: "svc_of (ma_disk m2) = svc_of (ma_disk m)" using same_services_of [OF same2] by auto
  note r = rewrite_all_ok [OF assms(3), unfolded su2]
  have "same_services (ma_disk m2) (ma_disk m3)" using r by blast
  then have su3: "svc_of (ma_disk m3) = svc_of (ma_disk m)"
    using same_services_of [of "ma_disk m2" "ma_disk m3"] su2 by fastforce
  obtain n' where st: "start_all H ss m4 =
      (m4\<lparr>ma_tools := ma_tools m4 @ map (\<lambda>s. start_call (svc_of (ma_disk m4) s)) ss\<rparr>, Inr n')"
    using start_all_ok by blast
  have m5: "m5 = m3\<lparr>ma_tools := ma_tools m3 @ mid @ map (\<lambda>s. start_call (svc_of (ma_disk m) s)) ss\<rparr>"
    using st assms(4,5) by (simp add: su3)
  show "ma_tools m5 = ma_tools m @ map (\<lambda>s. stop_call (svc_of (ma_disk m) s)) ss @ deploy_calls @ mid @
      map (\<lambda>s. start_call (svc_of (ma_disk m) s)) ss"
    using r d(5) by (simp add: m5 m1)
  have "installed_binary_path \<notin> (\<lambda>s. spath (svc_of (ma_disk m) s)) ` set ss" using spath_binary by (metis imageE)
  then have "ma_disk m3 installed_binary_path = ma_disk m2 installed_binary_path" using r by blast
  then have "ma_disk m3 installed_binary_path = Some f" using d(4) by simp
  then show "\<exists>src f. ho_exe H = Inr src \<and> ho_copy H (ma_disk m) src installed_binary_path = Inr f \<and>
      ma_disk m5 installed_binary_path = Some f"
    using d(1,2) by (auto simp: m5 m1)
  show "\<exists>f. ma_disk m5 (spath (svc_of (ma_disk m) s)) = Some f \<and>
      render installed_binary_path (config_dir, fst s @ ''.toml'') (svc_of (ma_disk m) s) = Inr (f_content f)"
    if "s \<in> set ss" "path_exists (ma_disk m) (spath (svc_of (ma_disk m) s))" for s
    using rewritten [OF assms(3) that(1)] that(2) same2 unfolding su2 d(3) by (simp add: m5 same_services_def)
  show "ma_disk m5 p = ma_disk m p"
    if "p \<noteq> installed_binary_path" "p \<notin> (\<lambda>s. spath (svc_of (ma_disk m) s)) ` set ss" for p
  proof -
    have "ma_disk m3 p = ma_disk m2 p" using r that(2) by blast
    then show ?thesis using that(1) d(4) by (simp add: m5 m1)
  qed
qed

end

end
