(* ===== verification/Systemd.thy ===== *)
theory Systemd
  imports Linux_Host
begin

text \<open>
  \<open>src/platform/systemd.rs\<close>: the unit files, and installing, removing, controlling, upgrading and
  querying the services with \<open>systemctl\<close>.
\<close>

section \<open>Unit files\<close>

definition UNIT_DIR :: "string list" where
  "UNIT_DIR = [[], ''etc'', ''systemd'', ''system'']"

definition unit_name :: "service_role \<Rightarrow> string \<Rightarrow> string" where
  "unit_name role name = ''rathole-x-'' @ role_key role @ ''-'' @ name @ ''.service''"

definition unit_path :: "string \<Rightarrow> path" where
  "unit_path u = (UNIT_DIR, u)"

definition run_systemctl :: "host \<Rightarrow> string list \<Rightarrow> unit act" where
  "run_systemctl H args = run_reported H ''systemctl'' args"

definition try_systemctl :: "host \<Rightarrow> string list \<Rightarrow> bool act" where
  "try_systemctl H args = tool_succeeds H ''systemctl'' args"

text \<open>Strings of the model are UTF-8, so the error of a path that is not does not arise.\<close>

definition exec_path_arg :: "path \<Rightarrow> anyhow + string" where
  "exec_path_arg p =
     (let s = display_path p in
      if CHR 34 \<in> set s \<or> CHR 92 \<in> set s
      then Inl (Err (''cannot embed path `'' @ s @ ''` in a systemd unit; move the file to a '' @
        ''path without quotes or backslashes''))
      else Inr (if has_whitespace s then CHR 34 # s @ [CHR 34] else s))"

definition unit_text :: "string \<Rightarrow> string \<Rightarrow> string" where
  "unit_text exe config =
     text_lines
       [''[Unit]'',
        ''Description=rathole-x reverse proxy service (single role)'',
        ''After=network-online.target'',
        ''Wants=network-online.target'',
        [],
        ''[Service]'',
        ''Type=simple'',
        ''User='' @ SERVICE_ACCOUNT,
        ''Group='' @ SERVICE_GROUP,
        ''ExecStart='' @ exe @ '' run --config '' @ config,
        ''Restart=on-failure'',
        ''RestartSec=3'',
        ''LimitNOFILE=1048576'',
        ''NoNewPrivileges=true'',
        ''CapabilityBoundingSet=CAP_NET_BIND_SERVICE'',
        ''AmbientCapabilities=CAP_NET_BIND_SERVICE'',
        ''PrivateTmp=true'',
        ''ProtectHome=true'',
        ''ProtectSystem=strict'',
        [],
        ''[Install]'',
        ''WantedBy=multi-user.target'']"

definition render_unit :: "path \<Rightarrow> path \<Rightarrow> anyhow + string" where
  "render_unit exe config =
     rbind (exec_path_arg exe) (\<lambda>e. rbind (exec_path_arg config) (\<lambda>c. Inr (unit_text e c)))"

definition existing_unit :: "disk \<Rightarrow> string \<Rightarrow> string option" where
  "existing_unit w name =
     List.find (\<lambda>u. path_exists w (unit_path u)) [unit_name Role_Client name, unit_name Role_Server name]"

definition service_unit :: "disk \<Rightarrow> string \<times> service_role \<Rightarrow> string" where
  "service_unit w s =
     (case existing_unit w (fst s) of Some u \<Rightarrow> u | None \<Rightarrow> unit_name (snd s) (fst s))"

section \<open>Commands\<close>

definition systemd_install :: "host \<Rightarrow> string \<Rightarrow> bool \<Rightarrow> service_role \<Rightarrow> string \<Rightarrow> path \<Rightarrow> unit act" where
  "systemd_install H semver allow_user_config role name config =
     (if allow_user_config then act_fail unsafe_user_config
      else
        let u = unit_name role name; up = unit_path u in
        act_all
          [print_lines (install_lines role name u config ''boot''),
           ensure_root H,
           on_machine (\<lambda>m. if path_exists (ma_disk m) up then act_fail (already_exists u name) else act_return ()),
           ensure_service_account H,
           write_version_stamp H semver config,
           secure_managed_config H (version_path config),
           secure_managed_config H config,
           act_bind (deploy_binary H) (\<lambda>exe. act_bind (act_lift (render_unit exe config)) (\<lambda>content.
             act_context (''failed to write unit file '' @ display_path up) (write_file H up content))),
           run_systemctl H [''daemon-reload''],
           run_systemctl H [''enable'', ''--now'', u],
           print_lines (installed_lines u name)])"

definition systemd_uninstall :: "host \<Rightarrow> bool \<Rightarrow> path \<Rightarrow> unit act" where
  "systemd_uninstall H purge config =
     (let name = config_stem ''default'' config in
      act_all
        [print_lines (uninstall_lines name purge config),
         on_machine (\<lambda>m. case existing_unit (ma_disk m) name of
             Some u \<Rightarrow>
               act_all
                 [ensure_root H,
                  ignore (try_systemctl H [''disable'', ''--now'', u]),
                  act_context (''failed to remove unit file '' @ display_path (unit_path u)) (remove_file H (unit_path u)),
                  run_systemctl H [''daemon-reload'']]
           | None \<Rightarrow> print_line (not_installed_line name)),
         remove_service_files H config purge,
         print_lines
           [''Service '' @ CHR 39 # name @ CHR 39 # '' stopped and removed'',
            if purge then ''  Config:      removed ('' @ display_path config @ '')''
            else ''  Config:      kept (delete with sudo or rerun with --purge) ('' @ display_path config @ '')'']])"

definition systemd_control :: "host \<Rightarrow> string \<Rightarrow> string \<Rightarrow> service_role \<Rightarrow> string act" where
  "systemd_control H action name role =
     on_machine (\<lambda>m. let u = service_unit (ma_disk m) (name, role) in
       act_seq (act_context (''failed to '' @ action @ '' service '' @ CHR 39 # u @ [CHR 39]) (run_systemctl H [action, u]))
               (act_return u))"

fun systemd_stop_all :: "host \<Rightarrow> (string \<times> service_role) list \<Rightarrow> unit act" where
  "systemd_stop_all H [] = act_return ()"
| "systemd_stop_all H (s # ss) =
     act_seq (on_machine (\<lambda>m. ignore (try_systemctl H [''stop'', service_unit (ma_disk m) s])))
             (systemd_stop_all H ss)"

fun systemd_rewrite_all :: "host \<Rightarrow> path \<Rightarrow> (string \<times> service_role) list \<Rightarrow> unit act" where
  "systemd_rewrite_all H exe [] = act_return ()"
| "systemd_rewrite_all H exe (s # ss) =
     act_seq (on_machine (\<lambda>m. let up = unit_path (service_unit (ma_disk m) s) in
       if \<not> path_exists (ma_disk m) up then act_return ()
       else act_bind (act_lift (render_unit exe (config_dir, fst s @ ''.toml''))) (\<lambda>content.
            act_context (''failed to rewrite unit file '' @ display_path up) (write_file H up content))))
     (systemd_rewrite_all H exe ss)"

fun start_units_best_effort :: "host \<Rightarrow> (string \<times> service_role) list \<Rightarrow> nat act" where
  "start_units_best_effort H [] = act_return 0"
| "start_units_best_effort H (s # ss) =
     act_bind (on_machine (\<lambda>m. try_systemctl H [''start'', service_unit (ma_disk m) s])) (\<lambda>ok.
     act_bind (start_units_best_effort H ss) (\<lambda>n. act_return (if ok then Suc n else n)))"

definition systemd_upgrade :: "host \<Rightarrow> (string \<times> service_role) list \<Rightarrow> unit act" where
  "systemd_upgrade H services =
     (if services = [] then print_line ''No installed services; nothing to upgrade.''
      else
        act_all
          [ensure_root H,
           systemd_stop_all H services,
           act_bind (deploy_binary H) (\<lambda>exe. act_all
             [systemd_rewrite_all H exe services,
              run_systemctl H [''daemon-reload''],
              act_bind (start_units_best_effort H services) (\<lambda>n. print_line (updated_line exe n))])])"

section \<open>Queries\<close>

definition query_systemd_unit :: "host \<Rightarrow> string \<Rightarrow> computer \<Rightarrow> computer \<times> (string \<times> u32 option) option" where
  "query_systemd_unit H u m =
     (case run_tool H ''systemctl'' [''is-active'', u] m of
        (m', Inl _) \<Rightarrow> (m', None)
      | (m', Inr o1) \<Rightarrow>
          (let state = trim (ou_stdout o1) in
           if state = [] then (m', None)
           else
             let mapped = (if state = ''active'' then ''Running'' else if state = ''inactive'' then ''Stopped''
                           else if state = ''failed'' then ''Failed'' else state) in
             (case run_tool H ''systemctl'' [''show'', ''-p'', ''MainPID'', ''--value'', u] m' of
                (m'', r) \<Rightarrow> (m'', Some (mapped, case r of Inl _ \<Rightarrow> None | Inr o2 \<Rightarrow> parse_pid (ou_stdout o2))))))"

definition systemd_query :: "host \<Rightarrow> string \<Rightarrow> string \<Rightarrow> computer \<Rightarrow> computer \<times> (string \<times> u32 option) option" where
  "systemd_query H role name m =
     (let u = ''rathole-x-'' @ role @ ''-'' @ name @ ''.service'' in
      if \<not> path_exists (ma_disk m) (unit_path u) then (m, None) else query_systemd_unit H u m)"

section \<open>What a successful command does\<close>

lemma unit_name_inj [simp]: "unit_name r n = unit_name r' n' \<longleftrightarrow> r = r' \<and> n = n'"
  by (cases r; cases r') (auto simp: unit_name_def)

lemma unit_path_simps [simp]:
  "unit_path u = unit_path u' \<longleftrightarrow> u = u'" "unit_path u \<noteq> installed_binary_path"
  "unit_path (unit_name r n) \<noteq> version_path config" "version_path config \<noteq> installed_binary_path"
  by (auto simp: unit_path_def UNIT_DIR_def installed_binary_path_def version_path_def unit_name_def)

lemma systemd_install_ok:
  assumes "systemd_install H semver allow role name config m = (m', Inr x)"
  shows "\<exists>f exe content stamp mode pre. \<not> allow \<and> ho_euid H = 0 \<and>
    ma_disk m (unit_path (unit_name role name)) = None \<and>
    f_content stamp = version_stamp semver \<and> ho_exe H = Inr exe \<and>
    ho_copy H ((ma_disk m)(version_path config \<mapsto> stamp)) exe installed_binary_path = Inr f \<and>
    render_unit installed_binary_path config = Inr content \<and>
    ma_disk m' = (ma_disk m)(version_path config \<mapsto> stamp, installed_binary_path \<mapsto> f,
      unit_path (unit_name role name) \<mapsto> \<lparr>f_content = content, f_mode = mode\<rparr>) \<and>
    ma_tools m' = ma_tools m @ pre @ [(''systemctl'', [''daemon-reload'']),
      (''systemctl'', [''enable'', ''--now'', unit_name role name])]"
proof -
  let ?u = "unit_name role name"
  have na: "\<not> allow" using assms by (auto simp: systemd_install_def)
  define m0 where "m0 = m\<lparr>ma_printed := ma_printed m @ install_lines role name ?u config ''boot''\<rparr>"
  obtain m2 m3 m4 m5 m6 m7 m8 m9 content e where s: "ho_euid H = 0" "\<not> path_exists (ma_disk m0) (unit_path ?u)"
    "ensure_service_account H m0 = (m2, Inr ())" "write_version_stamp H semver config m2 = (m3, Inr ())"
    "secure_managed_config H (version_path config) m3 = (m4, Inr ())"
    "secure_managed_config H config m4 = (m5, Inr ())"
    "deploy_binary H m5 = (m6, Inr e)" "render_unit e config = Inr content"
    "write_file H (unit_path ?u) content m6 = (m7, Inr ())"
    "run_systemctl H [''daemon-reload''] m7 = (m8, Inr ())"
    "run_systemctl H [''enable'', ''--now'', ?u] m8 = (m9, Inr ())"
    "m' = m9\<lparr>ma_printed := ma_printed m9 @ installed_lines ?u name\<rparr>"
    using assms na unfolding m0_def
    by (simp add: systemd_install_def Let_def act_bind_Inr ensure_root_ok) (auto split: if_splits)
  obtain t2 where m2: "m2 = m0\<lparr>ma_tools := ma_tools m0 @ t2\<rparr>" using runs_toolsD [OF runs_account s(3)] by blast
  obtain t3 mode3 where m3: "m3 = m2\<lparr>ma_disk := (ma_disk m2)(version_path config \<mapsto>
      \<lparr>f_content = version_stamp semver, f_mode = mode3\<rparr>), ma_tools := ma_tools m2 @ t3\<rparr>"
    using write_version_stamp_ok [OF s(4)] by blast
  obtain t4 where m4: "m4 = m3\<lparr>ma_tools := ma_tools m3 @ t4\<rparr>" using runs_toolsD [OF runs_secure s(5)] by blast
  obtain t5 where m5: "m5 = m4\<lparr>ma_tools := ma_tools m4 @ t5\<rparr>" using runs_toolsD [OF runs_secure s(6)] by blast
  obtain exe f t where d: "ho_exe H = Inr exe" "ho_copy H (ma_disk m5) exe installed_binary_path = Inr f"
    "e = installed_binary_path" "ma_disk m6 = (ma_disk m5)(installed_binary_path \<mapsto> f)"
    "ma_tools m6 = ma_tools m5 @ t" using deploy_binary_ok [OF s(7)] by auto
  let ?stamp = "\<lparr>f_content = version_stamp semver, f_mode = mode3\<rparr>"
  note w = write_file_ok [OF s(9)] and r = run_reported_ok [OF s(10) [unfolded run_systemctl_def]]
    run_reported_ok [OF s(11) [unfolded run_systemctl_def]]
  have "ma_disk m' = (ma_disk m)(version_path config \<mapsto> ?stamp, installed_binary_path \<mapsto> f,
      unit_path ?u \<mapsto> \<lparr>f_content = content, f_mode = (case ma_disk m6 (unit_path ?u) of None \<Rightarrow> ho_mode H | Some f \<Rightarrow> f_mode f)\<rparr>)"
    "ma_tools m' = ma_tools m @ (t2 @ t3 @ t4 @ t5 @ t) @ [(''systemctl'', [''daemon-reload'']),
      (''systemctl'', [''enable'', ''--now'', ?u])]"
    using d w r s(12) by (simp_all add: m5 m4 m3 m2 m0_def)
  moreover have "ma_disk m (unit_path ?u) = None" using s(2) by (simp add: m0_def path_exists_def)
  moreover have "ho_copy H ((ma_disk m)(version_path config \<mapsto> ?stamp)) exe installed_binary_path = Inr f"
    using d(2) by (simp add: m5 m4 m3 m2 m0_def)
  moreover have "render_unit installed_binary_path config = Inr content" using s(8) d(3) by simp
  ultimately show ?thesis using na s(1) d(1)
    by (intro exI [of _ f] exI [of _ exe] exI [of _ content] exI [of _ ?stamp]
        exI [of _ "case ma_disk m6 (unit_path ?u) of None \<Rightarrow> ho_mode H | Some f \<Rightarrow> f_mode f"]
        exI [of _ "t2 @ t3 @ t4 @ t5 @ t"]) simp
qed

lemma systemd_uninstall_ok:
  fixes H m config purge
  defines "name \<equiv> config_stem ''default'' config"
  defines "w0 \<equiv> (case existing_unit (ma_disk m) name of None \<Rightarrow> ma_disk m | Some u \<Rightarrow> (ma_disk m)(unit_path u := None))"
  defines "w1 \<equiv> (if purge then w0(config := None) else w0)"
  assumes "systemd_uninstall H purge config m = (m', Inr x)"
  shows "ma_disk m' = (if other_configs H w1 config then w1 else w1(version_path config := None)) \<and>
    (existing_unit (ma_disk m) name \<noteq> None \<longrightarrow> ho_euid H = 0)"
proof -
  define m0 where "m0 = m\<lparr>ma_printed := ma_printed m @ uninstall_lines name purge config\<rparr>"
  obtain m1 m2 where s: "(case existing_unit (ma_disk m) name of
             Some u \<Rightarrow>
               act_all
                 [ensure_root H, ignore (try_systemctl H [''disable'', ''--now'', u]),
                  act_context (''failed to remove unit file '' @ display_path (unit_path u)) (remove_file H (unit_path u)),
                  run_systemctl H [''daemon-reload'']]
           | None \<Rightarrow> print_line (not_installed_line name)) m0 = (m1, Inr ())"
    "remove_service_files H config purge m1 = (m2, Inr ())" "ma_disk m' = ma_disk m2"
    using assms(4) unfolding m0_def name_def
    by (simp add: systemd_uninstall_def Let_def act_bind_Inr) auto
  have "ma_disk m1 = w0 \<and> (existing_unit (ma_disk m) name \<noteq> None \<longrightarrow> ho_euid H = 0)"
    using s(1)
    by (auto simp: w0_def m0_def act_bind_Inr ensure_root_ok ignore_def run_systemctl_def try_systemctl_def
        tool_succeeds_def run_tool_def split: option.splits dest!: remove_file_ok run_reported_ok)
  then show ?thesis using remove_service_files_ok [OF s(2)] s(3) by (auto simp: w1_def)
qed

interpretation sysd: init_backend unit_name unit_path existing_unit service_unit "\<lambda>exe config u. render_unit exe config"
  "\<lambda>H u content. act_context (''failed to rewrite unit file '' @ display_path (unit_path u)) (write_file H (unit_path u) content)"
  "\<lambda>u. (''systemctl'', [''stop'', u])" "\<lambda>u. (''systemctl'', [''start'', u])"
  systemd_stop_all systemd_rewrite_all start_units_best_effort
proof unfold_locales
  show "systemd_stop_all H ss = act_all (map (\<lambda>s. on_machine (\<lambda>m. ignore (tool_succeeds H
      (fst (''systemctl'', [''stop'', service_unit (ma_disk m) s])) (snd (''systemctl'', [''stop'', service_unit (ma_disk m) s]))))) ss)" for H ss
    by (induction ss) (simp_all add: try_systemctl_def del: act_leaf)
  show "systemd_rewrite_all H exe ss = act_all (map (\<lambda>s. on_machine (\<lambda>m. let u = service_unit (ma_disk m) s in
      if \<not> path_exists (ma_disk m) (unit_path u) then act_return ()
      else act_bind (act_lift (render_unit exe (config_dir, fst s @ ''.toml'')))
        (\<lambda>content. act_context (''failed to rewrite unit file '' @ display_path (unit_path u))
          (write_file H (unit_path u) content)))) ss)" for H exe ss
    by (induction ss) (simp_all add: Let_def del: act_leaf)
qed (auto simp: existing_unit_def service_unit_def try_systemctl_def dest!: write_file_ok)

lemma systemd_upgrade_ok:
  assumes "systemd_upgrade H ss m = (m', Inr x)" "ss \<noteq> []"
  shows "\<exists>m1 m2 m3 m5 exe n. ho_euid H = 0 \<and> systemd_stop_all H ss m = (m1, Inr ()) \<and>
    deploy_binary H m1 = (m2, Inr exe) \<and> systemd_rewrite_all H exe ss m2 = (m3, Inr ()) \<and>
    start_units_best_effort H ss (m3\<lparr>ma_tools := ma_tools m3 @ [(''systemctl'', [''daemon-reload''])]\<rparr>) = (m5, Inr n) \<and>
    m' = m5\<lparr>ma_printed := ma_printed m5 @ [updated_line exe n]\<rparr>"
  using assms
  by (auto simp: systemd_upgrade_def act_bind_Inr ensure_root_ok run_systemctl_def dest!: run_reported_ok)

text \<open>
  A failure after the stops, here of the copy of the binary, ends the upgrade: the services that
  were stopped are not started again.
\<close>

lemma upgrade_failure_leaves_stopped:
  assumes "ho_euid H = 0" "ss \<noteq> []" "systemd_stop_all H ss m = (m1, Inr ())" "deploy_binary H m1 = (m2, Inl e)"
  shows "systemd_upgrade H ss m = (m2, Inl e)"
  using assms by (simp add: systemd_upgrade_def act_bind_def ensure_root_def)

section \<open>The command line of a unit\<close>

text \<open>
  How systemd splits a command line, for the characters of \<open>plain_path\<close>: words end at white space,
  a double quote at the start of a word makes it end at the next double quote. Single quotes, \<open>%\<close>
  and \<open>$\<close> mean something else to it, and a line feed ends the line.
\<close>

definition unit_blank :: "char \<Rightarrow> bool" where
  "unit_blank c \<longleftrightarrow> c \<in> {CHR 32, CHR 9, CHR 10, CHR 13}"

function unit_words :: "string \<Rightarrow> string list" where
  "unit_words [] = []"
| "unit_words (c # s) =
     (if unit_blank c then unit_words s
      else if c = CHR 34 then takeWhile (\<lambda>x. x \<noteq> CHR 34) s # unit_words (drop 1 (dropWhile (\<lambda>x. x \<noteq> CHR 34) s))
      else (c # takeWhile (\<lambda>x. \<not> unit_blank x) s) # unit_words (dropWhile (\<lambda>x. \<not> unit_blank x) s))"
  by pat_completeness auto
termination
proof (relation "measure length")
  show "(drop 1 (dropWhile (\<lambda>x. x \<noteq> CHR 34) s), c # s) \<in> measure length" for c s
    using length_dropWhile_le [of "\<lambda>x. x \<noteq> CHR 34" s] by simp
qed (simp_all add: le_imp_less_Suc length_dropWhile_le)

definition plain_path :: "path \<Rightarrow> bool" where
  "plain_path p \<longleftrightarrow> display_path p \<noteq> [] \<and> set (display_path p) \<inter> {CHR 39, CHR ''%'', CHR ''$'', CHR 10} = {}"

lemma unit_words_plain:
  assumes "w \<noteq> []" "hd w \<noteq> CHR 34" "\<forall>c \<in> set w. \<not> unit_blank c" "rest = [] \<or> unit_blank (hd rest)"
  shows "unit_words (w @ rest) = w # unit_words rest"
proof -
  obtain c v where w: "w = c # v" using assms(1) by (cases w) simp_all
  have "takeWhile (\<lambda>x. \<not> unit_blank x) (v @ rest) = v" "dropWhile (\<lambda>x. \<not> unit_blank x) (v @ rest) = rest"
    using assms(3,4) by (cases rest; auto simp: w takeWhile_append dropWhile_append)+
  then show ?thesis using assms by (simp add: w)
qed

lemma unit_words_quoted: "CHR 34 \<notin> set w \<Longrightarrow> unit_words (CHR 34 # w @ CHR 34 # rest) = w # unit_words rest"
proof -
  assume "CHR 34 \<notin> set w"
  then have "takeWhile (\<lambda>x. x \<noteq> CHR 34) (w @ CHR 34 # rest) = w" "dropWhile (\<lambda>x. x \<noteq> CHR 34) (w @ CHR 34 # rest) = CHR 34 # rest"
    by (auto simp: takeWhile_append dropWhile_append)
  then show ?thesis by (simp add: unit_blank_def)
qed

lemma contains_char: "c \<in> set s \<Longrightarrow> contains_str [c] s"
  by (induction s) (auto simp: starts_with_def)

lemma unit_blank_white: "unit_blank c \<Longrightarrow> [c] \<in> set white_space"
  by (auto simp: unit_blank_def white_space_def)

lemma no_blank: "\<not> has_whitespace s \<Longrightarrow> c \<in> set s \<Longrightarrow> \<not> unit_blank c"
  using contains_char unit_blank_white by (fastforce simp: has_whitespace_def list_ex_iff)

lemma unit_words_arg:
  assumes "exec_path_arg p = Inr a" "display_path p \<noteq> []" "rest = [] \<or> unit_blank (hd rest)"
  shows "unit_words (a @ rest) = display_path p # unit_words rest"
proof (cases "has_whitespace (display_path p)")
  case True
  then have "a = CHR 34 # display_path p @ [CHR 34]" "CHR 34 \<notin> set (display_path p)"
    using assms(1) by (auto simp: exec_path_arg_def Let_def split: if_splits)
  then show ?thesis using unit_words_quoted [of "display_path p" rest] by simp
next
  case False
  then have a: "a = display_path p" "CHR 34 \<notin> set (display_path p)"
    using assms(1) by (auto simp: exec_path_arg_def Let_def split: if_splits)
  have "hd a \<noteq> CHR 34" using a assms(2) hd_in_set by metis
  then show ?thesis using unit_words_plain [OF assms(2) _ _ assms(3)] a no_blank [OF False] by simp
qed

lemma unit_words_line:
  assumes "exec_path_arg exe = Inr e" "exec_path_arg config = Inr c" "plain_path exe" "plain_path config"
  shows "unit_words (e @ '' run --config '' @ c) = [display_path exe, ''run'', ''--config'', display_path config]"
proof -
  have c: "unit_words c = [display_path config]"
    using unit_words_arg [OF assms(2), of "[]"] assms(4) by (simp add: plain_path_def)
  have "unit_words ('' '' @ w @ '' '' @ rest) = w # unit_words rest"
    if "w \<noteq> []" "hd w \<noteq> CHR 34" "\<forall>c \<in> set w. \<not> unit_blank c" for w rest
    using unit_words_plain [OF that, of "'' '' @ rest"] by (simp add: unit_blank_def)
  from this [of "''run''" "''--config '' @ c"] have r: "unit_words ('' run --config '' @ c) = ''run'' # unit_words (''--config '' @ c)"
    by (simp add: unit_blank_def)
  have "unit_words (''--config'' @ '' '' @ c) = ''--config'' # unit_words ('' '' @ c)"
    by (rule unit_words_plain) (simp_all add: unit_blank_def)
  then have "unit_words (''--config '' @ c) = [''--config'', display_path config]" using c by (simp add: unit_blank_def)
  then show ?thesis
    using unit_words_arg [OF assms(1), of "'' run --config '' @ c"] assms(3) r by (simp add: plain_path_def unit_blank_def)
qed

text \<open>Every such character is accepted in a path.\<close>

lemma exec_path_arg_accepts:
  "exec_path_arg ([[], ''etc''], ''%n.toml'') = Inr ''/etc/%n.toml''"
  "exec_path_arg ([[], ''etc''], ''$HOME.toml'') = Inr ''/etc/$HOME.toml''"
  "exec_path_arg ([[], ''etc''], CHR 39 # ''.toml'') = Inr (''/etc/'' @ CHR 39 # ''.toml'')"
  by code_simp+

section \<open>The files of a service\<close>

lemma systemd_install_touches:
  "touches {version_path config, installed_binary_path, unit_path (unit_name role name)}
     (systemd_install H semver allow role name config)"
  unfolding systemd_install_def run_systemctl_def Let_def
  by (intro touches_intros) (auto intro!: touches_intros)

lemma systemd_uninstall_touches:
  "touches ({version_path config} \<union> (if purge then {config} else {}) \<union>
      (\<lambda>r. unit_path (unit_name r (config_stem ''default'' config))) ` UNIV)
     (systemd_uninstall H purge config)"
proof -
  let ?P = "{version_path config} \<union> (if purge then {config} else {}) \<union>
      (\<lambda>r. unit_path (unit_name r (config_stem ''default'' config))) ` UNIV"
  let ?name = "config_stem ''default'' config"
  have "touches ?P (case existing_unit w ?name of
         Some u \<Rightarrow> act_all [ensure_root H, ignore (try_systemctl H [''disable'', ''--now'', u]),
             act_context (''failed to remove unit file '' @ display_path (unit_path u)) (remove_file H (unit_path u)),
             run_systemctl H [''daemon-reload'']]
       | None \<Rightarrow> print_line (not_installed_line ?name))" for w
  proof (cases "existing_unit w ?name")
    case (Some u)
    then have "unit_path u \<in> ?P" using sysd.existing_Some by fastforce
    then show ?thesis
      by (simp only: Some option.case run_systemctl_def try_systemctl_def) (rule touches_all, auto intro!: touches_intros)
  qed (simp add: touches_intros)
  then show ?thesis
    unfolding systemd_uninstall_def Let_def by (intro touches_all) (auto intro!: touches_intros)
qed

lemma systemd_control_touches: "touches {} (systemd_control H action name role)"
  unfolding systemd_control_def run_systemctl_def Let_def by (intro touches_intros)

lemma systemd_unprivileged:
  assumes "ho_euid H \<noteq> 0"
  shows "touches {version_path config} (systemd_uninstall H purge config)"
    and "touches {} (systemd_upgrade H ss)"
proof -
  have "touches {version_path config} (case existing_unit w name of
         Some u \<Rightarrow> act_all [ensure_root H, ignore (try_systemctl H [''disable'', ''--now'', u]),
             act_context (''failed to remove unit file '' @ display_path (unit_path u)) (remove_file H (unit_path u)),
             run_systemctl H [''daemon-reload'']]
       | None \<Rightarrow> print_line (not_installed_line name))" for w name
    by (cases "existing_unit w name") (simp_all add: touches_intros touches_unprivileged [OF assms])
  then show "touches {version_path config} (systemd_uninstall H purge config)"
    unfolding systemd_uninstall_def Let_def
    by (intro touches_all) (auto intro!: touches_intros touches_cleanup_unprivileged [OF assms])
  show "touches {} (systemd_upgrade H ss)"
    by (simp add: systemd_upgrade_def touches_intros touches_unprivileged [OF assms])
qed

end
