(* ===== verification/Openrc.thy ===== *)
theory Openrc
  imports Linux_Host
begin

text \<open>
  \<open>src/platform/openrc.rs\<close>: the openrc-run scripts, and installing, removing, controlling,
  upgrading and querying the services with \<open>rc-update\<close> and \<open>rc-service\<close>.
\<close>

section \<open>Scripts\<close>

definition INITD_DIR :: "string list" where
  "INITD_DIR = [[], ''etc'', ''init.d'']"

definition rc_service_name :: "service_role \<Rightarrow> string \<Rightarrow> string" where
  "rc_service_name role name = ''rathole-x-'' @ role_key role @ ''-'' @ name"

definition initd_path :: "string \<Rightarrow> path" where
  "initd_path svc = (INITD_DIR, svc)"

definition pidfile_path :: "string \<Rightarrow> path" where
  "pidfile_path svc = ([[], ''run''], svc @ ''.pid'')"

definition log_path :: "string \<Rightarrow> path" where
  "log_path svc = ([[], ''var'', ''log''], svc @ ''.log'')"

definition run_rc :: "host \<Rightarrow> string \<Rightarrow> string list \<Rightarrow> unit act" where
  "run_rc H rc args = run_reported H rc args"

definition try_rc :: "host \<Rightarrow> string \<Rightarrow> string list \<Rightarrow> bool act" where
  "try_rc H rc args = tool_succeeds H rc args"

text \<open>The log is created empty when it is not there, never truncated.\<close>

definition open_append :: "host \<Rightarrow> path \<Rightarrow> nat \<Rightarrow> unit act" where
  "open_append H p mode m =
     (case ho_open H p of
        Some e \<Rightarrow> (m, Inl (Err (ie_text e)))
      | None \<Rightarrow>
          (if path_exists (ma_disk m) p then m
           else m\<lparr>ma_disk := (ma_disk m)(p \<mapsto> \<lparr>f_content = [], f_mode = mode\<rparr>)\<rparr>, Inr ()))"

definition ensure_log_file :: "host \<Rightarrow> string \<Rightarrow> unit act" where
  "ensure_log_file H svc =
     (let p = log_path svc in
      act_all
        [act_context (''failed to create log file '' @ display_path p) (open_append H p 0x1A0),
         act_context (''failed to chmod '' @ display_path p) (set_permissions H p 0x1A0),
         run_rc H ''chown'' [SERVICE_ACCOUNT @ CHR '':'' # SERVICE_GROUP, display_path p]])"

text \<open>
  Directories are not part of the disk: creating \<open>/run/openrc\<close>, whose failure is ignored, shows in
  whether the write into it fails.
\<close>

definition softlevel_path :: path where
  "softlevel_path = ([[], ''run'', ''openrc''], ''softlevel'')"

definition ensure_openrc_runtime :: "host \<Rightarrow> unit act" where
  "ensure_openrc_runtime H =
     on_machine (\<lambda>m. if path_exists (ma_disk m) softlevel_path then act_return ()
       else act_seq (ignore (write_file H softlevel_path ''default'')) (ignore (tool_succeeds H ''openrc'' [''default''])))"

definition shell_quote :: "path \<Rightarrow> anyhow + string" where
  "shell_quote p =
     (let s = display_path p in
      if CHR 39 \<in> set s \<or> CHR 92 \<in> set s \<or> CHR 34 \<in> set s
      then Inl (Err (''cannot embed path `'' @ s @ ''` in an init.d script; move the file to a '' @
        ''path without quotes or backslashes''))
      else Inr (if has_whitespace s then CHR 39 # s @ [CHR 39] else s))"

definition dropped_capabilities :: "string list" where
  "dropped_capabilities =
     [''chown'', ''dac_override'', ''dac_read_search'', ''fowner'', ''fsetid'', ''kill'', ''setgid'', ''setuid'',
      ''setpcap'', ''linux_immutable'', ''net_broadcast'', ''net_admin'', ''net_raw'', ''ipc_lock'', ''ipc_owner'',
      ''sys_module'', ''sys_rawio'', ''sys_chroot'', ''sys_ptrace'', ''sys_pacct'', ''sys_admin'', ''sys_boot'',
      ''sys_nice'', ''sys_resource'', ''sys_time'', ''sys_tty_config'', ''mknod'', ''lease'', ''audit_write'',
      ''audit_control'', ''setfcap'', ''mac_override'', ''mac_admin'', ''syslog'', ''wake_alarm'', ''block_suspend'',
      ''audit_read'', ''perfmon'', ''bpf'', ''checkpoint_restore'']"

definition RESTRICTED_IAB :: string where
  "RESTRICTED_IAB =
     join_str '','' (map (\<lambda>c. ''!cap_'' @ c) dropped_capabilities @ [''^cap_net_bind_service''])"

definition initd_text :: "string \<Rightarrow> string \<Rightarrow> string \<Rightarrow> string" where
  \<open>initd_text exe config svc = text_lines
     [''#!/sbin/openrc-run'',
      [],
      ''description="rathole-x reverse proxy service (single role)"'',
      ''command='' @ exe,
      ''command_args_foreground="run --config '' @ config @ ''"'',
      ''# Bare user name only: openrc-run expands `$command_user` unquoted and'',
      ''# supervise-daemon takes --user as ONE argument '' @ [CHR 226, CHR 128, CHR 148] @ '' a "user:group" value is'',
      ''# split and the group token becomes the daemon'' @ CHR 39 # ''s command. `-u` already'',
      ''# applies the account'' @ CHR 39 # ''s primary group (rathole-x).'',
      ''command_user="'' @ SERVICE_ACCOUNT @ ''"'',
      ''# libcap IAB text for supervise-daemon (see RESTRICTED_IAB): every'',
      ''# capability except net_bind_service is dropped from the bounding set.'',
      ''capabilities="'' @ RESTRICTED_IAB @ ''"'',
      ''supervisor=supervise-daemon'',
      ''pidfile="/run/'' @ svc @ ''.pid"'',
      ''respawn_delay=3'',
      ''output_log="'' @ display_path (log_path svc) @ ''"'',
      ''error_log="'' @ display_path (log_path svc) @ ''"'',
      ''rc_ulimit="-n 1048576"'',
      [],
      ''depend() {'',
      CHR 9 # ''# rathole retries connections itself, so net is not a hard need;'',
      CHR 9 # ''# this also lets the service start in containers without the net'',
      CHR 9 # ''# service running.'',
      CHR 9 # ''after net firewall'',
      ''}'']\<close>

definition render_initd :: "path \<Rightarrow> path \<Rightarrow> string \<Rightarrow> anyhow + string" where
  "render_initd exe config svc =
     rbind (shell_quote exe) (\<lambda>e. rbind (shell_quote config) (\<lambda>c. Inr (initd_text e c svc)))"

definition existing_rc_service :: "disk \<Rightarrow> string \<Rightarrow> string option" where
  "existing_rc_service w name =
     List.find (\<lambda>s. path_exists w (initd_path s)) [rc_service_name Role_Client name, rc_service_name Role_Server name]"

definition rc_service_of :: "disk \<Rightarrow> string \<times> service_role \<Rightarrow> string" where
  "rc_service_of w s =
     (case existing_rc_service w (fst s) of Some u \<Rightarrow> u | None \<Rightarrow> rc_service_name (snd s) (fst s))"

section \<open>Commands\<close>

definition set_executable :: "host \<Rightarrow> path \<Rightarrow> unit act" where
  "set_executable H p = act_context (''failed to chmod '' @ display_path p) (set_permissions H p 0x1ED)"

definition openrc_install :: "host \<Rightarrow> string \<Rightarrow> bool \<Rightarrow> service_role \<Rightarrow> string \<Rightarrow> path \<Rightarrow> unit act" where
  "openrc_install H semver allow_user_config role name config =
     (if allow_user_config then act_fail unsafe_user_config
      else
        let svc = rc_service_name role name; sp = initd_path svc in
        act_all
          [print_lines (install_lines role name svc config ''default runlevel''),
           ensure_root H,
           on_machine (\<lambda>m. if path_exists (ma_disk m) sp then act_fail (already_exists svc name) else act_return ()),
           ensure_service_account H,
           write_version_stamp H semver config,
           secure_managed_config H (version_path config),
           secure_managed_config H config,
           ensure_openrc_runtime H,
           act_bind (deploy_binary H) (\<lambda>exe. act_bind (act_lift (render_initd exe config svc)) (\<lambda>content.
             act_context (''failed to write init.d script '' @ display_path sp) (write_file H sp content))),
           set_executable H sp,
           ensure_log_file H svc,
           run_rc H ''rc-update'' [''add'', svc, ''default''],
           run_rc H ''rc-service'' [svc, ''start''],
           print_lines (installed_lines svc name)])"

definition openrc_uninstall :: "host \<Rightarrow> bool \<Rightarrow> path \<Rightarrow> unit act" where
  "openrc_uninstall H purge config =
     (let name = config_stem ''default'' config in
      act_all
        [print_lines (uninstall_lines name purge config),
         on_machine (\<lambda>m. case existing_rc_service (ma_disk m) name of
             Some svc \<Rightarrow>
               act_all
                 [ensure_root H,
                  ignore (try_rc H ''rc-service'' [svc, ''stop'']),
                  ignore (try_rc H ''rc-update'' [''delete'', svc]),
                  act_context (''failed to remove init.d script '' @ display_path (initd_path svc))
                    (remove_file H (initd_path svc)),
                  ignore (remove_file H (pidfile_path svc)),
                  ignore (remove_file H (log_path svc))]
           | None \<Rightarrow> print_line (not_installed_line name)),
         remove_service_files H config purge,
         print_lines
           [''Service '' @ CHR 39 # name @ CHR 39 # '' stopped and removed'',
            ''  Config:      '' @ (if purge then ''removed'' else ''kept protected'') @ '' ('' @ display_path config @ '')'']])"

definition openrc_control :: "host \<Rightarrow> string \<Rightarrow> string \<Rightarrow> service_role \<Rightarrow> string act" where
  "openrc_control H action name role =
     on_machine (\<lambda>m. let svc = rc_service_of (ma_disk m) (name, role) in
       act_seq (act_context (''failed to '' @ action @ '' service '' @ CHR 39 # svc @ [CHR 39])
                 (run_rc H ''rc-service'' [svc, action]))
               (act_return svc))"

fun openrc_stop_all :: "host \<Rightarrow> (string \<times> service_role) list \<Rightarrow> unit act" where
  "openrc_stop_all H [] = act_return ()"
| "openrc_stop_all H (s # ss) =
     act_seq (on_machine (\<lambda>m. ignore (try_rc H ''rc-service'' [rc_service_of (ma_disk m) s, ''stop''])))
             (openrc_stop_all H ss)"

fun openrc_rewrite_all :: "host \<Rightarrow> path \<Rightarrow> (string \<times> service_role) list \<Rightarrow> unit act" where
  "openrc_rewrite_all H exe [] = act_return ()"
| "openrc_rewrite_all H exe (s # ss) =
     act_seq (on_machine (\<lambda>m. let svc = rc_service_of (ma_disk m) s; sp = initd_path svc in
       if \<not> path_exists (ma_disk m) sp then act_return ()
       else act_bind (act_lift (render_initd exe (config_dir, fst s @ ''.toml'') svc)) (\<lambda>content.
            act_seq (act_context (''failed to rewrite init.d script '' @ display_path sp) (write_file H sp content))
                    (set_executable H sp))))
     (openrc_rewrite_all H exe ss)"

fun start_services_best_effort :: "host \<Rightarrow> (string \<times> service_role) list \<Rightarrow> nat act" where
  "start_services_best_effort H [] = act_return 0"
| "start_services_best_effort H (s # ss) =
     act_bind (on_machine (\<lambda>m. try_rc H ''rc-service'' [rc_service_of (ma_disk m) s, ''start''])) (\<lambda>ok.
     act_bind (start_services_best_effort H ss) (\<lambda>n. act_return (if ok then Suc n else n)))"

definition openrc_upgrade :: "host \<Rightarrow> (string \<times> service_role) list \<Rightarrow> unit act" where
  "openrc_upgrade H services =
     (if services = [] then print_line ''No installed services; nothing to upgrade.''
      else
        act_all
          [ensure_root H,
           ensure_openrc_runtime H,
           openrc_stop_all H services,
           act_bind (deploy_binary H) (\<lambda>exe. act_all
             [openrc_rewrite_all H exe services,
              act_bind (start_services_best_effort H services) (\<lambda>n. print_line (updated_line exe n))])])"

section \<open>Queries\<close>

definition openrc_query :: "host \<Rightarrow> io \<Rightarrow> string \<Rightarrow> string \<Rightarrow> computer \<Rightarrow> computer \<times> (string \<times> u32 option) option" where
  "openrc_query H os role name m =
     (let svc = ''rathole-x-'' @ role @ ''-'' @ name in
      if \<not> path_exists (ma_disk m) (initd_path svc) then (m, None)
      else case run_tool H ''rc-service'' [svc, ''status''] m of
        (m', Inl _) \<Rightarrow> (m', None)
      | (m', Inr o1) \<Rightarrow>
          (let text = ou_stdout o1 @ ou_stderr o1;
               pid = (case read_to_string os (ma_disk m') (pidfile_path svc) of Inl _ \<Rightarrow> None | Inr s \<Rightarrow> parse_pid s) in
           (m', if contains_str ''crashed'' text then Some (''Failed'', pid)
                else if contains_str ''started'' text then Some (''Running'', pid)
                else if contains_str ''stopped'' text then Some (''Stopped'', pid)
                else None)))"

section \<open>What a successful command does\<close>

lemma rc_service_name_inj [simp]: "rc_service_name r n = rc_service_name r' n' \<longleftrightarrow> r = r' \<and> n = n'"
  by (cases r; cases r') (auto simp: rc_service_name_def)

lemma initd_path_simps [simp]:
  "initd_path u = initd_path u' \<longleftrightarrow> u = u'" "initd_path u \<noteq> installed_binary_path"
  "initd_path (rc_service_name r n) \<noteq> version_path config" "log_path u \<noteq> initd_path u'" "log_path u \<noteq> installed_binary_path" "log_path u \<noteq> softlevel_path"
  "initd_path u \<noteq> softlevel_path" "initd_path u \<noteq> log_path u'"  "initd_path u \<noteq> pidfile_path u'"
  by (auto simp: initd_path_def INITD_DIR_def installed_binary_path_def version_path_def rc_service_name_def
      log_path_def softlevel_path_def pidfile_path_def)

lemma set_permissions_ok:
  "set_permissions H p mode m = (m', Inr x) \<Longrightarrow>
   \<exists>f. ma_disk m p = Some f \<and> m' = m\<lparr>ma_disk := (ma_disk m)(p \<mapsto> f\<lparr>f_mode := mode\<rparr>)\<rparr>"
  by (auto simp: set_permissions_def split: option.splits)

lemma openrc_runtime_frame: "touches {softlevel_path} (ensure_openrc_runtime H)"
  unfolding ensure_openrc_runtime_def by (intro touches_intros) simp

lemma openrc_runtime_tools: "ensure_openrc_runtime H m = (m', Inr x) \<Longrightarrow> \<exists>ts. ma_tools m' = ma_tools m @ ts"
  by (auto simp: ensure_openrc_runtime_def act_bind_def ignore_def tool_succeeds_def run_tool_def write_file_def
      split: if_splits option.splits prod.splits)

lemma log_file_frame: "touches {log_path svc} (ensure_log_file H svc)"
  unfolding ensure_log_file_def Let_def run_rc_def
  by (rule touches_all) (auto simp: touches_def open_append_def set_permissions_def run_reported_def run_tool_def
      act_context_def Let_def split: option.splits if_splits)

lemma log_file_tools:
  "ensure_log_file H svc m = (m', Inr x) \<Longrightarrow> ma_tools m' = ma_tools m @
     [(''chown'', [SERVICE_ACCOUNT @ CHR '':'' # SERVICE_GROUP, display_path (log_path svc)])]"
  by (auto simp: ensure_log_file_def Let_def run_rc_def act_bind_Inr open_append_def split: option.splits if_splits
      dest!: set_permissions_ok run_reported_ok)

lemma openrc_install_ok:
  assumes "openrc_install H semver allow role name config m = (m', Inr x)"
  obtains content src f pre where "\<not> allow" "ho_euid H = 0"
    "ma_disk m (initd_path (rc_service_name role name)) = None"
    "render_initd installed_binary_path config (rc_service_name role name) = Inr content"
    "ma_disk m' (initd_path (rc_service_name role name)) = Some \<lparr>f_content = content, f_mode = 0x1ED\<rparr>"
    "ho_exe H = Inr src" "ma_disk m' installed_binary_path = Some f"
    "copies H \<Longrightarrow> src \<notin> {version_path config, installed_binary_path, softlevel_path} \<Longrightarrow>
       \<exists>x. ma_disk m src = Some x \<and> f_content f = f_content x"
    "ma_tools m' = pre @ [(''rc-update'', [''add'', rc_service_name role name, ''default'']),
      (''rc-service'', [rc_service_name role name, ''start''])]"
proof -
  let ?u = "rc_service_name role name"
  let ?up = "initd_path ?u"
  let ?P = "{version_path config, installed_binary_path, softlevel_path}"
  have na: "\<not> allow" using assms by (auto simp: openrc_install_def)
  define m0 where "m0 = m\<lparr>ma_printed := ma_printed m @ install_lines role name ?u config ''default runlevel''\<rparr>"
  define first where "first = [ensure_service_account H, write_version_stamp H semver config,
    secure_managed_config H (version_path config), secure_managed_config H config, ensure_openrc_runtime H]"
  obtain m5 m6 m7 m8 m9 m10 m11 content e where s: "ho_euid H = 0" "\<not> path_exists (ma_disk m0) ?up"
    "act_all first m0 = (m5, Inr ())"
    "deploy_binary H m5 = (m6, Inr e)" "render_initd e config ?u = Inr content"
    "write_file H ?up content m6 = (m7, Inr ())" "set_permissions H ?up 0x1ED m7 = (m8, Inr ())"
    "ensure_log_file H ?u m8 = (m9, Inr ())"
    "run_rc H ''rc-update'' [''add'', ?u, ''default''] m9 = (m10, Inr ())"
    "run_rc H ''rc-service'' [?u, ''start''] m10 = (m11, Inr ())"
    "m' = m11\<lparr>ma_printed := ma_printed m11 @ installed_lines ?u name\<rparr>"
    using assms na unfolding m0_def first_def
    by (simp add: openrc_install_def Let_def act_bind_Inr ensure_root_ok set_executable_def) (auto split: if_splits)
  have t: "touches ?P (act_all first)"
    unfolding first_def
    by (rule touches_all) (auto intro: touches_intros touches_mono [OF openrc_runtime_frame])
  have first: "ma_disk m5 p = ma_disk m p" if "p \<notin> ?P" for p
    using touchesD [OF t s(3) that] by (simp add: m0_def)
  obtain f src where d: "e = installed_binary_path" "ma_disk m6 = (ma_disk m5)(installed_binary_path \<mapsto> f)"
    and src: "ho_exe H = Inr src" "ho_copy H (ma_disk m5) src installed_binary_path = Inr f"
    using deploy_binary_ok [OF s(4)] by auto
  obtain mode where w: "ma_disk m7 = (ma_disk m6)(?up \<mapsto> \<lparr>f_content = content, f_mode = mode\<rparr>)"
    using write_file_ok [OF s(6)] by auto
  have c: "ma_disk m8 = (ma_disk m7)(?up \<mapsto> \<lparr>f_content = content, f_mode = 0x1ED\<rparr>)"
    using set_permissions_ok [OF s(7)] w by auto
  have l: "ma_disk m9 p = ma_disk m8 p" if "p \<noteq> log_path ?u" for p
    using touchesD [OF log_file_frame s(8)] that by simp
  note r = run_reported_ok [OF s(9) [unfolded run_rc_def]] run_reported_ok [OF s(10) [unfolded run_rc_def]]
  show thesis
  proof (rule that [OF na s(1)])
    show "ma_disk m ?up = None" using s(2) by (simp add: m0_def path_exists_def)
    show "render_initd installed_binary_path config ?u = Inr content" using s(5) d(1) by simp
    show "ma_disk m' ?up = Some \<lparr>f_content = content, f_mode = 0x1ED\<rparr>" using r s(11) l [of ?up] c by simp
    show "ho_exe H = Inr src" by (rule src(1))
    show "ma_disk m' installed_binary_path = Some f"
      using r s(11) l [of installed_binary_path] initd_path_simps(2,5)
      by (simp add: c w d not_sym [of "initd_path ?u"] not_sym [of "log_path ?u"])
    show "\<exists>x. ma_disk m src = Some x \<and> f_content f = f_content x" if "copies H" "src \<notin> ?P"
      using that src(2) first [OF that(2)] unfolding copies_def by (metis insertCI)
    show "ma_tools m' = ma_tools m9 @ [(''rc-update'', [''add'', ?u, ''default'']), (''rc-service'', [?u, ''start''])]"
      using r s(11) by simp
  qed
qed

interpretation rc: init_backend rc_service_name initd_path existing_rc_service rc_service_of render_initd
  "\<lambda>H u content. act_seq (act_context (''failed to rewrite init.d script '' @ display_path (initd_path u))
      (write_file H (initd_path u) content)) (set_executable H (initd_path u))"
  "\<lambda>u. (''rc-service'', [u, ''stop''])" "\<lambda>u. (''rc-service'', [u, ''start''])"
  openrc_stop_all openrc_rewrite_all start_services_best_effort
proof unfold_locales
  show "openrc_stop_all H ss = act_all (map (\<lambda>s. on_machine (\<lambda>m. ignore (tool_succeeds H
      (fst (''rc-service'', [rc_service_of (ma_disk m) s, ''stop''])) (snd (''rc-service'', [rc_service_of (ma_disk m) s, ''stop'']))))) ss)" for H ss
    by (induction ss) (simp_all add: try_rc_def del: act_leaf)
  show "openrc_rewrite_all H exe ss = act_all (map (\<lambda>s. on_machine (\<lambda>m. let u = rc_service_of (ma_disk m) s in
      if \<not> path_exists (ma_disk m) (initd_path u) then act_return ()
      else act_bind (act_lift (render_initd exe (config_dir, fst s @ ''.toml'') u))
        (\<lambda>content. act_seq (act_context (''failed to rewrite init.d script '' @ display_path (initd_path u))
          (write_file H (initd_path u) content)) (set_executable H (initd_path u))))) ss)" for H exe ss
    by (induction ss) (simp_all add: Let_def del: act_leaf)
qed (auto simp: existing_rc_service_def rc_service_of_def try_rc_def act_bind_Inr set_executable_def
    dest!: write_file_ok set_permissions_ok)

lemma openrc_uninstall_ok:
  fixes H m config purge
  defines "name \<equiv> config_stem ''default'' config"
  assumes "openrc_uninstall H purge config m = (m', Inr x)"
  shows "\<exists>w0 w1. w1 = (if purge then w0(config := None) else w0) \<and>
    ma_disk m' = (if other_configs H w1 config then w1 else w1(version_path config := None)) \<and>
    (case existing_rc_service (ma_disk m) name of
       None \<Rightarrow> w0 = ma_disk m
     | Some u \<Rightarrow> ho_euid H = 0 \<and> w0 (initd_path u) = None \<and>
         (\<forall>p. p \<notin> {initd_path u, pidfile_path u, log_path u} \<longrightarrow> w0 p = ma_disk m p))"
proof -
  define m0 where "m0 = m\<lparr>ma_printed := ma_printed m @ uninstall_lines name purge config\<rparr>"
  let ?f = "case existing_rc_service (ma_disk m) name of
             Some svc \<Rightarrow>
               act_all
                 [ensure_root H, ignore (try_rc H ''rc-service'' [svc, ''stop'']),
                  ignore (try_rc H ''rc-update'' [''delete'', svc]),
                  act_context (''failed to remove init.d script '' @ display_path (initd_path svc))
                    (remove_file H (initd_path svc)),
                  ignore (remove_file H (pidfile_path svc)), ignore (remove_file H (log_path svc))]
           | None \<Rightarrow> print_line (not_installed_line name)"
  obtain m1 m2 where s: "?f m0 = (m1, Inr ())"
    "remove_service_files H config purge m1 = (m2, Inr ())" "ma_disk m' = ma_disk m2"
    using assms(2) unfolding m0_def name_def
    by (simp add: openrc_uninstall_def Let_def act_bind_Inr) auto
  have "case existing_rc_service (ma_disk m) name of
       None \<Rightarrow> ma_disk m1 = ma_disk m
     | Some u \<Rightarrow> ho_euid H = 0 \<and> ma_disk m1 (initd_path u) = None \<and>
         (\<forall>p. p \<notin> {initd_path u, pidfile_path u, log_path u} \<longrightarrow> ma_disk m1 p = ma_disk m p)"
  proof (cases "existing_rc_service (ma_disk m) name")
    case (Some u)
    define m3 where "m3 = m0\<lparr>ma_tools := ma_tools m0 @ [(''rc-service'', [u, ''stop'']), (''rc-update'', [''delete'', u])],
      ma_disk := (ma_disk m)(initd_path u := None)\<rparr>"
    define m4 where "m4 = fst (remove_file H (pidfile_path u) m3)"
    have r: "ho_euid H = 0" "m1 = fst (remove_file H (log_path u) m4)"
      using s(1) by (auto simp: Some m0_def m3_def m4_def act_bind_Inr ensure_root_ok try_rc_def ignore_def
          tool_succeeds_def run_tool_def dest!: remove_file_ok)
    have "touches {pidfile_path u, log_path u} (remove_file H (pidfile_path u))"
      "touches {pidfile_path u, log_path u} (remove_file H (log_path u))" by (auto intro: touches_intros)
    then have "ma_disk m1 p = ma_disk m3 p" if "p \<notin> {pidfile_path u, log_path u}" for p
      using that touches_def by (metis r(2) m4_def)
    then show ?thesis using r(1) by (simp add: Some m3_def)
  qed (use s(1) in \<open>auto simp: m0_def\<close>)
  then show ?thesis using remove_service_files_ok [OF s(2)] s(3) by auto
qed

lemma openrc_upgrade_ok:
  assumes "openrc_upgrade H ss m = (m', Inr x)" "ss \<noteq> []"
  shows "\<exists>m0 m1 m2 m3 m5 exe n. ho_euid H = 0 \<and> ensure_openrc_runtime H m = (m0, Inr ()) \<and>
    openrc_stop_all H ss m0 = (m1, Inr ()) \<and> deploy_binary H m1 = (m2, Inr exe) \<and>
    openrc_rewrite_all H exe ss m2 = (m3, Inr ()) \<and> start_services_best_effort H ss m3 = (m5, Inr n) \<and>
    m' = m5\<lparr>ma_printed := ma_printed m5 @ [updated_line exe n]\<rparr>"
  using assms by (auto simp: openrc_upgrade_def act_bind_Inr ensure_root_ok)

text \<open>
  A path with a command substitution is embedded as it is, inside the double quotes of
  \<open>command_args_foreground\<close>.
\<close>

lemma shell_quote_accepts:
  "shell_quote ([[], ''tmp''], ''$(id).toml'') = Inr ''/tmp/$(id).toml''"
  "shell_quote ([[], ''tmp''], ''`id`.toml'') = Inr ''/tmp/`id`.toml''"
  by code_simp+

section \<open>The files of a service\<close>

lemma openrc_install_touches:
  "touches {version_path config, installed_binary_path, initd_path (rc_service_name role name),
      log_path (rc_service_name role name), softlevel_path}
     (openrc_install H semver allow role name config)"
  unfolding openrc_install_def run_rc_def set_executable_def Let_def
  by (intro touches_intros) (auto intro!: touches_intros intro: touches_mono [OF openrc_runtime_frame] touches_mono [OF log_file_frame])

lemma openrc_uninstall_touches:
  "touches ({version_path config} \<union> (if purge then {config} else {}) \<union>
      (\<Union>r. let u = rc_service_name r (config_stem ''default'' config) in {initd_path u, pidfile_path u, log_path u}))
     (openrc_uninstall H purge config)"
proof -
  let ?P = "{version_path config} \<union> (if purge then {config} else {}) \<union>
      (\<Union>r. let u = rc_service_name r (config_stem ''default'' config) in {initd_path u, pidfile_path u, log_path u})"
  let ?name = "config_stem ''default'' config"
  have "touches ?P (case existing_rc_service w ?name of
         Some svc \<Rightarrow> act_all [ensure_root H, ignore (try_rc H ''rc-service'' [svc, ''stop'']),
             ignore (try_rc H ''rc-update'' [''delete'', svc]),
             act_context (''failed to remove init.d script '' @ display_path (initd_path svc)) (remove_file H (initd_path svc)),
             ignore (remove_file H (pidfile_path svc)), ignore (remove_file H (log_path svc))]
       | None \<Rightarrow> print_line (not_installed_line ?name))" for w
  proof (cases "existing_rc_service w ?name")
    case (Some u)
    then have "{initd_path u, pidfile_path u, log_path u} \<subseteq> ?P" using rc.existing_Some by (fastforce simp: Let_def)
    then show ?thesis
      by (simp only: Some option.case try_rc_def) (rule touches_all, auto intro!: touches_intros)
  qed (simp add: touches_intros)
  then show ?thesis
    unfolding openrc_uninstall_def Let_def by (intro touches_all) (auto intro!: touches_intros simp: Let_def)
qed

lemma openrc_control_touches: "touches {} (openrc_control H action name role)"
  unfolding openrc_control_def run_rc_def Let_def by (intro touches_intros)

lemma openrc_unprivileged:
  assumes "ho_euid H \<noteq> 0"
  shows "touches {version_path config} (openrc_uninstall H purge config)"
    and "touches {} (openrc_upgrade H ss)"
proof -
  have "touches {version_path config} (case existing_rc_service w name of
         Some svc \<Rightarrow> act_all [ensure_root H, ignore (try_rc H ''rc-service'' [svc, ''stop'']),
             ignore (try_rc H ''rc-update'' [''delete'', svc]),
             act_context (''failed to remove init.d script '' @ display_path (initd_path svc)) (remove_file H (initd_path svc)),
             ignore (remove_file H (pidfile_path svc)), ignore (remove_file H (log_path svc))]
       | None \<Rightarrow> print_line (not_installed_line name))" for w name
    by (cases "existing_rc_service w name") (simp_all add: touches_intros touches_unprivileged [OF assms])
  then show "touches {version_path config} (openrc_uninstall H purge config)"
    unfolding openrc_uninstall_def Let_def
    by (intro touches_all) (auto intro!: touches_intros touches_cleanup_unprivileged [OF assms])
  show "touches {} (openrc_upgrade H ss)"
    by (simp add: openrc_upgrade_def touches_intros touches_unprivileged [OF assms])
qed

end
