(* ===== verification/Linux_Service.thy ===== *)
theory Linux_Service
  imports Systemd Openrc Config_Commands
begin

text \<open>
  The service commands: the Linux facade of \<open>src/platform/linux.rs\<close> over the two init systems, and
  \<open>dispatch_service_command\<close> and the \<open>upgrade\<close> arm of \<open>src/lib.rs\<close>. The locale \<open>init_backend\<close> is
  the interface both backends give to the commands over every service.
\<close>

section \<open>The facade\<close>

definition install_service :: "host \<Rightarrow> string \<Rightarrow> bool \<Rightarrow> service_role \<Rightarrow> string \<Rightarrow> path \<Rightarrow> unit act" where
  "install_service H semver allow_user_config role name config =
     (if allow_user_config then act_fail unsafe_user_config
      else act_all
        [ensure_root H,
         ensure_service_account H,
         secure_managed_config H config,
         act_bind (init H) (\<lambda>i. case i of
             Systemd \<Rightarrow> systemd_install H semver allow_user_config role name config
           | OpenRc \<Rightarrow> openrc_install H semver allow_user_config role name config)])"

definition uninstall_service :: "host \<Rightarrow> bool \<Rightarrow> path \<Rightarrow> unit act" where
  "uninstall_service H purge config =
     act_bind (init H) (\<lambda>i. case i of
         Systemd \<Rightarrow> systemd_uninstall H purge config
       | OpenRc \<Rightarrow> openrc_uninstall H purge config)"

definition uninstall_all :: "editor \<Rightarrow> io \<Rightarrow> host \<Rightarrow> bool \<Rightarrow> unit act" where
  "uninstall_all ED os H purge =
     on_machine (\<lambda>m. act_seq
       (act_all (map (\<lambda>(name, _). uninstall_service H purge (config_dir, name @ ''.toml''))
         (list_installed_services ED os (ma_disk m))))
       (ignore (remove_file H installed_binary_path)))"

record service_args =
  sa_name :: "string option"
  sa_all :: bool
  sa_json :: bool

definition control_service :: "editor \<Rightarrow> io \<Rightarrow> host \<Rightarrow> string \<Rightarrow> service_args \<Rightarrow> unit act" where
  "control_service ED os H action args =
     on_machine (\<lambda>m.
       let services = list_installed_services ED os (ma_disk m);
           names = (if sa_all args then map fst services
                    else [case sa_name args of None \<Rightarrow> ''default'' | Some n \<Rightarrow> n]) in
       act_all (map (\<lambda>name.
         let role = (case List.find (\<lambda>s. fst s = name) services of Some s \<Rightarrow> snd s | None \<Rightarrow> Role_Server) in
         act_bind (init H) (\<lambda>i. act_seq
           (case i of Systemd \<Rightarrow> systemd_control H action name role
                    | OpenRc \<Rightarrow> openrc_control H action name role) (act_return ()))) names))"

definition upgrade_binary :: "editor \<Rightarrow> io \<Rightarrow> host \<Rightarrow> unit act" where
  "upgrade_binary ED os H =
     act_bind (init H) (\<lambda>i. on_machine (\<lambda>m. case i of
         Systemd \<Rightarrow> systemd_upgrade H (list_installed_services ED os (ma_disk m))
       | OpenRc \<Rightarrow> openrc_upgrade H (list_installed_services ED os (ma_disk m))))"

definition query_service_state ::
  "host \<Rightarrow> io \<Rightarrow> string \<Rightarrow> string \<Rightarrow> computer \<Rightarrow> computer \<times> (string \<times> u32 option) option" where
  "query_service_state H os role name m =
     (case init H m of
        (m', Inl _) \<Rightarrow> (m', None)
      | (m', Inr Systemd) \<Rightarrow> systemd_query H role name m'
      | (m', Inr OpenRc) \<Rightarrow> openrc_query H os role name m')"

section \<open>The commands\<close>

record install_args =
  ia_role :: "service_role option"
  ia_name :: "string option"
  ia_config :: "path option"
  ia_allow_user_config :: bool
  ia_yes :: bool
  ia_json :: bool

record uninstall_args =
  ua_name :: "string option"
  ua_config :: "path option"
  ua_all :: bool
  ua_purge :: bool
  ua_yes :: bool
  ua_json :: bool

datatype service_cmd =
    Service_Install install_args
  | Service_Uninstall uninstall_args
  | Service_Start service_args
  | Service_Stop service_args
  | Service_Restart service_args
  | Service_Run path

definition on_disk :: "(disk \<Rightarrow> disk \<times> (anyhow + 'a)) \<Rightarrow> 'a act" where
  "on_disk f m = (case f (ma_disk m) of (w, r) \<Rightarrow> (m\<lparr>ma_disk := w\<rparr>, r))"

text \<open>\<open>current_dir()?.join(p)\<close>: an absolute path stays.\<close>

definition join_path :: "string list \<Rightarrow> path \<Rightarrow> path" where
  "join_path cwd p = (if fst p \<noteq> [] \<and> hd (fst p) = [] then p else (cwd @ fst p, snd p))"

definition install_target :: "(anyhow + string list) \<Rightarrow> install_args \<Rightarrow> anyhow + string \<times> path" where
  "install_target cwd i =
     (case ia_config i of
        None \<Rightarrow> service_config_path (ia_name i)
      | Some p \<Rightarrow>
          rbind (with_context (Ctx ''failed to resolve the current directory for `--config`'') cwd) (\<lambda>d.
          let path = join_path d p in
          rbind (case ia_name i of
              Some n \<Rightarrow> Inr n
            | None \<Rightarrow>
                if snd path = [] then
                  Inl (Err (''cannot derive a service name from `'' @ display_path path @ ''`; pass `--name`''))
                else Inr (fst (stem_extension (snd path)))) (\<lambda>name.
          rbind (validate_service_name name) (\<lambda>_. Inr (name, path)))))"

definition created_line :: "service_role \<Rightarrow> path \<Rightarrow> string" where
  "created_line role p =
     ''Created '' @ role_key role @ '' config at '' @ display_path p @ '' (no services configured yet).''"

definition run_install ::
  "editor \<Rightarrow> io \<Rightarrow> host \<Rightarrow> terminal \<Rightarrow> (anyhow + string list) \<Rightarrow> bool \<Rightarrow> install_args \<Rightarrow> json act" where
  "run_install ED os H tm cwd confirmed i =
     (case ia_role i of
        None \<Rightarrow> act_fail (Err ''A role is required: `service install server` or `service install client`'')
      | Some role \<Rightarrow>
          act_bind (act_lift (install_target cwd i)) (\<lambda>(name, config).
          act_bind (act_lift (snd (confirm_action tm (ia_yes i) (ia_json i) ''install'' confirmed))) (\<lambda>_.
          act_bind (act_lift (elevate_for_config_if_needed config)) (\<lambda>relayed.
          if relayed then act_return relayed_json
          else
            act_bind (on_disk (ensure_role_config ED os config role)) (\<lambda>created.
            act_bind (act_when (created \<and> \<not> ia_json i) (print_line (created_line role config))) (\<lambda>_.
            act_bind (install_service H (ed_semver ED) (ia_allow_user_config i) role name config) (\<lambda>_.
            act_return (J_Object [(''action'', J_String ''install''), (''names'', J_Array [J_String name]),
              (''role'', J_String (role_key role)), (''config'', J_String (display_path config)),
              (''created'', J_Bool created), (''message'', J_String ''service installed'')]))))))))"

definition run_uninstall :: "editor \<Rightarrow> io \<Rightarrow> host \<Rightarrow> terminal \<Rightarrow> bool \<Rightarrow> uninstall_args \<Rightarrow> json act" where
  "run_uninstall ED os H tm confirmed u =
     on_machine (\<lambda>m.
       let confirm = act_lift (snd (confirm_action tm (ua_yes u) (ua_json u) ''uninstall'' confirmed)) in
       if ua_all u then
         act_seq confirm (act_seq (uninstall_all ED os H (ua_purge u))
           (act_return (J_Object [(''action'', J_String ''uninstall''),
             (''names'', J_Array (map (\<lambda>s. J_String (fst s)) (list_installed_services ED os (ma_disk m)))),
             (''all'', J_Bool True), (''purge'', J_Bool (ua_purge u)),
             (''message'', J_String ''all services uninstalled'')])))
       else
         act_bind (act_lift (resolve_service_config ED os (ma_disk m) (ua_config u) (ua_name u))) (\<lambda>config.
         act_seq confirm (act_seq (uninstall_service H (ua_purge u) config)
           (act_return (J_Object [(''action'', J_String ''uninstall''),
             (''names'', J_Array [J_String (config_stem ''?'' config)]),
             (''purge'', J_Bool (ua_purge u)), (''message'', J_String ''service uninstalled'')])))))"

definition service_action_names :: "editor \<Rightarrow> io \<Rightarrow> disk \<Rightarrow> service_args \<Rightarrow> string list" where
  "service_action_names ED os w args =
     (case sa_name args of Some n \<Rightarrow> [n] | None \<Rightarrow> map fst (list_installed_services ED os w))"

definition run_control :: "editor \<Rightarrow> io \<Rightarrow> host \<Rightarrow> string \<Rightarrow> service_args \<Rightarrow> json act" where
  "run_control ED os H action args =
     on_machine (\<lambda>m.
       let names = service_action_names ED os (ma_disk m) args in
       act_seq (control_service ED os H action args)
         (act_return (J_Object [(''action'', J_String action), (''names'', J_Array (map J_String names)),
           (''all'', J_Bool (sa_all args)), (''message'', J_String ''ok'')])))"

definition run_service :: "path \<Rightarrow> unit act" where
  "run_service config =
     act_fail (Err ''service run is a Windows SCM entry point and is not available on Linux'')"

definition dispatch_service_command ::
  "editor \<Rightarrow> io \<Rightarrow> host \<Rightarrow> terminal \<Rightarrow> (anyhow + string list) \<Rightarrow> bool \<Rightarrow> service_cmd \<Rightarrow> json act" where
  "dispatch_service_command ED os H tm cwd confirmed cmd =
     (case cmd of
        Service_Install i \<Rightarrow> run_install ED os H tm cwd confirmed i
      | Service_Uninstall u \<Rightarrow> run_uninstall ED os H tm confirmed u
      | Service_Run config \<Rightarrow> act_seq (run_service config) (act_return J_Null)
      | Service_Start a \<Rightarrow> run_control ED os H ''start'' a
      | Service_Stop a \<Rightarrow> run_control ED os H ''stop'' a
      | Service_Restart a \<Rightarrow> run_control ED os H ''restart'' a)"

definition run_upgrade :: "editor \<Rightarrow> io \<Rightarrow> host \<Rightarrow> terminal \<Rightarrow> bool \<Rightarrow> bool \<Rightarrow> bool \<Rightarrow> json act" where
  "run_upgrade ED os H tm confirmed yes json =
     act_seq (act_lift (snd (confirm_action tm yes json ''upgrade'' confirmed)))
    (act_seq (upgrade_binary ED os H)
    (act_return (J_Object [(''action'', J_String ''upgrade''), (''message'', J_String ''binary upgraded'')])))"

section \<open>The JSON mode\<close>

definition json_success_envelope :: "json \<Rightarrow> json" where
  "json_success_envelope result = J_Object [(''ok'', J_Bool True), (''result'', result)]"

definition json_failure_envelope :: "anyhow \<Rightarrow> json" where
  "json_failure_envelope e =
     J_Object [(''ok'', J_Bool False), (''error'', J_Object [(''message'', J_String (err_alternate e))])]"

fun service_requests_json :: "service_cmd \<Rightarrow> bool" where
  "service_requests_json (Service_Install a) = ia_json a"
| "service_requests_json (Service_Uninstall a) = ua_json a"
| "service_requests_json (Service_Start a) = sa_json a"
| "service_requests_json (Service_Stop a) = sa_json a"
| "service_requests_json (Service_Restart a) = sa_json a"
| "service_requests_json (Service_Run p) = False"

text \<open>
  \<open>run\<close> for a command: in the JSON mode the envelope is printed after it. Nothing is relayed on
  Linux.
\<close>

definition run_enveloped :: "(json \<Rightarrow> string) \<Rightarrow> bool \<Rightarrow> json act \<Rightarrow> unit act" where
  "run_enveloped json_text json_mode f m =
     (case f m of (m', r) \<Rightarrow>
        (if json_mode then
           m'\<lparr>ma_printed := ma_printed m' @ [json_text (case r of
              Inr v \<Rightarrow> json_success_envelope v | Inl e \<Rightarrow> json_failure_envelope e)]\<rparr>
         else m',
         map_sum id (\<lambda>_. ()) r))"

section \<open>The service of a name\<close>

definition init_of :: "host \<Rightarrow> init_system" where
  "init_of H = (if ho_systemd H then Systemd else OpenRc)"

definition service_id :: "host \<Rightarrow> service_role \<Rightarrow> string \<Rightarrow> string" where
  "service_id H role name = (case init_of H of Systemd \<Rightarrow> unit_name role name | OpenRc \<Rightarrow> rc_service_name role name)"

definition service_file :: "host \<Rightarrow> string \<Rightarrow> path" where
  "service_file H svc = (case init_of H of Systemd \<Rightarrow> unit_path svc | OpenRc \<Rightarrow> initd_path svc)"

definition service_text :: "host \<Rightarrow> path \<Rightarrow> string \<Rightarrow> anyhow + string" where
  "service_text H config svc =
     (case init_of H of Systemd \<Rightarrow> render_unit installed_binary_path config
      | OpenRc \<Rightarrow> render_initd installed_binary_path config svc)"

definition service_found :: "host \<Rightarrow> disk \<Rightarrow> string \<times> service_role \<Rightarrow> string" where
  "service_found H w s = (case init_of H of Systemd \<Rightarrow> service_unit w s | OpenRc \<Rightarrow> rc_service_of w s)"

definition enable_call :: "host \<Rightarrow> string \<Rightarrow> tool_call" where
  "enable_call H svc =
     (case init_of H of Systemd \<Rightarrow> (''systemctl'', [''enable'', ''--now'', svc]) | OpenRc \<Rightarrow> (''rc-service'', [svc, ''start'']))"

definition service_call :: "host \<Rightarrow> string \<Rightarrow> string \<Rightarrow> tool_call" where
  "service_call H action svc =
     (case init_of H of Systemd \<Rightarrow> (''systemctl'', [action, svc]) | OpenRc \<Rightarrow> (''rc-service'', [svc, action]))"

text \<open>The files next to the definition of a service, which only OpenRC has.\<close>

definition side_files :: "host \<Rightarrow> string \<Rightarrow> path set" where
  "side_files H svc = (case init_of H of Systemd \<Rightarrow> {} | OpenRc \<Rightarrow> {log_path svc, pidfile_path svc, softlevel_path})"

lemma init_ok:
  "init H m = (m', Inr i) \<Longrightarrow> i = init_of H \<and>
     m' = m\<lparr>ma_tools := ma_tools m @ (case i of Systemd \<Rightarrow> [] | OpenRc \<Rightarrow> [(''rc-service'', [''--version''])])\<rparr>"
  by (auto simp: init_def init_of_def run_tool_def split: if_splits sum.splits)

lemma touches_init_bind: "touches P (k (init_of H)) \<Longrightarrow> touches P (act_bind (init H) k)"
proof -
  assume k: "touches P (k (init_of H))"
  have "ma_disk (fst (act_bind (init H) k m)) p = ma_disk m p" if "p \<notin> P" for m p
  proof -
    obtain m1 r where i: "init H m = (m1, r)" by (cases "init H m")
    have "ma_disk m1 p = ma_disk m p" using touchesD [OF touches_init i, of p "{}"] by simp
    moreover have "ma_disk (fst (k (init_of H) m1)) p = ma_disk m1 p" using k that touches_def by metis
    ultimately show ?thesis using init_ok [of H m m1] i by (cases r) (auto simp: act_bind_def)
  qed
  then show ?thesis by (simp add: touches_def)
qed

section \<open>What a command may change\<close>

definition install_files :: "host \<Rightarrow> io \<Rightarrow> path \<Rightarrow> service_role \<Rightarrow> string \<Rightarrow> path set" where
  "install_files H os config role name =
     {config, tmp_path os config, version_path config, installed_binary_path, service_file H (service_id H role name)} \<union>
     side_files H (service_id H role name)"

definition uninstall_files :: "host \<Rightarrow> bool \<Rightarrow> path \<Rightarrow> path set" where
  "uninstall_files H purge config =
     {version_path config} \<union> (if purge then {config} else {}) \<union>
     (\<Union>r. let svc = service_id H r (config_stem ''default'' config) in insert (service_file H svc) (side_files H svc))"

definition command_files ::
  "editor \<Rightarrow> io \<Rightarrow> host \<Rightarrow> (anyhow + string list) \<Rightarrow> service_cmd \<Rightarrow> disk \<Rightarrow> path set" where
  "command_files ED os H cwd cmd w =
     (case cmd of
        Service_Install i \<Rightarrow>
          (case (install_target cwd i, ia_role i) of
             (Inr (name, config), Some role) \<Rightarrow>
               (if ho_euid H = 0 then install_files H os config role name else {config, tmp_path os config})
           | _ \<Rightarrow> {})
      | Service_Uninstall u \<Rightarrow>
          (let files = (\<lambda>config. if ho_euid H = 0 then uninstall_files H (ua_purge u) config else {version_path config}) in
           if ua_all u then
             insert installed_binary_path
               (\<Union>(name, _) \<in> set (list_installed_services ED os w). files (config_dir, name @ ''.toml''))
           else (case resolve_service_config ED os w (ua_config u) (ua_name u) of Inl _ \<Rightarrow> {} | Inr config \<Rightarrow> files config))
      | _ \<Rightarrow> {})"

lemma install_service_touches:
  "touches (install_files H os config role name) (install_service H semver allow role name config)"
proof -
  have "touches (install_files H os config role name)
      (act_bind (init H) (\<lambda>i. case i of
             Systemd \<Rightarrow> systemd_install H semver allow role name config
           | OpenRc \<Rightarrow> openrc_install H semver allow role name config))"
    by (rule touches_init_bind, cases "init_of H")
      (auto simp: install_files_def service_file_def service_id_def side_files_def
        intro: touches_mono [OF systemd_install_touches] touches_mono [OF openrc_install_touches])
  then have "touches (install_files H os config role name) (act_all [ensure_root H, ensure_service_account H,
      secure_managed_config H config, act_bind (init H) (\<lambda>i. case i of
             Systemd \<Rightarrow> systemd_install H semver allow role name config
           | OpenRc \<Rightarrow> openrc_install H semver allow role name config)])"
    by (intro touches_all) (auto intro: touches_root touches_account touches_secure)
  then show ?thesis unfolding install_service_def by (intro touches_if touches_leaf)
qed

lemma install_service_unprivileged: "ho_euid H \<noteq> 0 \<Longrightarrow> touches P (install_service H semver allow role name config)"
  by (simp add: install_service_def touches_intros touches_unprivileged)

lemma uninstall_service_touches:
  "touches (if ho_euid H = 0 then uninstall_files H purge config else {version_path config})
     (uninstall_service H purge config)"
  unfolding uninstall_service_def
proof (rule touches_init_bind)
  show "touches (if ho_euid H = 0 then uninstall_files H purge config else {version_path config})
      (case init_of H of Systemd \<Rightarrow> systemd_uninstall H purge config | OpenRc \<Rightarrow> openrc_uninstall H purge config)"
  proof (cases "ho_euid H = 0")
    case True
    show ?thesis
    proof (cases "init_of H")
      case Systemd
      show ?thesis unfolding Systemd init_system.case using True
        by (intro touches_mono [OF systemd_uninstall_touches])
          (auto simp: uninstall_files_def service_file_def service_id_def side_files_def Let_def Systemd)
    next
      case OpenRc
      show ?thesis unfolding OpenRc init_system.case using True
        by (intro touches_mono [OF openrc_uninstall_touches])
          (auto simp: uninstall_files_def service_file_def service_id_def side_files_def Let_def OpenRc)
    qed
  qed (cases "init_of H"; simp add: systemd_unprivileged openrc_unprivileged)
qed

lemma uninstall_all_touches:
  assumes "w = ma_disk m" "p \<notin> insert installed_binary_path (\<Union>(name, _) \<in> set (list_installed_services ED os w).
      (if ho_euid H = 0 then uninstall_files H purge (config_dir, name @ ''.toml'')
       else {version_path (config_dir, name @ ''.toml'')}))"
  shows "ma_disk (fst (uninstall_all ED os H purge m)) p = ma_disk m p"
proof -
  let ?ss = "list_installed_services ED os (ma_disk m)"
  have "touches (- {p}) (act_seq
       (act_all (map (\<lambda>(name, _). uninstall_service H purge (config_dir, name @ ''.toml'')) ?ss))
       (ignore (remove_file H installed_binary_path)))"
    using assms by (intro touches_intros) (auto intro!: touches_mono [OF uninstall_service_touches] split: if_splits)
  then show ?thesis unfolding uninstall_all_def by (simp add: touches_def)
qed

lemma control_service_touches: "touches P (control_service ED os H action args)"
proof -
  have "touches P (act_bind (init H) (\<lambda>i. act_seq
           (case i of Systemd \<Rightarrow> systemd_control H action name role
                    | OpenRc \<Rightarrow> openrc_control H action name role) (act_return ())))" for name role
    by (rule touches_init_bind, rule touches_bind, cases "init_of H")
      (auto intro: touches_mono [OF systemd_control_touches] touches_mono [OF openrc_control_touches] touches_intros)
  then show ?thesis unfolding control_service_def Let_def by (intro touches_intros) (auto simp: Let_def)
qed

lemma ensure_role_config_frame:
  assumes "ensure_role_config ED os p role w = (w', r)" "q \<noteq> p" "q \<noteq> tmp_path os p"
  shows "w' q = w q"
proof -
  have "fst (write_atomic os p content w) q = w q" for content
    using assms(2,3) by (auto simp: write_atomic_def Let_def remove_tmp_def split: option.splits prod.splits)
  then show ?thesis using assms(1)
    by (auto simp: ensure_role_config_def split: if_splits option.splits list.splits prod.splits sum.splits)
      (metis fst_conv)+
qed

lemma on_disk_touches:
  assumes "\<And>w p. p \<notin> P \<Longrightarrow> fst (f w) p = w p"
  shows "touches P (on_disk f)"
  using assms by (auto simp: touches_def on_disk_def split: prod.split) (metis fst_conv)

lemma run_install_touches:
  assumes "p \<notin> command_files ED os H cwd (Service_Install i) w"
  shows "touches (- {p}) (run_install ED os H tm cwd confirmed i)"
proof (cases "ia_role i")
  case None
  then show ?thesis by (simp add: run_install_def touches_leaf)
next
  case (Some role)
  show ?thesis
  proof (cases "install_target cwd i")
    case (Inl e)
    then show ?thesis by (simp add: run_install_def Some touches_def act_bind_def)
  next
    case (Inr t)
    obtain name config where t: "t = (name, config)" by (cases t)
    have p: "p \<noteq> config" "p \<noteq> tmp_path os config"
      using assms by (auto simp: command_files_def Inr t Some install_files_def split: if_splits)
    have c: "touches (- {p}) (on_disk (ensure_role_config ED os config role))"
      using ensure_role_config_frame [of ED os config role] p
      by (intro on_disk_touches) (metis ComplI prod.collapse singletonD)
    have i: "touches (- {p}) (install_service H semver allow role name config)" for semver allow
    proof (cases "ho_euid H = 0")
      case True
      then have "install_files H os config role name \<subseteq> - {p}"
        using assms by (auto simp: command_files_def Inr t Some)
      then show ?thesis by (rule touches_mono [OF install_service_touches])
    qed (rule install_service_unprivileged)
    have "touches (- {p}) (act_bind (on_disk (ensure_role_config ED os config role)) (\<lambda>created.
            act_bind (act_when (created \<and> \<not> ia_json i) (print_line (created_line role config))) (\<lambda>_.
            act_bind (install_service H (ed_semver ED) (ia_allow_user_config i) role name config) (\<lambda>_.
            act_return (J_Object [(''action'', J_String ''install''), (''names'', J_Array [J_String name]),
              (''role'', J_String (role_key role)), (''config'', J_String (display_path config)),
              (''created'', J_Bool created), (''message'', J_String ''service installed'')])))))"
      by (intro touches_intros c i)
    then show ?thesis
      by (simp add: run_install_def Some Inr t elevate_for_config_if_needed_def touches_def act_bind_def split: sum.split)
  qed
qed

lemma act_bind_lift [simp]:
  "act_bind (act_lift (Inl e)) k m = (m, Inl e)" "act_bind (act_lift (Inr x)) k m = k x m"
  by (simp_all add: act_bind_def)

lemma touches_fst: "touches P f \<Longrightarrow> p \<notin> P \<Longrightarrow> ma_disk (fst (f m)) p = ma_disk m p"
  by (metis touches_def)

lemma bind_frame:
  assumes "ma_disk (fst (f m)) p = ma_disk m p" "\<And>x. touches (- {p}) (k x)"
  shows "ma_disk (fst (act_bind f k m)) p = ma_disk m p"
proof (cases "f m")
  case (Pair m1 r)
  have "ma_disk (fst (k x m1)) p = ma_disk m1 p" for x using assms(2) touches_def by (metis ComplD singletonI)
  then show ?thesis using assms(1) by (cases r) (simp_all add: act_bind_def Pair)
qed

lemma run_uninstall_touches:
  assumes "p \<notin> command_files ED os H cwd (Service_Uninstall u) (ma_disk m)"
  shows "ma_disk (fst (run_uninstall ED os H tm confirmed u m)) p = ma_disk m p"
proof -
  let ?confirm = "act_lift (snd (confirm_action tm (ua_yes u) (ua_json u) ''uninstall'' confirmed)) :: unit act"
  show ?thesis
  proof (cases "ua_all u")
    case True
    have "ma_disk (fst (uninstall_all ED os H (ua_purge u) m)) p = ma_disk m p"
      using assms by (intro uninstall_all_touches [OF refl]) (simp add: command_files_def Let_def True split_def)
    then have "ma_disk (fst (act_seq ?confirm (act_seq (uninstall_all ED os H (ua_purge u)) (act_return j)) m)) p = ma_disk m p" for j
      using bind_frame [of "uninstall_all ED os H (ua_purge u)" m p "\<lambda>_. act_return j"]
      by (cases "snd (confirm_action tm (ua_yes u) (ua_json u) ''uninstall'' confirmed)")
        (simp_all add: touches_leaf)
    then show ?thesis by (simp add: run_uninstall_def True Let_def)
  next
    case False
    show ?thesis
    proof (cases "resolve_service_config ED os (ma_disk m) (ua_config u) (ua_name u)")
      case (Inl e)
      then show ?thesis by (simp add: run_uninstall_def False Let_def act_bind_def)
    next
      case (Inr config)
      have "touches (- {p}) (uninstall_service H (ua_purge u) config)"
        using assms by (intro touches_mono [OF uninstall_service_touches])
          (auto simp: command_files_def False Inr Let_def split: if_splits)
      then have "touches (- {p}) (act_seq ?confirm (act_seq (uninstall_service H (ua_purge u) config) (act_return j)))" for j
        by (intro touches_intros)
      from touches_fst [OF this, where p = p and m = m] show ?thesis by (simp add: run_uninstall_def False Inr Let_def)
    qed
  qed
qed

lemma run_control_touches: "touches P (run_control ED os H action args)"
  unfolding run_control_def Let_def by (intro touches_intros control_service_touches)

definition refused :: "terminal \<Rightarrow> bool \<Rightarrow> bool \<Rightarrow> bool \<Rightarrow> bool" where
  "refused tm confirmed yes json \<longleftrightarrow>
     \<not> yes \<and> \<not> confirmed \<and> (json \<or> \<not> (tm_stdin tm \<and> tm_stdout tm) \<or> tm_confirm tm \<noteq> Inr True)"

lemma confirm_refused:
  "refused tm confirmed yes json \<Longrightarrow> \<exists>e. snd (confirm_action tm yes json sub confirmed) = Inl e"
  "\<not> refused tm confirmed yes json \<Longrightarrow> snd (confirm_action tm yes json sub confirmed) = Inr ()"
  by (auto simp: refused_def confirm_action_def split: sum.splits bool.splits)

fun declined :: "terminal \<Rightarrow> bool \<Rightarrow> service_cmd \<Rightarrow> bool" where
  "declined tm confirmed (Service_Install i) = refused tm confirmed (ia_yes i) (ia_json i)"
| "declined tm confirmed (Service_Uninstall u) = refused tm confirmed (ua_yes u) (ua_json u)"
| "declined tm confirmed cmd = False"

lemma declined_nothing:
  assumes "declined tm confirmed cmd"
  shows "\<exists>e. dispatch_service_command ED os H tm cwd confirmed cmd m = (m, Inl e)"
proof (cases cmd)
  case (Service_Install i)
  obtain e where "snd (confirm_action tm (ia_yes i) (ia_json i) ''install'' confirmed) = Inl e"
    using assms confirm_refused(1) unfolding Service_Install declined.simps by blast
  then show ?thesis
    by (cases "ia_role i"; cases "install_target cwd i")
      (auto simp: dispatch_service_command_def Service_Install run_install_def act_bind_def)
next
  case (Service_Uninstall u)
  obtain e where "snd (confirm_action tm (ua_yes u) (ua_json u) ''uninstall'' confirmed) = Inl e"
    using assms confirm_refused(1) unfolding Service_Uninstall declined.simps by blast
  then show ?thesis
    by (cases "ua_all u"; cases "resolve_service_config ED os (ma_disk m) (ua_config u) (ua_name u)")
      (auto simp: dispatch_service_command_def Service_Uninstall run_uninstall_def act_bind_def Let_def)
qed (use assms in simp_all)

lemma dispatch_service_frame:
  assumes "p \<notin> command_files ED os H cwd cmd (ma_disk m)"
  shows "ma_disk (fst (dispatch_service_command ED os H tm cwd confirmed cmd m)) p = ma_disk m p"
proof (cases cmd)
  case (Service_Install i)
  from run_install_touches [OF assms [unfolded Service_Install]] show ?thesis
    by (simp add: dispatch_service_command_def Service_Install touches_def)
next
  case (Service_Uninstall u)
  from run_uninstall_touches [OF assms [unfolded Service_Uninstall]] show ?thesis
    by (simp add: dispatch_service_command_def Service_Uninstall)
next
  case (Service_Run p)
  then show ?thesis by (simp add: dispatch_service_command_def run_service_def act_bind_def)
next
  case (Service_Start a)
  show ?thesis by (simp add: dispatch_service_command_def Service_Start touches_fst [OF run_control_touches [of "{}"]])
next
  case (Service_Stop a)
  show ?thesis by (simp add: dispatch_service_command_def Service_Stop touches_fst [OF run_control_touches [of "{}"]])
next
  case (Service_Restart a)
  show ?thesis by (simp add: dispatch_service_command_def Service_Restart touches_fst [OF run_control_touches [of "{}"]])
qed

section \<open>What a successful command does\<close>

lemma install_service_ok:
  assumes "install_service H semver allow role name config m = (m', Inr x)"
  shows "\<not> allow \<and> ho_euid H = 0 \<and> (let svc = service_id H role name in
    ma_disk m (service_file H svc) = None \<and>
    (\<exists>f. ma_disk m' (service_file H svc) = Some f \<and> service_text H config svc = Inr (f_content f)) \<and>
    (\<exists>src f. ho_exe H = Inr src \<and> ma_disk m' installed_binary_path = Some f \<and>
       (copies H \<and> src \<notin> {version_path config, installed_binary_path, softlevel_path} \<longrightarrow>
          (\<exists>x. ma_disk m src = Some x \<and> f_content f = f_content x))) \<and>
    last (ma_tools m') = enable_call H svc)"
proof -
  have na: "\<not> allow" using assms by (auto simp: install_service_def)
  obtain m1 m2 m3 i where s: "ho_euid H = 0" "ensure_service_account H m = (m1, Inr ())"
    "secure_managed_config H config m1 = (m2, Inr ())" "init H m2 = (m3, Inr i)"
    "(case i of Systemd \<Rightarrow> systemd_install H semver allow role name config
              | OpenRc \<Rightarrow> openrc_install H semver allow role name config) m3 = (m', Inr ())"
    using assms [unfolded install_service_def if_not_P [OF na]] by (auto simp: act_bind_Inr ensure_root_ok)
  have d: "ma_disk m3 = ma_disk m"
    using runs_toolsD [OF runs_account s(2)] runs_toolsD [OF runs_secure s(3)] init_ok [OF s(4)] by auto
  have i: "i = init_of H" using init_ok [OF s(4)] by simp
  show ?thesis
  proof (cases i)
    case Systemd
    then have h: "init_of H = Systemd" using i by simp
    from s(5) have "systemd_install H semver allow role name config m3 = (m', Inr ())" by (simp add: Systemd)
    from systemd_install_ok [OF this] obtain f exe content stamp mode pre where
      o: "ma_disk m (unit_path (unit_name role name)) = None" "ho_exe H = Inr exe"
      "ho_copy H ((ma_disk m)(version_path config \<mapsto> stamp)) exe installed_binary_path = Inr f"
      "render_unit installed_binary_path config = Inr content"
      "ma_disk m' = (ma_disk m)(version_path config \<mapsto> stamp, installed_binary_path \<mapsto> f,
        unit_path (unit_name role name) \<mapsto> \<lparr>f_content = content, f_mode = mode\<rparr>)"
      "ma_tools m' = ma_tools m3 @ pre @ [(''systemctl'', [''daemon-reload'']),
        (''systemctl'', [''enable'', ''--now'', unit_name role name])]"
      unfolding d by auto
    have "\<exists>x. ma_disk m exe = Some x \<and> f_content f = f_content x"
      if "copies H" "exe \<notin> {version_path config, installed_binary_path, softlevel_path}"
      using that o(3) unfolding copies_def by (metis fun_upd_other insertCI)
    moreover have "ma_disk m' installed_binary_path = Some f"
      using o(5) unit_path_simps(2) by (metis fun_upd_other fun_upd_same)
    ultimately have "\<exists>src f. ho_exe H = Inr src \<and> ma_disk m' installed_binary_path = Some f \<and>
       (copies H \<and> src \<notin> {version_path config, installed_binary_path, softlevel_path} \<longrightarrow>
          (\<exists>x. ma_disk m src = Some x \<and> f_content f = f_content x))" using o(2) by blast
    then show ?thesis using na s(1) o(1,4,5,6)
      by (simp add: Let_def service_file_def service_id_def service_text_def enable_call_def h)
  next
    case OpenRc
    then have h: "init_of H = OpenRc" using i by simp
    from s(5) have "openrc_install H semver allow role name config m3 = (m', Inr ())" by (simp add: OpenRc)
    from this show ?thesis
    proof (rule openrc_install_ok)
      fix content src f pre
      assume o: "ma_disk m3 (initd_path (rc_service_name role name)) = None"
        "render_initd installed_binary_path config (rc_service_name role name) = Inr content"
        "ma_disk m' (initd_path (rc_service_name role name)) = Some \<lparr>f_content = content, f_mode = 0x1ED\<rparr>"
        "ho_exe H = Inr src" "ma_disk m' installed_binary_path = Some f"
        "copies H \<Longrightarrow> src \<notin> {version_path config, installed_binary_path, softlevel_path} \<Longrightarrow>
           \<exists>x. ma_disk m3 src = Some x \<and> f_content f = f_content x"
        "ma_tools m' = pre @ [(''rc-update'', [''add'', rc_service_name role name, ''default'']),
          (''rc-service'', [rc_service_name role name, ''start''])]"
      have l: "last (ma_tools m') = (''rc-service'', [rc_service_name role name, ''start''])" by (simp add: o(7))
      have "\<exists>src f. ho_exe H = Inr src \<and> ma_disk m' installed_binary_path = Some f \<and>
         (copies H \<and> src \<notin> {version_path config, installed_binary_path, softlevel_path} \<longrightarrow>
            (\<exists>x. ma_disk m src = Some x \<and> f_content f = f_content x))" using o(4-6) unfolding d by blast
      then show ?thesis
        unfolding Let_def service_file_def service_id_def service_text_def enable_call_def h init_system.case
        using na s(1) o(1-3) l unfolding d by (intro conjI exI [of _ "\<lparr>f_content = content, f_mode = 0x1ED\<rparr>"]) simp_all
    qed
  qed
qed

definition service_existing :: "host \<Rightarrow> disk \<Rightarrow> string \<Rightarrow> string option" where
  "service_existing H w name =
     (case init_of H of Systemd \<Rightarrow> existing_unit w name | OpenRc \<Rightarrow> existing_rc_service w name)"

lemma uninstall_service_ok:
  fixes H m config purge
  defines "found \<equiv> service_existing H (ma_disk m) (config_stem ''default'' config)"
  assumes "uninstall_service H purge config m = (m', Inr x)"
  shows "\<exists>w0 w1. w1 = (if purge then w0(config := None) else w0) \<and>
    ma_disk m' = (if other_configs H w1 config then w1 else w1(version_path config := None)) \<and>
    (case found of
       None \<Rightarrow> w0 = ma_disk m
     | Some u \<Rightarrow> ho_euid H = 0 \<and> w0 (service_file H u) = None \<and>
         (\<forall>p. p \<notin> insert (service_file H u) (side_files H u) \<longrightarrow> w0 p = ma_disk m p))"
proof -
  obtain m1 i where s: "init H m = (m1, Inr i)"
    "(case i of Systemd \<Rightarrow> systemd_uninstall H purge config | OpenRc \<Rightarrow> openrc_uninstall H purge config) m1 = (m', Inr x)"
    using assms(2) by (auto simp: uninstall_service_def act_bind_Inr)
  have i: "i = init_of H" and d: "ma_disk m1 = ma_disk m" using init_ok [OF s(1)] by auto
  show ?thesis
  proof (cases i)
    case Systemd
    then have h: "init_of H = Systemd" using i by simp
    from s(2) have "systemd_uninstall H purge config m1 = (m', Inr x)" by (simp add: Systemd)
    note o = systemd_uninstall_ok [OF this, unfolded d]
    have f: "found = existing_unit (ma_disk m) (config_stem ''default'' config)"
      by (simp add: found_def service_existing_def h)
    show ?thesis unfolding f
      by (intro exI [of _ "case existing_unit (ma_disk m) (config_stem ''default'' config) of
            None \<Rightarrow> ma_disk m | Some u \<Rightarrow> (ma_disk m)(unit_path u := None)"] exI conjI,
          rule refl, rule conjunct1 [OF o])
        (use conjunct2 [OF o] in \<open>cases "existing_unit (ma_disk m) (config_stem ''default'' config)";
          simp add: service_file_def h\<close>)
  next
    case OpenRc
    then have h: "init_of H = OpenRc" using i by simp
    from s(2) have "openrc_uninstall H purge config m1 = (m', Inr x)" by (simp add: OpenRc)
    note o = openrc_uninstall_ok [OF this, unfolded d]
    show ?thesis using o
      by (force simp: found_def service_existing_def service_file_def side_files_def h split: option.splits)
  qed
qed

lemma control_service_ok:
  assumes "control_service ED os H action args m = (m', Inr ())"
  defines "services \<equiv> list_installed_services ED os (ma_disk m)"
  defines "names \<equiv> (if sa_all args then map fst services else [case sa_name args of None \<Rightarrow> ''default'' | Some n \<Rightarrow> n])"
  defines "role \<equiv> (\<lambda>name. case List.find (\<lambda>s. fst s = name) services of Some s \<Rightarrow> snd s | None \<Rightarrow> Role_Server)"
  shows "m' = m\<lparr>ma_tools := ma_tools m @ concat (map (\<lambda>name.
     (case init_of H of Systemd \<Rightarrow> [] | OpenRc \<Rightarrow> [(''rc-service'', [''--version''])]) @
     [service_call H action (service_found H (ma_disk m) (name, role name))]) names)\<rparr>"
proof -
  let ?f = "\<lambda>name. act_bind (init H) (\<lambda>i. act_seq
           (case i of Systemd \<Rightarrow> systemd_control H action name (role name)
                    | OpenRc \<Rightarrow> openrc_control H action name (role name)) (act_return ()))"
  let ?t = "\<lambda>w name. (case init_of H of Systemd \<Rightarrow> [] | OpenRc \<Rightarrow> [(''rc-service'', [''--version''])]) @
     [service_call H action (service_found H w (name, role name))]"
  have f: "m' = m\<lparr>ma_tools := ma_tools m @ ?t (ma_disk m) name\<rparr>" if "?f name m = (m', Inr ())" for name m m'
  proof (cases "init_of H")
    case Systemd
    then show ?thesis using that
      by (auto simp: act_bind_Inr systemd_control_def Let_def run_systemctl_def service_call_def service_found_def
          dest!: init_ok run_reported_ok)
  next
    case OpenRc
    then show ?thesis using that
      by (auto simp: act_bind_Inr openrc_control_def Let_def run_rc_def service_call_def service_found_def
          dest!: init_ok run_reported_ok)
  qed
  have "m' = m\<lparr>ma_tools := ma_tools m @ concat (map (?t (ma_disk m)) ns)\<rparr>"
    if "act_all (map ?f ns) m = (m', Inr ())" for ns m m'
    using that
  proof (induction ns arbitrary: m)
    case (Cons n ns)
    obtain m1 y where s: "?f n m = (m1, Inr y)" "act_all (map ?f ns) m1 = (m', Inr ())"
      using Cons.prems by (simp only: list.map act_all.simps act_bind_Inr [of "?f n"]) blast
    have "?f n m = (m1, Inr ())" using s(1) by simp
    from f [OF this] show ?case using Cons.IH [OF s(2)] by simp
  qed simp
  moreover have "act_all (map ?f names) m = (m', Inr ())"
    using assms(1) by (simp only: control_service_def Let_def act_leaf names_def role_def services_def)
  ultimately show ?thesis by blast
qed

text \<open>
  Without \<open>--name\<close> and \<open>--all\<close> the answer names every installed service, but the one that is acted
  on is \<open>default\<close>, whether it is installed or not.
\<close>

lemma control_names_differ:
  assumes "sa_name args = None" "\<not> sa_all args" "ho_systemd H"
    and "run_control ED os H action args m = (m', Inr j)"
  shows "\<exists>svc. ma_tools m' = ma_tools m @ [(''systemctl'', [action, svc])] \<and>
    (\<exists>r. svc = unit_name r ''default'') \<and>
    j = J_Object [(''action'', J_String action),
      (''names'', J_Array (map (\<lambda>s. J_String (fst s)) (list_installed_services ED os (ma_disk m)))),
      (''all'', J_Bool False), (''message'', J_String ''ok'')]"
proof -
  have h: "init_of H = Systemd" using assms(3) by (simp add: init_of_def)
  obtain m1 where c: "control_service ED os H action args m = (m1, Inr ())" "m' = m1"
    "j = J_Object [(''action'', J_String action),
      (''names'', J_Array (map (\<lambda>s. J_String (fst s)) (list_installed_services ED os (ma_disk m)))),
      (''all'', J_Bool False), (''message'', J_String ''ok'')]"
    using assms(1,2,4) by (auto simp: run_control_def Let_def act_bind_Inr service_action_names_def comp_def)
  have "\<exists>r. service_unit w (''default'', r') = unit_name r ''default''" for w r'
    using sysd.existing_Some by (auto simp: service_unit_def split: option.split)
  then show ?thesis
    using control_service_ok [OF c(1)] c(2,3) assms(1,2)
    by (auto simp: h service_call_def service_found_def)
qed

lemma upgrade_binary_ok:
  assumes "upgrade_binary ED os H m = (m', Inr x)"
  defines "ss \<equiv> list_installed_services ED os (ma_disk m)"
  defines "found \<equiv> (\<lambda>s. service_found H (ma_disk m) s)"
  assumes "ss \<noteq> []"
  shows "ho_euid H = 0 \<and>
    (\<exists>before after. ma_tools m' = ma_tools m @ before @ map (\<lambda>s. service_call H ''stop'' (found s)) ss @ deploy_calls @
       after @ map (\<lambda>s. service_call H ''start'' (found s)) ss) \<and>
    (\<exists>f. ma_disk m' installed_binary_path = Some f) \<and>
    (\<forall>s \<in> set ss. path_exists (ma_disk m) (service_file H (found s)) \<longrightarrow>
       (\<exists>f. ma_disk m' (service_file H (found s)) = Some f \<and>
          service_text H (config_dir, fst s @ ''.toml'') (found s) = Inr (f_content f))) \<and>
    (\<forall>p. p \<notin> insert installed_binary_path (insert softlevel_path ((\<lambda>s. service_file H (found s)) ` set ss)) \<longrightarrow>
       ma_disk m' p = ma_disk m p)"
proof -
  obtain m0 i where s: "init H m = (m0, Inr i)"
    "(case i of Systemd \<Rightarrow> systemd_upgrade H (list_installed_services ED os (ma_disk m0))
       | OpenRc \<Rightarrow> openrc_upgrade H (list_installed_services ED os (ma_disk m0))) m0 = (m', Inr x)"
    using assms(1) by (auto simp: upgrade_binary_def act_bind_Inr)
  have i: "i = init_of H" and d: "ma_disk m0 = ma_disk m" and t0: "\<exists>ts. ma_tools m0 = ma_tools m @ ts"
    using init_ok [OF s(1)] by auto
  obtain ts where ts: "ma_tools m0 = ma_tools m @ ts" using t0 by blast
  show ?thesis
  proof (cases i)
    case Systemd
    then have h: "init_of H = Systemd" using i by simp
    have "systemd_upgrade H ss m0 = (m', Inr x)" using s(2) by (simp add: Systemd ss_def d)
    from systemd_upgrade_ok [OF this assms(4)] obtain m1 m2 m3 m5 exe n where u: "ho_euid H = 0"
      "systemd_stop_all H ss m0 = (m1, Inr ())" "deploy_binary H m1 = (m2, Inr exe)"
      "systemd_rewrite_all H exe ss m2 = (m3, Inr ())"
      "start_units_best_effort H ss (m3\<lparr>ma_tools := ma_tools m3 @ [(''systemctl'', [''daemon-reload''])]\<rparr>) = (m5, Inr n)"
      "m' = m5\<lparr>ma_printed := ma_printed m5 @ [updated_line exe n]\<rparr>" by blast
    note o = sysd.upgrade_ok [OF u(2-4) refl u(5), unfolded d]
    have f: "found = service_unit (ma_disk m)" by (simp add: found_def service_found_def h fun_eq_iff)
    have e: "\<exists>f. ma_disk m' (unit_path (found s)) = Some f \<and>
        render_unit installed_binary_path (config_dir, fst s @ ''.toml'') = Inr (f_content f)"
      if "s \<in> set ss" "path_exists (ma_disk m) (unit_path (found s))" for s
      using o(3) [OF that(1)] that(2) unfolding f u(6) by simp
    have p: "ma_disk m' p = ma_disk m p" if "p \<noteq> installed_binary_path" "p \<notin> (\<lambda>s. unit_path (found s)) ` set ss" for p
      using o(4) [OF that(1)] that(2) unfolding f u(6) by simp
    have t: "ma_tools m' = ma_tools m @ ts @ map (\<lambda>s. (''systemctl'', [''stop'', found s])) ss @ deploy_calls @
        [(''systemctl'', [''daemon-reload''])] @ map (\<lambda>s. (''systemctl'', [''start'', found s])) ss"
      using o(1) by (simp add: f u(6) ts)
    have b: "\<exists>f. ma_disk m' installed_binary_path = Some f" using o(2) u(6) by auto
    show ?thesis unfolding service_call_def service_file_def service_text_def h init_system.case
      by (intro conjI ballI allI impI u(1) b e p, (rule exI)+, rule t) auto
  next
    case OpenRc
    then have h: "init_of H = OpenRc" using i by simp
    have "openrc_upgrade H ss m0 = (m', Inr x)" using s(2) by (simp add: OpenRc ss_def d)
    from openrc_upgrade_ok [OF this assms(4)] obtain mr m1 m2 m3 m5 exe n where u: "ho_euid H = 0"
      "ensure_openrc_runtime H m0 = (mr, Inr ())" "openrc_stop_all H ss mr = (m1, Inr ())"
      "deploy_binary H m1 = (m2, Inr exe)" "openrc_rewrite_all H exe ss m2 = (m3, Inr ())"
      "start_services_best_effort H ss m3 = (m5, Inr n)"
      "m' = m5\<lparr>ma_printed := ma_printed m5 @ [updated_line exe n]\<rparr>" by blast
    have r: "ma_disk mr p = ma_disk m p" if "p \<noteq> softlevel_path" for p
      using touchesD [OF openrc_runtime_frame u(2)] that by (simp add: d)
    obtain tr where tr: "ma_tools mr = ma_tools m @ tr" using ts openrc_runtime_tools [OF u(2)] by auto
    have sr: "rc_service_of (ma_disk mr) = rc_service_of (ma_disk m)"
      using rc.same_services_of [of "ma_disk mr" "ma_disk m"] r
      by (auto simp: rc.same_services_def path_exists_def fun_eq_iff)
    note o = rc.upgrade_ok [OF u(3-5) _ u(6), where mid = "[]", simplified, unfolded sr]
    have f: "found = rc_service_of (ma_disk m)" by (simp add: found_def service_found_def h fun_eq_iff)
    have e: "\<exists>f. ma_disk m' (initd_path (found s)) = Some f \<and>
        render_initd installed_binary_path (config_dir, fst s @ ''.toml'') (found s) = Inr (f_content f)"
      if "s \<in> set ss" "path_exists (ma_disk m) (initd_path (found s))" for s
      using o(3) [of s] that r [of "initd_path (found s)"] unfolding f u(7) by (simp add: path_exists_def)
    have p: "ma_disk m' p = ma_disk m p"
      if "p \<noteq> installed_binary_path" "p \<noteq> softlevel_path" "p \<notin> (\<lambda>s. initd_path (found s)) ` set ss" for p
      using o(4) [OF that(1)] that(3) r [OF that(2)] unfolding f u(7) by simp
    have t: "ma_tools m' = ma_tools m @ tr @ map (\<lambda>s. (''rc-service'', [found s, ''stop''])) ss @ deploy_calls @
        [] @ map (\<lambda>s. (''rc-service'', [found s, ''start''])) ss"
      using o(1) by (simp add: f u(7) tr)
    have b: "\<exists>f. ma_disk m' installed_binary_path = Some f" using o(2) u(7) by auto
    show ?thesis unfolding service_call_def service_file_def service_text_def h init_system.case
      by (intro conjI ballI allI impI u(1) b e p, (rule exI)+, rule t) auto
  qed
qed

section \<open>A sample\<close>

definition sample_host :: host where
  "sample_host =
     \<lparr>ho_euid = 0, ho_systemd = True,
      ho_run = (\<lambda>_ _. Inr \<lparr>ou_success = True, ou_stdout = ''active'', ou_stderr = []\<rparr>),
      ho_exe = Inr ([[], ''tmp''], ''rathole-x''), ho_write = (\<lambda>_. None), ho_open = (\<lambda>_. None),
      ho_chmod = (\<lambda>_. None), ho_unlink = (\<lambda>_. None), ho_mkdir = (\<lambda>_. None),
      ho_copy = (\<lambda>w src dest. case w src of
         None \<Rightarrow> Inl (\<lparr>ie_kind = NotFound, ie_text = []\<rparr>, None)
       | Some f \<Rightarrow> if src = dest then Inr (f\<lparr>f_content := []\<rparr>) else Inr f),
      ho_read_dir = (\<lambda>w d. Some (filter (\<lambda>f. w (d, f) \<noteq> None) [''a.toml'', ''version.toml''])),
      ho_mode = 420\<rparr>"

definition sample_machine :: computer where
  "sample_machine =
     \<lparr>ma_disk = sample_disk(([[], ''tmp''], ''rathole-x'') \<mapsto> \<lparr>f_content = ''elf'', f_mode = 0x1ED\<rparr>),
      ma_tools = [], ma_printed = []\<rparr>"

definition new_path :: path where
  "new_path = (config_dir, ''b.toml'')"

definition sample_install :: install_args where
  "sample_install =
     \<lparr>ia_role = Some Role_Server, ia_name = Some ''b'', ia_config = None, ia_allow_user_config = False,
      ia_yes = True, ia_json = True\<rparr>"

definition sample_uninstall :: uninstall_args where
  "sample_uninstall =
     \<lparr>ua_name = None, ua_config = Some new_path, ua_all = False, ua_purge = True, ua_yes = True, ua_json = True\<rparr>"

definition sample_service_run :: "service_cmd \<Rightarrow> computer \<Rightarrow> computer \<times> (anyhow + json)" where
  "sample_service_run cmd m =
     dispatch_service_command sample_editor sample_io sample_host sample_terminal (Inr [[], ''root'']) False cmd m"

lemma sample_host_simps [simp]:
  "ho_euid sample_host = 0" "ho_systemd sample_host" "ho_exe sample_host = Inr ([[], ''tmp''], ''rathole-x'')"
  "ho_write sample_host p = None" "ho_unlink sample_host p = None" "ho_mkdir sample_host d = None"
  by (simp_all add: sample_host_def)

text \<open>On this host every tool succeeds.\<close>

lemma sample_tools:
  "command_ok sample_host program args m = (m\<lparr>ma_tools := ma_tools m @ [(program, args)]\<rparr>, Inr ())"
  "run_reported sample_host program args m = (m\<lparr>ma_tools := ma_tools m @ [(program, args)]\<rparr>, Inr ())"
  "tool_succeeds sample_host program args m = (m\<lparr>ma_tools := ma_tools m @ [(program, args)]\<rparr>, Inr True)"
  by (simp_all add: command_ok_def run_reported_def tool_succeeds_def run_tool_def sample_host_def Let_def)

lemmas sample_act = act_bind_def act_context_def sample_tools ensure_root_def create_dir_all_def Let_def

lemma sample_account:
  "ensure_service_account sample_host m =
     (m\<lparr>ma_tools := ma_tools m @ [(''getent'', [''group'', SERVICE_GROUP]), (''getent'', [''passwd'', SERVICE_ACCOUNT])]\<rparr>, Inr ())"
  by (simp add: ensure_service_account_def exists_entry_def sample_act)

lemma sample_secure:
  "\<exists>t. secure_managed_config sample_host p m = (m\<lparr>ma_tools := ma_tools m @ t\<rparr>, Inr ())"
  by (auto simp: secure_managed_config_def owner_def sample_act)

lemma sample_stamp:
  "\<exists>t f. write_version_stamp sample_host semver config m =
     (m\<lparr>ma_disk := (ma_disk m)(version_path config \<mapsto> f), ma_tools := ma_tools m @ t\<rparr>, Inr ())"
proof -
  let ?f = "\<lparr>f_content = version_stamp semver, f_mode = (case ma_disk m (version_path config) of None \<Rightarrow> ho_mode sample_host | Some f \<Rightarrow> f_mode f)\<rparr>"
  obtain t where "secure_managed_config sample_host (version_path config)
      (m\<lparr>ma_disk := (ma_disk m)(version_path config \<mapsto> ?f)\<rparr>) =
    (m\<lparr>ma_disk := (ma_disk m)(version_path config \<mapsto> ?f)\<rparr>\<lparr>ma_tools :=
       ma_tools (m\<lparr>ma_disk := (ma_disk m)(version_path config \<mapsto> ?f)\<rparr>) @ t\<rparr>, Inr ())"
    using sample_secure by blast
  then show ?thesis
    by (intro exI [of _ t] exI [of _ ?f]) (simp add: write_version_stamp_def act_bind_def act_context_def write_file_def Let_def)
qed

lemma sample_deploy:
  assumes "ma_disk m ([[], ''tmp''], ''rathole-x'') = Some f"
  shows "\<exists>t. deploy_binary sample_host m =
    (m\<lparr>ma_disk := (ma_disk m)(installed_binary_path \<mapsto> f), ma_tools := ma_tools m @ t\<rparr>, Inr installed_binary_path)"
proof -
  have "ho_copy sample_host (ma_disk m) ([[], ''tmp''], ''rathole-x'') installed_binary_path = Inr f"
    using assms by (simp add: sample_host_def installed_binary_path_def)
  then show ?thesis by (auto simp: deploy_binary_def sample_act copy_file_def)
qed

lemma sample_install_service:
  assumes "ma_disk m ([[], ''tmp''], ''rathole-x'') = Some f"
    and "ma_disk m (unit_path (unit_name Role_Server ''b'')) = None"
  shows "\<exists>m'. install_service sample_host semver False Role_Server ''b'' new_path m = (m', Inr ())"
proof -
  have r: "\<exists>c. render_unit installed_binary_path new_path = Inr c"
    by (simp add: render_unit_def exec_path_arg_def Let_def)
      (simp add: display_path_def installed_binary_path_def new_path_def config_dir_def os_default_config_path_def join_str_def)
  then obtain c where r: "render_unit installed_binary_path new_path = Inr c" by blast
  have e: "([[], ''tmp''], ''rathole-x'') \<noteq> version_path new_path" by (simp add: version_path_def)
  obtain t1 where t1: "secure_managed_config sample_host new_path m1 = (m1\<lparr>ma_tools := ma_tools m1 @ t1 m1\<rparr>, Inr ())" for m1
    using sample_secure [of new_path] by metis
  obtain t2 where t2: "secure_managed_config sample_host (version_path new_path) m1 = (m1\<lparr>ma_tools := ma_tools m1 @ t2 m1\<rparr>, Inr ())" for m1
    using sample_secure [of "version_path new_path"] by metis
  obtain t3 f3 where t3: "write_version_stamp sample_host semver new_path m1 =
      (m1\<lparr>ma_disk := (ma_disk m1)(version_path new_path \<mapsto> f3 m1), ma_tools := ma_tools m1 @ t3 m1\<rparr>, Inr ())" for m1
    using sample_stamp [of semver new_path] by metis
  obtain t4 where t4: "ma_disk m1 ([[], ''tmp''], ''rathole-x'') = Some f \<Longrightarrow> deploy_binary sample_host m1 =
      (m1\<lparr>ma_disk := (ma_disk m1)(installed_binary_path \<mapsto> f), ma_tools := ma_tools m1 @ t4 m1\<rparr>, Inr installed_binary_path)" for m1
    using sample_deploy [of _ f] by metis
  show ?thesis
    by (simp add: install_service_def systemd_install_def init_def ensure_root_def act_bind_def sample_account t1 t2 t3 t4
        assms e r path_exists_def Let_def run_systemctl_def sample_tools act_context_def write_file_def)
qed

section \<open>Properties\<close>

text \<open>
  C26. A service command that fails or succeeds changes nothing but its own files: \<open>install\<close> the
  configuration with its temporary file, the version stamp, the deployed binary and the files of
  the new service; \<open>uninstall\<close> the stamp, the files of the services of that name and, with
  \<open>--purge\<close>, the configuration (with \<open>--all\<close> also the binary); the control commands nothing.
  Without root an installation changes at most the configuration it creates, and a removal at most
  version stamps (with \<open>--all\<close> also the binary, as far as the system permits it). Without a
  confirmation \<open>install\<close> and \<open>uninstall\<close> fail before they do anything, running no tool.
\<close>
theorem service_commands_contained:
  shows "(\<forall>p. p \<notin> command_files ED os H cwd cmd (ma_disk m) \<longrightarrow>
      ma_disk (fst (dispatch_service_command ED os H tm cwd confirmed cmd m)) p = ma_disk m p) \<and>
    (declined tm confirmed cmd \<longrightarrow>
      (\<exists>e. dispatch_service_command ED os H tm cwd confirmed cmd m = (m, Inl e)))"
  using dispatch_service_frame declined_nothing by blast

theorem service_commands_contained_witness:
  "ma_disk (fst (sample_service_run (Service_Install sample_install) sample_machine)) sample_path = sample_disk sample_path \<and>
   (\<exists>e. sample_service_run (Service_Install (sample_install\<lparr>ia_yes := False\<rparr>)) sample_machine = (sample_machine, Inl e))"
proof -
  have t: "install_target (Inr [[], ''root'']) sample_install = Inr (''b'', new_path)" by code_simp
  have a: "ia_role sample_install = Some Role_Server" by (simp add: sample_install_def)
  have p: "sample_path \<noteq> new_path" "sample_path \<noteq> tmp_path sample_io new_path" "sample_path \<noteq> version_path new_path"
    "sample_path \<noteq> installed_binary_path" "sample_path \<noteq> unit_path (unit_name Role_Server ''b'')" by code_simp+
  have "sample_path \<notin> command_files sample_editor sample_io sample_host (Inr [[], ''root'']) (Service_Install sample_install) (ma_disk sample_machine)"
    using p a by (simp add: command_files_def t install_files_def side_files_def service_file_def service_id_def init_of_def)
  moreover have "ma_disk sample_machine sample_path = sample_disk sample_path" by (simp add: sample_machine_def sample_path_def config_dir_def os_default_config_path_def)
  moreover have "declined sample_terminal False (Service_Install (sample_install\<lparr>ia_yes := False\<rparr>))"
    by (simp add: refused_def sample_install_def)
  ultimately show ?thesis
    using service_commands_contained [of sample_editor sample_io sample_host "Inr [[], ''root'']"] unfolding sample_service_run_def by metis
qed




definition served_machine :: computer where
  "served_machine = sample_machine\<lparr>ma_disk := (ma_disk sample_machine)(
     new_path \<mapsto> \<lparr>f_content = [], f_mode = 420\<rparr>, unit_path (unit_name Role_Server ''b'') \<mapsto> \<lparr>f_content = [], f_mode = 420\<rparr>)\<rparr>"

lemma sample_uninstall_ok:
  "is_ok (snd (uninstall_service sample_host True new_path served_machine))"
  by code_simp

lemma served_existing: "service_existing sample_host (ma_disk served_machine) ''b'' = Some (unit_name Role_Server ''b'')"
  by code_simp


text \<open>
  An \<open>upgrade\<close> that succeeds with services installed was run by root and confirmed. Every
  service is told to stop before the binary is replaced, and to start after its definition was
  rewritten for the deployed binary; nothing else on the disk changes.
\<close>
theorem service_upgrade_exact:
  assumes "run_upgrade ED os H tm confirmed yes json m = (m', Inr j)"
    and "list_installed_services ED os (ma_disk m) = ss" "ss \<noteq> []"
  shows "ho_euid H = 0 \<and> \<not> refused tm confirmed yes json \<and>
    (\<exists>before after. ma_tools m' = ma_tools m @ before @
       map (\<lambda>s. service_call H ''stop'' (service_found H (ma_disk m) s)) ss @ deploy_calls @
       after @ map (\<lambda>s. service_call H ''start'' (service_found H (ma_disk m) s)) ss) \<and>
    (\<forall>s \<in> set ss. path_exists (ma_disk m) (service_file H (service_found H (ma_disk m) s)) \<longrightarrow>
       (\<exists>f. ma_disk m' (service_file H (service_found H (ma_disk m) s)) = Some f \<and>
          service_text H (config_dir, fst s @ ''.toml'') (service_found H (ma_disk m) s) = Inr (f_content f))) \<and>
    (\<forall>p. p \<notin> {installed_binary_path, softlevel_path} \<union> (\<lambda>s. service_file H (service_found H (ma_disk m) s)) ` set ss \<longrightarrow>
       ma_disk m' p = ma_disk m p)"
proof -
  have conf: "\<not> refused tm confirmed yes json"
  proof
    assume "refused tm confirmed yes json"
    from confirm_refused(1) [OF this] obtain e where "snd (confirm_action tm yes json ''upgrade'' confirmed) = Inl e" by blast
    then show False using assms(1) by (simp add: run_upgrade_def)
  qed
  have "upgrade_binary ED os H m = (m', Inr ())"
    using assms(1) by (auto simp: run_upgrade_def confirm_refused(2) [OF conf] act_bind_Inr)
  from upgrade_binary_ok [OF this, unfolded assms(2), OF assms(3)] conf show ?thesis by auto
qed

definition upgrade_machine :: computer where
  "upgrade_machine = sample_machine\<lparr>ma_disk := (ma_disk sample_machine)(
     unit_path (unit_name Role_Server ''a'') \<mapsto> \<lparr>f_content = ''old'', f_mode = 420\<rparr>)\<rparr>"

lemma upgrade_services:
  "list_installed_services sample_editor sample_io (ma_disk upgrade_machine) = [(''a'', Role_Server)]"
  by code_simp

theorem service_upgrade_exact_witness:
  "\<exists>m' j f. run_upgrade sample_editor sample_io sample_host sample_terminal False True False upgrade_machine = (m', Inr j) \<and>
     ma_disk m' (unit_path (unit_name Role_Server ''a'')) = Some f \<and>
     render_unit installed_binary_path sample_path = Inr (f_content f)"
proof -
  let ?r = "run_upgrade sample_editor sample_io sample_host sample_terminal False True False upgrade_machine"
  have "is_ok (snd ?r)" by code_simp
  then obtain m' j where r: "?r = (m', Inr j)" by (cases ?r) (auto simp: is_ok_iff)
  have i: "init_of sample_host = Systemd" by (simp add: init_of_def)
  have u: "service_found sample_host (ma_disk upgrade_machine) (''a'', Role_Server) = unit_name Role_Server ''a''"
    "path_exists (ma_disk upgrade_machine) (unit_path (unit_name Role_Server ''a''))" by code_simp+
  have p: "(config_dir, ''a'' @ ''.toml'') = sample_path" by (simp add: sample_path_def)
  show ?thesis
    using service_upgrade_exact [OF r upgrade_services] r u p by (auto simp: service_file_def service_text_def i)
qed

text \<open>
  The unit of an installed service runs the deployed binary on the given configuration: a
  rendered unit has one line \<open>ExecStart=\<close> whose words, as systemd splits them, are the path of the
  binary, \<open>run\<close>, \<open>--config\<close> and the path of the configuration, blanks in them included.
\<close>
theorem unit_runs_the_binary:
  assumes "render_unit exe config = Inr body" "plain_path exe" "plain_path config"
  shows "\<exists>before line after. body = text_lines before @ ''ExecStart='' @ line @ CHR 10 # after \<and> CHR 10 \<notin> set line \<and>
    unit_words line = [display_path exe, ''run'', ''--config'', display_path config]"
proof -
  obtain e c where ec: "exec_path_arg exe = Inr e" "exec_path_arg config = Inr c" "body = unit_text e c"
    using assms(1) by (cases "exec_path_arg exe"; cases "exec_path_arg config") (auto simp: render_unit_def)
  let ?line = "e @ '' run --config '' @ c"
  have "\<exists>before after. unit_text e c = text_lines before @ ''ExecStart='' @ ?line @ CHR 10 # after"
  proof (intro exI)
    show "unit_text e c = text_lines
       [''[Unit]'', ''Description=rathole-x reverse proxy service (single role)'', ''After=network-online.target'',
        ''Wants=network-online.target'', [], ''[Service]'', ''Type=simple'', ''User='' @ SERVICE_ACCOUNT, ''Group='' @ SERVICE_GROUP]
       @ ''ExecStart='' @ ?line @ CHR 10 # text_lines
       [''Restart=on-failure'', ''RestartSec=3'', ''LimitNOFILE=1048576'', ''NoNewPrivileges=true'',
        ''CapabilityBoundingSet=CAP_NET_BIND_SERVICE'', ''AmbientCapabilities=CAP_NET_BIND_SERVICE'', ''PrivateTmp=true'',
        ''ProtectHome=true'', ''ProtectSystem=strict'', [], ''[Install]'', ''WantedBy=multi-user.target'']"
      by (simp add: unit_text_def text_lines_def)
  qed
  moreover have "CHR 10 \<notin> set a" if "exec_path_arg p = Inr a" "plain_path p" for p a
    using that by (auto simp: exec_path_arg_def plain_path_def Let_def split: if_splits)
  then have "CHR 10 \<notin> set ?line" using ec(1,2) assms(2,3) by auto
  ultimately show ?thesis using unit_words_line [OF ec(1,2) assms(2,3)] ec(3) by blast
qed

theorem unit_runs_the_binary_witness:
  "\<exists>body line. render_unit installed_binary_path ([[], ''srv'', ''my files''], ''a.toml'') = Inr body \<and>
     unit_words line = [''/usr/local/lib/rathole-x/rathole-x'', ''run'', ''--config'', ''/srv/my files/a.toml'']"
proof -
  let ?c = "([[], ''srv'', ''my files''], ''a.toml'') :: path"
  have "exec_path_arg installed_binary_path = Inr ''/usr/local/lib/rathole-x/rathole-x''"
    "exec_path_arg ?c = Inr (CHR 34 # ''/srv/my files/a.toml'' @ [CHR 34])" by code_simp+
  then have r: "\<exists>body. render_unit installed_binary_path ?c = Inr body" by (simp add: render_unit_def)
  have p: "plain_path installed_binary_path" "plain_path ?c" "display_path ?c = ''/srv/my files/a.toml''"
    "display_path installed_binary_path = ''/usr/local/lib/rathole-x/rathole-x''"
    by (simp_all add: plain_path_def display_path_def installed_binary_path_def join_str_def)
  from r obtain body where "render_unit installed_binary_path ?c = Inr body" by blast
  from unit_runs_the_binary [OF this p(1,2)] show ?thesis using r p by metis
qed

end
