(* ===== verification/Status_Endpoint.thy ===== *)
theory Status_Endpoint
  imports Runtime_Status Server
begin

text \<open>
  The local status endpoint of \<open>src/platform/linux.rs\<close>: the server that answers a request with a
  snapshot of the registry, and the query of \<open>rathole-x status\<close>. A connection is the bytes that
  arrive on it before its end; serializing and parsing a snapshot (\<open>serde_json\<close>) are parameters.
\<close>

section \<open>The server\<close>

definition answer_status_request ::
  "(runtime_snapshot \<Rightarrow> string + bytes) \<Rightarrow> u64 \<Rightarrow> runtime_snapshot \<Rightarrow> bytes \<Rightarrow> bytes" where
  "answer_status_request to_vec now registry input =
     (let request = bytes_of_str STATUS_REQUEST in
      if length input < length request \<or> take (length request) input \<noteq> request then []
      else case to_vec (snapshot now registry) of
        Inl e \<Rightarrow> []
      | Inr response \<Rightarrow>
          if length response \<le> MAX_STATUS_RESPONSE then le_bytes 4 (length response) @ response else [])"

text \<open>
  The accept loop: every accepted connection is answered by a task of its own, here with the
  registry at that time; it ends at the shutdown or when accepting fails.
\<close>

datatype endpoint_event =
    Accepted u64 runtime_snapshot bytes
  | Accept_Failed
  | Endpoint_Shutdown

fun status_endpoint :: "(runtime_snapshot \<Rightarrow> string + bytes) \<Rightarrow> endpoint_event list \<Rightarrow> bytes list" where
  "status_endpoint to_vec [] = []"
| "status_endpoint to_vec (Accepted now registry input # es) =
     answer_status_request to_vec now registry input # status_endpoint to_vec es"
| "status_endpoint to_vec (Accept_Failed # es) = []"
| "status_endpoint to_vec (Endpoint_Shutdown # es) = []"

text \<open>The result is the abstract name the endpoint is bound to; binding fails when it is in use.\<close>

definition spawn_runtime_status_server ::
  "(string \<Rightarrow> bytes) \<Rightarrow> (string \<Rightarrow> string option) \<Rightarrow> string option \<Rightarrow> (string \<Rightarrow> anyhow + unit) \<Rightarrow>
   anyhow + unit \<Rightarrow> anyhow + unit \<Rightarrow> string \<Rightarrow> anyhow + string" where
  "spawn_runtime_status_server sha canonicalize cwd binding nonblocking adopt config_path =
     (let name = status_name_for_config sha canonicalize cwd config_path in
      rbind (with_context (Ctx ''failed to bind runtime status endpoint'') (binding name)) (\<lambda>_.
      rbind (with_context (Ctx ''failed to configure runtime status endpoint'') nonblocking) (\<lambda>_.
      rbind (with_context (Ctx ''failed to adopt status endpoint'') adopt) (\<lambda>_. Inr name))))"

section \<open>The query\<close>

text \<open>What the query's connection does: the calls that fail, and what arrives.\<close>

record status_conn =
  sn_connect :: "anyhow option"
  sn_write :: "anyhow option"
  sn_flush :: "anyhow option"
  sn_reply :: bytes

definition take_exact :: "nat \<Rightarrow> bytes \<Rightarrow> (bytes \<times> bytes) option" where
  "take_exact n bs = (if length bs < n then None else Some (take n bs, drop n bs))"

definition step_ok :: "string \<Rightarrow> anyhow option \<Rightarrow> anyhow + unit" where
  "step_ok c e = (case e of None \<Rightarrow> Inr () | Some e \<Rightarrow> Inl (Ctx c e))"

definition end_of_file :: anyhow where
  "end_of_file = Err ''failed to fill whole buffer''"

definition read_status :: "(bytes \<Rightarrow> anyhow + runtime_snapshot) \<Rightarrow> bytes \<Rightarrow> anyhow + runtime_snapshot" where
  "read_status from_slice reply =
     (case take_exact 4 reply of
        None \<Rightarrow> Inl (Ctx ''failed to read runtime status response length'' end_of_file)
      | Some (l, rest) \<Rightarrow>
          (let n = le_val l in
           if n > MAX_STATUS_RESPONSE then Inl (Err ''runtime status response exceeds the maximum size'')
           else case take_exact n rest of
             None \<Rightarrow> Inl (Ctx ''failed to read runtime status response'' end_of_file)
           | Some (response, _) \<Rightarrow> with_context (Ctx ''invalid runtime status response'') (from_slice response)))"

definition query_runtime_status ::
  "(bytes \<Rightarrow> anyhow + runtime_snapshot) \<Rightarrow> status_conn \<Rightarrow> string \<Rightarrow> anyhow + runtime_snapshot" where
  "query_runtime_status from_slice conn config_path =
     rbind (step_ok (''runtime status unavailable for '' @ config_path) (sn_connect conn)) (\<lambda>_.
     rbind (step_ok ''failed to request runtime status'' (sn_write conn)) (\<lambda>_.
     rbind (step_ok ''failed to flush runtime status request'' (sn_flush conn)) (\<lambda>_.
     read_status from_slice (sn_reply conn))))"

definition status_request :: bytes where
  "status_request = bytes_of_str STATUS_REQUEST"

text \<open>The connection of a query to an endpoint that answers it.\<close>

definition answered :: "(runtime_snapshot \<Rightarrow> string + bytes) \<Rightarrow> u64 \<Rightarrow> runtime_snapshot \<Rightarrow> status_conn" where
  "answered to_vec now registry =
     \<lparr>sn_connect = None, sn_write = None, sn_flush = None,
      sn_reply = answer_status_request to_vec now registry status_request\<rparr>"

lemma answer_request:
  "answer_status_request to_vec now registry status_request =
     (case to_vec (snapshot now registry) of
        Inl e \<Rightarrow> []
      | Inr response \<Rightarrow>
          if length response \<le> MAX_STATUS_RESPONSE then le_bytes 4 (length response) @ response else [])"
  by (simp add: answer_status_request_def status_request_def Let_def split: sum.split)

lemma reply_append [simp]: "length a = n \<Longrightarrow> take_exact n (a @ b) = Some (a, b)"
  by (simp add: take_exact_def)

lemma query_reply:
  assumes "sn_connect conn = None" "sn_write conn = None" "sn_flush conn = None"
    and "sn_reply conn = le_bytes 4 (length r) @ r @ rest" "length r \<le> MAX_STATUS_RESPONSE"
  shows "query_runtime_status from_slice conn p = with_context (Ctx ''invalid runtime status response'') (from_slice r)"
proof -
  have "le_val (le_bytes 4 (length r)) = length r"
    using assms(5) by (intro le_val_small) (simp add: MAX_STATUS_RESPONSE_def)
  then show ?thesis using assms by (simp add: query_runtime_status_def read_status_def step_ok_def Let_def)
qed

text \<open>The answer depends on the first bytes of a reply only, at most the bound and its header.\<close>

lemma query_bounded:
  assumes "take (4 + MAX_STATUS_RESPONSE) (sn_reply conn) = take (4 + MAX_STATUS_RESPONSE) (sn_reply conn')"
    and "sn_connect conn = sn_connect conn'" "sn_write conn = sn_write conn'" "sn_flush conn = sn_flush conn'"
  shows "query_runtime_status from_slice conn p = query_runtime_status from_slice conn' p"
proof -
  let ?a = "sn_reply conn" and ?b = "sn_reply conn'"
  have len: "length ?a < n \<longleftrightarrow> length ?b < n" if "n \<le> 4 + MAX_STATUS_RESPONSE" for n
    using arg_cong [OF assms(1), of length] that by auto
  have tk: "take n ?a = take n ?b" if "n \<le> 4 + MAX_STATUS_RESPONSE" for n
    using arg_cong [OF assms(1), of "take n"] that by (simp add: min_def)
  have "take_exact 4 ?a = None \<longleftrightarrow> take_exact 4 ?b = None" using len [of 4] by (simp add: take_exact_def)
  then have "read_status from_slice ?a = read_status from_slice ?b"
  proof (cases "take_exact 4 ?a")
    case (Some x)
    then have l: "4 \<le> length ?a" "4 \<le> length ?b" "x = (take 4 ?a, drop 4 ?a)" "take_exact 4 ?b = Some (take 4 ?a, drop 4 ?b)"
      using len [of 4] tk [of 4] by (auto simp: take_exact_def split: if_splits)
    let ?n = "le_val (take 4 ?a)"
    show ?thesis
    proof (cases "?n \<le> MAX_STATUS_RESPONSE")
      case True
      have m: "map_option fst (take_exact ?n (drop 4 ?a)) = map_option fst (take_exact ?n (drop 4 ?b))"
        using len [of "4 + ?n"] tk [of "4 + ?n"] l(1,2) True
        by (auto simp: take_exact_def take_drop add.commute)
      then show ?thesis using True l Some
        by (cases "take_exact ?n (drop 4 ?a)"; cases "take_exact ?n (drop 4 ?b)")
          (auto simp: read_status_def Let_def split: prod.split)
    qed (simp add: read_status_def Some l Let_def)
  qed (simp add: read_status_def)
  then show ?thesis using assms(2-4) by (simp add: query_runtime_status_def)
qed

section \<open>Properties\<close>


text \<open>A serializer for one registry.\<close>

definition sample_to_vec :: "runtime_snapshot \<Rightarrow> string + bytes" where
  "sample_to_vec s = (if s = client_registry 1 5 [] [] then Inr [1, 2] else Inl [])"


end
