(* ===== verification/Status_View.thy ===== *)
theory Status_View
  imports Runtime_Status Linux_Host
begin

text \<open>
  \<open>src/status.rs\<close>: what \<open>rathole-x status\<close> shows of a service, as a tree for people and as JSON.
  Parameters are the terminal (\<open>tty\<close>, whether colours are written), the printer of socket
  addresses, the query of the runtime endpoint, the state of a service from the init system, and
  the JSON of a snapshot (\<open>serde_json\<close>). The result is what is printed and the JSON; objects have
  their fields in the order the code writes them.
\<close>

section \<open>The tree\<close>

datatype node = Node (node_label: string) (node_children: "node list")

definition GREEN :: string where "GREEN = ''32''"

definition RED :: string where "RED = ''31''"

definition YELLOW :: string where "YELLOW = ''33''"

definition DIM :: string where "DIM = ''2''"

definition VIEW_HEARTBEAT_TIMEOUT :: u64 where "VIEW_HEARTBEAT_TIMEOUT = 40"

definition VIEW_RETRY_INTERVAL :: u64 where "VIEW_RETRY_INTERVAL = 1"

definition VIEW_HEARTBEAT_INTERVAL :: u64 where "VIEW_HEARTBEAT_INTERVAL = 30"

definition colorize :: "bool \<Rightarrow> string \<Rightarrow> string \<Rightarrow> string" where
  "colorize tty s code = (if tty then CHR 27 # ''['' @ code @ ''m'' @ s @ CHR 27 # ''[0m'' else s)"

text \<open>Box-drawing characters in UTF-8.\<close>

definition bar :: string where "bar = [CHR 226, CHR 148, CHR 128]"

definition last_branch :: string where "last_branch = [CHR 226, CHR 148, CHR 148] @ bar @ bar @ '' ''"

definition inner_branch :: string where "inner_branch = [CHR 226, CHR 148, CHR 156] @ bar @ bar @ '' ''"

definition inner_prefix :: string where "inner_prefix = [CHR 226, CHR 148, CHR 130] @ ''   ''"

definition arrow :: string where "arrow = '' '' @ [CHR 226, CHR 134, CHR 146] @ '' ''"

definition dash :: string where "dash = '' '' @ [CHR 226, CHR 128, CHR 148] @ '' ''"

fun render_tree :: "node \<Rightarrow> string \<Rightarrow> bool \<Rightarrow> string"
  and render_children :: "node list \<Rightarrow> string \<Rightarrow> string" where
  "render_tree (Node label children) prefix is_last =
     prefix @ (if is_last then last_branch else inner_branch) @ label @ [CHR 10] @
     render_children children (prefix @ (if is_last then ''    '' else inner_prefix))"
| "render_children [] prefix = []"
| "render_children (n # ns) prefix = render_tree n prefix (ns = []) @ render_children ns prefix"

definition mask_text :: string where
  "mask_text = concat (replicate 4 [CHR 226, CHR 128, CHR 162])"

fun transport_label :: "transport_type \<Rightarrow> string" where
  "transport_label T_Tcp = ''tcp''"
| "transport_label T_Tls = ''tls''"
| "transport_label T_Noise = ''noise''"
| "transport_label T_Websocket = ''websocket''"

definition transport_detail :: "transport_config \<Rightarrow> string option" where
  "transport_detail t =
     (case tr_type t of
        T_Noise \<Rightarrow>
          if pred_option (\<lambda>n. noise_local_private_key n \<noteq> None) (tr_noise t) \<and> tr_noise t \<noteq> None then Some (''local key '' @ mask_text)
          else if pred_option (\<lambda>n. noise_remote_public_key n \<noteq> None) (tr_noise t) \<and> tr_noise t \<noteq> None
          then Some (''remote key '' @ mask_text)
          else None
      | T_Tls \<Rightarrow> Option.bind (tr_tls t) (\<lambda>tls.
          case tls_pkcs12 tls of
            Some p \<Rightarrow> Some (''pkcs12 '' @ p)
          | None \<Rightarrow> map_option (\<lambda>r. ''trusted_root '' @ r) (tls_trusted_root tls))
      | T_Websocket \<Rightarrow> map_option (\<lambda>w. ''tls = '' @ (if ws_tls w then ''true'' else ''false'')) (tr_websocket t)
      | T_Tcp \<Rightarrow> None)"

section \<open>Badges\<close>

definition status_badge :: "bool \<Rightarrow> bool \<Rightarrow> string" where
  "status_badge tty ok = colorize tty (if ok then ''status: ok'' else ''status: error'') (if ok then GREEN else RED)"

definition state_badge :: "bool \<Rightarrow> string \<Rightarrow> string \<Rightarrow> string" where
  "state_badge tty s code = colorize tty (''status: '' @ s) code"

definition status_unknown :: "bool \<Rightarrow> string" where
  "status_unknown tty = colorize tty ''status: unknown'' YELLOW"

definition brackets :: "string \<Rightarrow> string" where
  "brackets s = '' ['' @ s @ '']''"

definition client_service_detail :: "bool \<Rightarrow> runtime_snapshot option \<Rightarrow> string \<Rightarrow> string" where
  "client_service_detail tty runtime name =
     brackets (case runtime of
        None \<Rightarrow> status_unknown tty
      | Some s \<Rightarrow>
          (case rs_services s name of
             Some (Client c) \<Rightarrow>
               (case cs_state c of
                  C_Connected \<Rightarrow> status_badge tty True
                | C_Connecting \<Rightarrow> state_badge tty ''connecting'' YELLOW
                | C_Retrying \<Rightarrow> state_badge tty ''retrying'' YELLOW
                | C_Stopped \<Rightarrow> state_badge tty ''stopped'' DIM)
           | _ \<Rightarrow> status_unknown tty))"

definition server_service_detail ::
  "bool \<Rightarrow> (socket_addr \<Rightarrow> string) \<Rightarrow> runtime_snapshot option \<Rightarrow> string \<Rightarrow> string" where
  "server_service_detail tty ad runtime name =
     brackets (case runtime of
        None \<Rightarrow> status_unknown tty
      | Some s \<Rightarrow>
          (case rs_services s name of
             Some (Server c) \<Rightarrow>
               (case ss_state c of
                  S_Connected \<Rightarrow> status_badge tty True @
                    (case control_channel_source c of None \<Rightarrow> [] | Some a \<Rightarrow> '' [client: '' @ ad a @ '']'')
                | S_Waiting \<Rightarrow> state_badge tty ''waiting'' YELLOW
                | S_Stopped \<Rightarrow> state_badge tty ''stopped'' DIM)
           | _ \<Rightarrow> status_unknown tty))"

text \<open>
  \<open>find_map\<close> over a map in the order of its keys: the first connected service with an address; the
  flags say whether a connecting or retrying, or a stopped one, was met before.
\<close>

fun remote_scan :: "runtime_service_snapshot list \<Rightarrow> bool \<times> bool \<Rightarrow> socket_addr option \<times> bool \<times> bool" where
  "remote_scan [] (connecting, stopped) = (None, connecting, stopped)"
| "remote_scan (x # xs) (connecting, stopped) =
     (case x of
        Client c \<Rightarrow>
          (case cs_state c of
             C_Connected \<Rightarrow>
               (case resolved_control_target c of
                  Some a \<Rightarrow> (Some a, connecting, stopped)
                | None \<Rightarrow> remote_scan xs (connecting, stopped))
           | C_Stopped \<Rightarrow> remote_scan xs (connecting, True)
           | _ \<Rightarrow> remote_scan xs (True, stopped))
      | Server s \<Rightarrow> remote_scan xs (connecting, stopped))"

definition service_values :: "runtime_snapshot \<Rightarrow> runtime_service_snapshot list" where
  "service_values s = List.map_filter (rs_services s) (sorted_list_of_set (dom (rs_services s)))"

definition client_remote_detail :: "bool \<Rightarrow> (socket_addr \<Rightarrow> string) \<Rightarrow> runtime_snapshot option \<Rightarrow> string" where
  "client_remote_detail tty ad runtime =
     (case runtime of
        None \<Rightarrow> brackets (status_unknown tty)
      | Some s \<Rightarrow>
          (case remote_scan (service_values s) (False, False) of
             (Some a, _) \<Rightarrow> brackets (status_badge tty True) @ brackets (''resolved: '' @ ad a)
           | (None, connecting, stopped) \<Rightarrow>
               brackets (if connecting then state_badge tty ''connecting'' YELLOW
                         else if stopped then state_badge tty ''stopped'' DIM
                         else status_unknown tty)))"

definition server_bind_detail :: "bool \<Rightarrow> runtime_snapshot option \<Rightarrow> string" where
  "server_bind_detail tty runtime =
     brackets (case runtime of
        None \<Rightarrow> status_unknown tty
      | Some s \<Rightarrow>
          (case map_option sl_state (rs_server_listener s) of
             Some L_Listening \<Rightarrow> status_badge tty True
           | Some L_Pending \<Rightarrow> state_badge tty ''pending'' YELLOW
           | Some L_Error \<Rightarrow> status_badge tty False
           | Some L_Stopped \<Rightarrow> state_badge tty ''stopped'' DIM
           | None \<Rightarrow> status_unknown tty))"

section \<open>A configuration\<close>

definition leaf_if :: "bool \<Rightarrow> string \<Rightarrow> node list" where
  "leaf_if b s = (if b then [Node s []] else [])"

definition u64_text :: "u64 \<Rightarrow> string" where
  "u64_text n = string_of_nat (unat n)"

definition transport_nodes :: "bool \<Rightarrow> transport_config \<Rightarrow> node list" where
  "transport_nodes tty t =
     Node (''transport   = '' @ transport_label (tr_type t)) [] #
     (case transport_detail t of None \<Rightarrow> [] | Some d \<Rightarrow> [Node (''transport detail = '' @ colorize tty d DIM) []])"

definition service_label :: "string \<Rightarrow> string \<Rightarrow> service_type \<Rightarrow> masked_string option \<Rightarrow> string \<Rightarrow> string" where
  "service_label name addr type token detail =
     name @ arrow @ addr @ (if type = Udp then '' [udp]'' else []) @
     (if token \<noteq> None then '' [token '' @ mask_text @ '']'' else []) @ detail"

definition services_node :: "('a \<Rightarrow> string \<Rightarrow> string) \<Rightarrow> (string \<times> 'a) list \<Rightarrow> node" where
  "services_node label services =
     Node (''services ('' @ string_of_nat (length services) @ '')'')
       (map (\<lambda>(name, s). Node (label s name) []) (sort_key fst services))"

definition client_node :: "bool \<Rightarrow> (socket_addr \<Rightarrow> string) \<Rightarrow> client_config \<Rightarrow> runtime_snapshot option \<Rightarrow> node" where
  "client_node tty ad c runtime =
     Node (colorize tty ''[client]'' GREEN)
       ([Node (''remote_addr = '' @ cc_remote_addr c @ client_remote_detail tty ad runtime) []] @
        transport_nodes tty (cc_transport c) @
        leaf_if (cc_prefer_ipv6 c = Some True) ''prefer_ipv6 = true'' @
        leaf_if (cc_heartbeat_timeout c \<noteq> VIEW_HEARTBEAT_TIMEOUT) (''heartbeat_timeout = '' @ u64_text (cc_heartbeat_timeout c)) @
        leaf_if (cc_retry_interval c \<noteq> VIEW_RETRY_INTERVAL) (''retry_interval = '' @ u64_text (cc_retry_interval c)) @
        leaf_if (cc_default_token c \<noteq> None) (''default_token = '' @ mask_text) @
        [services_node (\<lambda>s name. service_label name (csc_local_addr s) (csc_service_type s) (csc_token s)
           (client_service_detail tty runtime name)) (cc_services c)])"

definition server_node :: "bool \<Rightarrow> (socket_addr \<Rightarrow> string) \<Rightarrow> server_config \<Rightarrow> runtime_snapshot option \<Rightarrow> node" where
  "server_node tty ad s runtime =
     Node (colorize tty ''[server]'' GREEN)
       ([Node (''bind_addr   = '' @ sc_bind_addr s @ server_bind_detail tty runtime) []] @
        transport_nodes tty (sc_transport s) @
        leaf_if (sc_heartbeat_interval s \<noteq> VIEW_HEARTBEAT_INTERVAL) (''heartbeat_interval = '' @ u64_text (sc_heartbeat_interval s)) @
        leaf_if (sc_default_token s \<noteq> None) (''default_token = '' @ mask_text) @
        [services_node (\<lambda>s name. service_label name (ssc_bind_addr s) (ssc_service_type s) (ssc_token s)
           (server_service_detail tty ad runtime name)) (sc_services s)])"

fun service_type_text :: "service_type \<Rightarrow> string" where
  "service_type_text Tcp = ''tcp''"
| "service_type_text Udp = ''udp''"

definition services_json :: "('a \<Rightarrow> json) \<Rightarrow> (string \<times> 'a) list \<Rightarrow> json" where
  "services_json f services = J_Object (map (\<lambda>(name, s). (name, f s)) (sort_key fst services))"

definition client_json :: "client_config \<Rightarrow> json" where
  "client_json c =
     J_Object
       [(''remote_addr'', J_String (cc_remote_addr c)),
        (''transport'', J_String (transport_label (tr_type (cc_transport c)))),
        (''default_token_set'', J_Bool (cc_default_token c \<noteq> None)),
        (''services'', services_json (\<lambda>s. J_Object
          [(''local_addr'', J_String (csc_local_addr s)), (''type'', J_String (service_type_text (csc_service_type s))),
           (''token_set'', J_Bool (csc_token s \<noteq> None))]) (cc_services c))]"

definition server_json :: "server_config \<Rightarrow> json" where
  "server_json s =
     J_Object
       [(''bind_addr'', J_String (sc_bind_addr s)),
        (''transport'', J_String (transport_label (tr_type (sc_transport s)))),
        (''default_token_set'', J_Bool (sc_default_token s \<noteq> None)),
        (''services'', services_json (\<lambda>s. J_Object
          [(''bind_addr'', J_String (ssc_bind_addr s)), (''type'', J_String (service_type_text (ssc_service_type s))),
           (''token_set'', J_Bool (ssc_token s \<noteq> None))]) (sc_services s))]"

section \<open>The command\<close>

text \<open>
  What the command asks: the runtime endpoint of a configuration, the JSON of a snapshot, the state
  of a service (by its role and name), the parser of a configuration, which files can be read.
\<close>

type_synonym service_state = "(string \<times> u32 option) option"

record status_env =
  se_tty :: bool
  se_addr :: "socket_addr \<Rightarrow> string"
  se_runtime :: "path \<Rightarrow> anyhow + runtime_snapshot"
  se_json :: "runtime_snapshot \<Rightarrow> string + json"
  se_service :: "string \<Rightarrow> string \<Rightarrow> service_state"

definition runtime_status_for :: "status_env \<Rightarrow> path \<Rightarrow> json \<times> runtime_snapshot option \<times> string option" where
  "runtime_status_for V p =
     (case se_runtime V p of
        Inr s \<Rightarrow>
          (case se_json V s of
             Inr v \<Rightarrow> (v, Some s, None)
           | Inl e \<Rightarrow> (J_Null, None, Some (''invalid local snapshot: '' @ e)))
      | Inl e \<Rightarrow> (J_Null, None, Some (''local endpoint unavailable: '' @ err_display e)))"

fun runtime_role_text :: "runtime_role \<Rightarrow> string" where
  "runtime_role_text runtime_role.Role_Client = ''client''"
| "runtime_role_text runtime_role.Role_Server = ''server''"

definition runtime_line :: "bool \<Rightarrow> runtime_snapshot option \<Rightarrow> string option \<Rightarrow> string" where
  "runtime_line tty runtime unavailable =
     (case runtime of
        Some s \<Rightarrow> ''Runtime: '' @ runtime_role_text (rs_role s) @ '' (pid '' @ string_of_nat (unat (rs_process_id s)) @
          '', snapshot '' @ u64_text (rs_captured_at_unix_ms s) @ '')''
      | None \<Rightarrow> ''Runtime: '' @ colorize tty (''unavailable'' @ dash @
          (case unavailable of Some u \<Rightarrow> u | None \<Rightarrow> ''local endpoint did not return a snapshot'')) YELLOW)"

definition json_opt :: "('a \<Rightarrow> json) \<Rightarrow> 'a option \<Rightarrow> json" where
  "json_opt f x = (case x of None \<Rightarrow> J_Null | Some y \<Rightarrow> f y)"

definition pid_json :: "service_state \<Rightarrow> json" where
  "pid_json s = json_opt (\<lambda>p. J_Int (uint p)) (Option.bind s snd)"

definition state_json :: "service_state \<Rightarrow> json" where
  "state_json s = json_opt (\<lambda>x. J_String (fst x)) s"

definition availability_json :: "runtime_snapshot option \<Rightarrow> string option \<Rightarrow> json" where
  "availability_json snap reason =
     J_Object [(''available'', J_Bool (snap \<noteq> None)), (''reason'', json_opt J_String reason)]"

definition config_access :: "io_error + string \<Rightarrow> string" where
  "config_access r =
     (case r of Inr _ \<Rightarrow> ''readable'' | Inl e \<Rightarrow> if ie_kind e = NotFound then ''missing'' else ''denied'')"

definition service_line :: "bool \<Rightarrow> string \<Rightarrow> service_state \<Rightarrow> bool \<Rightarrow> string" where
  "service_line tty name service state_known =
     ''Service: '' @ name @ dash @
     (case service of
        Some (state, pid) \<Rightarrow>
          colorize tty state (if state = ''Running'' then GREEN else if state = ''Stopped'' then RED else YELLOW) @
          (case pid of Some p \<Rightarrow> '' (pid '' @ string_of_nat (unat p) @ '')'' | None \<Rightarrow> [])
      | None \<Rightarrow> colorize tty (if state_known then ''not installed''
          else ''unknown (config outside the service directory)'') YELLOW)"

definition config_tree :: "status_env \<Rightarrow> config \<Rightarrow> runtime_snapshot option \<Rightarrow> node" where
  "config_tree V config runtime =
     Node (colorize (se_tty V) ''config'' GREEN)
       ((case cfg_client config of None \<Rightarrow> [] | Some c \<Rightarrow> [client_node (se_tty V) (se_addr V) c runtime]) @
        (case cfg_server config of None \<Rightarrow> [] | Some s \<Rightarrow> [server_node (se_tty V) (se_addr V) s runtime]))"

definition unusable_hint :: "string \<Rightarrow> string" where
  "unusable_hint access =
     (if access = ''missing'' then ''config file missing'' @ dash @ ''run `rathole-x service install server|client --yes`''
      else if access = ''denied'' then ''config permission denied'' @ dash @
        ''static config tree hidden; service and runtime state above remain readable''
      else ''invalid configuration'' @ dash @ ''run `rathole-x config set` or fix the file'')"

definition status_json ::
  "status_env \<Rightarrow> string \<Rightarrow> path \<Rightarrow> service_state \<Rightarrow> io_error + string \<Rightarrow> config option \<Rightarrow> bool \<times> bool \<Rightarrow>
   json \<times> runtime_snapshot option \<times> string option \<Rightarrow> json" where
  "status_json V name p service r parsed auth rt =
     J_Object
       [(''service'', J_Object [(''name'', J_String name), (''state'', state_json service), (''pid'', pid_json service)]),
        (''config'', J_Object
          [(''path'', J_String (display_path p)), (''exists'', J_Bool (is_ok r)), (''readable'', J_Bool (is_ok r)),
           (''access'', J_String (config_access r)), (''valid'', J_Bool (parsed \<noteq> None)),
           (''auth'', J_Object [(''version_file_exists'', J_Bool (fst auth)), (''writable_by_user'', J_Bool (snd auth))])]),
        (''client'', json_opt client_json (Option.bind parsed cfg_client)),
        (''server'', json_opt server_json (Option.bind parsed cfg_server)),
        (''runtime'', fst rt),
        (''runtime_availability'', availability_json (fst (snd rt)) (snd (snd rt)))]"

definition status_text ::
  "status_env \<Rightarrow> string \<Rightarrow> path \<Rightarrow> service_state \<Rightarrow> bool \<Rightarrow> io_error + string \<Rightarrow> config option \<Rightarrow> bool \<times> bool \<Rightarrow>
   json \<times> runtime_snapshot option \<times> string option \<Rightarrow> string" where
  "status_text V name p service state_known r parsed auth rt =
     text_lines
       [colorize (se_tty V) (''rathole-x status: '' @ name) GREEN,
        [],
        service_line (se_tty V) name service state_known,
        ''Config:  '' @ display_path p,
        ''Auth:    version stamp: '' @ (if fst auth then ''yes'' else ''none'') @ '' | writable by you: '' @
          (if snd auth then ''yes'' else ''no (UAC)''),
        runtime_line (se_tty V) (fst (snd rt)) (snd (snd rt)),
        []] @
     (case parsed of
        Some config \<Rightarrow> render_tree (config_tree V config (fst (snd rt))) [] True
      | None \<Rightarrow> text_lines [colorize (se_tty V) (unusable_hint (config_access r)) YELLOW])"

text \<open>Whether the configuration is writable is found out with a probe file, so the disk is a result.\<close>

definition render_one ::
  "editor \<Rightarrow> io \<Rightarrow> status_env \<Rightarrow> bool \<Rightarrow> string \<Rightarrow> path \<Rightarrow> service_state \<Rightarrow> bool \<Rightarrow> disk \<Rightarrow> disk \<times> string \<times> json" where
  "render_one ED os V json name p service state_known w =
     (let r = read_to_string os w p;
          parsed = (case r of Inl _ \<Rightarrow> None | Inr content \<Rightarrow> ok_option (ed_config ED content));
          stamp = path_exists w (version_path p) in
      case writable_by_current_user os p w of
        (w', writable) \<Rightarrow>
          (let rt = runtime_status_for V p in
           (w', if json then [] else status_text V name p service state_known r parsed (stamp, writable) rt,
            status_json V name p service r parsed (stamp, writable) rt)))"

definition service_state_for :: "editor \<Rightarrow> io \<Rightarrow> status_env \<Rightarrow> string \<Rightarrow> path \<Rightarrow> disk \<Rightarrow> service_state" where
  "service_state_for ED os V name p w =
     Option.bind (Option.bind (ok_option (read_to_string os w p)) (\<lambda>c. ok_option (ed_config ED c)))
       (\<lambda>c. se_service V (role_key (if cfg_client c \<noteq> None then service_role.Role_Client else service_role.Role_Server)) name)"

fun json_field :: "json \<Rightarrow> string \<Rightarrow> json option" where
  "json_field (J_Object kvs) k = map_of kvs k"
| "json_field _ k = None"

fun json_str :: "json \<Rightarrow> string option" where
  "json_str (J_String s) = Some s"
| "json_str _ = None"

definition pad :: "nat \<Rightarrow> string \<Rightarrow> string" where
  "pad n s = s @ replicate (n - length (filter (\<lambda>c. \<not> utf8_continuation c) s)) CHR '' ''"

definition list_entry_json :: "status_env \<Rightarrow> string \<times> service_role \<Rightarrow> json" where
  "list_entry_json V x =
     (let svc = se_service V (role_key (snd x)) (fst x);
          rt = runtime_status_for V (config_dir, fst x @ ''.toml'') in
      J_Object
        [(''name'', J_String (fst x)), (''role'', J_String (role_key (snd x))), (''state'', state_json svc),
         (''pid'', pid_json svc), (''runtime'', fst rt),
         (''runtime_availability'', availability_json (fst (snd rt)) (snd (snd rt)))])"

definition list_entry_line :: "status_env \<Rightarrow> string \<times> service_role \<Rightarrow> json \<Rightarrow> string" where
  "list_entry_line V x detail =
     pad 12 (fst x) @ '' '' @ pad 8 (role_key (snd x)) @ '' '' @
     (case se_service V (role_key (snd x)) (fst x) of
        Some (s, Some pid) \<Rightarrow> s @ '' (pid '' @ string_of_nat (unat pid) @ '')''
      | Some (s, None) \<Rightarrow> s
      | None \<Rightarrow> ''not installed'') @ '' | '' @
     (case Option.bind (Option.bind (json_field detail ''runtime'') (\<lambda>r. json_field r ''role'')) json_str of
        Some role \<Rightarrow> ''runtime '' @ role
      | None \<Rightarrow> ''runtime unavailable'')"

definition list_text :: "status_env \<Rightarrow> (string \<times> service_role) list \<Rightarrow> string" where
  "list_text V services =
     text_lines
       ([colorize (se_tty V) ''rathole-x services'' GREEN, []] @
        (if services = [] then
           [colorize (se_tty V) (''no installed services'' @ dash @ ''run `rathole-x service install server|client --yes`'') YELLOW]
         else map (\<lambda>x. list_entry_line V x (list_entry_json V x)) services @
           [[], ''Run `rathole-x status --name <name>` for the full config tree.'']))"

definition run_status ::
  "editor \<Rightarrow> io \<Rightarrow> status_env \<Rightarrow> path option \<Rightarrow> string option \<Rightarrow> bool \<Rightarrow> disk \<Rightarrow> disk \<times> string \<times> (anyhow + json)" where
  "run_status ED os V config name json w =
     (case name of
        Some n \<Rightarrow>
          (case validate_service_name n of
             Inl e \<Rightarrow> (w, [], Inl e)
           | Inr _ \<Rightarrow>
               (let p = (case config of Some p \<Rightarrow> p | None \<Rightarrow> (config_dir, n @ ''.toml'')) in
                map_prod id (map_prod id Inr)
                  (render_one ED os V json n p (service_state_for ED os V n p w) True w)))
      | None \<Rightarrow>
          (case config of
             Some p \<Rightarrow>
               (let n = config_stem ''config'' p; known = (fst p = config_dir) in
                map_prod id (map_prod id Inr)
                  (render_one ED os V json n p (if known then service_state_for ED os V n p w else None) known w))
           | None \<Rightarrow>
               (let services = sort_key fst (list_installed_services ED os w) in
                (w, if json then [] else list_text V services,
                 Inr (J_Object [(''services'', J_Array (map (list_entry_json V) services))])))))"

section \<open>What the view depends on\<close>

text \<open>
  The public part of a configuration: its secrets are only set or not set, its proxy is not shown,
  and the services have no order.
\<close>

definition conceal :: "masked_string option \<Rightarrow> masked_string option" where
  "conceal = map_option (\<lambda>_. MaskedString [])"

definition public_transport :: "transport_config \<Rightarrow> transport_config" where
  "public_transport t =
     t\<lparr>tr_tcp := default_tcp_config,
       tr_tls := map_option (\<lambda>x. x\<lparr>tls_pkcs12_password := conceal (tls_pkcs12_password x)\<rparr>) (tr_tls t),
       tr_noise := map_option (\<lambda>x. x\<lparr>noise_local_private_key := conceal (noise_local_private_key x)\<rparr>) (tr_noise t)\<rparr>"

definition public_services :: "('a \<Rightarrow> 'a) \<Rightarrow> (string \<times> 'a) list \<Rightarrow> (string \<times> 'a) list" where
  "public_services f xs = sort_key fst (map (apsnd f) xs)"

definition public_client :: "client_config \<Rightarrow> client_config" where
  "public_client c =
     c\<lparr>cc_default_token := conceal (cc_default_token c), cc_transport := public_transport (cc_transport c),
       cc_services := public_services (\<lambda>s. s\<lparr>csc_token := conceal (csc_token s)\<rparr>) (cc_services c)\<rparr>"

definition public_server :: "server_config \<Rightarrow> server_config" where
  "public_server c =
     c\<lparr>sc_default_token := conceal (sc_default_token c), sc_transport := public_transport (sc_transport c),
       sc_services := public_services (\<lambda>s. s\<lparr>ssc_token := conceal (ssc_token s)\<rparr>) (sc_services c)\<rparr>"

definition public_config :: "config \<Rightarrow> config" where
  "public_config c =
     \<lparr>cfg_server = map_option public_server (cfg_server c), cfg_client = map_option public_client (cfg_client c)\<rparr>"

lemma conceal_None [simp]:
  "conceal t = None \<longleftrightarrow> t = None" "(\<exists>y. conceal t = Some y) \<longleftrightarrow> (\<exists>y. t = Some y)"
  by (auto simp: conceal_def)

lemma insort_apsnd: "map (apsnd f) (insort_key fst x xs) = insort_key fst (apsnd f x) (map (apsnd f) xs)"
  by (induction xs) auto

lemma sort_apsnd: "sort_key fst (map (apsnd f) xs) = map (apsnd f) (sort_key fst xs)"
  by (induction xs) (simp_all add: insort_apsnd)

lemma sort_public: "sort_key fst (public_services f xs) = map (apsnd f) (sort_key fst xs)"
  by (simp add: public_services_def sort_apsnd sort_key_id_if_sorted)

lemma services_node_public:
  "(\<And>s name. label (f s) name = label s name) \<Longrightarrow> services_node label (public_services f xs) = services_node label xs"
  by (simp add: services_node_def sort_public) (auto simp: public_services_def)

lemma services_json_public: "(\<And>s. g (f s) = g s) \<Longrightarrow> services_json g (public_services f xs) = services_json g xs"
  by (auto simp: services_json_def sort_public)

lemma transport_public:
  "transport_nodes tty (public_transport t) = transport_nodes tty t" "tr_type (public_transport t) = tr_type t"
proof -
  show ty: "tr_type (public_transport t) = tr_type t" by (simp add: public_transport_def)
  have "transport_detail (public_transport t) = transport_detail t"
    by (cases "tr_noise t"; cases "tr_tls t"; cases "tr_type t")
      (simp_all add: transport_detail_def public_transport_def split: option.split)
  then show "transport_nodes tty (public_transport t) = transport_nodes tty t" by (simp add: transport_nodes_def ty)
qed

lemma client_public:
  "client_node tty ad (public_client c) rt = client_node tty ad c rt" "client_json (public_client c) = client_json c"
proof -
  have "services_node (\<lambda>s name. service_label name (csc_local_addr s) (csc_service_type s) (csc_token s)
      (client_service_detail tty rt name)) (cc_services (public_client c)) =
    services_node (\<lambda>s name. service_label name (csc_local_addr s) (csc_service_type s) (csc_token s)
      (client_service_detail tty rt name)) (cc_services c)"
    by (simp add: public_client_def) (rule services_node_public, simp add: service_label_def)
  then show "client_node tty ad (public_client c) rt = client_node tty ad c rt"
    by (simp add: client_node_def) (simp add: public_client_def transport_public)
  show "client_json (public_client c) = client_json c"
    by (simp add: client_json_def public_client_def transport_public) (rule services_json_public, simp)
qed

lemma server_public:
  "server_node tty ad (public_server c) rt = server_node tty ad c rt" "server_json (public_server c) = server_json c"
proof -
  have "services_node (\<lambda>s name. service_label name (ssc_bind_addr s) (ssc_service_type s) (ssc_token s)
      (server_service_detail tty ad rt name)) (sc_services (public_server c)) =
    services_node (\<lambda>s name. service_label name (ssc_bind_addr s) (ssc_service_type s) (ssc_token s)
      (server_service_detail tty ad rt name)) (sc_services c)"
    by (simp add: public_server_def) (rule services_node_public, simp add: service_label_def)
  then show "server_node tty ad (public_server c) rt = server_node tty ad c rt"
    by (simp add: server_node_def) (simp add: public_server_def transport_public)
  show "server_json (public_server c) = server_json c"
    by (simp add: server_json_def public_server_def transport_public) (rule services_json_public, simp)
qed

lemma config_public:
  "config_tree V (public_config c) rt = config_tree V c rt"
  "json_opt client_json (cfg_client (public_config c)) = json_opt client_json (cfg_client c)"
  "json_opt server_json (cfg_server (public_config c)) = json_opt server_json (cfg_server c)"
  "cfg_client (public_config c) = None \<longleftrightarrow> cfg_client c = None"
  by (auto simp: config_tree_def public_config_def client_public server_public json_opt_def split: option.split)

lemma same_view:
  assumes "public_config c = public_config c'"
  shows "status_text V name p service known (Inr a) (Some c) auth rt = status_text V name p service known (Inr b) (Some c') auth rt"
    and "status_json V name p service (Inr a) (Some c) auth rt = status_json V name p service (Inr b) (Some c') auth rt"
    and "cfg_client c = None \<longleftrightarrow> cfg_client c' = None"
proof -
  have t: "config_tree V c rt' = config_tree V c' rt'" for rt' using config_public(1) assms by metis
  have j: "json_opt client_json (cfg_client c) = json_opt client_json (cfg_client c')"
    "json_opt server_json (cfg_server c) = json_opt server_json (cfg_server c')"
    using config_public(2,3) assms by metis+
  show "status_text V name p service known (Inr a) (Some c) auth rt = status_text V name p service known (Inr b) (Some c') auth rt"
    by (simp add: status_text_def t)
  show "status_json V name p service (Inr a) (Some c) auth rt = status_json V name p service (Inr b) (Some c') auth rt"
    by (simp add: status_json_def j config_access_def)
  show "cfg_client c = None \<longleftrightarrow> cfg_client c' = None" using config_public(4) assms by metis
qed

text \<open>The order of the services and the texts of their tokens are not public.\<close>

lemma public_services_cong:
  assumes "mset (map (apsnd f) xs) = mset (map (apsnd f) ys)" "distinct_keys xs"
  shows "public_services f xs = public_services f ys"
proof -
  have "inj_on fst (set (map (apsnd f) xs))"
    using assms(2) by (metis (mono_tags, lifting) distinct_map fst_apsnd list.map_comp map_eq_conv o_apply)
  then show ?thesis unfolding public_services_def
    using assms(1) by (intro sort_key_inj_key_eq) (simp_all)
qed

lemma public_permuted_client:
  assumes "distinct_keys (cc_services c)" "mset ss = mset (cc_services c)"
  shows "public_client (c\<lparr>cc_services := ss\<rparr>) = public_client c"
proof -
  have "public_services f (cc_services c) = public_services f ss" for f
    using assms by (intro public_services_cong) simp_all
  then show ?thesis by (simp add: public_client_def)
qed

lemma remote_scan_Some:
  "fst (remote_scan xs fl) = Some a \<Longrightarrow>
   \<exists>c. Client c \<in> set xs \<and> cs_state c = C_Connected \<and> resolved_control_target c = Some a"
  by (induction xs fl rule: remote_scan.induct)
    (auto split: runtime_service_snapshot.splits client_control_state.splits option.splits)

lemma remote_scan_None:
  "fst (remote_scan xs fl) = None \<Longrightarrow> Client c \<in> set xs \<Longrightarrow> cs_state c = C_Connected \<Longrightarrow> resolved_control_target c = None"
  by (induction xs fl rule: remote_scan.induct)
    (auto split: runtime_service_snapshot.splits client_control_state.splits option.splits)

lemma set_service_values: "finite (dom (rs_services s)) \<Longrightarrow> set (service_values s) = ran (rs_services s)"
proof -
  assume f: "finite (dom (rs_services s))"
  have "set (service_values s) = {the (rs_services s n) | n. n \<in> dom (rs_services s)}"
    using f by (auto simp: service_values_def List.map_filter_def)
  also have "\<dots> = ran (rs_services s)" by (force simp: ran_def dom_def)
  finally show ?thesis .
qed

lemma run_status_file:
  "snd (run_status ED os V (Some p) None json w) =
     apsnd Inr (snd (render_one ED os V json (config_stem ''config'' p) p
       (if fst p = config_dir then service_state_for ED os V (config_stem ''config'' p) p w else None) (fst p = config_dir) w))"
  "snd (run_status ED os V (Some p) (Some n) json w) =
     (case validate_service_name n of
        Inl e \<Rightarrow> ([], Inl e)
      | Inr _ \<Rightarrow> apsnd Inr (snd (render_one ED os V json n p (service_state_for ED os V n p w) True w)))"
  by (simp_all add: run_status_def Let_def apsnd_def split: sum.split)

text \<open>
  The state of a service is looked up under the role its file declares, so an installed service
  whose file does not parse is reported as not installed.
\<close>

lemma invalid_config_hides_service:
  assumes "read_to_string os w p = Inr content" "ed_config ED content = Inl e" "validate_service_name n = Inr ()"
  shows "run_status ED os V (Some p) (Some n) json w =
    map_prod id (map_prod id Inr) (render_one ED os V json n p None True w)"
  using assms by (simp add: run_status_def service_state_for_def ok_option_def)

section \<open>Properties\<close>


definition view_service :: "string \<Rightarrow> string \<Rightarrow> string \<times> client_service_config" where
  "view_service name token = (name, (client_service_with_name name)\<lparr>csc_token := Some (MaskedString token)\<rparr>)"

definition view_config :: "string \<Rightarrow> (string \<times> client_service_config) list \<Rightarrow> config" where
  "view_config token services =
     \<lparr>cfg_server = None, cfg_client = Some (sample_client\<lparr>cc_default_token := Some (MaskedString token), cc_services := services\<rparr>)\<rparr>"

definition view_parse :: "string \<Rightarrow> anyhow + config" where
  "view_parse c =
     Inr (if c = ''1'' then view_config ''x'' [view_service ''ssh'' ''s1'', view_service ''web'' ''w1'']
          else view_config ''y'' [view_service ''web'' ''w2'', view_service ''ssh'' ''s2''])"

lemma view_order: "''ssh'' \<le> ''web''" "\<not> ''web'' \<le> ''ssh''"
  by code_simp+


lemmas badge_simps = brackets_def status_badge_def state_badge_def status_unknown_def colorize_def

text \<open>
  The badges tell the truth about the snapshot: a service is shown as ok exactly when its
  control channel is connected, with the address of its client; the address of a server is shown as
  an error exactly when its listener failed; a client is shown with a resolved address exactly when
  one of its services is connected to a known one, and the address is that of such a service.
\<close>
theorem status_badges_exact:
  assumes "finite (dom (rs_services s))"
  shows "(client_service_detail False (Some s) n = '' [status: ok]'' \<longleftrightarrow>
      (\<exists>c. rs_services s n = Some (Client c) \<and> cs_state c = C_Connected)) \<and>
    (\<forall>c a. rs_services s n = Some (Server c) \<and> ss_state c = S_Connected \<and> control_channel_source c = Some a \<longrightarrow>
      server_service_detail False ad (Some s) n = '' [status: ok [client: '' @ ad a @ '']]'') \<and>
    (server_bind_detail False (Some s) = '' [status: error]'' \<longleftrightarrow>
      (\<exists>l. rs_server_listener s = Some l \<and> sl_state l = L_Error)) \<and>
    (case fst (remote_scan (service_values s) (False, False)) of
       Some a \<Rightarrow> client_remote_detail False ad (Some s) = '' [status: ok] [resolved: '' @ ad a @ '']'' \<and>
         (\<exists>c n. rs_services s n = Some (Client c) \<and> cs_state c = C_Connected \<and> resolved_control_target c = Some a)
     | None \<Rightarrow> client_remote_detail False ad (Some s) \<in>
           {'' [status: connecting]'', '' [status: stopped]'', '' [status: unknown]''} \<and>
         (\<forall>c n. rs_services s n = Some (Client c) \<and> cs_state c = C_Connected \<longrightarrow> resolved_control_target c = None))"
proof (intro conjI)
  show "client_service_detail False (Some s) n = '' [status: ok]'' \<longleftrightarrow>
      (\<exists>c. rs_services s n = Some (Client c) \<and> cs_state c = C_Connected)"
  proof (cases "rs_services s n")
    case (Some x)
    then show ?thesis
    proof (cases x)
      case (Client c)
      then show ?thesis using Some
        by (cases "cs_state c") (simp_all add: client_service_detail_def badge_simps)
    qed (simp add: client_service_detail_def badge_simps)
  qed (simp add: client_service_detail_def badge_simps)
  show "\<forall>c a. rs_services s n = Some (Server c) \<and> ss_state c = S_Connected \<and> control_channel_source c = Some a \<longrightarrow>
      server_service_detail False ad (Some s) n = '' [status: ok [client: '' @ ad a @ '']]''"
    by (simp add: server_service_detail_def brackets_def status_badge_def colorize_def)
  show "server_bind_detail False (Some s) = '' [status: error]'' \<longleftrightarrow>
      (\<exists>l. rs_server_listener s = Some l \<and> sl_state l = L_Error)"
  proof (cases "rs_server_listener s")
    case (Some l)
    then show ?thesis by (cases "sl_state l") (simp_all add: server_bind_detail_def badge_simps)
  qed (simp add: server_bind_detail_def badge_simps)
  let ?v = "service_values s"
  obtain a b c where r: "remote_scan ?v (False, False) = (a, b, c)" by (metis prod_cases3)
  have ran: "rs_services s n = Some x \<Longrightarrow> x \<in> set ?v" "x \<in> set ?v \<Longrightarrow> \<exists>n. rs_services s n = Some x" for n x
    using set_service_values [OF assms] by (auto simp: ran_def)
  show "case fst (remote_scan ?v (False, False)) of
       Some a \<Rightarrow> client_remote_detail False ad (Some s) = '' [status: ok] [resolved: '' @ ad a @ '']'' \<and>
         (\<exists>c n. rs_services s n = Some (Client c) \<and> cs_state c = C_Connected \<and> resolved_control_target c = Some a)
     | None \<Rightarrow> client_remote_detail False ad (Some s) \<in>
           {'' [status: connecting]'', '' [status: stopped]'', '' [status: unknown]''} \<and>
         (\<forall>c n. rs_services s n = Some (Client c) \<and> cs_state c = C_Connected \<longrightarrow> resolved_control_target c = None)"
  proof (cases a)
    case None
    have "\<forall>c n. rs_services s n = Some (Client c) \<and> cs_state c = C_Connected \<longrightarrow> resolved_control_target c = None"
      using remote_scan_None [of ?v "(False, False)"] ran(1) r None by auto
    then show ?thesis
      by (simp add: r None client_remote_detail_def brackets_def state_badge_def status_unknown_def colorize_def)
  next
    case (Some x)
    have "\<exists>c n. rs_services s n = Some (Client c) \<and> cs_state c = C_Connected \<and> resolved_control_target c = Some x"
      using remote_scan_Some [of ?v "(False, False)" x] ran(2) r Some by (metis fst_conv)
    then show ?thesis
      by (simp add: r Some client_remote_detail_def brackets_def status_badge_def colorize_def)
  qed
qed

theorem status_badges_exact_witness:
  "server_bind_detail False (Some ((server_registry 1 0 [''ssh''])\<lparr>rs_server_listener := Some \<lparr>sl_state = L_Error, sl_last_error = None\<rparr>\<rparr>)) =
     '' [status: error]''"
proof -
  let ?s = "(server_registry 1 0 [''ssh''])\<lparr>rs_server_listener := Some \<lparr>sl_state = L_Error, sl_last_error = None\<rparr>\<rparr>"
  have "finite (dom (rs_services ?s))" by (simp add: server_registry_def)
  from status_badges_exact [OF this, of "[]" "\<lambda>_. []"] show ?thesis by simp
qed

end
