(* ===== verification/Command_Line.thy ===== *)
theory Command_Line
  imports Linux_Service Status_View Status_Endpoint
begin

text \<open>
  The program as it is invoked: \<open>main\<close> of \<open>src/main.rs\<close>, \<open>run\<close> and \<open>dispatch_command\<close> of
  \<open>src/lib.rs\<close> over the commands of \<open>src/cli.rs\<close>. Parsing the command line (\<open>clap\<close>) is a parameter.
  The command \<open>run\<close> does not end here: what it then does is the subject of the theory \<open>App\<close>.
\<close>

section \<open>Commands\<close>

datatype keypair_type = X25519 | X448

record run_args =
  ru_config :: "path option"
  ru_server :: bool
  ru_client :: bool

record status_args =
  ta_config :: "path option"
  ta_name :: "string option"
  ta_json :: bool

record upgrade_args =
  ga_json :: bool
  ga_yes :: bool

datatype commands =
    Cmd_Run run_args
  | Cmd_Genkey "keypair_type option"
  | Cmd_Config target config_cmd
  | Cmd_Status status_args
  | Cmd_Service service_cmd
  | Cmd_Upgrade upgrade_args

text \<open>The option \<open>--elevated-log\<close>, which Linux ignores, is left out.\<close>

record cli =
  cl_command :: "commands option"
  cl_confirmed :: bool

text \<open>
  What a command works with. \<open>wd_conn\<close> is the connection a query of the status endpoint of a
  configuration gets; the state of a service is asked of the machine as the command finds it.
\<close>

record world =
  wd_editor :: editor
  wd_io :: io
  wd_host :: host
  wd_terminal :: terminal
  wd_cwd :: "anyhow + string list"
  wd_answers :: answers
  wd_json_text :: "json \<Rightarrow> string"
  wd_keypair :: "string \<Rightarrow> anyhow + bytes \<times> bytes"
  wd_base64 :: "bytes \<Rightarrow> string"
  wd_addr :: "socket_addr \<Rightarrow> string"
  wd_to_value :: "runtime_snapshot \<Rightarrow> string + json"
  wd_from_slice :: "bytes \<Rightarrow> anyhow + runtime_snapshot"
  wd_conn :: "path \<Rightarrow> status_conn"

definition world_status :: "world \<Rightarrow> computer \<Rightarrow> status_env" where
  "world_status W m =
     \<lparr>se_tty = tm_stdout (wd_terminal W), se_addr = wd_addr W,
      se_runtime = (\<lambda>p. query_runtime_status (wd_from_slice W) (wd_conn W p) (display_path p)),
      se_json = wd_to_value W,
      se_service = (\<lambda>role name. snd (query_service_state (wd_host W) (wd_io W) role name m))\<rparr>"

section \<open>Dispatch\<close>

definition DEFAULT_CURVE :: keypair_type where
  "DEFAULT_CURVE = X25519"

fun get_str_from_keypair_type :: "keypair_type \<Rightarrow> string" where
  "get_str_from_keypair_type X25519 = ''25519''"
| "get_str_from_keypair_type X448 = ''448''"

definition generate_keypair :: "world \<Rightarrow> keypair_type \<Rightarrow> anyhow + string \<times> string" where
  "generate_keypair W curve =
     rbind (wd_keypair W (''Noise_KK_'' @ get_str_from_keypair_type curve @ ''_ChaChaPoly_BLAKE2s''))
       (\<lambda>(private, public). Inr (wd_base64 W private, wd_base64 W public))"

definition genkey :: "world \<Rightarrow> keypair_type option \<Rightarrow> unit act" where
  "genkey W curve =
     act_bind (act_lift (generate_keypair W (case curve of None \<Rightarrow> DEFAULT_CURVE | Some c \<Rightarrow> c))) (\<lambda>(private, public).
     print_lines [''Private Key:'', private, [], ''Public Key:'', public])"

fun config_requests_json :: "config_cmd \<Rightarrow> bool" where
  "config_requests_json (Config_Add a) = aa_json a"
| "config_requests_json (Config_Remove a) = ra_json a"
| "config_requests_json (Config_List j) = j"
| "config_requests_json (Config_Set a j) = j"
| "config_requests_json (Config_Import p j) = j"

fun command_requests_json :: "commands \<Rightarrow> bool" where
  "command_requests_json (Cmd_Config tg c) = config_requests_json c"
| "command_requests_json (Cmd_Status a) = ta_json a"
| "command_requests_json (Cmd_Service c) = service_requests_json c"
| "command_requests_json (Cmd_Upgrade a) = ga_json a"
| "command_requests_json (Cmd_Run a) = False"
| "command_requests_json (Cmd_Genkey c) = False"

text \<open>
  How a command goes on: the process serves a configuration, it panics, or it ends with a result.
  What configuration commands print for people, all without \<open>--json\<close>, is not recorded.
\<close>

datatype 'a command_end =
    Serves path run_args
  | Panics
  | Ends computer "anyhow + 'a"

definition ends :: "'a act \<Rightarrow> computer \<Rightarrow> 'a command_end" where
  "ends f m = (case f m of (m', r) \<Rightarrow> Ends m' r)"

definition dispatch_command :: "world \<Rightarrow> bool \<Rightarrow> commands \<Rightarrow> computer \<Rightarrow> json command_end" where
  "dispatch_command W confirmed cmd m =
     (case cmd of
        Cmd_Run a \<Rightarrow> Serves (case ru_config a of None \<Rightarrow> os_default_config_path | Some p \<Rightarrow> p) a
      | Cmd_Genkey curve \<Rightarrow> ends (act_seq (genkey W curve) (act_return J_Null)) m
      | Cmd_Config tg c \<Rightarrow>
          (case dispatch_config_command (wd_editor W) (wd_json_text W) (wd_io W) (wd_terminal W) (wd_answers W) tg c
                  confirmed (ma_disk m) of
             None \<Rightarrow> Panics
           | Some (w, r) \<Rightarrow> Ends (m\<lparr>ma_disk := w\<rparr>) r)
      | Cmd_Status a \<Rightarrow>
          (case run_status (wd_editor W) (wd_io W) (world_status W m) (ta_config a) (ta_name a) (ta_json a) (ma_disk m) of
             (w, s, r) \<Rightarrow> Ends (m\<lparr>ma_disk := w, ma_printed := ma_printed m @ (if s = [] then [] else [s])\<rparr>) r)
      | Cmd_Service c \<Rightarrow>
          ends (dispatch_service_command (wd_editor W) (wd_io W) (wd_host W) (wd_terminal W) (wd_cwd W) confirmed c) m
      | Cmd_Upgrade a \<Rightarrow>
          ends (run_upgrade (wd_editor W) (wd_io W) (wd_host W) (wd_terminal W) confirmed (ga_yes a) (ga_json a)) m)"

definition run :: "world \<Rightarrow> cli \<Rightarrow> computer \<Rightarrow> unit command_end" where
  "run W args m =
     (let json_mode = (case cl_command args of None \<Rightarrow> False | Some cmd \<Rightarrow> command_requests_json cmd) in
      case (case cl_command args of
          None \<Rightarrow> Ends m (Inl (Err ''No subcommand given; run `rathole-x --help`''))
        | Some cmd \<Rightarrow> dispatch_command W (cl_confirmed args) cmd m) of
        Serves p a \<Rightarrow> Serves p a
      | Panics \<Rightarrow> Panics
      | Ends m' r \<Rightarrow> ends (run_enveloped (wd_json_text W) json_mode (\<lambda>_. (m', r))) m)"

section \<open>The process\<close>

datatype error_kind = DisplayHelp | DisplayVersion | Other_Kind

record parse_error =
  pe_kind :: error_kind
  pe_text :: string

definition argv_requests_json :: "string list \<Rightarrow> bool" where
  "argv_requests_json args = (''--json'' \<in> set args)"

text \<open>\<open>clap\<close> prints help and version to the standard output, an error to the standard error.\<close>

definition exit_after_parse_error :: "world \<Rightarrow> parse_error \<Rightarrow> bool \<Rightarrow> computer \<Rightarrow> computer \<times> nat" where
  "exit_after_parse_error W e json m =
     (let human_help = (pe_kind e = DisplayHelp \<or> pe_kind e = DisplayVersion) in
      (m\<lparr>ma_printed := ma_printed m @
          (if json \<and> \<not> human_help then
             [wd_json_text W (J_Object [(''ok'', J_Bool False),
                (''error'', J_Object [(''message'', J_String (trim (pe_text e)))])])]
           else []) @
          (if human_help then [pe_text e] else [])\<rparr>,
       if human_help then 0 else 2))"

datatype process_end =
    Process_Serves path run_args
  | Process_Panics
  | Process_Exits computer nat

definition main_process :: "world \<Rightarrow> (string list \<Rightarrow> parse_error + cli) \<Rightarrow> string list \<Rightarrow> computer \<Rightarrow> process_end" where
  "main_process W parse argv m =
     (case parse argv of
        Inl e \<Rightarrow> (case exit_after_parse_error W e (argv_requests_json argv) m of (m', code) \<Rightarrow> Process_Exits m' code)
      | Inr args \<Rightarrow>
          (case run W args m of
             Serves p a \<Rightarrow> Process_Serves p a
           | Panics \<Rightarrow> Process_Panics
           | Ends m' r \<Rightarrow> Process_Exits m' (if is_ok r then 0 else 1)))"

section \<open>What a command prints in the JSON mode\<close>

text \<open>The commands that print nothing of their own in the JSON mode.\<close>

fun silent_command :: "commands \<Rightarrow> bool" where
  "silent_command (Cmd_Config tg c) = True"
| "silent_command (Cmd_Status a) = True"
| "silent_command _ = False"

lemma run_status_silent: "run_status ED os V config name True w = (w', s, r) \<Longrightarrow> s = []"
  by (auto simp: run_status_def render_one_def Let_def split: option.splits sum.splits prod.splits)

lemma dispatch_silent:
  assumes "dispatch_command W confirmed cmd m = Ends m' r" "silent_command cmd" "command_requests_json cmd"
  shows "ma_printed m' = ma_printed m"
  using assms by (cases cmd) (auto simp: dispatch_command_def split: option.splits prod.splits dest!: run_status_silent)

lemma dispatch_panics_only: "dispatch_command W confirmed cmd m = Panics \<Longrightarrow>
    \<exists>tg a. cmd = Cmd_Config tg (Config_Add a) \<and> (aa_noise a \<or> aa_noise_key a \<noteq> None)"
  by (cases cmd) (auto simp: dispatch_command_def ends_def split: option.splits prod.splits dest!: dispatch_panics)

lemma dispatch_serves_only: "dispatch_command W confirmed cmd m = Serves p a \<Longrightarrow>
    cmd = Cmd_Run a \<and> p = (case ru_config a of None \<Rightarrow> os_default_config_path | Some p \<Rightarrow> p)"
  by (cases cmd) (auto simp: dispatch_command_def ends_def split: option.splits prod.splits)

lemma run_ends:
  assumes "run W args m = Ends m' r" "cl_command args = Some cmd" "command_requests_json cmd"
  shows "\<exists>m1 r1. dispatch_command W (cl_confirmed args) cmd m = Ends m1 r1 \<and> is_ok r = is_ok r1 \<and>
    ma_disk m' = ma_disk m1 \<and> ma_tools m' = ma_tools m1 \<and>
    ma_printed m' = ma_printed m1 @ [wd_json_text W (case r1 of
      Inr v \<Rightarrow> json_success_envelope v | Inl e \<Rightarrow> json_failure_envelope e)]"
  using assms
  by (cases "dispatch_command W (cl_confirmed args) cmd m")
    (auto simp: run_def ends_def run_enveloped_def is_ok_def split: sum.splits)

lemma json_output:
  assumes "run W args m = Ends m' r" "cl_command args = Some cmd" "command_requests_json cmd"
  shows "\<exists>before v. ma_printed m' = before @ [wd_json_text W v] \<and>
    (if is_ok r then \<exists>r. v = json_success_envelope r else \<exists>e. v = json_failure_envelope e) \<and>
    (if silent_command cmd then before = ma_printed m else True)"
proof -
  obtain m1 r1 where d: "dispatch_command W (cl_confirmed args) cmd m = Ends m1 r1" "is_ok r = is_ok r1"
    "ma_printed m' = ma_printed m1 @ [wd_json_text W (case r1 of
      Inr v \<Rightarrow> json_success_envelope v | Inl e \<Rightarrow> json_failure_envelope e)]"
    using run_ends [OF assms] by blast
  then show ?thesis using dispatch_silent [OF d(1) _ assms(3)] by (cases r1) auto
qed

lemma run_serves: "run W args m = Serves p a \<Longrightarrow>
    cl_command args = Some (Cmd_Run a) \<and> p = (case ru_config a of None \<Rightarrow> os_default_config_path | Some p \<Rightarrow> p)"
  by (auto simp: run_def ends_def split: option.splits command_end.splits prod.splits dest!: dispatch_serves_only)

lemma run_panics: "run W args m = Panics \<Longrightarrow>
    \<exists>tg a. cl_command args = Some (Cmd_Config tg (Config_Add a)) \<and> (aa_noise a \<or> aa_noise_key a \<noteq> None)"
  by (auto simp: run_def ends_def split: option.splits command_end.splits prod.splits dest!: dispatch_panics_only)

section \<open>Properties\<close>


definition sample_world :: world where
  "sample_world =
     \<lparr>wd_editor = sample_editor, wd_io = sample_io, wd_host = sample_host, wd_terminal = sample_terminal,
      wd_cwd = Inr [[], ''root''], wd_answers = [], wd_json_text = (\<lambda>j. if j = J_Null then ''null'' else ''{}''),
      wd_keypair = (\<lambda>_. Inr ([], [])), wd_base64 = (\<lambda>_. []), wd_addr = (\<lambda>_. []),
      wd_to_value = (\<lambda>_. Inl []), wd_from_slice = (\<lambda>_. Inl (Err [])),
      wd_conn = (\<lambda>_. \<lparr>sn_connect = Some (Err []), sn_write = None, sn_flush = None, sn_reply = []\<rparr>)\<rparr>"


end
