(* ===== verification/Windows_Args.thy ===== *)
theory Windows_Args
  imports Config_Store
begin

text \<open>
  The argument lists of \<open>src/platform/windows.rs\<close>: quoting of a command line and what the elevation
  relay puts on it, the launch arguments of a service, and the access rules it hands to \<open>icacls\<close>.
  Arguments are UTF-8 strings of the model; the UTF-16 of the system is not represented.
\<close>

section \<open>Command lines\<close>

text \<open>\<open>quote_chars n s\<close> is the loop of \<open>quote_arg\<close> with \<open>n\<close> backslashes not written yet.\<close>

fun quote_chars :: "nat \<Rightarrow> string \<Rightarrow> string" where
  "quote_chars n [] = replicate (n * 2) CHR 92"
| "quote_chars n (c # cs) =
     (if c = CHR 92 then quote_chars (Suc n) cs
      else if c = CHR 34 then replicate (n * 2 + 1) CHR 92 @ CHR 34 # quote_chars 0 cs
      else replicate n CHR 92 @ c # quote_chars 0 cs)"

definition quote_arg :: "string \<Rightarrow> string" where
  "quote_arg arg =
     (if arg \<noteq> [] \<and> \<not> list_ex (\<lambda>c. c = CHR '' '' \<or> c = CHR 9 \<or> c = CHR 34) arg then arg
      else CHR 34 # quote_chars 0 arg @ [CHR 34])"

definition elevated_log_flag :: string where
  "elevated_log_flag = ''--elevated-log''"

definition confirmed_flag :: string where
  "confirmed_flag = ''--confirmed''"

fun strip_relay_flags :: "string list \<Rightarrow> string list" where
  "strip_relay_flags [] = []"
| "strip_relay_flags (a # as) =
     (if a = elevated_log_flag then (case as of [] \<Rightarrow> [] | _ # as' \<Rightarrow> strip_relay_flags as')
      else if a = confirmed_flag then strip_relay_flags as
      else a # strip_relay_flags as)"

text \<open>The parameters \<open>relaunch_elevated_wait\<close> passes to the elevated process.\<close>

definition relay_params :: "string list \<Rightarrow> string \<Rightarrow> string list" where
  "relay_params args log_path = strip_relay_flags args @ [elevated_log_flag, log_path, confirmed_flag]"

definition relay_command_line :: "string list \<Rightarrow> string \<Rightarrow> string" where
  "relay_command_line args log_path = join_str '' '' (map quote_arg (relay_params args log_path))"

text \<open>
  How Windows splits a command line into arguments, by the documented rules of
  \<open>CommandLineToArgvW\<close>: blanks outside quotes separate, a quote preceded by \<open>2n\<close> backslashes stands
  for \<open>n\<close> of them and begins or ends a quoted part, preceded by \<open>2n + 1\<close> for \<open>n\<close> and a literal quote,
  other backslashes stand for themselves. The state is whether a quoted part is open, the
  backslashes read, and the argument so far.
\<close>

fun argv_read :: "bool \<Rightarrow> nat \<Rightarrow> string option \<Rightarrow> string \<Rightarrow> string list" where
  "argv_read q n w [] = (case w of None \<Rightarrow> [] | Some s \<Rightarrow> [s @ replicate n CHR 92])"
| "argv_read q n w (c # cs) =
     (let s = (case w of None \<Rightarrow> [] | Some s \<Rightarrow> s) in
      if c = CHR 92 then argv_read q (Suc n) (Some s) cs
      else if c = CHR 34 then
        (if even n then argv_read (\<not> q) 0 (Some (s @ replicate (n div 2) CHR 92)) cs
         else argv_read q 0 (Some (s @ replicate (n div 2) CHR 92 @ [c])) cs)
      else if (c = CHR '' '' \<or> c = CHR 9) \<and> \<not> q then
        (case w of None \<Rightarrow> argv_read q 0 None cs
                 | Some s \<Rightarrow> (s @ replicate n CHR 92) # argv_read q 0 None cs)
      else argv_read q 0 (Some (s @ replicate n CHR 92 @ [c])) cs)"

definition argv_words :: "string \<Rightarrow> string list" where
  "argv_words line = argv_read False 0 None line"

lemma argv_read_backslashes:
  "argv_read q n (Some s) (replicate k CHR 92 @ xs) = argv_read q (n + k) (Some s) xs"
  by (induction k arbitrary: n) simp_all

lemma argv_read_quoted:
  "argv_read True 0 (Some s) (quote_chars n cs @ CHR 34 # rest) =
   argv_read False 0 (Some (s @ replicate n CHR 92 @ cs)) rest"
proof (induction n cs arbitrary: s rule: quote_chars.induct)
  case (1 n)
  then show ?case by (simp add: argv_read_backslashes)
next
  case (2 n c cs)
  show ?case
  proof (cases "c = CHR 92")
    case True
    then show ?thesis using "2.IH"(1) by (simp add: replicate_app_Cons_same)
  next
    case False
    then show ?thesis using "2.IH"(2,3)
      by (cases "c = CHR 34") (simp_all add: argv_read_backslashes)
  qed
qed

definition arg_end :: "string \<Rightarrow> bool" where
  "arg_end rest \<longleftrightarrow> rest = [] \<or> hd rest = CHR '' ''"

lemma argv_read_end:
  "arg_end rest \<Longrightarrow> argv_read False n (Some s) rest = (s @ replicate n CHR 92) # argv_read False 0 None rest"
  by (cases rest) (simp_all add: arg_end_def)

lemma argv_read_plain:
  assumes "\<not> list_ex (\<lambda>c. c = CHR '' '' \<or> c = CHR 9 \<or> c = CHR 34) arg" "arg_end rest"
  shows "argv_read False n (Some s) (arg @ rest) = (s @ replicate n CHR 92 @ arg) # argv_read False 0 None rest"
  using assms(1)
proof (induction arg arbitrary: n s)
  case Nil
  then show ?case using argv_read_end [OF assms(2)] by simp
next
  case (Cons c cs)
  show ?case
  proof (cases "c = CHR 92")
    case True
    then show ?thesis using Cons.IH [of "Suc n" s] Cons.prems by (simp add: replicate_app_Cons_same)
  next
    case False
    then show ?thesis using Cons.IH [of 0 "s @ replicate n CHR 92 @ [c]"] Cons.prems by simp
  qed
qed

lemma argv_read_start:
  "c \<noteq> CHR '' '' \<Longrightarrow> c \<noteq> CHR 9 \<Longrightarrow> argv_read False 0 None (c # cs) = argv_read False 0 (Some []) (c # cs)"
  by simp

lemma argv_read_arg:
  assumes "arg_end rest"
  shows "argv_read False 0 None (quote_arg arg @ rest) = arg # argv_read False 0 None rest"
proof (cases "arg \<noteq> [] \<and> \<not> list_ex (\<lambda>c. c = CHR '' '' \<or> c = CHR 9 \<or> c = CHR 34) arg")
  case True
  then obtain c cs where a: "arg = c # cs" "c \<noteq> CHR '' ''" "c \<noteq> CHR 9" by (cases arg) auto
  have "argv_read False 0 None (arg @ rest) = argv_read False 0 (Some []) (arg @ rest)"
    using argv_read_start [OF a(2,3)] by (simp only: a(1) append_Cons)
  then show ?thesis using argv_read_plain [of arg rest 0 "[]"] assms True by (simp add: quote_arg_def)
next
  case False
  have "argv_read False 0 None (CHR 34 # quote_chars 0 arg @ CHR 34 # rest) =
      argv_read True 0 (Some []) (quote_chars 0 arg @ CHR 34 # rest)" by simp
  also have "\<dots> = argv_read False 0 (Some arg) rest" using argv_read_quoted [of "[]" 0 arg rest] by simp
  finally show ?thesis using False argv_read_end [OF assms, of 0 arg] by (auto simp: quote_arg_def)
qed

lemma argv_words_join: "argv_words (join_str '' '' (map quote_arg args)) = args"
proof (induction args)
  case Nil
  then show ?case by (simp add: argv_words_def join_str_def)
next
  case (Cons a as)
  show ?case
  proof (cases as)
    case Nil
    then show ?thesis using argv_read_arg [of "[]" a] by (simp add: argv_words_def join_str_def arg_end_def)
  next
    case (Cons b bs)
    have "argv_read False 0 None (quote_arg a @ '' '' @ join_str '' '' (map quote_arg as)) =
        a # argv_read False 0 None ('' '' @ join_str '' '' (map quote_arg as))"
      by (rule argv_read_arg) (simp add: arg_end_def)
    also have "\<dots> = a # as" using Cons.IH by (simp add: argv_words_def)
    finally show ?thesis by (simp add: Cons argv_words_def join_str_def)
  qed
qed

lemma strip_relay_flags_clean:
  "elevated_log_flag \<notin> set (strip_relay_flags args)" "confirmed_flag \<notin> set (strip_relay_flags args)"
  by (induction args rule: strip_relay_flags.induct) (auto split: list.split)

lemma strip_relay_flags_keeps:
  "elevated_log_flag \<notin> set args \<Longrightarrow> confirmed_flag \<notin> set args \<Longrightarrow> strip_relay_flags args = args"
  by (induction args rule: strip_relay_flags.induct) (auto split: list.split)

lemma strip_append:
  "elevated_log_flag \<notin> set args \<Longrightarrow> confirmed_flag \<notin> set args \<Longrightarrow>
   strip_relay_flags (args @ rest) = args @ strip_relay_flags rest"
  by (induction args) auto

section \<open>Paths and names\<close>

definition win_path :: "path \<Rightarrow> string" where
  "win_path p = join_str [CHR 92] (fst p @ [snd p])"

definition win_dir :: "string list \<Rightarrow> string" where
  "win_dir d = join_str [CHR 92] d"

definition scm_name :: "service_role \<Rightarrow> string \<Rightarrow> string" where
  "scm_name role name = ''rathole-x-'' @ role_key role @ ''-'' @ name"

definition launch_arguments :: "path \<Rightarrow> string list" where
  "launch_arguments config = [''service'', ''run'', ''--config'', win_path config]"

section \<open>Access rules\<close>

text \<open>
  The arguments of the calls of \<open>icacls\<close>. Principals are Administrators, SYSTEM, Users and the
  virtual accounts of the services; the rest of a rule is the permission.
\<close>

definition ADMINS :: string where "ADMINS = ''*S-1-5-32-544''"

definition SYSTEM :: string where "SYSTEM = ''*S-1-5-18''"

definition USERS :: string where "USERS = ''*S-1-5-32-545''"

definition service_account_grant :: "string \<Rightarrow> string \<Rightarrow> string" where
  "service_account_grant service perm = ''NT SERVICE'' @ CHR 92 # service @ CHR '':'' # perm"

definition path_lockdown_args :: "string \<Rightarrow> string list \<Rightarrow> string list list" where
  "path_lockdown_args p grants =
     [[p, ''/setowner'', ADMINS],
      p # ''/inheritance:r'' # concat (map (\<lambda>g. [''/grant'', g]) grants)]"

definition exe_lockdown_args :: "string \<Rightarrow> string list \<Rightarrow> string list list" where
  "exe_lockdown_args exe services =
     path_lockdown_args exe
       ([ADMINS @ '':F'', SYSTEM @ '':F''] @ map (\<lambda>s. service_account_grant s ''(RX)'') services)"

definition lockdown_icacls_args ::
  "string \<Rightarrow> string \<Rightarrow> string \<Rightarrow> string \<Rightarrow> string list \<Rightarrow> bool \<Rightarrow> string list list" where
  "lockdown_icacls_args dir exe config logs services allow_user_config =
     path_lockdown_args dir
       ([ADMINS @ '':(OI)(CI)F'', SYSTEM @ '':(OI)(CI)F'', USERS @ '':(OI)(CI)R''] @
        map (\<lambda>s. service_account_grant s ''(OI)(CI)RX'') services @
        (if allow_user_config then [USERS @ '':WD''] else [])) @
     exe_lockdown_args exe services @
     path_lockdown_args config
       ([ADMINS @ '':F'', SYSTEM @ '':R'', USERS @ '':R''] @
        map (\<lambda>s. service_account_grant s ''(R)'') services @
        (if allow_user_config then [USERS @ '':M''] else [])) @
     path_lockdown_args logs
       ([ADMINS @ '':(OI)(CI)F'', SYSTEM @ '':(OI)(CI)F''] @
        map (\<lambda>s. service_account_grant s ''(OI)(CI)M'') services)"

definition service_access_grant_args :: "string \<Rightarrow> path \<Rightarrow> string list list" where
  "service_access_grant_args service config =
     map (\<lambda>(p, perm). [p, ''/grant'', service_account_grant service perm])
       [(win_dir (fst config), ''(OI)(CI)RX''), (win_path config, ''(R)''), (win_dir (fst config @ [''logs'']), ''(OI)(CI)M'')]"

text \<open>The rules of the calls for a principal, with the path each is for.\<close>

definition rules_for :: "string \<Rightarrow> string list list \<Rightarrow> (string \<times> string) set" where
  "rules_for who cmds =
     (\<Union>cmd \<in> set cmds. (\<lambda>g. (hd cmd, g)) ` {g \<in> set (tl cmd). starts_with (who @ '':'') g})"

lemma rules_for_append: "rules_for p (a @ b) = rules_for p a \<union> rules_for p b"
  by (auto simp: rules_for_def)

lemma starts_with_simps [simp]:
  "starts_with [] s" "starts_with (a # p) (b # s) \<longleftrightarrow> a = b \<and> starts_with p s" "\<not> starts_with (a # p) []"
  by (simp_all add: starts_with_def) (auto simp: starts_with_def)

lemma starts_with_append: "starts_with (p @ q) (p @ s) \<longleftrightarrow> starts_with q s"
  by (induction p) auto

lemma not_users [simp]:
  "\<not> starts_with (USERS @ '':'') ''/setowner''" "\<not> starts_with (USERS @ '':'') ''/inheritance:r''"
  "\<not> starts_with (USERS @ '':'') ''/grant''" "\<not> starts_with (USERS @ '':'') ADMINS"
  "\<not> starts_with (USERS @ '':'') (ADMINS @ x)" "\<not> starts_with (USERS @ '':'') (SYSTEM @ x)"
  "\<not> starts_with (USERS @ '':'') (service_account_grant s x)" "starts_with (USERS @ '':'') (USERS @ CHR '':'' # x)"
  by (simp_all add: USERS_def ADMINS_def SYSTEM_def service_account_grant_def)

lemma user_rules:
  "{g \<in> set ([ADMINS @ a, SYSTEM @ b] @ map (\<lambda>s. service_account_grant s c) ss). starts_with (USERS @ '':'') g} = {}"
  "{g \<in> set ([ADMINS @ a, SYSTEM @ b, USERS @ CHR '':'' # u] @ map (\<lambda>s. service_account_grant s c) ss @
      (if allow then [USERS @ CHR '':'' # v] else [])). starts_with (USERS @ '':'') g} =
    insert (USERS @ CHR '':'' # u) (if allow then {USERS @ CHR '':'' # v} else {})"
  by (cases allow; force)+

lemma rules_shape:
  assumes "\<not> P a" "\<not> P b" "\<not> P c" "\<not> P d"
  shows "(\<Union>cmd \<in> set [[p, a, b], p # c # concat (map (\<lambda>g. [d, g]) gs)]. (\<lambda>g. (hd cmd, g)) ` {g \<in> set (tl cmd). P g}) =
    {p} \<times> {g \<in> set gs. P g}"
  using assms by auto

lemma rules_path: "rules_for USERS (path_lockdown_args p grants) = {p} \<times> {g \<in> set grants. starts_with (USERS @ '':'') g}"
  unfolding rules_for_def path_lockdown_args_def by (rule rules_shape) (rule not_users)+

text \<open>
  After the lockdown the group of all users has no rule on the deployed binary and the logs; it
  reads the directory and the configuration, and writes only with \<open>--allow-user-config\<close>.
\<close>

lemma lockdown_users:
  "rules_for USERS (lockdown_icacls_args dir exe config logs services allow) =
     {(dir, USERS @ '':(OI)(CI)R''), (config, USERS @ '':R'')} \<union>
     (if allow then {(dir, USERS @ '':WD''), (config, USERS @ '':M'')} else {})"
  unfolding lockdown_icacls_args_def exe_lockdown_args_def rules_for_append rules_path
  by (simp only: user_rules) auto

end
