(* ===== verification/Windows_Host.thy ===== *)
theory Windows_Host
  imports Windows_Args Linux_Host
begin

text \<open>
  \<open>src/platform/windows.rs\<close>, what the service commands use: the tools with their echoed output, the
  calls of the service control manager, waiting for a service to stop, and the replacement of a
  file that keeps its security descriptor. Calls of the service control manager are recorded in
  the order of the tools, as calls of a program \<open>SCM\<close>; what they answer is a parameter, as are the
  answers of the file system. Logging and what goes to the standard error are not recorded.
\<close>

section \<open>The machine\<close>

record scm_error =
  sc_code :: nat
  sc_text :: string

text \<open>
  \<open>wh_dir\<close> is the directory of the configurations, \<open>wh_same\<close> says whether two paths name one file,
  \<open>wh_replace\<close> is the error of \<open>ReplaceFileW\<close> with what it leaves of the replaced file, \<open>wh_pause\<close>
  by how many milliseconds a wait takes longer than asked for, \<open>wh_exit\<close> prints the exit status of
  the last tool, \<open>wh_args\<close> are the arguments the process was started with. \<open>wh_elevate\<close> is the elevated
  process that is started with a program and a command line: what it leaves on the disk, and how it
  ended as far as its parent can tell. \<open>wh_temp_open\<close> is how creating a temporary file fails that
  does not exist yet.
\<close>

datatype elevated_end =
    Elev_Cancelled
  | Elev_Refused string
  | Elev_Wait_Failed nat string
  | Elev_No_Code string
  | Elev_Exit nat

record win_host =
  wh_os :: host
  wh_editor :: editor
  wh_io :: io
  wh_json :: bool
  wh_elevated :: bool
  wh_dir :: "string list"
  wh_manager :: "string option"
  wh_scm :: "tool_call list \<Rightarrow> tool_call \<Rightarrow> scm_error + string"
  wh_exit :: "tool_call list \<Rightarrow> string"
  wh_same :: "path \<Rightarrow> path \<Rightarrow> bool"
  wh_replace :: "path \<Rightarrow> path \<Rightarrow> (nat \<times> disk_file option) option"
  wh_rename :: "io_error option"
  wh_pause :: "tool_call list \<Rightarrow> nat"
  wh_has_dir :: "string list \<Rightarrow> bool"
  wh_args :: "string list"
  wh_temp_dir :: "string list"
  wh_nanos :: "nat \<Rightarrow> nat"
  wh_temp_open :: "path \<Rightarrow> io_error option"
  wh_elevate :: "path \<Rightarrow> string \<Rightarrow> disk \<Rightarrow> disk \<times> elevated_end"
  wh_from_json :: "string \<Rightarrow> json option"

definition act_rescue :: "'a act \<Rightarrow> (anyhow \<Rightarrow> 'a act) \<Rightarrow> 'a act" where
  "act_rescue f h m = (case f m of (m', Inl e) \<Rightarrow> h e m' | (m', Inr x) \<Rightarrow> (m', Inr x))"

text \<open>The module's \<open>println!\<close>, which in the JSON mode writes to the standard error.\<close>

definition say :: "win_host \<Rightarrow> string \<Rightarrow> unit act" where
  "say W s = (if wh_json W then act_return () else print_line s)"

definition say_all :: "win_host \<Rightarrow> string list \<Rightarrow> unit act" where
  "say_all W ls = act_all (map (say W) ls)"

section \<open>Tools\<close>

definition echo_child_output :: "win_host \<Rightarrow> tool_output \<Rightarrow> unit act" where
  "echo_child_output W o1 = act_when (trim (ou_stdout o1) \<noteq> []) (say W (trim_end (ou_stdout o1)))"

definition run_echoed :: "win_host \<Rightarrow> string \<Rightarrow> string list \<Rightarrow> string \<Rightarrow> (string \<Rightarrow> string) \<Rightarrow> unit act" where
  "run_echoed W program args c failed m =
     (case run_tool (wh_os W) program args m of
        (m', Inl e) \<Rightarrow> (m', Inl (Ctx c (Err e)))
      | (m', Inr o1) \<Rightarrow>
          act_seq (echo_child_output W o1)
            (if ou_success o1 then act_return () else act_fail (Err (failed (wh_exit W (ma_tools m'))))) m')"

definition run_sc :: "win_host \<Rightarrow> string list \<Rightarrow> unit act" where
  "run_sc W args =
     (let line = ''sc.exe '' @ join_str '' '' args in
      run_echoed W ''sc.exe'' args (''failed to run `'' @ line @ ''`'')
        (\<lambda>x. ''`'' @ line @ ''` failed (exit '' @ x @ '')''))"

definition run_icacls :: "win_host \<Rightarrow> string list \<Rightarrow> unit act" where
  "run_icacls W args =
     run_echoed W ''icacls'' args ''failed to run icacls''
       (\<lambda>x. ''icacls failed (exit '' @ x @ '') on `'' @ hd args @ ''`'')"

definition hardening_args :: "string \<Rightarrow> string list list" where
  "hardening_args service =
     [[''sidtype'', service, ''restricted''], [''privs'', service, ''SeChangeNotifyPrivilege'']]"

definition configure_service_hardening :: "win_host \<Rightarrow> string \<Rightarrow> unit act" where
  "configure_service_hardening W service = act_all (map (run_sc W) (hardening_args service))"

definition local_service :: string where
  "local_service = ''NT AUTHORITY'' @ CHR 92 # ''LocalService''"

definition migrate_service_hardening :: "win_host \<Rightarrow> string \<Rightarrow> unit act" where
  "migrate_service_hardening W service =
     act_all (map (\<lambda>args. ignore (run_sc W args))
       ([''config'', service, ''obj='', local_service] # hardening_args service))"

section \<open>The service control manager\<close>

definition ERROR_SERVICE_EXISTS :: nat where "ERROR_SERVICE_EXISTS = 1073"

definition ERROR_SERVICE_DOES_NOT_EXIST :: nat where "ERROR_SERVICE_DOES_NOT_EXIST = 1060"

definition ERROR_SERVICE_MARKED_FOR_DELETE :: nat where "ERROR_SERVICE_MARKED_FOR_DELETE = 1072"

definition open_manager :: "win_host \<Rightarrow> unit act" where
  "open_manager W =
     (case wh_manager W of
        None \<Rightarrow> act_return ()
      | Some e \<Rightarrow> act_fail (Ctx ''failed to open the service control manager (elevated rights required)'' (Err e)))"

definition scm_call :: "string \<Rightarrow> string \<Rightarrow> string list \<Rightarrow> tool_call" where
  "scm_call op1 service extra = (''SCM'', op1 # service # extra)"

definition scm :: "win_host \<Rightarrow> string \<Rightarrow> string \<Rightarrow> string list \<Rightarrow> computer \<Rightarrow> computer \<times> (scm_error + string)" where
  "scm W op1 service extra m =
     (m\<lparr>ma_tools := ma_tools m @ [scm_call op1 service extra]\<rparr>, wh_scm W (ma_tools m) (scm_call op1 service extra))"

definition scm_act :: "win_host \<Rightarrow> string \<Rightarrow> string \<Rightarrow> (scm_error \<Rightarrow> anyhow) \<Rightarrow> string act" where
  "scm_act W op1 service err m =
     map_prod id (\<lambda>r. case r of Inl e \<Rightarrow> Inl (err e) | Inr s \<Rightarrow> Inr s) (scm W op1 service [] m)"

definition scm_context :: "string \<Rightarrow> scm_error \<Rightarrow> anyhow" where
  "scm_context c e = Ctx c (Err (sc_text e))"

text \<open>Whether a service can be opened; the manager that cannot be opened has none.\<close>

definition scm_has_service :: "win_host \<Rightarrow> string \<Rightarrow> bool act" where
  "scm_has_service W service m =
     (if wh_manager W \<noteq> None then (m, Inr False)
      else map_prod id (\<lambda>r. Inr (is_ok r)) (scm W ''open'' service [] m))"

definition STOP_WAIT_TIMEOUT :: nat where "STOP_WAIT_TIMEOUT = 15000"

definition STOP_POLL_INTERVAL :: nat where "STOP_POLL_INTERVAL = 250"

text \<open>
  The polling loop of \<open>stop_and_wait\<close> and \<open>uninstall\<close>, after \<open>elapsed\<close> milliseconds: whether the
  service stopped before the deadline.
\<close>

function stop_poll :: "win_host \<Rightarrow> string \<Rightarrow> string \<Rightarrow> nat \<Rightarrow> bool act" where
  "stop_poll W service c elapsed m =
     (case scm_act W ''query'' service (scm_context c) m of
        (m', Inl e) \<Rightarrow> (m', Inl e)
      | (m', Inr state) \<Rightarrow>
          if state = ''Stopped'' then (m', Inr True)
          else if STOP_WAIT_TIMEOUT \<le> elapsed then (m', Inr False)
          else stop_poll W service c (elapsed + STOP_POLL_INTERVAL + wh_pause W (ma_tools m')) m')"
  by pat_completeness auto

termination
  by (relation "measure (\<lambda>(W, service, c, elapsed, m). STOP_WAIT_TIMEOUT - elapsed)")
    (auto simp: STOP_POLL_INTERVAL_def)

declare stop_poll.simps [simp del]

definition stop_and_wait :: "win_host \<Rightarrow> string \<Rightarrow> unit act" where
  "stop_and_wait W service =
     (let q = (\<lambda>s. '' '' @ CHR 39 # s @ [CHR 39]) in
      act_bind (scm_act W ''query'' service (scm_context (''failed to query status of'' @ q service))) (\<lambda>state.
      if state = ''Stopped'' then act_return ()
      else
        act_seq (scm_act W ''stop'' service (scm_context (''failed to send STOP to'' @ q service)))
       (act_bind (stop_poll W service (''failed to poll status of'' @ q service) 0) (\<lambda>stopped.
        if stopped then act_return ()
        else act_fail (Err (''service'' @ q service @ '' did not stop within 15s''))))))"

section \<open>Files\<close>

definition replace_file_preserving_security :: "win_host \<Rightarrow> path \<Rightarrow> path \<Rightarrow> unit act" where
  "replace_file_preserving_security W replacement replaced m =
     (let w = ma_disk m;
          remove = (\<lambda>m. fst (ignore (remove_file (wh_os W) replacement) m)) in
      case (if path_exists w replaced then wh_replace W replacement replaced else Some (2, None)) of
        None \<Rightarrow>
          (m\<lparr>ma_disk := w(replaced := map_option (\<lambda>f. f\<lparr>f_mode := f_mode (the (w replaced))\<rparr>) (w replacement),
               replacement := None)\<rparr>, Inr ())
      | Some (code, left) \<Rightarrow>
          (let m1 = m\<lparr>ma_disk := w(replaced := left)\<rparr> in
           if code = 2 \<or> code = 3 then
             (case wh_rename W of
                None \<Rightarrow> (m1\<lparr>ma_disk := (ma_disk m1)(replaced := w replacement, replacement := None)\<rparr>, Inr ())
              | Some e \<Rightarrow> (remove m1, Inl (Ctx (''failed to create '' @ win_path replaced @ '' from '' @
                    win_path replacement) (Err (ie_text e)))))
           else (remove m1, Inl (Err (''failed to replace '' @ win_path replaced @
             '' preserving its security descriptor (winerror '' @ string_of_nat code @ '')'')))))"

definition copy_tmp :: "win_host \<Rightarrow> path \<Rightarrow> path" where
  "copy_tmp W dest = (fst dest, snd dest @ ''.tmp'' @ string_of_nat (io_pid (wh_io W)))"

definition ensure_binary_copy :: "win_host \<Rightarrow> path \<Rightarrow> path \<Rightarrow> unit act" where
  "ensure_binary_copy W source dest =
     (if wh_same W source dest then act_return ()
      else
        let tmp = copy_tmp W dest in
        act_rescue (act_seq (copy_file (wh_os W) source tmp) (replace_file_preserving_security W tmp dest)) (\<lambda>e.
          act_seq (ignore (remove_file (wh_os W) tmp))
            (act_fail (Ctx (''failed to copy '' @ win_path source @ '' to '' @ win_path dest @
              '' (is the service running from '' @ win_path dest @
              ''? run `rathole-x service uninstall --yes` first)'') e))))"

text \<open>\<open>grant_users_modify\<close> and \<open>grant_service_access\<close>.\<close>

definition grant_users_modify :: "win_host \<Rightarrow> path \<Rightarrow> unit act" where
  "grant_users_modify W p =
     on_machine (\<lambda>m. act_when (path_exists (ma_disk m) p)
       (ignore (tool_succeeds (wh_os W) ''icacls'' [win_path p, ''/grant'', USERS @ '':M''])))"

definition grant_service_access :: "win_host \<Rightarrow> string \<Rightarrow> path \<Rightarrow> unit act" where
  "grant_service_access W service config =
     act_seq (act_context (''failed to create log directory for '' @ win_path config)
        (create_dir_all (wh_os W) (fst config @ [''logs''])))
       (act_all (map (run_icacls W) (service_access_grant_args service config)))"

section \<open>The installed services\<close>

text \<open>\<open>list_installed_services\<close> of \<open>src/config_edit.rs\<close>, on the directory of the platform.\<close>

definition installed_in :: "editor \<Rightarrow> io \<Rightarrow> string list \<Rightarrow> disk \<Rightarrow> (string \<times> service_role) list" where
  "installed_in ED os dir w =
     (case io_read_dir os dir of
        None \<Rightarrow> []
      | Some names \<Rightarrow> sort (List.map_filter (\<lambda>f.
          case stem_extension f of (stem, ext) \<Rightarrow>
            if ext \<noteq> Some ''toml'' \<or> stem = ''version'' then None
            else Option.bind (ok_option (load_document ED os w (dir, f))) (\<lambda>doc.
                 map_option (\<lambda>role. (stem, role)) (ok_option (detect_role doc)))) names))"

lemma installed_in_config_dir: "installed_in ED os config_dir w = list_installed_services ED os w"
proof -
  have "installed_service ED os w = (\<lambda>f.
          case stem_extension f of (stem, ext) \<Rightarrow>
            if ext \<noteq> Some ''toml'' \<or> stem = ''version'' then None
            else Option.bind (ok_option (load_document ED os w (config_dir, f))) (\<lambda>doc.
                 map_option (\<lambda>role. (stem, role)) (ok_option (detect_role doc))))"
    by (rule ext) (rule installed_service_def)
  then show ?thesis by (simp only: installed_in_def list_installed_services_def)
qed

definition win_services :: "win_host \<Rightarrow> disk \<Rightarrow> (string \<times> service_role) list" where
  "win_services W w = installed_in (wh_editor W) (wh_io W) (wh_dir W) w"

definition managed_service_names :: "win_host \<Rightarrow> disk \<Rightarrow> string \<Rightarrow> string list" where
  "managed_service_names W w extra =
     (let out = map (\<lambda>(name, role). scm_name role name) (win_services W w) in
      remdups_adj (sort (if extra \<in> set out then out else out @ [extra])))"

text \<open>The role a configuration declares, when it can be read and parsed.\<close>

definition config_role :: "win_host \<Rightarrow> disk \<Rightarrow> path \<Rightarrow> service_role option" where
  "config_role W w p =
     Option.bind (ok_option (read_to_string (wh_io W) w p)) (\<lambda>c.
     map_option (\<lambda>c. if cfg_client c \<noteq> None then Role_Client else Role_Server)
       (ok_option (ed_config (wh_editor W) c)))"

section \<open>Which calls an action makes\<close>

text \<open>
  \<open>call_answered W before c\<close>: the call \<open>c\<close>, made after the calls \<open>before\<close>, succeeds. \<open>makes W cs f\<close>: the
  action makes the calls \<open>cs\<close> in this order, all of them and each with success when it succeeds,
  some first of them when it fails; a failure after the last call is possible too.
\<close>

named_theorems trace_intros \<open>the calls of the actions\<close>

definition call_answered :: "win_host \<Rightarrow> tool_call list \<Rightarrow> tool_call \<Rightarrow> bool" where
  "call_answered W before c \<longleftrightarrow>
     (if fst c = ''SCM'' then is_ok (wh_scm W before c)
      else case ho_run (wh_os W) before c of Inl _ \<Rightarrow> False | Inr o1 \<Rightarrow> ou_success o1)"

fun all_answered :: "win_host \<Rightarrow> tool_call list \<Rightarrow> tool_call list \<Rightarrow> bool" where
  "all_answered W before [] \<longleftrightarrow> True"
| "all_answered W before (c # cs) \<longleftrightarrow> call_answered W before c \<and> all_answered W (before @ [c]) cs"

lemma all_answered_append [simp]:
  "all_answered W before (cs @ ds) \<longleftrightarrow> all_answered W before cs \<and> all_answered W (before @ cs) ds"
  by (induction cs arbitrary: before) simp_all

definition makes :: "win_host \<Rightarrow> tool_call list \<Rightarrow> 'a act \<Rightarrow> bool" where
  "makes W cs f \<longleftrightarrow> (\<forall>m. \<exists>k \<le> length cs. ma_tools (fst (f m)) = ma_tools m @ take k cs \<and>
     (is_ok (snd (f m)) \<longrightarrow> k = length cs \<and> all_answered W (ma_tools m) cs))"

lemma makesD:
  assumes "makes W cs f" "f m = (m', r)"
  obtains k where "k \<le> length cs" "ma_tools m' = ma_tools m @ take k cs"
    "is_ok r \<Longrightarrow> k = length cs \<and> all_answered W (ma_tools m) cs"
  using assms unfolding makes_def by (metis fst_conv snd_conv)

lemma makes_silent:
  assumes "\<And>m. ma_tools (fst (f m)) = ma_tools m"
  shows "makes W [] f"
  using assms by (simp add: makes_def)

lemma makes_leaf [trace_intros]:
  "makes W [] (act_return x)" "makes W [] (act_lift r)" "makes W [] (print_line s)" "makes W [] (say V s)"
  "makes W [] (create_dir_all H d)" "makes W [] (write_file H p content)" "makes W [] (remove_file H p)"
  "makes W [] (copy_file H src p)" "makes W [] (open_manager V)"
  by (rule makes_silent; simp add: say_def create_dir_all_def write_file_def remove_file_def copy_file_def
      open_manager_def split: option.split sum.split prod.split)+

lemma makes_bind [trace_intros]:
  assumes "makes W cs f" "\<And>x. makes W ds (k x)"
  shows "makes W (cs @ ds) (act_bind f k)"
  unfolding makes_def
proof
  fix m
  obtain m1 r where f: "f m = (m1, r)" by (cases "f m")
  obtain i where i: "i \<le> length cs" "ma_tools m1 = ma_tools m @ take i cs"
    "is_ok r \<Longrightarrow> i = length cs \<and> all_answered W (ma_tools m) cs"
    using makesD [OF assms(1) f] by blast
  show "\<exists>j \<le> length (cs @ ds). ma_tools (fst (act_bind f k m)) = ma_tools m @ take j (cs @ ds) \<and>
      (is_ok (snd (act_bind f k m)) \<longrightarrow> j = length (cs @ ds) \<and> all_answered W (ma_tools m) (cs @ ds))"
  proof (cases r)
    case (Inl e)
    then show ?thesis using f i by (intro exI [of _ i]) (simp add: act_bind_def)
  next
    case (Inr x)
    obtain m2 s where k: "k x m1 = (m2, s)" by (cases "k x m1")
    obtain j where "j \<le> length ds" "ma_tools m2 = ma_tools m1 @ take j ds"
      "is_ok s \<Longrightarrow> j = length ds \<and> all_answered W (ma_tools m1) ds"
      using makesD [OF assms(2) k] by blast
    then show ?thesis using f k i Inr by (intro exI [of _ "length cs + j"]) (simp add: act_bind_def)
  qed
qed

lemma makes_context [trace_intros]: "makes W cs f \<Longrightarrow> makes W cs (act_context c f)"
  by (simp add: makes_def act_context_def)

lemma makes_ignore [trace_intros]: "makes W [] f \<Longrightarrow> makes W [] (ignore f)"
  by (simp add: makes_def ignore_def)

lemma makes_if [trace_intros]: "makes W cs f \<Longrightarrow> makes W cs g \<Longrightarrow> makes W cs (if b then f else g)"
  by simp

lemma makes_when [trace_intros]: "makes W [] f \<Longrightarrow> makes W [] (act_when b f)"
  by (simp add: act_when_def makes_leaf)

lemma makes_all:
  assumes "list_all2 (makes W) css fs"
  shows "makes W (concat css) (act_all fs)"
  using assms
proof (induction rule: list_all2_induct)
  case Nil
  show ?case unfolding act_all.simps concat.simps by (rule makes_leaf)
next
  case (Cons cs css f fs)
  then show ?case unfolding act_all.simps concat.simps by (intro makes_bind)
qed

lemma makes_map_all: "(\<And>x. x \<in> set xs \<Longrightarrow> makes W (g x) (f x)) \<Longrightarrow> makes W (concat (map g xs)) (act_all (map f xs))"
  using makes_all [of W "map g xs" "map f xs"] by (simp add: list_all2_conv_all_nth)

lemma makes_map_calls: "(\<And>x. x \<in> set xs \<Longrightarrow> makes W [g x] (f x)) \<Longrightarrow> makes W (map g xs) (act_all (map f xs))"
  using makes_map_all [of xs W "\<lambda>x. [g x]" f] by (simp add: concat_map_singleton)

lemma echo_silent:
  "ma_tools (fst (echo_child_output W o1 m)) = ma_tools m" "echo_child_output W o1 m = (m', r) \<Longrightarrow> r = Inr ()"
  by (auto simp: echo_child_output_def act_when_def say_def split: if_splits)

lemma makes_echoed:
  assumes "program \<noteq> ''SCM''"
  shows "makes W [(program, args)] (run_echoed W program args c failed)"
  unfolding makes_def
proof
  fix m :: computer
  let ?c = "(program, args)" and ?m = "m\<lparr>ma_tools := ma_tools m @ [(program, args)]\<rparr>"
  show "\<exists>k \<le> length [?c]. ma_tools (fst (run_echoed W program args c failed m)) = ma_tools m @ take k [?c] \<and>
     (is_ok (snd (run_echoed W program args c failed m)) \<longrightarrow> k = length [?c] \<and> all_answered W (ma_tools m) [?c])"
  proof (cases "ho_run (wh_os W) (ma_tools m) ?c")
    case (Inl e)
    then show ?thesis by (intro exI [of _ 1]) (simp add: run_echoed_def run_tool_def is_ok_def)
  next
    case (Inr o1)
    obtain m1 where e: "echo_child_output W o1 ?m = (m1, Inr ())"
      using echo_silent(2) by (cases "echo_child_output W o1 ?m") blast
    then have "ma_tools m1 = ma_tools m @ [?c]" using echo_silent(1) [of W o1 ?m] by simp
    then show ?thesis using Inr e assms
      by (intro exI [of _ 1]) (simp add: run_echoed_def run_tool_def act_bind_def call_answered_def is_ok_def)
  qed
qed

lemma makes_tools [trace_intros]:
  "makes W [(''sc.exe'', args)] (run_sc W args)" "makes W [(''icacls'', args)] (run_icacls W args)"
  by (simp_all add: run_sc_def run_icacls_def Let_def makes_echoed)

lemma makes_hardening [trace_intros]:
  "makes W (map (Pair ''sc.exe'') (hardening_args service)) (configure_service_hardening W service)"
  unfolding configure_service_hardening_def by (rule makes_map_calls) (rule makes_tools)

lemma makes_icacls_all: "makes W (map (Pair ''icacls'') cmds) (act_all (map (run_icacls W) cmds))"
  by (rule makes_map_calls) (rule makes_tools)

lemma replace_silent: "makes W [] (replace_file_preserving_security V a b)"
  by (rule makes_silent)
    (auto simp: replace_file_preserving_security_def Let_def ignore_def remove_file_def split: option.split)

lemma makes_rescue:
  assumes "makes W [] f" "\<And>e. makes W [] (h e)"
  shows "makes W [] (act_rescue f h)"
  using assms by (auto simp: makes_def act_rescue_def split: prod.split sum.split) (metis fst_conv)+

lemma makes_copy [trace_intros]: "makes W [] (ensure_binary_copy V src dest)"
proof -
  have "makes W ([] @ []) (act_seq (copy_file H src p) (replace_file_preserving_security V p dest))" for H p
    by (intro trace_intros replace_silent)
  moreover have "makes W ([] @ []) (act_seq (ignore (remove_file H p)) (act_lift r) :: unit act)" for H p r
    by (intro trace_intros)
  ultimately show ?thesis
    by (simp add: ensure_binary_copy_def Let_def makes_leaf makes_rescue)
qed

section \<open>Waiting is bounded\<close>

text \<open>
  A query every quarter of a second, for fifteen seconds: at most 61 calls, and the service is
  taken for stopped only when a query said so.
\<close>

lemma stop_poll_calls:
  assumes "stop_poll W service c elapsed m = (m', r)"
  shows "\<exists>n. ma_tools m' = ma_tools m @ replicate (Suc n) (scm_call ''query'' service []) \<and>
      n * STOP_POLL_INTERVAL \<le> STOP_WAIT_TIMEOUT - elapsed + (STOP_POLL_INTERVAL - 1) \<and>
      ma_disk m' = ma_disk m \<and> ma_printed m' = ma_printed m \<and>
      (r = Inr True \<longrightarrow> wh_scm W (butlast (ma_tools m')) (scm_call ''query'' service []) = Inr ''Stopped'')"
  using assms
proof (induction W service c elapsed m rule: stop_poll.induct)
  case (1 W service c elapsed m)
  let ?q = "scm_call ''query'' service []" and ?m = "m\<lparr>ma_tools := ma_tools m @ [scm_call ''query'' service []]\<rparr>"
  have scm: "scm_act W ''query'' service (scm_context c) m =
      (?m, case wh_scm W (ma_tools m) ?q of Inl e \<Rightarrow> Inl (scm_context c e) | Inr s \<Rightarrow> Inr s)"
    by (simp add: scm_act_def scm_def)
  show ?case
  proof (cases "\<exists>s. wh_scm W (ma_tools m) ?q = Inr s \<and> s \<noteq> ''Stopped'' \<and> elapsed < STOP_WAIT_TIMEOUT")
    case True
    then obtain s where s: "wh_scm W (ma_tools m) ?q = Inr s" "s \<noteq> ''Stopped''" "elapsed < STOP_WAIT_TIMEOUT"
      by blast
    let ?e = "elapsed + STOP_POLL_INTERVAL + wh_pause W (ma_tools ?m)"
    have "stop_poll W service c ?e ?m = (m', r)"
      using "1.prems" s by (subst (asm) stop_poll.simps) (simp add: scm)
    from "1.IH" [OF _ _ s(2) _ this] scm s obtain n where
      n: "ma_tools m' = ma_tools ?m @ replicate (Suc n) ?q"
        "n * STOP_POLL_INTERVAL \<le> STOP_WAIT_TIMEOUT - ?e + (STOP_POLL_INTERVAL - 1)"
        "ma_disk m' = ma_disk ?m" "ma_printed m' = ma_printed ?m"
        "r = Inr True \<longrightarrow> wh_scm W (butlast (ma_tools m')) ?q = Inr ''Stopped''"
      by auto
    have "Suc n * STOP_POLL_INTERVAL \<le> STOP_WAIT_TIMEOUT - elapsed + (STOP_POLL_INTERVAL - 1)"
      using n(2) s(3) by (cases n) (auto simp: STOP_POLL_INTERVAL_def split: nat_diff_split_asm)
    then show ?thesis using n by (intro exI [of _ "Suc n"]) simp
  next
    case False
    then show ?thesis using "1.prems"
      by (subst (asm) stop_poll.simps, intro exI [of _ 0])
        (auto simp: scm split: sum.splits if_splits)
  qed
qed

end
