(* ===== verification/Windows_Relay.thy ===== *)
theory Windows_Relay
  imports Windows_Host Linux_Service
begin

text \<open>
  The elevation relay of \<open>src/platform/windows.rs\<close>: the command is run again by an elevated process
  that writes to a log, and what the log holds is printed here. Starting the process is recorded
  as a call of \<open>runas\<close> with the program and its command line; setting an environment variable as a
  call of \<open>ENV\<close>. The name of the log is made of the clock, which is a parameter.
\<close>

section \<open>Lines\<close>

definition strip_cr :: "string \<Rightarrow> string" where
  "strip_cr s = (if s \<noteq> [] \<and> last s = CHR 13 then butlast s else s)"

text \<open>\<open>str::lines\<close>.\<close>

definition str_lines :: "string \<Rightarrow> string list" where
  "str_lines s =
     (let ls = split_on (CHR 10) s in
      map strip_cr (butlast ls) @ (if last ls = [] then [] else [last ls]))"

section \<open>The elevated process\<close>

definition elevation_log_candidate :: "win_host \<Rightarrow> nat \<Rightarrow> path" where
  "elevation_log_candidate W attempt =
     (wh_temp_dir W, ''rathole-x-elev-'' @ string_of_nat (io_pid (wh_io W)) @ ''-'' @
        string_of_nat (wh_nanos W attempt) @ ''-'' @ string_of_nat attempt @ ''.log'')"

fun pick_log :: "win_host \<Rightarrow> nat list \<Rightarrow> path act" where
  "pick_log W [] m = (m, Inl (Err ''failed to pick a free elevation log path after 8 attempts''))"
| "pick_log W (k # ks) m =
     (let candidate = elevation_log_candidate W k in
      if path_exists (ma_disk m) candidate then pick_log W ks m
      else case wh_temp_open W candidate of
        Some e \<Rightarrow> (m, Inl (Ctx ''failed to create the elevation log file'' (Err (ie_text e))))
      | None \<Rightarrow>
          (fst (ignore (remove_file (wh_os W) candidate)
             (m\<lparr>ma_disk := (ma_disk m)(candidate \<mapsto> \<lparr>f_content = [], f_mode = ho_mode (wh_os W)\<rparr>)\<rparr>)), Inr candidate))"

definition pick_elevated_log_path :: "win_host \<Rightarrow> path act" where
  "pick_elevated_log_path W = pick_log W [0..<8]"

definition current_exe :: "win_host \<Rightarrow> path act" where
  "current_exe W =
     act_lift (case ho_exe (wh_os W) of
         Inl e \<Rightarrow> Inl (Ctx ''failed to resolve current executable path'' (Err (ie_text e))) | Inr p \<Rightarrow> Inr p)"

definition run_elevated :: "win_host \<Rightarrow> path \<Rightarrow> string \<Rightarrow> elevated_end act" where
  "run_elevated W exe line m =
     (case wh_elevate W exe line (ma_disk m) of (w, e) \<Rightarrow>
        (m\<lparr>ma_disk := w, ma_tools := ma_tools m @ [(''runas'', [win_path exe, line])]\<rparr>, Inr e))"

definition elevation_log :: "win_host \<Rightarrow> disk \<Rightarrow> path \<Rightarrow> string" where
  "elevation_log W w log =
     (case read_to_string (wh_io W) w log of
        Inr s \<Rightarrow> s
      | Inl e \<Rightarrow> ''<(elevation log '' @ win_path log @ '' unreadable: '' @ ie_text e @ '')'')"

text \<open>What the parent makes of the end of the elevated process.\<close>

definition elevated_answer :: "win_host \<Rightarrow> path \<Rightarrow> elevated_end \<Rightarrow> string act" where
  "elevated_answer W log e =
     (case e of
       Elev_Cancelled \<Rightarrow> act_fail (Err ''UAC elevation cancelled by user'')
     | Elev_Refused why \<Rightarrow> act_fail (Err (''failed to relaunch elevated: '' @ why))
     | Elev_Wait_Failed n why \<Rightarrow>
         act_fail (Err (''failed waiting on the elevated process (WaitForSingleObject returned '' @
           string_of_nat n @ '': '' @ why @ '')''))
     | Elev_No_Code why \<Rightarrow> act_fail (Err (''failed to read the elevated process exit code: '' @ why))
     | Elev_Exit code \<Rightarrow> on_machine (\<lambda>m.
         let out = elevation_log W (ma_disk m) log in
         if code \<noteq> 0 then
           act_fail (Err (''elevated command failed (exit code '' @ string_of_nat code @
             ''); full output kept at '' @ win_path log @ '':'' @ CHR 10 # trim out))
         else act_seq (ignore (remove_file (wh_os W) log)) (act_return out)))"

definition relaunch_elevated_wait :: "win_host \<Rightarrow> string list \<Rightarrow> string act" where
  "relaunch_elevated_wait W args =
     act_bind (current_exe W) (\<lambda>exe.
     act_bind (pick_elevated_log_path W) (\<lambda>log.
     act_bind (run_elevated W exe (relay_command_line args (win_path log))) (elevated_answer W log)))"

section \<open>Replaying its output\<close>

definition relayed_call :: tool_call where
  "relayed_call = (''ENV'', [''RATHOLE_X_JSON_RELAYED'', ''1''])"

definition mark_relayed :: "unit act" where
  "mark_relayed m = (m\<lparr>ma_tools := ma_tools m @ [relayed_call]\<rparr>, Inr ())"

definition is_envelope :: "win_host \<Rightarrow> string \<Rightarrow> bool" where
  "is_envelope W line =
     (case wh_from_json W line of Some (J_Object kvs) \<Rightarrow> map_of kvs ''ok'' \<noteq> None | _ \<Rightarrow> False)"

text \<open>Without the JSON mode the text is printed as it is; in it, other lines go to the standard error.\<close>

definition replay_elevated_output :: "win_host \<Rightarrow> string \<Rightarrow> unit act" where
  "replay_elevated_output W out =
     (if \<not> wh_json W then print_line out
      else case filter (is_envelope W) (str_lines out) of
        [] \<Rightarrow> act_fail (Err ''elevated command completed without a JSON result envelope'')
      | ls \<Rightarrow> act_seq mark_relayed (print_line (last ls)))"

definition elevate_and_replay :: "win_host \<Rightarrow> unit act" where
  "elevate_and_replay W = act_bind (relaunch_elevated_wait W (wh_args W)) (replay_elevated_output W)"

text \<open>Whether the elevated process already did the work.\<close>

definition win_elevate_for_config_if_needed :: "win_host \<Rightarrow> path \<Rightarrow> bool act" where
  "win_elevate_for_config_if_needed W p m =
     (case writable_by_current_user (wh_io W) p (ma_disk m) of (w, writable) \<Rightarrow>
        let m1 = m\<lparr>ma_disk := w\<rparr> in
        if \<not> writable \<and> \<not> wh_elevated W then
          act_seq (say W ''Requesting administrator rights (UAC) to modify the service config...'')
            (act_seq (elevate_and_replay W) (act_return True)) m1
        else (m1, Inr False))"

text \<open>\<open>run\<close> of \<open>src/lib.rs\<close>: the envelope, unless an elevated process printed it.\<close>

definition run_relayed :: "win_host \<Rightarrow> (json \<Rightarrow> string) \<Rightarrow> 'a act \<Rightarrow> ('a \<Rightarrow> json) \<Rightarrow> unit act" where
  "run_relayed W json_text f answer m =
     (case f m of (m', r) \<Rightarrow>
        (if wh_json W \<and> relayed_call \<notin> set (drop (length (ma_tools m)) (ma_tools m')) then
           m'\<lparr>ma_printed := ma_printed m' @ [json_text (case r of
              Inr v \<Rightarrow> json_success_envelope (answer v) | Inl e \<Rightarrow> json_failure_envelope e)]\<rparr>
         else m',
         map_sum id (\<lambda>_. ()) r))"

section \<open>What the relay does\<close>

lemma remove_file_silent: "ma_tools (fst (remove_file H p m)) = ma_tools m" "ma_printed (fst (remove_file H p m)) = ma_printed m"
  by (simp_all add: remove_file_def split: option.split)

lemma pick_log_silent:
  "pick_log W ks m = (m', r) \<Longrightarrow> ma_tools m' = ma_tools m \<and> ma_printed m' = ma_printed m"
  by (induction W ks m rule: pick_log.induct)
    (auto simp: Let_def ignore_def remove_file_silent split: if_splits option.splits)

lemma pick_log_ok:
  assumes "pick_log W ks m = (m', Inr log)"
  shows "log \<in> elevation_log_candidate W ` set ks \<and> \<not> path_exists (ma_disk m) log \<and>
    (\<forall>p. p \<noteq> log \<longrightarrow> ma_disk m' p = ma_disk m p) \<and>
    (ho_unlink (wh_os W) log = None \<longrightarrow> ma_disk m' = ma_disk m)"
  using assms
proof (induction ks)
  case (Cons k ks)
  show ?case
  proof (cases "path_exists (ma_disk m) (elevation_log_candidate W k)")
    case True
    then show ?thesis using Cons by (simp add: Let_def)
  next
    case False
    then show ?thesis using Cons.prems
      by (cases "ho_unlink (wh_os W) (elevation_log_candidate W k)")
        (auto simp: Let_def ignore_def remove_file_def path_exists_def fun_upd_idem simp del: fun_upd_apply
          split: option.splits, simp_all)
  qed
qed simp

lemma elevated_answer_silent:
  "ma_tools (fst (elevated_answer W log e m)) = ma_tools m" "ma_printed (fst (elevated_answer W log e m)) = ma_printed m"
  by (cases e; simp add: elevated_answer_def Let_def act_bind_def ignore_def remove_file_silent)+

lemma elevated_answer_ok:
  "elevated_answer W log e m = (m', Inr out) \<Longrightarrow> e = Elev_Exit 0 \<and> out = elevation_log W (ma_disk m) log \<and>
    ma_disk m' = (if ho_unlink (wh_os W) log = None then (ma_disk m)(log := None) else ma_disk m)"
  by (cases e)
    (auto simp: elevated_answer_def Let_def act_bind_def ignore_def remove_file_def path_exists_def fun_upd_idem
      split: if_splits option.splits)

lemma relayed_not_runas: "relayed_call \<noteq> (''runas'', args)"
  by (simp add: relayed_call_def)

lemma relaunch_ok:
  assumes "relaunch_elevated_wait W args m = (m', Inr out)"
  shows "\<exists>exe log line w0 w. ho_exe (wh_os W) = Inr exe \<and>
    argv_words line = strip_relay_flags args @ [elevated_log_flag, win_path log, confirmed_flag] \<and>
    \<not> path_exists (ma_disk m) log \<and> (\<forall>p. p \<noteq> log \<longrightarrow> w0 p = ma_disk m p) \<and>
    wh_elevate W exe line w0 = (w, Elev_Exit 0) \<and> out = elevation_log W w log \<and>
    ma_disk m' = (if ho_unlink (wh_os W) log = None then w(log := None) else w) \<and>
    ma_tools m' = ma_tools m @ [(''runas'', [win_path exe, line])] \<and> ma_printed m' = ma_printed m"
proof -
  let ?line = "\<lambda>log. relay_command_line args (win_path log)"
  obtain exe m1 log e m3 where s: "ho_exe (wh_os W) = Inr exe" "pick_log W [0..<8] m = (m1, Inr log)"
    "run_elevated W exe (?line log) m1 = (m3, Inr e)" "elevated_answer W log e m3 = (m', Inr out)"
    using assms unfolding relaunch_elevated_wait_def act_bind_Inr current_exe_def pick_elevated_log_path_def
    by (auto split: sum.splits)
  obtain w where w: "wh_elevate W exe (?line log) (ma_disk m1) = (w, e)"
    "m3 = m1\<lparr>ma_disk := w, ma_tools := ma_tools m1 @ [(''runas'', [win_path exe, ?line log])]\<rparr>"
    using s(3) by (auto simp: run_elevated_def split: prod.splits)
  have words: "argv_words (?line log) = strip_relay_flags args @ [elevated_log_flag, win_path log, confirmed_flag]"
    unfolding relay_command_line_def argv_words_join by (simp only: relay_params_def)
  have a: "ma_tools m' = ma_tools m3" "ma_printed m' = ma_printed m3"
    using elevated_answer_silent [of W log e m3] s(4) by simp_all
  show ?thesis
    using s(1) pick_log_ok [OF s(2)] pick_log_silent [OF s(2)] w words a elevated_answer_ok [OF s(4)]
    by (intro exI [of _ exe] exI [of _ log] exI [of _ "?line log"] exI [of _ "ma_disk m1"] exI [of _ w]) simp
qed

lemma relaunch_silent:
  assumes "relaunch_elevated_wait W args m = (m', r)"
  shows "ma_printed m' = ma_printed m \<and> (\<exists>calls. ma_tools m' = ma_tools m @ calls \<and> relayed_call \<notin> set calls)"
proof (cases "ho_exe (wh_os W)")
  case (Inl e)
  then show ?thesis using assms by (simp add: relaunch_elevated_wait_def act_bind_def current_exe_def)
next
  case (Inr exe)
  obtain m1 l where p: "pick_log W [0..<8] m = (m1, l)" by (cases "pick_log W [0..<8] m")
  show ?thesis
  proof (cases l)
    case (Inl e)
    then show ?thesis using assms pick_log_silent [OF p] p Inr
      by (simp add: relaunch_elevated_wait_def act_bind_def current_exe_def pick_elevated_log_path_def)
  next
    case (Inr log)
    let ?line = "relay_command_line args (win_path log)"
    obtain w e where w: "wh_elevate W exe ?line (ma_disk m1) = (w, e)" by (cases "wh_elevate W exe ?line (ma_disk m1)")
    let ?m3 = "m1\<lparr>ma_disk := w, ma_tools := ma_tools m1 @ [(''runas'', [win_path exe, ?line])]\<rparr>"
    have "relaunch_elevated_wait W args m = elevated_answer W log e ?m3"
      using p w Inr \<open>ho_exe (wh_os W) = Inr exe\<close>
      by (simp add: relaunch_elevated_wait_def act_bind_def current_exe_def pick_elevated_log_path_def run_elevated_def)
    then have "m' = fst (elevated_answer W log e ?m3)" using assms by (metis fst_conv)
    then show ?thesis
      using elevated_answer_silent [of W log e ?m3] pick_log_silent [OF p]
      by (intro conjI exI [of _ "[(''runas'', [win_path exe, ?line])]"]) (simp_all add: relayed_not_runas)
  qed
qed

lemma replay_ok:
  "replay_elevated_output W out m = (m', Inr x) \<Longrightarrow>
     ma_disk m' = ma_disk m \<and>
     (if wh_json W then filter (is_envelope W) (str_lines out) \<noteq> [] \<and> ma_tools m' = ma_tools m @ [relayed_call] \<and>
        ma_printed m' = ma_printed m @ [last (filter (is_envelope W) (str_lines out))]
      else ma_tools m' = ma_tools m \<and> ma_printed m' = ma_printed m @ [out])"
  by (auto simp: replay_elevated_output_def mark_relayed_def act_bind_def split: if_splits list.splits)

lemma replay_fails: "replay_elevated_output W out m = (m', Inl e) \<Longrightarrow> m' = m \<and> wh_json W"
  by (auto simp: replay_elevated_output_def mark_relayed_def act_bind_def split: if_splits list.splits)

lemma envelope_line:
  assumes "filter (is_envelope W) (str_lines out) \<noteq> []"
  shows "last (filter (is_envelope W) (str_lines out)) \<in> set (str_lines out)"
    and "is_envelope W (last (filter (is_envelope W) (str_lines out)))"
  using last_in_set [OF assms] by auto

text \<open>
  A relay prints nothing before its result is there, and marks the process as relayed exactly when
  it printed an envelope.
\<close>

lemma relay_prints:
  assumes "elevate_and_replay W m = (m', r)"
  shows "\<exists>calls. ma_tools m' = ma_tools m @ calls \<and> (relayed_call \<in> set calls \<longleftrightarrow> wh_json W \<and> is_ok r) \<and>
    (if is_ok r then \<exists>line. ma_printed m' = ma_printed m @ [line] \<and> (wh_json W \<longrightarrow> is_envelope W line)
     else ma_printed m' = ma_printed m)"
proof -
  obtain m1 r1 where l: "relaunch_elevated_wait W (wh_args W) m = (m1, r1)"
    by (cases "relaunch_elevated_wait W (wh_args W) m")
  obtain calls where c: "ma_tools m1 = ma_tools m @ calls" "relayed_call \<notin> set calls" "ma_printed m1 = ma_printed m"
    using relaunch_silent [OF l] by blast
  show ?thesis
  proof (cases r1)
    case (Inl e)
    then show ?thesis using assms l c by (auto simp: elevate_and_replay_def act_bind_def is_ok_def)
  next
    case (Inr out)
    then have p: "replay_elevated_output W out m1 = (m', r)" using assms l by (simp add: elevate_and_replay_def act_bind_def)
    show ?thesis
    proof (cases r)
      case (Inl e)
      then show ?thesis using replay_fails [of W out m1 m' e] p c by (auto simp: is_ok_def)
    next
      case (Inr x)
      with p have "replay_elevated_output W out m1 = (m', Inr x)" by simp
      note ok = replay_ok [OF this]
      show ?thesis
        by (rule exI [of _ "calls @ (if wh_json W then [relayed_call] else [])"])
          (use ok c Inr envelope_line [of W out] in \<open>auto simp: is_ok_def\<close>)
    qed
  qed
qed

section \<open>A sample\<close>

text \<open>A machine on which the elevated process writes its envelope to the log and exits with 0.\<close>

definition sample_answer :: string where
  "sample_answer = ''ok''"

definition sample_log :: path where
  "sample_log = ([''T''], ''rathole-x-elev-'' @ string_of_nat (io_pid sample_io) @ ''-'' @ string_of_nat 0 @ ''-'' @
     string_of_nat 0 @ ''.log'')"

definition sample_win :: win_host where
  "sample_win =
     \<lparr>wh_os = sample_host, wh_editor = sample_editor, wh_io = sample_io, wh_json = True, wh_elevated = False,
      wh_dir = [''C:'', ''rathole-x''], wh_manager = None, wh_scm = (\<lambda>cs c. Inr ''Stopped''), wh_exit = (\<lambda>cs. ''1''),
      wh_same = (\<lambda>p q. p = q), wh_replace = (\<lambda>p q. None), wh_rename = None, wh_pause = (\<lambda>cs. 0),
      wh_has_dir = (\<lambda>d. True), wh_args = [''upgrade'', ''--json''], wh_temp_dir = [''T''], wh_nanos = (\<lambda>k. 0),
      wh_temp_open = (\<lambda>p. None),
      wh_elevate = (\<lambda>exe line w. (w(sample_log \<mapsto> \<lparr>f_content = sample_answer, f_mode = 0\<rparr>), Elev_Exit 0)),
      wh_from_json = (\<lambda>s. if s = sample_answer then Some (J_Object [(''ok'', J_Bool True)]) else None)\<rparr>"

lemma sample_win_simps [simp]:
  "wh_os sample_win = sample_host" "wh_io sample_win = sample_io" "wh_json sample_win" "\<not> wh_elevated sample_win"
  "wh_args sample_win = [''upgrade'', ''--json'']" "wh_temp_dir sample_win = [''T'']" "wh_nanos sample_win k = 0"
  "wh_temp_open sample_win p = None"
  "wh_elevate sample_win exe line w = (w(sample_log \<mapsto> \<lparr>f_content = sample_answer, f_mode = 0\<rparr>), Elev_Exit 0)"
  "wh_from_json sample_win s = (if s = sample_answer then Some (J_Object [(''ok'', J_Bool True)]) else None)"
  by (simp_all add: sample_win_def)

lemma sample_log_candidate: "elevation_log_candidate sample_win 0 = sample_log"
  by (simp add: elevation_log_candidate_def sample_log_def sample_win_def)

lemma sample_log_free: "ma_disk sample_machine sample_log = None"
  by (simp add: sample_log_def sample_machine_def sample_disk_def sample_path_def config_dir_def)

lemma sample_relay:
  "\<exists>m'. elevate_and_replay sample_win sample_machine = (m', Inr ()) \<and> ma_printed m' = [sample_answer]"
proof -
  have u: "[0..<8] = 0 # [1..<8]" by (simp add: upt_rec)
  let ?m = "sample_machine" and ?f = "\<lparr>f_content = sample_answer, f_mode = 0\<rparr>"
  have p: "pick_elevated_log_path sample_win ?m = (?m, Inr sample_log)"
    using sample_log_free
    by (simp add: pick_elevated_log_path_def u sample_log_candidate path_exists_def Let_def ignore_def remove_file_def
        fun_upd_idem)
  have l: "str_lines sample_answer = [sample_answer]" "is_envelope sample_win sample_answer"
    by (simp_all add: str_lines_def sample_answer_def is_envelope_def)
  have e: "elevation_log sample_win (w(sample_log \<mapsto> ?f)) sample_log = sample_answer" for w
    by (simp add: elevation_log_def read_to_string_def sample_io_def)
  have "\<exists>m1. relaunch_elevated_wait sample_win args ?m = (m1, Inr sample_answer) \<and> ma_printed m1 = []" for args
    using p e
    by (simp add: relaunch_elevated_wait_def act_bind_def current_exe_def elevated_answer_def run_elevated_def Let_def
        ignore_def remove_file_silent del: fun_upd_apply) (simp add: sample_machine_def)
  then obtain m1 where "relaunch_elevated_wait sample_win (wh_args sample_win) ?m = (m1, Inr sample_answer)"
    "ma_printed m1 = []" by blast
  then show ?thesis using l
    by (simp add: elevate_and_replay_def act_bind_def replay_elevated_output_def mark_relayed_def)
qed

section \<open>Properties\<close>



end
