(* ===== verification/Windows_Service.thy ===== *)
theory Windows_Service
  imports Windows_Relay
begin

text \<open>
  The service commands of \<open>src/platform/windows.rs\<close>: installing and removing a service of the
  service control manager, the clean-up of its files, control, and the upgrade of the shared
  binary, each with its elevation. A configuration is named with its directory, as the commands
  pass it on.
\<close>

section \<open>Installing\<close>

record service_install_options =
  so_name :: string
  so_role :: service_role
  so_config_path :: path
  so_allow_user_config :: bool

definition quoted :: "string \<Rightarrow> string" where
  "quoted s = CHR 39 # s @ [CHR 39]"

definition logs_dir :: "path \<Rightarrow> string list" where
  "logs_dir config = fst config @ [''logs'']"

definition win_version_stamp :: "string \<Rightarrow> string" where
  "win_version_stamp semver =
     text_lines [''# Written by `rathole-x service install`. Reinstall the service to change this.'',
       ''version = '' @ string_of_nat (unat (major_version semver))]"

definition delete_quietly :: "win_host \<Rightarrow> string \<Rightarrow> unit act" where
  "delete_quietly W service m = (fst (scm W ''delete'' service [] m), Inr ())"

text \<open>A step of an installation that removes the registration when it fails.\<close>

definition rolled_back :: "win_host \<Rightarrow> string \<Rightarrow> string \<Rightarrow> unit act \<Rightarrow> unit act" where
  "rolled_back W service c f = act_rescue f (\<lambda>e. act_seq (delete_quietly W service) (act_fail (Ctx c e)))"

definition win_service_info :: "service_install_options \<Rightarrow> path \<Rightarrow> string list" where
  "win_service_info opts installed =
     (''rathole-x ('' @ scm_name (so_role opts) (so_name opts) @ '')'') # win_path installed #
       launch_arguments (so_config_path opts) @ [local_service]"

definition create_service :: "win_host \<Rightarrow> service_install_options \<Rightarrow> path \<Rightarrow> unit act" where
  "create_service W opts installed m =
     (let service = scm_name (so_role opts) (so_name opts) in
      map_prod id (\<lambda>r. case r of
          Inr _ \<Rightarrow> Inr ()
        | Inl e \<Rightarrow>
            if sc_code e = ERROR_SERVICE_EXISTS then
              Inl (Err (''service '' @ quoted service @
                '' already exists; run `rathole-x service uninstall --yes --name '' @ so_name opts @ ''` first''))
            else Inl (scm_context (''failed to create service '' @ quoted service) e))
        (scm W ''create'' service (win_service_info opts installed) m))"

definition start_or_roll_back :: "win_host \<Rightarrow> string \<Rightarrow> string \<Rightarrow> unit act" where
  "start_or_roll_back W service name m =
     (case scm W ''start'' service [] m of
        (m1, Inr _) \<Rightarrow> (m1, Inr ())
      | (m1, Inl e) \<Rightarrow>
          (case scm W ''delete'' service [] m1 of
             (m2, Inr _) \<Rightarrow>
               (m2, Inl (scm_context (''failed to start service '' @ quoted service @
                 ''; rolled back its SCM registration'') e))
           | (m2, Inl de) \<Rightarrow>
               (m2, Inl (scm_context (''failed to start service '' @ quoted service @
                 '' (and failed to roll back the registration: '' @ sc_text de @
                 ''); run `rathole-x service uninstall --yes --name '' @ name @ ''` before retrying'') e))))"

definition crlf_lines :: "string list \<Rightarrow> string" where
  "crlf_lines ls = concat (map (\<lambda>l. l @ [CHR 13, CHR 10]) ls)"

definition uninstall_bat_path :: "string list \<Rightarrow> string \<Rightarrow> path" where
  "uninstall_bat_path dir name = (dir, ''uninstall-'' @ name @ ''.bat'')"

definition uninstall_bat :: "string \<Rightarrow> string \<Rightarrow> string \<Rightarrow> string \<Rightarrow> string" where
  \<open>uninstall_bat exe config name service =
     (let q = (\<lambda>s. CHR 34 # s @ [CHR 34]) in crlf_lines
       [''@echo off'',
        ''setlocal'',
        ''echo Uninstalling '' @ service @ '' ...'',
        q (''%~dp0'' @ exe) @ '' service uninstall --yes --name '' @ q name @ '' --config '' @ q (''%~dp0'' @ config),
        ''if errorlevel 1 goto :failed'',
        ''echo.'',
        ''echo Done. To also delete the configuration, run:'',
        ''echo   '' @ q (''%~dp0'' @ exe) @ '' service uninstall --yes --purge --name '' @ q name @ '' --config '' @
          q (''%~dp0'' @ config),
        ''del '' @ q ''%~f0'',
        ''goto :eof'',
        '':failed'',
        ''echo.'',
        ''echo Uninstall failed. Right-click this file and choose '' @ q ''Run as administrator'' @ ''.'',
        ''pause''])\<close>

definition write_uninstall_bat :: "win_host \<Rightarrow> path \<Rightarrow> path \<Rightarrow> string \<Rightarrow> service_role \<Rightarrow> unit act" where
  "write_uninstall_bat W installed config name role =
     ignore (write_file (wh_os W) (uninstall_bat_path (fst installed) name)
       (uninstall_bat (snd installed) (snd config) name (scm_name role name)))"

definition win_install :: "win_host \<Rightarrow> string \<Rightarrow> service_install_options \<Rightarrow> unit act" where
  "win_install W semver opts =
     (let config = so_config_path opts; dir = fst config; service = scm_name (so_role opts) (so_name opts) in
      act_seq (act_when (\<not> wh_has_dir W dir)
        (act_context (''failed to create config directory '' @ win_dir dir) (create_dir_all (wh_os W) dir)))
     (act_seq (act_context ''failed to write version.toml''
        (write_file (wh_os W) (version_path config) (win_version_stamp semver)))
     (act_bind (current_exe W) (\<lambda>exe.
      let installed = (dir, snd exe) in
      act_seq (if snd exe = [] then act_fail (Err ''current executable has no file name'') else act_return ())
     (act_seq (ensure_binary_copy W exe installed)
     (act_seq (act_context (''failed to create log directory '' @ win_dir (logs_dir config))
        (create_dir_all (wh_os W) (logs_dir config)))
     (act_seq (open_manager W)
     (act_seq (create_service W opts installed)
     (act_seq (rolled_back W service
        (''failed to harden service '' @ quoted service @ ''; rolled back its SCM registration'')
        (configure_service_hardening W service))
     (act_seq (on_machine (\<lambda>m. rolled_back W service
        (''failed to lock down files for service '' @ quoted service @ ''; rolled back its SCM registration'')
        (act_all (map (run_icacls W) (lockdown_icacls_args (win_dir dir) (win_path installed) (win_path config)
          (win_dir (logs_dir config)) (managed_service_names W (ma_disk m) service) (so_allow_user_config opts))))))
     (act_seq (start_or_roll_back W service (so_name opts))
     (write_uninstall_bat W installed config (so_name opts) (so_role opts)))))))))))))"

section \<open>Removing\<close>

definition win_other_configs :: "win_host \<Rightarrow> disk \<Rightarrow> path \<Rightarrow> bool" where
  "win_other_configs W w config =
     (case ho_read_dir (wh_os W) w (fst config) of
        None \<Rightarrow> False
      | Some names \<Rightarrow> list_ex (\<lambda>f. f \<noteq> snd config \<and> fst (stem_extension f) \<noteq> ''version'' \<and> is_toml f) names)"

definition remove_quietly :: "win_host \<Rightarrow> path \<Rightarrow> unit act" where
  "remove_quietly W p = ignore (remove_file (wh_os W) p)"

definition listed_files :: "win_host \<Rightarrow> string list \<Rightarrow> (string \<Rightarrow> bool) \<Rightarrow> disk \<Rightarrow> path list" where
  "listed_files W dir P w =
     (case ho_read_dir (wh_os W) w dir of None \<Rightarrow> [] | Some names \<Rightarrow> map (Pair dir) (filter P names))"

definition win_remove_service_files :: "win_host \<Rightarrow> path \<Rightarrow> bool \<Rightarrow> unit act" where
  "win_remove_service_files W config purge =
     (let dir = fst config; stem = fst (stem_extension (snd config)) in
      act_seq (remove_quietly W (uninstall_bat_path dir stem))
     (act_seq (act_when purge
        (act_seq (remove_quietly W config)
          (on_machine (\<lambda>m. act_all (map (remove_quietly W)
            (listed_files W dir (starts_with (stem @ ''.tmp'')) (ma_disk m)))))))
     (on_machine (\<lambda>m. act_when (\<not> win_other_configs W (ma_disk m) config)
        (remove_quietly W (version_path config))))))"

definition other_role :: "service_role \<Rightarrow> service_role" where
  "other_role role = (case role of Role_Client \<Rightarrow> Role_Server | Role_Server \<Rightarrow> Role_Client)"

text \<open>The service that \<open>uninstall\<close> opens.\<close>

definition open_for_uninstall :: "win_host \<Rightarrow> string \<Rightarrow> service_role option \<Rightarrow> string act" where
  "open_for_uninstall W name role =
     (let a = scm_name (case role of Some r \<Rightarrow> r | None \<Rightarrow> Role_Client) name;
          b = scm_name (case role of Some r \<Rightarrow> other_role r | None \<Rightarrow> Role_Server) name in
      act_rescue (act_seq (scm_act W ''open'' a (scm_context [])) (act_return a)) (\<lambda>_.
        act_seq (scm_act W ''open'' b (\<lambda>e.
          if role = None then scm_context (''failed to open service '' @ quoted a @ '' or '' @ quoted b) e
          else if sc_code e = ERROR_SERVICE_DOES_NOT_EXIST then Err (''service '' @ quoted a @ '' does not exist'')
          else scm_context (''failed to open service '' @ quoted a) e)) (act_return b)))"

definition stop_for_uninstall :: "win_host \<Rightarrow> string \<Rightarrow> unit act" where
  "stop_for_uninstall W service =
     act_bind (scm_act W ''query'' service (scm_context ''failed to query service status'')) (\<lambda>state.
     if state = ''Stopped'' then act_return ()
     else (\<lambda>m. case scm W ''stop'' service [] m of
         (m1, Inl e) \<Rightarrow> (m1, Inr ())
       | (m1, Inr _) \<Rightarrow>
           act_seq (stop_poll W service ''failed to poll service status while stopping'' 0) (act_return ()) m1))"

definition delete_service :: "win_host \<Rightarrow> string \<Rightarrow> unit act" where
  "delete_service W service m =
     map_prod id (\<lambda>r. case r of
         Inr _ \<Rightarrow> Inr ()
       | Inl e \<Rightarrow> if sc_code e = ERROR_SERVICE_MARKED_FOR_DELETE then Inr ()
                 else Inl (scm_context ''failed to delete service'' e))
       (scm W ''delete'' service [] m)"

definition win_uninstall :: "win_host \<Rightarrow> path \<Rightarrow> bool \<Rightarrow> unit act" where
  "win_uninstall W config purge =
     on_machine (\<lambda>m. let role = config_role W (ma_disk m) config in
       act_seq (open_manager W)
      (act_bind (open_for_uninstall W (config_stem ''default'' config) role) (\<lambda>service.
       act_seq (stop_for_uninstall W service)
      (act_seq (delete_service W service)
      (win_remove_service_files W config purge)))))"

section \<open>The commands\<close>

definition uac_line :: "string \<Rightarrow> string" where
  "uac_line why = ''Requesting administrator rights (UAC)'' @ why @ ''...''"

definition win_install_lines :: "service_install_options \<Rightarrow> string list" where
  "win_install_lines opts =
     [''Installing '' @ role_key (so_role opts) @ '' service '' @ quoted (so_name opts) @ '':'',
      ''  Service:     '' @ scm_name (so_role opts) (so_name opts),
      ''  Config:      '' @ win_path (so_config_path opts),
      if so_allow_user_config opts then ''  Access:      normal users may edit the config (no UAC)''
      else ''  Access:      admin-only config; edits elevate via UAC'',
      ''  Auto start:  enabled (boot)'']"

definition win_install_service :: "win_host \<Rightarrow> string \<Rightarrow> service_install_options \<Rightarrow> unit act" where
  "win_install_service W semver opts =
     act_seq (say_all W (win_install_lines opts))
     (if \<not> wh_elevated W then act_seq (say W (uac_line [])) (elevate_and_replay W)
      else
        act_seq (win_install W semver opts)
          (say_all W
            [''Service '' @ quoted (scm_name (so_role opts) (so_name opts)) @ '' installed and started'',
             ''Run `rathole-x status --name '' @ so_name opts @ ''` to inspect, `rathole-x config add --name '' @
               so_name opts @ '' ...` to configure (hot-reloaded).'']))"

definition either_exists :: "win_host \<Rightarrow> string \<Rightarrow> bool act" where
  "either_exists W name =
     act_bind (scm_has_service W (scm_name Role_Client name)) (\<lambda>c.
       if c then act_return True else scm_has_service W (scm_name Role_Server name))"

definition win_uninstall_service :: "win_host \<Rightarrow> bool \<Rightarrow> path \<Rightarrow> unit act" where
  "win_uninstall_service W purge config =
     on_machine (\<lambda>m. let name = config_stem ''default'' config in
       act_seq (say_all W
         [''Uninstalling service '' @ quoted name @ '':'',
          ''  Config:      will be '' @ (if purge then ''removed'' else ''kept'') @ '' ('' @ win_path config @ '')''])
      (act_bind (case config_role W (ma_disk m) config of
           Some r \<Rightarrow> scm_has_service W (scm_name r name) | None \<Rightarrow> either_exists W name) (\<lambda>found.
       if \<not> found then
         act_seq (say W (''Service '' @ quoted name @ '' is not installed; removing leftover files without elevation.''))
        (act_seq (win_remove_service_files W config purge)
        (act_seq (act_when (\<not> purge) (grant_users_modify W config))
        (say W (if purge then ''Done. Leftover files and the config removed.''
           else ''Done. Leftover files removed; config kept.''))))
       else if \<not> wh_elevated W then act_seq (say W (uac_line [])) (elevate_and_replay W)
       else
         act_seq (win_uninstall W config purge)
        (act_seq (act_when (\<not> purge) (grant_users_modify W config))
        (say_all W
          [''Service '' @ quoted name @ '' stopped and removed'',
           ''  Config:      '' @ (if purge then ''removed'' else ''kept (user-deletable)'') @ '' ('' @ win_path config @
             '')''])))))"

definition leftover_name :: "string \<Rightarrow> bool" where
  "leftover_name f \<longleftrightarrow>
     starts_with ''uninstall-'' f \<and> starts_with (rev ''.bat'') (rev f) \<or> f = ''uninstall.bat'' \<or> f = ''rathole-x.exe''"

definition remove_one :: "win_host \<Rightarrow> bool \<Rightarrow> string \<Rightarrow> unit act" where
  "remove_one W purge name =
     (let path = (wh_dir W, name @ ''.toml'') in
      act_bind (either_exists W name) (\<lambda>found.
      act_seq (if found then win_uninstall W path purge else win_remove_service_files W path purge)
        (act_when (\<not> purge) (grant_users_modify W path))))"

definition win_uninstall_all :: "win_host \<Rightarrow> bool \<Rightarrow> unit act" where
  "win_uninstall_all W purge =
     on_machine (\<lambda>m. let services = win_services W (ma_disk m) in
       if services = [] then say W ''No installed services to remove.''
       else if \<not> wh_elevated W then act_seq (say W (uac_line '' to remove all services'')) (elevate_and_replay W)
       else
         act_seq (act_all (map (\<lambda>(name, _). remove_one W purge name) services))
        (act_seq (on_machine (\<lambda>m. act_all (map (remove_quietly W) (listed_files W (wh_dir W) leftover_name (ma_disk m)))))
        (say W (''Removed '' @ string_of_nat (length services) @ '' service(s) and the shared binary in '' @
          win_dir (wh_dir W) @ '' (configs '' @ (if purge then ''removed'' else ''kept'') @ '').''))))"

text \<open>\<open>resolve_service_config\<close> and \<open>service_config_path\<close> of \<open>src/config_edit.rs\<close>, on the directory of the platform.\<close>

definition win_resolve :: "win_host \<Rightarrow> disk \<Rightarrow> path option \<Rightarrow> string option \<Rightarrow> anyhow + path" where
  "win_resolve W w config name =
     (case (config, name) of
        (Some c, _) \<Rightarrow> Inr c
      | (None, Some n) \<Rightarrow> rbind (validate_service_name n) (\<lambda>_. Inr (wh_dir W, n @ ''.toml''))
      | (None, None) \<Rightarrow>
          (case win_services W w of
             [(only, _)] \<Rightarrow> Inr (wh_dir W, only @ ''.toml'')
           | [] \<Rightarrow> Inl (Err (''No installed service found in '' @ win_dir (wh_dir W) @
               '': install one first (`rathole-x service install server|client --yes`) or pass -c/--name''))
           | many \<Rightarrow> Inl (Err (string_of_nat (length many) @ '' services installed ('' @
               join_str '', '' (map fst many) @ ''); specify one with --name''))))"

definition win_config_path :: "win_host \<Rightarrow> string option \<Rightarrow> anyhow + string \<times> path" where
  "win_config_path W name =
     (let n = (case name of None \<Rightarrow> ''default'' | Some n \<Rightarrow> n) in
      rbind (validate_service_name n) (\<lambda>_. Inr (n, (wh_dir W, n @ ''.toml''))))"

text \<open>The services a command acts on; without \<open>--all\<close> one, whose configuration has to be readable.\<close>

definition win_targets :: "win_host \<Rightarrow> service_args \<Rightarrow> disk \<Rightarrow> anyhow + (string \<times> service_role) list" where
  "win_targets W args w =
     (if sa_all args then Inr (win_services W w)
      else rbind (win_resolve W w None (sa_name args)) (\<lambda>path.
        case config_role W w path of
          Some role \<Rightarrow> Inr [(config_stem ''default'' path, role)]
        | None \<Rightarrow> Inl (Err (''cannot determine the role of '' @ win_path path))))"

definition control_one :: "win_host \<Rightarrow> string \<Rightarrow> string \<Rightarrow> unit act" where
  "control_one W action service =
     act_seq (scm_act W ''open'' service (scm_context (''failed to open service '' @ quoted service)))
    (act_seq
      (if action = ''start'' then
         act_seq (scm_act W ''start'' service (scm_context (''failed to start service '' @ quoted service))) (act_return ())
       else if action = ''stop'' then stop_and_wait W service
       else
         act_seq (stop_and_wait W service)
        (act_seq (scm_act W ''start'' service (scm_context (''failed to restart service '' @ quoted service)))
        (act_return ())))
    (say W (action @ ''ed '' @ quoted service)))"

definition win_control_service :: "win_host \<Rightarrow> string \<Rightarrow> service_args \<Rightarrow> unit act" where
  "win_control_service W action args =
     on_machine (\<lambda>m. act_bind (act_lift (win_targets W args (ma_disk m))) (\<lambda>targets.
       if targets = [] then act_fail (Err ''no installed services'')
       else
         act_seq (say W (''Will '' @ action @ '': '' @ join_str '', '' (map fst targets)))
         (if \<not> wh_elevated W then act_seq (say W (uac_line [])) (elevate_and_replay W)
          else
            act_seq (open_manager W)
              (act_all (map (\<lambda>(name, role). control_one W action (scm_name role name)) targets)))))"

text \<open>\<open>start_services_best_effort\<close>, which counts the services that were started.\<close>

fun win_start_all :: "win_host \<Rightarrow> string list \<Rightarrow> nat act" where
  "win_start_all W [] m = (m, Inr 0)"
| "win_start_all W (s # ss) m =
     (case scm W ''open'' s [] m of
        (m1, Inl _) \<Rightarrow> win_start_all W ss m1
      | (m1, Inr _) \<Rightarrow>
          (case scm W ''start'' s [] m1 of
             (m2, r) \<Rightarrow> map_prod id (map_sum id (\<lambda>n. if is_ok r then Suc n else n)) (win_start_all W ss m2)))"

definition stop_if_there :: "win_host \<Rightarrow> string \<Rightarrow> unit act" where
  "stop_if_there W service m =
     (case scm W ''open'' service [] m of
        (m1, Inl _) \<Rightarrow> (m1, Inr ()) | (m1, Inr _) \<Rightarrow> ignore (stop_and_wait W service) m1)"

text \<open>The part of an upgrade whose failure is followed by a restart of the services.\<close>

definition update_binary :: "win_host \<Rightarrow> (string \<times> service_role) list \<Rightarrow> path \<Rightarrow> unit act" where
  "update_binary W services exe =
     (let installed = (wh_dir W, snd exe) in
      act_seq (act_all (map (\<lambda>(name, role). grant_service_access W (scm_name role name) (wh_dir W, name @ ''.toml'')) services))
     (act_seq (ensure_binary_copy W exe installed)
     (act_all (map (run_icacls W)
       (exe_lockdown_args (win_path installed) (map (\<lambda>(name, role). scm_name role name) services))))))"

text \<open>What an upgrade does once the services are stopped.\<close>

definition replace_and_restart :: "win_host \<Rightarrow> (string \<times> service_role) list \<Rightarrow> string list \<Rightarrow> unit act" where
  "replace_and_restart W services names =
     act_bind (current_exe W) (\<lambda>exe.
     act_seq (if snd exe = [] then act_fail (Err ''current executable has no file name'') else act_return ())
    (act_seq (act_rescue (update_binary W services exe) (\<lambda>e. act_seq (win_start_all W names) (act_fail e)))
    (act_bind (win_start_all W names) (\<lambda>n.
     say W (''Updated '' @ win_path (wh_dir W, snd exe) @ '' and restarted '' @ string_of_nat n @ '' service(s).'')))))"

definition win_upgrade_binary :: "win_host \<Rightarrow> unit act" where
  "win_upgrade_binary W =
     (if \<not> wh_elevated W then act_seq (say W (uac_line '' to update the installed binary'')) (elevate_and_replay W)
      else on_machine (\<lambda>m.
        let services = win_services W (ma_disk m); names = map (\<lambda>(name, role). scm_name role name) services in
        act_seq (open_manager W)
       (act_seq (act_all (map (stop_if_there W) names))
       (act_seq (act_all (map (migrate_service_hardening W) names))
       (replace_and_restart W services names)))))"

end
