(* ===== verification/Windows_Install.thy ===== *)
theory Windows_Install
  imports Windows_Service
begin

text \<open>
  Correctness of the installation and the upgrade on Windows, over all ways in which the service
  control manager, the tools and the file system can fail: which calls are made, in which order,
  what a failure leaves behind, and which files are changed.
\<close>

section \<open>Traces\<close>

text \<open>
  \<open>trace P f\<close>: the calls an action makes, after those before it, and whether it succeeds satisfy
  \<open>P\<close>. \<open>undone W d S\<close>: all calls of one of the sequences \<open>S\<close> with success, or first ones of it and then
  the call \<open>d\<close>, which undoes them, with a failure.
\<close>

definition trace :: "(tool_call list \<Rightarrow> tool_call list \<Rightarrow> bool \<Rightarrow> bool) \<Rightarrow> 'a act \<Rightarrow> bool" where
  "trace P f \<longleftrightarrow> (\<forall>m. \<exists>calls. ma_tools (fst (f m)) = ma_tools m @ calls \<and> P (ma_tools m) calls (is_ok (snd (f m))))"

definition undone :: "win_host \<Rightarrow> tool_call \<Rightarrow> tool_call list set \<Rightarrow> tool_call list \<Rightarrow> tool_call list \<Rightarrow> bool \<Rightarrow> bool" where
  "undone W d S before calls ok \<longleftrightarrow>
     (\<exists>steps \<in> S. if ok then calls = steps \<and> all_answered W before steps
        else \<exists>k \<le> length steps. calls = take k steps @ [d])"

lemma traceD:
  assumes "trace P f" "f m = (m', r)"
  obtains calls where "ma_tools m' = ma_tools m @ calls" "P (ma_tools m) calls (is_ok r)"
  using assms unfolding trace_def by (metis fst_conv snd_conv)

lemma trace_mono: "trace P f \<Longrightarrow> (\<And>before calls ok. P before calls ok \<Longrightarrow> Q before calls ok) \<Longrightarrow> trace Q f"
  unfolding trace_def by blast

lemma undone_mono: "undone W d S before calls ok \<Longrightarrow> S \<subseteq> T \<Longrightarrow> undone W d T before calls ok"
  unfolding undone_def by blast

lemma trace_silent:
  assumes "makes W [] f" "\<And>x. trace P (k x)" "\<And>before. P before [] False"
  shows "trace P (act_bind f k)"
  unfolding trace_def
proof
  fix m
  obtain m1 r where f: "f m = (m1, r)" by (cases "f m")
  have t: "ma_tools m1 = ma_tools m" using makesD [OF assms(1) f] by (metis append_Nil2 take_Nil)
  show "\<exists>calls. ma_tools (fst (act_bind f k m)) = ma_tools m @ calls \<and> P (ma_tools m) calls (is_ok (snd (act_bind f k m)))"
  proof (cases r)
    case (Inl e)
    then show ?thesis using f t assms(3) by (intro exI [of _ "[]"]) (simp add: act_bind_def is_ok_def)
  next
    case (Inr x)
    obtain m2 s where k: "k x m1 = (m2, s)" by (cases "k x m1")
    obtain calls where "ma_tools m2 = ma_tools m1 @ calls" "P (ma_tools m1) calls (is_ok s)"
      using traceD [OF assms(2) k] by blast
    then show ?thesis using f t k Inr by (intro exI [of _ calls]) (simp add: act_bind_def)
  qed
qed

lemma scm_simp:
  "scm W op1 s extra m = (m\<lparr>ma_tools := ma_tools m @ [scm_call op1 s extra]\<rparr>, wh_scm W (ma_tools m) (scm_call op1 s extra))"
  by (simp add: scm_def)

lemma scm_answered: "call_answered W before (scm_call op1 s extra) = is_ok (wh_scm W before (scm_call op1 s extra))"
  by (simp add: call_answered_def scm_call_def)

lemma rolled_back_step:
  assumes "makes W cs f" "trace (undone W (scm_call ''delete'' service []) S) g"
  shows "trace (undone W (scm_call ''delete'' service []) ((@) cs ` S)) (act_seq (rolled_back W service c f) g)"
    (is "trace (undone W ?d _) _")
  unfolding trace_def
proof
  fix m
  obtain m1 r where f: "f m = (m1, r)" by (cases "f m")
  obtain k where k: "k \<le> length cs" "ma_tools m1 = ma_tools m @ take k cs"
    "is_ok r \<Longrightarrow> k = length cs \<and> all_answered W (ma_tools m) cs"
    using makesD [OF assms(1) f] by blast
  obtain m2 s where g: "g m1 = (m2, s)" by (cases "g m1")
  obtain calls where c: "ma_tools m2 = ma_tools m1 @ calls" "undone W ?d S (ma_tools m1) calls (is_ok s)"
    using traceD [OF assms(2) g] by blast
  let ?f = "act_seq (rolled_back W service c f) g"
  show "\<exists>calls. ma_tools (fst (?f m)) = ma_tools m @ calls \<and> undone W ?d ((@) cs ` S) (ma_tools m) calls (is_ok (snd (?f m)))"
  proof (cases r)
    case (Inl e)
    obtain steps where "steps \<in> S" using c(2) by (auto simp: undone_def)
    then have "undone W ?d ((@) cs ` S) (ma_tools m) (take k cs @ [?d]) False"
      using k(1) by (auto simp: undone_def intro!: bexI [of _ steps] exI [of _ k])
    then show ?thesis using f k(2) Inl
      by (intro exI [of _ "take k cs @ [?d]"])
        (simp add: rolled_back_def act_rescue_def act_bind_def delete_quietly_def scm_simp is_ok_def)
  next
    case (Inr x)
    then have kk: "k = length cs" "all_answered W (ma_tools m) cs" using k(3) by (simp_all add: is_ok_def)
    have "undone W ?d ((@) cs ` S) (ma_tools m) (cs @ calls) (is_ok s)"
    proof -
      obtain steps where st: "steps \<in> S" "if is_ok s then calls = steps \<and> all_answered W (ma_tools m1) steps
        else \<exists>k \<le> length steps. calls = take k steps @ [?d]" using c(2) by (auto simp: undone_def)
      have "cs @ steps \<in> (@) cs ` S" using st(1) by blast
      moreover have "if is_ok s then cs @ calls = cs @ steps \<and> all_answered W (ma_tools m) (cs @ steps)
        else \<exists>k \<le> length (cs @ steps). cs @ calls = take k (cs @ steps) @ [?d]"
      proof (cases "is_ok s")
        case True
        then show ?thesis using st(2) kk k(2) by simp
      next
        case False
        then obtain i where "i \<le> length steps" "calls = take i steps @ [?d]" using st(2) by auto
        then show ?thesis using False by (auto intro!: exI [of _ "length cs + i"])
      qed
      ultimately show ?thesis unfolding undone_def by blast
    qed
    then show ?thesis using f k(2) kk Inr g c(1)
      by (intro exI [of _ "cs @ calls"]) (simp add: rolled_back_def act_rescue_def act_bind_def)
  qed
qed

lemma start_step:
  assumes "makes W [] g" "\<And>m. is_ok (snd (g m))"
  shows "trace (undone W (scm_call ''delete'' service []) {[scm_call ''start'' service []]})
    (act_seq (start_or_roll_back W service name) g)" (is "trace (undone W ?d {[?s]}) ?f")
  unfolding trace_def
proof
  fix m
  show "\<exists>calls. ma_tools (fst (?f m)) = ma_tools m @ calls \<and> undone W ?d {[?s]} (ma_tools m) calls (is_ok (snd (?f m)))"
  proof (cases "wh_scm W (ma_tools m) ?s")
    case (Inl e)
    then show ?thesis
      by (intro exI [of _ "[?s, ?d]"])
        (auto simp: start_or_roll_back_def scm_simp act_bind_def undone_def is_ok_def intro!: exI [of _ 1] split: sum.split)
  next
    case (Inr x)
    let ?m = "m\<lparr>ma_tools := ma_tools m @ [?s]\<rparr>"
    obtain m1 r where g: "g ?m = (m1, r)" by (cases "g ?m")
    have "ma_tools m1 = ma_tools ?m" using makesD [OF assms(1) g] by (metis append_Nil2 take_Nil)
    moreover have "is_ok r" using assms(2) [of ?m] g by simp
    ultimately show ?thesis using Inr g
      by (intro exI [of _ "[?s]"])
        (simp add: start_or_roll_back_def scm_simp act_bind_def undone_def scm_answered is_ok_def)
  qed
qed

lemma trace_on_machine: "(\<And>w. trace P (f w)) \<Longrightarrow> trace P (on_machine f)"
  by (simp add: trace_def)

lemma on_machine_bind: "act_bind (on_machine f) k = on_machine (\<lambda>m. act_bind (f m) k)"
  by (rule ext) (simp add: act_bind_def)

section \<open>Installing\<close>

definition lockdown_calls :: "service_install_options \<Rightarrow> path \<Rightarrow> string list \<Rightarrow> tool_call list" where
  "lockdown_calls opts installed services =
     map (Pair ''icacls'') (lockdown_icacls_args (win_dir (fst (so_config_path opts))) (win_path installed)
       (win_path (so_config_path opts)) (win_dir (logs_dir (so_config_path opts))) services (so_allow_user_config opts))"

definition service_of :: "service_install_options \<Rightarrow> string" where
  "service_of opts = scm_name (so_role opts) (so_name opts)"

definition create_call :: "service_install_options \<Rightarrow> path \<Rightarrow> tool_call" where
  "create_call opts exe =
     scm_call ''create'' (service_of opts) (win_service_info opts (fst (so_config_path opts), snd exe))"

text \<open>The calls that follow the registration, up to the start.\<close>

definition install_steps :: "service_install_options \<Rightarrow> path \<Rightarrow> string list \<Rightarrow> tool_call list" where
  "install_steps opts exe services =
     map (Pair ''sc.exe'') (hardening_args (service_of opts)) @
     lockdown_calls opts (fst (so_config_path opts), snd exe) services @ [scm_call ''start'' (service_of opts) []]"

definition all_steps :: "service_install_options \<Rightarrow> path \<Rightarrow> tool_call list set" where
  "all_steps opts exe = {install_steps opts exe services | services. service_of opts \<in> set services}"

definition installs :: "win_host \<Rightarrow> service_install_options \<Rightarrow> tool_call list \<Rightarrow> tool_call list \<Rightarrow> bool \<Rightarrow> bool" where
  "installs W opts before calls ok \<longleftrightarrow>
     \<not> ok \<and> calls = [] \<or>
     (\<exists>exe. ho_exe (wh_os W) = Inr exe \<and>
        (if call_answered W before (create_call opts exe) then
           \<exists>rest. calls = create_call opts exe # rest \<and>
             undone W (scm_call ''delete'' (service_of opts) []) (all_steps opts exe) (before @ [create_call opts exe]) rest ok
         else \<not> ok \<and> calls = [create_call opts exe]))"

lemma managed_has_service: "extra \<in> set (managed_service_names W w extra)"
  by (simp add: managed_service_names_def Let_def)

lemma create_bind:
  "act_bind (create_service W opts installed) k m =
     (let c = scm_call ''create'' (service_of opts) (win_service_info opts installed); m1 = m\<lparr>ma_tools := ma_tools m @ [c]\<rparr> in
      if call_answered W (ma_tools m) c then k () m1 else (m1, Inl (case wh_scm W (ma_tools m) c of
        Inl e \<Rightarrow> if sc_code e = ERROR_SERVICE_EXISTS then
              Err (''service '' @ quoted (service_of opts) @
                '' already exists; run `rathole-x service uninstall --yes --name '' @ so_name opts @ ''` first'')
            else scm_context (''failed to create service '' @ quoted (service_of opts)) e
      | Inr _ \<Rightarrow> undefined)))"
  by (cases "wh_scm W (ma_tools m) (scm_call ''create'' (service_of opts) (win_service_info opts installed))")
    (simp_all add: create_service_def scm_simp act_bind_def service_of_def Let_def scm_answered is_ok_def)

lemma bat_silent: "makes W [] (write_uninstall_bat V a b n r)" "is_ok (snd (write_uninstall_bat V a b n r m))"
  by (simp_all add: write_uninstall_bat_def trace_intros) (simp add: ignore_def is_ok_def)

lemma after_create:
  assumes "installed = (fst (so_config_path opts), snd exe)"
  shows "trace (undone W (scm_call ''delete'' (service_of opts) []) (all_steps opts exe))
     (act_seq (rolled_back W (service_of opts) c1 (configure_service_hardening W (service_of opts)))
     (act_seq (on_machine (\<lambda>m. rolled_back W (service_of opts) c2
        (act_all (map (run_icacls W) (lockdown_icacls_args (win_dir (fst (so_config_path opts))) (win_path installed)
          (win_path (so_config_path opts)) (win_dir (logs_dir (so_config_path opts)))
          (managed_service_names W (ma_disk m) (service_of opts)) (so_allow_user_config opts))))))
     (act_seq (start_or_roll_back W (service_of opts) (so_name opts))
     (write_uninstall_bat W installed config name role))))"
proof -
  let ?d = "scm_call ''delete'' (service_of opts) []" and ?s = "[scm_call ''start'' (service_of opts) []]"
  let ?T = "\<Union>services \<in> {s. service_of opts \<in> set s}. {lockdown_calls opts installed services @ ?s}"
  have last: "trace (undone W ?d {?s}) (act_seq (start_or_roll_back W (service_of opts) (so_name opts))
     (write_uninstall_bat W installed config name role))"
    by (rule start_step) (rule bat_silent)+
  have "trace (undone W ?d ?T) (act_seq (on_machine (\<lambda>m. rolled_back W (service_of opts) c2
        (act_all (map (run_icacls W) (lockdown_icacls_args (win_dir (fst (so_config_path opts))) (win_path installed)
          (win_path (so_config_path opts)) (win_dir (logs_dir (so_config_path opts)))
          (managed_service_names W (ma_disk m) (service_of opts)) (so_allow_user_config opts))))))
     (act_seq (start_or_roll_back W (service_of opts) (so_name opts))
     (write_uninstall_bat W installed config name role)))"
    unfolding on_machine_bind
  proof (rule trace_on_machine)
    fix m :: computer
    let ?services = "managed_service_names W (ma_disk m) (service_of opts)"
    show "trace (undone W ?d ?T) (act_seq (rolled_back W (service_of opts) c2
        (act_all (map (run_icacls W) (lockdown_icacls_args (win_dir (fst (so_config_path opts))) (win_path installed)
          (win_path (so_config_path opts)) (win_dir (logs_dir (so_config_path opts))) ?services (so_allow_user_config opts)))))
     (act_seq (start_or_roll_back W (service_of opts) (so_name opts))
     (write_uninstall_bat W installed config name role)))"
      by (rule trace_mono [OF rolled_back_step [OF makes_icacls_all last]], erule undone_mono)
        (use managed_has_service in \<open>fastforce simp: lockdown_calls_def\<close>)
  qed
  from trace_mono [OF rolled_back_step [OF makes_hardening this]] show ?thesis
    by (rule trace_mono) (erule undone_mono, auto simp: all_steps_def install_steps_def assms)
qed

lemma win_install_trace: "trace (installs W opts) (win_install W semver opts)"
proof -
  have silent: "installs W opts before [] False" for before by (simp add: installs_def)
  have exe: "trace (installs W opts) (act_bind (current_exe W) k)"
    if "\<And>exe. ho_exe (wh_os W) = Inr exe \<Longrightarrow> trace (installs W opts) (k exe)" for k :: "path \<Rightarrow> unit act"
    using that silent
    by (cases "ho_exe (wh_os W)") (auto simp: trace_def current_exe_def act_bind_def is_ok_def)
  have create: "trace (installs W opts) (act_bind (create_service W opts (fst (so_config_path opts), snd exe)) k)"
    if e: "ho_exe (wh_os W) = Inr exe"
      and t: "trace (undone W (scm_call ''delete'' (service_of opts) []) (all_steps opts exe)) (k ())" for exe and k :: "unit \<Rightarrow> unit act"
    unfolding trace_def
  proof
    fix m :: computer
    let ?c = "create_call opts exe" and ?m = "m\<lparr>ma_tools := ma_tools m @ [create_call opts exe]\<rparr>"
    obtain m2 s where k: "k () ?m = (m2, s)" by (cases "k () ?m")
    obtain calls where c: "ma_tools m2 = ma_tools ?m @ calls"
      "undone W (scm_call ''delete'' (service_of opts) []) (all_steps opts exe) (ma_tools ?m) calls (is_ok s)"
      using traceD [OF t k] by blast
    show "\<exists>calls. ma_tools (fst (act_bind (create_service W opts (fst (so_config_path opts), snd exe)) k m)) = ma_tools m @ calls \<and>
        installs W opts (ma_tools m) calls (is_ok (snd (act_bind (create_service W opts (fst (so_config_path opts), snd exe)) k m)))"
      using k c e
      by (cases "call_answered W (ma_tools m) ?c")
        (auto simp: create_bind Let_def installs_def is_ok_def create_call_def [symmetric]
          intro!: exI [of _ "?c # calls"] exI [of _ "[?c]"])
  qed
  show ?thesis
    unfolding win_install_def Let_def service_of_def [symmetric]
    by (intro trace_silent [where W = W] exe create after_create refl silent trace_intros | assumption)+
qed

section \<open>Which files are changed\<close>

lemma touches_rescue [touches_intros]: "touches P f \<Longrightarrow> (\<And>e. touches P (h e)) \<Longrightarrow> touches P (act_rescue f h)"
  by (auto simp: touches_def act_rescue_def split: prod.split sum.split) (metis fst_conv)+

lemma touches_scm [touches_intros]:
  "touches P (scm_act W op1 s err)" "touches P (delete_quietly W s)" "touches P (create_service W opts p)"
  "touches P (start_or_roll_back W s name)" "touches P (open_manager W)" "touches P (say W line)"
  "touches P (delete_service W s)" "touches P (scm_has_service W s)"
  by (auto simp: touches_def scm_act_def scm_simp delete_quietly_def create_service_def start_or_roll_back_def
      open_manager_def say_def delete_service_def scm_has_service_def Let_def split: option.split sum.split)

lemma touches_echoed [touches_intros]: "touches P (run_sc W args)" "touches P (run_icacls W args)"
proof -
  have "ma_disk (fst (run_echoed W program args c failed m)) = ma_disk m" for program args c failed m
  proof (cases "ho_run (wh_os W) (ma_tools m) (program, args)")
    case (Inl e)
    then show ?thesis by (simp add: run_echoed_def run_tool_def)
  next
    case (Inr o1)
    then show ?thesis
      by (simp add: run_echoed_def run_tool_def echo_child_output_def act_when_def say_def act_bind_def)
  qed
  then have "touches P (run_echoed W program args c failed)" for program args c failed by (simp add: touches_def)
  then show "touches P (run_sc W args)" "touches P (run_icacls W args)" by (simp_all add: run_sc_def run_icacls_def Let_def)
qed

lemma touches_replace [touches_intros]:
  "a \<in> P \<Longrightarrow> b \<in> P \<Longrightarrow> touches P (replace_file_preserving_security W a b)"
  by (auto simp: touches_def replace_file_preserving_security_def Let_def ignore_def remove_file_def split: option.split)

lemma touches_copy [touches_intros]: "dest \<in> P \<Longrightarrow> copy_tmp W dest \<in> P \<Longrightarrow> touches P (ensure_binary_copy W src dest)"
  unfolding ensure_binary_copy_def Let_def by (intro touches_intros)

definition install_writes :: "win_host \<Rightarrow> service_install_options \<Rightarrow> path set" where
  "install_writes W opts =
     {version_path (so_config_path opts), uninstall_bat_path (fst (so_config_path opts)) (so_name opts)} \<union>
     (case ho_exe (wh_os W) of Inl _ \<Rightarrow> {}
      | Inr exe \<Rightarrow> {(fst (so_config_path opts), snd exe), copy_tmp W (fst (so_config_path opts), snd exe)})"

lemma touches_current_exe: "(\<And>exe. ho_exe (wh_os W) = Inr exe \<Longrightarrow> touches P (k exe)) \<Longrightarrow> touches P (act_bind (current_exe W) k)"
  by (cases "ho_exe (wh_os W)") (auto simp: current_exe_def touches_def act_bind_def)

lemma win_install_touches: "touches (install_writes W opts) (win_install W semver opts)"
proof -
  have a: "version_path (so_config_path opts) \<in> install_writes W opts"
    "uninstall_bat_path (fst (so_config_path opts)) (so_name opts) \<in> install_writes W opts"
    by (simp_all add: install_writes_def)
  have b: "(fst (so_config_path opts), snd exe) \<in> install_writes W opts"
    "copy_tmp W (fst (so_config_path opts), snd exe) \<in> install_writes W opts" if "ho_exe (wh_os W) = Inr exe" for exe
    using that by (simp_all add: install_writes_def)
  have c: "touches P (rolled_back W service msg f)" if "touches P f" for P service msg f
    using that unfolding rolled_back_def by (intro touches_intros)
  show ?thesis
    unfolding win_install_def Let_def configure_service_hardening_def write_uninstall_bat_def fst_conv snd_conv
    by (intro touches_current_exe touches_intros a b c | assumption | clarsimp simp: touches_intros)+
qed

section \<open>A sample\<close>

definition sample_opts :: service_install_options where
  "sample_opts =
     \<lparr>so_name = ''a'', so_role = Role_Server, so_config_path = ([''C:'', ''rathole-x''], ''a.toml''),
      so_allow_user_config = False\<rparr>"

lemma sample_win_more [simp]:
  "wh_manager sample_win = None" "wh_scm sample_win cs c = Inr ''Stopped''" "wh_same sample_win p q \<longleftrightarrow> p = q"
  "wh_replace sample_win p q = None" "wh_rename sample_win = None" "wh_has_dir sample_win d"
  "wh_dir sample_win = [''C:'', ''rathole-x'']" "wh_editor sample_win = sample_editor"
  by (simp_all add: sample_win_def)

lemma sample_run: "ho_run sample_host cs c = Inr \<lparr>ou_success = True, ou_stdout = ''active'', ou_stderr = []\<rparr>"
  by (simp add: sample_host_def)

lemma sample_echoed:
  "run_sc sample_win args m = (m\<lparr>ma_tools := ma_tools m @ [(''sc.exe'', args)]\<rparr>, Inr ())"
  "run_icacls sample_win args m = (m\<lparr>ma_tools := ma_tools m @ [(''icacls'', args)]\<rparr>, Inr ())"
  by (simp_all add: run_sc_def run_icacls_def run_echoed_def run_tool_def sample_run echo_child_output_def act_when_def
      say_def act_bind_def Let_def)

lemma sample_icacls_all:
  "act_all (map (run_icacls sample_win) cmds) m = (m\<lparr>ma_tools := ma_tools m @ map (Pair ''icacls'') cmds\<rparr>, Inr ())"
  by (induction cmds arbitrary: m) (simp_all add: act_bind_def sample_echoed)

lemma sample_copied:
  assumes "ma_disk m src = Some f" "src \<noteq> dest"
  shows "\<exists>m'. ensure_binary_copy sample_win src dest m = (m', Inr ()) \<and> ma_tools m' = ma_tools m"
proof -
  have "copy_file sample_host src p m = (m\<lparr>ma_disk := (ma_disk m)(p \<mapsto> if src = p then f\<lparr>f_content := []\<rparr> else f)\<rparr>, Inr ())" for p
    using assms(1) by (simp add: copy_file_def sample_host_def)
  then show ?thesis using assms(2)
    by (simp add: ensure_binary_copy_def Let_def act_rescue_def act_bind_def replace_file_preserving_security_def)
qed

lemma sample_installed: "is_ok (snd (win_install sample_win semver sample_opts sample_machine))"
proof -
  let ?exe = "([[], ''tmp''], ''rathole-x'')" and ?dir = "[''C:'', ''rathole-x'']" and ?m = sample_machine
  define m1 where "m1 = fst (write_file sample_host (?dir, ''version.toml'') (win_version_stamp semver) ?m)"
  have m1: "write_file sample_host (?dir, ''version.toml'') (win_version_stamp semver) ?m = (m1, Inr ())"
    by (simp add: m1_def write_file_def)
  have "ma_disk m1 ?exe = Some \<lparr>f_content = ''elf'', f_mode = 0x1ED\<rparr>"
    by (simp add: m1_def write_file_def sample_machine_def)
  then obtain m2 where m2: "ensure_binary_copy sample_win ?exe (?dir, ''rathole-x'') m1 = (m2, Inr ())"
    using sample_copied [of m1 ?exe _ "(?dir, ''rathole-x'')"] by auto
  show ?thesis
    using m1 m2
    by (simp add: win_install_def sample_opts_def Let_def version_path_def logs_dir_def act_when_def act_bind_def act_context_def
        current_exe_def create_dir_all_def open_manager_def create_service_def scm_simp rolled_back_def act_rescue_def
        configure_service_hardening_def hardening_args_def sample_echoed sample_icacls_all start_or_roll_back_def
        write_uninstall_bat_def ignore_def is_ok_def)
qed

section \<open>Properties\<close>



end
