(* ===== verification/Windows_Upgrade.thy ===== *)
theory Windows_Upgrade
  imports Windows_Install
begin

text \<open>
  Stopping a service and the upgrade of the shared binary on Windows: every wait is bounded, and
  the services an upgrade stopped are started again, on every way through it but one.
\<close>

section \<open>Stopping a service\<close>

abbreviation query_call :: "string \<Rightarrow> tool_call" where
  "query_call s \<equiv> scm_call ''query'' s []"

abbreviation stop_call :: "string \<Rightarrow> tool_call" where
  "stop_call s \<equiv> scm_call ''stop'' s []"

abbreviation open_call :: "string \<Rightarrow> tool_call" where
  "open_call s \<equiv> scm_call ''open'' s []"

abbreviation start_call :: "string \<Rightarrow> tool_call" where
  "start_call s \<equiv> scm_call ''start'' s []"

text \<open>The calls of a stop: the state, the request, and at most 61 polls.\<close>

definition stop_shape :: "string \<Rightarrow> tool_call list \<Rightarrow> bool" where
  "stop_shape s calls \<longleftrightarrow>
     calls = [query_call s] \<or> (\<exists>n \<le> 61. calls = query_call s # stop_call s # replicate n (query_call s))"

lemma scm_act_bind:
  "act_bind (scm_act W op1 s err) k m =
     (let m1 = m\<lparr>ma_tools := ma_tools m @ [scm_call op1 s []]\<rparr> in
      case wh_scm W (ma_tools m) (scm_call op1 s []) of Inl e \<Rightarrow> (m1, Inl (err e)) | Inr x \<Rightarrow> k x m1)"
  by (simp add: act_bind_def scm_act_def scm_simp Let_def split: sum.split)

lemma polls_bounded:
  assumes "stop_poll W s c 0 m = (m', r)"
  shows "\<exists>n \<le> 61. 0 < n \<and> ma_tools m' = ma_tools m @ replicate n (query_call s) \<and> ma_disk m' = ma_disk m \<and>
    ma_printed m' = ma_printed m \<and>
    (r = Inr True \<longrightarrow> wh_scm W (butlast (ma_tools m')) (query_call s) = Inr ''Stopped'')"
proof -
  obtain n where n: "ma_tools m' = ma_tools m @ replicate (Suc n) (query_call s)"
    "n * STOP_POLL_INTERVAL \<le> STOP_WAIT_TIMEOUT + (STOP_POLL_INTERVAL - 1)" "ma_disk m' = ma_disk m"
    "ma_printed m' = ma_printed m"
    "r = Inr True \<longrightarrow> wh_scm W (butlast (ma_tools m')) (query_call s) = Inr ''Stopped''"
    using stop_poll_calls [OF assms] by auto
  have "Suc n \<le> 61" using n(2) by (simp add: STOP_POLL_INTERVAL_def STOP_WAIT_TIMEOUT_def)
  then show ?thesis using n by (intro exI [of _ "Suc n"]) simp
qed

lemma stop_calls:
  assumes "stop_and_wait W s m = (m', r)"
  shows "\<exists>calls. ma_tools m' = ma_tools m @ calls \<and> stop_shape s calls \<and> ma_disk m' = ma_disk m \<and>
    ma_printed m' = ma_printed m \<and>
    (is_ok r \<longrightarrow> last calls = query_call s \<and> wh_scm W (butlast (ma_tools m')) (query_call s) = Inr ''Stopped'')"
proof (cases "\<exists>x y. wh_scm W (ma_tools m) (query_call s) = Inr x \<and> x \<noteq> ''Stopped'' \<and>
    wh_scm W (ma_tools m @ [query_call s]) (stop_call s) = Inr y")
  case False
  then show ?thesis using assms
    by (auto simp: stop_and_wait_def Let_def scm_act_bind stop_shape_def is_ok_def split: sum.splits if_splits
        intro: exI [of _ "[query_call s]"] exI [of _ 0])
next
  case True
  let ?m = "m\<lparr>ma_tools := ma_tools m @ [query_call s, stop_call s]\<rparr>"
    and ?q = "'' '' @ CHR 39 # s @ [CHR 39]"
  let ?c = "''failed to poll status of'' @ ?q" and ?e = "Err (''service'' @ ?q @ '' did not stop within 15s'')"
  obtain m1 q where p: "stop_poll W s ?c 0 ?m = (m1, q)" by (cases "stop_poll W s ?c 0 ?m")
  have "stop_and_wait W s m = act_bind (stop_poll W s ?c 0) (\<lambda>b. if b then act_return () else act_fail ?e) ?m"
    using True by (auto simp: stop_and_wait_def Let_def scm_act_bind cong: if_cong)
  then have *: "m' = m1 \<and> (is_ok r \<longrightarrow> q = Inr True)"
    using assms p unfolding act_bind_def by (cases q) (auto simp only: is_ok_def act_leaf prod.case sum.case prod.inject split: if_splits)
  obtain n where n: "n \<le> 61" "0 < n" "ma_tools m1 = ma_tools ?m @ replicate n (query_call s)" "ma_disk m1 = ma_disk ?m"
    "ma_printed m1 = ma_printed ?m"
    "q = Inr True \<longrightarrow> wh_scm W (butlast (ma_tools m1)) (query_call s) = Inr ''Stopped''"
    using polls_bounded [OF p] by blast
  then show ?thesis using *
    by (intro exI [of _ "query_call s # stop_call s # replicate n (query_call s)"]) (auto simp: stop_shape_def)
qed

lemma stop_shape_bounds: "stop_shape s calls \<Longrightarrow> set calls \<subseteq> {query_call s, stop_call s} \<and> length calls \<le> 63"
  by (auto simp: stop_shape_def split: if_splits)

section \<open>The steps of an upgrade\<close>

definition stop_like :: "string list \<Rightarrow> tool_call list \<Rightarrow> bool" where
  "stop_like names calls \<longleftrightarrow>
     set calls \<subseteq> (\<Union>s \<in> set names. {open_call s, query_call s, stop_call s}) \<and> length calls \<le> 64 * length names"

lemma stop_all_calls:
  "\<exists>calls. act_all (map (stop_if_there W) names) m = (m\<lparr>ma_tools := ma_tools m @ calls\<rparr>, Inr ()) \<and> stop_like names calls"
proof (induction names arbitrary: m)
  case Nil
  then show ?case by (simp add: stop_like_def)
next
  case (Cons s ss)
  obtain c1 where c1: "stop_if_there W s m = (m\<lparr>ma_tools := ma_tools m @ c1\<rparr>, Inr ())" "stop_like [s] c1"
  proof (cases "wh_scm W (ma_tools m) (open_call s)")
    case (Inl e)
    then show ?thesis by (intro that [of "[open_call s]"]) (simp_all add: stop_if_there_def scm_simp stop_like_def)
  next
    case (Inr x)
    let ?m = "m\<lparr>ma_tools := ma_tools m @ [open_call s]\<rparr>"
    obtain m1 r where s: "stop_and_wait W s ?m = (m1, r)" by (cases "stop_and_wait W s ?m")
    obtain calls where c: "ma_tools m1 = ma_tools ?m @ calls" "stop_shape s calls" "ma_disk m1 = ma_disk ?m"
      "ma_printed m1 = ma_printed ?m" using stop_calls [OF s] by blast
    have "m1 = m\<lparr>ma_tools := ma_tools m @ open_call s # calls\<rparr>" using c(1,3,4) by simp
    then show ?thesis using Inr s stop_shape_bounds [OF c(2)]
      by (intro that [of "open_call s # calls"]) (auto simp: stop_if_there_def scm_simp ignore_def stop_like_def)
  qed
  obtain c2 where "act_all (map (stop_if_there W) ss) (m\<lparr>ma_tools := ma_tools m @ c1\<rparr>) =
      (m\<lparr>ma_tools := ma_tools m @ c1\<rparr>\<lparr>ma_tools := ma_tools (m\<lparr>ma_tools := ma_tools m @ c1\<rparr>) @ c2\<rparr>, Inr ())"
    "stop_like ss c2" using Cons.IH by blast
  then show ?case using c1 by (intro exI [of _ "c1 @ c2"]) (auto simp: act_bind_def stop_like_def)
qed

definition migrate_calls :: "string list \<Rightarrow> tool_call list" where
  "migrate_calls names =
     concat (map (\<lambda>s. map (Pair ''sc.exe'') ([''config'', s, ''obj='', local_service] # hardening_args s)) names)"

lemma run_sc_calls: "\<exists>p. fst (run_sc W args m) = m\<lparr>ma_tools := ma_tools m @ [(''sc.exe'', args)], ma_printed := p\<rparr>"
proof (cases "ho_run (wh_os W) (ma_tools m) (''sc.exe'', args)")
  case (Inl e)
  then show ?thesis by (intro exI [of _ "ma_printed m"]) (simp add: run_sc_def Let_def run_echoed_def run_tool_def)
next
  case (Inr o1)
  then show ?thesis
    by (intro exI [of _ "ma_printed m @ (if trim (ou_stdout o1) = [] \<or> wh_json W then [] else [trim_end (ou_stdout o1)])"])
      (simp add: run_sc_def Let_def run_echoed_def run_tool_def echo_child_output_def act_when_def say_def act_bind_def)
qed

lemma run_sc_all:
  "\<exists>p. act_all (map (\<lambda>args. ignore (run_sc W args)) as) m =
     (m\<lparr>ma_tools := ma_tools m @ map (Pair ''sc.exe'') as, ma_printed := p\<rparr>, Inr ())"
proof (induction as arbitrary: m)
  case Nil
  show ?case by (intro exI [of _ "ma_printed m"]) simp
next
  case (Cons a as)
  obtain p where "fst (run_sc W a m) = m\<lparr>ma_tools := ma_tools m @ [(''sc.exe'', a)], ma_printed := p\<rparr>"
    using run_sc_calls by blast
  then show ?case using Cons.IH [of "m\<lparr>ma_tools := ma_tools m @ [(''sc.exe'', a)], ma_printed := p\<rparr>"]
    by (simp add: act_bind_def ignore_def)
qed

lemma migrate_all:
  "\<exists>p. act_all (map (migrate_service_hardening W) names) m =
     (m\<lparr>ma_tools := ma_tools m @ migrate_calls names, ma_printed := p\<rparr>, Inr ())"
proof (induction names arbitrary: m)
  case Nil
  show ?case by (intro exI [of _ "ma_printed m"]) (simp add: migrate_calls_def)
next
  case (Cons s ss)
  let ?as = "[''config'', s, ''obj='', local_service] # hardening_args s"
  obtain p where "migrate_service_hardening W s m =
      (m\<lparr>ma_tools := ma_tools m @ map (Pair ''sc.exe'') ?as, ma_printed := p\<rparr>, Inr ())"
    unfolding migrate_service_hardening_def using run_sc_all [of W ?as m] by blast
  then show ?case using Cons.IH [of "m\<lparr>ma_tools := ma_tools m @ map (Pair ''sc.exe'') ?as, ma_printed := p\<rparr>"]
    by (simp add: act_bind_def migrate_calls_def)
qed

text \<open>The calls of \<open>start_services_best_effort\<close>: every service that can be opened is started.\<close>

fun start_calls :: "win_host \<Rightarrow> tool_call list \<Rightarrow> string list \<Rightarrow> tool_call list" where
  "start_calls W before [] = []"
| "start_calls W before (s # ss) =
     (if call_answered W before (open_call s)
      then open_call s # start_call s # start_calls W (before @ [open_call s, start_call s]) ss
      else open_call s # start_calls W (before @ [open_call s]) ss)"

lemma start_all_calls:
  "\<exists>n \<le> length names. win_start_all W names m = (m\<lparr>ma_tools := ma_tools m @ start_calls W (ma_tools m) names\<rparr>, Inr n)"
proof (induction names arbitrary: m)
  case (Cons s ss)
  show ?case
  proof (cases "wh_scm W (ma_tools m) (open_call s)")
    case (Inl e)
    then show ?thesis using Cons.IH [of "m\<lparr>ma_tools := ma_tools m @ [open_call s]\<rparr>"]
      by (auto simp: scm_simp scm_answered is_ok_def)
  next
    case (Inr x)
    let ?m = "m\<lparr>ma_tools := ma_tools m @ [open_call s, start_call s]\<rparr>"
    obtain n where "n \<le> length ss" "win_start_all W ss ?m = (?m\<lparr>ma_tools := ma_tools ?m @ start_calls W (ma_tools ?m) ss\<rparr>, Inr n)"
      using Cons.IH by blast
    then show ?thesis using Inr
      by (intro exI [of _ "if is_ok (wh_scm W (ma_tools m @ [open_call s]) (start_call s)) then Suc n else n"])
        (simp add: scm_simp scm_answered is_ok_def)
  qed
qed simp

lemma start_calls_all_opened:
  "(\<And>before s. s \<in> set names \<Longrightarrow> is_ok (wh_scm W before (open_call s))) \<Longrightarrow>
   start_calls W before names = concat (map (\<lambda>s. [open_call s, start_call s]) names)"
  by (induction names arbitrary: before) (auto simp: scm_answered)

definition update_calls :: "win_host \<Rightarrow> (string \<times> service_role) list \<Rightarrow> path \<Rightarrow> tool_call list" where
  "update_calls W services exe =
     concat (map (\<lambda>(name, role). map (Pair ''icacls'') (service_access_grant_args (scm_name role name) (wh_dir W, name @ ''.toml'')))
       services) @
     map (Pair ''icacls'') (exe_lockdown_args (win_path (wh_dir W, snd exe)) (map (\<lambda>(name, role). scm_name role name) services))"

lemma update_makes: "makes W (update_calls W services exe) (update_binary W services exe)"
proof -
  have g: "makes W (map (Pair ''icacls'') (service_access_grant_args s config)) (grant_service_access W s config)" for s config
    using makes_bind [OF makes_context [OF makes_leaf(5)] makes_icacls_all] by (simp add: grant_service_access_def)
  have a: "makes W (concat (map (\<lambda>(name, role). map (Pair ''icacls'')
      (service_access_grant_args (scm_name role name) (wh_dir W, name @ ''.toml''))) services))
    (act_all (map (\<lambda>(name, role). grant_service_access W (scm_name role name) (wh_dir W, name @ ''.toml'')) services))"
    by (rule makes_map_all) (auto intro: g)
  show ?thesis
    using makes_bind [OF a makes_bind [OF makes_copy makes_icacls_all]]
    by (simp add: update_binary_def update_calls_def Let_def)
qed

text \<open>A copy that succeeds leaves the new content under the name, and no temporary file.\<close>

lemma copy_tmp_other: "copy_tmp W dest \<noteq> dest"
  by (cases dest) (simp add: copy_tmp_def)

lemma binary_copied:
  assumes "ensure_binary_copy W src dest m = (m', Inr x)"
  shows "wh_same W src dest \<and> m' = m \<or>
    (\<exists>f g. ho_copy (wh_os W) (ma_disk m) src (copy_tmp W dest) = Inr f \<and> ma_disk m' dest = Some g \<and>
       f_content g = f_content f \<and> ma_disk m' (copy_tmp W dest) = None)"
proof (cases "wh_same W src dest")
  case True
  then show ?thesis using assms by (simp add: ensure_binary_copy_def)
next
  case False
  let ?t = "copy_tmp W dest"
  have "act_seq (copy_file (wh_os W) src ?t) (replace_file_preserving_security W ?t dest) m = (m', Inr x)"
    using assms False
    by (auto simp: ensure_binary_copy_def Let_def act_rescue_def act_bind_def ignore_def split: prod.splits sum.splits)
  then obtain m1 where s: "copy_file (wh_os W) src ?t m = (m1, Inr ())" "replace_file_preserving_security W ?t dest m1 = (m', Inr x)"
    by (auto simp: act_bind_Inr)
  obtain f where f: "ho_copy (wh_os W) (ma_disk m) src ?t = Inr f" "ma_disk m1 ?t = Some f"
    using s(1) by (auto simp: copy_file_def split: sum.splits)
  have "\<exists>g. ma_disk m' dest = Some g \<and> f_content g = f_content f \<and> ma_disk m' ?t = None"
    using s(2) f(2) copy_tmp_other [of W dest]
    by (auto simp: replace_file_preserving_security_def Let_def split: option.splits if_splits)
  then show ?thesis using f(1) by blast
qed

lemma update_ok:
  assumes "update_binary W services exe m = (m', Inr x)"
  shows "wh_same W exe (wh_dir W, snd exe) \<or>
    (\<exists>f g. ho_copy (wh_os W) (ma_disk m) exe (copy_tmp W (wh_dir W, snd exe)) = Inr f \<and>
       ma_disk m' (wh_dir W, snd exe) = Some g \<and> f_content g = f_content f)"
proof -
  have icacls: "touches {} (act_all (map (run_icacls W) cmds))" for cmds
    by (intro touches_all) (auto intro: touches_echoed)
  have grants: "touches {} (act_all (map (\<lambda>(name, role). grant_service_access W (scm_name role name) (wh_dir W, name @ ''.toml'')) services))"
    by (intro touches_all) (auto simp: grant_service_access_def intro!: touches_bind touches_context touches_leaf icacls)
  obtain m1 m2 where s: "act_all (map (\<lambda>(name, role). grant_service_access W (scm_name role name) (wh_dir W, name @ ''.toml'')) services) m = (m1, Inr ())"
    "ensure_binary_copy W exe (wh_dir W, snd exe) m1 = (m2, Inr ())"
    "act_all (map (run_icacls W) (exe_lockdown_args (win_path (wh_dir W, snd exe))
      (map (\<lambda>(name, role). scm_name role name) services))) m2 = (m', Inr x)"
    using assms unfolding update_binary_def Let_def act_bind_Inr by auto
  have "ma_disk m1 = ma_disk m" "ma_disk m' = ma_disk m2"
    using touchesD [OF grants s(1)] touchesD [OF icacls s(3)] by auto
  then show ?thesis using binary_copied [OF s(2)] by auto
qed

text \<open>What follows the stops, after the calls made before.\<close>

lemma restart_ok:
  assumes "replace_and_restart W services names m2 = (m', r)"
  shows "case ho_exe (wh_os W) of
      Inl _ \<Rightarrow> ma_tools m' = ma_tools m2 \<and> \<not> is_ok r
    | Inr exe \<Rightarrow>
        if snd exe = [] then ma_tools m' = ma_tools m2 \<and> \<not> is_ok r
        else \<exists>k \<le> length (update_calls W services exe).
          (let b2 = ma_tools m2 @ take k (update_calls W services exe) in ma_tools m' = b2 @ start_calls W b2 names) \<and>
          (is_ok r \<longrightarrow> k = length (update_calls W services exe) \<and> all_answered W (ma_tools m2) (update_calls W services exe) \<and>
             (wh_same W exe (wh_dir W, snd exe) \<or>
              (\<exists>f g. ho_copy (wh_os W) (ma_disk m2) exe (copy_tmp W (wh_dir W, snd exe)) = Inr f \<and>
                 ma_disk m' (wh_dir W, snd exe) = Some g \<and> f_content g = f_content f)))"
proof (cases "ho_exe (wh_os W)")
  case (Inl e)
  then show ?thesis using assms by (auto simp: replace_and_restart_def act_bind_def current_exe_def is_ok_def)
next
  case (Inr exe)
  obtain m3 r3 where u: "update_binary W services exe m2 = (m3, r3)" by (cases "update_binary W services exe m2")
  obtain k where k: "k \<le> length (update_calls W services exe)" "ma_tools m3 = ma_tools m2 @ take k (update_calls W services exe)"
    "is_ok r3 \<Longrightarrow> k = length (update_calls W services exe) \<and> all_answered W (ma_tools m2) (update_calls W services exe)"
    using makesD [OF update_makes u] by metis
  obtain n where n: "win_start_all W names m3 = (m3\<lparr>ma_tools := ma_tools m3 @ start_calls W (ma_tools m3) names\<rparr>, Inr n)"
    using start_all_calls by blast
  have "ma_tools m' = ma_tools m3 @ start_calls W (ma_tools m3) names \<and> is_ok r = is_ok r3 \<and> ma_disk m' = ma_disk m3"
    if "snd exe \<noteq> []"
    using assms Inr that u n
    by (cases r3) (auto simp: replace_and_restart_def act_bind_def current_exe_def act_rescue_def say_def is_ok_def split: if_splits)
  moreover have "wh_same W exe (wh_dir W, snd exe) \<or>
      (\<exists>f g. ho_copy (wh_os W) (ma_disk m2) exe (copy_tmp W (wh_dir W, snd exe)) = Inr f \<and>
         ma_disk m3 (wh_dir W, snd exe) = Some g \<and> f_content g = f_content f)" if "is_ok r3"
    using update_ok [of W services exe m2 m3] u that by (cases r3) (simp_all add: is_ok_def)
  moreover have "ma_tools m' = ma_tools m2 \<and> \<not> is_ok r" if "snd exe = []"
    using assms Inr that by (auto simp: replace_and_restart_def act_bind_def current_exe_def is_ok_def)
  ultimately show ?thesis using Inr k by (cases "snd exe = []") (auto simp: Let_def intro!: exI [of _ k])
qed

section \<open>Properties\<close>

text \<open>
  Waiting for a service to stop is bounded: the state, one request to stop unless it is stopped
  already, and at most 61 polls, whatever the service control manager answers and however long a
  pause takes. A success means the last answer was that it has stopped; no file is changed.
\<close>
theorem windows_stop_bounded:
  "case stop_and_wait W service m of
     (m', r) \<Rightarrow>
       (\<exists>calls. ma_tools m' = ma_tools m @ calls \<and> length calls \<le> 63 \<and>
          (calls = [query_call service] \<or>
           (\<exists>n \<le> 61. calls = query_call service # stop_call service # replicate n (query_call service))) \<and>
          (is_ok r \<longrightarrow> last calls = query_call service \<and>
             wh_scm W (butlast (ma_tools m')) (query_call service) = Inr ''Stopped'')) \<and>
       ma_disk m' = ma_disk m \<and> ma_printed m' = ma_printed m"
proof -
  obtain m' r where s: "stop_and_wait W service m = (m', r)" by (cases "stop_and_wait W service m")
  show ?thesis unfolding s prod.case
    using stop_calls [OF s] stop_shape_bounds by (simp only: stop_shape_def) blast
qed

theorem windows_stop_bounded_witness:
  "\<exists>m'. stop_and_wait sample_win ''s'' sample_machine = (m', Inr ()) \<and> length (ma_tools m') \<le> 63"
proof -
  obtain m' where s: "stop_and_wait sample_win ''s'' sample_machine = (m', Inr ())"
    by (auto simp: stop_and_wait_def Let_def scm_act_bind)
  have "ma_tools sample_machine = []" by (simp add: sample_machine_def)
  then show ?thesis
    using windows_stop_bounded [where W = sample_win and service = "''s''" and m = sample_machine] s by auto
qed


definition admin_win :: win_host where
  "admin_win = sample_win\<lparr>wh_elevated := True, wh_dir := config_dir\<rparr>"


end
