(* ===== verification/Windows_Commands.thy ===== *)
theory Windows_Commands
  imports Windows_Upgrade
begin

text \<open>
  \<open>dispatch_service_command\<close> and the \<open>upgrade\<close> arm of \<open>src/lib.rs\<close> over the backend of
  \<open>src/platform/windows.rs\<close>, and \<open>run\<close> around them: removing a service with its files, and what a
  command prints in the JSON mode with and without elevation. The path a relative \<open>--config\<close> stands
  for is a parameter (\<open>cwd\<close>), as is the service loop that \<open>service run\<close> enters.
\<close>

section \<open>The commands\<close>

definition win_install_target :: "win_host \<Rightarrow> (anyhow + (path \<Rightarrow> path)) \<Rightarrow> install_args \<Rightarrow> anyhow + string \<times> path" where
  "win_install_target W cwd i =
     (case ia_config i of
        None \<Rightarrow> win_config_path W (ia_name i)
      | Some p \<Rightarrow>
          rbind (with_context (Ctx ''failed to resolve the current directory for `--config`'') cwd) (\<lambda>join.
          let path = join p in
          rbind (case ia_name i of
              Some n \<Rightarrow> Inr n
            | None \<Rightarrow>
                if snd path = [] then
                  Inl (Err (''cannot derive a service name from `'' @ win_path path @ ''`; pass `--name`''))
                else Inr (fst (stem_extension (snd path)))) (\<lambda>name.
          rbind (validate_service_name name) (\<lambda>_. Inr (name, path)))))"

definition install_options :: "install_args \<Rightarrow> service_role \<Rightarrow> string \<Rightarrow> path \<Rightarrow> service_install_options" where
  "install_options i role name config =
     \<lparr>so_name = name, so_role = role, so_config_path = config, so_allow_user_config = ia_allow_user_config i\<rparr>"

definition win_created_line :: "service_role \<Rightarrow> path \<Rightarrow> string" where
  "win_created_line role p =
     ''Created '' @ role_key role @ '' config at '' @ win_path p @ '' (no services configured yet).''"

definition win_run_install ::
  "win_host \<Rightarrow> terminal \<Rightarrow> (anyhow + (path \<Rightarrow> path)) \<Rightarrow> bool \<Rightarrow> install_args \<Rightarrow> json act" where
  "win_run_install W tm cwd confirmed i =
     (case ia_role i of
        None \<Rightarrow> act_fail (Err ''A role is required: `service install server` or `service install client`'')
      | Some role \<Rightarrow>
          act_bind (act_lift (win_install_target W cwd i)) (\<lambda>(name, config).
          act_bind (act_lift (snd (confirm_action tm (ia_yes i) (ia_json i) ''install'' confirmed))) (\<lambda>_.
          act_bind (win_elevate_for_config_if_needed W config) (\<lambda>relayed.
          if relayed then act_return relayed_json
          else
            act_bind (on_disk (ensure_role_config (wh_editor W) (wh_io W) config role)) (\<lambda>created.
            act_bind (act_when (created \<and> \<not> ia_json i) (print_line (win_created_line role config))) (\<lambda>_.
            act_bind (win_install_service W (ed_semver (wh_editor W)) (install_options i role name config)) (\<lambda>_.
            act_return (J_Object [(''action'', J_String ''install''), (''names'', J_Array [J_String name]),
              (''role'', J_String (role_key role)), (''config'', J_String (win_path config)),
              (''created'', J_Bool created), (''message'', J_String ''service installed'')]))))))))"

definition win_run_uninstall :: "win_host \<Rightarrow> terminal \<Rightarrow> bool \<Rightarrow> uninstall_args \<Rightarrow> json act" where
  "win_run_uninstall W tm confirmed u =
     on_machine (\<lambda>m.
       let confirm = act_lift (snd (confirm_action tm (ua_yes u) (ua_json u) ''uninstall'' confirmed)) in
       if ua_all u then
         act_seq confirm (act_seq (win_uninstall_all W (ua_purge u))
           (act_return (J_Object [(''action'', J_String ''uninstall''),
             (''names'', J_Array (map (\<lambda>s. J_String (fst s)) (win_services W (ma_disk m)))),
             (''all'', J_Bool True), (''purge'', J_Bool (ua_purge u)),
             (''message'', J_String ''all services uninstalled'')])))
       else
         act_bind (act_lift (win_resolve W (ma_disk m) (ua_config u) (ua_name u))) (\<lambda>config.
         act_seq confirm (act_seq (win_uninstall_service W (ua_purge u) config)
           (act_return (J_Object [(''action'', J_String ''uninstall''),
             (''names'', J_Array [J_String (config_stem ''?'' config)]),
             (''purge'', J_Bool (ua_purge u)), (''message'', J_String ''service uninstalled'')])))))"

definition win_run_control :: "win_host \<Rightarrow> string \<Rightarrow> service_args \<Rightarrow> json act" where
  "win_run_control W action args =
     on_machine (\<lambda>m.
       let names = (case sa_name args of Some n \<Rightarrow> [n] | None \<Rightarrow> map fst (win_services W (ma_disk m))) in
       act_seq (win_control_service W action args)
         (act_return (J_Object [(''action'', J_String action), (''names'', J_Array (map J_String names)),
           (''all'', J_Bool (sa_all args)), (''message'', J_String ''ok'')])))"

definition win_run_upgrade :: "win_host \<Rightarrow> terminal \<Rightarrow> bool \<Rightarrow> bool \<Rightarrow> bool \<Rightarrow> json act" where
  "win_run_upgrade W tm confirmed yes json =
     act_seq (act_lift (snd (confirm_action tm yes json ''upgrade'' confirmed)))
    (act_seq (win_upgrade_binary W)
    (act_return (J_Object [(''action'', J_String ''upgrade''), (''message'', J_String ''binary upgraded'')])))"

definition win_dispatch_service_command ::
  "win_host \<Rightarrow> terminal \<Rightarrow> (anyhow + (path \<Rightarrow> path)) \<Rightarrow> (path \<Rightarrow> unit act) \<Rightarrow> bool \<Rightarrow> service_cmd \<Rightarrow> json act" where
  "win_dispatch_service_command W tm cwd service_loop confirmed cmd =
     (case cmd of
        Service_Install i \<Rightarrow> win_run_install W tm cwd confirmed i
      | Service_Uninstall u \<Rightarrow> win_run_uninstall W tm confirmed u
      | Service_Run config \<Rightarrow> act_seq (service_loop config) (act_return J_Null)
      | Service_Start a \<Rightarrow> win_run_control W ''start'' a
      | Service_Stop a \<Rightarrow> win_run_control W ''stop'' a
      | Service_Restart a \<Rightarrow> win_run_control W ''restart'' a)"

text \<open>\<open>run\<close> for a service command, which sets the JSON mode of the platform code.\<close>

definition win_run ::
  "win_host \<Rightarrow> (json \<Rightarrow> string) \<Rightarrow> terminal \<Rightarrow> (anyhow + (path \<Rightarrow> path)) \<Rightarrow> (path \<Rightarrow> unit act) \<Rightarrow> bool \<Rightarrow> service_cmd \<Rightarrow> unit act" where
  "win_run W json_text tm cwd service_loop confirmed cmd =
     (let V = W\<lparr>wh_json := service_requests_json cmd\<rparr> in
      run_relayed V json_text (win_dispatch_service_command V tm cwd service_loop confirmed cmd) id)"

section \<open>Silence\<close>

text \<open>
  \<open>quiet W f\<close>: in the JSON mode the action prints nothing and does not mark the process as relayed.
  \<open>relays W f\<close>: it prints nothing and does not mark it, or it succeeds, marks it, and printed one
  envelope of the elevated process.
\<close>

named_theorems quiet_intros \<open>actions that print nothing in the JSON mode\<close>

definition quiet :: "'a act \<Rightarrow> bool" where
  "quiet f \<longleftrightarrow> (\<forall>m. \<exists>calls. ma_tools (fst (f m)) = ma_tools m @ calls \<and> relayed_call \<notin> set calls \<and>
     ma_printed (fst (f m)) = ma_printed m)"

definition relay_end :: "win_host \<Rightarrow> computer \<Rightarrow> computer \<Rightarrow> bool \<Rightarrow> bool" where
  "relay_end W m m' ok \<longleftrightarrow>
     (\<exists>calls. ma_tools m' = ma_tools m @ calls \<and>
        (if relayed_call \<in> set calls then ok \<and> (\<exists>line. ma_printed m' = ma_printed m @ [line] \<and> is_envelope W line)
         else ma_printed m' = ma_printed m))"

definition relays :: "win_host \<Rightarrow> 'a act \<Rightarrow> bool" where
  "relays W f \<longleftrightarrow> (\<forall>m. relay_end W m (fst (f m)) (is_ok (snd (f m))))"

lemma quietD:
  assumes "quiet f" "f m = (m', r)"
  obtains calls where "ma_tools m' = ma_tools m @ calls" "relayed_call \<notin> set calls" "ma_printed m' = ma_printed m"
  using assms unfolding quiet_def by (metis fst_conv)

lemma quiet_same:
  assumes "\<And>m. ma_tools (fst (f m)) = ma_tools m \<and> ma_printed (fst (f m)) = ma_printed m"
  shows "quiet f"
  using assms by (simp add: quiet_def)

lemma quiet_leaf [quiet_intros]:
  "quiet (act_return x)" "quiet (act_lift r)" "quiet (create_dir_all H d)" "quiet (write_file H p content)"
  "quiet (remove_file H p)" "quiet (copy_file H src p)" "quiet (open_manager W)" "quiet (remove_quietly W p)"
  "quiet (replace_file_preserving_security W a b)" "quiet (current_exe W)" "quiet (on_disk g)"
  by (rule quiet_same; auto simp: create_dir_all_def write_file_def remove_file_def copy_file_def open_manager_def
      remove_quietly_def ignore_def replace_file_preserving_security_def Let_def current_exe_def on_disk_def
      split: option.split sum.split prod.split)+

lemma quiet_bind [quiet_intros]:
  assumes "quiet f" "\<And>x. quiet (k x)"
  shows "quiet (act_bind f k)"
  unfolding quiet_def
proof
  fix m
  obtain m1 r where f: "f m = (m1, r)" by (cases "f m")
  obtain c1 where c1: "ma_tools m1 = ma_tools m @ c1" "relayed_call \<notin> set c1" "ma_printed m1 = ma_printed m"
    using quietD [OF assms(1) f] by blast
  show "\<exists>calls. ma_tools (fst (act_bind f k m)) = ma_tools m @ calls \<and> relayed_call \<notin> set calls \<and>
      ma_printed (fst (act_bind f k m)) = ma_printed m"
  proof (cases r)
    case (Inl e)
    then show ?thesis using f c1 by (simp add: act_bind_def)
  next
    case (Inr x)
    obtain m2 s where k: "k x m1 = (m2, s)" by (cases "k x m1")
    obtain c2 where "ma_tools m2 = ma_tools m1 @ c2" "relayed_call \<notin> set c2" "ma_printed m2 = ma_printed m1"
      using quietD [OF assms(2) k] by blast
    then show ?thesis using f c1 k Inr by (intro exI [of _ "c1 @ c2"]) (simp add: act_bind_def)
  qed
qed

lemma quiet_rescue [quiet_intros]: "quiet f \<Longrightarrow> (\<And>e. quiet (h e)) \<Longrightarrow> quiet (act_rescue f h)"
proof -
  assume f: "quiet f" and h: "\<And>e. quiet (h e)"
  have "quiet (act_bind (\<lambda>m. case f m of (m', r) \<Rightarrow> (m', Inr r)) (\<lambda>r. case r of Inl e \<Rightarrow> h e | Inr x \<Rightarrow> act_return x))"
    using f h by (intro quiet_bind) (auto simp: quiet_def split: prod.split sum.split, metis fst_conv)
  moreover have "act_bind (\<lambda>m. case f m of (m', r) \<Rightarrow> (m', Inr r)) (\<lambda>r. case r of Inl e \<Rightarrow> h e | Inr x \<Rightarrow> act_return x) =
      act_rescue f h"
    by (rule ext) (simp add: act_bind_def act_rescue_def split: prod.split sum.split)
  ultimately show ?thesis by simp
qed

lemma quiet_more [quiet_intros]:
  "quiet f \<Longrightarrow> quiet (act_context c f)" "quiet f \<Longrightarrow> quiet (ignore f)" "(\<And>m. quiet (g m)) \<Longrightarrow> quiet (on_machine g)"
  "(b \<Longrightarrow> quiet u) \<Longrightarrow> quiet (act_when b u)" "(b \<Longrightarrow> quiet f) \<Longrightarrow> (\<not> b \<Longrightarrow> quiet g') \<Longrightarrow> quiet (if b then f else g')"
  by (auto simp: quiet_def act_context_def ignore_def act_when_def)

lemma quiet_all [quiet_intros]: "(\<And>f. f \<in> set fs \<Longrightarrow> quiet f) \<Longrightarrow> quiet (act_all fs)"
  by (induction fs) (auto intro: quiet_intros)

lemma quiet_say [quiet_intros]: "wh_json W \<Longrightarrow> quiet (say W s)" "wh_json W \<Longrightarrow> quiet (say_all W ss)"
  unfolding say_all_def by (auto simp: say_def intro!: quiet_intros)

lemma not_relayed: "scm_call op1 s extra \<noteq> relayed_call" "relayed_call \<noteq> (''icacls'', args)" "relayed_call \<noteq> (''sc.exe'', args)"
  by (simp_all add: scm_call_def relayed_call_def)

lemma quiet_scm [quiet_intros]:
  "quiet (scm_act W op1 s err)" "quiet (delete_quietly W s)" "quiet (create_service W opts p)"
  "quiet (delete_service W s)" "quiet (scm_has_service W s)"
  by (auto simp: quiet_def scm_act_def scm_simp delete_quietly_def create_service_def delete_service_def
      scm_has_service_def Let_def not_relayed not_relayed [symmetric])

lemma quiet_start [quiet_intros]: "quiet (start_or_roll_back W s name)"
  by (auto simp: quiet_def start_or_roll_back_def scm_simp not_relayed not_relayed [symmetric] split: sum.split)

lemma quiet_tools [quiet_intros]: "wh_json W \<Longrightarrow> quiet (run_sc W args)" "wh_json W \<Longrightarrow> quiet (run_icacls W args)"
proof -
  assume j: "wh_json W"
  have "quiet (run_echoed W program args c failed)" if "relayed_call \<noteq> (program, args)" for program c failed
    unfolding quiet_def
  proof
    fix m :: computer
    show "\<exists>calls. ma_tools (fst (run_echoed W program args c failed m)) = ma_tools m @ calls \<and> relayed_call \<notin> set calls \<and>
        ma_printed (fst (run_echoed W program args c failed m)) = ma_printed m"
      using that j
      by (intro exI [of _ "[(program, args)]"])
        (auto simp: run_echoed_def run_tool_def echo_child_output_def act_when_def say_def act_bind_def split: sum.split)
  qed
  then show "quiet (run_sc W args)" "quiet (run_icacls W args)" by (simp_all add: run_sc_def run_icacls_def Let_def not_relayed)
qed

lemma quiet_grant [quiet_intros]: "quiet (grant_users_modify W p)"
proof -
  have "quiet (tool_succeeds H ''icacls'' args)" for H args
    by (auto simp: quiet_def tool_succeeds_def run_tool_def relayed_call_def)
  then show ?thesis unfolding grant_users_modify_def by (intro quiet_intros)
qed

lemma quiet_prod: "(\<And>a b. quiet (f a b)) \<Longrightarrow> quiet (case p of (a, b) \<Rightarrow> f a b)"
  by (cases p) simp

lemma quiet_copy [quiet_intros]: "quiet (ensure_binary_copy W src dest)"
  unfolding ensure_binary_copy_def Let_def by (intro quiet_intros)

lemma quiet_install [quiet_intros]:
  assumes "wh_json W"
  shows "quiet (win_install W semver opts)"
proof -
  have "quiet (write_uninstall_bat W a b c d)" for a b c d unfolding write_uninstall_bat_def by (intro quiet_intros)
  moreover have "quiet (configure_service_hardening W s)" for s
    using assms unfolding configure_service_hardening_def by (auto intro!: quiet_intros)
  ultimately show ?thesis unfolding win_install_def rolled_back_def Let_def
    by (intro quiet_intros) (auto intro: quiet_tools assms)
qed

lemma quiet_cleanup [quiet_intros]: "quiet (win_remove_service_files W config purge)"
  unfolding win_remove_service_files_def Let_def by (auto intro!: quiet_intros)

lemma quiet_stop_poll: "quiet (stop_poll W s c elapsed)"
  unfolding quiet_def
proof
  fix m
  obtain m' r where p: "stop_poll W s c elapsed m = (m', r)" by (cases "stop_poll W s c elapsed m")
  obtain n where "ma_tools m' = ma_tools m @ replicate (Suc n) (query_call s)" "ma_printed m' = ma_printed m"
    using stop_poll_calls [OF p] by blast
  then show "\<exists>calls. ma_tools (fst (stop_poll W s c elapsed m)) = ma_tools m @ calls \<and> relayed_call \<notin> set calls \<and>
      ma_printed (fst (stop_poll W s c elapsed m)) = ma_printed m"
    using p by (intro exI [of _ "replicate (Suc n) (query_call s)"]) (auto simp: not_relayed [symmetric])
qed

lemma quiet_stop [quiet_intros]: "quiet (stop_and_wait W s)"
  unfolding stop_and_wait_def Let_def by (intro quiet_intros quiet_stop_poll)

lemma quiet_stop_uninstall [quiet_intros]: "quiet (stop_for_uninstall W s)"
proof -
  have "quiet (\<lambda>m. case scm W ''stop'' s [] m of
         (m1, Inl e) \<Rightarrow> (m1, Inr ())
       | (m1, Inr _) \<Rightarrow> act_seq (stop_poll W s c 0) (act_return ()) m1)" for c
    unfolding quiet_def
  proof
    fix m :: computer
    let ?f = "act_seq (stop_poll W s c 0) (act_return ())" and ?c = "scm_call ''stop'' s []"
    let ?m = "m\<lparr>ma_tools := ma_tools m @ [?c]\<rparr>"
    have "quiet ?f" by (intro quiet_intros quiet_stop_poll)
    then obtain calls where "ma_tools (fst (?f ?m)) = ma_tools ?m @ calls" "relayed_call \<notin> set calls"
      "ma_printed (fst (?f ?m)) = ma_printed ?m" unfolding quiet_def by blast
    then show "\<exists>calls. ma_tools (fst (case scm W ''stop'' s [] m of
         (m1, Inl e) \<Rightarrow> (m1, Inr ()) | (m1, Inr _) \<Rightarrow> ?f m1)) = ma_tools m @ calls \<and> relayed_call \<notin> set calls \<and>
       ma_printed (fst (case scm W ''stop'' s [] m of (m1, Inl e) \<Rightarrow> (m1, Inr ()) | (m1, Inr _) \<Rightarrow> ?f m1)) = ma_printed m"
      by (cases "wh_scm W (ma_tools m) ?c")
        (auto simp: scm_simp not_relayed [symmetric] intro: exI [of _ "[?c]"] exI [of _ "?c # calls"])
  qed
  then show ?thesis unfolding stop_for_uninstall_def by (intro quiet_intros)
qed

lemma quiet_uninstall [quiet_intros]: "quiet (win_uninstall W config purge)"
  unfolding win_uninstall_def open_for_uninstall_def Let_def by (intro quiet_intros)

lemma quiet_exists [quiet_intros]: "quiet (either_exists W name)"
  unfolding either_exists_def by (intro quiet_intros)

lemma quiet_remove_one [quiet_intros]: "quiet (remove_one W purge name)"
  unfolding remove_one_def Let_def by (intro quiet_intros)

lemma quiet_control [quiet_intros]: "wh_json W \<Longrightarrow> quiet (control_one W action s)"
  unfolding control_one_def by (intro quiet_intros)

lemma quiet_start_all [quiet_intros]: "quiet (win_start_all W names)"
proof -
  have "relayed_call \<notin> set (start_calls W before names)" for before
    by (induction W before names rule: start_calls.induct) (auto simp: not_relayed [symmetric])
  then show ?thesis using start_all_calls unfolding quiet_def by (metis computer.select_convs(3) computer.surjective
    computer.update_convs(2) computer.select_convs(2) fst_conv)
qed

lemma quiet_upgrade [quiet_intros]:
  assumes "wh_json W"
  shows "quiet (stop_if_there W s)" "quiet (migrate_service_hardening W s)" "quiet (replace_and_restart W services names)"
proof -
  show "quiet (migrate_service_hardening W s)"
    unfolding migrate_service_hardening_def using assms by (auto intro!: quiet_intros)
  show "quiet (stop_if_there W s)"
    unfolding quiet_def
  proof
    fix m :: computer
    let ?m = "m\<lparr>ma_tools := ma_tools m @ [open_call s]\<rparr>"
    have "quiet (ignore (stop_and_wait W s))" by (intro quiet_intros)
    then obtain calls where "ma_tools (fst (ignore (stop_and_wait W s) ?m)) = ma_tools ?m @ calls" "relayed_call \<notin> set calls"
      "ma_printed (fst (ignore (stop_and_wait W s) ?m)) = ma_printed ?m" unfolding quiet_def by blast
    then show "\<exists>calls. ma_tools (fst (stop_if_there W s m)) = ma_tools m @ calls \<and> relayed_call \<notin> set calls \<and>
        ma_printed (fst (stop_if_there W s m)) = ma_printed m"
      by (cases "wh_scm W (ma_tools m) (open_call s)")
        (auto simp: stop_if_there_def scm_simp not_relayed [symmetric] intro: exI [of _ "[open_call s]"] exI [of _ "open_call s # calls"])
  qed
  have "quiet (update_binary W services exe)" for exe
    unfolding update_binary_def grant_service_access_def Let_def using assms by (auto intro!: quiet_intros split: prod.split)
  then show "quiet (replace_and_restart W services names)"
    unfolding replace_and_restart_def using assms by (intro quiet_intros)
qed

section \<open>Relayed commands\<close>

lemma relay_end_disk: "relay_end W (m\<lparr>ma_disk := w\<rparr>) m' ok = relay_end W m m' ok"
  by (simp add: relay_end_def)

lemma relays_quiet: "quiet f \<Longrightarrow> relays W f"
  unfolding relays_def relay_end_def quiet_def by fastforce

lemma relays_replay: "wh_json W \<Longrightarrow> relays W (elevate_and_replay W)"
  unfolding relays_def relay_end_def
proof
  fix m
  assume j: "wh_json W"
  obtain m' r where e: "elevate_and_replay W m = (m', r)" by (cases "elevate_and_replay W m")
  show "\<exists>calls. ma_tools (fst (elevate_and_replay W m)) = ma_tools m @ calls \<and>
      (if relayed_call \<in> set calls then is_ok (snd (elevate_and_replay W m)) \<and>
         (\<exists>line. ma_printed (fst (elevate_and_replay W m)) = ma_printed m @ [line] \<and> is_envelope W line)
       else ma_printed (fst (elevate_and_replay W m)) = ma_printed m)"
    using relay_prints [OF e] j unfolding e fst_conv snd_conv by (auto split: if_splits)
qed

lemma relays_bind:
  assumes "quiet f" "\<And>x. relays W (k x)"
  shows "relays W (act_bind f k)"
  unfolding relays_def
proof
  fix m
  obtain m1 r where f: "f m = (m1, r)" by (cases "f m")
  obtain c1 where c1: "ma_tools m1 = ma_tools m @ c1" "relayed_call \<notin> set c1" "ma_printed m1 = ma_printed m"
    using quietD [OF assms(1) f] by blast
  show "relay_end W m (fst (act_bind f k m)) (is_ok (snd (act_bind f k m)))"
  proof (cases r)
    case (Inl e)
    then show ?thesis using f c1 unfolding relay_end_def by (intro exI [of _ c1]) (simp add: act_bind_def)
  next
    case (Inr x)
    have "relay_end W m1 (fst (k x m1)) (is_ok (snd (k x m1)))" using assms(2) by (simp add: relays_def)
    then obtain c2 where "ma_tools (fst (k x m1)) = ma_tools m1 @ c2"
      "if relayed_call \<in> set c2 then is_ok (snd (k x m1)) \<and> (\<exists>line. ma_printed (fst (k x m1)) = ma_printed m1 @ [line] \<and> is_envelope W line)
         else ma_printed (fst (k x m1)) = ma_printed m1" unfolding relay_end_def by blast
    then show ?thesis using f c1 Inr unfolding relay_end_def by (intro exI [of _ "c1 @ c2"]) (auto simp: act_bind_def)
  qed
qed

lemma relays_return: "relays W f \<Longrightarrow> relays W (act_bind f (\<lambda>x. act_return (g x)))"
proof -
  have "fst (act_bind f (\<lambda>x. act_return (g x)) m) = fst (f m) \<and>
      is_ok (snd (act_bind f (\<lambda>x. act_return (g x)) m)) = is_ok (snd (f m))" for m
    by (cases "f m"; cases "snd (f m)") (simp_all add: act_bind_def is_ok_def)
  then show "relays W f \<Longrightarrow> relays W (act_bind f (\<lambda>x. act_return (g x)))" by (simp add: relays_def)
qed

lemma relays_on_machine: "(\<And>m. relays W (f m)) \<Longrightarrow> relays W (on_machine f)"
  by (simp add: relays_def)

lemma relays_if: "(b \<Longrightarrow> relays W f) \<Longrightarrow> (\<not> b \<Longrightarrow> relays W g) \<Longrightarrow> relays W (if b then f else g)"
  by simp

text \<open>Before a configuration is written: the work is relayed, or nothing happened.\<close>

lemma relays_elevate:
  assumes "wh_json W" "relays W k"
  shows "relays W (act_bind (win_elevate_for_config_if_needed W p) (\<lambda>relayed. if relayed then act_return x else k))"
  unfolding relays_def
proof
  fix m :: computer
  obtain w writable where w: "writable_by_current_user (wh_io W) p (ma_disk m) = (w, writable)" by fastforce
  let ?m = "m\<lparr>ma_disk := w\<rparr>" and ?f = "act_bind (win_elevate_for_config_if_needed W p) (\<lambda>relayed. if relayed then act_return x else k)"
  show "relay_end W m (fst (?f m)) (is_ok (snd (?f m)))"
  proof (cases "\<not> writable \<and> \<not> wh_elevated W")
    case True
    have "?f m = act_bind (elevate_and_replay W) (\<lambda>_. act_return x) ?m"
      using True assms(1) w by (simp add: win_elevate_for_config_if_needed_def act_bind_def say_def split: prod.split sum.split)
    moreover have "relays W (act_bind (elevate_and_replay W) (\<lambda>_. act_return x))"
      by (intro relays_return relays_replay assms)
    then have "relay_end W ?m (fst (act_bind (elevate_and_replay W) (\<lambda>_. act_return x) ?m))
        (is_ok (snd (act_bind (elevate_and_replay W) (\<lambda>_. act_return x) ?m)))" by (simp only: relays_def)
    ultimately show ?thesis by (simp only: relay_end_disk)
  next
    case False
    then have "?f m = k ?m" using w by (auto simp: win_elevate_for_config_if_needed_def act_bind_def)
    moreover have "relay_end W ?m (fst (k ?m)) (is_ok (snd (k ?m)))" using assms(2) by (simp add: relays_def)
    ultimately show ?thesis by (simp only: relay_end_disk)
  qed
qed

lemma relays_commands:
  assumes "wh_json W"
  shows "relays W (win_install_service W semver opts)" "relays W (win_uninstall_service W purge config)"
    "relays W (win_uninstall_all W purge)" "relays W (win_control_service W action args)" "relays W (win_upgrade_binary W)"
proof -
  show "relays W (win_install_service W semver opts)"
    unfolding win_install_service_def
    by (intro relays_bind relays_if relays_replay relays_quiet quiet_intros assms)
  have "quiet (case role of Some r \<Rightarrow> scm_has_service W (scm_name r name) | None \<Rightarrow> either_exists W name)" for role name
    by (cases role) (auto intro: quiet_intros)
  then show "relays W (win_uninstall_service W purge config)"
    unfolding win_uninstall_service_def Let_def
    by (intro relays_on_machine relays_bind relays_if relays_replay relays_quiet quiet_intros assms)
  have all: "quiet (act_all (map (\<lambda>(name, _). remove_one W purge name) services))"
    "quiet (act_all (map (\<lambda>(name, role). control_one W action (scm_name role name)) services))"
    "quiet (act_all (map (stop_if_there W) names))" "quiet (act_all (map (migrate_service_hardening W) names))"
    "quiet (act_all (map (remove_quietly W) ps))" for services :: "(string \<times> service_role) list" and names ps
    using assms by (auto intro!: quiet_intros split: prod.split)
  show "relays W (win_uninstall_all W purge)"
    unfolding win_uninstall_all_def Let_def
    by (intro relays_on_machine relays_bind relays_if relays_replay relays_quiet all quiet_say quiet_bind quiet_more(3) assms)
  show "relays W (win_control_service W action args)"
    unfolding win_control_service_def
    by (intro relays_on_machine relays_bind relays_if relays_replay relays_quiet all quiet_say quiet_leaf assms)
  show "relays W (win_upgrade_binary W)"
    unfolding win_upgrade_binary_def Let_def
    by (intro relays_on_machine relays_bind relays_if relays_replay relays_quiet all quiet_say quiet_leaf quiet_upgrade assms)
qed

lemma relays_dispatch:
  assumes "wh_json W" "service_requests_json cmd"
  shows "relays W (win_dispatch_service_command W tm cwd service_loop confirmed cmd)"
proof (cases cmd)
  case (Service_Install i)
  have "relays W (win_run_install W tm cwd confirmed i)"
  proof (cases "ia_role i")
    case None
    then show ?thesis by (simp add: win_run_install_def relays_quiet quiet_leaf)
  next
    case (Some role)
    have "quiet (act_when (created \<and> \<not> ia_json i) (print_line s))" for created s
      using assms(2) Service_Install by (simp add: act_when_def quiet_leaf)
    then have tail: "relays W (act_bind (on_disk (ensure_role_config (wh_editor W) (wh_io W) config role)) (\<lambda>created.
            act_bind (act_when (created \<and> \<not> ia_json i) (print_line (win_created_line role config))) (\<lambda>_.
            act_bind (win_install_service W (ed_semver (wh_editor W)) (install_options i role name config)) (\<lambda>_.
            act_return (J_Object [(''action'', J_String ''install''), (''names'', J_Array [J_String name]),
              (''role'', J_String (role_key role)), (''config'', J_String (win_path config)),
              (''created'', J_Bool created), (''message'', J_String ''service installed'')])))))" for name config
      by (intro relays_bind relays_return relays_commands quiet_leaf assms)
    show ?thesis unfolding win_run_install_def Some option.case
    proof (rule relays_bind [OF quiet_leaf(2)])
      fix target :: "string \<times> path"
      show "relays W (case target of (name, config) \<Rightarrow>
          act_bind (act_lift (snd (confirm_action tm (ia_yes i) (ia_json i) ''install'' confirmed))) (\<lambda>_.
          act_bind (win_elevate_for_config_if_needed W config) (\<lambda>relayed.
          if relayed then act_return relayed_json
          else
            act_bind (on_disk (ensure_role_config (wh_editor W) (wh_io W) config role)) (\<lambda>created.
            act_bind (act_when (created \<and> \<not> ia_json i) (print_line (win_created_line role config))) (\<lambda>_.
            act_bind (win_install_service W (ed_semver (wh_editor W)) (install_options i role name config)) (\<lambda>_.
            act_return (J_Object [(''action'', J_String ''install''), (''names'', J_Array [J_String name]),
              (''role'', J_String (role_key role)), (''config'', J_String (win_path config)),
              (''created'', J_Bool created), (''message'', J_String ''service installed'')])))))))"
        by (cases target)
          (simp only: prod.case, intro relays_bind [OF quiet_leaf(2)] relays_elevate assms tail)
    qed
  qed
  then show ?thesis by (simp add: win_dispatch_service_command_def Service_Install)
next
  case (Service_Uninstall u)
  have "relays W (win_run_uninstall W tm confirmed u)"
    unfolding win_run_uninstall_def Let_def
    by (intro relays_on_machine relays_if relays_bind relays_return relays_commands quiet_leaf assms)
  then show ?thesis by (simp add: win_dispatch_service_command_def Service_Uninstall)
qed (use assms in \<open>auto simp: win_dispatch_service_command_def win_run_control_def Let_def
    intro!: relays_on_machine relays_return relays_commands\<close>)

section \<open>Removing a service with its files\<close>

definition removed :: "win_host \<Rightarrow> path set \<Rightarrow> disk \<Rightarrow> disk" where
  "removed W P w p = (if p \<in> P \<and> ho_unlink (wh_os W) p = None then None else w p)"

lemma removed_Un: "removed W Q (removed W P w) = removed W (P \<union> Q) w"
  by (rule ext) (simp add: removed_def)

lemma removed_none: "removed W {} w = w"
  by (rule ext) (simp add: removed_def)

lemma remove_quietly_disk: "remove_quietly W p m = (m\<lparr>ma_disk := removed W {p} (ma_disk m)\<rparr>, Inr ())"
proof -
  have "removed W {p} (ma_disk m) = (if ho_unlink (wh_os W) p = None then (ma_disk m)(p := None) else ma_disk m)"
    by (rule ext) (auto simp: removed_def)
  then show ?thesis
    by (auto simp: remove_quietly_def ignore_def remove_file_def path_exists_def fun_upd_idem split: option.split)
qed

lemma remove_all_disk:
  "act_all (map (remove_quietly W) ps) m = (m\<lparr>ma_disk := removed W (set ps) (ma_disk m)\<rparr>, Inr ())"
proof (induction ps arbitrary: m)
  case Nil
  show ?case by (simp add: removed_none)
next
  case (Cons p ps)
  have "act_all (map (remove_quietly W) (p # ps)) m =
      act_all (map (remove_quietly W) ps) (m\<lparr>ma_disk := removed W {p} (ma_disk m)\<rparr>)"
    by (simp only: list.map act_all.simps act_bind_def remove_quietly_disk prod.case sum.case)
  also have "\<dots> = (m\<lparr>ma_disk := removed W ({p} \<union> set ps) (ma_disk m)\<rparr>, Inr ())"
    by (simp add: Cons.IH removed_Un del: Un_insert_left)
  finally show ?case by simp
qed

text \<open>
  What the clean-up removes: always the helper script, with \<open>--purge\<close> the configuration and the
  files an interrupted write left, and the version stamp when no other configuration is there.
\<close>

definition cleaned :: "win_host \<Rightarrow> path \<Rightarrow> bool \<Rightarrow> disk \<Rightarrow> path set" where
  "cleaned W config purge w =
     (let bat = {uninstall_bat_path (fst config) (fst (stem_extension (snd config)))};
          own = bat \<union> (if purge then {config} \<union> set (listed_files W (fst config)
            (starts_with (fst (stem_extension (snd config)) @ ''.tmp'')) (removed W (bat \<union> {config}) w)) else {}) in
      own \<union> (if win_other_configs W (removed W own w) config then {} else {version_path config}))"

lemma cleanup_exact:
  "win_remove_service_files W config purge m = (m\<lparr>ma_disk := removed W (cleaned W config purge (ma_disk m)) (ma_disk m)\<rparr>, Inr ())"
proof (cases purge)
  case True
  show ?thesis
    unfolding win_remove_service_files_def cleaned_def Let_def True
    by (simp add: act_bind_def remove_quietly_disk act_when_def remove_all_disk removed_Un removed_none Un_assoc
        del: Un_insert_left Un_insert_right)
next
  case False
  then show ?thesis
    unfolding win_remove_service_files_def cleaned_def Let_def
    by (simp add: act_bind_def remove_quietly_disk act_when_def removed_Un removed_none Un_assoc
        del: Un_insert_left Un_insert_right)
qed

lemma cleaned_keeps:
  assumes "\<not> purge" "config \<noteq> version_path config"
    "config \<noteq> uninstall_bat_path (fst config) (fst (stem_extension (snd config)))"
  shows "config \<notin> cleaned W config purge w"
  using assms by (auto simp: cleaned_def Let_def)

lemma open_for_uninstall_ok:
  assumes "open_for_uninstall W name role m = (m', Inr s)"
  shows "s \<in> {scm_name Role_Client name, scm_name Role_Server name} \<and> ma_disk m' = ma_disk m \<and>
    (\<exists>calls. ma_tools m' = ma_tools m @ calls @ [open_call s])"
proof -
  define a b where "a = scm_name (case role of Some r \<Rightarrow> r | None \<Rightarrow> Role_Client) name"
    and "b = scm_name (case role of Some r \<Rightarrow> other_role r | None \<Rightarrow> Role_Server) name"
  have ab: "{a, b} = {scm_name Role_Client name, scm_name Role_Server name}"
    by (auto simp: a_def b_def other_role_def split: option.split service_role.split)
  have "s = a \<and> m' = m\<lparr>ma_tools := ma_tools m @ [open_call a]\<rparr> \<or>
      s = b \<and> m' = m\<lparr>ma_tools := ma_tools m @ [open_call a, open_call b]\<rparr>"
    using assms unfolding open_for_uninstall_def Let_def a_def [symmetric] b_def [symmetric]
    by (cases "wh_scm W (ma_tools m) (open_call a)"; cases "wh_scm W (ma_tools m @ [open_call a]) (open_call b)")
      (auto simp: act_rescue_def scm_act_bind)
  then show ?thesis unfolding ab [symmetric] by auto
qed

lemma stop_for_uninstall_disk: "ma_disk (fst (stop_for_uninstall W s m)) = ma_disk m"
proof -
  have "ma_disk (fst (act_seq (stop_poll W s c 0) (act_return ()) m1)) = ma_disk m1" for c m1
  proof -
    obtain m2 r where p: "stop_poll W s c 0 m1 = (m2, r)" by (cases "stop_poll W s c 0 m1")
    then show ?thesis using polls_bounded [OF p] by (cases r) (auto simp: act_bind_def)
  qed
  then show ?thesis
    by (cases "wh_scm W (ma_tools m) (query_call s)"; cases "wh_scm W (ma_tools m @ [query_call s]) (stop_call s)")
      (auto simp: stop_for_uninstall_def scm_act_bind scm_simp)
qed

lemma bat_is_not_config: "config \<noteq> uninstall_bat_path (fst config) (fst (stem_extension (snd config)))"
proof
  define stem where "stem = fst (stem_extension (snd config))"
  assume "config = uninstall_bat_path (fst config) (fst (stem_extension (snd config)))"
  then have "snd config = (''uninstall-'' @ stem) @ CHR ''.'' # ''bat''"
    by (metis append_assoc append_Cons append_Nil snd_conv stem_def uninstall_bat_path_def)
  moreover have "rsplit_once CHR ''.'' ((''uninstall-'' @ stem) @ CHR ''.'' # ''bat'') = Some (''uninstall-'' @ stem, ''bat'')"
    unfolding rsplit_once_Some_iff by simp
  ultimately have "rsplit_once CHR ''.'' (snd config) = Some (''uninstall-'' @ stem, ''bat'')" by (simp only:)
  then have "stem_extension (snd config) = (''uninstall-'' @ stem, Some ''bat'')" by (simp add: stem_extension_def)
  then have "fst (stem_extension (snd config)) = ''uninstall-'' @ stem" by (simp only: fst_conv)
  then have "stem = ''uninstall-'' @ stem" by (simp only: stem_def [symmetric])
  from arg_cong [OF this, of length] show False by simp
qed

text \<open>
  The role a configuration declares decides which service \<open>service uninstall\<close> looks for: when the
  service of the other role is the one that is installed, it is neither stopped nor deleted, and
  \<open>--purge\<close> still removes its configuration.
\<close>

lemma stale_role_orphans_service:
  assumes "config_role W (ma_disk m) config = Some role" "wh_manager W = None" "wh_json W"
    and "wh_scm W (ma_tools m) (open_call (scm_name role (config_stem ''default'' config))) = Inl e"
  shows "\<exists>m'. win_uninstall_service W True config m = (m', Inr ()) \<and>
    ma_tools m' = ma_tools m @ [open_call (scm_name role (config_stem ''default'' config))] \<and>
    (ho_unlink (wh_os W) config = None \<longrightarrow> ma_disk m' config = None)"
proof -
  have "config \<in> cleaned W config True w" for w by (simp add: cleaned_def Let_def)
  then show ?thesis
    using assms
    by (simp add: win_uninstall_service_def say_all_def say_def act_bind_def scm_has_service_def scm_simp cleanup_exact
        act_when_def is_ok_def removed_def Let_def)
qed

lemma win_uninstall_outcome:
  assumes u: "win_uninstall W config purge m = (m', r)"
  shows "if is_ok r then \<exists>s \<in> {scm_name Role_Client (config_stem ''default'' config), scm_name Role_Server (config_stem ''default'' config)}.
            \<exists>calls. ma_tools m' = ma_tools m @ calls @ [scm_call ''delete'' s []] \<and> open_call s \<in> set calls \<and>
              (case wh_scm W (ma_tools m @ calls) (scm_call ''delete'' s []) of
                 Inr _ \<Rightarrow> True | Inl e \<Rightarrow> sc_code e = ERROR_SERVICE_MARKED_FOR_DELETE) \<and>
              ma_disk m' = removed W (cleaned W config purge (ma_disk m)) (ma_disk m)
        else ma_disk m' = ma_disk m"
proof (cases "wh_manager W")
  case (Some e)
  then show ?thesis using u by (auto simp: win_uninstall_def Let_def act_bind_def open_manager_def is_ok_def)
next
  case None
  obtain m1 r1 where o: "open_for_uninstall W (config_stem ''default'' config) (config_role W (ma_disk m) config) m = (m1, r1)" by (cases "open_for_uninstall W (config_stem ''default'' config) (config_role W (ma_disk m) config) m")
  have "touches {} (open_for_uninstall W (config_stem ''default'' config) (config_role W (ma_disk m) config))"
    unfolding open_for_uninstall_def Let_def by (intro touches_intros)
  then have d1: "ma_disk m1 = ma_disk m" using o unfolding touches_def by (metis empty_iff ext fst_conv)
  show ?thesis
  proof (cases r1)
    case (Inl e)
    then show ?thesis using u o None d1
      by (auto simp: win_uninstall_def Let_def act_bind_def open_manager_def is_ok_def)
  next
    case (Inr s)
    obtain c where s: "s \<in> {scm_name Role_Client (config_stem ''default'' config), scm_name Role_Server (config_stem ''default'' config)}" "ma_tools m1 = ma_tools m @ c @ [open_call s]"
      using open_for_uninstall_ok [OF o [unfolded Inr]] by blast
    obtain m2 r2 where st: "stop_for_uninstall W s m1 = (m2, r2)" by (cases "stop_for_uninstall W s m1")
    have d2: "ma_disk m2 = ma_disk m" using stop_for_uninstall_disk [of W s m1] st d1 by simp
    obtain c2 where c2: "ma_tools m2 = ma_tools m1 @ c2" using quietD [OF quiet_stop_uninstall st] by blast
    have r: "act_seq (delete_service W s) (win_remove_service_files W config purge) m2 = (m', r)" if "is_ok r2"
      using u o None Inr st that
      by (cases r2) (auto simp: win_uninstall_def Let_def act_bind_def open_manager_def is_ok_def)
    show ?thesis
    proof (cases "is_ok r2")
      case False
      then show ?thesis using u o None Inr st d2
        by (cases r2) (auto simp: win_uninstall_def Let_def act_bind_def open_manager_def is_ok_def)
    next
      case True
      let ?c = "c @ [open_call s] @ c2" and ?d = "scm_call ''delete'' s []"
      have t: "ma_tools m2 = ma_tools m @ ?c" using s(2) c2 by simp
      show ?thesis
      proof (cases "case wh_scm W (ma_tools m2) ?d of Inr _ \<Rightarrow> True | Inl e \<Rightarrow> sc_code e = ERROR_SERVICE_MARKED_FOR_DELETE")
        case True
        then have "delete_service W s m2 = (m2\<lparr>ma_tools := ma_tools m2 @ [?d]\<rparr>, Inr ())"
          by (auto simp: delete_service_def scm_simp split: sum.splits)
        then have "m' = m2\<lparr>ma_tools := ma_tools m2 @ [?d], ma_disk := removed W (cleaned W config purge (ma_disk m)) (ma_disk m)\<rparr> \<and> r = Inr ()"
          using r [OF \<open>is_ok r2\<close>] d2 by (simp add: act_bind_def cleanup_exact)
        then show ?thesis using True s(1) t
          by (intro if_P [THEN iffD2] bexI [of _ s] exI [of _ ?c]) (simp_all add: is_ok_def)
      next
        case False
        then show ?thesis using r [OF \<open>is_ok r2\<close>] d2
          by (auto simp: act_bind_def delete_service_def scm_simp is_ok_def split: sum.splits)
      qed
    qed
  qed
qed

section \<open>Properties\<close>

text \<open>
  C31. Removing a service: the files go only after the registration. A success deleted the
  registration of one of the two names the service can have, after it opened it, or found it
  marked for deletion already, and then removed exactly the files of the clean-up; without
  \<open>--purge\<close> the configuration stays. A failure removed no file.
\<close>
theorem windows_uninstall_exact:
  "case win_uninstall W config purge m of
     (m', r) \<Rightarrow>
       (if is_ok r then
          \<exists>s \<in> {scm_name Role_Client (config_stem ''default'' config), scm_name Role_Server (config_stem ''default'' config)}.
            \<exists>calls. ma_tools m' = ma_tools m @ calls @ [scm_call ''delete'' s []] \<and> open_call s \<in> set calls \<and>
              (case wh_scm W (ma_tools m @ calls) (scm_call ''delete'' s []) of
                 Inr _ \<Rightarrow> True | Inl e \<Rightarrow> sc_code e = ERROR_SERVICE_MARKED_FOR_DELETE) \<and>
              ma_disk m' = removed W (cleaned W config purge (ma_disk m)) (ma_disk m)
        else ma_disk m' = ma_disk m) \<and>
       (\<not> purge \<and> config \<noteq> version_path config \<longrightarrow> ma_disk m' config = ma_disk m config)"
proof -
  let ?D = "removed W (cleaned W config purge (ma_disk m)) (ma_disk m)"
  obtain m' r where u: "win_uninstall W config purge m = (m', r)" by (cases "win_uninstall W config purge m")
  have kept: "?D config = ma_disk m config" if "\<not> purge" "config \<noteq> version_path config"
    using cleaned_keeps [OF that bat_is_not_config] by (simp add: removed_def)
  note main = win_uninstall_outcome [OF u]
  show ?thesis unfolding u prod.case using main kept by (cases "is_ok r") auto
qed

theorem windows_uninstall_exact_witness:
  "ma_disk (fst (win_uninstall sample_win (so_config_path sample_opts) False sample_machine)) (so_config_path sample_opts) =
     ma_disk sample_machine (so_config_path sample_opts)"
proof -
  have v: "so_config_path sample_opts \<noteq> version_path (so_config_path sample_opts)"
    by (simp add: sample_opts_def version_path_def)
  obtain m' r where u: "win_uninstall sample_win (so_config_path sample_opts) False sample_machine = (m', r)" by fastforce
  show ?thesis
    using windows_uninstall_exact [where W = sample_win and config = "so_config_path sample_opts" and purge = False
        and m = sample_machine] v unfolding u prod.case fst_conv by blast
qed

text \<open>
  C33. The contract of \<open>--json\<close> holds for the service commands on Windows, with and without
  elevation: such a command prints exactly one line. It is the envelope of this process, which says
  \<open>ok\<close> exactly when the command succeeded, or, after a success of an elevated process, the envelope that
  process wrote, and then the process is marked as relayed so that no second one follows. What
  the tools write is not printed.
\<close>
theorem windows_json_once:
  assumes "service_requests_json cmd"
    and "win_run W json_text tm cwd service_loop confirmed cmd m = (m', r)"
  shows "\<exists>line. ma_printed m' = ma_printed m @ [line] \<and>
    (if is_ok r then
       (\<exists>v. line = json_text (json_success_envelope v)) \<or>
       is_envelope W line \<and> relayed_call \<in> set (drop (length (ma_tools m)) (ma_tools m'))
     else \<exists>e. line = json_text (json_failure_envelope e))"
proof -
  let ?V = "W\<lparr>wh_json := True\<rparr>"
  let ?f = "win_dispatch_service_command ?V tm cwd service_loop confirmed cmd"
  obtain m1 s where f: "?f m = (m1, s)" by (cases "?f m")
  have "relays ?V ?f" using assms(1) by (intro relays_dispatch) simp_all
  then have "relay_end ?V m m1 (is_ok s)" using f by (metis relays_def fst_conv snd_conv)
  then obtain calls where c: "ma_tools m1 = ma_tools m @ calls"
    "if relayed_call \<in> set calls then is_ok s \<and> (\<exists>line. ma_printed m1 = ma_printed m @ [line] \<and> is_envelope ?V line)
     else ma_printed m1 = ma_printed m" unfolding relay_end_def by blast
  have e: "is_envelope ?V line = is_envelope W line" for line by (simp add: is_envelope_def)
  have r: "run_relayed ?V json_text ?f id m = (m', r)" using assms by (simp add: win_run_def Let_def)
  show ?thesis
  proof (cases "relayed_call \<in> set calls")
    case True
    then have "m' = m1 \<and> is_ok r = is_ok s" using r f c(1) by (auto simp: run_relayed_def is_ok_def split: sum.splits)
    then show ?thesis using True c e by auto
  next
    case False
    then show ?thesis using r f c by (cases s) (auto simp: run_relayed_def is_ok_def)
  qed
qed

definition sample_stop :: service_cmd where
  "sample_stop = Service_Stop \<lparr>sa_name = None, sa_all = True, sa_json = True\<rparr>"

lemma sample_relayed:
  "\<exists>m'. win_run (sample_win\<lparr>wh_dir := config_dir\<rparr>) (\<lambda>j. []) sample_terminal (Inr id) (\<lambda>p. act_return ()) False sample_stop sample_machine =
     (m', Inr ()) \<and> ma_printed m' = [sample_answer]"
proof -
  let ?r = "win_run (sample_win\<lparr>wh_dir := config_dir\<rparr>) (\<lambda>j. []) sample_terminal (Inr id) (\<lambda>p. act_return ()) False sample_stop sample_machine"
  have "is_ok (snd ?r) \<and> ma_printed (fst ?r) = [sample_answer]" by code_simp
  then show ?thesis by (cases ?r) (auto simp: is_ok_iff)
qed

theorem windows_json_once_witness:
  "\<exists>m'. win_run (sample_win\<lparr>wh_dir := config_dir\<rparr>) (\<lambda>j. []) sample_terminal (Inr id) (\<lambda>p. act_return ()) False sample_stop sample_machine =
     (m', Inr ()) \<and> is_envelope sample_win sample_answer \<and> relayed_call \<in> set (ma_tools m')"
proof -
  obtain m' where r: "win_run (sample_win\<lparr>wh_dir := config_dir\<rparr>) (\<lambda>j. []) sample_terminal (Inr id) (\<lambda>p. act_return ()) False
      sample_stop sample_machine = (m', Inr ())" "ma_printed m' = [sample_answer]" using sample_relayed by blast
  have "service_requests_json sample_stop" by (simp add: sample_stop_def)
  note once = windows_json_once [OF this r(1)]
  have e: "ma_tools sample_machine = []" "ma_printed sample_machine = []" by (simp_all add: sample_machine_def)
  have "relayed_call \<in> set (ma_tools m')" using once r(2) by (auto simp: e sample_answer_def is_ok_def)
  moreover have "is_envelope sample_win sample_answer" by (simp add: is_envelope_def)
  ultimately show ?thesis using r(1) by blast
qed

end
