(* ===== verification/Windows_Runtime.thy ===== *)
theory Windows_Runtime
  imports Windows_Commands Status_Endpoint
begin

text \<open>
  The service process on Windows: \<open>service_main_inner\<close> of \<open>src/platform/windows.rs\<close> with the control
  handler, which the service control manager calls on a thread of its own, and the worker thread
  that runs the program; and the status endpoint as a named pipe.
\<close>

section \<open>The service process\<close>

datatype svc_state = Start_Pending | Svc_Running | Stop_Pending | Svc_Stopped

datatype svc_exit = Win32 nat | Service_Specific nat

record svc_status =
  st_state :: svc_state
  st_stoppable :: bool
  st_exit :: svc_exit
  st_checkpoint :: nat
  st_wait_ms :: nat

datatype svc_control = Control_Stop | Control_Shutdown | Control_Interrogate | Control_Other

datatype handler_result = No_Error | Not_Implemented

text \<open>The worker thread; \<open>None\<close> is a panic.\<close>

datatype worker = No_Worker | Working | Worker_Ended "(anyhow + unit) option"

datatype main_phase =
    Mp_Register
  | Mp_Start_Pending
  | Mp_Logs
  | Mp_Report_Running
  | Mp_Waiting
  | Mp_Joining
  | Mp_Report_Stopped "anyhow + unit"
  | Mp_Returned "anyhow + unit"

text \<open>
  \<open>sp_queue\<close> counts the messages of the handler that were not received, \<open>sp_shutdown\<close> is the shutdown
  signal of the program, \<open>sp_reports\<close> the statuses the service control manager took.
\<close>

record service_process =
  sp_phase :: main_phase
  sp_queue :: nat
  sp_shutdown :: bool
  sp_worker :: worker
  sp_reports :: "svc_status list"

text \<open>Which calls fail. The handler is never dropped while the loop runs, so its channel stays connected.\<close>

record service_env =
  sx_register :: "anyhow option"
  sx_report :: "svc_status \<Rightarrow> anyhow option"
  sx_logs :: "anyhow option"
  sx_log_dir :: string

definition service_start :: service_process where
  "service_start =
     \<lparr>sp_phase = Mp_Register, sp_queue = 0, sp_shutdown = False, sp_worker = No_Worker, sp_reports = []\<rparr>"

definition handle_control :: "svc_control \<Rightarrow> service_process \<Rightarrow> service_process \<times> handler_result" where
  "handle_control c s =
     (case c of
        Control_Stop \<Rightarrow> (s\<lparr>sp_queue := Suc (sp_queue s)\<rparr>, No_Error)
      | Control_Shutdown \<Rightarrow> (s\<lparr>sp_queue := Suc (sp_queue s)\<rparr>, No_Error)
      | Control_Interrogate \<Rightarrow> (s, No_Error)
      | Control_Other \<Rightarrow> (s, Not_Implemented))"

definition report_status :: "service_env \<Rightarrow> svc_status \<Rightarrow> service_process \<Rightarrow> service_process \<times> (anyhow + unit)" where
  "report_status E st s =
     (case sx_report E st of
        Some e \<Rightarrow> (s, Inl e)
      | None \<Rightarrow> (s\<lparr>sp_reports := sp_reports s @ [st]\<rparr>, Inr ()))"

definition status_start_pending :: svc_status where
  "status_start_pending =
     \<lparr>st_state = Start_Pending, st_stoppable = False, st_exit = Win32 0, st_checkpoint = 1, st_wait_ms = 10000\<rparr>"

definition status_running :: svc_status where
  "status_running =
     \<lparr>st_state = Svc_Running, st_stoppable = True, st_exit = Win32 0, st_checkpoint = 0, st_wait_ms = 0\<rparr>"

definition status_stop_pending :: svc_status where
  "status_stop_pending =
     \<lparr>st_state = Stop_Pending, st_stoppable = False, st_exit = Win32 0, st_checkpoint = 2, st_wait_ms = 30000\<rparr>"

definition status_stopped :: "anyhow + unit \<Rightarrow> svc_status" where
  "status_stopped r =
     \<lparr>st_state = Svc_Stopped, st_stoppable = False, st_exit = (if is_ok r then Win32 0 else Service_Specific 1),
      st_checkpoint = 0, st_wait_ms = 0\<rparr>"

definition reported :: "service_env \<Rightarrow> svc_status \<Rightarrow> string \<Rightarrow> main_phase \<Rightarrow> service_process \<Rightarrow> service_process" where
  "reported E st c next s =
     (case report_status E st s of
        (s', Inl e) \<Rightarrow> s'\<lparr>sp_phase := Mp_Returned (Inl (Ctx c e))\<rparr>
      | (s', Inr _) \<Rightarrow> s'\<lparr>sp_phase := next\<rparr>)"

definition join_worker :: "(anyhow + unit) option \<Rightarrow> anyhow + unit" where
  "join_worker r = (case r of Some x \<Rightarrow> x | None \<Rightarrow> Inl (Err ''rathole worker thread panicked''))"

text \<open>
  One step of the main thread: a call, or one turn of the loop, whose \<open>recv_timeout\<close> got a message or
  timed out. \<open>None\<close>: it is blocked in the join, or has returned.
\<close>

definition main_step :: "service_env \<Rightarrow> service_process \<Rightarrow> service_process option" where
  "main_step E s =
     (case sp_phase s of
        Mp_Register \<Rightarrow> Some (s\<lparr>sp_phase := (case sx_register E of
            Some e \<Rightarrow> Mp_Returned (Inl (Ctx ''failed to register service control handler'' e))
          | None \<Rightarrow> Mp_Start_Pending)\<rparr>)
      | Mp_Start_Pending \<Rightarrow> Some (reported E status_start_pending ''failed to report StartPending'' Mp_Logs s)
      | Mp_Logs \<Rightarrow> Some (s\<lparr>sp_phase := (case sx_logs E of
            Some e \<Rightarrow> Mp_Returned (Inl (Ctx (''failed to create log directory '' @ sx_log_dir E) e))
          | None \<Rightarrow> Mp_Report_Running)\<rparr>)
      | Mp_Report_Running \<Rightarrow>
          (let s' = reported E status_running ''failed to report Running'' Mp_Waiting s in
           Some (if sp_phase s' = Mp_Waiting then s'\<lparr>sp_worker := Working\<rparr> else s'))
      | Mp_Waiting \<Rightarrow>
          if 0 < sp_queue s then
            Some ((fst (report_status E status_stop_pending (s\<lparr>sp_queue := sp_queue s - 1\<rparr>)))
              \<lparr>sp_shutdown := True, sp_phase := Mp_Joining\<rparr>)
          else
            Some (case sp_worker s of
                Worker_Ended r \<Rightarrow> s\<lparr>sp_phase := Mp_Report_Stopped (join_worker r)\<rparr>
              | _ \<Rightarrow> s)
      | Mp_Joining \<Rightarrow>
          (case sp_worker s of
             Worker_Ended r \<Rightarrow> Some (s\<lparr>sp_phase := Mp_Report_Stopped (join_worker r)\<rparr>)
           | _ \<Rightarrow> None)
      | Mp_Report_Stopped r \<Rightarrow> Some (reported E (status_stopped r) ''failed to report Stopped'' (Mp_Returned r) s)
      | Mp_Returned r \<Rightarrow> None)"

text \<open>
  The threads interleave. The handler can be called once it is registered; the worker, the program
  itself, can end at any time, by itself or after the shutdown.
\<close>

inductive service_step :: "service_env \<Rightarrow> service_process \<Rightarrow> service_process \<Rightarrow> bool" for E where
  Main: "main_step E s = Some s' \<Longrightarrow> service_step E s s'"
| Control: "sp_phase s \<noteq> Mp_Register \<Longrightarrow> service_step E s (fst (handle_control c s))"
| Worker: "sp_worker s = Working \<Longrightarrow> service_step E s (s\<lparr>sp_worker := Worker_Ended r\<rparr>)"

inductive service_reachable :: "service_env \<Rightarrow> service_process \<Rightarrow> bool" for E where
  Start: "service_reachable E service_start"
| Step: "service_reachable E s \<Longrightarrow> service_step E s s' \<Longrightarrow> service_reachable E s'"

inductive_cases service_stepE: "service_step E s s'"

section \<open>The life of a service\<close>

text \<open>Which reports a phase has seen, and what the worker does then.\<close>

definition phase_ok :: "service_process \<Rightarrow> bool" where
  "phase_ok s \<longleftrightarrow>
     (let states = map st_state (sp_reports s) in
      case sp_phase s of
        Mp_Register \<Rightarrow> sp_reports s = [] \<and> sp_worker s = No_Worker \<and> \<not> sp_shutdown s \<and> sp_queue s = 0
      | Mp_Start_Pending \<Rightarrow> sp_reports s = [] \<and> sp_worker s = No_Worker \<and> \<not> sp_shutdown s
      | Mp_Logs \<Rightarrow> sp_reports s = [status_start_pending] \<and> sp_worker s = No_Worker \<and> \<not> sp_shutdown s
      | Mp_Report_Running \<Rightarrow> sp_reports s = [status_start_pending] \<and> sp_worker s = No_Worker \<and> \<not> sp_shutdown s
      | Mp_Waiting \<Rightarrow> sp_reports s = [status_start_pending, status_running] \<and> sp_worker s \<noteq> No_Worker \<and> \<not> sp_shutdown s
      | Mp_Joining \<Rightarrow> sp_shutdown s \<and> sp_worker s \<noteq> No_Worker \<and>
          sp_reports s \<in> {[status_start_pending, status_running], [status_start_pending, status_running, status_stop_pending]}
      | Mp_Report_Stopped r \<Rightarrow>
          (\<exists>x. sp_worker s = Worker_Ended x \<and> r = join_worker x) \<and>
          (sp_reports s = [status_start_pending, status_running] \<or>
           sp_shutdown s \<and> sp_reports s = [status_start_pending, status_running, status_stop_pending])
      | Mp_Returned r \<Rightarrow>
          sp_worker s = No_Worker \<and> \<not> is_ok r \<and> \<not> sp_shutdown s \<and> sp_reports s \<in> {[], [status_start_pending]} \<or>
          (\<exists>x before. sp_worker s = Worker_Ended x \<and>
             before \<in> {[status_start_pending, status_running], [status_start_pending, status_running, status_stop_pending]} \<and>
             (before = [status_start_pending, status_running, status_stop_pending] \<longrightarrow> sp_shutdown s) \<and>
             (r = join_worker x \<and> sp_reports s = before @ [status_stopped r] \<or> \<not> is_ok r \<and> sp_reports s = before)))"

lemma handler_keeps [simp]:
  "sp_phase (fst (handle_control c s)) = sp_phase s" "sp_worker (fst (handle_control c s)) = sp_worker s"
  "sp_reports (fst (handle_control c s)) = sp_reports s" "sp_shutdown (fst (handle_control c s)) = sp_shutdown s"
  by (simp_all add: handle_control_def split: svc_control.split)

lemma reported_cases:
  "reported E st c next s = s\<lparr>sp_reports := sp_reports s @ [st], sp_phase := next\<rparr> \<or>
   (\<exists>e. reported E st c next s = s\<lparr>sp_phase := Mp_Returned (Inl (Ctx c e))\<rparr>)"
  by (auto simp: reported_def report_status_def split: option.split)

lemma service_start_ok: "phase_ok service_start"
  by (simp add: phase_ok_def service_start_def)

lemma phase_ok_control: "phase_ok s \<Longrightarrow> sp_phase s \<noteq> Mp_Register \<Longrightarrow> phase_ok (fst (handle_control c s))"
  by (cases "sp_phase s") (simp_all add: phase_ok_def)

lemma phase_ok_worker: "phase_ok s \<Longrightarrow> sp_worker s = Working \<Longrightarrow> phase_ok (s\<lparr>sp_worker := Worker_Ended r\<rparr>)"
  by (cases "sp_phase s") (auto simp: phase_ok_def)

lemma phase_ok_main:
  assumes "phase_ok s" "main_step E s = Some s'"
  shows "phase_ok s'"
proof (cases "sp_phase s")
  case Mp_Register
  then show ?thesis using assms by (auto simp: main_step_def phase_ok_def is_ok_def split: option.splits)
next
  case Mp_Start_Pending
  then show ?thesis using assms reported_cases [of E status_start_pending "''failed to report StartPending''" Mp_Logs s]
    by (auto simp: main_step_def phase_ok_def is_ok_def)
next
  case Mp_Logs
  then show ?thesis using assms by (auto simp: main_step_def phase_ok_def is_ok_def split: option.splits)
next
  case Mp_Report_Running
  then show ?thesis using assms reported_cases [of E status_running "''failed to report Running''" Mp_Waiting s]
    by (auto simp: main_step_def phase_ok_def is_ok_def Let_def)
next
  case Mp_Waiting
  then show ?thesis using assms
    by (auto simp: main_step_def phase_ok_def report_status_def split: if_splits worker.splits option.splits)
next
  case Mp_Joining
  then show ?thesis using assms by (auto simp: main_step_def phase_ok_def split: worker.splits)
next
  case (Mp_Report_Stopped r)
  then show ?thesis using assms reported_cases [of E "status_stopped r" "''failed to report Stopped''" "Mp_Returned r" s]
    by (auto simp: main_step_def phase_ok_def is_ok_def)
next
  case (Mp_Returned r)
  then show ?thesis using assms by (simp add: main_step_def)
qed

lemma reachable_phase_ok: "service_reachable E s \<Longrightarrow> phase_ok s"
proof (induction rule: service_reachable.induct)
  case Start
  show ?case by (rule service_start_ok)
next
  case (Step s s')
  from Step.hyps(2) show ?case using Step.IH
    by (cases rule: service_stepE) (auto intro: phase_ok_main phase_ok_control phase_ok_worker)
qed

lemma life_reports:
  assumes "phase_ok s"
  shows "map st_state (sp_reports s) \<in> {[], [Start_Pending], [Start_Pending, Svc_Running],
      [Start_Pending, Svc_Running, Stop_Pending], [Start_Pending, Svc_Running, Svc_Stopped],
      [Start_Pending, Svc_Running, Stop_Pending, Svc_Stopped]}"
    and "\<forall>st \<in> set (sp_reports s). st_stoppable st \<longleftrightarrow> st_state st = Svc_Running"
    and "\<forall>st \<in> set (sp_reports s). st_state st = Svc_Stopped \<longrightarrow>
      (\<exists>x. sp_worker s = Worker_Ended x \<and> (st_exit st = Win32 0 \<longleftrightarrow> x = Some (Inr ())))"
proof -
  note st = status_start_pending_def status_running_def status_stop_pending_def status_stopped_def
  have exit: "st_exit (status_stopped (join_worker x)) = Win32 0 \<longleftrightarrow> x = Some (Inr ())" for x
    by (auto simp: status_stopped_def join_worker_def is_ok_def split: option.splits sum.splits)
  have pending: "st_state status_start_pending \<noteq> Svc_Stopped" "st_state status_running \<noteq> Svc_Stopped"
    "st_state status_stop_pending \<noteq> Svc_Stopped" by (simp_all add: st)
  show "map st_state (sp_reports s) \<in> {[], [Start_Pending], [Start_Pending, Svc_Running],
      [Start_Pending, Svc_Running, Stop_Pending], [Start_Pending, Svc_Running, Svc_Stopped],
      [Start_Pending, Svc_Running, Stop_Pending, Svc_Stopped]}"
    using assms by (cases "sp_phase s") (auto simp: phase_ok_def st)
  show "\<forall>st \<in> set (sp_reports s). st_stoppable st \<longleftrightarrow> st_state st = Svc_Running"
    using assms by (cases "sp_phase s") (auto simp: phase_ok_def st)
  show "\<forall>st \<in> set (sp_reports s). st_state st = Svc_Stopped \<longrightarrow>
      (\<exists>x. sp_worker s = Worker_Ended x \<and> (st_exit st = Win32 0 \<longleftrightarrow> x = Some (Inr ())))"
    using assms pending exit by (cases "sp_phase s") (auto simp: phase_ok_def)
qed

definition quiet_env :: service_env where
  "quiet_env = \<lparr>sx_register = None, sx_report = (\<lambda>st. None), sx_logs = None, sx_log_dir = []\<rparr>"

lemma quiet_env_reported: "reported quiet_env st c next s = s\<lparr>sp_reports := sp_reports s @ [st], sp_phase := next\<rparr>"
  by (simp add: reported_def report_status_def quiet_env_def)

text \<open>A service that is started, told to stop, and ends well.\<close>

lemma stopped_service:
  "service_reachable quiet_env \<lparr>sp_phase = Mp_Returned (Inr ()), sp_queue = 0, sp_shutdown = True,
     sp_worker = Worker_Ended (Some (Inr ())),
     sp_reports = [status_start_pending, status_running, status_stop_pending, status_stopped (Inr ())]\<rparr>"
proof -
  let ?S = "\<lambda>p q d w r. \<lparr>sp_phase = p, sp_queue = q, sp_shutdown = d, sp_worker = w, sp_reports = r\<rparr>"
  let ?a = "status_start_pending" and ?b = "status_running" and ?c = "status_stop_pending"
  note main = Step [OF _ Main] and unfold = main_step_def quiet_env_reported Let_def
  have "service_reachable quiet_env (?S Mp_Register 0 False No_Worker [])"
    using Start by (simp add: service_start_def)
  from main [OF this] have "service_reachable quiet_env (?S Mp_Start_Pending 0 False No_Worker [])"
    by (simp add: unfold) (simp add: quiet_env_def)
  from main [OF this] have "service_reachable quiet_env (?S Mp_Logs 0 False No_Worker [?a])" by (simp add: unfold)
  from main [OF this] have "service_reachable quiet_env (?S Mp_Report_Running 0 False No_Worker [?a])"
    by (simp add: unfold) (simp add: quiet_env_def)
  from main [OF this] have r: "service_reachable quiet_env (?S Mp_Waiting 0 False Working [?a, ?b])" by (simp add: unfold)
  have "service_reachable quiet_env (?S Mp_Waiting 1 False Working [?a, ?b])"
    using Step [OF r Control, of Control_Stop] by (simp add: handle_control_def)
  from main [OF this] have r: "service_reachable quiet_env (?S Mp_Joining 0 True Working [?a, ?b, ?c])"
    by (simp add: unfold report_status_def) (simp add: quiet_env_def)
  have "service_reachable quiet_env (?S Mp_Joining 0 True (Worker_Ended (Some (Inr ()))) [?a, ?b, ?c])"
    using Step [OF r Worker, of "Some (Inr ())"] by simp
  from main [OF this] have "service_reachable quiet_env (?S (Mp_Report_Stopped (Inr ())) 0 True (Worker_Ended (Some (Inr ()))) [?a, ?b, ?c])"
    by (simp add: unfold join_worker_def)
  from main [OF this] show ?thesis by (simp add: unfold)
qed

section \<open>The status pipe\<close>

text \<open>
  Access to the pipe: the creator, that is the user of the token and its restricted groups,
  administrators and the system have all of it, authenticated users may read and write.
\<close>

definition pipe_creator_sids :: "string option \<Rightarrow> string list \<Rightarrow> string list" where
  "pipe_creator_sids user restricted = (case user of None \<Rightarrow> [] | Some sid \<Rightarrow> [sid]) @ restricted"

definition pipe_aces :: "string list \<Rightarrow> (string \<times> string) list" where
  "pipe_aces creators = map (Pair ''GA'') creators @ [(''GRGW'', ''AU''), (''GA'', ''BA''), (''GA'', ''SY'')]"

definition status_pipe_sddl :: "string option \<Rightarrow> string list \<Rightarrow> string" where
  "status_pipe_sddl user restricted =
     ''D:P'' @ concat (map (\<lambda>(rights, who). ''(A;;'' @ rights @ '';;;'' @ who @ '')'')
       (pipe_aces (pipe_creator_sids user restricted)))"

lemma pipe_full_access:
  "(''GA'', who) \<in> set (pipe_aces creators) \<longleftrightarrow> who \<in> set creators \<or> who = ''BA'' \<or> who = ''SY''"
  by (auto simp: pipe_aces_def)

definition win_strip_verbatim :: "string \<Rightarrow> string" where
  "win_strip_verbatim s =
     (let b = CHR 92; unc = [b, b, CHR ''?'', b] @ ''UNC'' @ [b]; plain = [b, b, CHR ''?'', b] in
      if starts_with unc s then [b, b] @ drop (length unc) s
      else if starts_with plain s then drop (length plain) s
      else s)"

lemma starts_with_appendD: "starts_with (a @ b) p \<Longrightarrow> starts_with a p"
proof (induction a arbitrary: p)
  case (Cons x a)
  then show ?case by (cases p) auto
qed simp

lemma verbatim_stripped:
  "win_strip_verbatim ([CHR 92, CHR 92, CHR ''?'', CHR 92] @ ''UNC'' @ CHR 92 # p) = [CHR 92, CHR 92] @ p"
  "\<not> starts_with (''UNC'' @ [CHR 92]) p \<Longrightarrow> win_strip_verbatim ([CHR 92, CHR 92, CHR ''?'', CHR 92] @ p) = p"
  "\<not> starts_with [CHR 92, CHR 92, CHR ''?'', CHR 92] p \<Longrightarrow> win_strip_verbatim p = p"
  using starts_with_appendD [of "[CHR 92, CHR 92, CHR ''?'', CHR 92]" "''UNC'' @ [CHR 92]" p]
  by (auto simp: win_strip_verbatim_def Let_def)

definition endpoint_for_config :: "string \<Rightarrow> string" where
  "endpoint_for_config name = [CHR 92, CHR 92, CHR ''.'', CHR 92] @ ''pipe'' @ CHR 92 # name"

definition pipe_answer_status_request ::
  "(runtime_snapshot \<Rightarrow> string + bytes) \<Rightarrow> u64 \<Rightarrow> runtime_snapshot \<Rightarrow> bytes \<Rightarrow> bytes" where
  "pipe_answer_status_request to_vec now registry input =
     (let request = bytes_of_str STATUS_REQUEST in
      if length input < length request \<or> take (length request) input \<noteq> request then []
      else case to_vec (snapshot now registry) of
        Inl e \<Rightarrow> []
      | Inr response \<Rightarrow>
          if length response \<le> MAX_STATUS_RESPONSE then le_bytes 4 (length response) @ response else [])"

text \<open>
  The accept loop: before a connection is answered the next instance of the pipe is created; when
  that fails the loop ends, and the connection gets no answer.
\<close>

datatype pipe_event =
    Pipe_Connected u64 runtime_snapshot bytes "anyhow option"
  | Pipe_Connect_Failed
  | Pipe_Shutdown

fun pipe_endpoint :: "(runtime_snapshot \<Rightarrow> string + bytes) \<Rightarrow> pipe_event list \<Rightarrow> bytes list" where
  "pipe_endpoint to_vec [] = []"
| "pipe_endpoint to_vec (Pipe_Connected now registry input next # es) =
     (case next of
        None \<Rightarrow> pipe_answer_status_request to_vec now registry input # pipe_endpoint to_vec es
      | Some e \<Rightarrow> [[]])"
| "pipe_endpoint to_vec (Pipe_Connect_Failed # es) = []"
| "pipe_endpoint to_vec (Pipe_Shutdown # es) = []"

definition pipe_query_runtime_status ::
  "(bytes \<Rightarrow> anyhow + runtime_snapshot) \<Rightarrow> status_conn \<Rightarrow> string \<Rightarrow> anyhow + runtime_snapshot" where
  "pipe_query_runtime_status from_slice conn endpoint =
     rbind (step_ok (''runtime status unavailable at '' @ endpoint) (sn_connect conn)) (\<lambda>_.
     rbind (step_ok ''failed to request runtime status'' (sn_write conn)) (\<lambda>_.
     rbind (step_ok ''failed to flush runtime status request'' (sn_flush conn)) (\<lambda>_.
     read_status from_slice (sn_reply conn))))"

text \<open>Both platforms speak the same protocol: a pipe that is there answers as the socket does.\<close>

lemma pipe_answers_as_socket: "pipe_answer_status_request = answer_status_request"
  by (intro ext) (simp only: pipe_answer_status_request_def answer_status_request_def)

lemma pipe_queries_as_socket:
  "sn_connect conn = None \<Longrightarrow> pipe_query_runtime_status from_slice conn a = query_runtime_status from_slice conn b"
  by (simp add: pipe_query_runtime_status_def query_runtime_status_def step_ok_def)

lemma pipe_serves_prefix:
  "\<exists>n. length (pipe_endpoint to_vec es) = n \<and> n \<le> length es \<and>
     (\<forall>i < n. \<exists>now registry input next. es ! i = Pipe_Connected now registry input next \<and>
        (next = None \<and> pipe_endpoint to_vec es ! i = answer_status_request to_vec now registry input \<or>
         next \<noteq> None \<and> pipe_endpoint to_vec es ! i = []))"
proof (induction to_vec es rule: pipe_endpoint.induct)
  case (2 to_vec now registry input "next" es)
  then show ?case
    by (cases "next") (auto simp: pipe_answers_as_socket less_Suc_eq_0_disj)
qed simp_all

section \<open>The standard streams of the elevated process\<close>

text \<open>
  \<open>redirect_stdio_to_file\<close>: the file the elevated process writes to. A name that is taken is replaced
  by another one, at most eight times; without a file the process keeps its streams.
\<close>

fun redirect_log :: "win_host \<Rightarrow> disk \<Rightarrow> nat list \<Rightarrow> path \<Rightarrow> path option" where
  "redirect_log W w [] candidate = None"
| "redirect_log W w (k # ks) candidate =
     (if path_exists w candidate then
        redirect_log W w ks (fst candidate, fst (stem_extension (snd candidate)) @ ''-'' @
          string_of_nat (wh_nanos W k) @ ''-'' @ string_of_nat k @ ''.log'')
      else if wh_temp_open W candidate = None then Some candidate else None)"

definition redirect_stdio_to_file :: "win_host \<Rightarrow> disk \<Rightarrow> path \<Rightarrow> path option" where
  "redirect_stdio_to_file W w p = redirect_log W w [0..<8] p"

lemma redirect_log_new: "redirect_log W w ks p = Some q \<Longrightarrow> \<not> path_exists w q"
  by (induction W w ks p rule: redirect_log.induct) (auto split: if_splits)

text \<open>
  The elevated process never writes into a file that was there before. But the process that waits
  for it reads the name it chose: a file that appeared under this name in between is shown as the
  output of the elevated process, which wrote its own to another one.
\<close>

lemma planted_log_is_replayed:
  assumes "w log = Some f" "io_read (wh_io W) log = None"
  shows "redirect_stdio_to_file W w log = Some q \<Longrightarrow> q \<noteq> log"
    and "elevation_log W (w(q \<mapsto> g)) log = f_content f \<or> q = log"
proof -
  show "redirect_stdio_to_file W w log = Some q \<Longrightarrow> q \<noteq> log"
    using assms(1) redirect_log_new unfolding redirect_stdio_to_file_def path_exists_def by blast
  show "elevation_log W (w(q \<mapsto> g)) log = f_content f \<or> q = log"
    using assms by (auto simp: elevation_log_def read_to_string_def)
qed

section \<open>The state of a service\<close>

text \<open>\<open>query_named_service\<close> of \<open>src/status.rs\<close> on Windows: the state and the process of a service.\<close>

definition win_query_named_service ::
  "win_host \<Rightarrow> (string \<Rightarrow> nat option) \<Rightarrow> service_role \<Rightarrow> string \<Rightarrow> computer \<Rightarrow> computer \<times> (string \<times> nat option) option" where
  "win_query_named_service W pid role name m =
     (let service = scm_name role name in
      if wh_manager W \<noteq> None then (m, None)
      else case scm W ''open'' service [] m of
        (m1, Inl _) \<Rightarrow> (m1, None)
      | (m1, Inr _) \<Rightarrow>
          (case scm W ''query'' service [] m1 of
             (m2, Inl _) \<Rightarrow> (m2, None)
           | (m2, Inr state) \<Rightarrow> (m2, Some (state, pid service))))"

section \<open>Properties\<close>



end
