(* ===== verification/Spec2Isabelle.thy ===== *)
theory Spec2Isabelle
  imports Multi_Map Protocol Config Config_Watcher Runtime_Status Transport Server Control_Channel
    Server_Pools Server_Run Client_Channel Client_Udp Client App Config_Commands Linux_Service
    Status_Endpoint Status_View Command_Line Windows_Runtime
begin

text \<open>
  A verification development of rathole-x, a reverse proxy for TCP and UDP services behind a NAT,
  with its configuration commands and its integration as a service of Linux and Windows.

  \<^bold>\<open>The program.\<close> A server accepts one control channel per service from clients that know the
  service's token. For each visitor of a service it asks the client, on the control channel, for a
  data channel, and joins the two. A configuration file is watched while the process runs: changes
  of services are handed to the running instance, any other change replaces it. The status of a
  process can be queried over a local socket or pipe. The rest of the program edits configuration
  files and installs, controls and removes services with systemd, OpenRC or the service control
  manager of Windows.

  \<^bold>\<open>The theories\<close>, in the order in which they build on each other:

  \<^item> \<open>Prelude\<close>: results (a Rust \<open>Result\<close> is a sum, \<open>?\<close> is \<open>rbind\<close>, \<open>anyhow\<close> an error with contexts),
    machine integers, shared lemmas. \<open>Rust_Std\<close>: scanning of \<open>str\<close>, parsing of numbers and of socket
    addresses as Rust's standard library documents them.
  \<^item> \<open>Multi_Map\<close> (\<open>src/multi_map.rs\<close>): the map with two keys over a heap of items reached through raw
    pointers. The locale \<open>two_key_store\<close> is what the server relies on; the model interprets it.
    The lemmas show that no operation reads a freed item or leaks one, and that every run refines
    a set of triples.
  \<^item> \<open>Protocol\<close> (\<open>src/protocol.rs\<close>): messages, packet lengths, readers, and UDP datagrams framed on a
    stream. The codec of \<open>bincode\<close> is a parameter with the laws of its format; a concrete codec in
    the file satisfies them. The lemmas are round trips, and what a datagram of 64 KiB or more does.
  \<^item> \<open>Config\<close> (\<open>src/config.rs\<close>) and \<open>Config_Watcher\<close> (\<open>src/config_watcher.rs\<close>): the types, defaults and
    validation of a configuration; the events between two configurations and the watcher loop. The
    locale \<open>instance_config\<close> is the trait of that name, interpreted for both sides.
  \<^item> \<open>Runtime_Status\<close> (\<open>src/runtime_status.rs\<close>), \<open>Status_Endpoint\<close> (\<open>src/platform/linux.rs\<close>) and
    \<open>Status_View\<close> (\<open>src/status.rs\<close>): the registry that client and server update, the socket on which
    a snapshot is served and queried, and what \<open>status\<close> shows.
  \<^item> \<open>Transport\<close> (\<open>src/helper.rs\<close>, \<open>src/transport/\<close>): addresses, socket options, proxies, the four
    transports with both TLS libraries, and the websocket tunnel as a byte stream.
  \<^item> \<open>Server\<close>, \<open>Control_Channel\<close>, \<open>Server_Pools\<close>, \<open>Server_Run\<close> (\<open>src/server.rs\<close>): the shared state with
    its handshakes, split where other tasks may run, and the hot reload; the timed loop of a control
    channel; the visitor listener and the two pools; the accept loop.
  \<^item> \<open>Client_Channel\<close>, \<open>Client_Udp\<close>, \<open>Client\<close> (\<open>src/client.rs\<close>): a control channel with its failure
    counter and the task that retries it; the forwarding of UDP; the services and their hot reload.
  \<^item> \<open>App\<close> (\<open>src/lib.rs\<close>): the role of an instance, and the main loop of the process with its instances
    and its shutdown channels, as interleaving steps.
  \<^item> \<open>Toml_Doc\<close>, \<open>Toml_Edits\<close>, \<open>Toml_Tree\<close>: the documents of the crate \<open>toml_edit\<close> as the program matches
    on them. The locale \<open>toml_edit_laws\<close> is the interface of the crate, \<open>Toml_Tree\<close> an instance of it;
    an edit is described by the assignments it makes.
  \<^item> \<open>Config_Store\<close>, \<open>Config_Edit\<close>, \<open>Config_Add\<close>, \<open>Config_Import\<close> (\<open>src/config_edit.rs\<close>) and
    \<open>Config_Commands\<close> (\<open>src/lib.rs\<close>): the files behind the commands, \<open>config list\<close>, \<open>remove\<close>, \<open>set\<close>,
    \<open>add\<close> and \<open>import\<close>, and their dispatch.
  \<^item> \<open>Linux_Host\<close>, \<open>Systemd\<close>, \<open>Openrc\<close>, \<open>Linux_Service\<close> (\<open>src/platform/\<close>, \<open>src/lib.rs\<close>): the machine a
    service command works on, the two init systems, and the commands. The locale \<open>init_backend\<close> is
    the contract of an init system, interpreted for both; an upgrade is proved once, inside it.
  \<^item> \<open>Command_Line\<close> (\<open>src/main.rs\<close>, \<open>src/lib.rs\<close>, \<open>src/cli.rs\<close>): the dispatch of all commands, the JSON
    mode and the exit status.
  \<^item> \<open>Windows_Args\<close>, \<open>Windows_Host\<close>, \<open>Windows_Relay\<close>, \<open>Windows_Service\<close>, \<open>Windows_Install\<close>,
    \<open>Windows_Upgrade\<close>, \<open>Windows_Commands\<close>, \<open>Windows_Runtime\<close> (\<open>src/platform/windows.rs\<close>): command lines and
    access rules; the tools and the service control manager, whose calls are recorded in their
    order; the relay to an elevated process; the service commands; what an installation, an
    upgrade and a removal do on every way of failing; the JSON mode; the service process and the
    status pipe. A calculus of call traces (\<open>makes\<close>, \<open>undone\<close>) and of output (\<open>quiet\<close>, \<open>relays\<close>) carries the
    proofs.
  \<^item> this theory: a client and a server talking to each other.

  \<^bold>\<open>How the code is rendered.\<close> Machine integers are words of their width, strings are byte lists in
  UTF-8, a \<open>HashMap\<close> is a map, or an association list with distinct keys where it is iterated.
  Functions that fail return sums; a function that may panic returns an option, \<open>None\<close> being the
  panic. Concurrent tasks are step functions or step relations over a shared state, one step for
  what happens between two points where another task may run; theorems about them quantify over
  all reachable states or all sequences of steps. Time is a number of milliseconds that a step
  carries. A file system is a map from paths to files, and every call that can fail has a
  parameter that says whether it does and what it leaves; so every error path is a branch.

  Parameters stand for code outside the repository: the hash and codec, TLS, noise and websocket
  libraries, \<open>toml\<close>, \<open>toml_edit\<close>, \<open>serde_json\<close>, \<open>clap\<close>, name lookup, the clock, random numbers,
  the operating system and its tools. What a theorem assumes of them is a named predicate or
  locale, with an instance that satisfies it in the same theory or in its witness.

  \<^bold>\<open>Termination and bounds.\<close> No definition uses fuel. Loops that may run for ever are step relations,
  and that they end is stated where it holds, with the steps left or a measure. Interactive loops
  recurse on the prompts that are answered. The bounds of the code (channel capacities, pool sizes,
  time-outs, the length of packets, datagrams, error texts and status replies) have their values.

  \<^bold>\<open>The properties\<close>, by what they are about:

  \<^item> tunnels: the same token connects, a wrong one is refused, a control channel is owned by one
    service or handshake and was authenticated, a data channel goes to the pool that asked for it;
  \<^item> reloads: events, server, client and process end where a restart on the new file would, at most
    one instance runs, and shutdown ends every task, with the exceptions the theorems name;
  \<^item> forwarding: visitors meet data channels in order and none is left waiting, UDP sessions keep
    their visitor and their order;
  \<^item> liveness of a channel: heartbeats, deadlines, and the causes for which a channel is rebuilt;
  \<^item> configuration: what loads, what a loaded configuration guarantees, and the exact effect of every
    command on the document, with files untouched when a command fails;
  \<^item> services: which files a command may change, what a successful one has done, what a failed one
    leaves behind, and how it is run with elevated rights;
  \<^item> status: the registry is consistent, a query returns it, and the view shows no secret.

  \<^bold>\<open>Not modelled.\<close> On Windows, the decoding of console output, the token of the process, the creation of
  the pipe and the dispatcher of services (calls of the Windows API, parameters where they matter);
  the stubs for other platforms, the build script, the parser of the command line and the help texts, logging, the lines configuration
  commands print for people, the texts of prompts, the copying of bytes between two connected TCP
  streams (\<open>copy_bidirectional\<close> of tokio), and the poll functions that only delegate. Fairness of the
  scheduler is not assumed: where progress is claimed, it is that the next step is possible.
\<close>

section \<open>A client and a server with the same token\<close>

text \<open>Registering changes of a channel's ends nothing but the shutdown signal.\<close>

definition ends_view :: "'c server \<Rightarrow> nat \<Rightarrow> ('c list \<times> bool) option" where
  "ends_view s c = map_option (\<lambda>x. (ce_data x, ce_receiver_alive x)) (sv_store s c)"

lemma drop_handle_view [simp]: "ends_view (drop_handle h s) c = ends_view s c"
  by (simp add: ends_view_def drop_handle_def option.map_comp comp_def)

lemma channels_view [simp]: "ends_view (s\<lparr>sv_channels := m\<rparr>) c = ends_view s c"
  by (simp add: ends_view_def)

lemma remove_channel_view:
  assumes "remove_channel d s = Some s'"
  shows "ends_view s' c = ends_view s c"
proof -
  obtain m r where "mm_remove1 (sv_channels s) d = Some (m, r)"
    using assms by (auto simp: remove_channel_def)
  then show ?thesis using assms
    by (cases r) (auto simp only: remove_channel_def option.map prod.case option.case option.inject
        drop_handle_view channels_view)
qed

lemma insert_channel_view:
  assumes "insert_channel d k h s = Some s'"
  shows "ends_view s' c = ends_view s c"
proof -
  obtain m r where "mm_insert (sv_channels s) d k h = Some (m, r)"
    using assms by (auto simp: insert_channel_def)
  then show ?thesis using assms
    by (cases r) (auto simp only: insert_channel_def option.map prod.case sum.case option.inject
        drop_handle_view channels_view)
qed

lemma hs_register_view:
  assumes "hs_register i s = Some s'" "sv_handshakes s i = Some (Registering d k h)"
  shows "ends_view s' c = ends_view s c"
proof -
  obtain s1 s2 where s: "remove_channel d s = Some s1" "insert_channel d k h s1 = Some s2"
    "s' = s2\<lparr>sv_handshakes := (sv_handshakes s2)(i := None)\<rparr>"
    using assms by (auto simp: hs_register_def bind_eq_Some_conv)
  have "ends_view s' c = ends_view s2 c" by (simp add: s(3) ends_view_def)
  then show ?thesis by (simp add: remove_channel_view [OF s(1)] insert_channel_view [OF s(2)])
qed

text \<open>
  The server's side, for a peer that sends its hello and then the right digest on a connection
  without interference: it is registered, with fresh empty queues.
\<close>

lemma server_accepts:
  assumes env: "bincode_env (codec E) (name_digest E)" and sha: "\<And>bs. wf_digest (sha256 E bs)"
    and inv: "server_inv E s" and free: "sv_handshakes s i = None"
    and svc: "sv_services s d = Some svc" and d: "wf_digest d"
    and entry: "rs_services (sv_runtime s) (ssc_name svc) = Some (Server st)"
    and k: "k = sha256 E (token_bytes svc @ nonce)" and new: "by2 (sv_channels s) k = None"
  shows "\<exists>s' h. handle_connection E now i src nonce conn
      (ser_hello (codec E) (ControlChannelHello CURRENT_PROTO_VERSION d) @ ser_auth (codec E) (Auth k)) s =
      Some (s', ser_hello (codec E) (ControlChannelHello CURRENT_PROTO_VERSION nonce) @ ser_ack (codec E) Ok, None) \<and>
    server_inv E s' \<and> by1 (sv_channels s') d = Some (k, h) \<and> h_service h = svc \<and>
    ends_view s' (h_chan h) = Some ([], True)"
proof -
  have kw: "wf_digest k" using sha by (simp add: k)
  have eq: "digest_eq (sha256 E (token_bytes svc @ nonce)) k" by (simp add: k digest_eq_iff)
  have sc: "snd (server_connected now (sv_runtime s) (ssc_name svc) src) = Some now"
    by (simp add: server_connected_def entry)
  let ?s1 = "fst (hs_hello E i src nonce d s)"
  let ?s2 = "fst (hs_auth E now i k ?s1)"
  let ?h = "\<lparr>h_chan = sv_next s, h_service = svc\<rparr>"
  have inv2: "server_inv E ?s2" by (rule hs_auth_inv [OF hs_hello_inv [OF inv free]])
  have s1: "?s1 = s\<lparr>sv_handshakes := (sv_handshakes s)(i \<mapsto> Awaiting_Auth d nonce svc src)\<rparr>"
    by (simp add: hs_hello_def svc Let_def)
  obtain rt where rt: "server_connected now (sv_runtime s) (ssc_name svc) src = (rt, Some now)"
    using sc by (cases "server_connected now (sv_runtime s) (ssc_name svc) src") simp
  have ph: "sv_handshakes ?s2 i = Some (Registering d k ?h)" and ch: "sv_channels ?s2 = sv_channels s"
    and st: "ends_view ?s2 (sv_next s) = Some ([], True)"
    using eq by (simp_all add: s1 hs_auth_def Let_def rt handle_new_def k ends_view_def)
  obtain s' where s': "hs_register i ?s2 = Some s'" "server_inv E s'"
    "by1 (sv_channels s') = (by1 (sv_channels ?s2))(d \<mapsto> (k, ?h))"
    by (rule hs_register_ok [OF inv2, of i d k ?h]) (use ph new ch in \<open>auto simp: in_handshake_def\<close>)
  have out: "do_control_channel_handshake E now i src nonce d (ser_auth (codec E) (Auth k) @ []) s =
      Some (s', ser_hello (codec E) (ControlChannelHello 1 nonce) @ ser_ack (codec E) Ok, None)"
    using handshake_outcome [OF env kw svc, of now i src nonce "[]"] eq sc s'(1) by simp
  have "read_hello (codec E) (packet_len E)
      (ser_hello (codec E) (ControlChannelHello CURRENT_PROTO_VERSION d) @ ser_auth (codec E) (Auth k)) =
      Inr (ControlChannelHello CURRENT_PROTO_VERSION d, ser_auth (codec E) (Auth k))"
    using read_hello_written [OF env, of "ControlChannelHello CURRENT_PROTO_VERSION d"] d by (simp add: packet_len_def)
  then have "handle_connection E now i src nonce conn
      (ser_hello (codec E) (ControlChannelHello CURRENT_PROTO_VERSION d) @ ser_auth (codec E) (Auth k)) s =
      Some (s', ser_hello (codec E) (ControlChannelHello CURRENT_PROTO_VERSION nonce) @ ser_ack (codec E) Ok, None)"
    using out by (simp add: handle_connection_def CURRENT_PROTO_VERSION_def PROTO_V1_def)
  moreover have "by1 (sv_channels s') d = Some (k, ?h)" by (simp add: s'(3))
  moreover have "ends_view s' (h_chan ?h) = Some ([], True)"
    using hs_register_view [OF s'(1) ph] st by simp
  ultimately show ?thesis using s'(2) by (metis control_channel_handle.select_convs(2))
qed

text \<open>A data channel that shows the key of a registered channel with room is queued for it.\<close>

lemma server_takes_data_channel:
  assumes env: "bincode_env (codec E) (name_digest E)" and inv: "server_inv E s"
    and ch: "by1 (sv_channels s) d = Some (k, h)" "ends_view s (h_chan h) = Some (q, True)"
    and room: "length q < CHAN_SIZE * 2" and k: "wf_digest k"
  shows "\<exists>s'. handle_connection E now i src nonce conn
      (ser_hello (codec E) (DataChannelHello CURRENT_PROTO_VERSION k)) s = Some (s', [], None) \<and>
    ends_view s' (h_chan h) = Some (q @ [conn], True)"
proof -
  have b2: "by2 (sv_channels s) k = Some (d, h)"
    using ch(1) by1_by2 [OF server_invD(1) [OF inv]] by blast
  obtain x where x: "sv_store s (h_chan h) = Some x" "ce_data x = q" "ce_receiver_alive x"
    using ch(2) by (auto simp: ends_view_def)
  have "do_data_channel_handshake conn k s = Some (s\<lparr>sv_store := (sv_store s)(h_chan h \<mapsto>
      x\<lparr>ce_data := q @ [conn], ce_arrived := Suc (ce_arrived x)\<rparr>)\<rparr>, Delivered)"
    using inv
  proof (cases rule: data_handshake_cases [where n = k and conn = conn])
    case wrong
    then show ?thesis using b2 by simp
  next
    case (known e g y)
    then show ?thesis using b2 x room by auto
  qed
  moreover have "read_hello (codec E) (packet_len E) (ser_hello (codec E) (DataChannelHello CURRENT_PROTO_VERSION k)) =
      Inr (DataChannelHello CURRENT_PROTO_VERSION k, [])"
    using read_hello_written [OF env, of "DataChannelHello CURRENT_PROTO_VERSION k" "[]"] k
    by (simp add: packet_len_def)
  ultimately show ?thesis by (simp add: handle_connection_def ends_view_def x(3))
qed

section \<open>Properties\<close>

text \<open>
  C1. A client and a server that share a service's name and token reach each other: reading what
  the other writes, the client's handshake ends with the session key under which the server
  registered the service's control channel, in place of any older one; and when the client then
  opens a data channel with that key, the server hands that connection to this channel's pool.
\<close>

theorem same_token_connects:
  assumes "bincode_env (codec E) (name_digest E)" "\<And>bs. wf_digest (sha256 E bs)" "wf_digest nonce"
    and "server_inv E s" "sv_handshakes s i = None" "sv_handshakes s j = None"
    and "sv_services s (name_digest E (csc_name c)) = Some svc" "token_bytes svc = client_token_bytes c"
    and "rs_services (sv_runtime s) (ssc_name svc) = Some (Server st)"
    and "by2 (sv_channels s) (sha256 E (client_token_bytes c @ nonce)) = None"
  shows "\<exists>to_server to_client s1 s2 k h conn data.
    cc_handshake E c \<lparr>conn_in = to_client, conn_out = open_sink\<rparr> = Inr (k, conn) \<and>
    written (conn_out conn) = to_server \<and>
    handle_connection E now i src nonce cc to_server s = Some (s1, to_client, None) \<and>
    by1 (sv_channels s1) (name_digest E (csc_name c)) = Some (k, h) \<and>
    do_client_data_handshake E k (Inr \<lparr>conn_in = inp, conn_out = open_sink\<rparr>) = Inr data \<and>
    handle_connection E now j src' nonce' dc (written (conn_out data)) s1 = Some (s2, [], None) \<and>
    ends_view s2 (h_chan h) = Some ([dc], True)"
proof -
  let ?d = "name_digest E (csc_name c)" and ?k = "sha256 E (client_token_bytes c @ nonce)"
  have d: "wf_digest ?d" using bincode_envD(2) [OF assms(1)] .
  obtain s1 h where s1: "handle_connection E now i src nonce cc
      (ser_hello (codec E) (ControlChannelHello CURRENT_PROTO_VERSION ?d) @ ser_auth (codec E) (Auth ?k)) s =
      Some (s1, ser_hello (codec E) (ControlChannelHello CURRENT_PROTO_VERSION nonce) @ ser_ack (codec E) Ok, None)"
    "server_inv E s1" "by1 (sv_channels s1) ?d = Some (?k, h)" "ends_view s1 (h_chan h) = Some ([], True)"
    using server_accepts [OF assms(1,2,4,5,7) d assms(9), of ?k nonce now src cc] assms(8,10) by auto
  have cl: "cc_handshake E c \<lparr>conn_in = ser_hello (codec E) (ControlChannelHello CURRENT_PROTO_VERSION nonce) @
      ser_ack (codec E) Ok @ [], conn_out = open_sink\<rparr> =
      Inr (?k, \<lparr>conn_in = [], conn_out = open_sink\<lparr>written := written open_sink @
        ser_hello (codec E) (ControlChannelHello CURRENT_PROTO_VERSION ?d) @ ser_auth (codec E) (Auth ?k)\<rparr>\<rparr>)"
    using client_handshake_outcome [OF assms(1,3) _ assms(2), of open_sink c Ok "[]"] by (simp add: open_sink_def)
  obtain s2 where s2: "handle_connection E now j src' nonce' dc
      (ser_hello (codec E) (DataChannelHello CURRENT_PROTO_VERSION ?k)) s1 = Some (s2, [], None)"
    "ends_view s2 (h_chan h) = Some ([] @ [dc], True)"
    using server_takes_data_channel [OF assms(1) s1(2-4) _ assms(2), of now j src' nonce' dc]
    by (auto simp: CHAN_SIZE_def)
  let ?out = "ser_hello (codec E) (ControlChannelHello CURRENT_PROTO_VERSION ?d) @ ser_auth (codec E) (Auth ?k)"
  let ?in = "ser_hello (codec E) (ControlChannelHello CURRENT_PROTO_VERSION nonce) @ ser_ack (codec E) Ok"
  let ?conn = "\<lparr>conn_in = [], conn_out = open_sink\<lparr>written := ?out\<rparr>\<rparr>"
  let ?data = "\<lparr>conn_in = inp, conn_out = open_sink\<lparr>written :=
      ser_hello (codec E) (DataChannelHello CURRENT_PROTO_VERSION ?k)\<rparr>\<rparr>"
  have "cc_handshake E c \<lparr>conn_in = ?in, conn_out = open_sink\<rparr> = Inr (?k, ?conn)"
    using cl by (simp add: open_sink_def)
  moreover have "do_client_data_handshake E ?k (Inr \<lparr>conn_in = inp, conn_out = open_sink\<rparr>) = Inr ?data"
    using client_data_hello [of open_sink E ?k inp] by (simp add: open_sink_def)
  moreover have "written (conn_out ?conn) = ?out" "written (conn_out ?data) =
      ser_hello (codec E) (DataChannelHello CURRENT_PROTO_VERSION ?k)" by simp_all
  ultimately show ?thesis using s1(1,3) s2 by (metis append_Nil)
qed

text \<open>
  C2. A wrong token gets nowhere: when the client's token gives another key than the server's for
  this nonce, the server answers that the authentication failed, which is what the client
  reports, and no channel, service or queue of the server changes.
\<close>

theorem wrong_token_refused:
  assumes "bincode_env (codec E) (name_digest E)" "\<And>bs. wf_digest (sha256 E bs)" "wf_digest nonce"
    and "sv_services s (name_digest E (csc_name c)) = Some svc"
    and "sha256 E (token_bytes svc @ nonce) \<noteq> sha256 E (client_token_bytes c @ nonce)"
  shows "\<exists>to_client s1 e.
    handle_connection E now i src nonce cc
      (ser_hello (codec E) (ControlChannelHello CURRENT_PROTO_VERSION (name_digest E (csc_name c))) @
       ser_auth (codec E) (Auth (sha256 E (client_token_bytes c @ nonce)))) s = Some (s1, to_client, Some e) \<and>
    cc_handshake E c \<lparr>conn_in = to_client, conn_out = open_sink\<rparr> =
      Inl (Ctx (''Authentication failed: '' @ csc_name c) (Err (display_ack AuthFailed))) \<and>
    sv_channels s1 = sv_channels s \<and> sv_services s1 = sv_services s \<and> sv_store s1 = sv_store s \<and>
    sv_runtime s1 = sv_runtime s"
proof -
  let ?d = "name_digest E (csc_name c)" and ?k = "sha256 E (client_token_bytes c @ nonce)"
  have "length (sha256 E (token_bytes svc @ nonce)) = length ?k"
    using assms(2) by (simp add: wf_digest_def)
  then have ne: "\<not> digest_eq (sha256 E (token_bytes svc @ nonce)) ?k"
    using assms(5) by (simp add: digest_eq_iff)
  have ra: "read_auth (codec E) (packet_len E) (ser_auth (codec E) (Auth ?k)) = Inr (Auth ?k, [])"
    using read_auth_written [OF assms(1) assms(2), of "client_token_bytes c @ nonce" "[]"]
    by (simp add: packet_len_def)
  have rh: "read_hello (codec E) (packet_len E)
      (ser_hello (codec E) (ControlChannelHello CURRENT_PROTO_VERSION ?d) @ ser_auth (codec E) (Auth ?k)) =
      Inr (ControlChannelHello CURRENT_PROTO_VERSION ?d, ser_auth (codec E) (Auth ?k))"
    using read_hello_written [OF assms(1), of "ControlChannelHello CURRENT_PROTO_VERSION ?d"]
      bincode_envD(2) [OF assms(1)] by (simp add: packet_len_def)
  have cl: "cc_handshake E c \<lparr>conn_in = ser_hello (codec E) (ControlChannelHello CURRENT_PROTO_VERSION nonce) @
      ser_ack (codec E) AuthFailed @ [], conn_out = open_sink\<rparr> =
      Inl (Ctx (''Authentication failed: '' @ csc_name c) (Err (display_ack AuthFailed)))"
    using client_handshake_outcome [OF assms(1,3) _ assms(2), of open_sink c AuthFailed "[]"]
    by (simp add: open_sink_def)
  show ?thesis
    using cl by (auto simp: handle_connection_def rh do_control_channel_handshake_def hs_hello_def assms(4)
        Let_def ra hs_auth_def ne)
qed

section \<open>A sample tunnel\<close>

definition sample_ssh_client :: client_service_config where
  "sample_ssh_client = (client_service_with_name ''ssh'')\<lparr>csc_token := Some (MaskedString ''t0'')\<rparr>"

lemma sample_tunnel_facts:
  "sv_services sample_state (name_digest sample_env (csc_name sample_ssh_client)) \<noteq> None"
  "map_option token_bytes (sv_services sample_state (name_digest sample_env (csc_name sample_ssh_client))) =
     Some (client_token_bytes sample_ssh_client)"
  "map_option ssc_name (sv_services sample_state (name_digest sample_env (csc_name sample_ssh_client))) = Some ''ssh''"
  by code_simp+

lemma by2_mm_new [simp]: "by2 mm_new k = None"
  by (simp add: by2_def mm_new_def find_entry_def)

lemma sample_tunnel_state:
  "sv_handshakes sample_state i = None" "by2 (sv_channels sample_state) k = None"
  "rs_services (sv_runtime sample_state) ''ssh'' = Some new_server_status"
  by (simp_all add: sample_state_def server_from_def server_registry_def)

lemma sample_sha_wf: "wf_digest (sha256 sample_env bs)"
  by (simp add: sample_env_def toy_sha_wf)

theorem same_token_connects_witness:
  "\<exists>to_server to_client s1 s2 k h conn data.
    cc_handshake sample_env sample_ssh_client \<lparr>conn_in = to_client, conn_out = open_sink\<rparr> = Inr (k, conn) \<and>
    written (conn_out conn) = to_server \<and>
    handle_connection sample_env 5 0 (V4 1 5) (replicate 32 7) 1 to_server sample_state = Some (s1, to_client, None) \<and>
    by1 (sv_channels s1) (name_digest sample_env ''ssh'') = Some (k, h) \<and>
    do_client_data_handshake sample_env k (Inr \<lparr>conn_in = [], conn_out = open_sink\<rparr>) = Inr data \<and>
    handle_connection sample_env 5 1 (V4 1 6) (replicate 32 8) 2 (written (conn_out data)) s1 = Some (s2, [], None) \<and>
    ends_view s2 (h_chan h) = Some ([2], True)"
proof -
  obtain svc where svc: "sv_services sample_state (name_digest sample_env (csc_name sample_ssh_client)) = Some svc"
    using sample_tunnel_facts(1) by blast
  have t: "token_bytes svc = client_token_bytes sample_ssh_client" "ssc_name svc = ''ssh''"
    using sample_tunnel_facts(2,3) by (simp_all add: svc)
  have n: "csc_name sample_ssh_client = ''ssh''" by (simp add: sample_ssh_client_def client_service_with_name_def)
  have e: "rs_services (sv_runtime sample_state) (ssc_name svc) = Some (Server \<lparr>ss_state = S_Waiting,
      control_channel_source = None, connected_since_unix_ms = None, last_disconnected_or_error = None\<rparr>)"
    by (simp add: t sample_tunnel_state(3) new_server_status_def)
  have inv: "server_inv sample_env sample_state" by (simp add: sample_state_def server_from_inv)
  have nw: "wf_digest (replicate 32 7)" by (simp add: wf_digest_def HASH_WIDTH_IN_BYTES_def)
  show ?thesis
    using same_token_connects [OF sample_env_ok sample_sha_wf nw inv sample_tunnel_state(1,1) svc t(1) e
        sample_tunnel_state(2), where cc = 1 and dc = 2 and now = 5 and src = "V4 1 5" and src' = "V4 1 6"
        and nonce' = "replicate 32 8" and inp = "[]"]
    unfolding n .
qed

theorem wrong_token_refused_witness:
  "\<exists>to_client s1 e.
    handle_connection sample_env 5 0 (V4 1 5) (replicate 32 7) 1
      (ser_hello (codec sample_env) (ControlChannelHello CURRENT_PROTO_VERSION (name_digest sample_env ''ssh'')) @
       ser_auth (codec sample_env) (Auth (sha256 sample_env (bytes_of_str ''bad'' @ replicate 32 7)))) sample_state =
      Some (s1, to_client, Some e) \<and>
    sv_channels s1 = sv_channels sample_state"
proof -
  let ?c = "sample_ssh_client\<lparr>csc_token := Some (MaskedString ''bad'')\<rparr>"
  have n: "csc_name ?c = ''ssh''" "csc_name sample_ssh_client = ''ssh''"
    by (simp_all add: sample_ssh_client_def client_service_with_name_def)
  obtain svc where svc: "sv_services sample_state (name_digest sample_env (csc_name ?c)) = Some svc"
    using sample_tunnel_facts(1) n by auto
  have t: "token_bytes svc = client_token_bytes sample_ssh_client" using sample_tunnel_facts(2) svc n by simp
  have b: "client_token_bytes ?c = bytes_of_str ''bad''" by (simp add: client_token_bytes_def)
  have "sha256 sample_env (client_token_bytes sample_ssh_client @ replicate 32 7) \<noteq>
      sha256 sample_env (bytes_of_str ''bad'' @ replicate 32 7)" by code_simp
  then have "sha256 sample_env (token_bytes svc @ replicate 32 7) \<noteq> sha256 sample_env (client_token_bytes ?c @ replicate 32 7)"
    by (simp only: t b not_False_eq_True)
  moreover have "wf_digest (replicate 32 7)" by (simp add: wf_digest_def HASH_WIDTH_IN_BYTES_def)
  ultimately show ?thesis
    using wrong_token_refused [OF sample_env_ok sample_sha_wf _ svc, of "replicate 32 7" 5 0 "V4 1 5" 1]
    unfolding b n by blast
qed

end
